(* ===== verification/Prelude.thy ===== *)
theory Prelude
  imports Main "HOL-Library.Word"
begin

text \<open>
  Shared vocabulary of the development: the C integer types as words, the
  wrap-around arithmetic of \<open>size_t\<close>-like quantities, list lemmas on \<open>take\<close>, \<open>drop\<close>
  and updates that the buffer theories use, and the collections of facts the
  component proofs hand to the simplifier.
\<close>

section \<open>Collections\<close>

named_theorems mem_simps \<open>rewriting of buffer loads and stores\<close>
named_theorems io_simps \<open>unfolding of system-call programs\<close>

section \<open>Machine integers\<close>

type_synonym u8 = "8 word"
type_synonym u16 = "16 word"
type_synonym u32 = "32 word"
type_synonym u64 = "64 word"

text \<open>Unsigned 64-bit sums of quantities kept as natural numbers (\<open>size_t\<close>, \<open>lzo_uint\<close>).\<close>

definition wrap64 :: "nat \<Rightarrow> nat" where
  "wrap64 n = n mod 2 ^ 64"

definition wrap32 :: "nat \<Rightarrow> nat" where
  "wrap32 n = n mod 2 ^ 32"

lemma wrap64_id [simp]: "n < 2 ^ 64 \<Longrightarrow> wrap64 n = n"
  by (simp add: wrap64_def)

lemma wrap32_id [simp]: "n < 2 ^ 32 \<Longrightarrow> wrap32 n = n"
  by (simp add: wrap32_def)

lemma wrap64_less: "wrap64 n < 2 ^ 64"
  by (simp add: wrap64_def)

text \<open>The byte \<open>(unsigned char) n\<close> of a natural number.\<close>

definition byte_of :: "nat \<Rightarrow> u8" where
  "byte_of n = word_of_nat n"

lemma unat_byte_of [simp]: "unat (byte_of n) = n mod 256"
  by (simp add: byte_of_def unat_of_nat)

lemma unat_u8_less [simp]: "unat (b :: u8) < 256"
  using unsigned_less [where w = b] by simp

lemma unat_u8_le [simp]: "unat (b :: u8) \<le> 255"
  using unat_u8_less [of b] by linarith

lemma byte_of_unat [simp]: "byte_of (unat b) = b"
  by (simp add: byte_of_def)

lemma byte_of_neq_0: "0 < n \<Longrightarrow> n < 256 \<Longrightarrow> byte_of n \<noteq> 0"
proof
  assume "0 < n" "n < 256" "byte_of n = 0"
  then have "unat (byte_of n) = 0" by simp
  with \<open>0 < n\<close> \<open>n < 256\<close> show False
    by (simp only: unat_byte_of) simp
qed

section \<open>Lists\<close>

lemma take_nth_append: "i < n \<Longrightarrow> n \<le> length xs \<Longrightarrow> (take n xs @ ys) ! i = xs ! i"
  by (simp add: nth_append)

lemma take_add_drop: "take (m + n) xs = take m xs @ take n (drop m xs)"
  by (rule take_add)

lemma nth_drop_take: "i < k \<Longrightarrow> take k (drop n xs) ! i = drop n xs ! i"
  by simp

end
