(* ===== verification/Memory.thy ===== *)
theory Memory
  imports Prelude
begin

text \<open>
  Byte buffers with checked accesses, and the memory primitives of
  \<^verbatim>\<open>minilzo.c\<close> (\<open>LZO_MEMOPS_*\<close>, \<open>UA_*\<close>, the bit scans). A buffer is the list of its
  bytes, a pointer into it an offset; an access outside the buffer is the value \<open>None\<close>,
  so that undefined behaviour is visible in every result. The theory ends with the
  interface of a forward copy, which the chunked copy (8, 4 and 1 bytes at a time) and
  the byte loop of the decompressor both implement.
\<close>

unbundle bit_operations_syntax

section \<open>Loads and stores\<close>

definition load :: "u8 list \<Rightarrow> nat \<Rightarrow> u8 option" where
  "load buf i = (if i < length buf then Some (buf ! i) else None)"

definition store :: "u8 list \<Rightarrow> nat \<Rightarrow> u8 list \<Rightarrow> u8 list option" where
  "store buf i bs = (if i + length bs \<le> length buf
     then Some (take i buf @ bs @ drop (i + length bs) buf) else None)"

definition load_n :: "nat \<Rightarrow> u8 list \<Rightarrow> nat \<Rightarrow> u8 list option" where
  "load_n k buf i = (if i + k \<le> length buf then Some (take k (drop i buf)) else None)"

lemma load_Some [mem_simps]: "i < length buf \<Longrightarrow> load buf i = Some (buf ! i)"
  by (simp add: load_def)

lemma load_eq_Some: "load buf i = Some b \<longleftrightarrow> i < length buf \<and> b = buf ! i"
  by (auto simp: load_def)

lemma load_eq_None: "load buf i = None \<longleftrightarrow> length buf \<le> i"
  by (auto simp: load_def)

lemma store_Some [mem_simps]: "i + length bs \<le> length buf \<Longrightarrow>
    store buf i bs = Some (take i buf @ bs @ drop (i + length bs) buf)"
  by (simp add: store_def)

lemma store_eq_Some: "store buf i bs = Some buf' \<longleftrightarrow>
    i + length bs \<le> length buf \<and> buf' = take i buf @ bs @ drop (i + length bs) buf"
  by (auto simp: store_def)

lemma store_length: "store buf i bs = Some buf' \<Longrightarrow> length buf' = length buf"
  by (auto simp: store_eq_Some)

lemma load_n_Some [mem_simps]: "i + k \<le> length buf \<Longrightarrow> load_n k buf i = Some (take k (drop i buf))"
  by (simp add: load_n_def)

lemma load_n_eq_Some: "load_n k buf i = Some bs \<longleftrightarrow>
    i + k \<le> length buf \<and> bs = take k (drop i buf)"
  by (auto simp: load_n_def)

lemma load_n_length: "load_n k buf i = Some bs \<Longrightarrow> length bs = k"
  by (auto simp: load_n_eq_Some)

section \<open>Block copies\<close>

text \<open>
  The source of a copy is another buffer or the destination itself: a match of the
  decompressor copies inside the output.
\<close>

datatype source = From "u8 list" | Self

fun source_of :: "source \<Rightarrow> u8 list \<Rightarrow> u8 list" where
  "source_of (From xs) d = xs"
| "source_of Self d = d"

text \<open>
  \<open>LZO_MEMOPS_COPY1/4/8\<close>: one load of \<open>k\<close> bytes, then one store of them.
\<close>

definition ua_copy :: "nat \<Rightarrow> source \<Rightarrow> u8 list \<Rightarrow> nat \<Rightarrow> nat \<Rightarrow> u8 list option" where
  "ua_copy k s d di si =
     (case load_n k (source_of s d) si of None \<Rightarrow> None | Some bs \<Rightarrow> store d di bs)"

text \<open>\<open>n\<close> rounds of \<open>*op++ = *ip++\<close>.\<close>

primrec byte_loop :: "nat \<Rightarrow> source \<Rightarrow> u8 list \<Rightarrow> nat \<Rightarrow> nat \<Rightarrow> u8 list option" where
  "byte_loop 0 s d di si = Some d"
| "byte_loop (Suc n) s d di si =
     (case ua_copy 1 s d di si of None \<Rightarrow> None
      | Some d' \<Rightarrow> byte_loop n s d' (di + 1) (si + 1))"

text \<open>
  \<open>do *op++ = *ip++; while (--t > 0)\<close>: the body runs before the test, so a count of
  zero wraps around to $2^{64}$ rounds.
\<close>

definition do_while_copy :: "nat \<Rightarrow> source \<Rightarrow> u8 list \<Rightarrow> nat \<Rightarrow> nat \<Rightarrow> u8 list option" where
  "do_while_copy t s d di si = byte_loop (if t = 0 then 2 ^ 64 else t) s d di si"

text \<open>
  \<open>LZO_MEMOPS_COPYN\<close> and the unrolled copies of the decompressor: eight bytes at a
  time, then four, then the last one to three bytes singly.
\<close>

definition copy_tail :: "nat \<Rightarrow> source \<Rightarrow> u8 list \<Rightarrow> nat \<Rightarrow> nat \<Rightarrow> u8 list option" where
  "copy_tail t s d di si =
     (if t \<ge> 4 then
        (case ua_copy 4 s d di si of None \<Rightarrow> None
         | Some d' \<Rightarrow> byte_loop (t - 4) s d' (di + 4) (si + 4))
      else byte_loop t s d di si)"

fun chunk_copy :: "nat \<Rightarrow> source \<Rightarrow> u8 list \<Rightarrow> nat \<Rightarrow> nat \<Rightarrow> u8 list option" where
  "chunk_copy t s d di si =
     (if t \<ge> 8 then
        (case ua_copy 8 s d di si of None \<Rightarrow> None
         | Some d' \<Rightarrow> chunk_copy (t - 8) s d' (di + 8) (si + 8))
      else copy_tail t s d di si)"

declare chunk_copy.simps [simp del]

text \<open>
  The reference semantics of a match: append, one byte after the other, the byte
  \<open>dist\<close> positions back. With \<open>dist < n\<close> the copy reads bytes it has itself written.
\<close>

primrec lz_copy :: "nat \<Rightarrow> u8 list \<Rightarrow> nat \<Rightarrow> u8 list" where
  "lz_copy 0 h dist = h"
| "lz_copy (Suc n) h dist = lz_copy n (h @ [h ! (length h - dist)]) dist"

lemma length_lz_copy [simp]: "length (lz_copy n h dist) = length h + n"
  by (induction n arbitrary: h) auto

lemma lz_copy_add: "lz_copy (m + n) h dist = lz_copy n (lz_copy m h dist) dist"
  by (induction m arbitrary: h) auto

lemma lz_copy_prefix: "\<exists>r. lz_copy n h dist = h @ r \<and> length r = n"
proof (induction n arbitrary: h)
  case 0
  then show ?case by simp
next
  case (Suc n)
  from Suc.IH [of "h @ [h ! (length h - dist)]"] show ?case by auto
qed

lemma take_lz_copy [simp]: "take (length h) (lz_copy n h dist) = h"
  using lz_copy_prefix [of n h dist] by auto

lemma lz_copy_block:
  assumes "k \<le> dist" "dist \<le> length h" "0 < dist"
  shows "lz_copy k h dist = h @ take k (drop (length h - dist) h)"
  using assms
proof (induction k)
  case 0
  then show ?case by simp
next
  case (Suc k)
  let ?h = "h @ take k (drop (length h - dist) h)"
  have "lz_copy (Suc k) h dist = lz_copy 1 (lz_copy k h dist) dist"
    using lz_copy_add [of k 1 h dist] by simp
  also have "\<dots> = ?h @ [?h ! (length ?h - dist)]"
    using Suc by simp
  also have "?h ! (length ?h - dist) = h ! (length h - dist + k)"
    using Suc.prems by (simp add: nth_append)
  also have "?h @ [h ! (length h - dist + k)] = h @ take (Suc k) (drop (length h - dist) h)"
    using Suc.prems by (simp add: take_Suc_conv_app_nth)
  finally show ?case .
qed

section \<open>The interface of a forward copy\<close>

text \<open>
  What the codec relies on: copying from another buffer is a block transfer, and copying
  inside the output from at least \<open>mind\<close> bytes back is the byte-wise match semantics.
\<close>

locale forward_copy =
  fixes cp :: "nat \<Rightarrow> source \<Rightarrow> u8 list \<Rightarrow> nat \<Rightarrow> nat \<Rightarrow> u8 list option"
    and mind :: nat
  assumes cp_from: "di + n \<le> length d \<Longrightarrow> si + n \<le> length xs \<Longrightarrow>
      cp n (From xs) d di si = Some (take di d @ take n (drop si xs) @ drop (di + n) d)"
    and cp_self: "di + n \<le> length d \<Longrightarrow> si + mind \<le> di \<Longrightarrow> si < di \<Longrightarrow>
      cp n Self d di si = Some (lz_copy n (take di d) (di - si) @ drop (di + n) d)"
begin

lemma from_prefix:
  assumes "di + n \<le> length d" "si + n \<le> length xs"
  shows "\<exists>d'. cp n (From xs) d di si = Some d' \<and> length d' = length d \<and>
    take (di + n) d' = take di d @ take n (drop si xs)"
  using assms by (auto simp: cp_from)

lemma self_prefix:
  assumes "di + n \<le> length d" "si + mind \<le> di" "si < di"
  shows "\<exists>d'. cp n Self d di si = Some d' \<and> length d' = length d \<and>
    take (di + n) d' = lz_copy n (take di d) (di - si)"
  using assms by (auto simp: cp_self)

end

lemma ua_copy_from [mem_simps]:
  "di + k \<le> length d \<Longrightarrow> si + k \<le> length xs \<Longrightarrow>
    ua_copy k (From xs) d di si = Some (take di d @ take k (drop si xs) @ drop (di + k) d)"
  by (simp add: ua_copy_def mem_simps)

lemma ua_copy_self [mem_simps]:
  assumes "di + k \<le> length d" "si + k \<le> di" "si < di"
  shows "ua_copy k Self d di si = Some (lz_copy k (take di d) (di - si) @ drop (di + k) d)"
proof -
  have "take k (drop si (take di d)) = take k (drop si d)"
    using assms by (simp add: drop_take min_def)
  then show ?thesis
    using assms lz_copy_block [of k "di - si" "take di d"]
    by (simp add: ua_copy_def mem_simps)
qed

lemma byte_loop_from:
  "di + n \<le> length d \<Longrightarrow> si + n \<le> length xs \<Longrightarrow>
    byte_loop n (From xs) d di si = Some (take di d @ take n (drop si xs) @ drop (di + n) d)"
proof (induction n arbitrary: d di si)
  case 0
  then show ?case by simp
next
  case (Suc n)
  have "take (Suc n) (drop si xs) = xs ! si # take n (drop (Suc si) xs)"
    using Suc.prems by (simp add: take_Suc_conv_app_nth Cons_nth_drop_Suc [symmetric])
  moreover have "take 1 (drop si xs) = [xs ! si]"
    using Suc.prems by (simp add: take_Suc_conv_app_nth)
  ultimately show ?case
    using Suc by (simp add: mem_simps add.commute)
qed

lemma byte_loop_self:
  "di + n \<le> length d \<Longrightarrow> si < di \<Longrightarrow>
    byte_loop n Self d di si = Some (lz_copy n (take di d) (di - si) @ drop (di + n) d)"
proof (induction n arbitrary: d di si)
  case 0
  then show ?case by simp
next
  case (Suc n)
  let ?d = "lz_copy 1 (take di d) (di - si) @ drop (di + 1) d"
  have "byte_loop (Suc n) Self d di si = byte_loop n Self ?d (di + 1) (si + 1)"
    using Suc.prems by (simp add: mem_simps)
  also have "\<dots> = Some (lz_copy n (take (di + 1) ?d) (di - si) @ drop (di + 1 + n) ?d)"
    using Suc.IH [where d = ?d and di = "di + 1" and si = "si + 1"] Suc.prems by simp
  also have "take (di + 1) ?d = lz_copy 1 (take di d) (di - si)"
    using Suc.prems by simp
  also have "drop (di + 1 + n) ?d = drop (di + Suc n) d"
    using Suc.prems by (simp add: add.commute)
  finally show ?case
    by (simp add: lz_copy_add [of 1 n, simplified])
qed

interpretation byte_copy: forward_copy byte_loop 1
  by unfold_locales (simp_all add: byte_loop_from byte_loop_self)

text \<open>
  The chunked copy: every chunk of at most eight bytes is read before it is written, so
  it agrees with the byte-wise copy as soon as source and destination are eight apart.
\<close>

lemma copy_tail_from:
  assumes "di + n \<le> length d" "si + n \<le> length xs"
  shows "copy_tail n (From xs) d di si =
    Some (take di d @ take n (drop si xs) @ drop (di + n) d)"
proof (cases "4 \<le> n")
  case True
  then have "take n (drop si xs) = take 4 (drop si xs) @ take (n - 4) (drop (si + 4) xs)"
    using take_add_drop [of 4 "n - 4" "drop si xs"] by (simp add: add.commute)
  with True assms show ?thesis
    by (simp add: copy_tail_def mem_simps byte_loop_from add.commute)
qed (use assms in \<open>simp add: copy_tail_def byte_loop_from\<close>)

lemma copy_tail_self:
  assumes "di + n \<le> length d" "si + 4 \<le> di"
  shows "copy_tail n Self d di si =
    Some (lz_copy n (take di d) (di - si) @ drop (di + n) d)"
proof (cases "4 \<le> n")
  case True
  let ?d = "lz_copy 4 (take di d) (di - si) @ drop (di + 4) d"
  from True have n: "n = 4 + (n - 4)" by simp
  from True assms have "copy_tail n Self d di si = byte_loop (n - 4) Self ?d (di + 4) (si + 4)"
    by (simp add: copy_tail_def mem_simps)
  also have "\<dots> = Some (lz_copy (n - 4) (take (di + 4) ?d) (di - si) @ drop (di + n) ?d)"
    using True assms byte_loop_self [of "di + 4" "n - 4" ?d "si + 4"] by simp
  also have "\<dots> = Some (lz_copy n (take di d) (di - si) @ drop (di + n) d)"
    using True assms lz_copy_add [of 4 "n - 4" "take di d" "di - si"]
    by (simp add: add.commute)
  finally show ?thesis .
qed (use assms in \<open>simp add: copy_tail_def byte_loop_self\<close>)

lemma chunk_copy_from:
  "di + n \<le> length d \<Longrightarrow> si + n \<le> length xs \<Longrightarrow>
    chunk_copy n (From xs) d di si = Some (take di d @ take n (drop si xs) @ drop (di + n) d)"
proof (induction n "From xs" d di si rule: chunk_copy.induct)
  case (1 t d di si)
  show ?case
  proof (cases "8 \<le> t")
    case True
    then have "take t (drop si xs) = take 8 (drop si xs) @ take (t - 8) (drop (si + 8) xs)"
      using take_add_drop [of 8 "t - 8" "drop si xs"] by (simp add: add.commute)
    with True "1.prems" "1.hyps" show ?thesis
      by (simp add: chunk_copy.simps [of t] mem_simps add.commute)
  next
    case False
    with "1.prems" show ?thesis
      by (simp add: chunk_copy.simps [of t] copy_tail_from)
  qed
qed

lemma chunk_copy_self:
  "di + n \<le> length d \<Longrightarrow> si + 8 \<le> di \<Longrightarrow>
    chunk_copy n Self d di si = Some (lz_copy n (take di d) (di - si) @ drop (di + n) d)"
proof (induction n Self d di si rule: chunk_copy.induct)
  case (1 t d di si)
  show ?case
  proof (cases "8 \<le> t")
    case True
    let ?d = "lz_copy 8 (take di d) (di - si) @ drop (di + 8) d"
    have "ua_copy 8 Self d di si = Some ?d"
      using True "1.prems" by (simp add: mem_simps)
    then have "chunk_copy t Self d di si = chunk_copy (t - 8) Self ?d (di + 8) (si + 8)"
      and "chunk_copy (t - 8) Self ?d (di + 8) (si + 8) =
        Some (lz_copy (t - 8) (take (di + 8) ?d) (di - si) @ drop (di + t) ?d)"
      using True "1.prems" "1.hyps" [of ?d] by (simp_all add: chunk_copy.simps [of t])
    moreover have "lz_copy (t - 8) (take (di + 8) ?d) (di - si) @ drop (di + t) ?d =
        lz_copy t (take di d) (di - si) @ drop (di + t) d"
      using True "1.prems" lz_copy_add [of 8 "t - 8" "take di d" "di - si"]
      by (simp add: add.commute)
    ultimately show ?thesis by simp
  next
    case False
    with "1.prems" show ?thesis
      by (simp add: chunk_copy.simps [of t] copy_tail_self)
  qed
qed

interpretation chunk: forward_copy chunk_copy 8
  by unfold_locales (simp_all add: chunk_copy_from chunk_copy_self)

section \<open>Little-endian loads and bit scans\<close>

text \<open>
  \<open>UA_GET_LE16/32/64\<close> and, on a little-endian machine, \<open>UA_GET_NE*\<close>: the number whose
  base-256 digits are the bytes, least significant first.
\<close>

fun le_nat :: "u8 list \<Rightarrow> nat" where
  "le_nat [] = 0"
| "le_nat (b # bs) = unat b + 256 * le_nat bs"

definition get_le16 :: "u8 list \<Rightarrow> nat \<Rightarrow> u16 option" where
  "get_le16 buf i = map_option (\<lambda>bs. word_of_nat (le_nat bs)) (load_n 2 buf i)"

definition get_le32 :: "u8 list \<Rightarrow> nat \<Rightarrow> u32 option" where
  "get_le32 buf i = map_option (\<lambda>bs. word_of_nat (le_nat bs)) (load_n 4 buf i)"

definition get_le64 :: "u8 list \<Rightarrow> nat \<Rightarrow> u64 option" where
  "get_le64 buf i = map_option (\<lambda>bs. word_of_nat (le_nat bs)) (load_n 8 buf i)"

text \<open>\<open>__builtin_ctzll\<close>: the number of zero bits below the lowest one bit.\<close>

definition bitops_cttz64 :: "u64 \<Rightarrow> nat" where
  "bitops_cttz64 v = length (takeWhile (\<lambda>i. \<not> bit v i) [0..<64])"

lemma le_nat_less: "le_nat bs < 256 ^ length bs"
proof (induction bs)
  case Nil
  then show ?case by simp
next
  case (Cons b bs)
  have "unat b + 256 * le_nat bs < 256 + 256 * le_nat bs"
    by simp
  also have "\<dots> \<le> 256 * 256 ^ length bs"
    using Cons.IH by simp
  finally show ?case by simp
qed

lemma get_le16_Some [mem_simps]:
  assumes "i + 2 \<le> length buf"
  shows "get_le16 buf i = Some (word_of_nat (unat (buf ! i) + 256 * unat (buf ! (i + 1))))"
proof -
  have "take 2 (drop i buf) = [buf ! i, buf ! (i + 1)]"
    using assms by (simp add: numeral_2_eq_2 take_Suc_conv_app_nth)
  then show ?thesis
    using assms by (simp add: get_le16_def mem_simps)
qed

lemma get_le16_eq_Some: "get_le16 buf i = Some w \<longleftrightarrow> i + 2 \<le> length buf \<and>
    w = word_of_nat (unat (buf ! i) + 256 * unat (buf ! (i + 1)))"
proof (cases "i + 2 \<le> length buf")
  case True
  then show ?thesis by (auto simp: get_le16_Some)
qed (simp add: get_le16_def load_n_def)

text \<open>
  The chunked copy of the decompressor and its byte loop are the same function on a
  match at least eight bytes back, so choosing between them by the distance is sound.
\<close>

theorem chunk_copy_is_byte_loop:
  assumes "di + n \<le> length d" "si + 8 \<le> di"
  shows "chunk_copy n Self d di si = byte_loop n Self d di si"
  using assms by (simp add: chunk.cp_self byte_copy.cp_self)

theorem chunk_copy_is_byte_loop_witness:
  "chunk_copy 9 Self (replicate 20 7) 10 1 = byte_loop 9 Self (replicate 20 7) 10 1"
  using chunk_copy_is_byte_loop [of 10 9 "replicate 20 7" 1] by simp

end
