(* ===== verification/LzoDecompress.thy ===== *)
theory LzoDecompress
  imports Memory
begin

text \<open>
  The LZO1X decompressor of \<^verbatim>\<open>minilzo.c\<close>. The file holds its text twice: once as
  \<open>lzo1x_decompress\<close>, with the checks \<open>NEED_IP\<close>, \<open>NEED_OP\<close>, \<open>TEST_LB\<close>, \<open>TEST_IV\<close>, \<open>TEST_OV\<close>
  defined away, and once as \<open>lzo1x_decompress_safe\<close>, with \<open>LZO_TEST_OVERRUN\<close> set. The
  model has the same text once, with the macro configuration as the argument \<open>safe\<close>.
  The configuration is the one of a 64-bit little-endian target (\<open>LZO_OPT_UNALIGNED16/32/64\<close>,
  \<open>LZO1X\<close>, no \<open>COPY_DICT\<close>, \<open>NDEBUG\<close>). Labels of the C text are the values of
  \<open>label\<close>, every jump is a step, and an access outside a buffer ends the run
  with \<open>Fault\<close>.
\<close>

section \<open>Result codes and machine state\<close>

datatype lzo_code =
    LZO_E_OK | LZO_E_ERROR | LZO_E_INPUT_OVERRUN | LZO_E_OUTPUT_OVERRUN
  | LZO_E_LOOKBEHIND_OVERRUN | LZO_E_INPUT_NOT_CONSUMED

datatype halt =
    Fault | Eof_found nat | Input_overrun | Output_overrun | Lookbehind_overrun

datatype label = Main_loop | First_literal_run | Match | Match_done | Match_next

record dstate =
  d_lab :: label
  d_ip :: nat
  d_op :: nat
  d_t :: nat
  d_out :: "u8 list"

datatype dresult = Undefined | Result lzo_code nat "u8 list"

text \<open>A failing check jumps to its label; a failing access is a fault.\<close>

definition need :: "bool \<Rightarrow> halt \<Rightarrow> (halt + 'a) \<Rightarrow> halt + 'a" where
  "need b h k = (if b then k else Inl h)"

definition fetch :: "'a option \<Rightarrow> ('a \<Rightarrow> halt + 'b) \<Rightarrow> halt + 'b" where
  "fetch x k = (case x of None \<Rightarrow> Inl Fault | Some v \<Rightarrow> k v)"

section \<open>The check macros\<close>

text \<open>\<open>(lzo_uint)(a - b)\<close> of two pointers into one buffer.\<close>

definition ptr_diff :: "nat \<Rightarrow> nat \<Rightarrow> nat" where
  "ptr_diff a b = nat ((int a - int b) mod 2 ^ 64)"

definition need_ip :: "bool \<Rightarrow> u8 list \<Rightarrow> nat \<Rightarrow> nat \<Rightarrow> bool" where
  "need_ip safe inb ip x \<longleftrightarrow> (safe \<longrightarrow> \<not> ptr_diff (length inb) ip < x)"

definition need_op :: "bool \<Rightarrow> nat \<Rightarrow> nat \<Rightarrow> nat \<Rightarrow> bool" where
  "need_op safe op_end op x \<longleftrightarrow> (safe \<longrightarrow> \<not> ptr_diff op_end op < x)"

definition test_lb :: "bool \<Rightarrow> nat \<Rightarrow> int \<Rightarrow> bool" where
  "test_lb safe op m_pos \<longleftrightarrow> (safe \<longrightarrow> \<not> (m_pos < 0 \<or> int op \<le> m_pos))"

text \<open>\<open>TEST_IV\<close> and \<open>TEST_OV\<close>: the length counter is about to wrap around.\<close>

definition test_iv :: "bool \<Rightarrow> nat \<Rightarrow> bool" where
  "test_iv safe x \<longleftrightarrow> (safe \<longrightarrow> \<not> 2 ^ 64 - 511 < x)"

section \<open>The pieces of the loop\<close>

text \<open>
  \<open>while (*ip == 0) { t += 255; ip++; TEST; NEED_IP(1); } t += base + *ip++;\<close>
  with the overflow test jumping to \<open>h\<close>.
\<close>

function zero_run ::
  "bool \<Rightarrow> u8 list \<Rightarrow> halt \<Rightarrow> nat \<Rightarrow> nat \<Rightarrow> nat \<Rightarrow> halt + nat \<times> nat" where
  "zero_run safe inb h base t ip =
     (case load inb ip of
        None \<Rightarrow> Inl Fault
      | Some b \<Rightarrow>
          if b = 0 then
            let t' = wrap64 (t + 255); ip' = ip + 1 in
            if \<not> test_iv safe t' then Inl h
            else if \<not> need_ip safe inb ip' 1 then Inl Input_overrun
            else zero_run safe inb h base t' ip'
          else Inr (wrap64 (t + base + unat b), ip + 1))"
  by pat_completeness auto
termination
  by (relation "measure (\<lambda>(safe, inb, h, base, t, ip). length inb - ip)")
    (auto simp: load_eq_Some)

declare zero_run.simps [simp del]

text \<open>Copies out of the output window: a pointer below the buffer is a fault.\<close>

definition copy_back ::
  "(nat \<Rightarrow> source \<Rightarrow> u8 list \<Rightarrow> nat \<Rightarrow> nat \<Rightarrow> u8 list option) \<Rightarrow> nat \<Rightarrow> dstate \<Rightarrow> int
   \<Rightarrow> halt + dstate" where
  "copy_back cp n s m_pos =
     (if m_pos < 0 then Inl Fault
      else fetch (cp n Self (d_out s) (d_op s) (nat m_pos))
        (\<lambda>out'. Inr (s\<lparr>d_lab := Match_done, d_op := d_op s + n, d_out := out'\<rparr>)))"

text \<open>Label \<open>copy_match\<close>: two bytes, then a do-while loop over \<open>t\<close>.\<close>

definition copy_match :: "nat \<Rightarrow> dstate \<Rightarrow> int \<Rightarrow> halt + dstate" where
  "copy_match t s m_pos =
     (if m_pos < 0 then Inl Fault
      else fetch (byte_loop 2 Self (d_out s) (d_op s) (nat m_pos)) (\<lambda>out1.
        fetch (do_while_copy t Self out1 (d_op s + 2) (nat m_pos + 2)) (\<lambda>out2.
          Inr (s\<lparr>d_lab := Match_done, d_op := d_op s + 2 + t, d_out := out2\<rparr>))))"

text \<open>The copy of an M3 or M4 match: in chunks when the distance allows it.\<close>

definition long_match :: "bool \<Rightarrow> nat \<Rightarrow> dstate \<Rightarrow> int \<Rightarrow> halt + dstate" where
  "long_match safe op_end s m_pos =
     (let t = d_t s in
      need (test_lb safe (d_op s) m_pos) Lookbehind_overrun (
      need (need_op safe op_end (d_op s) (wrap64 (t + 3 - 1))) Output_overrun (
      if int (d_op s) - m_pos \<ge> 8 then copy_back chunk_copy (wrap64 (t + (3 - 1))) s m_pos
      else copy_match t s m_pos)))"

text \<open>The literal run after \<open>t\<close> has been read: \<open>t + 3\<close> bytes from the input.\<close>

definition literal_run ::
  "bool \<Rightarrow> u8 list \<Rightarrow> nat \<Rightarrow> nat \<Rightarrow> nat \<Rightarrow> dstate \<Rightarrow> halt + dstate" where
  "literal_run safe inb op_end t ip s =
     need (need_op safe op_end (d_op s) (wrap64 (t + 3))) Output_overrun (
     need (need_ip safe inb ip (wrap64 (t + 6))) Input_overrun (
     let n = wrap64 (t + 3) in
     fetch (chunk_copy n (From inb) (d_out s) (d_op s) ip) (\<lambda>out'.
       Inr (s\<lparr>d_lab := First_literal_run, d_ip := ip + n, d_op := d_op s + n,
             d_out := out'\<rparr>))))"

definition main_loop :: "bool \<Rightarrow> u8 list \<Rightarrow> nat \<Rightarrow> dstate \<Rightarrow> halt + dstate" where
  "main_loop safe inb op_end s =
     need (need_ip safe inb (d_ip s) 3) Input_overrun (
     fetch (load inb (d_ip s)) (\<lambda>b.
       let t = unat b; ip = d_ip s + 1 in
       if t \<ge> 16 then Inr (s\<lparr>d_lab := Match, d_ip := ip, d_t := t\<rparr>)
       else if t = 0 then
         (case zero_run safe inb Input_overrun 15 t ip of
            Inl h \<Rightarrow> Inl h
          | Inr (t', ip') \<Rightarrow> literal_run safe inb op_end t' ip' s)
       else literal_run safe inb op_end t ip s))"

definition first_literal_run :: "bool \<Rightarrow> u8 list \<Rightarrow> nat \<Rightarrow> dstate \<Rightarrow> halt + dstate" where
  "first_literal_run safe inb op_end s =
     fetch (load inb (d_ip s)) (\<lambda>b.
       let t = unat b; ip = d_ip s + 1 in
       if t \<ge> 16 then Inr (s\<lparr>d_lab := Match, d_ip := ip, d_t := t\<rparr>)
       else fetch (load inb ip) (\<lambda>b2.
         let m_pos = int (d_op s) - (1 + 2048) - int (t div 4) - int (unat b2 * 4);
             s' = s\<lparr>d_ip := ip + 1\<rparr> in
         need (test_lb safe (d_op s) m_pos) Lookbehind_overrun (
         need (need_op safe op_end (d_op s) 3) Output_overrun (
         copy_back byte_loop 3 s' m_pos))))"

text \<open>Label \<open>match\<close>, one definition per kind of match.\<close>

definition match_m2 :: "bool \<Rightarrow> u8 list \<Rightarrow> nat \<Rightarrow> dstate \<Rightarrow> halt + dstate" where
  "match_m2 safe inb op_end s =
     fetch (load inb (d_ip s)) (\<lambda>b.
       let m_pos = int (d_op s) - 1 - int ((d_t s div 4) mod 8) - int (unat b * 8);
           t = d_t s div 32 - 1;
           s' = s\<lparr>d_ip := d_ip s + 1, d_t := t\<rparr> in
       need (test_lb safe (d_op s) m_pos) Lookbehind_overrun (
       need (need_op safe op_end (d_op s) (wrap64 (t + 3 - 1))) Output_overrun (
       copy_match t s' m_pos)))"

definition match_m3 :: "bool \<Rightarrow> u8 list \<Rightarrow> nat \<Rightarrow> dstate \<Rightarrow> halt + dstate" where
  "match_m3 safe inb op_end s =
     (let t = d_t s mod 32 in
      case (if t = 0 then zero_run safe inb Output_overrun 31 t (d_ip s) else Inr (t, d_ip s)) of
        Inl h \<Rightarrow> Inl h
      | Inr (t', ip') \<Rightarrow>
          need (t = 0 \<longrightarrow> need_ip safe inb ip' 2) Input_overrun (
          fetch (get_le16 inb ip') (\<lambda>w.
            let m_pos = int (d_op s) - 1 - int (unat w div 4) in
            long_match safe op_end (s\<lparr>d_ip := ip' + 2, d_t := t'\<rparr>) m_pos)))"

definition match_m4 :: "bool \<Rightarrow> u8 list \<Rightarrow> nat \<Rightarrow> dstate \<Rightarrow> halt + dstate" where
  "match_m4 safe inb op_end s =
     (let m_pos0 = int (d_op s) - int ((d_t s div 8) mod 2 * 16384);
          t = d_t s mod 8 in
      case (if t = 0 then zero_run safe inb Output_overrun 7 t (d_ip s) else Inr (t, d_ip s)) of
        Inl h \<Rightarrow> Inl h
      | Inr (t', ip') \<Rightarrow>
          need (t = 0 \<longrightarrow> need_ip safe inb ip' 2) Input_overrun (
          fetch (get_le16 inb ip') (\<lambda>w.
            let m_pos = m_pos0 - int (unat w div 4) in
            if m_pos = int (d_op s) then Inl (Eof_found (ip' + 2))
            else long_match safe op_end (s\<lparr>d_ip := ip' + 2, d_t := t'\<rparr>) (m_pos - 16384))))"

definition match_m1 :: "bool \<Rightarrow> u8 list \<Rightarrow> nat \<Rightarrow> dstate \<Rightarrow> halt + dstate" where
  "match_m1 safe inb op_end s =
     fetch (load inb (d_ip s)) (\<lambda>b.
       let m_pos = int (d_op s) - 1 - int (d_t s div 4) - int (unat b * 4);
           s' = s\<lparr>d_ip := d_ip s + 1\<rparr> in
       need (test_lb safe (d_op s) m_pos) Lookbehind_overrun (
       need (need_op safe op_end (d_op s) 2) Output_overrun (
       copy_back byte_loop 2 s' m_pos)))"

definition match_step :: "bool \<Rightarrow> u8 list \<Rightarrow> nat \<Rightarrow> dstate \<Rightarrow> halt + dstate" where
  "match_step safe inb op_end s =
     (if d_t s \<ge> 64 then match_m2 safe inb op_end s
      else if d_t s \<ge> 32 then match_m3 safe inb op_end s
      else if d_t s \<ge> 16 then match_m4 safe inb op_end s
      else match_m1 safe inb op_end s)"

definition match_done :: "u8 list \<Rightarrow> dstate \<Rightarrow> halt + dstate" where
  "match_done inb s =
     (if d_ip s < 2 then Inl Fault
      else fetch (load inb (d_ip s - 2)) (\<lambda>b.
        let t = unat b mod 4 in
        if t = 0 then Inr (s\<lparr>d_lab := Main_loop, d_t := t\<rparr>)
        else Inr (s\<lparr>d_lab := Match_next, d_t := t\<rparr>)))"

text \<open>
  Label \<open>match_next\<close>: one to three literals (the code copies one, then tests
  \<open>t > 1\<close> and \<open>t > 2\<close>), then the byte that starts the next match.
\<close>

definition match_next :: "bool \<Rightarrow> u8 list \<Rightarrow> nat \<Rightarrow> dstate \<Rightarrow> halt + dstate" where
  "match_next safe inb op_end s =
     (let t = d_t s; n = max 1 (min 3 t) in
      need (need_op safe op_end (d_op s) t) Output_overrun (
      need (need_ip safe inb (d_ip s) (t + 3)) Input_overrun (
      fetch (byte_loop n (From inb) (d_out s) (d_op s) (d_ip s)) (\<lambda>out'.
      fetch (load inb (d_ip s + n)) (\<lambda>b.
        Inr (s\<lparr>d_lab := Match, d_ip := d_ip s + n + 1, d_op := d_op s + n,
              d_t := unat b, d_out := out'\<rparr>))))))"

section \<open>The run\<close>

definition dstep :: "bool \<Rightarrow> u8 list \<Rightarrow> nat \<Rightarrow> dstate \<Rightarrow> halt + dstate" where
  "dstep safe inb op_end s =
     (case d_lab s of
        Main_loop \<Rightarrow> main_loop safe inb op_end s
      | First_literal_run \<Rightarrow> first_literal_run safe inb op_end s
      | Match \<Rightarrow> match_step safe inb op_end s
      | Match_done \<Rightarrow> match_done inb s
      | Match_next \<Rightarrow> match_next safe inb op_end s)"

text \<open>
  The run stops: every label but \<open>match_done\<close> reads a byte at \<open>ip\<close> and moves \<open>ip\<close>
  forward, and \<open>match_done\<close> is followed by one of the others.
\<close>

definition dmeasure :: "u8 list \<Rightarrow> dstate \<Rightarrow> nat" where
  "dmeasure inb s = 2 * (length inb - d_ip s) + (if d_lab s = Match_done then 1 else 0)"

definition advances :: "u8 list \<Rightarrow> dstate \<Rightarrow> dstate \<Rightarrow> bool" where
  "advances inb s s' \<longleftrightarrow> d_ip s < length inb \<and> d_ip s < d_ip s'"

lemma need_eq_Inr: "need b h k = Inr x \<longleftrightarrow> b \<and> k = Inr x"
  by (simp add: need_def)

lemma fetch_eq_Inr: "fetch x k = Inr y \<longleftrightarrow> (\<exists>v. x = Some v \<and> k v = Inr y)"
  by (cases x) (simp_all add: fetch_def)

lemmas step_inv = need_eq_Inr fetch_eq_Inr load_eq_Some Let_def

lemma zero_run_ip:
  "zero_run safe inb h base t ip = Inr (t', ip') \<Longrightarrow> ip < ip' \<and> ip' \<le> length inb"
proof (induction safe inb h base t ip rule: zero_run.induct)
  case (1 safe inb h base t ip)
  show ?case
  proof (cases "ip < length inb")
    case True
    then have l: "load inb ip = Some (inb ! ip)"
      by (simp add: load_def)
    with "1.prems" "1.IH" [OF l _ refl refl] True show ?thesis
      by (simp add: zero_run.simps [of safe inb h base t ip] Let_def split: if_splits)
  next
    case False
    with "1.prems" show ?thesis
      by (simp add: zero_run.simps [of safe inb h base t ip] load_def)
  qed
qed

lemma copy_back_ip: "copy_back cp n s m = Inr s' \<Longrightarrow> d_ip s' = d_ip s \<and> d_lab s' = Match_done"
  by (auto simp: copy_back_def fetch_eq_Inr split: if_splits)

lemma copy_match_ip: "copy_match n s m = Inr s' \<Longrightarrow> d_ip s' = d_ip s \<and> d_lab s' = Match_done"
  by (auto simp: copy_match_def fetch_eq_Inr split: if_splits)

lemma long_match_ip: "long_match safe oe s m = Inr s' \<Longrightarrow> d_ip s' = d_ip s \<and> d_lab s' = Match_done"
  by (auto simp: long_match_def step_inv split: if_splits dest: copy_back_ip copy_match_ip)

lemma literal_run_ip:
  "literal_run safe inb oe t ip s = Inr s' \<Longrightarrow> ip \<le> d_ip s' \<and> d_lab s' = First_literal_run"
  by (auto simp: literal_run_def step_inv)

lemma main_loop_advances: "main_loop safe inb oe s = Inr s' \<Longrightarrow> advances inb s s'"
  by (auto simp: main_loop_def step_inv advances_def split: if_splits sum.splits
      dest!: literal_run_ip zero_run_ip)

lemma first_literal_run_advances: "first_literal_run safe inb oe s = Inr s' \<Longrightarrow> advances inb s s'"
  by (auto simp: first_literal_run_def step_inv advances_def split: if_splits
      dest!: copy_back_ip)

lemma match_m1_advances: "match_m1 safe inb oe s = Inr s' \<Longrightarrow> advances inb s s'"
  by (auto simp: match_m1_def step_inv advances_def dest!: copy_back_ip)

lemma match_m2_advances: "match_m2 safe inb oe s = Inr s' \<Longrightarrow> advances inb s s'"
  by (auto simp: match_m2_def step_inv advances_def dest!: copy_match_ip)

lemma match_m3_advances: "match_m3 safe inb oe s = Inr s' \<Longrightarrow> advances inb s s'"
  by (auto simp: match_m3_def step_inv advances_def get_le16_eq_Some split: if_splits sum.splits
      dest!: long_match_ip zero_run_ip)

lemma match_m4_advances: "match_m4 safe inb oe s = Inr s' \<Longrightarrow> advances inb s s'"
  by (auto simp: match_m4_def step_inv advances_def get_le16_eq_Some split: if_splits sum.splits
      dest!: long_match_ip zero_run_ip)

lemma match_step_advances: "match_step safe inb oe s = Inr s' \<Longrightarrow> advances inb s s'"
  by (auto simp: match_step_def split: if_splits intro: match_m1_advances match_m2_advances
      match_m3_advances match_m4_advances)

lemma match_next_advances: "match_next safe inb oe s = Inr s' \<Longrightarrow> advances inb s s'"
  by (auto simp: match_next_def step_inv advances_def)

lemma match_done_label:
  "match_done inb s = Inr s' \<Longrightarrow> d_ip s' = d_ip s \<and> d_lab s' \<noteq> Match_done"
  by (auto simp: match_done_def step_inv split: if_splits)

lemma dstep_measure:
  assumes "dstep safe inb oe s = Inr s'"
  shows "dmeasure inb s' < dmeasure inb s"
proof (cases "d_lab s = Match_done")
  case True
  then show ?thesis
    using assms match_done_label [of inb s s'] by (simp add: dstep_def dmeasure_def)
next
  case False
  then have "advances inb s s'"
    using assms by (auto simp: dstep_def split: label.splits intro: main_loop_advances
        first_literal_run_advances match_step_advances match_next_advances)
  with False show ?thesis
    by (auto simp: dmeasure_def advances_def)
qed

text \<open>The loop of the C function: steps until one of the labels that end the call.\<close>

function drun :: "bool \<Rightarrow> u8 list \<Rightarrow> nat \<Rightarrow> dstate \<Rightarrow> halt \<times> dstate" where
  "drun safe inb op_end s =
     (case dstep safe inb op_end s of Inl h \<Rightarrow> (h, s) | Inr s' \<Rightarrow> drun safe inb op_end s')"
  by pat_completeness auto
termination
  by (relation "measure (\<lambda>(safe, inb, op_end, s). dmeasure inb s)") (auto simp: dstep_measure)

declare drun.simps [simp del]

text \<open>
  The code before the loop: a first byte above 17 starts the stream with literals.
\<close>

definition dstart :: "bool \<Rightarrow> u8 list \<Rightarrow> nat \<Rightarrow> u8 list \<Rightarrow> halt + dstate" where
  "dstart safe inb op_end out =
     (let s = \<lparr>d_lab = Main_loop, d_ip = 0, d_op = 0, d_t = 0, d_out = out\<rparr> in
      need (need_ip safe inb 0 1) Input_overrun (
      fetch (load inb 0) (\<lambda>b.
        if unat b > 17 then
          let t = unat b - 17 in
          if t < 4 then Inr (s\<lparr>d_lab := Match_next, d_ip := 1, d_t := t\<rparr>)
          else
            need (need_op safe op_end 0 t) Output_overrun (
            need (need_ip safe inb 1 (t + 3)) Input_overrun (
            fetch (do_while_copy t (From inb) out 0 1) (\<lambda>out'.
              Inr (s\<lparr>d_lab := First_literal_run, d_ip := 1 + t, d_op := t, d_out := out'\<rparr>))))
        else Inr s)))"

text \<open>The labels that end the call: \<open>*out_len = op - out\<close> and the code.\<close>

fun dfinish :: "u8 list \<Rightarrow> halt \<times> dstate \<Rightarrow> dresult" where
  "dfinish inb (Fault, s) = Undefined"
| "dfinish inb (Eof_found ip, s) =
     Result (if ip = length inb then LZO_E_OK
             else if ip < length inb then LZO_E_INPUT_NOT_CONSUMED
             else LZO_E_INPUT_OVERRUN) (d_op s) (d_out s)"
| "dfinish inb (Input_overrun, s) = Result LZO_E_INPUT_OVERRUN (d_op s) (d_out s)"
| "dfinish inb (Output_overrun, s) = Result LZO_E_OUTPUT_OVERRUN (d_op s) (d_out s)"
| "dfinish inb (Lookbehind_overrun, s) = Result LZO_E_LOOKBEHIND_OVERRUN (d_op s) (d_out s)"

text \<open>
  \<open>DO_DECOMPRESS(in, in_len, out, out_len, wrkmem)\<close>: \<open>inb\<close> is the input with its
  length, \<open>out\<close> the memory behind \<open>out\<close>, \<open>out_len\<close> the value of \<open>*out_len\<close> at the call.
\<close>

definition do_decompress :: "bool \<Rightarrow> u8 list \<Rightarrow> u8 list \<Rightarrow> nat \<Rightarrow> dresult" where
  "do_decompress safe inb out out_len =
     (case dstart safe inb out_len out of
        Inl h \<Rightarrow> dfinish inb (h, \<lparr>d_lab = Main_loop, d_ip = 0, d_op = 0, d_t = 0, d_out = out\<rparr>)
      | Inr s \<Rightarrow> dfinish inb (drun safe inb out_len s))"

definition lzo1x_decompress :: "u8 list \<Rightarrow> u8 list \<Rightarrow> nat \<Rightarrow> dresult" where
  "lzo1x_decompress = do_decompress False"

definition lzo1x_decompress_safe :: "u8 list \<Rightarrow> u8 list \<Rightarrow> nat \<Rightarrow> dresult" where
  "lzo1x_decompress_safe = do_decompress True"

end
