(* ===== verification/LzoSafe.thy ===== *)
theory LzoSafe
  imports LzoDecompress
begin

text \<open>
  Memory safety of \<open>lzo1x_decompress_safe\<close>: whatever the input bytes are, no access
  leaves the input or the output buffer, and the run ends with one of the result codes.
  The invariant says, label by label, how many input bytes the checks made so far have
  guaranteed; each piece of the loop is shown to keep it and not to fault.
\<close>

section \<open>Results without fault\<close>

text \<open>\<open>safely n P r\<close>: \<open>r\<close> is a jump to an end label, or a next state satisfying \<open>P\<close>.\<close>

definition safely :: "nat \<Rightarrow> ('a \<Rightarrow> bool) \<Rightarrow> halt + 'a \<Rightarrow> bool" where
  "safely n P r = (case r of Inl h \<Rightarrow> h \<noteq> Fault \<and> (\<forall>ip. h = Eof_found ip \<longrightarrow> ip \<le> n) | Inr x \<Rightarrow> P x)"

lemma safely_Inr [simp]: "safely n P (Inr x) = P x"
  by (simp add: safely_def)

lemma safely_Inl [simp]:
  "safely n P (Inl h) \<longleftrightarrow> h \<noteq> Fault \<and> (\<forall>ip. h = Eof_found ip \<longrightarrow> ip \<le> n)"
  by (simp add: safely_def)

lemma safely_need:
  "h \<in> {Input_overrun, Output_overrun, Lookbehind_overrun} \<Longrightarrow> (b \<Longrightarrow> safely n P k) \<Longrightarrow>
    safely n P (need b h k)"
  by (auto simp: need_def)

lemma safely_fetch: "x = Some v \<Longrightarrow> safely n P (k v) \<Longrightarrow> safely n P (fetch x k)"
  by (simp add: fetch_def)

lemma safely_mono: "safely n P r \<Longrightarrow> (\<And>x. P x \<Longrightarrow> Q x) \<Longrightarrow> safely n Q r"
  by (cases r) auto

section \<open>What the checks guarantee\<close>

lemma ptr_diff_le: "b \<le> a \<Longrightarrow> ptr_diff a b \<le> a - b"
proof -
  assume "b \<le> a"
  have "(int a - int b) mod 2 ^ 64 \<le> int a - int b"
    using \<open>b \<le> a\<close> by (intro zmod_le_nonneg_dividend) simp
  then show ?thesis by (simp add: ptr_diff_def)
qed

lemma ptr_diff_eq: "b \<le> a \<Longrightarrow> a < 2 ^ 64 \<Longrightarrow> ptr_diff a b = a - b"
  by (simp add: ptr_diff_def nat_diff_distrib)

lemma need_ipD: "need_ip True inb ip x \<Longrightarrow> ip \<le> length inb \<Longrightarrow> ip + x \<le> length inb"
  using ptr_diff_le [of ip "length inb"] by (auto simp: need_ip_def)

lemma need_opD: "need_op True oe p x \<Longrightarrow> p \<le> oe \<Longrightarrow> p + x \<le> oe"
  using ptr_diff_le [of p oe] by (auto simp: need_op_def)

lemma test_lbD: "test_lb True p m \<Longrightarrow> 0 \<le> m \<and> m < int p"
  by (auto simp: test_lb_def)

section \<open>The invariant\<close>

definition dinv :: "u8 list \<Rightarrow> nat \<Rightarrow> dstate \<Rightarrow> bool" where
  "dinv inb oe s \<longleftrightarrow> d_op s \<le> oe \<and> oe \<le> length (d_out s) \<and> d_ip s \<le> length inb \<and>
     (case d_lab s of
        Main_loop \<Rightarrow> True
      | First_literal_run \<Rightarrow> d_ip s + 3 \<le> length inb
      | Match \<Rightarrow> 1 \<le> d_ip s \<and> d_ip s + 2 \<le> length inb \<and> d_t s < 256
      | Match_done \<Rightarrow> 2 \<le> d_ip s
      | Match_next \<Rightarrow> 0 < d_t s \<and> d_t s < 4)"

lemma run_total_bound:
  "t \<le> 2 ^ 64 - 511 \<Longrightarrow> b \<le> 31 \<Longrightarrow> c \<le> 255 \<Longrightarrow> t + b + c \<le> 2 ^ 64 - (225 :: nat)"
  by simp

lemma zero_run_safe:
  "ip < length inb \<Longrightarrow> t \<le> 2 ^ 64 - 511 \<Longrightarrow> base \<le> 31 \<Longrightarrow>
    h = Input_overrun \<or> h = Output_overrun \<Longrightarrow>
    safely n (\<lambda>(t', ip'). 0 < t' \<and> t' \<le> 2 ^ 64 - 225 \<and> ip < ip' \<and> ip' \<le> length inb)
      (zero_run True inb h base t ip)"
proof (induction True inb h base t ip rule: zero_run.induct)
  case (1 inb h base t ip)
  let ?b = "inb ! ip"
  have l: "load inb ip = Some ?b"
    using "1.prems"(1) by (simp add: load_def)
  show ?case
  proof (cases "?b = 0")
    case True
    let ?t = "wrap64 (t + 255)"
    show ?thesis
    proof (cases "test_iv True ?t \<and> need_ip True inb (ip + 1) 1")
      case t: True
      then have bound: "?t \<le> 2 ^ 64 - 511" and ip: "ip + 1 < length inb"
        using "1.prems"(1) need_ipD [of inb "ip + 1" 1] by (auto simp: test_iv_def)
      have "safely n (\<lambda>(t', ip'). 0 < t' \<and> t' \<le> 2 ^ 64 - 225 \<and> ip + 1 < ip' \<and> ip' \<le> length inb)
          (zero_run True inb h base ?t (ip + 1))"
        using t "1.hyps" [OF l True refl refl] bound ip "1.prems"(3,4) by simp
      then have "safely n (\<lambda>(t', ip'). 0 < t' \<and> t' \<le> 2 ^ 64 - 225 \<and> ip < ip' \<and> ip' \<le> length inb)
          (zero_run True inb h base ?t (ip + 1))"
        by (rule safely_mono) auto
      with t l True show ?thesis
        by (simp add: zero_run.simps [of True inb h base t ip] Let_def)
    next
      case False
      with l True "1.prems"(4) show ?thesis
        by (auto simp: zero_run.simps [of True inb h base t ip] Let_def)
    qed
  next
    case False
    then have pos: "0 < unat ?b"
      by (simp add: unat_gt_0)
    have "unat ?b \<le> 255"
      by simp
    with "1.prems"(2,3) have "t + base + unat ?b \<le> 2 ^ 64 - 225"
      by (rule run_total_bound)
    moreover from this have "wrap64 (t + base + unat ?b) = t + base + unat ?b"
      by simp
    ultimately show ?thesis
      using l False "1.prems"(1) pos by (simp add: zero_run.simps [of True inb h base t ip])
  qed
qed

section \<open>The pieces keep the invariant\<close>

definition after_copy :: "u8 list \<Rightarrow> nat \<Rightarrow> dstate \<Rightarrow> dstate \<Rightarrow> bool" where
  "after_copy inb oe s s' \<longleftrightarrow> d_lab s' = Match_done \<and> d_ip s' = d_ip s \<and> d_op s' \<le> oe \<and>
     length (d_out s') = length (d_out s)"

lemma copy_back_safe:
  assumes "forward_copy cp mind" "0 \<le> m" "m + int mind \<le> int (d_op s)" "m < int (d_op s)"
    and "d_op s + n \<le> oe" "oe \<le> length (d_out s)"
  shows "safely k (after_copy inb oe s) (copy_back cp n s m)"
proof -
  have "nat m + mind \<le> d_op s" "nat m < d_op s" "d_op s + n \<le> length (d_out s)"
    using assms(2-6) by linarith+
  then obtain d' where "cp n Self (d_out s) (d_op s) (nat m) = Some d'"
    and "length d' = length (d_out s)"
    using forward_copy.self_prefix [OF assms(1)] by blast
  then show ?thesis
    using assms(2,5) by (auto simp: copy_back_def after_copy_def intro!: safely_fetch)
qed

lemma copy_match_safe:
  assumes "0 \<le> m" "m < int (d_op s)" "0 < t" "d_op s + 2 + t \<le> oe" "oe \<le> length (d_out s)"
  shows "safely k (after_copy inb oe s) (copy_match t s m)"
proof -
  have b: "d_op s + 2 \<le> length (d_out s)" "nat m < d_op s" "nat m + 1 \<le> d_op s"
    using assms by linarith+
  obtain d1 where d1: "byte_loop 2 Self (d_out s) (d_op s) (nat m) = Some d1"
      "length d1 = length (d_out s)"
    using byte_copy.self_prefix [OF b(1) b(3) b(2)] by blast
  have "d_op s + 2 + t \<le> length d1" "nat m + 2 + 1 \<le> d_op s + 2" "nat m + 2 < d_op s + 2"
    using assms b d1(2) by linarith+
  from byte_copy.self_prefix [OF this]
  obtain d2 where "byte_loop t Self d1 (d_op s + 2) (nat m + 2) = Some d2"
      "length d2 = length d1"
    by blast
  then show ?thesis
    using assms d1 by (auto simp: copy_match_def after_copy_def do_while_copy_def intro!: safely_fetch)
qed

lemma long_match_safe:
  assumes "0 < d_t s" "d_t s \<le> 2 ^ 64 - 225" "d_op s \<le> oe" "oe \<le> length (d_out s)"
  shows "safely k (after_copy inb oe s) (long_match True oe s m)"
proof -
  let ?t = "d_t s"
  have w: "wrap64 (?t + 3 - 1) = ?t + 2" "wrap64 (?t + (3 - 1)) = ?t + 2"
    using assms(2) by simp_all
  have "safely k (after_copy inb oe s)
      (if int (d_op s) - m \<ge> 8 then copy_back chunk_copy (?t + 2) s m else copy_match ?t s m)"
    if lb: "test_lb True (d_op s) m" and no: "need_op True oe (d_op s) (?t + 2)"
  proof -
    have "d_op s + (?t + 2) \<le> oe"
      using need_opD [OF no assms(3)] .
    then show ?thesis
      using test_lbD [OF lb] assms
      by (auto intro!: copy_back_safe [OF chunk.forward_copy_axioms] copy_match_safe)
  qed
  then show ?thesis
    unfolding long_match_def Let_def w by (intro safely_need) auto
qed

lemma literal_run_safe:
  assumes "0 < t" "t \<le> 2 ^ 64 - 225" "d_op s \<le> oe" "oe \<le> length (d_out s)" "ip \<le> length inb"
  shows "safely k (dinv inb oe) (literal_run True inb oe t ip s)"
proof -
  have w: "wrap64 (t + 3) = t + 3" "wrap64 (t + 6) = t + 6"
    using assms(2) by simp_all
  have "safely k (dinv inb oe) (fetch (chunk_copy (t + 3) (From inb) (d_out s) (d_op s) ip)
      (\<lambda>out'. Inr (s\<lparr>d_lab := First_literal_run, d_ip := ip + (t + 3), d_op := d_op s + (t + 3),
        d_out := out'\<rparr>)))"
    if no: "need_op True oe (d_op s) (t + 3)" and ni: "need_ip True inb ip (t + 6)"
  proof -
    have b: "d_op s + (t + 3) \<le> oe" "ip + (t + 6) \<le> length inb"
      using need_opD [OF no assms(3)] need_ipD [OF ni assms(5)] .
    then have c: "d_op s + (t + 3) \<le> length (d_out s)" "ip + (t + 3) \<le> length inb"
      using assms(4) by linarith+
    obtain d' where "chunk_copy (t + 3) (From inb) (d_out s) (d_op s) ip = Some d'"
        "length d' = length (d_out s)"
      using chunk.from_prefix [OF c] by blast
    then show ?thesis
      using b assms by (auto intro!: safely_fetch simp: dinv_def)
  qed
  then show ?thesis
    unfolding literal_run_def Let_def w by (intro safely_need) auto
qed

lemma main_loop_safe:
  assumes "dinv inb oe s"
  shows "safely k (dinv inb oe) (main_loop True inb oe s)"
proof -
  let ?ip = "d_ip s" and ?b = "inb ! d_ip s"
  have inv: "d_op s \<le> oe" "oe \<le> length (d_out s)" "?ip \<le> length inb"
    using assms by (auto simp: dinv_def)
  have run: "safely k (dinv inb oe) (case zero_run True inb Input_overrun 15 0 (?ip + 1) of
        Inl h \<Rightarrow> Inl h | Inr (t', ip') \<Rightarrow> literal_run True inb oe t' ip' s)"
    if "?ip + 3 \<le> length inb"
  proof -
    have "safely k (\<lambda>(t', ip'). 0 < t' \<and> t' \<le> 2 ^ 64 - 225 \<and> ?ip + 1 < ip' \<and> ip' \<le> length inb)
        (zero_run True inb Input_overrun 15 0 (?ip + 1))"
      using that by (intro zero_run_safe) auto
    then show ?thesis
      using inv by (auto split: sum.splits intro!: literal_run_safe)
  qed
  have "safely k (dinv inb oe)
      (let t = unat ?b; ip = ?ip + 1 in
       if t \<ge> 16 then Inr (s\<lparr>d_lab := Match, d_ip := ip, d_t := t\<rparr>)
       else if t = 0 then
         (case zero_run True inb Input_overrun 15 t ip of
            Inl h \<Rightarrow> Inl h | Inr (t', ip') \<Rightarrow> literal_run True inb oe t' ip' s)
       else literal_run True inb oe t ip s)" if n: "need_ip True inb ?ip 3"
  proof -
    have "?ip + 3 \<le> length inb"
      using need_ipD [OF n inv(3)] .
    moreover have "unat ?b < 256"
      by simp
    ultimately show ?thesis
      using inv run by (auto simp: Let_def dinv_def intro!: literal_run_safe)
  qed
  moreover have "need_ip True inb ?ip 3 \<Longrightarrow> load inb ?ip = Some ?b"
    using need_ipD [OF _ inv(3), of 3] by (simp add: load_def)
  ultimately show ?thesis
    unfolding main_loop_def by (intro safely_need safely_fetch) auto
qed

lemma after_copy_dinv:
  "after_copy inb oe s s' \<Longrightarrow> oe \<le> length (d_out s) \<Longrightarrow> 2 \<le> d_ip s \<Longrightarrow> d_ip s \<le> length inb \<Longrightarrow>
    dinv inb oe s'"
  by (auto simp: after_copy_def dinv_def)

lemma byte_copy_back_safe:
  assumes "test_lb True (d_op s) m" "need_op True oe (d_op s) n" "d_op s \<le> oe"
    "oe \<le> length (d_out s)" "2 \<le> d_ip s" "d_ip s \<le> length inb"
  shows "safely k (dinv inb oe) (copy_back byte_loop n s m)"
proof -
  have "safely k (after_copy inb oe s) (copy_back byte_loop n s m)"
    using test_lbD [OF assms(1)] need_opD [OF assms(2,3)] assms
    by (intro copy_back_safe [OF byte_copy.forward_copy_axioms]) auto
  then show ?thesis
    using assms by (auto elim!: safely_mono intro: after_copy_dinv)
qed

lemma first_literal_run_safe:
  assumes "dinv inb oe s" "d_lab s = First_literal_run"
  shows "safely k (dinv inb oe) (first_literal_run True inb oe s)"
proof -
  have inv: "d_op s \<le> oe" "oe \<le> length (d_out s)" "d_ip s + 3 \<le> length inb"
    using assms by (auto simp: dinv_def)
  then have l: "load inb (d_ip s) = Some (inb ! d_ip s)"
    "load inb (d_ip s + 1) = Some (inb ! (d_ip s + 1))"
    by (simp_all add: load_def)
  show ?thesis
  proof (cases "unat (inb ! d_ip s) \<ge> 16")
    case True
    then show ?thesis
      using inv by (simp add: first_literal_run_def fetch_def l dinv_def Let_def)
  next
    case False
    then show ?thesis
      using inv unfolding first_literal_run_def fetch_def l option.case Let_def
      by (auto intro!: safely_need byte_copy_back_safe)
  qed
qed

lemma match_m1_safe:
  assumes "dinv inb oe s" "d_lab s = Match"
  shows "safely k (dinv inb oe) (match_m1 True inb oe s)"
proof -
  have inv: "d_op s \<le> oe" "oe \<le> length (d_out s)" "1 \<le> d_ip s" "d_ip s + 2 \<le> length inb"
    using assms by (auto simp: dinv_def)
  then have l: "load inb (d_ip s) = Some (inb ! d_ip s)"
    by (simp add: load_def)
  show ?thesis
    using inv unfolding match_m1_def fetch_def l option.case Let_def
    by (auto intro!: safely_need byte_copy_back_safe)
qed

lemma match_m2_safe:
  assumes "dinv inb oe s" "d_lab s = Match" "64 \<le> d_t s"
  shows "safely k (dinv inb oe) (match_m2 True inb oe s)"
proof -
  let ?t = "d_t s div 32 - 1"
  have inv: "d_op s \<le> oe" "oe \<le> length (d_out s)" "1 \<le> d_ip s" "d_ip s + 2 \<le> length inb"
    "d_t s < 256"
    using assms by (auto simp: dinv_def)
  then have l: "load inb (d_ip s) = Some (inb ! d_ip s)"
    by (simp add: load_def)
  have t: "0 < ?t" "?t + 3 - 1 = ?t + 2" "wrap64 (?t + 3 - 1) = ?t + 2"
    using assms(3) inv(5) by auto
  have "safely k (dinv inb oe) (copy_match ?t (s\<lparr>d_ip := d_ip s + 1, d_t := ?t\<rparr>) m)"
    if "test_lb True (d_op s) m" "need_op True oe (d_op s) (?t + 2)" for m
  proof -
    have "safely k (after_copy inb oe (s\<lparr>d_ip := d_ip s + 1, d_t := ?t\<rparr>))
        (copy_match ?t (s\<lparr>d_ip := d_ip s + 1, d_t := ?t\<rparr>) m)"
      using test_lbD [OF that(1)] need_opD [OF that(2) inv(1)] inv t(1)
      by (intro copy_match_safe) auto
    then show ?thesis
      using inv by (auto elim!: safely_mono intro: after_copy_dinv)
  qed
  then show ?thesis
    unfolding match_m2_def fetch_def l option.case Let_def t(3)
    by (auto intro!: safely_need)
qed

text \<open>M3 and M4 share the length field: either in the first byte or a zero run.\<close>

lemma length_field_safe:
  assumes "dinv inb oe s" "d_lab s = Match" "0 < m" "base \<le> 31"
  shows "safely k (\<lambda>(t', ip'). 0 < t' \<and> t' \<le> 2 ^ 64 - 225 \<and> d_ip s \<le> ip' \<and> ip' \<le> length inb \<and>
      (d_t s mod m = 0 \<longrightarrow> d_ip s < ip') \<and> (d_t s mod m \<noteq> 0 \<longrightarrow> ip' = d_ip s))
    (if d_t s mod m = 0 then zero_run True inb Output_overrun base (d_t s mod m) (d_ip s)
     else Inr (d_t s mod m, d_ip s))"
proof (cases "d_t s mod m = 0")
  case True
  have "safely k (\<lambda>(t', ip'). 0 < t' \<and> t' \<le> 2 ^ 64 - 225 \<and> d_ip s < ip' \<and> ip' \<le> length inb)
      (zero_run True inb Output_overrun base 0 (d_ip s))"
    using assms by (intro zero_run_safe) (auto simp: dinv_def)
  then show ?thesis
    using True by (auto elim!: safely_mono)
next
  case False
  have "d_t s < 256"
    using assms by (auto simp: dinv_def)
  with mod_less_eq_dividend [of "d_t s" m] have "d_t s mod m < 256"
    by (rule le_less_trans)
  then have "d_t s mod m \<le> 2 ^ 64 - 225"
    by simp
  then show ?thesis
    using False assms by (auto simp: dinv_def)
qed

lemma long_match_dinv:
  assumes "dinv inb oe s" "d_lab s = Match" "0 < t" "t \<le> 2 ^ 64 - 225" "2 \<le> ip" "ip \<le> length inb"
  shows "safely k (dinv inb oe) (long_match True oe (s\<lparr>d_ip := ip, d_t := t\<rparr>) m)"
proof -
  have "safely k (after_copy inb oe (s\<lparr>d_ip := ip, d_t := t\<rparr>))
      (long_match True oe (s\<lparr>d_ip := ip, d_t := t\<rparr>) m)"
    using assms by (intro long_match_safe) (auto simp: dinv_def)
  then show ?thesis
    using assms by (auto elim!: safely_mono intro!: after_copy_dinv simp: dinv_def)
qed

lemma match_m3_safe:
  assumes "dinv inb oe s" "d_lab s = Match"
  shows "safely k (dinv inb oe) (match_m3 True inb oe s)"
proof -
  let ?r = "if d_t s mod 32 = 0 then zero_run True inb Output_overrun 31 (d_t s mod 32) (d_ip s)
     else Inr (d_t s mod 32, d_ip s)"
  have inv: "1 \<le> d_ip s" "d_ip s + 2 \<le> length inb"
    using assms by (auto simp: dinv_def)
  have "safely k (dinv inb oe)
      (need (d_t s mod 32 = 0 \<longrightarrow> need_ip True inb ip' 2) Input_overrun (
       fetch (get_le16 inb ip') (\<lambda>w.
         long_match True oe (s\<lparr>d_ip := ip' + 2, d_t := t'\<rparr>)
           (int (d_op s) - 1 - int (unat w div 4)))))"
    if "0 < t'" "t' \<le> 2 ^ 64 - 225" "d_ip s \<le> ip'" "ip' \<le> length inb"
      "d_t s mod 32 \<noteq> 0 \<longrightarrow> ip' = d_ip s" for t' ip'
  proof -
    have b: "ip' + 2 \<le> length inb" if "d_t s mod 32 = 0 \<longrightarrow> need_ip True inb ip' 2"
      using that \<open>ip' \<le> length inb\<close> \<open>d_t s mod 32 \<noteq> 0 \<longrightarrow> ip' = d_ip s\<close> inv(2)
        need_ipD [of inb ip' 2] by (cases "d_t s mod 32 = 0") auto
    show ?thesis
      using that assms inv b
      by (intro safely_need safely_fetch [OF get_le16_Some] long_match_dinv) auto
  qed
  then show ?thesis
    using length_field_safe [OF assms, of 32 31 k]
    unfolding match_m3_def Let_def by (auto split: sum.splits)
qed

lemma match_m4_safe:
  assumes "dinv inb oe s" "d_lab s = Match"
  shows "safely (length inb) (dinv inb oe) (match_m4 True inb oe s)"
proof -
  let ?m0 = "int (d_op s) - int ((d_t s div 8) mod 2 * 16384)"
  have inv: "1 \<le> d_ip s" "d_ip s + 2 \<le> length inb"
    using assms by (auto simp: dinv_def)
  have "safely (length inb) (dinv inb oe)
      (need (d_t s mod 8 = 0 \<longrightarrow> need_ip True inb ip' 2) Input_overrun (
       fetch (get_le16 inb ip') (\<lambda>w.
         if ?m0 - int (unat w div 4) = int (d_op s) then Inl (Eof_found (ip' + 2))
         else long_match True oe (s\<lparr>d_ip := ip' + 2, d_t := t'\<rparr>)
           (?m0 - int (unat w div 4) - 16384))))"
    if "0 < t'" "t' \<le> 2 ^ 64 - 225" "d_ip s \<le> ip'" "ip' \<le> length inb"
      "d_t s mod 8 \<noteq> 0 \<longrightarrow> ip' = d_ip s" for t' ip'
  proof -
    have b: "ip' + 2 \<le> length inb" if "d_t s mod 8 = 0 \<longrightarrow> need_ip True inb ip' 2"
      using that \<open>ip' \<le> length inb\<close> \<open>d_t s mod 8 \<noteq> 0 \<longrightarrow> ip' = d_ip s\<close> inv(2)
        need_ipD [of inb ip' 2] by (cases "d_t s mod 8 = 0") auto
    have lm: "safely (length inb) (dinv inb oe)
        (long_match True oe (s\<lparr>d_ip := ip' + 2, d_t := t'\<rparr>) m)" if "ip' + 2 \<le> length inb" for m
      using that \<open>0 < t'\<close> \<open>t' \<le> 2 ^ 64 - 225\<close> \<open>d_ip s \<le> ip'\<close> assms inv
      by (intro long_match_dinv) auto
    show ?thesis
      using b lm by (intro safely_need safely_fetch [OF get_le16_Some]) auto
  qed
  then show ?thesis
    using length_field_safe [OF assms, of 8 7 "length inb"]
    unfolding match_m4_def Let_def by (auto split: sum.splits)
qed

lemma match_step_safe:
  assumes "dinv inb oe s" "d_lab s = Match"
  shows "safely (length inb) (dinv inb oe) (match_step True inb oe s)"
  using assms match_m1_safe match_m2_safe match_m3_safe match_m4_safe
  by (simp add: match_step_def)

lemma match_done_safe:
  assumes "dinv inb oe s" "d_lab s = Match_done"
  shows "safely k (dinv inb oe) (match_done inb s)"
proof -
  have "2 \<le> d_ip s" "d_ip s \<le> length inb"
    using assms by (auto simp: dinv_def)
  then have "load inb (d_ip s - 2) = Some (inb ! (d_ip s - 2))"
    by (simp add: load_def)
  then show ?thesis
    using assms by (auto simp: match_done_def fetch_def dinv_def Let_def)
qed

lemma match_next_safe:
  assumes "dinv inb oe s" "d_lab s = Match_next"
  shows "safely k (dinv inb oe) (match_next True inb oe s)"
proof -
  let ?t = "d_t s"
  have inv: "d_op s \<le> oe" "oe \<le> length (d_out s)" "d_ip s \<le> length inb" "0 < ?t" "?t < 4"
    using assms by (auto simp: dinv_def)
  then have n: "max 1 (min 3 ?t) = ?t"
    by simp
  have "safely k (dinv inb oe) (fetch (byte_loop ?t (From inb) (d_out s) (d_op s) (d_ip s)) (\<lambda>out'.
      fetch (load inb (d_ip s + ?t)) (\<lambda>b.
        Inr (s\<lparr>d_lab := Match, d_ip := d_ip s + ?t + 1, d_op := d_op s + ?t,
              d_t := unat b, d_out := out'\<rparr>))))"
    if no: "need_op True oe (d_op s) ?t" and ni: "need_ip True inb (d_ip s) (?t + 3)"
  proof -
    have b: "d_op s + ?t \<le> oe" "d_ip s + (?t + 3) \<le> length inb"
      using need_opD [OF no inv(1)] need_ipD [OF ni inv(3)] .
    then have c: "d_op s + ?t \<le> length (d_out s)" "d_ip s + ?t \<le> length inb"
      using inv(2) by linarith+
    obtain d' where "byte_loop ?t (From inb) (d_out s) (d_op s) (d_ip s) = Some d'"
        "length d' = length (d_out s)"
      using byte_copy.from_prefix [OF c] by blast
    moreover have "load inb (d_ip s + ?t) = Some (inb ! (d_ip s + ?t))"
      using b by (simp add: load_def)
    ultimately show ?thesis
      using b inv by (auto intro!: safely_fetch simp: dinv_def)
  qed
  then show ?thesis
    unfolding match_next_def Let_def n by (intro safely_need) auto
qed

lemma dstep_safe:
  assumes "dinv inb oe s"
  shows "safely (length inb) (dinv inb oe) (dstep True inb oe s)"
  using assms main_loop_safe first_literal_run_safe match_step_safe match_done_safe match_next_safe
  by (auto simp: dstep_def split: label.split)

lemma drun_safe:
  "dinv inb oe s \<Longrightarrow> \<exists>h s'. drun True inb oe s = (h, s') \<and> h \<noteq> Fault \<and>
    (\<forall>ip. h = Eof_found ip \<longrightarrow> ip \<le> length inb) \<and> dinv inb oe s'"
proof (induction True inb oe s rule: drun.induct)
  case (1 inb oe s)
  have safe: "safely (length inb) (dinv inb oe) (dstep True inb oe s)"
    using "1.prems" by (rule dstep_safe)
  show ?case
  proof (cases "dstep True inb oe s")
    case (Inl h)
    with safe "1.prems" show ?thesis
      by (simp add: drun.simps [of True inb oe s])
  next
    case (Inr s')
    with safe have "dinv inb oe s'" by simp
    from "1.hyps" [OF Inr this] Inr show ?thesis
      by (simp add: drun.simps [of True inb oe s])
  qed
qed

lemma dstart_safe:
  assumes "oe \<le> length out"
  shows "safely (length inb) (dinv inb oe) (dstart True inb oe out)"
proof -
  let ?b = "inb ! 0"
  have first: "safely (length inb) (dinv inb oe)
      (fetch (do_while_copy t (From inb) out 0 1) (\<lambda>out'.
        Inr \<lparr>d_lab = First_literal_run, d_ip = 1 + t, d_op = t, d_t = 0, d_out = out'\<rparr>))"
    if "0 < t" "need_op True oe 0 t" "need_ip True inb 1 (t + 3)" "1 \<le> length inb" for t
  proof -
    have "t \<le> oe" "1 + (t + 3) \<le> length inb"
      using that need_opD [of oe 0 t] need_ipD [of inb 1 "t + 3"] by auto
    then have c: "0 + t \<le> length out" "1 + t \<le> length inb"
      using assms by linarith+
    obtain d' where "byte_loop t (From inb) out 0 1 = Some d'" "length d' = length out"
      using byte_copy.from_prefix [OF c] by blast
    then show ?thesis
      using that \<open>t \<le> oe\<close> \<open>1 + (t + 3) \<le> length inb\<close> assms
      by (auto intro!: safely_fetch simp: do_while_copy_def dinv_def)
  qed
  have n: "1 \<le> length inb" if "need_ip True inb 0 1"
    using need_ipD [OF that] by simp
  have l: "load inb 0 = Some ?b" if "need_ip True inb 0 1"
    using n [OF that] by (cases inb) (auto simp: load_def)
  show ?thesis
    unfolding dstart_def Let_def using assms n first
    by (intro safely_need safely_fetch [OF l]) (auto simp: dinv_def intro!: safely_need)
qed

section \<open>The buffer keeps its size\<close>

lemma ua_copy_length: "ua_copy k src d di si = Some d' \<Longrightarrow> length d' = length d"
  by (auto simp: ua_copy_def split: option.splits dest: store_length)

lemma byte_loop_length: "byte_loop n src d di si = Some d' \<Longrightarrow> length d' = length d"
  by (induction n arbitrary: d di si) (auto split: option.splits dest: ua_copy_length)

lemma chunk_copy_length: "chunk_copy n src d di si = Some d' \<Longrightarrow> length d' = length d"
proof (induction n src d di si rule: chunk_copy.induct)
  case (1 t src d di si)
  show ?case
  proof (cases "8 \<le> t")
    case True
    with "1.prems" obtain d1 where d1: "ua_copy 8 src d di si = Some d1"
        "chunk_copy (t - 8) src d1 (di + 8) (si + 8) = Some d'"
      by (auto simp: chunk_copy.simps [of t] split: option.splits)
    from "1.IH" [OF True d1] ua_copy_length [OF d1(1)] show ?thesis by simp
  next
    case False
    with "1.prems" show ?thesis
      by (auto simp: chunk_copy.simps [of t] copy_tail_def split: if_splits option.splits
          dest!: ua_copy_length byte_loop_length)
  qed
qed

lemmas copy_lengths = ua_copy_length byte_loop_length chunk_copy_length

lemma copy_match_length: "copy_match t s m = Inr s' \<Longrightarrow> length (d_out s') = length (d_out s)"
  by (auto simp: copy_match_def do_while_copy_def fetch_eq_Inr split: if_splits dest!: copy_lengths)

lemma long_match_length: "long_match safe oe s m = Inr s' \<Longrightarrow> length (d_out s') = length (d_out s)"
  by (auto simp: long_match_def copy_back_def step_inv split: if_splits
      dest!: copy_lengths copy_match_length)

lemma literal_run_length:
  "literal_run safe inb oe t ip s = Inr s' \<Longrightarrow> length (d_out s') = length (d_out s)"
  by (auto simp: literal_run_def step_inv dest!: copy_lengths)

lemma match_step_length:
  "match_step safe inb oe s = Inr s' \<Longrightarrow> length (d_out s') = length (d_out s)"
  by (auto simp: match_step_def match_m1_def match_m2_def match_m3_def match_m4_def copy_back_def
      step_inv split: if_splits sum.splits dest!: copy_lengths copy_match_length long_match_length)

lemma dstep_length: "dstep safe inb oe s = Inr s' \<Longrightarrow> length (d_out s') = length (d_out s)"
  by (auto simp: dstep_def main_loop_def first_literal_run_def match_done_def match_next_def
      copy_back_def step_inv split: label.splits if_splits sum.splits
      dest!: copy_lengths match_step_length literal_run_length)

lemma drun_length: "drun safe inb oe s = (h, s') \<Longrightarrow> length (d_out s') = length (d_out s)"
proof (induction safe inb oe s rule: drun.induct)
  case (1 safe inb oe s)
  show ?case
  proof (cases "dstep safe inb oe s")
    case (Inl h')
    with "1.prems" show ?thesis by (simp add: drun.simps [of safe inb oe s])
  next
    case (Inr s1)
    with "1.prems" "1.IH" [OF Inr] dstep_length [OF Inr] show ?thesis
      by (simp add: drun.simps [of safe inb oe s])
  qed
qed

lemma dstart_length: "dstart safe inb oe out = Inr s \<Longrightarrow> length (d_out s) = length out"
  by (auto simp: dstart_def do_while_copy_def step_inv split: if_splits dest!: copy_lengths)

section \<open>The theorem\<close>

text \<open>
  C2. Memory safety of \<open>lzo1x_decompress_safe\<close>: for every input, every output buffer and
  every announced capacity that fits the buffer, the call terminates with a result code,
  never reads outside the input, never reads or writes outside the buffer, and reports at
  most the announced number of bytes.
\<close>

theorem lzo1x_decompress_safe_memory_safe:
  assumes "out_len \<le> length out"
  shows "\<exists>code n out'. lzo1x_decompress_safe inb out out_len = Result code n out' \<and>
    n \<le> out_len \<and> length out' = length out"
proof -
  have safe: "safely (length inb) (dinv inb out_len) (dstart True inb out_len out)"
    using assms by (rule dstart_safe)
  show ?thesis
  proof (cases "dstart True inb out_len out")
    case (Inl h)
    with safe show ?thesis
      by (cases h) (simp_all add: lzo1x_decompress_safe_def do_decompress_def)
  next
    case (Inr s)
    with safe obtain h s' where r: "drun True inb out_len s = (h, s')" "h \<noteq> Fault"
        "dinv inb out_len s'"
      using drun_safe [of inb out_len s] by auto
    then have "length (d_out s') = length out"
      using drun_length dstart_length [OF Inr] by metis
    with r Inr show ?thesis
      by (cases h) (auto simp: lzo1x_decompress_safe_def do_decompress_def dinv_def)
  qed
qed

theorem lzo1x_decompress_safe_memory_safe_witness:
  "\<exists>code n out'. lzo1x_decompress_safe [255, 1, 2] (replicate 4 0) 4 = Result code n out' \<and>
    n \<le> 4 \<and> length out' = 4"
  using lzo1x_decompress_safe_memory_safe [of 4 "replicate 4 0" "[255, 1, 2]"] by simp

end
