(* ===== verification/LzoFormat.thy ===== *)
theory LzoFormat
  imports LzoSafe
begin

text \<open>
  The LZO1X stream as data: a sequence of literal runs and matches, each match with up to
  three trailing literals whose number lives in the low bits of the match. The whole format is
  a list of \<open>instr\<close>, which names the kind of each match: \<open>meaning\<close> is what it stands for,
  \<open>enc_instrs\<close> its bytes. The streams the compressor makes are lists of \<open>item\<close>, whose matches have the
  kind that \<open>enc_match\<close> chooses. The main lemma says that both decompressors turn the bytes into the meaning.
\<close>

section \<open>Items, their meaning and their bytes\<close>

datatype item = Lits "u8 list" | Mtch nat nat "u8 list"

fun expand :: "u8 list \<Rightarrow> item list \<Rightarrow> u8 list" where
  "expand h [] = h"
| "expand h (Lits bs # is) = expand (h @ bs) is"
| "expand h (Mtch len dist ls # is) = expand (lz_copy len h dist @ ls) is"

text \<open>
  Which sequences are streams: a literal run stands at the start or after a match without
  trailing literals; a distance stays inside what has been produced.
\<close>

fun wf_items :: "bool \<Rightarrow> nat \<Rightarrow> item list \<Rightarrow> bool" where
  "wf_items a n [] = True"
| "wf_items a n (Lits bs # is) \<longleftrightarrow> a \<and> 4 \<le> length bs \<and> wf_items False (n + length bs) is"
| "wf_items a n (Mtch len dist ls # is) \<longleftrightarrow>
     3 \<le> len \<and> 1 \<le> dist \<and> dist \<le> n \<and> dist \<le> 49151 \<and> length ls \<le> 3 \<and>
     wf_items (ls = []) (n + len + length ls) is"

text \<open>A count above the field's range: zero bytes for 255 each, then the remainder.\<close>

fun run_bytes :: "nat \<Rightarrow> u8 list" where
  "run_bytes n = (if n > 255 then 0 # run_bytes (n - 255) else [byte_of n])"

declare run_bytes.simps [simp del]

definition enc_lits :: "u8 list \<Rightarrow> u8 list" where
  "enc_lits bs =
     (if length bs \<le> 18 then [byte_of (length bs - 3)] else 0 # run_bytes (length bs - 18)) @ bs"

definition enc_m2 :: "nat \<Rightarrow> nat \<Rightarrow> nat \<Rightarrow> u8 list" where
  "enc_m2 len dist k =
     [byte_of ((len - 1) * 32 + (dist - 1) mod 8 * 4 + k), byte_of ((dist - 1) div 8)]"

definition enc_m3 :: "nat \<Rightarrow> nat \<Rightarrow> nat \<Rightarrow> u8 list" where
  "enc_m3 len dist k =
     (if len \<le> 33 then [byte_of (32 + (len - 2))] else byte_of 32 # run_bytes (len - 33)) @
     [byte_of ((dist - 1) mod 64 * 4 + k), byte_of ((dist - 1) div 64)]"

definition enc_m4 :: "nat \<Rightarrow> nat \<Rightarrow> nat \<Rightarrow> u8 list" where
  "enc_m4 len dist k =
     (let m = dist - 16384; hi = m div 16384 * 8 in
      (if len \<le> 9 then [byte_of (16 + hi + (len - 2))] else byte_of (16 + hi) # run_bytes (len - 9)) @
      [byte_of (m mod 64 * 4 + k), byte_of (m div 64)])"

definition enc_match :: "nat \<Rightarrow> nat \<Rightarrow> nat \<Rightarrow> u8 list" where
  "enc_match len dist k =
     (if len \<le> 8 \<and> dist \<le> 2048 then enc_m2 len dist k
      else if dist \<le> 16384 then enc_m3 len dist k
      else enc_m4 len dist k)"

fun enc_item :: "item \<Rightarrow> u8 list" where
  "enc_item (Lits bs) = enc_lits bs"
| "enc_item (Mtch len dist ls) = enc_match len dist (length ls) @ ls"

definition enc_items :: "item list \<Rightarrow> u8 list" where
  "enc_items is = concat (map enc_item is)"

section \<open>All streams of the format\<close>

text \<open>
  What stands before an instruction: the start of the stream or a match without trailing literals; a
  run of four literals or more; one to three literals. A first byte below 16 means something else in each:
  a run of literals, a match of three bytes beyond the reach of M2, a match of two bytes.
\<close>

datatype ctx = Plain | After_run | After_few

datatype kind = M1 | M1_far | M2 | M3 | M4

datatype instr = Literals "u8 list" | Copy kind nat nat "u8 list"

fun allowed :: "ctx \<Rightarrow> kind \<Rightarrow> nat \<Rightarrow> nat \<Rightarrow> bool" where
  "allowed c M1 len dist \<longleftrightarrow> c = After_few \<and> len = 2 \<and> 1 \<le> dist \<and> dist \<le> 1024"
| "allowed c M1_far len dist \<longleftrightarrow> c = After_run \<and> len = 3 \<and> 2049 \<le> dist \<and> dist \<le> 3072"
| "allowed c M2 len dist \<longleftrightarrow> 3 \<le> len \<and> len \<le> 8 \<and> 1 \<le> dist \<and> dist \<le> 2048"
| "allowed c M3 len dist \<longleftrightarrow> 3 \<le> len \<and> 1 \<le> dist \<and> dist \<le> 16384"
| "allowed c M4 len dist \<longleftrightarrow> 3 \<le> len \<and> 16384 < dist \<and> dist \<le> 49151"

text \<open>The distance stays inside the \<open>n\<close> bytes that have been produced.\<close>

fun wf_instrs :: "ctx \<Rightarrow> nat \<Rightarrow> instr list \<Rightarrow> bool" where
  "wf_instrs c n [] = True"
| "wf_instrs c n (Literals bs # is) \<longleftrightarrow> c = Plain \<and> 4 \<le> length bs \<and> wf_instrs After_run (n + length bs) is"
| "wf_instrs c n (Copy kind len dist ls # is) \<longleftrightarrow>
     allowed c kind len dist \<and> dist \<le> n \<and> length ls \<le> 3 \<and>
     wf_instrs (if ls = [] then Plain else After_few) (n + len + length ls) is"

fun meaning :: "u8 list \<Rightarrow> instr list \<Rightarrow> u8 list" where
  "meaning h [] = h"
| "meaning h (Literals bs # is) = meaning (h @ bs) is"
| "meaning h (Copy kind len dist ls # is) = meaning (lz_copy len h dist @ ls) is"

definition enc_m1 :: "nat \<Rightarrow> nat \<Rightarrow> u8 list" where
  "enc_m1 dist k = [byte_of ((dist - 1) mod 4 * 4 + k), byte_of ((dist - 1) div 4)]"

fun enc_copy :: "kind \<Rightarrow> nat \<Rightarrow> nat \<Rightarrow> nat \<Rightarrow> u8 list" where
  "enc_copy M1 len dist k = enc_m1 dist k"
| "enc_copy M1_far len dist k = enc_m1 (dist - 2048) k"
| "enc_copy M2 len dist k = enc_m2 len dist k"
| "enc_copy M3 len dist k = enc_m3 len dist k"
| "enc_copy M4 len dist k = enc_m4 len dist k"

fun enc_instr :: "instr \<Rightarrow> u8 list" where
  "enc_instr (Literals bs) = enc_lits bs"
| "enc_instr (Copy kind len dist ls) = enc_copy kind len dist (length ls) @ ls"

definition enc_instrs :: "instr list \<Rightarrow> u8 list" where
  "enc_instrs is = concat (map enc_instr is)"

lemma enc_instrs_simps [simp]: "enc_instrs [] = []" "enc_instrs (i # is) = enc_instr i @ enc_instrs is"
  by (simp_all add: enc_instrs_def)

lemma length_meaning: "length h \<le> length (meaning h is)"
  by (induction h "is" rule: meaning.induct) auto

text \<open>The items of the compressor as instructions.\<close>

fun instr_of :: "item \<Rightarrow> instr" where
  "instr_of (Lits bs) = Literals bs"
| "instr_of (Mtch len dist ls) = Copy (if len \<le> 8 \<and> dist \<le> 2048 then M2 else if dist \<le> 16384 then M3 else M4) len dist ls"

lemma enc_instr_of: "enc_instr (instr_of i) = enc_item i"
  by (cases i) (simp_all add: enc_match_def)

lemma enc_instrs_of: "enc_instrs (map instr_of is) = enc_items is"
  by (simp add: enc_instrs_def enc_items_def enc_instr_of comp_def)

lemma meaning_of: "meaning h (map instr_of is) = expand h is"
  by (induction h "is" rule: expand.induct) auto

lemma wf_instrs_of: "wf_items a n is \<Longrightarrow> (a \<longleftrightarrow> c = Plain) \<Longrightarrow> wf_instrs c n (map instr_of is)"
  by (induction a n "is" arbitrary: c rule: wf_items.induct) auto

section \<open>The end marker\<close>

definition eof_marker :: "u8 list" where
  "eof_marker = [17, 0, 0]"

lemma enc_items_Nil [simp]: "enc_items [] = []"
  by (simp add: enc_items_def)

lemma enc_items_Cons [simp]: "enc_items (i # is) = enc_item i @ enc_items is"
  by (simp add: enc_items_def)

lemma enc_items_append: "enc_items (is @ js) = enc_items is @ enc_items js"
  by (simp add: enc_items_def)

lemma expand_append: "expand h (is @ js) = expand (expand h is) js"
  by (induction h "is" rule: expand.induct) auto

lemma length_expand: "length h \<le> length (expand h is)"
  by (induction h "is" rule: expand.induct) auto

lemma run_bytes_ne [simp]: "run_bytes n \<noteq> []"
  by (subst run_bytes.simps) simp

section \<open>Zero runs\<close>

lemma zero_run_bytes:
  "0 < n \<Longrightarrow> t + base + n < 2 ^ 63 \<Longrightarrow> length (pre @ run_bytes n @ post) < 2 ^ 63 \<Longrightarrow>
    zero_run safe (pre @ run_bytes n @ post) h base t (length pre) =
      Inr (t + base + n, length pre + length (run_bytes n))"
proof (induction n arbitrary: pre t rule: run_bytes.induct)
  case (1 n)
  let ?inb = "pre @ run_bytes n @ post"
  show ?case
  proof (cases "n > 255")
    case True
    then have rb: "run_bytes n = 0 # run_bytes (n - 255)"
      by (subst run_bytes.simps) simp
    then have l: "load ?inb (length pre) = Some 0"
      by (simp add: load_def)
    have w: "wrap64 (t + 255) = t + 255" "test_iv safe (t + 255)"
      using True "1.prems" by (simp_all add: test_iv_def)
    have "need_ip safe ?inb (length pre + 1) 1"
      using "1.prems" rb by (cases "run_bytes (n - 255)") (simp_all add: need_ip_def ptr_diff_eq)
    with l w have "zero_run safe ?inb h base t (length pre) =
        zero_run safe ?inb h base (t + 255) (length pre + 1)"
      by (simp add: zero_run.simps [of safe ?inb h base t] Let_def)
    also have "\<dots> = Inr (t + 255 + base + (n - 255), length pre + 1 + length (run_bytes (n - 255)))"
      using "1.IH" [OF True, of "t + 255" "pre @ [0]"] True "1.prems" rb by simp
    finally show ?thesis
      using True rb by simp
  next
    case False
    then have rb: "run_bytes n = [byte_of n]"
      by (subst run_bytes.simps) simp
    moreover have "(byte_of n :: u8) \<noteq> 0"
      using False "1.prems"(1) by (intro byte_of_neq_0) auto
    ultimately show ?thesis
      using False "1.prems" by (subst zero_run.simps) (simp add: load_def)
  qed
qed

section \<open>One item at a time\<close>

text \<open>The buffers have real sizes: a pointer difference is exact below $2^{63}$ bytes.\<close>

definition sized :: "u8 list \<Rightarrow> nat \<Rightarrow> dstate \<Rightarrow> bool" where
  "sized inb oe s \<longleftrightarrow> length inb < 2 ^ 63 \<and> oe \<le> length (d_out s) \<and> oe < 2 ^ 63"

text \<open>\<open>holds h s\<close>: the output window starts with \<open>h\<close> and \<open>op\<close> points behind it.\<close>

definition holds :: "u8 list \<Rightarrow> dstate \<Rightarrow> bool" where
  "holds h s \<longleftrightarrow> d_op s = length h \<and> take (length h) (d_out s) = h"

lemma need_ip_ok: "ip + x \<le> length inb \<Longrightarrow> length inb < 2 ^ 63 \<Longrightarrow> need_ip safe inb ip x"
  by (auto simp: need_ip_def ptr_diff_eq)

lemma need_op_ok: "p + x \<le> oe \<Longrightarrow> oe < 2 ^ 63 \<Longrightarrow> need_op safe oe p x"
  by (auto simp: need_op_def ptr_diff_eq)

lemma test_lb_ok: "0 \<le> m \<Longrightarrow> m < int p \<Longrightarrow> test_lb safe p m"
  by (simp add: test_lb_def)

lemma need_True [simp]: "need True h k = k"
  by (simp add: need_def)

lemma fetch_Some [simp]: "fetch (Some v) k = k v"
  by (simp add: fetch_def)

definition copied :: "nat \<Rightarrow> dstate \<Rightarrow> dstate \<Rightarrow> u8 list \<Rightarrow> bool" where
  "copied ip s s' h \<longleftrightarrow> d_lab s' = Match_done \<and> d_ip s' = ip \<and> holds h s' \<and>
     length (d_out s') = length (d_out s)"

lemma copy_back_holds:
  assumes "forward_copy cp mind" "holds h s" "1 \<le> dist" "mind \<le> dist" "dist \<le> length h"
    and "length h + n \<le> length (d_out s)"
  shows "\<exists>s'. copy_back cp n s (int (d_op s) - int dist) = Inr s' \<and>
    copied (d_ip s) s s' (lz_copy n h dist)"
proof -
  have op: "d_op s = length h" "take (d_op s) (d_out s) = h"
    using assms(2) by (auto simp: holds_def)
  then have m: "nat (int (d_op s) - int dist) = d_op s - dist" "d_op s - (d_op s - dist) = dist"
    using assms(5) by simp_all
  have "d_op s + n \<le> length (d_out s)" "d_op s - dist + mind \<le> d_op s" "d_op s - dist < d_op s"
    using assms op by auto
  from forward_copy.self_prefix [OF assms(1) this] obtain d'
    where "cp n Self (d_out s) (d_op s) (d_op s - dist) = Some d'" "length d' = length (d_out s)"
      "take (d_op s + n) d' = lz_copy n h dist"
    using m op by auto
  then show ?thesis
    using assms(5) op m by (simp add: copy_back_def copied_def holds_def)
qed

lemma copy_match_holds:
  assumes "holds h s" "1 \<le> dist" "dist \<le> length h" "0 < t"
    and "length h + 2 + t \<le> length (d_out s)"
  shows "\<exists>s'. copy_match t s (int (d_op s) - int dist) = Inr s' \<and>
    copied (d_ip s) s s' (lz_copy (t + 2) h dist)"
proof -
  have op: "d_op s = length h" "take (d_op s) (d_out s) = h"
    using assms(1) by (auto simp: holds_def)
  then have m: "nat (int (d_op s) - int dist) = d_op s - dist" "d_op s - (d_op s - dist) = dist"
    "d_op s + 2 - (d_op s - dist + 2) = dist"
    using assms(3) by simp_all
  have "d_op s + 2 \<le> length (d_out s)" "d_op s - dist + 1 \<le> d_op s" "d_op s - dist < d_op s"
    using assms op by auto
  from byte_copy.self_prefix [OF this] obtain d1
    where d1: "byte_loop 2 Self (d_out s) (d_op s) (d_op s - dist) = Some d1"
      "length d1 = length (d_out s)" "take (d_op s + 2) d1 = lz_copy 2 h dist"
    using m op by auto
  have "d_op s + 2 + t \<le> length d1" "d_op s - dist + 2 + 1 \<le> d_op s + 2"
    "d_op s - dist + 2 < d_op s + 2"
    using assms op d1(2) by auto
  from byte_copy.self_prefix [OF this] obtain d2
    where d2: "byte_loop t Self d1 (d_op s + 2) (d_op s - dist + 2) = Some d2"
      "length d2 = length d1" "take (d_op s + 2 + t) d2 = lz_copy t (lz_copy 2 h dist) dist"
    using m d1(3) by auto
  have "lz_copy t (lz_copy 2 h dist) dist = lz_copy (t + 2) h dist"
    using lz_copy_add [of 2 t h dist] by (simp add: add.commute)
  then show ?thesis
    using assms(3,4) op m d1 d2
    by (simp add: copy_match_def copied_def holds_def do_while_copy_def add.commute add.left_commute)
qed

lemma long_match_holds:
  assumes "holds h s" "sized inb oe s" "1 \<le> dist" "dist \<le> length h" "0 < d_t s"
    and "length h + (d_t s + 2) \<le> oe" and m: "m = int (d_op s) - int dist"
  shows "\<exists>s'. long_match safe oe s m = Inr s' \<and>
    copied (d_ip s) s s' (lz_copy (d_t s + 2) h dist)"
proof -
  let ?t = "d_t s"
  have op: "d_op s = length h"
    using assms(1) by (simp add: holds_def)
  have oe: "oe \<le> length (d_out s)" "oe < 2 ^ 63"
    using assms(2) by (auto simp: sized_def)
  then have w: "wrap64 (?t + 3 - 1) = ?t + 2" "wrap64 (?t + (3 - 1)) = ?t + 2"
    using assms(6) by simp_all
  have "test_lb safe (d_op s) m" "need_op safe oe (d_op s) (?t + 2)"
    using assms op oe by (auto intro: test_lb_ok need_op_ok)
  moreover have "\<exists>s'. copy_back chunk_copy (?t + 2) s m = Inr s' \<and>
      copied (d_ip s) s s' (lz_copy (?t + 2) h dist)" if "8 \<le> dist"
    unfolding m using assms oe that
    by (intro copy_back_holds [OF chunk.forward_copy_axioms]) auto
  moreover have "\<exists>s'. copy_match ?t s m = Inr s' \<and>
      copied (d_ip s) s s' (lz_copy (?t + 2) h dist)"
    unfolding m using assms oe by (intro copy_match_holds) auto
  ultimately show ?thesis
    unfolding long_match_def Let_def w m by simp
qed

text \<open>The two offset bytes: the low two bits are not part of the distance.\<close>

lemma offset_bytes:
  assumes "k \<le> 3"
  shows "unat (word_of_nat (unat (byte_of (m mod 64 * 4 + k)) + 256 * unat (byte_of (m div 64))) :: u16)
      div 4 = m mod 16384"
proof -
  let ?x = "m mod 64 * 4 + k + 256 * (m div 64 mod 256)"
  have lo: "m mod 64 * 4 + k < 256"
    using assms mod_less_divisor [of 64 m] by simp
  have "m div 64 mod 256 \<le> 255"
    using mod_less_divisor [of 256 "m div 64"] by simp
  with lo have x: "?x < 65536"
    by simp
  have "?x div 4 = m mod 64 + 64 * (m div 64 mod 256)"
    using assms by simp
  also have "\<dots> = m mod 16384"
    using mod_mult2_eq [of m 64 256] by simp
  finally have "?x div 4 = m mod 16384" .
  with lo x show ?thesis
    by (subst unat_of_nat) simp
qed

lemma get_le16_offset:
  assumes "inb = pre @ mid @ [byte_of (m mod 64 * 4 + k), byte_of (m div 64)] @ post" "k \<le> 3"
    and "ip = length pre + length mid"
  shows "\<exists>w. get_le16 inb ip = Some w \<and> unat w div 4 = m mod 16384"
proof -
  have "ip + 2 \<le> length inb" "inb ! ip = byte_of (m mod 64 * 4 + k)"
    "inb ! (ip + 1) = byte_of (m div 64)"
    using assms by (simp_all add: nth_append)
  then show ?thesis
    using offset_bytes [OF assms(2), of m] by (simp add: get_le16_Some)
qed

lemma m2_fields:
  assumes "b < 8" "k \<le> (3 :: nat)"
  shows "(a * 32 + b * 4 + k) div 4 mod 8 = b" "(a * 32 + b * 4 + k) div 32 = a"
proof -
  have e: "a * 32 + b * 4 + k = (a * 8 + b) * 4 + k"
    by simp
  have "(a * 32 + b * 4 + k) div 4 = a * 8 + b"
    unfolding e using assms(2) by simp
  then show "(a * 32 + b * 4 + k) div 4 mod 8 = b"
    using assms(1) by simp
  have "b * 4 + k < 32"
    using assms by simp
  then show "(a * 32 + b * 4 + k) div 32 = a"
    by (simp add: add.assoc)
qed

lemma match_m2_enc:
  assumes inb: "inb = pre @ enc_m2 len dist k @ post"
    and s: "d_ip s = length pre + 1" "d_t s = unat (enc_m2 len dist k ! 0)"
    and h: "holds h s" "sized inb oe s"
    and b: "3 \<le> len" "len \<le> 8" "1 \<le> dist" "dist \<le> 2048" "dist \<le> length h" "k \<le> 3"
      "length h + len \<le> oe"
  shows "\<exists>s'. match_step safe inb oe s = Inr s' \<and>
    copied (length pre + 2) s s' (lz_copy len h dist)"
proof -
  let ?a = "(dist - 1) mod 8" and ?t = "d_t s div 32 - 1"
  have a: "?a < 8" by simp
  have "d_t s = ((len - 1) * 32 + ?a * 4 + k) mod 256"
    using s(2) by (simp add: enc_m2_def)
  also have "\<dots> = (len - 1) * 32 + ?a * 4 + k"
    using a b by simp
  finally have dt: "d_t s = (len - 1) * 32 + ?a * 4 + k" .
  have t64: "64 \<le> d_t s" using dt b by simp
  have t: "?t = len - 2" and off: "d_t s div 4 mod 8 = ?a"
    unfolding dt using a b(1,6) m2_fields [of ?a k "len - 1"]
    by (simp_all add: numeral_2_eq_2)
  have l: "load inb (d_ip s) = Some (byte_of ((dist - 1) div 8))"
    using inb s(1) by (simp add: load_def enc_m2_def nth_append)
  have hb: "unat (byte_of ((dist - 1) div 8)) = (dist - 1) div 8"
    using b by simp
  have op: "d_op s = length h" and oe: "oe \<le> length (d_out s)" "oe < 2 ^ 63"
    using h by (auto simp: holds_def sized_def)
  have "?a + (dist - 1) div 8 * 8 + 1 = dist"
    using b(3) by (simp add: mod_div_mult_eq)
  then have m: "int (d_op s) - 1 - int ?a - int ((dist - 1) div 8 * 8) = int (d_op s) - int dist"
    by linarith
  have w: "wrap64 (len - 2 + 3 - 1) = len"
    using b oe by simp
  let ?s = "s\<lparr>d_ip := d_ip s + 1, d_t := len - 2\<rparr>"
  have len: "len - 2 + 2 = len"
    using b(1) by simp
  have "\<exists>s'. copy_match (len - 2) ?s (int (d_op ?s) - int dist) = Inr s' \<and>
      copied (d_ip ?s) ?s s' (lz_copy (len - 2 + 2) h dist)"
    using h b oe op by (intro copy_match_holds) (auto simp: holds_def)
  note this [unfolded len]
  then obtain s' where s': "copy_match (len - 2) ?s (int (d_op s) - int dist) = Inr s'"
      "copied (length pre + 2) s s' (lz_copy len h dist)"
    using b(1) s(1) by (auto simp: copied_def)
  have "test_lb safe (d_op s) (int (d_op s) - int dist)" "need_op safe oe (d_op s) len"
    using b op oe by (auto intro: test_lb_ok need_op_ok)
  then have "match_m2 safe inb oe s = copy_match (len - 2) ?s (int (d_op s) - int dist)"
    unfolding match_m2_def l fetch_Some Let_def t off hb m w by (simp only: need_True)
  with s' t64 show ?thesis
    by (simp add: match_step_def)
qed

text \<open>
  The common end of M3 and M4: length \<open>len - 2\<close> has been read, \<open>ip\<close> stands on the
  offset bytes.
\<close>

lemma long_match_enc:
  assumes "holds h s" "sized inb oe s" "3 \<le> len" "1 \<le> dist" "dist \<le> length h"
    "length h + len \<le> oe" "m = int (d_op s) - int dist"
  shows "\<exists>s'. long_match safe oe (s\<lparr>d_ip := ip, d_t := len - 2\<rparr>) m = Inr s' \<and>
    copied ip s s' (lz_copy len h dist)"
proof -
  let ?s = "s\<lparr>d_ip := ip, d_t := len - 2\<rparr>"
  have len: "d_t ?s + 2 = len"
    using assms(3) by simp
  have "\<exists>s'. long_match safe oe ?s m = Inr s' \<and> copied (d_ip ?s) ?s s' (lz_copy (d_t ?s + 2) h dist)"
    using assms by (intro long_match_holds [of _ _ inb]) (auto simp: holds_def sized_def)
  then show ?thesis
    unfolding len by (simp add: copied_def)
qed

lemma match_m3_enc:
  assumes inb: "inb = pre @ enc_m3 len dist k @ post"
    and s: "d_ip s = length pre + 1" "d_t s = unat (enc_m3 len dist k ! 0)"
    and h: "holds h s" "sized inb oe s"
    and b: "3 \<le> len" "1 \<le> dist" "dist \<le> 16384" "dist \<le> length h" "k \<le> 3"
      "length h + len \<le> oe"
  shows "\<exists>s'. match_step safe inb oe s = Inr s' \<and>
    copied (length pre + length (enc_m3 len dist k)) s s' (lz_copy len h dist)"
proof -
  let ?m = "dist - 1"
  let ?off = "[byte_of (?m mod 64 * 4 + k), byte_of (?m div 64)]"
  let ?run = "if len \<le> 33 then [] else run_bytes (len - 33)"
  let ?r = "if d_t s mod 32 = 0 then zero_run safe inb Output_overrun 31 (d_t s mod 32) (d_ip s)
    else Inr (d_t s mod 32, d_ip s)"
  let ?ip = "length pre + 1 + length ?run"
  obtain b0 where enc: "enc_m3 len dist k = (b0 # ?run) @ ?off"
      and b0: "unat b0 = (if len \<le> 33 then 32 + (len - 2) else 32)"
    using b(1) by (cases "len \<le> 33") (auto simp: enc_m3_def)
  have dt: "d_t s = (if len \<le> 33 then 32 + (len - 2) else 32)"
    using s(2) enc b0 by simp
  have oe: "oe < 2 ^ 63" "length inb < 2 ^ 63"
    using h by (auto simp: sized_def)
  have r: "?r = Inr (len - 2, ?ip)"
  proof (cases "len \<le> 33")
    case True
    then have "len - 2 < 32" "0 < len - 2"
      using b(1) by simp_all
    moreover from this have "d_t s = (len - 2) + 32"
      using True dt by simp
    ultimately have "d_t s mod 32 = len - 2"
      by (simp only: mod_add_self2 mod_less)
    with \<open>0 < len - 2\<close> True show ?thesis using s(1) by simp
  next
    case False
    then have "inb = (pre @ [b0]) @ run_bytes (len - 33) @ (?off @ post)"
      using inb enc by simp
    moreover have "zero_run safe ((pre @ [b0]) @ run_bytes (len - 33) @ (?off @ post)) Output_overrun 31 0
        (length (pre @ [b0])) = Inr (0 + 31 + (len - 33), length (pre @ [b0]) + length (run_bytes (len - 33)))"
      using False b(6) oe calculation by (intro zero_run_bytes) auto
    ultimately show ?thesis
      using False dt s(1) by simp
  qed
  obtain w where w: "get_le16 inb ?ip = Some w" "unat w div 4 = ?m"
    using get_le16_offset [of inb pre "b0 # ?run" ?m k post ?ip] inb enc b(3,5) by auto
  have ni: "need_ip safe inb ?ip 2"
    using inb enc oe by (intro need_ip_ok) auto
  have "int (d_op s) - 1 - int ?m = int (d_op s) - int dist"
    using b(2) by simp
  then obtain s' where "long_match safe oe (s\<lparr>d_ip := ?ip + 2, d_t := len - 2\<rparr>)
      (int (d_op s) - 1 - int ?m) = Inr s'" "copied (?ip + 2) s s' (lz_copy len h dist)"
    using long_match_enc [OF h b(1,2,4,6)] by blast
  moreover have "match_m3 safe inb oe s =
      long_match safe oe (s\<lparr>d_ip := ?ip + 2, d_t := len - 2\<rparr>) (int (d_op s) - 1 - int ?m)"
    unfolding match_m3_def Let_def r
    by (simp only: sum.case prod.case ni simp_thms need_True w fetch_Some)
  moreover have "match_step safe inb oe s = match_m3 safe inb oe s"
    using dt by (auto simp: match_step_def)
  moreover have "length pre + length (enc_m3 len dist k) = ?ip + 2"
    using enc by simp
  ultimately show ?thesis
    by (simp only:) blast
qed

lemma m4_fields:
  assumes "c < 2" "a < (8 :: nat)"
  shows "(16 + c * 8 + a) div 8 mod 2 = c" "(16 + c * 8 + a) mod 8 = a"
proof -
  have e: "16 + c * 8 + a = (c + 2) * 8 + a"
    by simp
  have "(16 + c * 8 + a) div 8 = c + 2"
    unfolding e using assms(2) by simp
  then show "(16 + c * 8 + a) div 8 mod 2 = c"
    using assms(1) by simp
  show "(16 + c * 8 + a) mod 8 = a"
    unfolding e using assms(2) by (simp only: mod_mult_self3 mod_less)
qed

lemma match_m4_enc:
  assumes inb: "inb = pre @ enc_m4 len dist k @ post"
    and s: "d_ip s = length pre + 1" "d_t s = unat (enc_m4 len dist k ! 0)"
    and h: "holds h s" "sized inb oe s"
    and b: "3 \<le> len" "16384 < dist" "dist \<le> 49151" "dist \<le> length h" "k \<le> 3"
      "length h + len \<le> oe"
  shows "\<exists>s'. match_step safe inb oe s = Inr s' \<and>
    copied (length pre + length (enc_m4 len dist k)) s s' (lz_copy len h dist)"
proof -
  let ?m = "dist - 16384"
  let ?c = "?m div 16384"
  let ?off = "[byte_of (?m mod 64 * 4 + k), byte_of (?m div 64)]"
  let ?run = "if len \<le> 9 then [] else run_bytes (len - 9)"
  let ?a = "if len \<le> 9 then len - 2 else 0"
  let ?r = "if d_t s mod 8 = 0 then zero_run safe inb Output_overrun 7 (d_t s mod 8) (d_ip s)
    else Inr (d_t s mod 8, d_ip s)"
  let ?ip = "length pre + 1 + length ?run"
  have c: "?c < 2" and a: "?a < 8"
    using b(1,3) by auto
  obtain b0 where enc: "enc_m4 len dist k = (b0 # ?run) @ ?off" and b0: "unat b0 = 16 + ?c * 8 + ?a"
    using b(1) c by (cases "len \<le> 9") (auto simp: enc_m4_def Let_def)
  have dt: "d_t s = 16 + ?c * 8 + ?a"
    using s(2) enc b0 by simp
  have fields: "d_t s div 8 mod 2 = ?c" "d_t s mod 8 = ?a"
    unfolding dt using m4_fields [OF c a] by simp_all
  have oe: "oe < 2 ^ 63" "length inb < 2 ^ 63"
    using h by (auto simp: sized_def)
  have r: "?r = Inr (len - 2, ?ip)"
  proof (cases "len \<le> 9")
    case True
    then show ?thesis using fields b(1) s(1) by simp
  next
    case False
    then have i: "inb = (pre @ [b0]) @ run_bytes (len - 9) @ (?off @ post)"
      using inb enc by simp
    have "zero_run safe ((pre @ [b0]) @ run_bytes (len - 9) @ (?off @ post)) Output_overrun 7 0
        (length (pre @ [b0])) = Inr (0 + 7 + (len - 9), length (pre @ [b0]) + length (run_bytes (len - 9)))"
      using False b(6) oe i by (intro zero_run_bytes) auto
    then show ?thesis
      using False fields s(1) i by simp
  qed
  obtain w where w: "get_le16 inb ?ip = Some w" "unat w div 4 = ?m mod 16384"
    using get_le16_offset [of inb pre "b0 # ?run" ?m k post ?ip] inb enc b(5) by auto
  have ni: "need_ip safe inb ?ip 2"
    using inb enc oe by (intro need_ip_ok) auto
  have m: "?c * 16384 + ?m mod 16384 + 16384 = dist" "0 < ?c * 16384 + ?m mod 16384"
    using b(2) div_mult_mod_eq [of ?m 16384] by simp_all
  have m1: "int (d_op s) - int (?c * 16384) - int (?m mod 16384) \<noteq> int (d_op s)"
    using m by linarith
  have m2: "int (d_op s) - int (?c * 16384) - int (?m mod 16384) - 16384 = int (d_op s) - int dist"
    using m by linarith
  have "1 \<le> dist"
    using b(2) by simp
  then obtain s' where "long_match safe oe (s\<lparr>d_ip := ?ip + 2, d_t := len - 2\<rparr>)
      (int (d_op s) - int dist) = Inr s'" "copied (?ip + 2) s s' (lz_copy len h dist)"
    using long_match_enc [OF h b(1) _ b(4,6)] by blast
  moreover have "match_m4 safe inb oe s =
      long_match safe oe (s\<lparr>d_ip := ?ip + 2, d_t := len - 2\<rparr>) (int (d_op s) - int dist)"
    unfolding match_m4_def Let_def r fields(1)
    by (simp only: sum.case prod.case ni simp_thms need_True w fetch_Some m1 m2 if_False)
  moreover have "match_step safe inb oe s = match_m4 safe inb oe s"
    using dt c a by (auto simp: match_step_def)
  moreover have "length pre + length (enc_m4 len dist k) = ?ip + 2"
    using enc by simp
  ultimately show ?thesis
    by (simp only:) blast
qed

text \<open>The two kinds with a first byte below 16.\<close>

lemma enc_m1_bytes:
  assumes "k \<le> 3"
  shows "unat (enc_m1 dist k ! 0) = (dist - 1) mod 4 * 4 + k" "unat (enc_m1 dist k ! 0) < 16"
    "unat (enc_m1 dist k ! 0) div 4 = (dist - 1) mod 4" "unat (enc_m1 dist k ! 0) mod 4 = k"
proof -
  have small: "(dist - 1) mod 4 * 4 + k < 16"
    using assms mod_less_divisor [of 4 "dist - 1"] by simp
  then show u: "unat (enc_m1 dist k ! 0) = (dist - 1) mod 4 * 4 + k"
    by (simp add: enc_m1_def)
  with small show "unat (enc_m1 dist k ! 0) < 16"
    by simp
  show "unat (enc_m1 dist k ! 0) div 4 = (dist - 1) mod 4" "unat (enc_m1 dist k ! 0) mod 4 = k"
    unfolding u using assms by simp_all
qed

lemma enc_m1_second:
  assumes "inb = pre @ enc_m1 dist k @ post" "1 \<le> dist" "dist \<le> 1024"
  shows "\<exists>b. load inb (length pre + 1) = Some b \<and> (dist - 1) mod 4 + unat b * 4 + 1 = dist"
proof -
  have "load inb (length pre + 1) = Some (byte_of ((dist - 1) div 4))"
    using assms(1) by (simp add: load_def enc_m1_def nth_append)
  moreover have "unat (byte_of ((dist - 1) div 4)) = (dist - 1) div 4"
    using assms by simp
  ultimately show ?thesis
    using assms(2) by (auto simp: mod_div_mult_eq)
qed

lemma match_m1_enc:
  assumes "inb = pre @ enc_m1 dist k @ post" "d_ip s = length pre + 1" "d_t s = unat (enc_m1 dist k ! 0)"
    and "holds h s" "sized inb oe s" "1 \<le> dist" "dist \<le> 1024" "dist \<le> length h" "k \<le> 3" "length h + 2 \<le> oe"
  shows "\<exists>s'. match_step safe inb oe s = Inr s' \<and> copied (length pre + 2) s s' (lz_copy 2 h dist)"
proof -
  obtain b where b: "load inb (d_ip s) = Some b" "(dist - 1) mod 4 + unat b * 4 + 1 = dist"
    using enc_m1_second [OF assms(1,6,7)] assms(2) by auto
  have op: "d_op s = length h" and oe: "oe \<le> length (d_out s)" "oe < 2 ^ 63"
    using assms(4,5) by (auto simp: holds_def sized_def)
  have t: "d_t s < 16" "d_t s div 4 = (dist - 1) mod 4"
    using enc_m1_bytes [OF assms(9), of dist] assms(3) by simp_all
  have m: "int (d_op s) - 1 - int ((dist - 1) mod 4) - int (unat b * 4) = int (d_op s) - int dist"
    using b(2) by linarith
  let ?s = "s\<lparr>d_ip := d_ip s + 1\<rparr>"
  have "\<exists>s'. copy_back byte_loop 2 ?s (int (d_op ?s) - int dist) = Inr s' \<and> copied (d_ip ?s) ?s s' (lz_copy 2 h dist)"
    using assms oe by (intro copy_back_holds [OF byte_copy.forward_copy_axioms]) (auto simp: holds_def)
  moreover have "test_lb safe (d_op s) (int (d_op s) - int dist)" "need_op safe oe (d_op s) 2"
    using assms(6,8,10) op oe by (auto intro: test_lb_ok need_op_ok)
  ultimately show ?thesis
    using t(1) assms(2) unfolding match_step_def match_m1_def Let_def b(1) fetch_Some t(2) m by (auto simp: copied_def)
qed

lemma first_run_m1_enc:
  assumes "inb = pre @ enc_m1 (dist - 2048) k @ post" "d_ip s = length pre"
    and "holds h s" "sized inb oe s" "2049 \<le> dist" "dist \<le> 3072" "dist \<le> length h" "k \<le> 3" "length h + 3 \<le> oe"
  shows "\<exists>s'. first_literal_run safe inb oe s = Inr s' \<and> copied (length pre + 2) s s' (lz_copy 3 h dist)"
proof -
  let ?d = "dist - 2048"
  have "1 \<le> ?d" "?d \<le> 1024"
    using assms(5,6) by simp_all
  then obtain b where b: "load inb (length pre + 1) = Some b" "(?d - 1) mod 4 + unat b * 4 + 1 = ?d"
    using enc_m1_second [OF assms(1)] by blast
  have l: "load inb (length pre) = Some (enc_m1 ?d k ! 0)"
    using assms(1) by (simp add: load_def enc_m1_def nth_append)
  have op: "d_op s = length h" and oe: "oe \<le> length (d_out s)" "oe < 2 ^ 63"
    using assms(3,4) by (auto simp: holds_def sized_def)
  have t: "\<not> 16 \<le> unat (enc_m1 ?d k ! 0)" "unat (enc_m1 ?d k ! 0) div 4 = (?d - 1) mod 4"
    using enc_m1_bytes [OF assms(8), of ?d] by simp_all
  have m: "int (d_op s) - (1 + 2048) - int ((?d - 1) mod 4) - int (unat b * 4) = int (d_op s) - int dist"
    using b(2) assms(5) by linarith
  let ?s = "s\<lparr>d_ip := length pre + 1 + 1\<rparr>"
  have "\<exists>s'. copy_back byte_loop 3 ?s (int (d_op ?s) - int dist) = Inr s' \<and> copied (d_ip ?s) ?s s' (lz_copy 3 h dist)"
    using assms oe by (intro copy_back_holds [OF byte_copy.forward_copy_axioms]) (auto simp: holds_def)
  moreover have "test_lb safe (d_op s) (int (d_op s) - int dist)" "need_op safe oe (d_op s) 3"
    using assms(5,7,9) op oe by (auto intro: test_lb_ok need_op_ok)
  ultimately show ?thesis
    using t(1) unfolding first_literal_run_def Let_def assms(2) l fetch_Some t(2) b(1) m by (auto simp: copied_def)
qed

lemma match_enc:
  assumes "inb = pre @ enc_copy kind len dist k @ post" "allowed c kind len dist" "kind \<in> {M2, M3, M4}"
    and "d_ip s = length pre + 1" "d_t s = unat (enc_copy kind len dist k ! 0)"
    and "holds h s" "sized inb oe s" "dist \<le> length h" "k \<le> 3" "length h + len \<le> oe"
  shows "\<exists>s'. match_step safe inb oe s = Inr s' \<and>
    copied (length pre + length (enc_copy kind len dist k)) s s' (lz_copy len h dist)"
proof -
  consider "kind = M2" | "kind = M3" | "kind = M4"
    using assms(3) by auto
  then show ?thesis
  proof cases
    case 1
    moreover have "length (enc_m2 len dist k) = 2"
      by (simp add: enc_m2_def)
    ultimately show ?thesis
      using match_m2_enc [of inb pre len dist k post s h oe safe] assms by simp
  next
    case 2
    then show ?thesis
      using match_m3_enc [of inb pre len dist k post s h oe safe] assms by simp
  next
    case 3
    then show ?thesis
      using match_m4_enc [of inb pre len dist k post s h oe safe] assms by simp
  qed
qed

section \<open>Whole streams\<close>

lemma enc_m2_bytes:
  assumes "3 \<le> len" "len \<le> 8" "k \<le> 3"
  shows "16 \<le> unat (enc_m2 len dist k ! 0)" "unat (enc_m2 len dist k ! 0) mod 4 = k"
proof -
  let ?a = "(dist - 1) mod 8"
  have "?a < 8" by simp
  then have "(len - 1) * 32 + ?a * 4 + k < 256" "16 \<le> (len - 1) * 32 + ?a * 4 + k"
    using assms by auto
  then have u: "unat (enc_m2 len dist k ! 0) = (len - 1) * 32 + ?a * 4 + k"
    by (simp add: enc_m2_def)
  show "16 \<le> unat (enc_m2 len dist k ! 0)"
    unfolding u using assms by simp
  have "(len - 1) * 32 + ?a * 4 + k = ((len - 1) * 8 + ?a) * 4 + k"
    by simp
  then show "unat (enc_m2 len dist k ! 0) mod 4 = k"
    unfolding u using assms(3) by (simp only: mod_mult_self3) simp
qed

lemma offset_low: "k \<le> 3 \<Longrightarrow> unat (byte_of (m mod 64 * 4 + k)) mod 4 = k"
proof -
  assume k: "k \<le> 3"
  then have "m mod 64 * 4 + k < 256"
    using mod_less_divisor [of 64 m] by simp
  then show ?thesis
    using k by simp
qed

lemma enc_copy_length: "2 \<le> length (enc_copy kind len dist k)"
  by (cases kind) (auto simp: enc_m1_def enc_m2_def enc_m3_def enc_m4_def Let_def)

lemma enc_match_length: "2 \<le> length (enc_match len dist k)"
  by (auto simp: enc_match_def enc_m2_def enc_m3_def enc_m4_def Let_def)

lemma enc_copy_first:
  assumes "allowed c kind len dist" "kind \<in> {M2, M3, M4}" "k \<le> 3"
  shows "16 \<le> unat (enc_copy kind len dist k ! 0)"
proof (cases kind)
  case M4
  with assms(1) have "dist - 16384 < 2 * 16384"
    by auto
  then have "(dist - 16384) div 16384 < 2"
    by (simp add: less_mult_imp_div_less)
  with M4 assms show ?thesis
    by (auto simp: enc_m4_def Let_def)
qed (use assms enc_m2_bytes [of len k dist] in \<open>auto simp: enc_m3_def\<close>)

lemma enc_copy_low:
  assumes "allowed c kind len dist" "k \<le> 3"
  shows "unat (enc_copy kind len dist k ! (length (enc_copy kind len dist k) - 2)) mod 4 = k"
proof -
  have "length (enc_m1 d k) = 2" "length (enc_m2 len d k) = 2" for d
    by (simp_all add: enc_m1_def enc_m2_def)
  then show ?thesis
    using assms enc_m1_bytes(4) [OF assms(2)] enc_m2_bytes [of len k dist] offset_low [of k "dist - 1"]
      offset_low [of k "dist - 16384"]
    by (cases kind) (auto simp: enc_m3_def enc_m4_def Let_def nth_append mod_mod_cancel)
qed

definition ready :: "ctx \<Rightarrow> nat \<Rightarrow> u8 list \<Rightarrow> dstate \<Rightarrow> bool" where
  "ready c p inb s \<longleftrightarrow>
     (case c of
        Plain \<Rightarrow> d_lab s = Main_loop \<and> d_ip s = p
      | After_run \<Rightarrow> d_lab s = First_literal_run \<and> d_ip s = p
      | After_few \<Rightarrow> d_lab s = Match \<and> d_ip s = p + 1 \<and> d_t s = unat (inb ! p))"

lemma drun_step: "dstep safe inb oe s = Inr s' \<Longrightarrow> drun safe inb oe s = drun safe inb oe s'"
  by (simp add: drun.simps [of safe inb oe s])

lemma ready_match:
  assumes "ready c p inb s" "p + 3 \<le> length inb" "16 \<le> unat (inb ! p)" "sized inb oe s" "holds h s"
  shows "\<exists>s'. drun safe inb oe s = drun safe inb oe s' \<and> d_lab s' = Match \<and> d_ip s' = p + 1 \<and>
    d_t s' = unat (inb ! p) \<and> holds h s' \<and> length (d_out s') = length (d_out s)"
proof (cases "d_lab s = Match")
  case True
  then show ?thesis
    using assms by (intro exI [of _ s]) (auto simp: ready_def split: ctx.splits)
next
  case False
  let ?s = "s\<lparr>d_lab := Match, d_ip := p + 1, d_t := unat (inb ! p)\<rparr>"
  have "need_ip safe inb p 3" "load inb p = Some (inb ! p)"
    using assms by (auto simp: sized_def load_def intro: need_ip_ok)
  then have "dstep safe inb oe s = Inr ?s"
    using assms False
    by (auto simp: ready_def dstep_def main_loop_def first_literal_run_def Let_def split: ctx.splits)
  then show ?thesis
    using assms by (intro exI [of _ ?s]) (auto simp: drun_step holds_def)
qed

lemma drun_eof:
  assumes "ready c (length pre) inb s" "inb = pre @ eof_marker" "holds h s" "sized inb oe s"
  shows "\<exists>s'. drun safe inb oe s = (Eof_found (length inb), s') \<and> holds h s' \<and>
    length (d_out s') = length (d_out s)"
proof -
  have b: "inb ! length pre = 17" "inb ! (length pre + 1) = 0" "inb ! (length pre + 2) = 0"
    "length inb = length pre + 3"
    using assms(2) by (simp_all add: eof_marker_def nth_append)
  obtain s' where s': "drun safe inb oe s = drun safe inb oe s'" "d_lab s' = Match"
      "d_ip s' = length pre + 1" "d_t s' = 17" "holds h s'" "length (d_out s') = length (d_out s)"
    using ready_match [OF assms(1) _ _ assms(4,3)] b by auto
  have "get_le16 inb (length pre + 1) = Some 0"
    using b by (simp add: get_le16_Some)
  then have "dstep safe inb oe s' = Inl (Eof_found (length inb))"
    using s' b by (simp add: dstep_def match_step_def match_m4_def Let_def)
  then have "drun safe inb oe s' = (Eof_found (length inb), s')"
    by (simp add: drun.simps [of safe inb oe s'])
  then show ?thesis
    using s' by auto
qed

lemma drun_lits:
  assumes "ready Plain (length pre) inb s" "inb = pre @ enc_lits bs @ post" "3 \<le> length post"
    "4 \<le> length bs" "holds h s" "sized inb oe s" "length h + length bs \<le> oe"
  shows "\<exists>s'. drun safe inb oe s = drun safe inb oe s' \<and>
    ready After_run (length pre + length (enc_lits bs)) inb s' \<and> holds (h @ bs) s' \<and>
    length (d_out s') = length (d_out s)"
proof -
  let ?n = "length bs"
  let ?run = "if ?n \<le> 18 then [] else run_bytes (?n - 18)"
  let ?ip = "length pre + 1 + length ?run"
  have sz: "length inb < 2 ^ 63" "oe \<le> length (d_out s)" "oe < 2 ^ 63"
    and op: "d_op s = length h" "take (length h) (d_out s) = h"
    using assms(5,6) by (auto simp: sized_def holds_def)
  have s: "d_lab s = Main_loop" "d_ip s = length pre"
    using assms(1) by (auto simp: ready_def)
  obtain b0 where enc: "enc_lits bs = (b0 # ?run) @ bs"
      and b0: "unat b0 = (if ?n \<le> 18 then ?n - 3 else 0)"
    by (cases "?n \<le> 18") (auto simp: enc_lits_def)
  have w: "wrap64 (?n - 3 + 3) = ?n" "wrap64 (?n - 3 + 6) = ?n + 3"
    using assms(4,7) sz by simp_all
  have bound: "d_op s + ?n \<le> length (d_out s)" "?ip + ?n \<le> length inb"
    using assms(2,7) sz op enc by auto
  obtain d' where d': "chunk_copy ?n (From inb) (d_out s) (d_op s) ?ip = Some d'"
      "length d' = length (d_out s)" "take (d_op s + ?n) d' = h @ take ?n (drop ?ip inb)"
    using chunk.from_prefix [OF bound] op by auto
  let ?s = "s\<lparr>d_lab := First_literal_run, d_ip := ?ip + ?n, d_op := d_op s + ?n, d_out := d'\<rparr>"
  have "need_op safe oe (d_op s) ?n" "need_ip safe inb ?ip (?n + 3)"
    using assms(2,3,7) sz op enc by (auto intro!: need_op_ok need_ip_ok)
  then have run: "literal_run safe inb oe (?n - 3) ?ip s = Inr ?s"
    unfolding literal_run_def w Let_def by (simp only: need_True d' fetch_Some)
  have ni: "need_ip safe inb (length pre) 3" and l: "load inb (length pre) = Some b0"
    using assms(2,3) sz enc by (auto intro!: need_ip_ok simp: load_def)
  have "dstep safe inb oe s = Inr ?s"
  proof (cases "?n \<le> 18")
    case True
    then show ?thesis
      using assms(4) s l ni b0 run by (simp add: dstep_def main_loop_def Let_def)
  next
    case False
    then have i: "inb = (pre @ [b0]) @ run_bytes (?n - 18) @ (bs @ post)"
      using assms(2) enc by simp
    have "zero_run safe ((pre @ [b0]) @ run_bytes (?n - 18) @ (bs @ post)) Input_overrun 15 0
        (length (pre @ [b0])) = Inr (0 + 15 + (?n - 18), length (pre @ [b0]) + length (run_bytes (?n - 18)))"
      using False sz i assms(7) by (intro zero_run_bytes) auto
    then have "zero_run safe inb Input_overrun 15 0 (length pre + 1) = Inr (?n - 3, ?ip)"
      using False i by simp
    then show ?thesis
      using False s l ni b0 run by (simp add: dstep_def main_loop_def Let_def)
  qed
  moreover have "take ?n (drop ?ip inb) = bs"
    using assms(2) enc by simp
  ultimately show ?thesis
    using d' enc op by (intro exI [of _ ?s]) (auto simp: drun_step ready_def holds_def)
qed

text \<open>A match, up to its copy: \<open>ip\<close> stands behind its bytes.\<close>

lemma drun_copy:
  assumes "ready c (length pre) inb s" "inb = pre @ enc_copy kind len dist k @ post" "3 \<le> length post"
    and "allowed c kind len dist" "dist \<le> length h" "k \<le> 3" "holds h s" "sized inb oe s" "length h + len \<le> oe"
  shows "\<exists>s'. drun safe inb oe s = drun safe inb oe s' \<and>
    copied (length pre + length (enc_copy kind len dist k)) s s' (lz_copy len h dist)"
proof -
  let ?e = "enc_copy kind len dist k"
  have len: "2 \<le> length ?e"
    by (rule enc_copy_length)
  then have b0: "inb ! length pre = ?e ! 0"
    using assms(2) by (cases ?e) (auto simp: nth_append)
  consider "kind = M1" | "kind = M1_far" | "kind \<in> {M2, M3, M4}"
    by (cases kind) auto
  then show ?thesis
  proof cases
    case 1
    then have "d_lab s = Match" "d_ip s = length pre + 1" "d_t s = unat (enc_m1 dist k ! 0)"
      using assms(1,4) b0 by (simp_all add: ready_def)
    moreover from this obtain s' where "match_step safe inb oe s = Inr s'" "copied (length pre + 2) s s' (lz_copy 2 h dist)"
      using match_m1_enc [of inb pre dist k post s h oe safe] assms 1 by auto
    ultimately show ?thesis
      using 1 assms(4) drun_step [of safe inb oe s s'] by (auto simp: dstep_def enc_m1_def)
  next
    case 2
    then have "d_lab s = First_literal_run" "d_ip s = length pre"
      using assms(1,4) by (simp_all add: ready_def)
    moreover from this obtain s' where "first_literal_run safe inb oe s = Inr s'" "copied (length pre + 2) s s' (lz_copy 3 h dist)"
      using first_run_m1_enc [of inb pre dist k post s h oe safe] assms 2 by auto
    ultimately show ?thesis
      using 2 assms(4) drun_step [of safe inb oe s s'] by (auto simp: dstep_def enc_m1_def)
  next
    case 3
    then have "16 \<le> unat (?e ! 0)"
      using assms(4,6) by (intro enc_copy_first)
    then obtain s1 where s1: "drun safe inb oe s = drun safe inb oe s1" "d_lab s1 = Match" "d_ip s1 = length pre + 1"
        "d_t s1 = unat (?e ! 0)" "holds h s1" "length (d_out s1) = length (d_out s)"
      using ready_match [OF assms(1) _ _ assms(8,7)] b0 assms(2,3) len by auto
    have "sized inb oe s1"
      using assms(8) s1(6) by (simp add: sized_def)
    then obtain s2 where "match_step safe inb oe s1 = Inr s2" "copied (length pre + length ?e) s1 s2 (lz_copy len h dist)"
      using match_enc [OF assms(2,4) 3 s1(3,4,5) _ assms(5,6,9)] by blast
    then show ?thesis
      using s1 drun_step [of safe inb oe s1 s2] by (auto simp: dstep_def copied_def)
  qed
qed

text \<open>The literals behind a match.\<close>

lemma drun_trailing:
  assumes "d_lab s = Match_done" "d_ip s = length pre" "2 \<le> length pre" "unat (pre ! (length pre - 2)) mod 4 = length ls"
    and "inb = pre @ ls @ post" "3 \<le> length post" "holds h s" "sized inb oe s" "length ls \<le> 3" "length h + length ls \<le> oe"
  shows "\<exists>s'. drun safe inb oe s = drun safe inb oe s' \<and>
    ready (if ls = [] then Plain else After_few) (length pre + length ls) inb s' \<and> holds (h @ ls) s' \<and>
    length (d_out s') = length (d_out s)"
proof -
  let ?k = "length ls" and ?p = "length pre"
  have sz: "length inb < 2 ^ 63" "oe \<le> length (d_out s)" "oe < 2 ^ 63"
    using assms(8) by (auto simp: sized_def)
  let ?s3 = "s\<lparr>d_lab := if ?k = 0 then Main_loop else Match_next, d_t := ?k\<rparr>"
  have "?p - 2 < ?p"
    using assms(3) by simp
  then have "load inb (?p - 2) = Some (pre ! (?p - 2))"
    using assms(5) by (simp add: load_def nth_append)
  then obtain b k where "load inb (?p - 2) = Some b" "unat b mod 4 = k" "k = ?k"
    using assms(4) by auto
  then have "dstep safe inb oe s = Inr ?s3"
    using assms(1-3) by (auto simp: dstep_def match_done_def Let_def)
  then have r3: "drun safe inb oe s = drun safe inb oe ?s3"
    by (rule drun_step)
  show ?thesis
  proof (cases "ls = []")
    case True
    then show ?thesis
      using assms(2,7) r3 by (intro exI [of _ ?s3]) (simp add: ready_def holds_def)
  next
    case False
    have op: "d_op s = length h" "take (length h) (d_out s) = h"
      using assms(7) by (auto simp: holds_def)
    have bound: "d_op s + ?k \<le> length (d_out s)" "?p + ?k \<le> length inb"
      using assms(5,10) op sz by auto
    obtain d' where d': "byte_loop ?k (From inb) (d_out s) (d_op s) ?p = Some d'"
        "length d' = length (d_out s)" "take (d_op s + ?k) d' = h @ take ?k (drop ?p inb)"
      using byte_copy.from_prefix [OF bound] op by auto
    have ls: "take ?k (drop ?p inb) = ls"
      using assms(5) by simp
    have n: "min 3 ?k = ?k" "max (Suc 0) ?k = ?k" "?k \<noteq> 0"
      using assms(9) False by (auto simp: Suc_le_eq)
    let ?s4 = "?s3\<lparr>d_lab := Match, d_ip := ?p + ?k + 1, d_op := d_op s + ?k, d_t := unat (inb ! (?p + ?k)), d_out := d'\<rparr>"
    have "need_op safe oe (d_op s) ?k" "need_ip safe inb ?p (?k + 3)"
      and l: "load inb (?p + ?k) = Some (inb ! (?p + ?k))"
      using assms(5,6,10) sz op by (auto intro!: need_op_ok need_ip_ok simp: load_def)
    then have "dstep safe inb oe ?s3 = Inr ?s4"
      using assms(2) d' n(3) by (simp add: n(1,2) dstep_def match_next_def Let_def)
    then show ?thesis
      using r3 d' op ls False by (intro exI [of _ ?s4]) (simp add: drun_step ready_def holds_def)
  qed
qed

lemma drun_match:
  assumes "ready c (length pre) inb s" "inb = pre @ enc_copy kind len dist (length ls) @ ls @ post" "3 \<le> length post"
    and "allowed c kind len dist" "dist \<le> length h" "length ls \<le> 3" "holds h s" "sized inb oe s"
    and "length h + len + length ls \<le> oe"
  shows "\<exists>s'. drun safe inb oe s = drun safe inb oe s' \<and>
    ready (if ls = [] then Plain else After_few) (length pre + length (enc_copy kind len dist (length ls)) + length ls) inb s' \<and>
    holds (lz_copy len h dist @ ls) s' \<and> length (d_out s') = length (d_out s)"
proof -
  let ?e = "enc_copy kind len dist (length ls)" and ?h = "lz_copy len h dist"
  obtain s1 where s1: "drun safe inb oe s = drun safe inb oe s1" "copied (length pre + length ?e) s s1 ?h"
    using drun_copy [of c pre inb s kind len dist "length ls" "ls @ post" h oe safe] assms by auto
  then have c: "d_lab s1 = Match_done" "d_ip s1 = length (pre @ ?e)" "holds ?h s1" "sized inb oe s1"
    using assms(8) by (auto simp: copied_def sized_def)
  have e: "2 \<le> length ?e"
    by (rule enc_copy_length)
  then have low: "length (pre @ ?e) - 2 = length pre + (length ?e - 2)"
    by simp
  have "(pre @ ?e) ! (length (pre @ ?e) - 2) = ?e ! (length ?e - 2)"
    unfolding low by (rule nth_append_length_plus)
  then have "unat ((pre @ ?e) ! (length (pre @ ?e) - 2)) mod 4 = length ls"
    using enc_copy_low [OF assms(4,6)] by simp
  with drun_trailing [OF c(1,2) _ this _ assms(3) c(3,4) assms(6), of safe] assms(2,9) e obtain s2
    where "drun safe inb oe s1 = drun safe inb oe s2" "holds (?h @ ls) s2" "length (d_out s2) = length (d_out s1)"
      "ready (if ls = [] then Plain else After_few) (length (pre @ ?e) + length ls) inb s2"
    by auto
  then show ?thesis
    using s1 by (auto simp: copied_def)
qed

text \<open>A well-formed stream decodes to its meaning, from any state at the border of an instruction.\<close>

lemma drun_instrs:
  assumes "ready c (length pre) inb s" "inb = pre @ enc_instrs is @ eof_marker"
    and "wf_instrs c (length h) is" "holds h s" "sized inb oe s" "length (meaning h is) \<le> oe"
  shows "\<exists>s'. drun safe inb oe s = (Eof_found (length inb), s') \<and> holds (meaning h is) s' \<and>
    length (d_out s') = length (d_out s)"
  using assms
proof (induction "is" arbitrary: c pre s h)
  case Nil
  then show ?case using drun_eof by simp
next
  case (Cons i "is")
  have e3: "3 \<le> length (enc_instrs is @ eof_marker)"
    by (simp add: eof_marker_def)
  have sized: "sized inb oe s'" if "length (d_out s') = length (d_out s)" for s'
    using that Cons.prems(5) by (simp add: sized_def)
  show ?case
  proof (cases i)
    case (Literals bs)
    have h: "length (h @ bs) \<le> oe"
      using Cons.prems(6) Literals length_meaning [of "h @ bs" "is"] by simp
    obtain s' where s': "drun safe inb oe s = drun safe inb oe s'"
        "ready After_run (length pre + length (enc_lits bs)) inb s'" "holds (h @ bs) s'"
        "length (d_out s') = length (d_out s)"
      using drun_lits [of pre inb s bs "enc_instrs is @ eof_marker" h oe safe] Cons.prems Literals e3 h
      by auto
    then show ?thesis
      using Cons.IH [of After_run "pre @ enc_lits bs" s' "h @ bs"] Cons.prems Literals sized by simp
  next
    case (Copy kind len dist ls)
    let ?h = "lz_copy len h dist @ ls" and ?c = "if ls = [] then Plain else After_few"
    have h: "length h + len + length ls \<le> oe"
      using Cons.prems(6) Copy length_meaning [of ?h "is"] by simp
    obtain s' where s': "drun safe inb oe s = drun safe inb oe s'"
        "ready ?c (length pre + length (enc_copy kind len dist (length ls)) + length ls) inb s'"
        "holds ?h s'" "length (d_out s') = length (d_out s)"
      using drun_match [of c pre inb s kind len dist ls "enc_instrs is @ eof_marker" h oe safe]
        Cons.prems Copy e3 h by auto
    then show ?thesis
      using Cons.IH [of ?c "pre @ enc_copy kind len dist (length ls) @ ls" s' ?h] Cons.prems Copy
        sized by (simp add: add.assoc)
  qed
qed

end
