(* ===== verification/LzoStream.thy ===== *)
theory LzoStream
  imports LzoFormat
begin

text \<open>
  Whole LZO1X streams: an optional first run of up to 238 literals announced by a byte
  above 17, the instructions, and the end marker. The main theorem says what
  \<open>lzo1x_decompress\<close> and \<open>lzo1x_decompress_safe\<close> make of a well-formed stream, which may hold every kind of match
  of the format; the streams of items that the compressor makes are among them.
\<close>

section \<open>Streams\<close>

definition enc_start :: "u8 list \<Rightarrow> u8 list" where
  "enc_start bs = (if bs = [] then [] else byte_of (17 + length bs) # bs)"

definition enc_stream :: "u8 list \<Rightarrow> item list \<Rightarrow> u8 list" where
  "enc_stream bs is = enc_start bs @ enc_items is @ eof_marker"

definition wf_stream :: "u8 list \<Rightarrow> item list \<Rightarrow> bool" where
  "wf_stream bs is \<longleftrightarrow> length bs \<le> 238 \<and> wf_items (bs = []) (length bs) is"

definition start_ctx :: "u8 list \<Rightarrow> ctx" where
  "start_ctx bs = (if bs = [] then Plain else if length bs < 4 then After_few else After_run)"

definition stream_bytes :: "u8 list \<Rightarrow> instr list \<Rightarrow> u8 list" where
  "stream_bytes bs is = enc_start bs @ enc_instrs is @ eof_marker"

definition valid_stream :: "u8 list \<Rightarrow> instr list \<Rightarrow> bool" where
  "valid_stream bs is \<longleftrightarrow> length bs \<le> 238 \<and> wf_instrs (start_ctx bs) (length bs) is"

lemma stream_bytes_of: "stream_bytes bs (map instr_of is) = enc_stream bs is"
  by (simp add: stream_bytes_def enc_stream_def enc_instrs_of)

lemma valid_stream_of: "wf_stream bs is \<Longrightarrow> valid_stream bs (map instr_of is)"
  by (auto simp: wf_stream_def valid_stream_def start_ctx_def intro: wf_instrs_of)

lemma stream_bytes_length: "3 \<le> length (stream_bytes bs is)"
  by (simp add: stream_bytes_def eof_marker_def)

lemma enc_stream_length: "3 \<le> length (enc_stream bs is)"
  by (simp add: enc_stream_def eof_marker_def)

lemma enc_lits_first: "4 \<le> length bs \<Longrightarrow> unat (enc_lits bs ! 0) \<le> 17"
  by (auto simp: enc_lits_def)

lemma stream_first_byte:
  assumes "wf_instrs Plain 0 is"
  shows "unat ((enc_instrs is @ eof_marker) ! 0) \<le> 17"
proof (cases "is")
  case Nil
  then show ?thesis by (simp add: eof_marker_def)
next
  case (Cons i rest)
  have "1 \<le> dist" if "allowed c kind len dist" for c kind len dist
    using that by (cases kind) auto
  then obtain bs where "i = Literals bs" "4 \<le> length bs"
    using assms Cons by (cases i) auto
  then show ?thesis
    using Cons enc_lits_first [of bs] by (auto simp: nth_append enc_lits_def)
qed

lemma eof_marker_length [simp]: "length eof_marker = 3"
  by (simp add: eof_marker_def)

lemma byte_loop_start:
  "n \<le> length out \<Longrightarrow> 1 + n \<le> length inb \<Longrightarrow>
    \<exists>d. byte_loop n (From inb) out 0 1 = Some d \<and> length d = length out \<and>
      take n d = take n (drop 1 inb)"
  using byte_copy.from_prefix [of 0 n out 1 inb] by simp

lemma stream_start:
  assumes "inb = stream_bytes bs is" "valid_stream bs is" "length inb < 2 ^ 63"
    and "oe \<le> length out" "oe < 2 ^ 63" "length bs \<le> oe"
  shows "\<exists>s s'. dstart safe inb oe out = Inr s \<and> drun safe inb oe s = drun safe inb oe s' \<and>
    ready (start_ctx bs) (length (enc_start bs)) inb s' \<and> holds bs s' \<and>
    length (d_out s') = length out"
proof -
  let ?n = "length bs"
  let ?s0 = "\<lparr>d_lab = Main_loop, d_ip = 0, d_op = 0, d_t = 0, d_out = out\<rparr>"
  have ni: "need_ip safe inb 0 1"
    using assms(1,3) stream_bytes_length [of bs "is"] by (intro need_ip_ok) auto
  show ?thesis
  proof (cases "bs = []")
    case True
    have "unat (inb ! 0) \<le> 17" "load inb 0 = Some (inb ! 0)"
      using assms(1,2) True stream_first_byte [of "is"] stream_bytes_length [of bs "is"]
      by (simp_all add: stream_bytes_def enc_start_def valid_stream_def start_ctx_def load_def)
    then have "dstart safe inb oe out = Inr ?s0"
      using ni by (simp add: dstart_def Let_def)
    then show ?thesis
      using True
      by (intro exI [of _ ?s0]) (simp add: ready_def start_ctx_def holds_def enc_start_def)
  next
    case False
    then have n: "1 \<le> ?n" "?n \<le> 238"
      using assms(2) by (auto simp: valid_stream_def Suc_le_eq)
    have inb: "inb = [byte_of (17 + ?n)] @ bs @ enc_instrs is @ eof_marker"
      using assms(1) False by (simp add: stream_bytes_def enc_start_def)
    then have b: "unat (inb ! 0) = 17 + ?n" "load inb 0 = Some (inb ! 0)" "1 + ?n + 3 \<le> length inb"
      and lits: "take ?n (drop 1 inb) = bs"
      using n by (simp_all add: load_def)
    obtain d where d: "byte_loop ?n (From inb) out 0 1 = Some d" "length d = length out"
        "take ?n d = bs"
      using byte_loop_start [of ?n out inb] assms b lits by auto
    have es: "length (enc_start bs) = 1 + ?n"
      using False by (simp add: enc_start_def)
    have no: "need_op safe oe 0 ?n" and ni': "need_ip safe inb 1 (?n + 3)"
      using assms b by (auto intro!: need_op_ok need_ip_ok)
    show ?thesis
    proof (cases "?n < 4")
      case True
      let ?s = "?s0\<lparr>d_lab := Match_next, d_ip := 1, d_t := ?n\<rparr>"
      let ?s' = "?s\<lparr>d_lab := Match, d_ip := 1 + ?n + 1, d_op := ?n,
        d_t := unat (inb ! (1 + ?n)), d_out := d\<rparr>"
      have "dstart safe inb oe out = Inr ?s"
        using ni b True n False by (simp add: dstart_def Let_def)
      moreover have "load inb (1 + ?n) = Some (inb ! (1 + ?n))" "min 3 ?n = ?n"
        "max (Suc 0) ?n = ?n"
        using b n True by (simp_all add: load_def)
      then have "dstep safe inb oe ?s = Inr ?s'"
        using no ni' d(1) by (simp add: dstep_def match_next_def Let_def)
      then have "drun safe inb oe ?s = drun safe inb oe ?s'"
        by (rule drun_step)
      ultimately show ?thesis
        using d False es True
        by (intro exI [of _ ?s] exI [of _ ?s'])
          (simp add: ready_def start_ctx_def holds_def del: One_nat_def)
    next
      case n4: False
      let ?s = "?s0\<lparr>d_lab := First_literal_run, d_ip := 1 + ?n, d_op := ?n, d_out := d\<rparr>"
      have "do_while_copy ?n (From inb) out 0 1 = Some d"
        using n d False by (simp add: do_while_copy_def)
      then have "dstart safe inb oe out = Inr ?s"
        using ni b n4 n no ni' False by (simp add: dstart_def Let_def)
      then show ?thesis
        using d False es n4 by (intro exI [of _ ?s]) (simp add: ready_def start_ctx_def holds_def)
    qed
  qed
qed

section \<open>Decoding a well-formed stream\<close>

lemma decompress_instrs:
  assumes "valid_stream bs is" "length (stream_bytes bs is) < 2 ^ 63"
    and "length (meaning bs is) \<le> out_len" "out_len \<le> length out" "out_len < 2 ^ 63"
  shows "\<exists>out'. do_decompress safe (stream_bytes bs is) out out_len =
      Result LZO_E_OK (length (meaning bs is)) out' \<and> length out' = length out \<and>
      take (length (meaning bs is)) out' = meaning bs is"
proof -
  let ?inb = "stream_bytes bs is"
  have "length bs \<le> out_len"
    using assms(3) length_meaning [of bs "is"] by simp
  then obtain s s1 where s: "dstart safe ?inb out_len out = Inr s"
      "drun safe ?inb out_len s = drun safe ?inb out_len s1"
      "ready (start_ctx bs) (length (enc_start bs)) ?inb s1" "holds bs s1"
      "length (d_out s1) = length out"
    using stream_start [OF refl assms(1,2,4,5)] by blast
  have "sized ?inb out_len s1"
    using assms s by (simp add: sized_def)
  then obtain s2 where s2: "drun safe ?inb out_len s1 = (Eof_found (length ?inb), s2)"
      "holds (meaning bs is) s2" "length (d_out s2) = length (d_out s1)"
    using drun_instrs [OF s(3) _ _ s(4), of "is" out_len safe] assms
    by (auto simp: stream_bytes_def valid_stream_def)
  then show ?thesis
    using s by (auto simp: do_decompress_def holds_def)
qed

text \<open>The streams of the compressor.\<close>

lemma decompress_stream:
  assumes "wf_stream bs is" "length (enc_stream bs is) < 2 ^ 63"
    and "length (expand bs is) \<le> out_len" "out_len \<le> length out" "out_len < 2 ^ 63"
  shows "\<exists>out'. do_decompress safe (enc_stream bs is) out out_len =
      Result LZO_E_OK (length (expand bs is)) out' \<and> length out' = length out \<and>
      take (length (expand bs is)) out' = expand bs is"
  using decompress_instrs [OF valid_stream_of [OF assms(1)]] assms(2-5) unfolding stream_bytes_of meaning_of by blast

section \<open>Property\<close>

text \<open>
  C3: both decompressors decode a well-formed stream, with any of the five kinds of matches of the format,
  to its meaning: the code is \<open>LZO_E_OK\<close>, the length is exact, the output starts with the meaning, and
  a buffer of exactly that size is enough.
\<close>

theorem decompress_valid_stream:
  assumes "valid_stream bs is" "length (stream_bytes bs is) < 2 ^ 63"
    and "length (meaning bs is) \<le> out_len" "out_len \<le> length out" "out_len < 2 ^ 63"
  shows "(\<exists>out'. lzo1x_decompress_safe (stream_bytes bs is) out out_len =
      Result LZO_E_OK (length (meaning bs is)) out' \<and>
      take (length (meaning bs is)) out' = meaning bs is) \<and>
    (\<exists>out'. lzo1x_decompress (stream_bytes bs is) out out_len =
      Result LZO_E_OK (length (meaning bs is)) out' \<and>
      take (length (meaning bs is)) out' = meaning bs is)"
  using decompress_instrs [OF assms] unfolding lzo1x_decompress_safe_def lzo1x_decompress_def
  by blast

text \<open>
  Two literals, a match of two bytes, one more literal and a match of two bytes again; and a match of 3000 bytes
  followed by a run of four literals and a match of three bytes at the distance 3000.
\<close>

theorem decompress_valid_stream_witness:
  "(\<exists>out'. lzo1x_decompress_safe [19, 65, 66, 5, 0, 67, 0, 0, 17, 0, 0] (replicate 7 0) 7 =
      Result LZO_E_OK 7 out' \<and> take 7 out' = [65, 66, 65, 66, 67, 67, 67]) \<and>
   (\<exists>out'. lzo1x_decompress_safe (stream_bytes [65] [Copy M3 3000 1 [], Literals [66, 67, 68, 69], Copy M1_far 3 3000 []])
      (replicate 3008 0) 3008 = Result LZO_E_OK 3008 out')"
proof
  let ?is = "[Copy M1 2 2 [67], Copy M1 2 1 []]"
  have s: "stream_bytes [65, 66] ?is = [19, 65, 66, 5, 0, 67, 0, 0, 17, 0, 0]" "meaning [65, 66] ?is = [65, 66, 65, 66, 67, 67, 67]"
    by (simp_all add: stream_bytes_def enc_start_def enc_m1_def eof_marker_def byte_of_def numeral_2_eq_2)
  have "valid_stream [65, 66] ?is"
    by (simp add: valid_stream_def start_ctx_def)
  moreover have l: "length [65, 66, 65, 66, 67, 67, 67 :: u8] = 7"
    by simp
  ultimately show "\<exists>out'. lzo1x_decompress_safe [19, 65, 66, 5, 0, 67, 0, 0, 17, 0, 0] (replicate 7 0) 7 =
      Result LZO_E_OK 7 out' \<and> take 7 out' = [65, 66, 65, 66, 67, 67, 67]"
    using decompress_valid_stream [of "[65, 66]" ?is 7 "replicate 7 0", unfolded s l] by simp
next
  let ?is = "[Copy M3 3000 1 [], Literals [66, 67, 68, 69], Copy M1_far 3 3000 []]"
  have "valid_stream [65] ?is"
    by (simp add: valid_stream_def start_ctx_def)
  moreover have "length (meaning [65 :: u8] ?is) = 3008"
    by simp
  moreover have "length (stream_bytes [65] ?is) < 2 ^ 63"
    by (simp add: stream_bytes_def enc_start_def enc_m3_def enc_m1_def enc_lits_def run_bytes.simps)
  ultimately show "\<exists>out'. lzo1x_decompress_safe (stream_bytes [65] ?is) (replicate 3008 0) 3008 = Result LZO_E_OK 3008 out'"
    using decompress_valid_stream [of "[65]" ?is 3008 "replicate 3008 0"] by auto
qed

end
