(* ===== verification/LzoCompress.thy ===== *)
theory LzoCompress
  imports LzoStream "HOL-Library.Monad_Syntax"
begin

text \<open>
  The compressor \<open>lzo1x_1_compress\<close> of \<^verbatim>\<open>minilzo.c\<close> (\<open>DO_COMPRESS\<close> and its core
  \<open>do_compress\<close>) in the configuration of the decompressor's model:
  \<open>LZO_DETERMINISTIC\<close> with a dictionary of 16-bit offsets, unaligned 64-bit accesses, and
  the count of trailing zeros. Pointers into the input and into the output are offsets, an
  access outside a buffer gives \<open>None\<close>; the block's base in the input is an argument.
\<close>

section \<open>The dictionary\<close>

text \<open>\<open>D_BITS\<close> is 14: the index is the upper part of a 32-bit product, masked.\<close>

definition DINDEX :: "u32 \<Rightarrow> nat" where
  "DINDEX dv = unat (drop_bit (32 - 14) (0x1824429d * dv) AND mask 14)"

definition UPDATE_I :: "(nat \<Rightarrow> u16) \<Rightarrow> nat \<Rightarrow> nat \<Rightarrow> nat \<Rightarrow> nat \<Rightarrow> u16" where
  "UPDATE_I dict index p base = dict(index := word_of_nat (p - base))"

record cstate =
  c_ip :: nat
  c_ii :: nat
  c_op :: nat
  c_ti :: nat
  c_dict :: "nat \<Rightarrow> u16"
  c_out :: "u8 list"

section \<open>Literals\<close>

text \<open>The tail of a long count: a zero byte for each 255, then the rest.\<close>

fun put_run :: "nat \<Rightarrow> nat \<Rightarrow> u8 list \<Rightarrow> (nat \<times> u8 list) option" where
  "put_run tt op out =
     (if tt > 255 then do { out \<leftarrow> store out op [0]; put_run (tt - 255) (op + 1) out }
      else do { out \<leftarrow> store out op [byte_of tt]; Some (op + 1, out) })"

declare put_run.simps [simp del]

text \<open>
  \<open>do { COPY8; COPY8; op += 16; ii += 16; t -= 16; } while (t >= 16)\<close>; it is entered
  with \<open>t \<ge> 17\<close>.
\<close>

fun copy16_loop ::
  "u8 list \<Rightarrow> nat \<Rightarrow> nat \<Rightarrow> nat \<Rightarrow> u8 list \<Rightarrow> (nat \<times> nat \<times> nat \<times> u8 list) option" where
  "copy16_loop inb t ii op out = do {
     out \<leftarrow> ua_copy 8 (From inb) out op ii;
     out \<leftarrow> ua_copy 8 (From inb) out (op + 8) (ii + 8);
     if t - 16 \<ge> 16 then copy16_loop inb (t - 16) (ii + 16) (op + 16) out
     else Some (t - 16, ii + 16, op + 16, out) }"

declare copy16_loop.simps [simp del]

definition put_literals :: "u8 list \<Rightarrow> nat \<Rightarrow> nat \<Rightarrow> nat \<Rightarrow> u8 list \<Rightarrow> (nat \<times> u8 list) option" where
  "put_literals inb ii t op out =
     (if t = 0 then Some (op, out)
      else if t \<le> 3 then
        if op < 2 then None
        else do {
          b \<leftarrow> load out (op - 2);
          out \<leftarrow> store out (op - 2) [b OR byte_of t];
          out \<leftarrow> ua_copy 4 (From inb) out op ii;
          Some (op + t, out) }
      else if t \<le> 16 then do {
        out \<leftarrow> store out op [byte_of (t - 3)];
        out \<leftarrow> ua_copy 8 (From inb) out (op + 1) ii;
        out \<leftarrow> ua_copy 8 (From inb) out (op + 1 + 8) (ii + 8);
        Some (op + 1 + t, out) }
      else do {
        (op, out) \<leftarrow> (if t \<le> 18 then do { out \<leftarrow> store out op [byte_of (t - 3)]; Some (op + 1, out) }
                     else do { out \<leftarrow> store out op [0]; put_run (t - 18) (op + 1) out });
        (t, ii, op, out) \<leftarrow> copy16_loop inb t ii op out;
        out \<leftarrow> byte_loop t (From inb) out op ii;
        Some (op + t, out) })"

section \<open>Matches\<close>

definition diff64 :: "u8 list \<Rightarrow> nat \<Rightarrow> nat \<Rightarrow> u64 option" where
  "diff64 inb a b = do { x \<leftarrow> get_le64 inb a; y \<leftarrow> get_le64 inb b; Some (x XOR y) }"

text \<open>
  The length of a match whose first four bytes agree: eight bytes at a time; the loop is
  left without a look at the last difference as soon as \<open>ip + m_len\<close> reaches \<open>ip_end\<close>.
\<close>

function scan_loop :: "u8 list \<Rightarrow> nat \<Rightarrow> nat \<Rightarrow> int \<Rightarrow> nat \<Rightarrow> nat option" where
  "scan_loop inb ip m_pos ip_end m_len =
     (let m_len = m_len + 8 in
      case diff64 inb (ip + m_len) (m_pos + m_len) of None \<Rightarrow> None
      | Some v \<Rightarrow>
          if int (ip + m_len) \<ge> ip_end then Some m_len
          else if v = 0 then scan_loop inb ip m_pos ip_end m_len
          else Some (m_len + bitops_cttz64 v div 8))"
  by pat_completeness auto
termination
  by (relation "measure (\<lambda>(inb, ip, m_pos, ip_end, m_len). nat (ip_end - int (ip + m_len)))") auto

declare scan_loop.simps [simp del]

definition match_length :: "u8 list \<Rightarrow> nat \<Rightarrow> nat \<Rightarrow> int \<Rightarrow> nat option" where
  "match_length inb ip m_pos ip_end = do {
     v \<leftarrow> diff64 inb (ip + 4) (m_pos + 4);
     if v = 0 then scan_loop inb ip m_pos ip_end 4 else Some (4 + bitops_cttz64 v div 8) }"

definition put_match :: "nat \<Rightarrow> nat \<Rightarrow> nat \<Rightarrow> u8 list \<Rightarrow> (nat \<times> u8 list) option" where
  "put_match m_len m_off op out =
     (if m_len \<le> 8 \<and> m_off \<le> 0x0800 then
        let m_off = m_off - 1 in do {
          out \<leftarrow> store out op [byte_of (push_bit 5 (m_len - 1) OR push_bit 2 (m_off AND 7))];
          out \<leftarrow> store out (op + 1) [byte_of (drop_bit 3 m_off)];
          Some (op + 2, out) }
      else if m_off \<le> 0x4000 then
        let m_off = m_off - 1 in do {
          (op, out) \<leftarrow> (if m_len \<le> 33 then
              do { out \<leftarrow> store out op [byte_of (32 OR (m_len - 2))]; Some (op + 1, out) }
            else do { out \<leftarrow> store out op [byte_of (32 OR 0)]; put_run (m_len - 33) (op + 1) out });
          out \<leftarrow> store out op [byte_of (push_bit 2 m_off)];
          out \<leftarrow> store out (op + 1) [byte_of (drop_bit 6 m_off)];
          Some (op + 2, out) }
      else
        let m_off = m_off - 0x4000; hi = drop_bit 11 m_off AND 8 in do {
          (op, out) \<leftarrow> (if m_len \<le> 9 then
              do { out \<leftarrow> store out op [byte_of (16 OR hi OR (m_len - 2))]; Some (op + 1, out) }
            else do { out \<leftarrow> store out op [byte_of (16 OR hi)]; put_run (m_len - 9) (op + 1) out });
          out \<leftarrow> store out op [byte_of (push_bit 2 m_off)];
          out \<leftarrow> store out (op + 1) [byte_of (drop_bit 6 m_off)];
          Some (op + 2, out) })"

section \<open>One block\<close>

text \<open>Label \<open>literal\<close>: the further the last match, the longer the stride.\<close>

definition c_literal :: "cstate \<Rightarrow> cstate" where
  "c_literal s = s\<lparr>c_ip := c_ip s + 1 + (c_ip s - c_ii s) div 32\<rparr>"

text \<open>A match at \<open>m_pos\<close>: the pending literals, the length, the code of the match.\<close>

definition c_match :: "u8 list \<Rightarrow> int \<Rightarrow> nat \<Rightarrow> cstate \<Rightarrow> cstate option" where
  "c_match inb ip_end m_pos s = do {
     let ii = c_ii s - c_ti s;
     (op, out) \<leftarrow> put_literals inb ii (c_ip s - ii) (c_op s) (c_out s);
     m_len \<leftarrow> match_length inb (c_ip s) m_pos ip_end;
     (op, out) \<leftarrow> put_match m_len (c_ip s - m_pos) op out;
     let ip = c_ip s + m_len;
     Some (s\<lparr>c_ip := ip, c_ii := ip, c_op := op, c_ti := 0, c_out := out\<rparr>) }"

text \<open>Label \<open>next\<close>, below the test against \<open>ip_end\<close>: look up, update, compare.\<close>

definition c_next :: "u8 list \<Rightarrow> nat \<Rightarrow> int \<Rightarrow> cstate \<Rightarrow> cstate option" where
  "c_next inb base ip_end s = do {
     dv \<leftarrow> get_le32 inb (c_ip s);
     let dindex = DINDEX dv;
     let m_pos = base + unat (c_dict s dindex);
     let s = s\<lparr>c_dict := UPDATE_I (c_dict s) dindex (c_ip s) base\<rparr>;
     mv \<leftarrow> get_le32 inb m_pos;
     if dv \<noteq> mv then Some (c_literal s) else c_match inb ip_end m_pos s }"

lemma bind_Some_iff: "(x \<bind> f = Some y) \<longleftrightarrow> (\<exists>v. x = Some v \<and> f v = Some y)"
  by (cases x) auto

lemma scan_loop_ge: "scan_loop inb ip m_pos ip_end m_len = Some n \<Longrightarrow> m_len \<le> n"
proof (induction inb ip m_pos ip_end m_len rule: scan_loop.induct)
  case (1 inb ip m_pos ip_end m_len)
  show ?case
    using "1.prems"
    by (subst (asm) scan_loop.simps)
      (auto simp: Let_def split: option.splits if_splits dest: "1.IH" [OF refl, rotated 3])
qed

lemma match_length_ge: "match_length inb ip m_pos ip_end = Some n \<Longrightarrow> 4 \<le> n"
  by (auto simp: match_length_def bind_Some_iff split: if_splits dest: scan_loop_ge)

lemma c_next_advances: "c_next inb base ip_end s = Some s' \<Longrightarrow> c_ip s < c_ip s'"
  by (auto simp: c_next_def c_match_def c_literal_def bind_Some_iff Let_def split: if_splits
      dest: match_length_ge)

function c_loop :: "u8 list \<Rightarrow> nat \<Rightarrow> int \<Rightarrow> cstate \<Rightarrow> cstate option" where
  "c_loop inb base ip_end s =
     (if int (c_ip s) \<ge> ip_end then Some s
      else case c_next inb base ip_end s of None \<Rightarrow> None | Some s' \<Rightarrow> c_loop inb base ip_end s')"
  by pat_completeness auto
termination
  by (relation "measure (\<lambda>(inb, base, ip_end, s). nat (ip_end - int (c_ip s)))")
    (auto dest!: c_next_advances)

declare c_loop.simps [simp del]

text \<open>
  \<open>do_compress(in, in_len, out, &out_len, ti, wrkmem)\<close> with \<open>in = base\<close> and \<open>out = op\<close>: the
  number of bytes left over, the number of bytes written, and the output buffer. The
  dictionary is all zero because the caller clears it before each call.
\<close>

definition do_compress ::
  "u8 list \<Rightarrow> nat \<Rightarrow> nat \<Rightarrow> nat \<Rightarrow> u8 list \<Rightarrow> nat \<Rightarrow> (nat \<times> nat \<times> u8 list) option" where
  "do_compress inb base in_len op out ti = do {
     let s = \<lparr>c_ip = base + (if ti < 4 then 4 - ti else 0), c_ii = base, c_op = op, c_ti = ti,
       c_dict = (\<lambda>_. 0), c_out = out\<rparr>;
     s \<leftarrow> c_loop inb base (int base + int in_len - 20) (c_literal s);
     Some (base + in_len - (c_ii s - c_ti s), c_op s - op, c_out s) }"

section \<open>The whole input\<close>

text \<open>
  The blocks of 49152 bytes. \<open>addr\<close> is the address of the input: the source compares
  \<open>ll_end + ((t + ll) >> 5)\<close> with \<open>ll_end\<close> as 64-bit addresses.
\<close>

function c_blocks ::
  "nat \<Rightarrow> u8 list \<Rightarrow> nat \<Rightarrow> nat \<Rightarrow> nat \<Rightarrow> nat \<Rightarrow> u8 list \<Rightarrow> (nat \<times> nat \<times> nat \<times> u8 list) option" where
  "c_blocks addr inb ip l t op out =
     (if l > 20 then
        let ll = min l 49152; ll_end = wrap64 (addr + ip + ll) in
        if wrap64 (ll_end + (t + ll) div 32) \<le> ll_end then Some (l, t, op, out)
        else case do_compress inb ip ll op out t of None \<Rightarrow> None
          | Some (t', n, out') \<Rightarrow> c_blocks addr inb (ip + ll) (l - ll) t' (op + n) out'
      else Some (l, t, op, out))"
  by pat_completeness auto
termination
  by (relation "measure (\<lambda>(addr, inb, ip, l, t, op, out). l)") auto

declare c_blocks.simps [simp del]

definition put_final_literals :: "u8 list \<Rightarrow> nat \<Rightarrow> nat \<Rightarrow> u8 list \<Rightarrow> (nat \<times> u8 list) option" where
  "put_final_literals inb t op out =
     (if t = 0 then Some (op, out)
      else do {
        let ii = length inb - t;
        (op, out) \<leftarrow>
          (if op = 0 \<and> t \<le> 238 then do { out \<leftarrow> store out op [byte_of (17 + t)]; Some (op + 1, out) }
           else if t \<le> 3 then
             if op < 2 then None
             else do {
               b \<leftarrow> load out (op - 2);
               out \<leftarrow> store out (op - 2) [b OR byte_of t];
               Some (op, out) }
           else if t \<le> 18 then do { out \<leftarrow> store out op [byte_of (t - 3)]; Some (op + 1, out) }
           else do { out \<leftarrow> store out op [0]; put_run (t - 18) (op + 1) out });
        out \<leftarrow> chunk_copy t (From inb) out op ii;
        Some (op + t, out) })"

definition lzo1x_1_compress :: "nat \<Rightarrow> u8 list \<Rightarrow> u8 list \<Rightarrow> (lzo_code \<times> nat \<times> u8 list) option" where
  "lzo1x_1_compress addr inb out = do {
     (l, t, op, out) \<leftarrow> c_blocks addr inb 0 (length inb) 0 0 out;
     (op, out) \<leftarrow> put_final_literals inb (t + l) op out;
     out \<leftarrow> store out op [byte_of (16 OR 1)];
     out \<leftarrow> store out (op + 1) [0];
     out \<leftarrow> store out (op + 2) [0];
     Some (LZO_E_OK, op + 3, out) }"

end
