(* ===== verification/LzoEncode.thy ===== *)
theory LzoEncode
  imports LzoCompress
begin

text \<open>
  The compressor writes streams: every output routine appends exactly the bytes of the
  item it stands for, also where it stores more than it advances, and the core keeps the
  invariant that the output so far is a well-formed stream of what has been consumed.
\<close>

section \<open>Appending to the output\<close>

text \<open>\<open>extends out op bs out'\<close>: \<open>out'\<close> holds \<open>bs\<close> at \<open>op\<close> and agrees below; above is free.\<close>

definition extends :: "u8 list \<Rightarrow> nat \<Rightarrow> u8 list \<Rightarrow> u8 list \<Rightarrow> bool" where
  "extends out op bs out' \<longleftrightarrow> op + length bs \<le> length out \<and> length out' = length out \<and>
     take (op + length bs) out' = take op out @ bs"

lemma extends_Nil: "op \<le> length out \<Longrightarrow> extends out op [] out"
  by (simp add: extends_def)

lemma extends_trans:
  "extends out op bs out1 \<Longrightarrow> extends out1 (op + length bs) cs out2 \<Longrightarrow>
    extends out op (bs @ cs) out2"
  by (simp add: extends_def add.assoc)

lemma extends_prefix: "extends out op (bs @ cs) out' \<Longrightarrow> extends out op bs out'"
proof -
  assume a: "extends out op (bs @ cs) out'"
  then have "op \<le> length out"
    by (simp add: extends_def)
  then have "take (op + length bs) (take (op + length (bs @ cs)) out') = take op out @ bs"
    using a by (simp add: extends_def)
  then show ?thesis
    using a by (simp add: extends_def)
qed

lemma extends_length: "extends out op bs out' \<Longrightarrow> length out' = length out"
  by (simp add: extends_def)

lemma store_extends:
  "op + length bs \<le> length out \<Longrightarrow> \<exists>out'. store out op bs = Some out' \<and> extends out op bs out'"
  by (simp add: store_def extends_def)

lemma ua_copy_extends:
  "op + k \<le> length out \<Longrightarrow> ii + k \<le> length inb \<Longrightarrow>
    \<exists>out'. ua_copy k (From inb) out op ii = Some out' \<and> extends out op (take k (drop ii inb)) out'"
  by (simp add: ua_copy_from extends_def)

lemma byte_loop_extends:
  "op + k \<le> length out \<Longrightarrow> ii + k \<le> length inb \<Longrightarrow>
    \<exists>out'. byte_loop k (From inb) out op ii = Some out' \<and> extends out op (take k (drop ii inb)) out'"
  by (simp add: byte_loop_from extends_def)

lemma chunk_copy_extends:
  "op + k \<le> length out \<Longrightarrow> ii + k \<le> length inb \<Longrightarrow>
    \<exists>out'. chunk_copy k (From inb) out op ii = Some out' \<and> extends out op (take k (drop ii inb)) out'"
  by (simp add: chunk_copy_from extends_def)

lemma put_run_extends:
  "op + length (run_bytes tt) \<le> length out \<Longrightarrow>
    \<exists>out'. put_run tt op out = Some (op + length (run_bytes tt), out') \<and>
      extends out op (run_bytes tt) out'"
proof (induction tt op out rule: put_run.induct)
  case (1 tt op out)
  show ?case
  proof (cases "tt > 255")
    case True
    then have rb: "run_bytes tt = [0] @ run_bytes (tt - 255)"
      by (subst run_bytes.simps) simp
    then obtain o1 where o1: "store out op [0] = Some o1" "extends out op [0] o1"
      using "1.prems" store_extends [of op "[0]" out] by auto
    then have "op + 1 + length (run_bytes (tt - 255)) \<le> length o1"
      using "1.prems" rb extends_length [OF o1(2)] by simp
    then obtain o2 where "put_run (tt - 255) (op + 1) o1 =
          Some (op + 1 + length (run_bytes (tt - 255)), o2)"
        "extends o1 (op + 1) (run_bytes (tt - 255)) o2"
      using "1.IH" [OF True o1(1)] by blast
    then show ?thesis
      using True o1 rb extends_trans [OF o1(2)] by (subst put_run.simps) simp
  next
    case False
    then have rb: "run_bytes tt = [byte_of tt]"
      by (subst run_bytes.simps) simp
    then show ?thesis
      using "1.prems" False store_extends [of op "[byte_of tt]" out] by (subst put_run.simps) auto
  qed
qed

lemma copy16_loop_extends:
  "16 \<le> t \<Longrightarrow> op + t \<le> length out \<Longrightarrow> ii + t \<le> length inb \<Longrightarrow>
    \<exists>t' out'. copy16_loop inb t ii op out = Some (t', ii + (t - t'), op + (t - t'), out') \<and>
      t' \<le> t \<and> extends out op (take (t - t') (drop ii inb)) out'"
proof (induction inb t ii op out rule: copy16_loop.induct)
  case (1 inb t ii op out)
  obtain o1 where o1: "ua_copy 8 (From inb) out op ii = Some o1"
      "extends out op (take 8 (drop ii inb)) o1"
    using "1.prems" ua_copy_extends [of op 8 out ii inb] by auto
  obtain o2 where o2: "ua_copy 8 (From inb) o1 (op + 8) (ii + 8) = Some o2"
      "extends o1 (op + 8) (take 8 (drop (ii + 8) inb)) o2"
    using "1.prems" ua_copy_extends [of "op + 8" 8 o1 "ii + 8" inb] extends_length [OF o1(2)] by auto
  have "take 16 (drop ii inb) = take 8 (drop ii inb) @ take 8 (drop (ii + 8) inb)"
    using take_add_drop [of 8 8 "drop ii inb"] by (simp add: add.commute)
  then have e: "extends out op (take 16 (drop ii inb)) o2"
    using extends_trans [OF o1(2)] o2(2) "1.prems" by simp
  show ?case
  proof (cases "t - 16 \<ge> 16")
    case True
    have "op + 16 + (t - 16) \<le> length o2" "ii + 16 + (t - 16) \<le> length inb"
      using "1.prems" extends_length [OF e] by simp_all
    then obtain t' o3 where o3: "copy16_loop inb (t - 16) (ii + 16) (op + 16) o2 =
          Some (t', ii + 16 + (t - 16 - t'), op + 16 + (t - 16 - t'), o3)" "t' \<le> t - 16"
        "extends o2 (op + 16) (take (t - 16 - t') (drop (ii + 16) inb)) o3"
      using "1.IH" [OF o1(1) o2(1)] True by blast
    have n: "16 + (t - 16 - t') = t - t'"
      using True o3(2) by simp
    have "take (t - t') (drop ii inb) =
        take 16 (drop ii inb) @ take (t - 16 - t') (drop (ii + 16) inb)"
      using take_add_drop [of 16 "t - 16 - t'" "drop ii inb"] n by (simp add: add.commute)
    then have "extends out op (take (t - t') (drop ii inb)) o3"
      using extends_trans [OF e] o3(3) "1.prems" by simp
    moreover have "copy16_loop inb t ii op out = Some (t', ii + (t - t'), op + (t - t'), o3)"
      using True o1(1) o2(1) o3(1,2) n by (subst copy16_loop.simps) (simp add: add.assoc)
    ultimately show ?thesis
      using o3(2) by auto
  next
    case False
    then have "copy16_loop inb t ii op out = Some (t - 16, ii + 16, op + 16, o2)"
      using o1(1) o2(1) by (subst copy16_loop.simps) simp
    then show ?thesis
      using e "1.prems" by (intro exI [of _ "t - 16"] exI [of _ o2]) simp
  qed
qed

section \<open>Items of the output so far\<close>

definition written :: "item list \<Rightarrow> nat \<Rightarrow> u8 list \<Rightarrow> bool" where
  "written is op out \<longleftrightarrow> op = length (enc_items is) \<and> op \<le> length out \<and> take op out = enc_items is"

lemma written_extends:
  "written is op out \<Longrightarrow> extends out op bs out' \<Longrightarrow> enc_items js = enc_items is @ bs \<Longrightarrow>
    written js (op + length bs) out'"
  by (auto simp: written_def extends_def)

text \<open>Up to three literals go into the match before them, more into a run of their own.\<close>

definition add_lits :: "item list \<Rightarrow> u8 list \<Rightarrow> item list" where
  "add_lits is bs =
     (if bs = [] then is
      else if length bs \<le> 3 then
        (case last is of Mtch len dist ls \<Rightarrow> butlast is @ [Mtch len dist bs] | Lits ls \<Rightarrow> is)
      else is @ [Lits bs])"

definition clean :: "item list \<Rightarrow> bool" where
  "clean is \<longleftrightarrow> is = [] \<or> (\<exists>js len dist. is = js @ [Mtch len dist []])"

fun ends :: "bool \<Rightarrow> item list \<Rightarrow> bool" where
  "ends a [] = a"
| "ends a (Lits bs # is) = ends False is"
| "ends a (Mtch len dist ls # is) = ends (ls = []) is"

lemma wf_items_append:
  "wf_items a (length h) (is @ js) \<longleftrightarrow>
    wf_items a (length h) is \<and> wf_items (ends a is) (length (expand h is)) js"
proof (induction h "is" arbitrary: a rule: expand.induct)
  case (1 h)
  then show ?case by simp
next
  case (2 h bs "is")
  from "2.IH" [of False] show ?case by auto
next
  case (3 h len dist ls "is")
  from "3.IH" [of "ls = []"] show ?case by (auto simp: add.assoc)
qed

lemma ends_snoc [simp]:
  "ends a (is @ [Lits bs]) = False" "ends a (is @ [Mtch len dist ls]) = (ls = [])"
  by (induction a "is" rule: ends.induct) auto

lemma ends_clean: "clean is \<Longrightarrow> ends True is"
  by (auto simp: clean_def)

lemma expand_add_lits:
  assumes "clean is" "is = [] \<longrightarrow> bs = [] \<or> 4 \<le> length bs"
  shows "expand h (add_lits is bs) = expand h is @ bs"
  using assms by (auto simp: add_lits_def clean_def expand_append)

lemma wf_add_lits:
  assumes "clean is" "is = [] \<longrightarrow> bs = [] \<or> 4 \<le> length bs" "wf_items True 0 is"
  shows "wf_items True 0 (add_lits is bs)"
  using assms wf_items_append [of True "[]"] by (auto simp: add_lits_def clean_def)

lemma wf_snoc_match:
  assumes "wf_items True 0 is" "3 \<le> len" "1 \<le> dist" "dist \<le> length (expand [] is)" "dist \<le> 49151"
  shows "wf_items True 0 (is @ [Mtch len dist []])"
  using assms wf_items_append [of True "[]"] by simp

section \<open>The bits of a match code\<close>

lemma or_disjoint_nat: "x < 2 ^ n \<Longrightarrow> push_bit n y OR x = y * 2 ^ n + (x :: nat)"
proof -
  assume x: "x < 2 ^ n"
  have "push_bit n y AND x = 0"
  proof (rule bit_eqI)
    fix m
    show "bit (push_bit n y AND x) m = bit 0 m"
    proof (cases "m < n")
      case True
      then show ?thesis by (simp add: bit_and_iff bit_push_bit_iff)
    next
      case False
      have "take_bit n x = x"
        using x by (simp add: take_bit_nat_eq_self)
      then have "\<not> bit x m"
        using False bit_take_bit_iff [of n x m] by simp
      then show ?thesis by (simp add: bit_and_iff)
    qed
  qed
  then have "push_bit n y OR x = push_bit n y + x"
    by (simp add: disjunctive_add_eq_or)
  then show ?thesis
    by (simp add: push_bit_eq_mult)
qed

lemma byte_of_or:
  assumes "k < 4"
  shows "byte_of (y * 4) OR byte_of k = byte_of (y * 4 + k)"
proof -
  have "byte_of (y * 4) OR byte_of k = byte_of (y * 4 OR k)"
    by (simp only: byte_of_def of_nat_or_eq)
  also have "y * 4 OR k = y * 4 + k"
    using or_disjoint_nat [of k 2 y] assms by (simp add: push_bit_eq_mult)
  finally show ?thesis .
qed

lemma update_last2:
  "(xs @ [a, b]) ! (length (xs @ [a, b]) - 2) = a"
  "(xs @ [a, b])[length (xs @ [a, b]) - 2 := c] = xs @ [c, b]"
  by (simp_all add: nth_append list_update_append)

lemma enc_m2_or:
  assumes "k \<le> 3"
  shows "enc_m2 len dist k = (enc_m2 len dist 0)
    [length (enc_m2 len dist 0) - 2 :=
      enc_m2 len dist 0 ! (length (enc_m2 len dist 0) - 2) OR byte_of k]"
proof -
  have "(len - 1) * 32 + (dist - 1) mod 8 * 4 + j = ((len - 1) * 8 + (dist - 1) mod 8) * 4 + j" for j
    by simp
  then show ?thesis
    using byte_of_or [of k "(len - 1) * 8 + (dist - 1) mod 8"] assms
    unfolding enc_m2_def by (simp add: mult.commute [of _ 32])
qed

lemma enc_match_or:
  assumes "k \<le> 3"
  shows "enc_match len dist k = (enc_match len dist 0)
    [length (enc_match len dist 0) - 2 :=
      enc_match len dist 0 ! (length (enc_match len dist 0) - 2) OR byte_of k]"
proof -
  have m: "byte_of (y * 4) OR byte_of k = byte_of (y * 4 + k)" for y
    using assms by (intro byte_of_or) simp
  show ?thesis
    using enc_m2_or [OF assms]
    unfolding enc_match_def enc_m3_def enc_m4_def Let_def
    by (auto simp only: update_last2 add_0_right m split: if_split)
qed

section \<open>The literals before a match\<close>

lemma run_bytes_length: "length (run_bytes n) \<le> 1 + n div 255"
proof (induction n rule: run_bytes.induct)
  case (1 n)
  show ?case
  proof (cases "n > 255")
    case True
    then have "n div 255 = 1 + (n - 255) div 255"
      by (simp add: le_div_geq)
    moreover have "length (run_bytes n) = 1 + length (run_bytes (n - 255))"
      using True by (subst run_bytes.simps) simp
    ultimately show ?thesis
      using "1.IH" [OF True] by simp
  next
    case False
    then show ?thesis
      by (subst run_bytes.simps) simp
  qed
qed

lemma store_or_written:
  assumes "written (js @ [Mtch len dist []]) op out" "t \<le> 3"
  shows "\<exists>b out'. 2 \<le> op \<and> load out (op - 2) = Some b \<and>
    store out (op - 2) [b OR byte_of t] = Some out' \<and> length out' = length out \<and>
    take op out' = enc_items js @ enc_match len dist t"
proof -
  let ?e = "enc_match len dist 0" and ?p = "enc_items js"
  have op: "op = length ?p + length ?e" "op \<le> length out" "take op out = ?p @ ?e"
    using assms(1) by (auto simp: written_def enc_items_append)
  have e: "2 \<le> length ?e" by (rule enc_match_length)
  have i: "op - 2 = length ?p + (length ?e - 2)" "op - 2 < op" "2 \<le> op"
    using op(1) e by simp_all
  have b: "out ! (op - 2) = ?e ! (length ?e - 2)"
  proof -
    have "out ! (op - 2) = take op out ! (op - 2)"
      using i by simp
    also have "\<dots> = ?e ! (length ?e - 2)"
      unfolding op(3) i(1) by simp
    finally show ?thesis .
  qed
  let ?c = "out ! (op - 2) OR byte_of t"
  have st: "store out (op - 2) [?c] = Some (out[op - 2 := ?c])"
    using i op(2) by (simp add: store_def upd_conv_take_nth_drop)
  have "take op (out[op - 2 := ?c]) = (take op out)[op - 2 := ?c]"
    by (rule take_update_swap)
  also have "\<dots> = ?p @ ?e[length ?e - 2 := ?c]"
    unfolding op(3) i(1) by (simp add: list_update_append)
  also have "?e[length ?e - 2 := ?c] = enc_match len dist t"
    using enc_match_or [OF assms(2), of len dist] b by simp
  finally have "take op (out[op - 2 := ?c]) = ?p @ enc_match len dist t" .
  moreover have "load out (op - 2) = Some (out ! (op - 2))"
    using i op(2) by (simp add: load_def)
  ultimately show ?thesis
    using st i(3) by (intro exI [of _ "out ! (op - 2)"] exI [of _ "out[op - 2 := ?c]"]) simp
qed

lemma enc_match_length_eq: "length (enc_match len dist k) = length (enc_match len dist 0)"
  by (simp add: enc_match_def enc_m2_def enc_m3_def enc_m4_def Let_def)

text \<open>The header of a run of its own: up to 18 literals in one byte, more in a long count.\<close>

definition lits_head :: "nat \<Rightarrow> u8 list" where
  "lits_head n = (if n \<le> 18 then [byte_of (n - 3)] else 0 # run_bytes (n - 18))"

lemma lits_head_extends:
  assumes "op + length (lits_head t) \<le> length out"
  shows "\<exists>out'. (if t \<le> 18 then do { out \<leftarrow> store out op [byte_of (t - 3)]; Some (op + 1, out) }
      else do { out \<leftarrow> store out op [0]; put_run (t - 18) (op + 1) out }) =
      Some (op + length (lits_head t), out') \<and> extends out op (lits_head t) out'"
proof (cases "t \<le> 18")
  case True
  then show ?thesis
    using assms store_extends [of op "[byte_of (t - 3)]" out] by (auto simp: lits_head_def)
next
  case False
  then have h: "lits_head t = [0] @ run_bytes (t - 18)"
    by (simp add: lits_head_def)
  obtain o1 where o1: "store out op [0] = Some o1" "extends out op [0] o1"
    using assms h store_extends [of op "[0]" out] by auto
  have "op + 1 + length (run_bytes (t - 18)) \<le> length o1"
    using assms h extends_length [OF o1(2)] by simp
  then obtain o2 where "put_run (t - 18) (op + 1) o1 = Some (op + 1 + length (run_bytes (t - 18)), o2)"
      "extends o1 (op + 1) (run_bytes (t - 18)) o2"
    using put_run_extends by blast
  then show ?thesis
    using False h o1 extends_trans [OF o1(2)] by simp
qed

lemma lits_head_length: "4 \<le> t \<Longrightarrow> length (lits_head t) \<le> 2 + t div 255"
  using run_bytes_length [of "t - 18"] div_le_mono [of "t - 18" t 255] by (simp add: lits_head_def)

lemma enc_items_add_run:
  "4 \<le> length bs \<Longrightarrow> enc_items (add_lits is bs) = enc_items is @ lits_head (length bs) @ bs"
  by (auto simp: add_lits_def enc_items_append enc_lits_def lits_head_def)

lemma put_literals_written:
  assumes "written is op out" "clean is" "is = [] \<longrightarrow> t = 0 \<or> 4 \<le> t"
    and "ii + t + 16 \<le> length inb" "op + t + t div 255 + 17 \<le> length out"
  shows "\<exists>op' out'. put_literals inb ii t op out = Some (op', out') \<and>
    written (add_lits is (take t (drop ii inb))) op' out' \<and> length out' = length out"
proof -
  let ?bs = "take t (drop ii inb)"
  have lbs: "length ?bs = t"
    using assms(4) by simp
  consider "t = 0" | "1 \<le> t" "t \<le> 3" | "4 \<le> t" "t \<le> 16" | "17 \<le> t"
    by linarith
  then show ?thesis
  proof cases
    case 1
    then show ?thesis
      using assms(1) by (simp add: put_literals_def add_lits_def)
  next
    case 2
    then obtain js len dist where js: "is = js @ [Mtch len dist []]"
      using assms(2,3) by (auto simp: clean_def)
    then obtain b o1 where o1: "2 \<le> op" "load out (op - 2) = Some b"
        "store out (op - 2) [b OR byte_of t] = Some o1" "length o1 = length out"
        "take op o1 = enc_items js @ enc_match len dist t"
      using store_or_written [of js len dist op out t] assms(1) 2 by auto
    obtain o2 where o2: "ua_copy 4 (From inb) o1 op ii = Some o2"
        "extends o1 op (take 4 (drop ii inb)) o2"
      using ua_copy_extends [of op 4 o1 ii inb] assms(4,5) o1(4) by auto
    have "take 4 (drop ii inb) = ?bs @ take (4 - t) (drop t (drop ii inb))"
      using 2 take_add [of t "4 - t" "drop ii inb"] by simp
    then have e: "extends o1 op ?bs o2"
      using o2(2) extends_prefix by metis
    have "enc_items (add_lits is ?bs) = enc_items js @ enc_match len dist t @ ?bs"
      using 2 js lbs by (auto simp: add_lits_def enc_items_append)
    moreover have "op = length (enc_items js) + length (enc_match len dist t)"
      using assms(1) js enc_match_length_eq [of len dist t]
      by (simp add: written_def enc_items_append)
    ultimately have "written (add_lits is ?bs) (op + t) o2"
      using e o1(5) lbs assms(5) by (simp add: written_def extends_def)
    then show ?thesis
      using 2 o1 o2 extends_length [OF o2(2)] by (simp add: put_literals_def)
  next
    case 3
    obtain o1 where o1: "store out op [byte_of (t - 3)] = Some o1" "extends out op [byte_of (t - 3)] o1"
      using store_extends [of op "[byte_of (t - 3)]" out] assms(5) by auto
    obtain o2 where o2: "ua_copy 8 (From inb) o1 (op + 1) ii = Some o2"
        "extends o1 (op + 1) (take 8 (drop ii inb)) o2"
      using ua_copy_extends [of "op + 1" 8 o1 ii inb] assms(4,5) extends_length [OF o1(2)] by auto
    obtain o3 where o3: "ua_copy 8 (From inb) o2 (op + 1 + 8) (ii + 8) = Some o3"
        "extends o2 (op + 1 + 8) (take 8 (drop (ii + 8) inb)) o3"
      using ua_copy_extends [of "op + 1 + 8" 8 o2 "ii + 8" inb] assms(4,5) 3
        extends_length [OF o1(2)] extends_length [OF o2(2)] by auto
    have "take 16 (drop ii inb) = take 8 (drop ii inb) @ take 8 (drop (ii + 8) inb)"
      using take_add [of 8 8 "drop ii inb"] by (simp add: add.commute)
    moreover have "op + 1 + 8 = op + 1 + length (take 8 (drop ii inb))"
      using assms(4) 3 by simp
    ultimately have "extends o1 (op + 1) (take 16 (drop ii inb)) o3"
      using extends_trans [OF o2(2)] o3(2) by metis
    moreover have "take 16 (drop ii inb) = ?bs @ take (16 - t) (drop t (drop ii inb))"
      using 3 take_add [of t "16 - t" "drop ii inb"] by simp
    ultimately have "extends o1 (op + 1) ?bs o3"
      using extends_prefix by metis
    then have e: "extends out op ([byte_of (t - 3)] @ ?bs) o3"
      using extends_trans [OF o1(2)] by simp
    have "written (add_lits is ?bs) (op + length ([byte_of (t - 3)] @ ?bs)) o3"
      using written_extends [OF assms(1) e] 3 lbs enc_items_add_run [of ?bs "is"]
      by (simp add: lits_head_def)
    then have "written (add_lits is ?bs) (op + 1 + t) o3"
      using lbs by simp
    moreover have "put_literals inb ii t op out = Some (op + 1 + t, o3)"
      using 3 o1 o2 o3 by (simp add: put_literals_def)
    ultimately show ?thesis
      using extends_length [OF e] by blast
  next
    case 4
    have "op + length (lits_head t) \<le> length out"
      using lits_head_length [of t] assms(5) 4 by simp
    note h = lits_head_extends [OF this]
    then obtain o1 where o1: "(if t \<le> 18 then do { out \<leftarrow> store out op [byte_of (t - 3)]; Some (op + 1, out) }
          else do { out \<leftarrow> store out op [0]; put_run (t - 18) (op + 1) out }) =
          Some (op + length (lits_head t), o1)" "extends out op (lits_head t) o1"
      by blast
    let ?op = "op + length (lits_head t)"
    have room: "?op + t \<le> length o1" "ii + t \<le> length inb" "16 \<le> t"
      using lits_head_length [of t] assms(4,5) 4 extends_length [OF o1(2)] by simp_all
    then obtain t' o2 where o2: "copy16_loop inb t ii ?op o1 = Some (t', ii + (t - t'), ?op + (t - t'), o2)"
        "t' \<le> t" "extends o1 ?op (take (t - t') (drop ii inb)) o2"
      using copy16_loop_extends by blast
    obtain o3 where o3: "byte_loop t' (From inb) o2 (?op + (t - t')) (ii + (t - t')) = Some o3"
        "extends o2 (?op + (t - t')) (take t' (drop (ii + (t - t')) inb)) o3"
      using byte_loop_extends [of "?op + (t - t')" t' o2 "ii + (t - t')" inb] room o2(2)
        extends_length [OF o2(3)] by auto
    have "?bs = take (t - t') (drop ii inb) @ take t' (drop (ii + (t - t')) inb)"
      using o2(2) take_add [of "t - t'" t' "drop ii inb"] by (simp add: add.commute)
    then have "extends o1 ?op ?bs o3"
      using extends_trans [OF o2(3)] o3(2) room by simp
    then have e: "extends out op (lits_head t @ ?bs) o3"
      using extends_trans [OF o1(2)] by simp
    have "enc_items (add_lits is ?bs) = enc_items is @ lits_head t @ ?bs"
      using enc_items_add_run [of ?bs "is"] lbs 4 by simp
    then have "written (add_lits is ?bs) (?op + t) o3"
      using written_extends [OF assms(1) e] lbs by (simp add: add.assoc)
    moreover have "put_literals inb ii t op out = Some (?op + t, o3)"
      using 4 o2(1,2) o3(1) by (simp add: put_literals_def o1(1))
    ultimately show ?thesis
      using extends_length [OF e] by blast
  qed
qed

end
