(* ===== verification/LzoMatch.thy ===== *)
theory LzoMatch
  imports LzoEncode
begin

text \<open>
  The two routines behind a match of the compressor: the scan for its length, which compares
  eight bytes at a time and reads the first difference off the trailing zeros, and the
  routine that writes its code.
\<close>

section \<open>Comparing words instead of bytes\<close>

lemma le_nat_inj: "length xs = length ys \<Longrightarrow> le_nat xs = le_nat ys \<Longrightarrow> xs = ys"
proof (induction xs ys rule: list_induct2)
  case Nil
  then show ?case by simp
next
  case (Cons x xs y ys)
  have "unat x = (unat x + 256 * le_nat xs) mod 256" "unat y = (unat y + 256 * le_nat ys) mod 256"
    by (simp_all add: mod_less)
  then have "unat x = unat y"
    using Cons.prems by (metis le_nat.simps(2))
  then show ?case
    using Cons by (simp add: word_unat_eq_iff)
qed

lemma le_nat_take: "le_nat (take k bs) = le_nat bs mod 256 ^ k"
proof (induction k arbitrary: bs)
  case 0
  then show ?case by simp
next
  case (Suc k)
  show ?case
  proof (cases bs)
    case (Cons b bs')
    have "(unat b + 256 * le_nat bs') mod (256 * 256 ^ k) =
        256 * (((unat b + 256 * le_nat bs') div 256) mod 256 ^ k) + (unat b + 256 * le_nat bs') mod 256"
      by (rule mod_mult2_eq)
    also have "(unat b + 256 * le_nat bs') div 256 = le_nat bs'"
      by simp
    also have "(unat b + 256 * le_nat bs') mod 256 = unat b"
      by (simp add: mod_less)
    finally show ?thesis
      using Suc Cons by simp
  qed simp
qed

lemma nth_slice: "j < k \<Longrightarrow> i + k \<le> length xs \<Longrightarrow> take k (drop i xs) ! j = xs ! (i + j)"
  by simp

lemma get_le32_eq:
  assumes "get_le32 buf a = Some x" "get_le32 buf b = Some x" "j < 4"
  shows "buf ! (a + j) = buf ! (b + j)"
proof -
  have len: "a + 4 \<le> length buf" "b + 4 \<le> length buf"
    using assms by (auto simp: get_le32_def load_n_eq_Some)
  let ?x = "le_nat (take 4 (drop a buf))" and ?y = "le_nat (take 4 (drop b buf))"
  have "?x < 2 ^ 32" "?y < 2 ^ 32"
    using le_nat_less [of "take 4 (drop a buf)"] le_nat_less [of "take 4 (drop b buf)"] len
    by simp_all
  moreover have "unat (word_of_nat ?x :: u32) = unat (word_of_nat ?y :: u32)"
    using assms(1,2) len by (simp add: get_le32_def load_n_Some)
  ultimately have "?x = ?y"
    by (simp only: unat_of_nat) simp
  then have "take 4 (drop a buf) = take 4 (drop b buf)"
    using len by (intro le_nat_inj) simp_all
  then show ?thesis
    using nth_slice [of j 4 a buf] nth_slice [of j 4 b buf] assms(3) len by simp
qed

lemma cttz64_low: "i < bitops_cttz64 v \<Longrightarrow> \<not> bit v i"
proof -
  assume i: "i < bitops_cttz64 v"
  let ?xs = "takeWhile (\<lambda>i. \<not> bit v i) [0..<64]"
  have "length ?xs \<le> 64"
    using length_takeWhile_le [of "\<lambda>i. \<not> bit v i" "[0..<64]"] by simp
  then have "?xs ! i = i"
    using i by (simp add: bitops_cttz64_def takeWhile_nth)
  then have "i \<in> set ?xs"
    using i nth_mem [of i ?xs] by (simp add: bitops_cttz64_def)
  then show ?thesis
    by (auto dest: set_takeWhileD)
qed

lemma cttz64_less: "v \<noteq> 0 \<Longrightarrow> bitops_cttz64 v < 64"
proof (rule ccontr)
  assume v: "v \<noteq> 0" "\<not> bitops_cttz64 v < 64"
  have "v = 0"
  proof (rule bit_word_eqI)
    fix n assume "n < LENGTH(64)"
    then show "bit v n = bit 0 n"
      using cttz64_low [of n v] v(2) by simp
  qed
  with v(1) show False by simp
qed

lemma diff64_bytes:
  assumes "a + 8 \<le> length buf" "b + 8 \<le> length buf"
  shows "\<exists>v k. diff64 buf a b = Some v \<and> k = (if v = 0 then 8 else bitops_cttz64 v div 8) \<and>
    (v \<noteq> 0 \<longrightarrow> k \<le> 7) \<and> (\<forall>j < k. buf ! (a + j) = buf ! (b + j))"
proof -
  let ?xs = "take 8 (drop a buf)" and ?ys = "take 8 (drop b buf)"
  let ?x = "word_of_nat (le_nat ?xs) :: u64" and ?y = "word_of_nat (le_nat ?ys) :: u64"
  have len: "length ?xs = 8" "length ?ys = 8"
    using assms by simp_all
  have u: "unat ?x = le_nat ?xs" "unat ?y = le_nat ?ys"
    using le_nat_less [of ?xs] le_nat_less [of ?ys] len by (simp_all add: unat_of_nat)
  have pre: "take k ?xs = take k ?ys" if "\<forall>i < 8 * k. \<not> bit (?x XOR ?y) i" "k \<le> 8" for k
  proof -
    have "take_bit (8 * k) ?x = take_bit (8 * k) ?y"
    proof (rule bit_word_eqI)
      fix n assume "n < LENGTH(64)"
      show "bit (take_bit (8 * k) ?x) n = bit (take_bit (8 * k) ?y) n"
        using that(1) by (auto simp: bit_take_bit_iff bit_xor_iff)
    qed
    then have "unat (take_bit (8 * k) ?x) = unat (take_bit (8 * k) ?y)"
      by simp
    then have "unat ?x mod 2 ^ (8 * k) = unat ?y mod 2 ^ (8 * k)"
      by (simp only: unsigned_take_bit_eq) (simp only: take_bit_eq_mod)
    then have "le_nat ?xs mod 256 ^ k = le_nat ?ys mod 256 ^ k"
      unfolding u by (simp add: power_mult)
    then show ?thesis
      using len that(2) by (intro le_nat_inj) (simp_all only: le_nat_take length_take)
  qed
  have bytes: "buf ! (a + j) = buf ! (b + j)" if "take k ?xs = take k ?ys" "j < k" "k \<le> 8" for j k
  proof -
    have "take k ?xs ! j = take k ?ys ! j"
      using that(1) by simp
    then show ?thesis
      using that(2,3) assms by simp
  qed
  let ?v = "?x XOR ?y"
  let ?k = "if ?v = 0 then 8 else bitops_cttz64 ?v div 8"
  have d: "diff64 buf a b = Some ?v"
    using assms by (simp add: diff64_def get_le64_def load_n_Some)
  have k8: "?k \<le> 8" and k7: "?v \<noteq> 0 \<Longrightarrow> ?k \<le> 7"
    using cttz64_less [of ?v] by (auto simp: less_mult_imp_div_less)
  have "\<forall>i < 8 * ?k. \<not> bit ?v i"
    using cttz64_low [of _ ?v] by (auto simp del: bit_xor_iff)
  from pre [OF this k8] have "\<forall>j < ?k. buf ! (a + j) = buf ! (b + j)"
    using bytes k8 by blast
  with d k7 show ?thesis
    by blast
qed

section \<open>The length of a match\<close>

lemma agree_extend:
  assumes "\<forall>j < m. xs ! (a + j) = xs ! (b + j)" "\<forall>j < k. xs ! (a + m + j) = xs ! (b + m + j)"
  shows "\<forall>j < m + k. xs ! (a + j) = xs ! (b + j :: nat)"
proof (intro allI impI)
  fix j assume j: "j < m + k"
  show "xs ! (a + j) = xs ! (b + j)"
  proof (cases "j < m")
    case True
    then show ?thesis using assms(1) by blast
  next
    case False
    then obtain i where "j = m + i" "i < k"
      using j by (metis add_less_cancel_left le_add_diff_inverse not_less)
    then show ?thesis using assms(2) by (simp add: add.assoc)
  qed
qed

lemma scan_loop_correct:
  assumes "m_pos < ip" "ip_end + 20 \<le> int (length inb)" "int (ip + m) < ip_end + 4"
    and "\<forall>j < m + 8. inb ! (ip + j) = inb ! (m_pos + j)"
  shows "\<exists>n. scan_loop inb ip m_pos ip_end m = Some n \<and> int (ip + n) \<le> ip_end + 19 \<and>
    (\<forall>j < n. inb ! (ip + j) = inb ! (m_pos + j))"
  using assms
proof (induction inb ip m_pos ip_end m rule: scan_loop.induct)
  case (1 inb ip m_pos ip_end m)
  let ?m = "m + 8"
  have b: "ip + ?m + 8 \<le> length inb" "m_pos + ?m + 8 \<le> length inb"
    using "1.prems" by simp_all
  then obtain v k where v: "diff64 inb (ip + ?m) (m_pos + ?m) = Some v"
      "k = (if v = 0 then 8 else bitops_cttz64 v div 8)" "v \<noteq> 0 \<longrightarrow> k \<le> 7"
      "\<forall>j < k. inb ! (ip + ?m + j) = inb ! (m_pos + ?m + j)"
    using diff64_bytes [of "ip + ?m" inb "m_pos + ?m"] by auto
  have more: "\<forall>j < ?m + k. inb ! (ip + j) = inb ! (m_pos + j)"
    using "1.prems"(4) v(4) by (rule agree_extend)
  show ?case
  proof (cases "int (ip + ?m) \<ge> ip_end")
    case True
    then have "scan_loop inb ip m_pos ip_end m = Some ?m"
      using v(1) by (subst scan_loop.simps) simp
    then show ?thesis
      using "1.prems" by auto
  next
    case False
    show ?thesis
    proof (cases "v = 0")
      case True
      then have "scan_loop inb ip m_pos ip_end m = scan_loop inb ip m_pos ip_end ?m"
        using False v(1) by (subst scan_loop.simps) simp
      then show ?thesis
        using "1.IH" [OF refl v(1) False True] "1.prems" False True more v(2) by simp
    next
      case nz: False
      then have "scan_loop inb ip m_pos ip_end m = Some (?m + k)"
        using False v(1,2) by (subst scan_loop.simps) simp
      then show ?thesis
        using more nz v(3) False by auto
    qed
  qed
qed

lemma match_length_correct:
  assumes "m_pos < ip" "ip_end + 20 \<le> int (length inb)" "int ip < ip_end"
    and "\<forall>j < 4. inb ! (ip + j) = inb ! (m_pos + j)"
  shows "\<exists>n. match_length inb ip m_pos ip_end = Some n \<and> 4 \<le> n \<and> int (ip + n) \<le> ip_end + 19 \<and>
    (\<forall>j < n. inb ! (ip + j) = inb ! (m_pos + j))"
proof -
  obtain v k where v: "diff64 inb (ip + 4) (m_pos + 4) = Some v"
      "k = (if v = 0 then 8 else bitops_cttz64 v div 8)" "v \<noteq> 0 \<longrightarrow> k \<le> 7"
      "\<forall>j < k. inb ! (ip + 4 + j) = inb ! (m_pos + 4 + j)"
    using diff64_bytes [of "ip + 4" inb "m_pos + 4"] assms by auto
  have more: "\<forall>j < 4 + k. inb ! (ip + j) = inb ! (m_pos + j)"
    using assms(4) v(4) by (rule agree_extend)
  show ?thesis
  proof (cases "v = 0")
    case True
    then have "match_length inb ip m_pos ip_end = scan_loop inb ip m_pos ip_end 4"
      using v(1) by (simp add: match_length_def)
    moreover obtain n where n: "scan_loop inb ip m_pos ip_end 4 = Some n" "int (ip + n) \<le> ip_end + 19"
        "\<forall>j < n. inb ! (ip + j) = inb ! (m_pos + j)"
      using scan_loop_correct [of m_pos ip ip_end inb 4] assms(1-3) more True v(2) by auto
    ultimately show ?thesis
      using scan_loop_ge [OF n(1)] by auto
  next
    case False
    then have "match_length inb ip m_pos ip_end = Some (4 + k)"
      using v(1,2) by (simp add: match_length_def)
    then show ?thesis
      using more False v(3) assms(3) by auto
  qed
qed

section \<open>The code of a match\<close>

lemma byte_of_cong: "a mod 256 = b mod 256 \<Longrightarrow> byte_of a = byte_of b"
  by (metis byte_of_unat unat_byte_of)

lemma put_two:
  assumes "op + 2 \<le> length out"
  shows "\<exists>out'. do { out \<leftarrow> store out op [a]; out \<leftarrow> store out (op + 1) [b]; Some (op + 2, out) } =
    Some (op + 2, out') \<and> extends out op [a, b] out'"
proof -
  obtain o1 where o1: "store out op [a] = Some o1" "extends out op [a] o1"
    using assms store_extends [of op "[a]" out] by auto
  moreover obtain o2 where "store o1 (op + 1) [b] = Some o2" "extends o1 (op + 1) [b] o2"
    using assms store_extends [of "op + 1" "[b]" o1] extends_length [OF o1(2)] by auto
  ultimately show ?thesis
    using extends_trans [OF o1(2), of "[b]" o2] by simp
qed

lemma put_head_two:
  assumes "op + length hs + 2 \<le> length out"
    and "\<exists>o1. h = Some (op + length hs, o1) \<and> extends out op hs o1"
  shows "\<exists>out'. do { (op, out) \<leftarrow> h; out \<leftarrow> store out op [a]; out \<leftarrow> store out (op + 1) [b];
      Some (op + 2, out) } = Some (op + length (hs @ [a, b]), out') \<and> extends out op (hs @ [a, b]) out'"
proof -
  obtain o1 where o1: "h = Some (op + length hs, o1)" "extends out op hs o1"
    using assms(2) by blast
  have "op + length hs + 2 \<le> length o1"
    using assms(1) extends_length [OF o1(2)] by simp
  from put_two [OF this, of a b] obtain o2 where "do { out \<leftarrow> store o1 (op + length hs) [a];
        out \<leftarrow> store out (op + length hs + 1) [b]; Some (op + length hs + 2, out) } =
      Some (op + length hs + 2, o2)" "extends o1 (op + length hs) [a, b] o2"
    by blast
  then show ?thesis
    using o1 extends_trans [OF o1(2), of "[a, b]" o2] by (simp add: add.assoc)
qed

lemma put_head:
  assumes "op + (if m_len \<le> n then 1 else 1 + length (run_bytes (m_len - n))) \<le> length out"
  shows "\<exists>o1. (if m_len \<le> n then do { out \<leftarrow> store out op [a]; Some (op + 1, out) }
        else do { out \<leftarrow> store out op [b]; put_run (m_len - n) (op + 1) out }) =
      Some (op + length (if m_len \<le> n then [a] else b # run_bytes (m_len - n)), o1) \<and>
    extends out op (if m_len \<le> n then [a] else b # run_bytes (m_len - n)) o1"
proof (cases "m_len \<le> n")
  case True
  then show ?thesis
    using assms store_extends [of op "[a]" out] by auto
next
  case False
  obtain o1 where o1: "store out op [b] = Some o1" "extends out op [b] o1"
    using assms False store_extends [of op "[b]" out] by auto
  have "op + 1 + length (run_bytes (m_len - n)) \<le> length o1"
    using assms False extends_length [OF o1(2)] by simp
  then obtain o2 where "put_run (m_len - n) (op + 1) o1 =
        Some (op + 1 + length (run_bytes (m_len - n)), o2)"
      "extends o1 (op + 1) (run_bytes (m_len - n)) o2"
    using put_run_extends by blast
  then show ?thesis
    using False o1 extends_trans [OF o1(2), of "run_bytes (m_len - n)" o2] by simp
qed

lemma offset_byte: "byte_of (push_bit 2 m) = byte_of (m mod 64 * 4 + 0)"
proof (rule byte_of_cong)
  have "m * 4 mod (64 * 4) = m mod 64 * 4"
    by (rule mult_mod_left [symmetric])
  then show "push_bit 2 m mod 256 = (m mod 64 * 4 + 0) mod 256"
    by (simp add: push_bit_eq_mult)
qed

lemma and_7: "x AND 7 = x mod (8::nat)"
  using take_bit_eq_mask [of 3 x] by (simp add: take_bit_eq_mod mask_eq_exp_minus_1)

lemma and_8: "x < 16 \<Longrightarrow> x AND 8 = x div 8 * (8::nat)"
proof -
  have "\<forall>x \<in> {0..<16}. x AND 8 = x div 8 * (8::nat)"
    by (simp add: atLeastLessThan_nat_numeral)
  then show "x < 16 \<Longrightarrow> x AND 8 = x div 8 * (8::nat)"
    by auto
qed

lemma put_match_extends:
  assumes "4 \<le> len" "1 \<le> dist" "dist \<le> 49151" "op + length (enc_match len dist 0) \<le> length out"
  shows "\<exists>out'. put_match len dist op out = Some (op + length (enc_match len dist 0), out') \<and>
    extends out op (enc_match len dist 0) out'"
proof -
  consider (m2) "len \<le> 8" "dist \<le> 2048" | (m3) "\<not> (len \<le> 8 \<and> dist \<le> 2048)" "dist \<le> 16384"
    | (m4) "16384 < dist" by linarith
  then show ?thesis
  proof cases
    case m2
    have "push_bit 2 ((dist - 1) mod 8) < (2 ^ 5 :: nat)"
      by (simp add: push_bit_eq_mult)
    from or_disjoint_nat [OF this, of "len - 1"]
    have b: "byte_of (push_bit 5 (len - 1) OR push_bit 2 ((dist - 1) AND 7)) =
        byte_of ((len - 1) * 32 + (dist - 1) mod 8 * 4 + 0)"
      "byte_of (drop_bit 3 (dist - 1)) = byte_of ((dist - 1) div 8)"
      unfolding and_7 by (simp_all add: push_bit_eq_mult drop_bit_eq_div)
    have e: "enc_match len dist 0 = enc_m2 len dist 0"
      using m2 by (simp add: enc_match_def)
    have "op + 2 \<le> length out"
      using assms(4) e by (simp add: enc_m2_def)
    from put_two [OF this] show ?thesis
      using m2 unfolding e enc_m2_def put_match_def Let_def b by simp
  next
    case m3
    have "len - 2 < 2 ^ 5" if "len \<le> 33"
      using that assms(1) by simp
    from or_disjoint_nat [OF this, of 1]
    have b: "len \<le> 33 \<Longrightarrow> byte_of (32 OR (len - 2)) = byte_of (32 + (len - 2))"
      by (simp add: push_bit_eq_mult)
    let ?hd = "if len \<le> 33 then [byte_of (32 + (len - 2))] else byte_of 32 # run_bytes (len - 33)"
    have e: "enc_match len dist 0 = ?hd @ [byte_of (push_bit 2 (dist - 1)), byte_of (drop_bit 6 (dist - 1))]"
      using m3 by (auto simp: enc_match_def enc_m3_def offset_byte drop_bit_eq_div)
    have room: "op + length ?hd + 2 \<le> length out"
      using assms(4) unfolding e by simp
    have "op + (if len \<le> 33 then 1 else 1 + length (run_bytes (len - 33))) \<le> length out"
      using room by (simp split: if_splits)
    from put_head_two [OF room put_head [OF this]] show ?thesis
      using m3 unfolding e put_match_def Let_def by (auto simp: b cong: if_cong)
  next
    case m4
    let ?m = "dist - 16384"
    have m: "?m < 32768"
      using assms(3) by simp
    have "drop_bit 11 ?m < 16"
      using m by (simp add: drop_bit_eq_div less_mult_imp_div_less)
    then have hi: "drop_bit 11 ?m AND 8 = ?m div 16384 * 8"
      by (simp add: and_8) (simp add: drop_bit_eq_div div_mult2_eq [symmetric])
    have hi8: "?m div 16384 \<le> 1"
      using m by (simp add: div_le_mono less_mult_imp_div_less less_Suc_eq_le [symmetric])
    have "?m div 16384 * 8 < 2 ^ 4"
      using hi8 by simp
    from or_disjoint_nat [OF this, of 1] have b1: "16 OR ?m div 16384 * 8 = 16 + ?m div 16384 * 8"
      by (simp add: push_bit_eq_mult)
    have "len - 2 < 2 ^ 3" if "len \<le> 9"
      using that assms(1) by simp
    from or_disjoint_nat [OF this, of "2 + ?m div 16384"]
    have b2: "len \<le> 9 \<Longrightarrow>
        16 OR ?m div 16384 * 8 OR (len - 2) = 16 + ?m div 16384 * 8 + (len - 2)"
      unfolding or.assoc [symmetric] b1 by (simp add: push_bit_eq_mult)
    let ?hd = "if len \<le> 9 then [byte_of (16 + ?m div 16384 * 8 + (len - 2))]
      else byte_of (16 + ?m div 16384 * 8) # run_bytes (len - 9)"
    have e: "enc_match len dist 0 = ?hd @ [byte_of (push_bit 2 ?m), byte_of (drop_bit 6 ?m)]"
      using m4 by (auto simp: enc_match_def enc_m4_def offset_byte drop_bit_eq_div Let_def)
    have room: "op + length ?hd + 2 \<le> length out"
      using assms(4) unfolding e by simp
    have "op + (if len \<le> 9 then 1 else 1 + length (run_bytes (len - 9))) \<le> length out"
      using room by (simp split: if_splits)
    from put_head_two [OF room put_head [OF this]] show ?thesis
      using m4 unfolding e put_match_def Let_def hi b1 by (auto simp: b2 cong: if_cong)
  qed
qed

lemma enc_match_bound:
  assumes "4 \<le> len"
  shows "length (enc_match len dist 0) \<le> len - 1"
proof -
  have "length (run_bytes n) \<le> 1 + n" for n
    using run_bytes_length [of n] div_le_dividend [of n 255] by linarith
  from this [of "len - 33"] this [of "len - 9"]
  have "33 < len \<Longrightarrow> 3 + length (run_bytes (len - 33)) \<le> len - 1"
    "9 < len \<Longrightarrow> 3 + length (run_bytes (len - 9)) \<le> len - 1"
    by linarith+
  then show ?thesis
    using assms by (auto simp: enc_match_def enc_m2_def enc_m3_def enc_m4_def Let_def)
qed

end
