(* ===== verification/LzoRoundtrip.thy ===== *)
theory LzoRoundtrip
  imports LzoMatch
begin

text \<open>
  The compressor is correct: the invariant of its core (the output is a stream of the input
  consumed so far, and not longer than the bound the callers allocate), the blocks, the
  final literals, and the theorem that decompression gives the input back.
\<close>

section \<open>What has been consumed\<close>

definition cover :: "u8 list \<Rightarrow> item list \<Rightarrow> nat \<Rightarrow> nat \<Rightarrow> u8 list \<Rightarrow> bool" where
  "cover inb is n op out \<longleftrightarrow> written is op out \<and> clean is \<and> wf_items True 0 is \<and>
     n \<le> length inb \<and> expand [] is = take n inb \<and> op \<le> n + n div 16"

text \<open>The size that \<open>Lzo.cpp\<close> and the documentation of LZO give for the output buffer.\<close>

definition room :: "u8 list \<Rightarrow> u8 list \<Rightarrow> bool" where
  "room inb out \<longleftrightarrow> length inb + length inb div 16 + 64 + 3 \<le> length out"

lemma div16_add: "a div 16 + b div 16 \<le> (a + b) div (16 :: nat)"
  by (metis div_add1_eq le_add1)

lemma room_for_literals:
  fixes n :: nat
  assumes "op \<le> n + n div 16" "n + t \<le> N" "N + N div 16 + 64 + 3 \<le> L"
  shows "op + t + t div 255 + 17 \<le> L"
proof -
  have "n div 16 + t div 16 \<le> N div 16"
    using div16_add [of n t] div_le_mono [OF assms(2), of 16] by (rule order_trans)
  moreover have "t div 255 \<le> t div 16"
    by (simp add: div_le_mono2)
  ultimately show ?thesis
    using assms by linarith
qed

lemma room_for_match:
  fixes n :: nat
  assumes "op1 \<le> op + t + 1 + t div 16" "e \<le> l - 1" "4 \<le> l"
    and "op \<le> n + n div 16" "n + t + l \<le> N" "N + N div 16 + 64 + 3 \<le> L"
  shows "op1 + e \<le> L"
proof -
  have "n div 16 + t div 16 \<le> N div 16"
    using div16_add [of n t] div_le_mono [of "n + t" N 16] assms(5) by linarith
  moreover have "e + 1 \<le> l"
    using assms(2,3) by linarith
  ultimately show ?thesis
    using assms(1,4,5,6) by linarith
qed

lemma lits_head_small: "4 \<le> t \<Longrightarrow> length (lits_head t) \<le> 1 + t div 16"
proof (cases "t \<le> 18")
  case False
  then have "1 + (t - 18) div 255 \<le> 1 + (t - 16) div 16"
    using div_le_mono [of "t - 18" "t - 16" 16] div_le_mono2 [of 16 255 "t - 18"] by linarith
  also have "\<dots> = t div 16"
    using False by (simp add: le_div_geq)
  finally show ?thesis
    using False run_bytes_length [of "t - 18"] by (simp add: lits_head_def)
qed (simp add: lits_head_def)

lemma add_lits_size:
  assumes "clean is" "is = [] \<longrightarrow> bs = [] \<or> 4 \<le> length bs"
  shows "length (enc_items is) \<le> length (enc_items (add_lits is bs))"
    and "length (enc_items (add_lits is bs)) \<le>
      length (enc_items is) + length bs + 1 + length bs div 16"
proof -
  consider "bs = []" | "bs \<noteq> []" "length bs \<le> 3" | "4 \<le> length bs"
    by linarith
  then have "length (enc_items is) \<le> length (enc_items (add_lits is bs)) \<and>
    length (enc_items (add_lits is bs)) \<le>
      length (enc_items is) + length bs + 1 + length bs div 16"
  proof cases
    case 1
    then show ?thesis by (simp add: add_lits_def)
  next
    case 2
    then obtain js len dist where "is = js @ [Mtch len dist []]"
      using assms by (auto simp: clean_def)
    then show ?thesis
      using 2 enc_match_length_eq [of len dist "length bs"]
      by (simp add: add_lits_def enc_items_append)
  next
    case 3
    then show ?thesis
      using lits_head_small [of "length bs"] enc_items_add_run [OF 3, of "is"] by simp
  qed
  then show "length (enc_items is) \<le> length (enc_items (add_lits is bs))"
    and "length (enc_items (add_lits is bs)) \<le>
      length (enc_items is) + length bs + 1 + length bs div 16"
    by simp_all
qed

lemma lz_copy_input:
  assumes "m_pos < ip" "ip + k \<le> length inb" "\<forall>j < k. inb ! (ip + j) = inb ! (m_pos + j)"
  shows "lz_copy k (take ip inb) (ip - m_pos) = take (ip + k) inb"
  using assms
proof (induction k)
  case 0
  then show ?case by simp
next
  case (Suc k)
  have "lz_copy (Suc k) (take ip inb) (ip - m_pos) =
      lz_copy 1 (lz_copy k (take ip inb) (ip - m_pos)) (ip - m_pos)"
    unfolding Suc_eq_plus1 by (rule lz_copy_add)
  also have "\<dots> = take (ip + k) inb @ [take (ip + k) inb ! (m_pos + k)]"
    using Suc by (simp add: add.commute)
  also have "take (ip + k) inb ! (m_pos + k) = inb ! (m_pos + k)"
    using Suc.prems(1) by (intro nth_take) simp
  also have "inb ! (m_pos + k) = inb ! (ip + k)"
    using Suc.prems(3) by simp
  also have "take (ip + k) inb @ [inb ! (ip + k)] = take (ip + Suc k) inb"
    using Suc.prems by (simp add: take_Suc_conv_app_nth)
  finally show ?case .
qed

lemma cover_match:
  assumes "cover inb is n op out" "is = [] \<longrightarrow> 4 \<le> t" "n + t = ip" "m_pos < ip" "ip - m_pos \<le> 49151"
    and "4 \<le> len" "ip + len \<le> length inb" "\<forall>j < len. inb ! (ip + j) = inb ! (m_pos + j)"
    and "js = add_lits is (take t (drop n inb)) @ [Mtch len (ip - m_pos) []]"
    and "written js op' out'"
  shows "cover inb js (ip + len) op' out'" "op \<le> op'"
proof -
  let ?bs = "take t (drop n inb)"
  have c: "clean is" "wf_items True 0 is" "expand [] is = take n inb" "op \<le> n + n div 16"
    "op = length (enc_items is)"
    using assms(1) by (auto simp: cover_def written_def)
  have bs: "length ?bs = t" "is = [] \<longrightarrow> ?bs = [] \<or> 4 \<le> length ?bs"
    using assms(2,3,7) by auto
  have e: "expand [] (add_lits is ?bs) = take ip inb"
    using expand_add_lits [OF c(1) bs(2), of "[]"] c(3) assms(3) take_add [of n t inb] by simp
  then have "expand [] js = take (ip + len) inb"
    using assms(4,7,8,9) lz_copy_input by (simp add: expand_append)
  moreover have "wf_items True 0 js"
    using wf_snoc_match [OF wf_add_lits [OF c(1) bs(2) c(2)], of len "ip - m_pos"] e assms(4-7,9)
    by simp
  moreover have "clean js"
    using assms(9) by (auto simp: clean_def)
  moreover have op': "op' = length (enc_items (add_lits is ?bs)) + length (enc_match len (ip - m_pos) 0)"
    using assms(9,10) by (simp add: written_def enc_items_append)
  moreover have "length (enc_items (add_lits is ?bs)) \<le> op + t + 1 + t div 16"
    using add_lits_size(2) [OF c(1) bs(2)] bs(1) c(5) by simp
  then have "op' \<le> (n + t) + (n div 16 + t div 16) + len"
    using op' enc_match_bound [OF assms(6), of "ip - m_pos"] c(4) assms(6) by simp
  then have "op' \<le> ip + len + (ip + len) div 16"
    using div16_add [of n t] div_le_mono [of ip "ip + len" 16] assms(3) by simp
  ultimately show "cover inb js (ip + len) op' out'"
    using assms(7,10) by (simp add: cover_def)
  show "op \<le> op'"
    using op' add_lits_size(1) [OF c(1) bs(2)] c(5) by simp
qed

section \<open>The core\<close>

definition cinv :: "u8 list \<Rightarrow> nat \<Rightarrow> nat \<Rightarrow> nat \<Rightarrow> nat \<Rightarrow> item list \<Rightarrow> cstate \<Rightarrow> bool" where
  "cinv inb base len op0 olen is s \<longleftrightarrow>
     c_ti s \<le> c_ii s \<and> base \<le> c_ii s \<and> c_ii s \<le> base + len \<and> c_ii s \<le> c_ip s \<and> base < c_ip s \<and>
     (\<forall>i. unat (c_dict s i) < c_ip s - base) \<and> op0 \<le> c_op s \<and> length (c_out s) = olen \<and>
     cover inb is (c_ii s - c_ti s) (c_op s) (c_out s) \<and>
     (is = [] \<longrightarrow> 4 \<le> c_ip s - (c_ii s - c_ti s))"

lemma update_bound:
  assumes "\<forall>i. unat (dict i) < p - base" "p < p'" "base < p" "p - base < 65536"
  shows "unat (UPDATE_I dict k p base i) < p' - base"
proof (cases "i = k")
  case True
  then have "unat (UPDATE_I dict k p base i) = p - base"
    using assms(4) by (simp add: UPDATE_I_def unat_of_nat)
  then show ?thesis
    using assms(2,3) by simp
next
  case False
  then have "unat (UPDATE_I dict k p base i) < p - base"
    using assms(1) by (simp add: UPDATE_I_def)
  then show ?thesis
    using assms(2,3) by linarith
qed

lemma c_match_inv:
  assumes "cinv inb base len op0 olen is s" "int (c_ip s) < int base + int len - 20"
    and "base + len \<le> length inb" "len \<le> 49152" "room inb (c_out s)" "base \<le> m_pos" "m_pos < c_ip s"
    and "\<forall>j < 4. inb ! (c_ip s + j) = inb ! (m_pos + j)"
    and "s' = s\<lparr>c_dict := UPDATE_I (c_dict s) k (c_ip s) base\<rparr>"
  shows "\<exists>s2 js. c_match inb (int base + int len - 20) m_pos s' = Some s2 \<and>
    cinv inb base len op0 olen js s2"
proof -
  let ?ip = "c_ip s" and ?n = "c_ii s - c_ti s" and ?dist = "c_ip s - m_pos"
  let ?t = "?ip - ?n"
  let ?bs = "take ?t (drop ?n inb)"
  have s: "c_ii s \<le> ?ip" "base < ?ip" "\<forall>i. unat (c_dict s i) < ?ip - base" "op0 \<le> c_op s"
      "length (c_out s) = olen" "is = [] \<longrightarrow> 4 \<le> ?t"
    and cov: "cover inb is ?n (c_op s) (c_out s)"
    using assms(1) by (auto simp: cinv_def)
  have w: "written is (c_op s) (c_out s)" "clean is" "c_op s \<le> ?n + ?n div 16"
    using cov by (simp_all add: cover_def)
  have nt: "?n + ?t = ?ip" and ip: "?ip + 21 \<le> base + len"
    using s(1) assms(2) by simp_all
  have lits_room: "c_op s + ?t + ?t div 255 + 17 \<le> length (c_out s)"
    using room_for_literals [OF w(3) _ assms(5) [unfolded room_def], of ?t] nt ip assms(3) by linarith
  have src: "?n + ?t + 16 \<le> length inb"
    using nt ip assms(3) by linarith
  obtain op1 o1 where o1: "put_literals inb ?n ?t (c_op s) (c_out s) = Some (op1, o1)"
      "written (add_lits is ?bs) op1 o1" "length o1 = length (c_out s)"
    using put_literals_written [OF w(1,2) _ src lits_room] s(6) by blast
  obtain l where l: "match_length inb ?ip m_pos (int base + int len - 20) = Some l" "4 \<le> l"
      "int (?ip + l) \<le> int base + int len - 20 + 19" "\<forall>j < l. inb ! (?ip + j) = inb ! (m_pos + j)"
    using match_length_correct [of m_pos ?ip "int base + int len - 20" inb] assms(2,3,7,8) by auto
  have ipl: "?ip + l < base + len" "?ip + l \<le> length inb"
    using l(3) assms(3) by linarith+
  have d: "1 \<le> ?dist" "?dist \<le> 49151"
    using assms(4,6,7) ip by linarith+
  have bs: "length ?bs = ?t" "is = [] \<longrightarrow> ?bs = [] \<or> 4 \<le> length ?bs"
    using s(6) nt ip assms(3) by simp_all
  have "op1 \<le> c_op s + ?t + 1 + ?t div 16"
    using add_lits_size(2) [OF w(2) bs(2)] bs(1) o1(2) w(1) by (simp add: written_def)
  from room_for_match [OF this enc_match_bound [OF l(2)] l(2) w(3) _ assms(5) [unfolded room_def]]
  have "op1 + length (enc_match l ?dist 0) \<le> length o1"
    using nt ipl(2) o1(3) by simp
  then obtain o2 where o2: "put_match l ?dist op1 o1 = Some (op1 + length (enc_match l ?dist 0), o2)"
      "extends o1 op1 (enc_match l ?dist 0) o2"
    using put_match_extends [OF l(2) d] by blast
  let ?js = "add_lits is ?bs @ [Mtch l ?dist []]" and ?op = "op1 + length (enc_match l ?dist 0)"
  have "written ?js ?op o2"
    using written_extends [OF o1(2) o2(2)] by (simp add: enc_items_append)
  from cover_match [OF cov s(6) nt assms(7) d(2) l(2) ipl(2) l(4) refl this]
  have c2: "cover inb ?js (?ip + l) ?op o2" "c_op s \<le> ?op" .
  let ?s2 = "s'\<lparr>c_ip := ?ip + l, c_ii := ?ip + l, c_op := ?op, c_ti := 0, c_out := o2\<rparr>"
  have "c_match inb (int base + int len - 20) m_pos s' = Some ?s2"
    using o1(1) l(1) o2(1) assms(9) by (simp add: c_match_def Let_def)
  moreover have "unat (c_dict ?s2 i) < ?ip + l - base" for i
    using update_bound [OF s(3), of "?ip + l" k i] l(2) s(2) ip assms(4,9) by simp
  then have "cinv inb base len op0 olen ?js ?s2"
    using c2 s(2,4,5) ipl o1(3) extends_length [OF o2(2)] by (simp add: cinv_def)
  ultimately show ?thesis
    by blast
qed

lemma c_literal_inv:
  assumes "cinv inb base len op0 olen is s" "c_ip s - base < 65536"
  shows "cinv inb base len op0 olen is
    (c_literal (s\<lparr>c_dict := UPDATE_I (c_dict s) k (c_ip s) base\<rparr>))"
proof -
  have s: "base < c_ip s" "\<forall>i. unat (c_dict s i) < c_ip s - base"
    using assms(1) by (auto simp: cinv_def)
  let ?ip = "c_ip s + 1 + (c_ip s - c_ii s) div 32"
  have "unat (UPDATE_I (c_dict s) k (c_ip s) base i) < ?ip - base" for i
    by (rule update_bound [OF s(2) _ s(1) assms(2)]) simp
  then show ?thesis
    using assms(1) by (auto simp: cinv_def c_literal_def)
qed

lemma c_next_inv:
  assumes "cinv inb base len op0 olen is s" "int (c_ip s) < int base + int len - 20"
    and "base + len \<le> length inb" "len \<le> 49152" "room inb (c_out s)"
  shows "\<exists>s2 js. c_next inb base (int base + int len - 20) s = Some s2 \<and>
    cinv inb base len op0 olen js s2"
proof -
  let ?ip = "c_ip s"
  have s: "base < ?ip" "\<forall>i. unat (c_dict s i) < ?ip - base" and ip: "?ip + 21 \<le> base + len"
    using assms(1,2) by (auto simp: cinv_def)
  have "?ip + 4 \<le> length inb"
    using ip assms(3) by simp
  then obtain dv where dv: "get_le32 inb ?ip = Some dv"
    by (simp add: get_le32_def load_n_Some)
  define m_pos where "m_pos = base + unat (c_dict s (DINDEX dv))"
  have m: "base \<le> m_pos" "m_pos < ?ip"
    using spec [OF s(2), of "DINDEX dv"] s(1) by (auto simp: m_pos_def)
  have "m_pos + 4 \<le> length inb"
    using m ip assms(3) by simp
  then obtain mv where mv: "get_le32 inb m_pos = Some mv"
    by (simp add: get_le32_def load_n_Some)
  let ?s = "s\<lparr>c_dict := UPDATE_I (c_dict s) (DINDEX dv) ?ip base\<rparr>"
  show ?thesis
  proof (cases "dv = mv")
    case True
    then have "\<forall>j < 4. inb ! (?ip + j) = inb ! (m_pos + j)"
      using get_le32_eq [OF dv] mv by auto
    from c_match_inv [OF assms m this refl]
    show ?thesis
      using True dv mv by (simp add: c_next_def m_pos_def Let_def)
  next
    case False
    then have "c_next inb base (int base + int len - 20) s = Some (c_literal ?s)"
      using dv mv by (simp add: c_next_def m_pos_def Let_def)
    then show ?thesis
      using c_literal_inv [OF assms(1)] ip assms(4) by fastforce
  qed
qed

lemma c_loop_inv:
  assumes "cinv inb base len op0 olen is s" "base + len \<le> length inb" "len \<le> 49152"
    and "length inb + length inb div 16 + 64 + 3 \<le> olen"
  shows "\<exists>s2 js. c_loop inb base (int base + int len - 20) s = Some s2 \<and>
    cinv inb base len op0 olen js s2"
  using assms
proof (induction inb base "int base + int len - 20" s arbitrary: "is" rule: c_loop.induct)
  case (1 inb base s)
  show ?case
  proof (cases "int base + int len - 20 \<le> int (c_ip s)")
    case True
    then show ?thesis
      using "1.prems" by (subst c_loop.simps) auto
  next
    case False
    have "room inb (c_out s)"
      using "1.prems" by (simp add: room_def cinv_def)
    then obtain s2 js where s2: "c_next inb base (int base + int len - 20) s = Some s2"
        "cinv inb base len op0 olen js s2"
      using c_next_inv [of inb base len op0 olen "is" s] "1.prems" False by auto
    then show ?thesis
      using "1.hyps" [OF False s2(1) s2(2)] "1.prems" False by (subst c_loop.simps) simp
  qed
qed

lemma do_compress_cover:
  assumes "cover inb is (base - ti) op out" "ti \<le> base" "base + len \<le> length inb" "len \<le> 49152"
    and "room inb out"
  shows "\<exists>t n out' js. do_compress inb base len op out ti = Some (t, n, out') \<and>
    t \<le> base + len \<and> length out' = length out \<and> cover inb js (base + len - t) (op + n) out'"
proof -
  let ?s0 = "\<lparr>c_ip = base + (if ti < 4 then 4 - ti else 0), c_ii = base, c_op = op, c_ti = ti,
       c_dict = (\<lambda>_. 0), c_out = out\<rparr>"
  have "cinv inb base len op (length out) is (c_literal ?s0)"
    using assms(1,2) by (simp add: cinv_def c_literal_def)
  from c_loop_inv [OF this assms(3,4)] assms(5) obtain s js
    where s: "c_loop inb base (int base + int len - 20) (c_literal ?s0) = Some s"
      and inv: "cinv inb base len op (length out) js s"
    by (auto simp: room_def)
  let ?t = "base + len - (c_ii s - c_ti s)"
  have "cover inb js (base + len - ?t) (op + (c_op s - op)) (c_out s)"
    using inv by (auto simp: cinv_def)
  moreover have "do_compress inb base len op out ti = Some (?t, c_op s - op, c_out s)"
    using s unfolding do_compress_def Let_def by simp
  moreover have "length (c_out s) = length out"
    using inv by (simp add: cinv_def)
  ultimately show ?thesis
    by (intro exI conjI) auto
qed

section \<open>The whole input\<close>

lemma c_blocks_cover:
  assumes "cover inb is (ip - t) op out" "t \<le> ip" "ip + l = length inb" "room inb out"
  shows "\<exists>l' t' op' out' js. c_blocks addr inb ip l t op out = Some (l', t', op', out') \<and>
    t' + l' \<le> length inb \<and> length out' = length out \<and>
    cover inb js (length inb - (t' + l')) op' out'"
  using assms
proof (induction addr inb ip l t op out arbitrary: "is" rule: c_blocks.induct)
  case (1 addr inb ip l t op out)
  let ?ll = "min l 49152"
  let ?stop = "wrap64 (addr + ip + ?ll)"
  show ?case
  proof (cases "l > 20 \<and> \<not> wrap64 (?stop + (t + ?ll) div 32) \<le> ?stop")
    case False
    then have "c_blocks addr inb ip l t op out = Some (l, t, op, out)"
      by (subst c_blocks.simps) (auto simp: Let_def)
    moreover have "length inb - (t + l) = ip - t" "t + l \<le> length inb"
      using "1.prems" by simp_all
    ultimately show ?thesis
      using "1.prems"(1) by auto
  next
    case True
    have "ip + ?ll \<le> length inb"
      using "1.prems"(3) by simp
    from do_compress_cover [OF "1.prems"(1,2) this _ "1.prems"(4)]
    obtain t' n out' js where d: "do_compress inb ip ?ll op out t = Some (t', n, out')"
        "t' \<le> ip + ?ll" "length out' = length out" "cover inb js (ip + ?ll - t') (op + n) out'"
      by auto
    have "c_blocks addr inb ip l t op out = c_blocks addr inb (ip + ?ll) (l - ?ll) t' (op + n) out'"
      using True d(1) by (subst c_blocks.simps) (simp add: Let_def)
    moreover have "room inb out'" "ip + ?ll + (l - ?ll) = length inb"
      using "1.prems"(3,4) d(3) by (simp_all add: room_def)
    ultimately show ?thesis
      using "1.IH" [OF _ refl refl _ d(1) refl refl d(4) d(2)] True d(3) by simp
  qed
qed

lemma enc_items_Nil_iff: "enc_items is = [] \<longleftrightarrow> is = []"
proof (cases "is")
  case (Cons i rest)
  have "enc_item i \<noteq> []"
  proof (cases i)
    case (Mtch len dist ls)
    then show ?thesis
      using enc_match_length [of len dist "length ls"] by auto
  qed (simp add: enc_lits_def)
  then show ?thesis
    using Cons by simp
qed simp

lemma final_branch:
  assumes "cover inb is (length inb - t) op out" "0 < t" "t \<le> length inb" "room inb out"
    and "\<not> (op = 0 \<and> t \<le> 238)"
  shows "\<exists>op' out'. put_final_literals inb t op out = Some (op', out') \<and>
    length out' = length out \<and> written (add_lits is (drop (length inb - t) inb)) op' out'"
proof -
  let ?bs = "drop (length inb - t) inb"
  have w: "written is op out" "clean is" "op \<le> (length inb - t) + (length inb - t) div 16"
    and bs: "length ?bs = t"
    using assms(1,3) by (auto simp: cover_def)
  have ne: "t \<le> 238 \<Longrightarrow> is \<noteq> []"
    using assms(5) w(1) by (auto simp: written_def)
  have fits: "op + t + t div 255 + 17 \<le> length out"
    using room_for_literals [OF w(3) _ assms(4) [unfolded room_def]] assms(3) by simp
  show ?thesis
  proof (cases "t \<le> 3")
    case True
    then obtain js len dist where js: "is = js @ [Mtch len dist []]"
      using w(2) ne by (auto simp: clean_def)
    then obtain b o1 where o1: "2 \<le> op" "load out (op - 2) = Some b"
        "store out (op - 2) [b OR byte_of t] = Some o1" "length o1 = length out"
        "take op o1 = enc_items js @ enc_match len dist t"
      using store_or_written [of js len dist op out t] w(1) True by auto
    obtain o2 where o2: "chunk_copy t (From inb) o1 op (length inb - t) = Some o2"
        "extends o1 op (take t ?bs) o2"
      using chunk_copy_extends [of op t o1 "length inb - t" inb] fits o1(4) assms(3) by auto
    have "op = length (enc_items js) + length (enc_match len dist t)"
      using w(1) js enc_match_length_eq [of len dist t] by (simp add: written_def enc_items_append)
    moreover have "enc_items (add_lits is ?bs) = enc_items js @ enc_match len dist t @ ?bs"
      using True assms(2,3) js bs by (auto simp: add_lits_def enc_items_append)
    ultimately have "written (add_lits is ?bs) (op + t) o2"
      using o1(5) o2(2) bs fits by (auto simp: written_def extends_def add.assoc)
    then show ?thesis
      using True assms(2,5) o1 o2 extends_length [OF o2(2)] by (auto simp: put_final_literals_def Let_def)
  next
    case False
    then have "op + length (lits_head t) \<le> length out"
      using lits_head_length [of t] fits by simp
    from lits_head_extends [OF this] obtain o1
      where o1: "(if t \<le> 18 then do { out \<leftarrow> store out op [byte_of (t - 3)]; Some (op + 1, out) }
          else do { out \<leftarrow> store out op [0]; put_run (t - 18) (op + 1) out }) =
          Some (op + length (lits_head t), o1)" "extends out op (lits_head t) o1"
      by blast
    let ?op = "op + length (lits_head t)"
    have "?op + t \<le> length o1"
      using lits_head_length [of t] fits False extends_length [OF o1(2)] by simp
    then obtain o2 where o2: "chunk_copy t (From inb) o1 ?op (length inb - t) = Some o2"
        "extends o1 ?op (take t ?bs) o2"
      using chunk_copy_extends [of ?op t o1 "length inb - t" inb] assms(3) by auto
    have "extends out op (lits_head t @ ?bs) o2"
      using extends_trans [OF o1(2)] o2(2) bs by simp
    from written_extends [OF w(1) this] have "written (add_lits is ?bs) (?op + t) o2"
      using enc_items_add_run [of ?bs "is"] bs False by (simp add: add.assoc)
    then show ?thesis
      using False assms(2,5) o1(1) o2 extends_length [OF o1(2)] extends_length [OF o2(2)]
      by (auto simp: put_final_literals_def Let_def)
  qed
qed

text \<open>The output before the end marker, in both of its forms.\<close>

lemma put_final_stream:
  assumes "cover inb is (length inb - t) op out" "t \<le> length inb" "room inb out"
  shows "\<exists>op' out' bs js. put_final_literals inb t op out = Some (op', out') \<and>
    length out' = length out \<and> op' \<le> length inb + length inb div 16 + 1 \<and>
    op' = length (enc_start bs @ enc_items js) \<and> take op' out' = enc_start bs @ enc_items js \<and>
    wf_stream bs js \<and> expand bs js = inb"
proof -
  let ?P = "\<lambda>op' out' bs js. put_final_literals inb t op out = Some (op', out') \<and>
    length out' = length out \<and> op' \<le> length inb + length inb div 16 + 1 \<and>
    op' = length (enc_start bs @ enc_items js) \<and> take op' out' = enc_start bs @ enc_items js \<and>
    wf_stream bs js \<and> expand bs js = inb"
  let ?n = "length inb - t"
  have c: "written is op out" "clean is" "wf_items True 0 is" "expand [] is = take ?n inb"
      "op \<le> ?n + ?n div 16"
    using assms(1) by (auto simp: cover_def)
  consider (none) "t = 0" | (stored) "0 < t" "op = 0" "t \<le> 238" | (rest) "0 < t" "\<not> (op = 0 \<and> t \<le> 238)"
    by auto
  then show ?thesis
  proof cases
    case none
    then have "?P op out [] is"
      using c by (auto simp: put_final_literals_def enc_start_def wf_stream_def written_def)
    then show ?thesis
      by blast
  next
    case stored
    then have "is = []"
      using c(1) enc_items_Nil_iff [of "is"] by (simp add: written_def)
    then have t: "t = length inb" "inb \<noteq> []"
      using c(4) assms(2) stored(1) by (auto simp: take_eq_Nil)
    have "0 + 1 + t \<le> length out"
      using assms(3) t by (simp add: room_def)
    then obtain o1 where o1: "store out 0 [byte_of (17 + t)] = Some o1"
        "extends out 0 [byte_of (17 + t)] o1"
      using store_extends [of 0 "[byte_of (17 + t)]" out] by auto
    moreover obtain o2 where "chunk_copy t (From inb) o1 1 0 = Some o2"
        "extends o1 1 (take t (drop 0 inb)) o2"
      using chunk_copy_extends [of 1 t o1 0 inb] t \<open>0 + 1 + t \<le> length out\<close> extends_length [OF o1(2)]
      by auto
    ultimately have o: "store out 0 [byte_of (17 + t)] = Some o1"
        "extends out 0 [byte_of (17 + t)] o1"
        "chunk_copy t (From inb) o1 1 0 = Some o2" "extends o1 1 (take t (drop 0 inb)) o2"
      by simp_all
    have e: "extends out 0 (byte_of (17 + t) # inb) o2"
      using extends_trans [OF o(2)] o(4) t by simp
    have "put_final_literals inb t op out = Some (1 + t, o2)"
      using stored t o by (simp add: put_final_literals_def Let_def)
    then have "?P (1 + t) o2 inb []"
      using e t stored by (simp add: enc_start_def wf_stream_def extends_def)
    then show ?thesis
      by blast
  next
    case rest
    let ?bs = "drop ?n inb"
    have bs: "length ?bs = t" "is = [] \<longrightarrow> ?bs = [] \<or> 4 \<le> length ?bs"
      using rest c(1) assms(2) by (auto simp: written_def)
    obtain op' out' where o: "put_final_literals inb t op out = Some (op', out')"
        "length out' = length out" "written (add_lits is ?bs) op' out'"
      using final_branch [OF assms(1) rest(1) assms(2,3) rest(2)] by blast
    have "expand [] (add_lits is ?bs) = inb"
      using expand_add_lits [OF c(2) bs(2)] c(4) by simp
    moreover have "op' \<le> length inb + length inb div 16 + 1"
    proof -
      have "op' \<le> op + t + 1 + t div 16"
        using add_lits_size(2) [OF c(2) bs(2)] bs(1) o(3) c(1) by (simp add: written_def)
      moreover have "?n + t = length inb" "?n div 16 + t div 16 \<le> length inb div 16"
        using assms(2) div16_add [of ?n t] by simp_all
      ultimately show ?thesis
        using c(5) by linarith
    qed
    ultimately have "?P op' out' [] (add_lits is ?bs)"
      using o wf_add_lits [OF c(2) bs(2) c(3)] by (auto simp: enc_start_def wf_stream_def written_def)
    then show ?thesis
      by blast
  qed
qed

lemma compress_stream:
  assumes "length inb + length inb div 16 + 64 + 3 \<le> length out"
  shows "\<exists>out' bs js. lzo1x_1_compress addr inb out =
      Some (LZO_E_OK, length (enc_stream bs js), out') \<and> length out' = length out \<and>
    take (length (enc_stream bs js)) out' = enc_stream bs js \<and> wf_stream bs js \<and>
    expand bs js = inb \<and> length (enc_stream bs js) \<le> length inb + length inb div 16 + 4"
proof -
  have "cover inb [] 0 0 out" "room inb out"
    using assms by (auto simp: cover_def written_def clean_def room_def)
  then obtain l t op o1 "is" where o1: "c_blocks addr inb 0 (length inb) 0 0 out = Some (l, t, op, o1)"
      "t + l \<le> length inb" "length o1 = length out" "cover inb is (length inb - (t + l)) op o1"
    using c_blocks_cover [of inb "[]" 0 0 0 out "length inb" addr] by auto
  then have "room inb o1"
    using assms by (simp add: room_def)
  from put_final_stream [OF o1(4,2) this] obtain op' o2 bs js
    where o2: "put_final_literals inb (t + l) op o1 = Some (op', o2)" "length o2 = length out"
      "op' \<le> length inb + length inb div 16 + 1" "op' = length (enc_start bs @ enc_items js)"
      "take op' o2 = enc_start bs @ enc_items js" "wf_stream bs js" "expand bs js = inb"
    using o1(3) by auto
  have "op' + 3 \<le> length o2"
    using o2(2,3) assms by simp
  then obtain o3 where o3: "store o2 op' [byte_of (16 OR 1)] = Some o3" "extends o2 op' [byte_of (16 OR 1)] o3"
    using store_extends [of op' "[byte_of (16 OR 1)]" o2] by auto
  obtain o5 where o5: "do { out \<leftarrow> store o3 (op' + 1) [0]; out \<leftarrow> store out (op' + 1 + 1) [0];
        Some (op' + 1 + 2, out) } = Some (op' + 1 + 2, o5)" "extends o3 (op' + 1) [0, 0] o5"
    using put_two [of "op' + 1" o3 0 0] o2(2,3) assms extends_length [OF o3(2)] by auto
  have m: "[byte_of (16 OR 1)] @ [0, 0] = eof_marker"
    by (simp add: eof_marker_def byte_of_def)
  have e: "extends o2 op' eof_marker o5"
    using extends_trans [OF o3(2)] o5(2) unfolding m [symmetric] by simp
  have n: "length (enc_stream bs js) = op' + 3"
    using o2(4) by (simp add: enc_stream_def)
  have "lzo1x_1_compress addr inb out = Some (LZO_E_OK, op' + 3, o5)"
    using o1(1) o2(1) o3(1) o5(1) by (auto simp: lzo1x_1_compress_def bind_Some_iff)
  moreover have "take (op' + 3) o5 = enc_stream bs js"
    using e o2(5) by (simp add: extends_def enc_stream_def)
  moreover have "op' + 3 \<le> length inb + length inb div 16 + 4" "length o5 = length out"
    using o2(2,3) extends_length [OF e] by simp_all
  ultimately show ?thesis
    using o2(6,7) n by metis
qed

text \<open>
  The round trip, for either decompressor: the output of the compressor decodes to its
  input, whatever the address of the input.
\<close>

lemma compress_decompress:
  assumes "length inb + length inb div 16 + 64 + 3 \<le> length out" "length inb < 2 ^ 62"
    and "length inb \<le> out_len" "out_len \<le> length dst" "out_len < 2 ^ 63"
  shows "\<exists>n out' dst'. lzo1x_1_compress addr inb out = Some (LZO_E_OK, n, out') \<and>
    n \<le> length inb + length inb div 16 + 4 \<and>
    do_decompress safe (take n out') dst out_len = Result LZO_E_OK (length inb) dst' \<and>
    take (length inb) dst' = inb \<and> length dst' = length dst"
proof -
  obtain out' bs js where c: "lzo1x_1_compress addr inb out =
      Some (LZO_E_OK, length (enc_stream bs js), out')"
      "take (length (enc_stream bs js)) out' = enc_stream bs js" "wf_stream bs js"
      "expand bs js = inb" "length (enc_stream bs js) \<le> length inb + length inb div 16 + 4"
    using compress_stream [OF assms(1), of addr] by blast
  have "length (enc_stream bs js) < 2 ^ 63"
    using c(5) assms(2) by simp
  from decompress_stream [OF c(3) this] obtain dst' where
    "do_decompress safe (enc_stream bs js) dst out_len = Result LZO_E_OK (length inb) dst'"
    "length dst' = length dst" "take (length inb) dst' = inb"
    using assms(3-5) c(4) by blast
  then show ?thesis
    using c by metis
qed

section \<open>Properties\<close>

text \<open>
  C1: compressing and decompressing gives the input back, for every input, every content
  of the buffers and either decompressor, as soon as the compressor has the documented
  \<open>n + n / 16 + 64 + 3\<close> bytes and the decompressor has room for the input.
\<close>

theorem lzo1x_roundtrip:
  assumes "length inb + length inb div 16 + 64 + 3 \<le> length out" "length inb < 2 ^ 62"
    and "length inb \<le> out_len" "out_len \<le> length dst" "out_len < 2 ^ 63"
  shows "\<exists>n out'. lzo1x_1_compress addr inb out = Some (LZO_E_OK, n, out') \<and>
    (\<exists>dst'. lzo1x_decompress_safe (take n out') dst out_len = Result LZO_E_OK (length inb) dst' \<and>
      take (length inb) dst' = inb) \<and>
    (\<exists>dst'. lzo1x_decompress (take n out') dst out_len = Result LZO_E_OK (length inb) dst' \<and>
      take (length inb) dst' = inb)"
proof -
  obtain n out' where c: "lzo1x_1_compress addr inb out = Some (LZO_E_OK, n, out')"
    using compress_decompress [OF assms, of addr True] by blast
  then show ?thesis
    using compress_decompress [OF assms, of addr True] compress_decompress [OF assms, of addr False]
    unfolding lzo1x_decompress_safe_def lzo1x_decompress_def by auto
qed

theorem lzo1x_roundtrip_witness:
  "\<exists>n out'. lzo1x_1_compress 4096 (replicate 100 7) (replicate 200 0) = Some (LZO_E_OK, n, out') \<and>
    (\<exists>dst'. lzo1x_decompress_safe (take n out') (replicate 100 1) 100 = Result LZO_E_OK 100 dst' \<and>
      take 100 dst' = replicate 100 7)"
  using lzo1x_roundtrip [of "replicate 100 7" "replicate 200 0" 100 "replicate 100 1" 4096]
  unfolding length_replicate by fastforce

text \<open>
  C5: the compressor stays inside its buffers and its output is never longer than
  \<open>n + n / 16 + 4\<close> bytes, so the documented buffer has 63 bytes in reserve; it returns
  \<open>LZO_E_OK\<close> on every input.
\<close>

theorem lzo1x_1_compress_in_bounds:
  assumes "length inb + length inb div 16 + 64 + 3 \<le> length out"
  shows "\<exists>n out'. lzo1x_1_compress addr inb out = Some (LZO_E_OK, n, out') \<and>
    length out' = length out \<and> 3 \<le> n \<and> n \<le> length inb + length inb div 16 + 4"
proof -
  obtain out' bs js where "lzo1x_1_compress addr inb out =
      Some (LZO_E_OK, length (enc_stream bs js), out')" "length out' = length out"
      "length (enc_stream bs js) \<le> length inb + length inb div 16 + 4"
    using compress_stream [OF assms, of addr] by blast
  then show ?thesis
    using enc_stream_length [of bs js] by blast
qed

theorem lzo1x_1_compress_in_bounds_witness:
  "\<exists>n out'. lzo1x_1_compress 0 [] (replicate 67 0) = Some (LZO_E_OK, n, out') \<and> n \<le> 4"
  using lzo1x_1_compress_in_bounds [of "[]" "replicate 67 0" 0] by auto

end
