(* ===== verification/LzoBuilds.thy ===== *)
theory LzoBuilds
  imports LzoStream
begin

text \<open>
  The two builds of the decompressor text, with and without \<open>LZO_TEST_OVERRUN\<close>, agree on
  every input the checked one accepts: its checks only reject, they never change what a
  step does.
\<close>

definition refines :: "(halt + 'a) \<Rightarrow> (halt + 'a) \<Rightarrow> bool" where
  "refines r r' \<longleftrightarrow> (\<forall>x. r = Inr x \<longrightarrow> r' = Inr x) \<and>
     (\<forall>p. r = Inl (Eof_found p) \<longrightarrow> r' = Inl (Eof_found p))"

lemma refines_refl [intro]: "refines r r"
  by (simp add: refines_def)

lemma refines_need:
  "\<lbrakk> b \<Longrightarrow> b'; \<And>p. h \<noteq> Eof_found p; refines k k' \<rbrakk> \<Longrightarrow> refines (need b h k) (need b' h' k')"
  by (auto simp: refines_def need_def)

lemma refines_fetch: "(\<And>v. refines (k v) (k' v)) \<Longrightarrow> refines (fetch x k) (fetch x k')"
  by (cases x) (auto simp: fetch_def)

lemma refines_if: "refines a a' \<Longrightarrow> refines b b' \<Longrightarrow> refines (if c then a else b) (if c then a' else b')"
  by simp

lemma refines_bind:
  assumes "refines r r'" "\<And>t ip. refines (k t ip) (k' t ip)"
  shows "refines (case r of Inl h \<Rightarrow> Inl h | Inr (t, ip) \<Rightarrow> k t ip)
    (case r' of Inl h \<Rightarrow> Inl h | Inr (t, ip) \<Rightarrow> k' t ip)"
  using assms by (cases r) (auto simp: refines_def)

lemma no_checks [simp]:
  "need_ip False inb ip x" "need_op False oe p x" "test_lb False p m" "test_iv False x"
  by (simp_all add: need_ip_def need_op_def test_lb_def test_iv_def)

lemma refines_zero_run:
  "(\<And>p. h \<noteq> Eof_found p) \<Longrightarrow> refines (zero_run True inb h base t ip) (zero_run False inb h base t ip)"
proof (induction "True" inb h base t ip rule: zero_run.induct)
  case (1 inb h base t ip)
  show ?case
  proof (cases "load inb ip")
    case None
    then show ?thesis
      by (simp add: zero_run.simps [of _ inb h base t ip] refines_def)
  next
    case (Some b)
    show ?thesis
    proof (cases "b = 0 \<and> test_iv True (wrap64 (t + 255)) \<and> need_ip True inb (ip + 1) 1")
      case True
      then show ?thesis
        using "1.hyps" [OF Some _ refl refl] "1.prems" Some
        by (simp add: zero_run.simps [of _ inb h base t ip] Let_def)
    next
      case False
      then show ?thesis
        using Some "1.prems"
        by (auto simp: zero_run.simps [of _ inb h base t ip] refines_def Let_def)
    qed
  qed
qed

lemmas refines_intros =
  refines_need refines_fetch refines_if refines_bind refines_zero_run refines_refl

lemma refines_long_match: "refines (long_match True oe s m) (long_match False oe s m)"
  unfolding long_match_def Let_def by (intro refines_intros) simp_all

lemma refines_literal_run:
  "refines (literal_run True inb oe t ip s) (literal_run False inb oe t ip s)"
  unfolding literal_run_def Let_def by (intro refines_intros) simp_all

lemma refines_main_loop: "refines (main_loop True inb oe s) (main_loop False inb oe s)"
  unfolding main_loop_def Let_def
  by (intro refines_intros refines_literal_run) simp_all

lemma refines_first_literal_run:
  "refines (first_literal_run True inb oe s) (first_literal_run False inb oe s)"
  unfolding first_literal_run_def Let_def by (intro refines_intros) simp_all

lemma refines_match_step: "refines (match_step True inb oe s) (match_step False inb oe s)"
  unfolding match_step_def match_m1_def match_m2_def match_m3_def match_m4_def Let_def
  by (intro refines_intros refines_long_match) simp_all

lemma refines_match_next: "refines (match_next True inb oe s) (match_next False inb oe s)"
  unfolding match_next_def Let_def by (intro refines_intros) simp_all

lemma refines_dstep: "refines (dstep True inb oe s) (dstep False inb oe s)"
  by (cases "d_lab s") (auto simp: dstep_def refines_main_loop refines_first_literal_run
      refines_match_step refines_match_next)

lemma drun_unchecked:
  "drun True inb oe s = (Eof_found p, s') \<Longrightarrow> drun False inb oe s = (Eof_found p, s')"
proof (induction "True" inb oe s rule: drun.induct)
  case (1 inb oe s)
  note step = drun.simps [of _ inb oe s]
  have r: "refines (dstep True inb oe s) (dstep False inb oe s)"
    by (rule refines_dstep)
  show ?case
  proof (cases "dstep True inb oe s")
    case (Inl h)
    then have "h = Eof_found p" "s' = s"
      using "1.prems" by (simp_all add: step)
    then show ?thesis
      using Inl r by (simp add: step refines_def)
  next
    case (Inr s1)
    then have "drun True inb oe s1 = (Eof_found p, s')"
      using "1.prems" by (simp add: step)
    then show ?thesis
      using "1.hyps" [OF Inr] Inr r by (simp add: step refines_def)
  qed
qed

lemma refines_dstart: "refines (dstart True inb oe out) (dstart False inb oe out)"
  unfolding dstart_def Let_def by (intro refines_intros) simp_all

lemma checked_ok:
  assumes "do_decompress True inb out out_len = Result code n out'"
    and "code = LZO_E_OK \<or> code = LZO_E_INPUT_NOT_CONSUMED"
  shows "do_decompress False inb out out_len = Result code n out'"
proof -
  have start: "refines (dstart True inb out_len out) (dstart False inb out_len out)"
    by (rule refines_dstart)
  show ?thesis
  proof (cases "dstart True inb out_len out")
    case (Inl h)
    then show ?thesis
      using assms start by (cases h) (auto simp: do_decompress_def refines_def split: if_splits)
  next
    case (Inr s)
    then have f: "dstart False inb out_len out = Inr s"
      using start by (simp add: refines_def)
    obtain h s' where d: "drun True inb out_len s = (h, s')"
      by fastforce
    then obtain p where "h = Eof_found p"
      using assms Inr by (cases h) (auto simp: do_decompress_def)
    then show ?thesis
      using assms(1) Inr f d drun_unchecked [of inb out_len s p s'] by (simp add: do_decompress_def)
  qed
qed

text \<open>
  C4: whatever stream the checked decompressor accepts, completely or up to trailing bytes,
  the unchecked one decodes to the same code, length and output memory.
\<close>

theorem decompress_builds_agree:
  assumes "lzo1x_decompress_safe inb out out_len = Result code n out'"
    and "code = LZO_E_OK \<or> code = LZO_E_INPUT_NOT_CONSUMED"
  shows "lzo1x_decompress inb out out_len = Result code n out'"
  using checked_ok assms unfolding lzo1x_decompress_safe_def lzo1x_decompress_def .

theorem decompress_builds_agree_witness:
  "\<exists>out'. lzo1x_decompress [18, 65, 17, 0, 0] [0] 1 = Result LZO_E_OK 1 out'"
proof -
  have e: "[18, 65, 17, 0, 0] = enc_stream [65] []"
    by (simp add: enc_stream_def enc_start_def eof_marker_def byte_of_def)
  then have "length (enc_stream [65] []) < 2 ^ 63"
    by (simp flip: e)
  with e obtain out' where "lzo1x_decompress_safe [18, 65, 17, 0, 0] [0] 1 = Result LZO_E_OK 1 out'"
    using decompress_stream [of "[65]" "[]" 1 "[0]" True]
    by (auto simp: lzo1x_decompress_safe_def wf_stream_def)
  then show ?thesis
    using decompress_builds_agree [of "[18, 65, 17, 0, 0]" "[0]" 1 LZO_E_OK 1 out'] by blast
qed

end
