(* ===== verification/LzoSupport.thy ===== *)
theory LzoSupport
  imports Memory LzoDecompress "HOL-Library.Monad_Syntax"
begin

text \<open>
  The supporting routines of \<^verbatim>\<open>minilzo.c\<close>: \<open>lzo_adler32\<close> in 32-bit arithmetic with its
  unrolled loops and its specification over the integers, the bit scans, and the start-up
  check \<open>_lzo_config_check\<close> with \<open>__lzo_init_v2\<close>.
\<close>

section \<open>The Adler-32 checksum\<close>

definition LZO_BASE :: u32 where "LZO_BASE = 65521"
definition LZO_NMAX :: nat where "LZO_NMAX = 5552"

text \<open>\<open>LZO_DO1\<close>; \<open>LZO_DO16\<close> is sixteen of them.\<close>

definition adler_do1 :: "u32 \<times> u32 \<Rightarrow> u8 \<Rightarrow> u32 \<times> u32" where
  "adler_do1 = (\<lambda>(s1, s2) b. (s1 + ucast b, s2 + (s1 + ucast b)))"

definition adler_do16 :: "u32 \<times> u32 \<Rightarrow> u8 list \<Rightarrow> u32 \<times> u32" where
  "adler_do16 s buf = foldl adler_do1 s (take 16 buf)"

fun adler_unrolled :: "nat \<Rightarrow> u8 list \<Rightarrow> u32 \<times> u32 \<Rightarrow> nat \<times> u8 list \<times> (u32 \<times> u32)" where
  "adler_unrolled k buf s =
     (if k \<ge> 16 then adler_unrolled (k - 16) (drop 16 buf) (adler_do16 s buf) else (k, buf, s))"

declare adler_unrolled.simps [simp del]

fun adler_rest :: "nat \<Rightarrow> u8 list \<Rightarrow> u32 \<times> u32 \<Rightarrow> u8 list \<times> (u32 \<times> u32)" where
  "adler_rest (Suc k) (b # buf) s = adler_rest k buf (adler_do1 s b)"
| "adler_rest _ buf s = (buf, s)"

function adler_loop :: "nat \<Rightarrow> u8 list \<Rightarrow> u32 \<times> u32 \<Rightarrow> u32 \<times> u32" where
  "adler_loop len buf s =
     (if len > 0 then
        let k = (if len < LZO_NMAX then len else LZO_NMAX);
            (k', buf', s') = adler_unrolled k buf s;
            (buf'', s1, s2) = adler_rest k' buf' s' in
        adler_loop (len - k) buf'' (s1 mod LZO_BASE, s2 mod LZO_BASE)
      else s)"
  by pat_completeness auto
termination
  by (relation "measure (\<lambda>(len, buf, s). len)") (auto simp: LZO_NMAX_def)

declare adler_loop.simps [simp del]

definition lzo_adler32 :: "u32 \<Rightarrow> u8 list option \<Rightarrow> u32" where
  "lzo_adler32 adler buf =
     (case buf of None \<Rightarrow> 1
      | Some bs \<Rightarrow>
          let (s1, s2) = adler_loop (length bs) bs (adler AND 0xffff, drop_bit 16 adler AND 0xffff) in
          push_bit 16 s2 OR s1)"

text \<open>
  The specification, without a bound on the numbers: the sum of the bytes and the sum of
  the partial sums, reduced once at the end.
\<close>

definition sum1 :: "nat \<Rightarrow> u8 list \<Rightarrow> nat" where
  "sum1 a bs = foldl (\<lambda>a b. a + unat b) a bs"

definition sum2 :: "nat \<times> nat \<Rightarrow> u8 list \<Rightarrow> nat \<times> nat" where
  "sum2 = foldl (\<lambda>(a, c) b. (a + unat b, c + (a + unat b)))"

definition adler_spec :: "nat \<times> nat \<Rightarrow> u8 list \<Rightarrow> nat" where
  "adler_spec s bs = (let (a, c) = sum2 s bs in 65536 * (c mod 65521) + a mod 65521)"

lemma sum2_simps [simp]:
  "sum2 s [] = s" "sum2 (a, c) (b # bs) = sum2 (a + unat b, c + (a + unat b)) bs"
  by (simp_all add: sum2_def)

lemma sum2_append: "sum2 s (xs @ ys) = sum2 (sum2 s xs) ys"
  by (simp add: sum2_def)

lemma adler_unrolled_fold:
  "k \<le> length buf \<Longrightarrow> adler_unrolled k buf s = (k', buf', s') \<Longrightarrow>
    k' \<le> k \<and> k' \<le> length buf' \<and> s' = foldl adler_do1 s (take (k - k') buf) \<and> buf' = drop (k - k') buf"
proof (induction k buf s rule: adler_unrolled.induct)
  case (1 k buf s)
  show ?case
  proof (cases "k \<ge> 16")
    case True
    then have e: "adler_unrolled (k - 16) (drop 16 buf) (adler_do16 s buf) = (k', buf', s')"
      using "1.prems"(2) by (subst (asm) adler_unrolled.simps) simp
    have le: "k - 16 \<le> length (drop 16 buf)"
      using "1.prems"(1) by simp
    have IH: "k' \<le> k - 16 \<and> k' \<le> length buf' \<and>
        s' = foldl adler_do1 (adler_do16 s buf) (take (k - 16 - k') (drop 16 buf)) \<and>
        buf' = drop (k - 16 - k') (drop 16 buf)"
      using "1.IH" [OF True le e] .
    then have "k' \<le> k - 16" by blast
    then have n: "k - k' = 16 + (k - 16 - k')"
      using True by linarith
    have t: "take (k - k') buf = take 16 buf @ take (k - 16 - k') (drop 16 buf)"
      "drop (k - k') buf = drop (k - 16 - k') (drop 16 buf)"
      using take_add [of 16 "k - 16 - k'" buf] unfolding n by (simp_all add: add.commute)
    show ?thesis
      using IH unfolding t by (auto simp: adler_do16_def)
  next
    case False
    then show ?thesis
      using "1.prems" by (subst (asm) adler_unrolled.simps) simp
  qed
qed

lemma adler_rest_fold:
  "k \<le> length buf \<Longrightarrow> adler_rest k buf s = (drop k buf, foldl adler_do1 s (take k buf))"
  by (induction k buf s rule: adler_rest.induct) auto

lemma adler_block:
  assumes "k \<le> length buf" "adler_unrolled k buf s = (k', buf', s')"
  shows "adler_rest k' buf' s' = (drop k buf, foldl adler_do1 s (take k buf))"
proof -
  have u: "k' \<le> k" "k' \<le> length buf'" "s' = foldl adler_do1 s (take (k - k') buf)"
    "buf' = drop (k - k') buf"
    using adler_unrolled_fold [OF assms] by blast+
  have t: "take k buf = take (k - k') buf @ take k' buf'" "drop k buf = drop k' buf'"
    using take_add [of "k - k'" k' buf] u(1,4) by (simp_all add: add.commute)
  show ?thesis
    using adler_rest_fold [OF u(2), of s'] unfolding t u(3) by simp
qed

text \<open>
  No overflow within a block of \<open>LZO_NMAX\<close> bytes, even for start values up to 65535.
\<close>

lemma foldl_do1_exact:
  assumes "unat s1 = a" "unat s2 = c" "a + 255 * length bs < 2 ^ 32"
    and "2 * (c + a * length bs) + 255 * (length bs * (length bs + 1)) < 2 ^ 33"
    and "foldl adler_do1 (s1, s2) bs = (t1, t2)"
  shows "(unat t1, unat t2) = sum2 (a, c) bs"
  using assms
proof (induction bs arbitrary: s1 s2 a c)
  case Nil
  then show ?case by simp
next
  case (Cons b bs)
  let ?a = "a + unat b" and ?n = "length bs"
  have b: "unat (ucast b :: u32) = unat b"
    by (simp add: unsigned_ucast_eq take_bit_nat_eq_self order.strict_trans [OF unat_u8_less])
  have u: "unat b \<le> 255" by simp
  have s1: "unat (s1 + ucast b) = ?a"
  proof -
    have "?a < 2 ^ 32"
      using Cons.prems(3) u by (simp del: unat_u8_le)
    then show ?thesis
      using Cons.prems(1) b by (simp add: unat_word_ariths)
  qed
  have "unat b * (?n + 1) \<le> 255 * (?n + 1)"
    using u by (rule mult_le_mono1)
  then have le: "2 * (c + ?a + ?a * ?n) + 255 * (?n * (?n + 1)) < 2 ^ 33"
    using Cons.prems(4) by (simp add: algebra_simps)
  then have "2 * (c + ?a) < 2 ^ 33"
    by (simp add: algebra_simps)
  then have s2: "unat (s2 + (s1 + ucast b)) = c + ?a"
    using Cons.prems(2) s1 by (simp add: unat_word_ariths)
  show ?case
    using Cons.IH [OF s1 s2 _ le] Cons.prems(3,5) u by (simp add: adler_do1_def del: unat_u8_le)
qed

lemma block_bound:
  assumes "a < 65536" "c < 65536" "n \<le> 5552"
  shows "a + 255 * n < (2 :: nat) ^ 32" "2 * (c + a * n) + 255 * (n * (n + 1)) < (2 :: nat) ^ 33"
proof -
  have "a * n \<le> 65535 * 5552"
    using assms by (intro mult_le_mono) simp_all
  moreover have "n * (n + 1) \<le> 5552 * 5553"
    using assms by (intro mult_le_mono) simp_all
  ultimately show "a + 255 * n < (2 :: nat) ^ 32" "2 * (c + a * n) + 255 * (n * (n + 1)) < (2 :: nat) ^ 33"
    using assms by simp_all
qed

lemma sum2_cong:
  "a mod m = a' mod m \<Longrightarrow> c mod m = c' mod m \<Longrightarrow>
    fst (sum2 (a, c) bs) mod m = fst (sum2 (a', c') bs) mod m \<and>
    snd (sum2 (a, c) bs) mod m = snd (sum2 (a', c') bs) mod m"
proof (induction bs arbitrary: a c a' c')
  case (Cons b bs)
  have 1: "(a + unat b) mod m = (a' + unat b) mod m"
    using Cons.prems(1) by (rule mod_add_cong) (rule refl)
  have "(c + (a + unat b)) mod m = (c' + (a' + unat b)) mod m"
    using Cons.prems(2) 1 by (rule mod_add_cong)
  from Cons.IH [OF 1 this] show ?case
    unfolding sum2_simps .
qed simp

lemma sum2_mod:
  "fst (sum2 (a mod m, c mod m) bs) mod m = fst (sum2 (a, c) bs) mod m \<and>
   snd (sum2 (a mod m, c mod m) bs) mod m = snd (sum2 (a, c) bs) mod m"
  by (rule sum2_cong) (rule mod_mod_trivial)+

lemma adler_loop_spec:
  assumes "len = length buf" "unat s1 < 65536" "unat s2 < 65536" "adler_loop len buf (s1, s2) = (t1, t2)"
    and "buf \<noteq> [] \<or> unat s1 < 65521 \<and> unat s2 < 65521"
  shows "unat t1 = fst (sum2 (unat s1, unat s2) buf) mod 65521 \<and>
    unat t2 = snd (sum2 (unat s1, unat s2) buf) mod 65521"
  using assms
proof (induction len arbitrary: buf s1 s2 rule: less_induct)
  case (less len)
  show ?case
  proof (cases "buf = []")
    case True
    then show ?thesis
      using less.prems by (subst (asm) adler_loop.simps) simp
  next
    case False
    let ?k = "if len < LZO_NMAX then len else LZO_NMAX"
    have k: "?k \<le> length buf" "?k \<le> 5552" "0 < ?k"
      using less.prems(1) False by (auto simp: LZO_NMAX_def)
    obtain k' buf' s' where u: "adler_unrolled ?k buf (s1, s2) = (k', buf', s')"
      by (metis prod_cases3)
    obtain m1 m2 where m: "foldl adler_do1 (s1, s2) (take ?k buf) = (m1, m2)"
      by fastforce
    have r: "adler_rest k' buf' s' = (drop ?k buf, m1, m2)"
      using adler_block [OF k(1) u] m by simp
    have "length (take ?k buf) = ?k"
      using k(1) by simp
    then have exact: "(unat m1, unat m2) = sum2 (unat s1, unat s2) (take ?k buf)"
      using foldl_do1_exact [OF refl refl _ _ m] block_bound [OF less.prems(2,3) k(2)]
      by (simp only:)
    have next_round: "adler_loop (len - ?k) (drop ?k buf) (m1 mod LZO_BASE, m2 mod LZO_BASE) = (t1, t2)"
      using less.prems(1,4) False u r by (subst (asm) adler_loop.simps) (simp add: Let_def)
    have base: "unat (m mod LZO_BASE) = unat m mod 65521" for m
      by (simp add: LZO_BASE_def unat_mod)
    have lt: "unat (m mod LZO_BASE) < 65521" for m
      unfolding base by simp
    have "len - ?k < len" "len - ?k = length (drop ?k buf)"
      using k less.prems(1) by simp_all
    from less.IH [OF this _ _ next_round] lt [of m1] lt [of m2]
    have "unat t1 = fst (sum2 (unat m1 mod 65521, unat m2 mod 65521) (drop ?k buf)) mod 65521 \<and>
        unat t2 = snd (sum2 (unat m1 mod 65521, unat m2 mod 65521) (drop ?k buf)) mod 65521"
      by (simp add: base)
    moreover have "sum2 (unat s1, unat s2) buf = sum2 (unat m1, unat m2) (drop ?k buf)"
      using sum2_append [of "(unat s1, unat s2)" "take ?k buf" "drop ?k buf"] exact
      by (simp only: append_take_drop_id)
    ultimately show ?thesis
      using sum2_mod [of "unat m1" 65521 "unat m2" "drop ?k buf"] by simp
  qed
qed

lemma adler32_word:
  assumes "unat s1 < 65536" "unat s2 < 65536"
  shows "unat (push_bit 16 s2 OR s1 :: u32) = 65536 * unat s2 + unat s1"
proof -
  have "push_bit 16 s2 AND s1 = 0"
  proof (rule bit_word_eqI)
    fix n assume "n < LENGTH(32)"
    have "\<not> bit s1 n" if "16 \<le> n"
    proof -
      have "take_bit 16 (unat s1) = unat s1"
        using assms(1) by (simp add: take_bit_nat_eq_self)
      then have "\<not> bit (unat s1) n"
        using that bit_take_bit_iff [of 16 "unat s1" n] by auto
      then show ?thesis
        by (simp add: bit_unsigned_iff)
    qed
    then show "bit (push_bit 16 s2 AND s1) n = bit 0 n"
      by (auto simp: bit_and_iff bit_push_bit_iff)
  qed
  then have "push_bit 16 s2 OR s1 = push_bit 16 s2 + s1"
    by (simp add: disjunctive_add_eq_or)
  also have "unat (push_bit 16 s2 + s1) = 65536 * unat s2 + unat s1"
    using assms by (simp add: push_bit_eq_mult unat_word_ariths)
  finally show ?thesis .
qed

text \<open>
  C8: \<open>lzo_adler32\<close> of a non-empty buffer is the Adler-32 checksum continued from the two
  halves of the given value: no intermediate sum overflows 32 bits, although the code
  reduces only every 5552 bytes.
\<close>

theorem adler32_correct:
  assumes "bs \<noteq> []"
  shows "unat (lzo_adler32 adler (Some bs)) =
    adler_spec (unat adler mod 65536, unat adler div 65536) bs"
proof -
  let ?s1 = "adler AND 0xffff" and ?s2 = "drop_bit 16 adler AND 0xffff"
  obtain t1 t2 where t: "adler_loop (length bs) bs (?s1, ?s2) = (t1, t2)"
    by fastforce
  have m: "w AND 0xffff = take_bit 16 w" for w :: u32
    by (simp add: take_bit_eq_mask mask_eq_exp_minus_1)
  have d: "unat adler div 65536 < 65536"
  proof (rule less_mult_imp_div_less)
    show "unat adler < 65536 * 65536"
      using unsigned_less [where w = adler] by (rule order.strict_trans2) simp
  qed
  have h: "unat ?s1 = unat adler mod 65536" "unat ?s2 = unat adler div 65536"
    using d unfolding m
    by (simp_all only: unsigned_take_bit_eq unsigned_drop_bit_eq)
      (simp_all add: take_bit_eq_mod drop_bit_eq_div)
  then have lt: "unat ?s1 < 65536" "unat ?s2 < 65536"
    using d by simp_all
  have r: "unat t1 = fst (sum2 (unat ?s1, unat ?s2) bs) mod 65521"
      "unat t2 = snd (sum2 (unat ?s1, unat ?s2) bs) mod 65521"
    using adler_loop_spec [OF refl lt t] assms by simp_all
  then have "unat t1 < 65536" "unat t2 < 65536"
    by (simp_all add: order.strict_trans [OF mod_less_divisor])
  from adler32_word [OF this] show ?thesis
    using t r h by (simp add: lzo_adler32_def adler_spec_def case_prod_beta)
qed

theorem adler32_correct_witness:
  "unat (lzo_adler32 1 (Some [97])) = adler_spec (1, 0) [97]"
  using adler32_correct [of "[97]" 1] by simp

section \<open>Bit scans\<close>

text \<open>\<open>__builtin_clz*\<close> and \<open>__builtin_ctz*\<close>, undefined in C for the argument 0.\<close>

definition builtin_clz :: "'a::len word \<Rightarrow> nat" where
  "builtin_clz v = length (takeWhile (\<lambda>i. \<not> bit v (LENGTH('a) - 1 - i)) [0..<LENGTH('a)])"

definition builtin_ctz :: "'a::len word \<Rightarrow> nat" where
  "builtin_ctz v = length (takeWhile (\<lambda>i. \<not> bit v i) [0..<LENGTH('a)])"

definition lzo_bitops_ctlz32_func :: "u32 \<Rightarrow> nat" where
  "lzo_bitops_ctlz32_func v = builtin_clz v"

definition lzo_bitops_ctlz64_func :: "u64 \<Rightarrow> nat" where
  "lzo_bitops_ctlz64_func v = builtin_clz v"

definition lzo_bitops_cttz32_func :: "u32 \<Rightarrow> nat" where
  "lzo_bitops_cttz32_func v = builtin_ctz v"

definition lzo_bitops_cttz64_func :: "u64 \<Rightarrow> nat" where
  "lzo_bitops_cttz64_func v = builtin_ctz v"

lemma length_takeWhile_less: "k < n \<Longrightarrow> length (takeWhile (\<lambda>i. i \<noteq> k) [0..<n]) = k"
proof -
  assume k: "k < n"
  have "[0..<n] = [0..<k] @ k # [Suc k..<n]"
    using k by (metis le0 less_imp_le upt_add_eq_append upt_conv_Cons add_0 le_add_diff_inverse)
  moreover have "takeWhile (\<lambda>i. i \<noteq> k) ([0..<k] @ k # [Suc k..<n]) = [0..<k]"
    by (subst takeWhile_append2) auto
  ultimately show ?thesis by simp
qed

lemma bit_pow: "i < LENGTH('a) \<Longrightarrow> bit (2 ^ i :: 'a::len word) j \<longleftrightarrow> j = i"
  by (auto simp: bit_exp_iff)

lemma builtin_ctz_pow: "i < LENGTH('a) \<Longrightarrow> builtin_ctz (2 ^ i :: 'a::len word) = i"
  by (simp add: builtin_ctz_def bit_pow length_takeWhile_less)

lemma builtin_clz_pow:
  assumes "i < LENGTH('a)"
  shows "builtin_clz (2 ^ i :: 'a::len word) = LENGTH('a) - 1 - i"
proof -
  have "takeWhile (\<lambda>j. \<not> bit (2 ^ i :: 'a word) (LENGTH('a) - 1 - j)) [0..<LENGTH('a)] =
      takeWhile (\<lambda>j. j \<noteq> LENGTH('a) - 1 - i) [0..<LENGTH('a)]"
    using assms by (intro takeWhile_cong) (auto simp: bit_pow)
  then show ?thesis
    using assms by (simp add: builtin_clz_def length_takeWhile_less)
qed

section \<open>The start-up check\<close>

text \<open>
  \<open>for (v = 1; v != 0 && r == 1; v <<= 1, i++) r &= P v i\<close>: \<open>v\<close> becomes 0 after as many
  rounds as it has bits.
\<close>

definition bit_scan_loop :: "('a::len word \<Rightarrow> nat \<Rightarrow> bool) \<Rightarrow> bool \<Rightarrow> bool" where
  "bit_scan_loop P r =
     foldl (\<lambda>r i. if r then P (push_bit i 1) i else r) r [0..<LENGTH('a)]"

lemma bit_scan_loop_True:
  assumes "\<And>i. i < LENGTH('a::len) \<Longrightarrow> P (push_bit i (1 :: 'a word)) i"
  shows "bit_scan_loop P r = r"
proof -
  have "\<forall>i \<in> set xs. f r i = r \<Longrightarrow> foldl f r xs = r" for f :: "bool \<Rightarrow> nat \<Rightarrow> bool" and xs
    by (induction xs) simp_all
  then show ?thesis
    using assms by (simp add: bit_scan_loop_def)
qed

text \<open>
  \<open>_lzo_config_check\<close> on the 64-bit little-endian target: the 16 bytes of the union, read
  at the address of its second byte.
\<close>

definition lzo_config_check :: "lzo_code option" where
  "lzo_config_check = do {
     let z = replicate 16 (0 :: u8);
     b \<leftarrow> load z 0;
     let r = (b = 0);
     x \<leftarrow> get_le64 (z[0 := 128]) 0;
     let r = (r \<and> x = 128);
     let u = z[0 := 1, 3 := 2];
     ne \<leftarrow> get_le16 u 1;
     le \<leftarrow> get_le16 u 1;
     let r = (r \<and> ne = 0 \<and> le = 0);
     let u = u[1 := 128];
     le \<leftarrow> get_le16 u 1;
     let r = (r \<and> le = 128);
     let u = u[2 := 129];
     le \<leftarrow> get_le16 u 1;
     ne \<leftarrow> get_le16 u 1;
     let r = (r \<and> le = 0x8180 \<and> ne = 0x8180);
     let u = z[0 := 3, 5 := 4];
     ne \<leftarrow> get_le32 u 1;
     le \<leftarrow> get_le32 u 1;
     let r = (r \<and> ne = 0 \<and> le = 0);
     let u = u[1 := 128];
     le \<leftarrow> get_le32 u 1;
     let r = (r \<and> le = 128);
     let u = u[2 := 129, 3 := 130, 4 := 131];
     le \<leftarrow> get_le32 u 1;
     ne \<leftarrow> get_le32 u 1;
     let r = (r \<and> le = 0x83828180 \<and> ne = 0x83828180);
     let u = z;
     ne \<leftarrow> get_le64 u 1;
     le \<leftarrow> get_le64 u 1;
     let r = (r \<and> ne = 0 \<and> le = 0);
     let u = u[1 := 128];
     le \<leftarrow> get_le64 u 1;
     let r = (r \<and> le = 128);
     let r = bit_scan_loop (\<lambda>v i. builtin_clz (v :: u32) = 31 - i \<and> lzo_bitops_ctlz32_func v = 31 - i) r;
     let r = bit_scan_loop (\<lambda>v i. builtin_clz (v :: u64) = 63 - i \<and> lzo_bitops_ctlz64_func v = 63 - i) r;
     let r = bit_scan_loop (\<lambda>v i. builtin_ctz (v :: u32) = i \<and> lzo_bitops_cttz32_func v = i) r;
     let r = bit_scan_loop (\<lambda>v i. builtin_ctz (v :: u64) = i \<and> lzo_bitops_cttz64_func v = i) r;
     Some (if r then LZO_E_OK else LZO_E_ERROR) }"

text \<open>
  The sizes \<open>__lzo_init_v2\<close> compares, on an LP64 target: \<open>short\<close>, \<open>int\<close>, \<open>long\<close>,
  \<open>lzo_uint32_t\<close>, \<open>lzo_uint\<close>, the dictionary entry of the public header (a pointer),
  \<open>char *\<close>, \<open>lzo_voidp\<close> and \<open>lzo_callback_t\<close> (four pointers and two \<open>lzo_xint\<close>).
\<close>

definition lp64_sizes :: "int list" where
  "lp64_sizes = [2, 4, 8, 4, 8, 8, 8, 8, 48]"

definition lzo_init_v2 :: "nat \<Rightarrow> int list \<Rightarrow> lzo_code option" where
  "lzo_init_v2 v ss =
     (if v = 0 then Some LZO_E_ERROR
      else if \<not> list_all2 (\<lambda>s size. s = -1 \<or> s = size) ss lp64_sizes then Some LZO_E_ERROR
      else lzo_config_check)"

lemma bit_scans_pass:
  "bit_scan_loop (\<lambda>v i. builtin_clz (v :: u32) = 31 - i \<and> lzo_bitops_ctlz32_func v = 31 - i) r = r"
  "bit_scan_loop (\<lambda>v i. builtin_clz (v :: u64) = 63 - i \<and> lzo_bitops_ctlz64_func v = 63 - i) r = r"
  "bit_scan_loop (\<lambda>v i. builtin_ctz (v :: u32) = i \<and> lzo_bitops_cttz32_func v = i) r = r"
  "bit_scan_loop (\<lambda>v i. builtin_ctz (v :: u64) = i \<and> lzo_bitops_cttz64_func v = i) r = r"
  by (rule bit_scan_loop_True,
      simp add: lzo_bitops_ctlz32_func_def lzo_bitops_ctlz64_func_def lzo_bitops_cttz32_func_def
        lzo_bitops_cttz64_func_def builtin_clz_pow builtin_ctz_pow)+

lemma config_slices:
  "load_n 8 ((replicate 16 0)[0 := 128]) 0 = Some [128, 0, 0, 0, 0, 0, 0, 0]"
  "load_n 2 ((replicate 16 0)[0 := 1, 3 := 2]) 1 = Some [0, 0]"
  "load_n 2 ((replicate 16 0)[0 := 1, 3 := 2, 1 := 128]) 1 = Some [128, 0]"
  "load_n 2 ((replicate 16 0)[0 := 1, 3 := 2, 1 := 128, 2 := 129]) 1 = Some [128, 129]"
  "load_n 4 ((replicate 16 0)[0 := 3, 5 := 4]) 1 = Some [0, 0, 0, 0]"
  "load_n 4 ((replicate 16 0)[0 := 3, 5 := 4, 1 := 128]) 1 = Some [128, 0, 0, 0]"
  "load_n 4 ((replicate 16 0)[0 := 3, 5 := 4, 1 := 128, 2 := 129, 3 := 130, 4 := 131]) 1 =
    Some [128, 129, 130, 131]"
  "load_n 8 (replicate 16 0) 1 = Some [0, 0, 0, 0, 0, 0, 0, 0]"
  "load_n 8 ((replicate 16 0)[1 := 128]) 1 = Some [128, 0, 0, 0, 0, 0, 0, 0]"
  by code_simp+

lemma config_loads:
  "load (replicate 16 0) 0 = Some 0"
  "get_le64 ((replicate 16 0)[0 := 128]) 0 = Some 128"
  "get_le16 ((replicate 16 0)[0 := 1, 3 := 2]) 1 = Some 0"
  "get_le16 ((replicate 16 0)[0 := 1, 3 := 2, 1 := 128]) 1 = Some 128"
  "get_le16 ((replicate 16 0)[0 := 1, 3 := 2, 1 := 128, 2 := 129]) 1 = Some 0x8180"
  "get_le32 ((replicate 16 0)[0 := 3, 5 := 4]) 1 = Some 0"
  "get_le32 ((replicate 16 0)[0 := 3, 5 := 4, 1 := 128]) 1 = Some 128"
  "get_le32 ((replicate 16 0)[0 := 3, 5 := 4, 1 := 128, 2 := 129, 3 := 130, 4 := 131]) 1 =
    Some 0x83828180"
  "get_le64 (replicate 16 0) 1 = Some 0"
  "get_le64 ((replicate 16 0)[1 := 128]) 1 = Some 128"
  unfolding get_le16_def get_le32_def get_le64_def config_slices by (simp_all add: load_def)

lemma config_check_ok: "lzo_config_check = Some LZO_E_OK"
  unfolding lzo_config_check_def Let_def bit_scans_pass
  by (simp only: config_loads Option.bind.bind_lunit simp_thms if_True)

text \<open>
  \<open>__lzo_init_v2\<close> succeeds exactly for a non-zero version and sizes that are either
  unspecified or those of the target; the self-test of the loads and bit scans never fails.
\<close>

theorem init_ok_iff:
  "lzo_init_v2 v ss = Some LZO_E_OK \<longleftrightarrow>
    v \<noteq> 0 \<and> list_all2 (\<lambda>s size. s = -1 \<or> s = size) ss lp64_sizes"
  by (simp add: lzo_init_v2_def config_check_ok)

end
