(* ===== verification/LzoClient.thy ===== *)
theory LzoClient
  imports LzoRoundtrip LzoBuilds LzoSupport
begin

text \<open>
  The C++ class \<open>Lzo\<close> (\<^verbatim>\<open>Lzo.cpp\<close>, \<^verbatim>\<open>Lzo.h\<close>) that the server wraps around minilzo. It
  estimates the sizes of the buffers it allocates, in 32-bit arithmetic, and calls the
  unchecked decompressor. What it needs of the codec is the locale \<open>block_codec\<close>, which
  the model of \<^verbatim>\<open>minilzo.c\<close> implements; \<open>malloc\<close> is a parameter.
\<close>

section \<open>The class\<close>

record lzo =
  mDecompressionMinSize :: nat

definition Lzo_new :: lzo where
  "Lzo_new = \<lparr>mDecompressionMinSize = 0\<rparr>"

definition setBlockSize :: "nat \<Rightarrow> lzo \<Rightarrow> lzo" where
  "setBlockSize n self = self\<lparr>mDecompressionMinSize := n\<rparr>"

text \<open>\<open>Lzo::init\<close> on the static flag \<open>mInit\<close>: the result and the new flag.\<close>

definition Lzo_init :: "bool \<Rightarrow> bool \<times> bool" where
  "Lzo_init mInit =
     (if \<not> mInit then
        if lzo_init_v2 0x2090 lp64_sizes \<noteq> Some LZO_E_OK then (False, mInit) else (True, True)
      else (True, mInit))"

definition compressedSize :: "nat \<Rightarrow> nat" where
  "compressedSize n = wrap32 (n + n div 16 + 64 + 3)"

definition uncompressedSize :: "lzo \<Rightarrow> nat \<Rightarrow> nat" where
  "uncompressedSize self n =
     (let n = (if n > 67 then n - (64 + 3) else n);
          decompressSize = wrap32 (8 * (wrap32 (n * 16) div 17)) in
      if decompressSize < mDecompressionMinSize self then mDecompressionMinSize self
      else decompressSize)"

text \<open>\<open>std::vector::resize\<close>, then the loop that copies the work buffer into the result.\<close>

definition resize :: "nat \<Rightarrow> u8 list \<Rightarrow> u8 list" where
  "resize n v = take n v @ replicate (n - length v) 0"

definition copy_out :: "nat \<Rightarrow> u8 list \<Rightarrow> u8 list \<Rightarrow> u8 list option" where
  "copy_out n buffer outData = byte_loop n (From buffer) (resize n outData) 0 0"

datatype lzo_result = Crash | Returned bool "u8 list"

definition Lzo_compress ::
  "(u8 list \<Rightarrow> u8 list \<Rightarrow> (lzo_code \<times> nat \<times> u8 list) option) \<Rightarrow> (nat \<Rightarrow> u8 list option) \<Rightarrow>
   u8 list \<Rightarrow> u8 list \<Rightarrow> lzo_result" where
  "Lzo_compress enc malloc inData outData =
     (let inDataSize = wrap32 (length inData) in
      case malloc (compressedSize inDataSize) of
        None \<Rightarrow> Returned False outData
      | Some buffer \<Rightarrow>
          (case enc (take inDataSize inData) buffer of
             None \<Rightarrow> Crash
           | Some (rc, outSize, buffer') \<Rightarrow>
               (case copy_out outSize buffer' outData of
                  None \<Rightarrow> Crash
                | Some outData' \<Rightarrow> Returned (rc = LZO_E_OK) outData')))"

definition Lzo_decompress ::
  "(u8 list \<Rightarrow> u8 list \<Rightarrow> nat \<Rightarrow> dresult) \<Rightarrow> (nat \<Rightarrow> u8 list option) \<Rightarrow> lzo \<Rightarrow>
   u8 list \<Rightarrow> u8 list \<Rightarrow> lzo_result" where
  "Lzo_decompress dec malloc self inData outData =
     (let inDataSize = wrap32 (length inData); outSize = uncompressedSize self inDataSize in
      case malloc outSize of
        None \<Rightarrow> Returned False outData
      | Some buffer \<Rightarrow>
          (case dec (take inDataSize inData) buffer outSize of
             Undefined \<Rightarrow> Crash
           | Result rc n buffer' \<Rightarrow>
               (case copy_out n buffer' outData of
                  None \<Rightarrow> Crash
                | Some outData' \<Rightarrow> Returned (rc = LZO_E_OK) outData')))"

section \<open>What the class relies on\<close>

definition malloc_spec :: "(nat \<Rightarrow> u8 list option) \<Rightarrow> bool" where
  "malloc_spec malloc \<longleftrightarrow> (\<forall>n. \<exists>b. malloc n = Some b \<and> length b = n)"

lemma copy_out_take: "n \<le> length buffer \<Longrightarrow> copy_out n buffer outData = Some (take n buffer)"
  by (simp add: copy_out_def byte_loop_from resize_def)

locale block_codec =
  fixes enc :: "u8 list \<Rightarrow> u8 list \<Rightarrow> (lzo_code \<times> nat \<times> u8 list) option"
    and dec :: "u8 list \<Rightarrow> u8 list \<Rightarrow> nat \<Rightarrow> dresult"
  assumes comp_ok: "length xs + length xs div 16 + 64 + 3 \<le> length out \<Longrightarrow> length xs < 2 ^ 32 \<Longrightarrow>
      \<exists>n out'. enc xs out = Some (LZO_E_OK, n, out') \<and> n \<le> length out' \<and> length out' = length out"
    and roundtrip: "enc xs out = Some (LZO_E_OK, n, out') \<Longrightarrow> length xs < 2 ^ 32 \<Longrightarrow>
      length xs + length xs div 16 + 64 + 3 \<le> length out \<Longrightarrow>
      length xs \<le> length dst \<Longrightarrow> length dst < 2 ^ 63 \<Longrightarrow>
      \<exists>dst'. dec (take n out') dst (length dst) = Result LZO_E_OK (length xs) dst' \<and>
        take (length xs) dst' = xs \<and> length dst' = length dst"
begin

lemma client_roundtrip:
  assumes "malloc_spec malloc" "length xs + length xs div 16 + 64 + 3 < 2 ^ 32"
    and "length xs \<le> mDecompressionMinSize self" "mDecompressionMinSize self < 2 ^ 32"
  shows "\<exists>ys. Lzo_compress enc malloc xs out1 = Returned True ys \<and>
    Lzo_decompress dec malloc self ys out2 = Returned True xs"
proof -
  let ?size = "length xs + length xs div 16 + 64 + 3"
  have xs: "length xs < 2 ^ 32"
    using assms(2) by simp
  then have in_size: "wrap32 (length xs) = length xs" and size: "compressedSize (length xs) = ?size"
    using assms(2) by (simp_all add: compressedSize_def)
  obtain b where b: "malloc ?size = Some b" "length b = ?size"
    using assms(1) unfolding malloc_spec_def by blast
  then obtain n b' where c: "enc xs b = Some (LZO_E_OK, n, b')" "n \<le> length b'" "length b' = length b"
    using comp_ok [of xs b] xs by auto
  let ?ys = "take n b'"
  have "Lzo_compress enc malloc xs out1 = Returned True ?ys"
    using b c by (simp add: Lzo_compress_def Let_def in_size size copy_out_take)
  moreover have "length ?ys = n" "n < 2 ^ 32"
    using b(2) c(2,3) assms(2) by simp_all
  moreover
  let ?out = "uncompressedSize self n"
  have out: "length xs \<le> ?out" "?out < 2 ^ 63"
    using assms(3,4) wrap32_def by (auto simp: uncompressedSize_def Let_def)
  obtain d where d: "malloc ?out = Some d" "length d = ?out"
    using assms(1) unfolding malloc_spec_def by blast
  then obtain d' where r: "dec ?ys d ?out = Result LZO_E_OK (length xs) d'"
      "take (length xs) d' = xs" "length d' = length d"
    using roundtrip [OF c(1) xs, of d] b out by auto
  ultimately have "Lzo_decompress dec malloc self ?ys out2 = Returned True xs"
    using d out r by (simp add: Lzo_decompress_def Let_def copy_out_take)
  with \<open>Lzo_compress enc malloc xs out1 = Returned True ?ys\<close> show ?thesis
    by blast
qed

end

text \<open>The model of \<^verbatim>\<open>minilzo.c\<close> is such a codec, with the unchecked decompressor too.\<close>

lemma minilzo_comp_ok:
  assumes "length xs + length xs div 16 + 64 + 3 \<le> length out"
  shows "\<exists>n out'. lzo1x_1_compress addr xs out = Some (LZO_E_OK, n, out') \<and> n \<le> length out' \<and>
    length out' = length out"
proof -
  obtain out' bs js where "lzo1x_1_compress addr xs out = Some (LZO_E_OK, length (enc_stream bs js), out')"
      "length out' = length out" "length (enc_stream bs js) \<le> length xs + length xs div 16 + 4"
    using compress_stream [OF assms, of addr] by blast
  then show ?thesis
    using assms by auto
qed

lemma minilzo_roundtrip:
  assumes "lzo1x_1_compress addr xs out = Some (LZO_E_OK, n, out')" "length xs < 2 ^ 32"
    and "length xs + length xs div 16 + 64 + 3 \<le> length out"
    and "length xs \<le> length dst" "length dst < 2 ^ 63"
  shows "\<exists>dst'. do_decompress safe (take n out') dst (length dst) = Result LZO_E_OK (length xs) dst' \<and>
    take (length xs) dst' = xs \<and> length dst' = length dst"
  using compress_decompress [OF assms(3) _ assms(4) _ assms(5), where addr = addr and safe = safe] assms(1,2)
  by auto

interpretation fast: block_codec "lzo1x_1_compress addr" lzo1x_decompress for addr
  unfolding lzo1x_decompress_def
  by unfold_locales (erule minilzo_comp_ok, erule minilzo_roundtrip, assumption+)

interpretation checked: block_codec "lzo1x_1_compress addr" lzo1x_decompress_safe for addr
  unfolding lzo1x_decompress_safe_def
  by unfold_locales (erule minilzo_comp_ok, erule minilzo_roundtrip, assumption+)

section \<open>Properties\<close>

text \<open>
  C6: what \<open>Lzo::compress\<close> produces, \<open>Lzo::decompress\<close> turns back into the input, provided
  the block size set with \<open>setBlockSize\<close> is at least the size of the input, the size
  estimate does not wrap around in 32 bits, and memory is available.
\<close>

theorem Lzo_roundtrip:
  assumes "malloc_spec malloc" "length xs + length xs div 16 + 64 + 3 < 2 ^ 32"
    and "length xs \<le> block" "block < 2 ^ 32"
  shows "\<exists>ys. Lzo_compress (lzo1x_1_compress addr) malloc xs out1 = Returned True ys \<and>
    Lzo_decompress lzo1x_decompress malloc (setBlockSize block self) ys out2 = Returned True xs"
  using assms by (intro fast.client_roundtrip) (simp_all add: setBlockSize_def)

theorem Lzo_roundtrip_witness:
  "\<exists>ys. Lzo_compress (lzo1x_1_compress 4096) (\<lambda>n. Some (replicate n 0)) [1, 2, 3] [] = Returned True ys \<and>
    Lzo_decompress lzo1x_decompress (\<lambda>n. Some (replicate n 0)) (setBlockSize 3 Lzo_new) ys [9] =
      Returned True [1, 2, 3]"
  using Lzo_roundtrip [of "\<lambda>n. Some (replicate n 0)" "[1, 2, 3]" 3 4096 "[]" Lzo_new "[9]"]
  by (simp add: malloc_spec_def)

text \<open>A byte-wise copy that does not fit its destination is an access outside the buffer.\<close>

lemma byte_loop_overrun: "length d < di + n \<Longrightarrow> 0 < n \<Longrightarrow> byte_loop n s d di si = None"
proof (induction n arbitrary: d di si)
  case (Suc n)
  show ?case
  proof (cases "ua_copy 1 s d di si")
    case (Some d')
    then have "length d' = length d" "di + 1 \<le> length d"
      by (auto simp: ua_copy_def store_eq_Some load_n_eq_Some split: option.splits)
    then have "0 < n" "length d' < di + 1 + n"
      using Suc.prems by auto
    then show ?thesis
      using Some Suc.IH by simp
  qed simp
qed simp

definition bomb :: "u8 list" where
  "bomb = [18, 65, 32, 100, 0, 0, 17, 0, 0]"

lemma bomb_stream: "bomb = enc_stream [65] [Mtch 133 1 []]"
  by (simp add: bomb_def enc_stream_def enc_start_def enc_match_def enc_m3_def eof_marker_def
      run_bytes.simps [of 100] byte_of_def)

lemma bomb_faults:
  assumes "length b = 64"
  shows "lzo1x_decompress bomb b n = Undefined"
proof -
  obtain b1 where b1: "byte_loop 1 (From bomb) b 0 1 = Some b1" "length b1 = 64"
    using byte_copy.from_prefix [of 0 1 b 1 bomb] assms by (auto simp: bomb_def)
  let ?s1 = "\<lparr>d_lab = Match_next, d_ip = 1, d_op = 0, d_t = 1, d_out = b\<rparr>"
  let ?s2 = "\<lparr>d_lab = Match, d_ip = 3, d_op = 1, d_t = 32, d_out = b1\<rparr>"
  have start: "dstart False bomb n b = Inr ?s1"
    by (simp add: dstart_def Let_def bomb_def load_def)
  have "load bomb (Suc (Suc 0)) = Some 32"
    by (simp add: bomb_def load_def)
  then have "dstep False bomb n ?s1 = Inr ?s2"
    using b1(1) by (simp add: dstep_def match_next_def Let_def)
  then have r1: "drun False bomb n ?s1 = drun False bomb n ?s2"
    by (rule drun_step)
  obtain b2 where b2: "byte_loop 2 Self b1 1 0 = Some b2" "length b2 = 64"
    using byte_copy.self_prefix [of 1 2 b1 0] b1(2) by auto
  have over: "do_while_copy 131 Self b2 (Suc (Suc (Suc 0))) (Suc (Suc 0)) = None"
    using b2(2) by (simp add: do_while_copy_def byte_loop_overrun)
  have zr: "zero_run False bomb Output_overrun 31 0 3 = Inr (131, 4)"
    by (subst zero_run.simps) (simp add: bomb_def load_def Let_def)
  have g: "get_le16 bomb 4 = Some 0"
    by (simp add: bomb_def get_le16_Some)
  have "dstep False bomb n ?s2 = Inl Fault"
    using zr g b2(1) over
    by (simp add: dstep_def match_step_def match_m3_def long_match_def copy_match_def Let_def
        fetch_def)
  then have "drun False bomb n ?s2 = (Fault, ?s2)"
    by (subst drun.simps) (simp only: sum.case)
  then show ?thesis
    using start r1 by (simp add: lzo1x_decompress_def do_decompress_def)
qed

text \<open>
  C7: without a block size, \<open>Lzo::decompress\<close> overruns its work buffer: the nine bytes of
  \<open>bomb\<close> are a valid stream of 134 bytes, which the checked decompressor decodes, but the
  estimate is 64 and the class calls the unchecked one.
\<close>

theorem Lzo_decompress_overflow:
  assumes "malloc_spec malloc"
  shows "Lzo_decompress lzo1x_decompress malloc Lzo_new bomb out = Crash \<and>
    (\<exists>d. Lzo_decompress lzo1x_decompress_safe malloc (setBlockSize 134 Lzo_new) bomb out =
      Returned True d \<and> length d = 134)"
proof -
  have n: "wrap32 (length bomb) = 9" "uncompressedSize Lzo_new 9 = 64" "take 9 bomb = bomb"
      "uncompressedSize (setBlockSize 134 Lzo_new) 9 = 134"
    by (simp_all add: bomb_def uncompressedSize_def Lzo_new_def setBlockSize_def Let_def)
  obtain b where b: "malloc 64 = Some b" "length b = 64"
    using assms unfolding malloc_spec_def by blast
  obtain b' where b': "malloc 134 = Some b'" "length b' = 134"
    using assms unfolding malloc_spec_def by blast
  have "wf_stream [65] [Mtch 133 1 []]" "length (expand [65] [Mtch 133 1 []]) = 134"
    by (simp_all add: wf_stream_def)
  moreover have "length (enc_stream [65] [Mtch 133 1 []]) = 9"
    unfolding bomb_stream [symmetric] by (simp add: bomb_def)
  ultimately obtain d where "lzo1x_decompress_safe bomb b' 134 = Result LZO_E_OK 134 d" "length d = 134"
    using decompress_stream [of "[65]" "[Mtch 133 1 []]" 134 b' True] b'
    unfolding bomb_stream [symmetric] lzo1x_decompress_safe_def by auto
  then have "Lzo_decompress lzo1x_decompress_safe malloc (setBlockSize 134 Lzo_new) bomb out =
      Returned True (take 134 d)" "length (take 134 d) = 134"
    using b' n by (simp_all add: Lzo_decompress_def Let_def copy_out_take)
  moreover have "Lzo_decompress lzo1x_decompress malloc Lzo_new bomb out = Crash"
    using b n bomb_faults by (simp add: Lzo_decompress_def Let_def)
  ultimately show ?thesis by blast
qed

theorem Lzo_decompress_overflow_witness:
  "Lzo_decompress lzo1x_decompress (\<lambda>n. Some (replicate n 0)) Lzo_new bomb [] = Crash"
  using Lzo_decompress_overflow [of "\<lambda>n. Some (replicate n 0)" "[]"] by (simp add: malloc_spec_def)

end
