(* ===== verification/CLib.thy ===== *)
theory CLib
  imports Prelude "HOL-Library.Char_ord"
begin

text \<open>
  The parts of the C library that the command-line tools use on strings: \<open>strtol\<close> and
  \<open>strtoul\<close> with base 0 on an LP64 target, the narrowing of \<open>long\<close> to \<open>int\<close>, \<open>fgets\<close>, and the
  conversions of \<open>printf\<close>. A C string is the list of its characters, without the NUL.
\<close>

section \<open>Characters\<close>

definition char_at :: "string \<Rightarrow> nat \<Rightarrow> char" where
  "char_at s i = (if i < length s then s ! i else CHR 0x00)"

definition is_space :: "char \<Rightarrow> bool" where
  "is_space c \<longleftrightarrow> c \<in> {CHR 0x20, CHR 0x09, CHR 0x0A, CHR 0x0B, CHR 0x0C, CHR 0x0D}"

definition digit_val :: "char \<Rightarrow> nat option" where
  "digit_val c =
     (let n = of_char c :: nat in
      if 48 \<le> n \<and> n \<le> 57 then Some (n - 48)
      else if 97 \<le> n \<and> n \<le> 122 then Some (n - 87)
      else if 65 \<le> n \<and> n \<le> 90 then Some (n - 55)
      else None)"

definition is_digit :: "nat \<Rightarrow> char \<Rightarrow> bool" where
  "is_digit base c = (case digit_val c of None \<Rightarrow> False | Some d \<Rightarrow> d < base)"

section \<open>Parsing numbers\<close>

definition digits_value :: "nat \<Rightarrow> string \<Rightarrow> nat" where
  "digits_value base ds = foldl (\<lambda>n c. n * base + the (digit_val c)) 0 ds"

text \<open>With base 0 the prefix \<open>0x\<close> before a hexadecimal digit means 16, a leading 0 means 8.\<close>

definition detect_base :: "string \<Rightarrow> nat \<times> string" where
  "detect_base s =
     (if char_at s 0 = CHR ''0'' \<and> char_at s 1 \<in> {CHR ''x'', CHR ''X''} \<and> is_digit 16 (char_at s 2)
        then (16, drop 2 s)
      else if char_at s 0 = CHR ''0'' then (8, s)
      else (10, s))"

definition split_sign :: "string \<Rightarrow> bool \<times> string" where
  "split_sign s =
     (if char_at s 0 = CHR ''-'' then (True, drop 1 s)
      else if char_at s 0 = CHR ''+'' then (False, drop 1 s)
      else (False, s))"

text \<open>The sign, the magnitude, and what is left; without digits nothing is consumed.\<close>

definition parse_number :: "string \<Rightarrow> bool \<times> nat \<times> string" where
  "parse_number s =
     (let (neg, s1) = split_sign (dropWhile is_space s);
          (base, s2) = detect_base s1;
          ds = takeWhile (is_digit base) s2 in
      if ds = [] then (False, 0, s)
      else (neg, digits_value base ds, dropWhile (is_digit base) s2))"

definition strtol :: "string \<Rightarrow> int \<times> string" where
  "strtol s =
     (let (neg, n, rest) = parse_number s; v = (if neg then - int n else int n) in
      (max (- (2 ^ 63)) (min (2 ^ 63 - 1) v), rest))"

definition strtoul :: "string \<Rightarrow> nat \<times> string" where
  "strtoul s =
     (let (neg, n, rest) = parse_number s in
      (if n \<ge> 2 ^ 64 then 2 ^ 64 - 1 else if neg then (2 ^ 64 - n) mod 2 ^ 64 else n, rest))"

text \<open>\<open>(int) x\<close> for a wider \<open>x\<close>: the value modulo $2^{32}$, read as signed.\<close>

definition to_int :: "int \<Rightarrow> int" where
  "to_int x = (x + 2 ^ 31) mod 2 ^ 32 - 2 ^ 31"

text \<open>To compute the value of a literal argument.\<close>

lemmas number_simps = strtol_def parse_number_def split_sign_def detect_base_def char_at_def
  is_space_def Let_def is_digit_def digit_val_def digits_value_def to_int_def

lemma to_int_id [simp]: "- (2 ^ 31) \<le> x \<Longrightarrow> x < 2 ^ 31 \<Longrightarrow> to_int x = x"
  by (simp add: to_int_def)

lemma to_int_range: "- (2 ^ 31) \<le> to_int x" "to_int x < 2 ^ 31"
  by (simp_all add: to_int_def)

lemma strtol_range: "fst (strtol s) \<in> {- (2 ^ 63)..2 ^ 63 - 1}"
  by (auto simp: strtol_def Let_def split: prod.splits)

section \<open>Reading lines\<close>

text \<open>
  \<open>fgets(s, n, f)\<close> on the rest of a stream: at most \<open>n - 1\<close> characters, up to and including
  a newline; \<open>None\<close> at the end.
\<close>

fun fgets_take :: "nat \<Rightarrow> string \<Rightarrow> string" where
  "fgets_take (Suc k) (c # cs) = (if c = CHR 0x0A then [c] else c # fgets_take k cs)"
| "fgets_take _ _ = []"

definition fgets :: "nat \<Rightarrow> string \<Rightarrow> (string \<times> string) option" where
  "fgets n str = (if str = [] then None
     else let s = fgets_take (n - 1) str in Some (s, drop (length s) str))"

lemma fgets_take_length: "length (fgets_take k s) \<le> k" "length (fgets_take k s) \<le> length s"
  by (induction k s rule: fgets_take.induct) auto

lemma fgets_take_ne: "0 < k \<Longrightarrow> s \<noteq> [] \<Longrightarrow> fgets_take k s \<noteq> []"
  by (cases k; cases s) auto

lemma fgets_shorter: "2 \<le> n \<Longrightarrow> fgets n str = Some (s, rest) \<Longrightarrow> length rest < length str"
  using fgets_take_ne [of "n - 1" str] by (auto simp: fgets_def Let_def split: if_splits)

section \<open>Printing numbers\<close>

definition hex_digit :: "nat \<Rightarrow> char" where
  "hex_digit d = (if d < 10 then char_of (48 + d) else char_of (87 + d))"

fun hex_digits :: "nat \<Rightarrow> string" where
  "hex_digits n = (if n < 16 then [hex_digit n] else hex_digits (n div 16) @ [hex_digit (n mod 16)])"

declare hex_digits.simps [simp del]

text \<open>\<open>%0wx\<close> of an \<open>int\<close>, printed as unsigned.\<close>

definition hex_pad :: "nat \<Rightarrow> int \<Rightarrow> string" where
  "hex_pad w x = (let s = hex_digits (nat (x mod 2 ^ 32)) in replicate (w - length s) (CHR ''0'') @ s)"

fun dec_digits :: "nat \<Rightarrow> string" where
  "dec_digits n = (if n < 10 then [char_of (48 + n)] else dec_digits (n div 10) @ [char_of (48 + n mod 10)])"

declare dec_digits.simps [simp del]

definition dec_int :: "int \<Rightarrow> string" where
  "dec_int x = (if x < 0 then CHR ''-'' # dec_digits (nat (- x)) else dec_digits (nat x))"

text \<open>\<open>%-ws\<close>\<close>

definition pad_right :: "nat \<Rightarrow> string \<Rightarrow> string" where
  "pad_right w s = s @ replicate (w - length s) (CHR '' '')"

lemma length_hex_pad: "w \<le> length (hex_pad w x)"
  by (simp add: hex_pad_def Let_def)

section \<open>Round trip of decimal numbers\<close>

lemma of_char_digit: "d < 10 \<Longrightarrow> (of_char (char_of (48 + d) :: char) :: nat) = 48 + d"
  by simp

lemma digit_val_digit: "d < 10 \<Longrightarrow> digit_val (char_of (48 + d)) = Some d"
  by (simp add: digit_val_def Let_def)

lemma digits_value_snoc: "digits_value b (ds @ [c]) = digits_value b ds * b + the (digit_val c)"
  by (simp add: digits_value_def)

lemma dec_digits_value: "digits_value 10 (dec_digits n) = n"
proof (induction n rule: dec_digits.induct)
  case (1 n)
  show ?case
  proof (cases "n < 10")
    case True
    then show ?thesis
      by (simp add: dec_digits.simps [of n] digits_value_def digit_val_digit)
  next
    case False
    then show ?thesis
      using "1.IH" by (simp add: dec_digits.simps [of n] digits_value_snoc digit_val_digit)
  qed
qed

lemma dec_digits_digits: "\<forall>c \<in> set (dec_digits n). is_digit 10 c"
proof (induction n rule: dec_digits.induct)
  case (1 n)
  show ?case
    using "1.IH" by (subst dec_digits.simps) (auto simp: is_digit_def digit_val_digit)
qed

section \<open>Round trip of hexadecimal numbers\<close>

lemma hex_digit_val: "d < 16 \<Longrightarrow> digit_val (hex_digit d) = Some d"
  by (auto simp: hex_digit_def digit_val_def Let_def)

lemma is_digit_hex: "d < 16 \<Longrightarrow> is_digit 16 (hex_digit d)"
  by (simp add: is_digit_def hex_digit_val)

lemma hex_digits_value: "digits_value 16 (hex_digits n) = n"
proof (induction n rule: hex_digits.induct)
  case (1 n)
  show ?case
    using "1.IH" by (subst hex_digits.simps) (simp add: digits_value_snoc hex_digit_val, simp add: digits_value_def hex_digit_val)
qed

lemma hex_digits_digits: "\<forall>c \<in> set (hex_digits n). is_digit 16 c"
proof (induction n rule: hex_digits.induct)
  case (1 n)
  show ?case
    using "1.IH" by (subst hex_digits.simps) (auto simp: is_digit_hex)
qed

lemma hex_digits_ne: "hex_digits n \<noteq> []"
  by (subst hex_digits.simps) auto

lemma digits_value_zeros: "digits_value b (replicate k (CHR ''0'') @ ds) = digits_value b ds"
  by (induction k) (simp_all add: digits_value_def digit_val_def Let_def)

lemma hex_pad_value:
  assumes "0 \<le> x" "x < 2 ^ 32"
  shows "digits_value 16 (hex_pad k x) = nat x" "\<forall>c \<in> set (hex_pad k x). is_digit 16 c" "hex_pad k x \<noteq> []"
  using assms hex_digits_digits [of "nat x"] hex_digits_ne
  by (auto simp: hex_pad_def Let_def digits_value_zeros hex_digits_value is_digit_def digit_val_def set_replicate_conv_if
      split: if_splits)

text \<open>A number printed as \<open>0x%0*x\<close> is read back by \<open>strtol\<close>.\<close>

lemma strtol_hex:
  assumes "0 \<le> x" "x < 2 ^ 32"
  shows "strtol (''0x'' @ hex_pad k x) = (x, [])"
proof -
  note h = hex_pad_value [OF assms, of k]
  obtain c ds where ds: "hex_pad k x = c # ds"
    using h(3) by (cases "hex_pad k x") auto
  have "parse_number (''0x'' @ hex_pad k x) = (False, nat x, [])"
    using h ds by (simp add: parse_number_def split_sign_def detect_base_def char_at_def is_space_def Let_def
        takeWhile_eq_all_conv [THEN iffD2])
  then show ?thesis
    using assms by (simp add: strtol_def)
qed

section \<open>getopt\<close>

text \<open>
  The options that successive calls of \<open>getopt(argc, argv, spec)\<close> return, with their
  arguments: clusters of letters, arguments attached or in the next word, \<open>--\<close> ends the
  options, other words are skipped (GNU permutation). An unknown letter and a missing
  argument give \<open>'?'\<close>. \<open>spec\<close> maps each letter to whether it takes an argument.
\<close>

fun getopt_words :: "(char \<Rightarrow> bool option) \<Rightarrow> string \<Rightarrow> string list \<Rightarrow> (char \<times> string) list" where
  "getopt_words spec (c # cs) args =
     (case spec c of
        None \<Rightarrow> (CHR 0x3F, []) # getopt_words spec cs args
      | Some False \<Rightarrow> (c, []) # getopt_words spec cs args
      | Some True \<Rightarrow>
          (if cs \<noteq> [] then (c, cs) # getopt_words spec [] args
           else case args of [] \<Rightarrow> [(CHR 0x3F, [])] | a # args \<Rightarrow> (c, a) # getopt_words spec [] args))"
| "getopt_words spec [] [] = []"
| "getopt_words spec [] (a # args) =
     (if a = ''--'' then []
      else if char_at a 0 = CHR ''-'' \<and> length a > 1 then getopt_words spec (drop 1 a) args
      else getopt_words spec [] args)"

definition getopt :: "(char \<Rightarrow> bool option) \<Rightarrow> string list \<Rightarrow> (char \<times> string) list" where
  "getopt spec args = getopt_words spec [] args"

end
