(* ===== verification/CppLib.thy ===== *)
theory CppLib
  imports CLib "HOL-Library.Word" "HOL-Library.Sublist"
begin

text \<open>
  The parts of the C++ library that the M-plane server uses: searching and cutting of
  \<open>std::string\<close>, \<open>std::stoi\<close>, the exceptions it throws, and sequences of statements any of
  which may throw. A position is \<open>None\<close> where the library returns \<open>npos\<close>.
\<close>

section \<open>Exceptions\<close>

datatype exn = Invalid_argument | Out_of_range | Runtime_error

text \<open>
  A statement changes the object it works on and may end in an exception; what was
  changed before the exception stays changed.
\<close>

type_synonym 'c cpp = "'c \<Rightarrow> exn option \<times> 'c"

fun in_order :: "'c cpp list \<Rightarrow> 'c cpp" where
  "in_order [] c = (None, c)"
| "in_order (f # fs) c = (case f c of (None, c') \<Rightarrow> in_order fs c' | (Some e, c') \<Rightarrow> (Some e, c'))"

definition skip :: "'c cpp" where
  "skip c = (None, c)"

lemma in_order_skip [simp]: "in_order (skip # fs) c = in_order fs c"
  by (simp add: skip_def)

section \<open>Numbers\<close>

text \<open>\<open>std::stoi(s)\<close>: base 10, trailing characters are ignored.\<close>

definition stoi :: "string \<Rightarrow> exn + int" where
  "stoi s =
     (let (neg, s1) = split_sign (dropWhile is_space s);
          ds = takeWhile (is_digit 10) s1;
          v = (if neg then - int (digits_value 10 ds) else int (digits_value 10 ds)) in
      if ds = [] then Inl Invalid_argument
      else if v < - (2 ^ 31) \<or> v \<ge> 2 ^ 31 then Inl Out_of_range
      else Inr v)"

lemma stoi_empty [simp]: "stoi [] = Inl Invalid_argument"
  by (simp add: stoi_def split_sign_def char_at_def)

lemma stoi_range: "stoi s = Inr v \<Longrightarrow> - (2 ^ 31) \<le> v \<and> v < 2 ^ 31"
  by (auto simp: stoi_def Let_def split: prod.splits if_splits)

lemma dec_digits_ne: "dec_digits n \<noteq> []"
  by (subst dec_digits.simps) auto

lemma is_digit_plain: "is_digit 10 c \<Longrightarrow> \<not> is_space c \<and> c \<noteq> CHR ''-'' \<and> c \<noteq> CHR ''+''"
  by (auto simp: is_digit_def digit_val_def is_space_def Let_def)

lemma stoi_dec_digits:
  assumes "n < 2 ^ 31"
  shows "stoi (dec_digits n) = Inr (int n)"
proof -
  obtain c cs where ds: "dec_digits n = c # cs"
    using dec_digits_ne by (cases "dec_digits n") auto
  have all: "\<forall>c \<in> set (dec_digits n). is_digit 10 c"
    by (rule dec_digits_digits)
  then have c: "\<not> is_space c" "c \<noteq> CHR ''-''" "c \<noteq> CHR ''+''"
    using is_digit_plain [of c] ds by auto
  then have sign: "split_sign (dropWhile is_space (dec_digits n)) = (False, dec_digits n)"
    by (simp add: ds split_sign_def char_at_def)
  have digits: "takeWhile (is_digit 10) (dec_digits n) = dec_digits n"
    by (rule takeWhile_eq_all_conv [THEN iffD2, OF all])
  show ?thesis
    unfolding stoi_def sign Let_def prod.case digits dec_digits_value using assms dec_digits_ne [of n] by simp
qed

text \<open>\<open>f = std::stoi(s)\<close>, and the same behind \<open>if (!s.empty())\<close>.\<close>

definition assign :: "string \<Rightarrow> (int \<Rightarrow> 'c \<Rightarrow> 'c) \<Rightarrow> 'c cpp" where
  "assign s f c = (case stoi s of Inl e \<Rightarrow> (Some e, c) | Inr v \<Rightarrow> (None, f v c))"

definition assign_if :: "string \<Rightarrow> (int \<Rightarrow> 'c \<Rightarrow> 'c) \<Rightarrow> 'c cpp" where
  "assign_if s f = (if s = [] then skip else assign s f)"

lemma assign_if_empty [simp]: "assign_if [] f = skip"
  by (simp add: assign_if_def)

lemma assign_if_value: "stoi s = Inr v \<Longrightarrow> assign_if s f c = (None, f v c)"
  by (cases "s = []") (auto simp: assign_if_def assign_def)

section \<open>Searching\<close>

fun find_char :: "char \<Rightarrow> string \<Rightarrow> nat option" where
  "find_char c [] = None"
| "find_char c (x # xs) = (if x = c then Some 0 else map_option Suc (find_char c xs))"

text \<open>\<open>s.find_first_of(c, pos)\<close> and \<open>s.find_last_of(c, pos)\<close>.\<close>

definition find_first_of :: "char \<Rightarrow> string \<Rightarrow> nat \<Rightarrow> nat option" where
  "find_first_of c s pos = map_option (\<lambda>i. pos + i) (find_char c (drop pos s))"

definition find_last_of :: "char \<Rightarrow> string \<Rightarrow> nat \<Rightarrow> nat option" where
  "find_last_of c s pos =
     (let t = take (Suc pos) s in map_option (\<lambda>i. length t - 1 - i) (find_char c (rev t)))"

text \<open>\<open>s.find(t) != npos\<close>, and \<open>startsWith\<close> of \<open>stringfunc.hpp\<close>.\<close>

fun contains :: "string \<Rightarrow> string \<Rightarrow> bool" where
  "contains [] t = (t = [])"
| "contains (c # s) t = (prefix t (c # s) \<or> contains s t)"

definition startsWith :: "string \<Rightarrow> string \<Rightarrow> bool" where
  "startsWith str1 str2 = (if length str1 < length str2 then False else take (length str2) str1 = str2)"

lemma startsWith_prefix: "startsWith s t \<longleftrightarrow> prefix t s"
  by (auto simp: startsWith_def prefix_def) (metis append_take_drop_id)

text \<open>\<open>s.substr(pos, n)\<close> for \<open>pos\<close> in the string or at its end.\<close>

definition substr :: "string \<Rightarrow> nat \<Rightarrow> nat \<Rightarrow> string" where
  "substr s pos n = take n (drop pos s)"

definition substr_from :: "string \<Rightarrow> nat \<Rightarrow> string" where
  "substr_from s pos = drop pos s"

lemma take_length_append: "take (length xs) (xs @ ys) = xs"
  by simp

lemma drop_length_Cons: "drop (length xs + 1) (xs @ c # ys) = ys"
  by simp

lemma find_char_append: "c \<notin> set xs \<Longrightarrow> find_char c (xs @ ys) = map_option (\<lambda>i. length xs + i) (find_char c ys)"
  by (cases "find_char c ys"; induction xs) auto

lemma find_char_at [simp]: "c \<notin> set xs \<Longrightarrow> find_char c (xs @ c # ys) = Some (length xs)"
  by (simp add: find_char_append)

lemma find_char_None: "find_char c s = None \<longleftrightarrow> c \<notin> set s"
  by (induction s) auto

lemma find_char_Some: "find_char c s = Some i \<Longrightarrow> i < length s \<and> s ! i = c \<and> c \<notin> set (take i s)"
  by (induction s arbitrary: i) (auto split: if_splits)

lemma find_last_at:
  assumes "c \<notin> set ys" "c \<noteq> d"
  shows "find_last_of c (xs @ c # ys @ d # zs) (Suc (length xs + length ys)) = Some (length xs)"
proof -
  have "take (Suc (Suc (length xs + length ys))) (xs @ c # ys @ d # zs) = xs @ c # ys @ [d]"
    by simp
  moreover have "find_char c (rev (xs @ c # ys @ [d])) = Some (Suc (length ys))"
    using assms find_char_at [of c "d # rev ys" "rev xs"] by simp
  ultimately show ?thesis
    unfolding find_last_of_def Let_def by (simp only:) simp
qed

end
