(* ===== verification/XpathUtils.thy ===== *)
theory XpathUtils
  imports CppLib
begin

text \<open>
  \<open>XpathUtils.cpp\<close>: the leaf name and the path of an xpath, and the list name, the key and the
  index of its first or n-th list. The reference parameters of the C++ functions, which they
  clear first, are results here.
\<close>

section \<open>Functions\<close>

definition leafName :: "string \<Rightarrow> string" where
  "leafName xpath =
     (case find_last_of (CHR ''/'') xpath (length xpath) of
        None \<Rightarrow> xpath
      | Some pos \<Rightarrow> substr_from xpath (pos + 1))"

definition leafPath :: "string \<Rightarrow> string" where
  "leafPath xpath =
     (case find_last_of (CHR ''/'') xpath (length xpath) of
        None \<Rightarrow> xpath
      | Some pos \<Rightarrow> substr xpath 0 pos)"

text \<open>
  The index without its quotes. \<open>epos\<close> is a \<open>size_t\<close>: for an index that is a single quote it
  wraps around, and the length it gives is cut at the end of the string.
\<close>

definition unquote :: "string \<Rightarrow> string" where
  "unquote index =
     (let q = CHR 0x27; epos = length index - 1;
          spos = (if index ! 0 = q then 1 else 0);
          stop = (if index ! epos = q then int epos - 1 else int epos) in
      substr index spos (nat ((stop - int spos + 1) mod 2 ^ 64)))"

text \<open>The success, the list name, the key and the value.\<close>

type_synonym list_index = "bool \<times> string \<times> string \<times> string"

definition listIndex :: "string \<Rightarrow> list_index" where
  "listIndex xpath =
     (case find_first_of (CHR ''['') xpath 0 of None \<Rightarrow> (False, [], [], [])
      | Some start \<Rightarrow>
     (case find_last_of (CHR ''/'') xpath start of None \<Rightarrow> (False, [], [], [])
      | Some sep \<Rightarrow>
     (case find_first_of (CHR '']'') xpath (start + 1) of None \<Rightarrow> (False, [], [], [])
      | Some stop \<Rightarrow>
          let listName = substr xpath (sep + 1) (start - sep - 1);
              index = substr xpath (start + 1) (stop - start - 1);
              (key, index) =
                (case find_first_of (CHR ''='') index 0 of
                   None \<Rightarrow> ([], index)
                 | Some eqpos \<Rightarrow> (substr index 0 eqpos, substr_from index (eqpos + 1))) in
          if index = [] then (False, listName, key, [])
          else (True, listName, key, unquote index))))"

text \<open>The variant with an integer value.\<close>

definition listIndex_int :: "string \<Rightarrow> int \<Rightarrow> exn + (bool \<times> string \<times> string \<times> int)" where
  "listIndex_int xpath value =
     (case listIndex xpath of (ok, listName, key, valstr) \<Rightarrow>
        if \<not> ok then Inr (False, listName, key, value)
        else (case stoi valstr of Inl e \<Rightarrow> Inl e | Inr v \<Rightarrow> Inr (True, listName, key, v)))"

text \<open>
  The loop over the closing brackets: the start before the last step and the last bracket;
  \<open>None\<close> when there are fewer than \<open>n\<close>.
\<close>

fun nth_bracket :: "string \<Rightarrow> nat \<Rightarrow> nat \<Rightarrow> nat \<Rightarrow> nat option" where
  "nth_bracket xpath 0 start prevBracket = Some start"
| "nth_bracket xpath (Suc n) start prevBracket =
     (case find_first_of (CHR '']'') xpath (prevBracket + 1) of
        None \<Rightarrow> None
      | Some b \<Rightarrow> nth_bracket xpath n prevBracket b)"

text \<open>
  With fewer than \<open>n\<close> lists the outputs keep what the caller had in them, \<open>old\<close>;
  \<open>substr\<close> throws on the empty path.
\<close>

definition listIndexN :: "string \<Rightarrow> string \<times> string \<times> string \<Rightarrow> nat \<Rightarrow> exn + list_index" where
  "listIndexN xpath old n =
     (case nth_bracket xpath n 0 0 of
        None \<Rightarrow> Inr (False, old)
      | Some start \<Rightarrow>
          if start + 1 > length xpath then Inl Out_of_range
          else Inr (listIndex (substr_from xpath (start + 1))))"

section \<open>Paths with a list\<close>

text \<open>\<open>list[key='value']\<close>\<close>

definition list_entry :: "string \<Rightarrow> string \<Rightarrow> string \<Rightarrow> string" where
  "list_entry listName key value =
     listName @ CHR ''['' # key @ CHR ''='' # CHR 0x27 # value @ [CHR 0x27, CHR '']'']"

definition plain :: "string \<Rightarrow> bool" where
  "plain s \<longleftrightarrow> set s \<inter> {CHR ''['', CHR '']'', CHR ''='', CHR ''/'', CHR 0x27} = {}"

lemma plain_chars:
  "plain s \<Longrightarrow> CHR ''['' \<notin> set s \<and> CHR '']'' \<notin> set s \<and> CHR ''='' \<notin> set s \<and> CHR ''/'' \<notin> set s \<and> CHR 0x27 \<notin> set s"
  by (auto simp: plain_def)

lemma leafName_path: "CHR ''/'' \<notin> set leaf \<Longrightarrow> leafName (path @ CHR ''/'' # leaf) = leaf"
  using find_char_at [of "CHR ''/''" "rev leaf" "rev path"]
  by (simp add: leafName_def find_last_of_def substr_from_def)

lemma leafName_plain: "CHR ''/'' \<notin> set leaf \<Longrightarrow> leafName leaf = leaf"
  using find_char_None [of "CHR ''/''" "rev leaf"] by (simp add: leafName_def find_last_of_def)

lemma leafPath_leafName:
  "CHR ''/'' \<in> set xpath \<Longrightarrow> leafPath xpath @ CHR ''/'' # leafName xpath = xpath"
proof -
  assume "CHR ''/'' \<in> set xpath"
  then obtain path leaf where "xpath = path @ CHR ''/'' # leaf" "CHR ''/'' \<notin> set leaf"
    by (meson split_list_last)
  then show ?thesis
    using find_char_at [of "CHR ''/''" "rev leaf" "rev path"]
    by (simp add: leafPath_def leafName_path) (simp add: find_last_of_def substr_def)
qed

lemma unquote_quoted:
  assumes "length value < 2 ^ 63"
  shows "unquote (CHR 0x27 # value @ [CHR 0x27]) = value"
proof -
  have "int (length value) mod 2 ^ 64 = int (length value)"
    using assms by simp
  then show ?thesis
    by (simp add: unquote_def Let_def nth_append substr_def nat_int)
qed

lemma listIndex_entry:
  assumes "CHR ''['' \<notin> set path" "plain listName" "plain key" "CHR '']'' \<notin> set value" "length value < 2 ^ 63"
  shows "listIndex (path @ CHR ''/'' # list_entry listName key value @ rest) = (True, listName, key, value)"
proof -
  let ?i = "key @ CHR ''='' # CHR 0x27 # value @ [CHR 0x27]"
  let ?x = "path @ CHR ''/'' # listName @ CHR ''['' # ?i @ CHR '']'' # rest"
  note chars = plain_chars [OF assms(2)] plain_chars [OF assms(3)]
  have x: "path @ CHR ''/'' # list_entry listName key value @ rest = ?x"
    by (simp add: list_entry_def)
  have start: "find_first_of (CHR ''['') ?x 0 = Some (Suc (length path + length listName))"
    using assms(1) chars find_char_at [of "CHR ''[''" "path @ CHR ''/'' # listName" "?i @ CHR '']'' # rest"]
    by (simp add: find_first_of_def)
  have sep: "find_last_of (CHR ''/'') ?x (Suc (length path + length listName)) = Some (length path)"
    using chars by (intro find_last_at) auto
  have drop: "drop (Suc (length path + length listName) + 1) ?x = ?i @ CHR '']'' # rest"
    by simp
  have stop: "find_first_of (CHR '']'') ?x (Suc (length path + length listName) + 1) =
      Some (Suc (length path + length listName) + 1 + length ?i)"
    unfolding find_first_of_def drop using assms(4) chars by (subst find_char_at) auto
  have index: "substr ?x (Suc (length path + length listName) + 1) (length ?i) = ?i"
    unfolding substr_def drop by (rule take_length_append)
  have name: "substr ?x (length path + 1) (length listName) = listName"
    by (simp add: substr_def)
  have eqpos: "find_first_of (CHR ''='') ?i 0 = Some (length key)"
    using chars by (simp add: find_first_of_def)
  have parts: "substr ?i 0 (length key) = key" "substr_from ?i (length key + 1) = CHR 0x27 # value @ [CHR 0x27]"
    by (simp_all add: substr_def substr_from_def)
  have len: "Suc (length path + length listName) - length path - 1 = length listName"
    "Suc (length path + length listName) + 1 + length ?i - Suc (length path + length listName) - 1 = length ?i"
    by simp_all
  show ?thesis
    unfolding x listIndex_def start option.case sep stop Let_def len index name eqpos prod.case parts
    using unquote_quoted [OF assms(5)] by simp
qed

text \<open>The second list of a path.\<close>

lemma listIndexN_second:
  assumes "CHR '']'' \<notin> set path" "plain l1" "plain k1" "CHR '']'' \<notin> set v1"
    and "CHR ''['' \<notin> set mid" "CHR '']'' \<notin> set mid" "plain l2" "plain k2" "CHR '']'' \<notin> set v2" "length v2 < 2 ^ 63"
  shows "listIndexN (path @ CHR ''/'' # list_entry l1 k1 v1 @ mid @ CHR ''/'' # list_entry l2 k2 v2 @ rest) old 2 =
    Inr (True, l2, k2, v2)"
proof -
  let ?b = "path @ CHR ''/'' # l1 @ CHR ''['' # k1 @ CHR ''='' # CHR 0x27 # v1 @ [CHR 0x27]"
  let ?m = "mid @ CHR ''/'' # l2 @ CHR ''['' # k2 @ CHR ''='' # CHR 0x27 # v2 @ [CHR 0x27]"
  let ?x = "?b @ CHR '']'' # ?m @ CHR '']'' # rest"
  note chars = plain_chars [OF assms(2)] plain_chars [OF assms(3)] plain_chars [OF assms(7)] plain_chars [OF assms(8)]
  have x: "path @ CHR ''/'' # list_entry l1 k1 v1 @ mid @ CHR ''/'' # list_entry l2 k2 v2 @ rest = ?x"
    by (simp add: list_entry_def)
  obtain c b' where b: "?b = c # b'"
    by (cases ?b) auto
  have nb: "CHR '']'' \<notin> set ?b" "CHR '']'' \<notin> set ?m"
    using assms chars by auto
  have d1: "drop (0 + 1) ?x = b' @ CHR '']'' # ?m @ CHR '']'' # rest"
    unfolding b by simp
  have f1: "find_first_of (CHR '']'') ?x (0 + 1) = Some (length ?b)"
    unfolding find_first_of_def d1 using nb(1) unfolding b by (subst find_char_at) auto
  have d2: "drop (length ?b + 1) ?x = ?m @ CHR '']'' # rest"
    by (rule drop_length_Cons)
  have f2: "find_first_of (CHR '']'') ?x (length ?b + 1) = Some (length ?b + 1 + length ?m)"
    unfolding find_first_of_def d2 using nb(2) by (subst find_char_at) auto
  have nth: "nth_bracket ?x 2 0 0 = Some (length ?b)"
    unfolding numeral_2_eq_2 nth_bracket.simps f1 option.case f2 ..
  have sub: "substr_from ?x (length ?b + 1) = mid @ CHR ''/'' # list_entry l2 k2 v2 @ rest"
    unfolding substr_from_def d2 by (simp add: list_entry_def)
  have "\<not> length ?x < length ?b + 1"
    by simp
  then show ?thesis
    unfolding x listIndexN_def nth option.case sub
    using listIndex_entry [OF assms(5,7-10), of rest] by simp
qed

text \<open>
  The parts of the path of a leaf in a list are found again: the name of the list, the
  key and its value without the quotes, the leaf name, and the path in front of it.
\<close>

theorem listIndex_roundtrip:
  assumes "CHR ''['' \<notin> set front" "plain listName" "plain key" "CHR '']'' \<notin> set val" "length val < 2 ^ 63"
    and "CHR ''/'' \<notin> set leaf" "xpath = front @ CHR ''/'' # list_entry listName key val @ CHR ''/'' # leaf"
  shows "listIndex xpath = (True, listName, key, val) \<and> leafName xpath = leaf \<and>
    leafPath xpath = front @ CHR ''/'' # list_entry listName key val"
proof -
  have "leafName xpath = leaf"
    using leafName_path [OF assms(6), of "front @ CHR ''/'' # list_entry listName key val"] assms(7) by simp
  moreover have "leafPath xpath @ CHR ''/'' # leafName xpath = xpath"
    using assms(7) by (intro leafPath_leafName) simp
  ultimately show ?thesis
    using listIndex_entry [OF assms(1-5), of "CHR ''/'' # leaf"] assms(7) by simp
qed

theorem listIndex_roundtrip_witness:
  "listIndex (''/m:c'' @ CHR ''/'' # list_entry ''rx-array-carriers'' ''name'' ''a/b'' @ CHR ''/'' # ''active'') =
    (True, ''rx-array-carriers'', ''name'', ''a/b'')"
  using listIndex_roundtrip [of "''/m:c''" "''rx-array-carriers''" "''name''" "''a/b''" "''active''", OF _ _ _ _ _ _ refl]
  by (simp add: plain_def)

end
