(* ===== verification/YangParam.thy ===== *)
theory YangParam
  imports XpathUtils "HOL-Library.List_Lexorder"
begin

text \<open>
  \<open>YangParam.cpp\<close>, \<open>YangParamUtils.cpp\<close>, \<open>YangParamSysrepo.cpp\<close> and the lookups of
  \<open>SysrepoUtils.cpp\<close>: a YANG value with its type and its xpath, its conversion to numbers and
  to text, its construction from a value of the data store, and the maps by list index and
  leaf name. A \<open>double\<close> is its 64 bits; what an output stream prints of it is the argument
  \<open>dbl\<close>. A \<open>std::map\<close> that the code walks over is the list of its entries in the order of the
  keys.
\<close>

section \<open>Values\<close>

datatype yang_val =
    YBool bool
  | YInt8 u8 | YInt16 u16 | YInt32 u32 | YInt64 u64
  | YUInt8 u8 | YUInt16 u16 | YUInt32 u32 | YUInt64 u64
  | YString string
  | YDecimal64 u64
  | YBinary "u8 list"
  | YUnknown

record yang_param =
  y_name :: string
  y_val :: yang_val

text \<open>\<open>strtoull(s, nullptr, 10)\<close>\<close>

definition strtoull10 :: "string \<Rightarrow> u64" where
  "strtoull10 s =
     (let (neg, s1) = split_sign (dropWhile is_space s);
          n = digits_value 10 (takeWhile (is_digit 10) s1) in
      if n \<ge> 2 ^ 64 then - 1 else if neg then - of_nat n else of_nat n)"

text \<open>The value and the error text; every signed type passes through \<open>uint32_t\<close>.\<close>

definition toUint64 :: "yang_val \<Rightarrow> string \<Rightarrow> u64 \<times> string" where
  "toUint64 v error =
     (case v of
        YBool b \<Rightarrow> (if b then 1 else 0, error)
      | YString s \<Rightarrow> (strtoull10 s, error)
      | YInt8 w \<Rightarrow> (ucast (scast w :: u32), error)
      | YInt16 w \<Rightarrow> (ucast (scast w :: u32), error)
      | YInt32 w \<Rightarrow> (ucast w, error)
      | YInt64 w \<Rightarrow> (ucast (ucast w :: u32), error)
      | YUInt8 w \<Rightarrow> (ucast w, error)
      | YUInt16 w \<Rightarrow> (ucast w, error)
      | YUInt32 w \<Rightarrow> (ucast w, error)
      | YUInt64 w \<Rightarrow> (w, error)
      | _ \<Rightarrow> (0, ''Invalid parameter''))"

text \<open>\<open>typeConvert<T>\<close>, by the largest value of the type.\<close>

definition typeConvert :: "nat \<Rightarrow> yang_val \<Rightarrow> nat \<times> string" where
  "typeConvert most v =
     (let (n, error) = toUint64 v [] in
      if error \<noteq> [] then (0, error)
      else if unat n > most then (0, ''Value out of range'')
      else (unat n, error))"

definition toUint32 :: "yang_val \<Rightarrow> nat \<times> string" where
  "toUint32 = typeConvert (2 ^ 32 - 1)"

definition toUint16 :: "yang_val \<Rightarrow> nat \<times> string" where
  "toUint16 = typeConvert (2 ^ 16 - 1)"

definition toUint8 :: "yang_val \<Rightarrow> nat \<times> string" where
  "toUint8 = typeConvert (2 ^ 8 - 1)"

definition toBool :: "yang_val \<Rightarrow> bool" where
  "toBool v = (let (n, error) = toUint64 v [] in if error \<noteq> [] then False else n > 0)"

definition toString :: "(u64 \<Rightarrow> string) \<Rightarrow> yang_val \<Rightarrow> string" where
  "toString dbl v =
     (case v of
        YBool b \<Rightarrow> if b then ''true'' else ''false''
      | YString s \<Rightarrow> s
      | YBinary data \<Rightarrow> map (\<lambda>b. char_of (unat b)) data
      | YInt8 _ \<Rightarrow> dec_int (sint (fst (toUint64 v [])))
      | YInt16 _ \<Rightarrow> dec_int (sint (fst (toUint64 v [])))
      | YInt32 _ \<Rightarrow> dec_int (sint (fst (toUint64 v [])))
      | YInt64 _ \<Rightarrow> dec_int (sint (fst (toUint64 v [])))
      | YUInt8 _ \<Rightarrow> dec_digits (unat (fst (toUint64 v [])))
      | YUInt16 _ \<Rightarrow> dec_digits (unat (fst (toUint64 v [])))
      | YUInt32 _ \<Rightarrow> dec_digits (unat (fst (toUint64 v [])))
      | YUInt64 _ \<Rightarrow> dec_digits (unat (fst (toUint64 v [])))
      | YDecimal64 d \<Rightarrow> dbl d
      | YUnknown \<Rightarrow> [])"

section \<open>Values of the data store\<close>

datatype sr_data =
    SR_BOOL bool
  | SR_INT8 u8 | SR_INT16 u16 | SR_INT32 u32 | SR_INT64 u64
  | SR_UINT8 u8 | SR_UINT16 u16 | SR_UINT32 u32 | SR_UINT64 u64
  | SR_STRING string
  | SR_DECIMAL64 u64
  | SR_BINARY "u8 list"
  | SR_BITS string | SR_ENUM string | SR_IDENTITYREF string | SR_INSTANCEID string
  | SR_UNKNOWN | SR_LIST | SR_CONTAINER | SR_CONTAINER_PRESENCE | SR_LEAF_EMPTY
  | SR_NOTIFICATION | SR_ANYXML | SR_ANYDATA

record sr_value =
  v_xpath :: string
  v_data :: sr_data

definition setSysrepo :: "sr_value \<Rightarrow> yang_param" where
  "setSysrepo value =
     \<lparr>y_name = v_xpath value,
      y_val = (case v_data value of
         SR_BOOL b \<Rightarrow> YBool b
       | SR_INT8 w \<Rightarrow> YInt8 w | SR_INT16 w \<Rightarrow> YInt16 w | SR_INT32 w \<Rightarrow> YInt32 w | SR_INT64 w \<Rightarrow> YInt64 w
       | SR_UINT8 w \<Rightarrow> YUInt8 w | SR_UINT16 w \<Rightarrow> YUInt16 w | SR_UINT32 w \<Rightarrow> YUInt32 w | SR_UINT64 w \<Rightarrow> YUInt64 w
       | SR_STRING s \<Rightarrow> YString s
       | SR_DECIMAL64 d \<Rightarrow> YDecimal64 d
       | SR_BINARY bs \<Rightarrow> YBinary bs
       | SR_BITS s \<Rightarrow> YString s | SR_ENUM s \<Rightarrow> YString s
       | SR_IDENTITYREF s \<Rightarrow> YString s | SR_INSTANCEID s \<Rightarrow> YString s
       | _ \<Rightarrow> YUnknown)\<rparr>"

section \<open>Maps in the order of their keys\<close>

fun map_put :: "string \<Rightarrow> 'v \<Rightarrow> (string \<times> 'v) list \<Rightarrow> (string \<times> 'v) list" where
  "map_put k v [] = [(k, v)]"
| "map_put k v ((k', v') # m) =
     (if k < k' then (k, v) # (k', v') # m
      else if k = k' then (k, v) # m
      else (k', v') # map_put k v m)"

lemma map_of_map_put: "map_of (map_put k v m) = (map_of m)(k \<mapsto> v)"
  by (induction m) (auto simp: fun_upd_twist)

lemma map_put_keys: "set (map fst (map_put k v m)) = insert k (set (map fst m))"
  by (induction k v m rule: map_put.induct) auto

lemma map_put_sorted:
  "sorted_wrt (<) (map fst m) \<Longrightarrow> sorted_wrt (<) (map fst (map_put k v m))"
proof (induction k v m rule: map_put.induct)
  case (2 k v k' v' m)
  have "\<forall>x \<in> set (map fst m). k' < x"
    using 2 by simp
  then show ?case
    using 2 map_put_keys [of k v m] by (auto simp del: set_map)
qed simp

section \<open>Lookups\<close>

definition paramsToMap :: "yang_param list \<Rightarrow> (string \<times> yang_param) list" where
  "paramsToMap params = foldl (\<lambda>values p. map_put (leafName (y_name p)) p values) [] params"

definition paramValUInt64 :: "(string \<times> yang_param) list \<Rightarrow> string \<Rightarrow> u64" where
  "paramValUInt64 values key =
     (case map_of values key of None \<Rightarrow> 0 | Some p \<Rightarrow> fst (toUint64 (y_val p) []))"

text \<open>\<open>getDecimal64\<close> reads the member \<open>valDecimal64\<close>, which is 0 unless it was set.\<close>

definition getDecimal64 :: "yang_val \<Rightarrow> u64" where
  "getDecimal64 v = (case v of YDecimal64 d \<Rightarrow> d | _ \<Rightarrow> 0)"

definition paramValDecimal64 :: "(string \<times> yang_param) list \<Rightarrow> string \<Rightarrow> u64" where
  "paramValDecimal64 values key =
     (case map_of values key of None \<Rightarrow> 0 | Some p \<Rightarrow> getDecimal64 (y_val p))"

text \<open>
  The items of a path by list index and leaf name; \<open>None\<close> when the data store returns none.
\<close>

definition getKeyParams :: "yang_param list option \<Rightarrow> (string \<times> (string \<times> yang_param) list) list" where
  "getKeyParams items =
     (case items of None \<Rightarrow> []
      | Some params \<Rightarrow>
          foldl (\<lambda>values p.
              let (_, _, _, value) = listIndex (y_name p);
                  entry = (case map_of values value of None \<Rightarrow> [] | Some m \<Rightarrow> m) in
              map_put value (map_put (leafName (y_name p)) p entry) values) [] params)"

definition getKeyValues ::
    "(u64 \<Rightarrow> string) \<Rightarrow> yang_param list option \<Rightarrow> (string \<times> (string \<times> string) list) list" where
  "getKeyValues dbl items =
     map (\<lambda>(k, m). (k, map (\<lambda>(leaf, p). (leaf, toString dbl (y_val p))) m)) (getKeyParams items)"

definition getParams :: "yang_param list option \<Rightarrow> (string \<times> yang_param) list" where
  "getParams items = (case items of None \<Rightarrow> [] | Some params \<Rightarrow> paramsToMap params)"

section \<open>Text of numbers\<close>

lemma toUint64_below:
  "toUint64 (YInt32 w) e = (ucast w, e)" "toUint64 (YUInt32 u) e = (ucast u, e)"
  by (simp_all add: toUint64_def)

text \<open>A signed value is printed as the unsigned 32-bit number of its bits.\<close>

lemma sint_ucast_u32: "sint (ucast (w :: u32) :: u64) = uint w"
proof -
  have "uint w < 2 ^ 32"
    using uint_lt2p [of w] by simp
  then have "uint (ucast w :: u64) = uint w" "uint w < 2 ^ 63"
    by (simp_all add: uint_up_ucast is_up)
  then show ?thesis
    by (simp add: sint_uint signed_take_bit_eq_if_positive bit_iff_odd take_bit_int_eq_self)
qed

lemma stoi_toString_unsigned:
  fixes w :: u16 and b :: u8
  shows "stoi (toString dbl (YUInt16 w)) = Inr (uint w)" "stoi (toString dbl (YUInt8 b)) = Inr (uint b)"
proof -
  have "unat w < 2 ^ 31"
    by (rule less_trans [OF unsigned_less]) simp
  moreover have "unat b < 2 ^ 31"
    by (rule less_trans [OF unat_u8_less]) simp
  moreover have unat_up: "unat (ucast w :: u64) = unat w" "unat (ucast b :: u64) = unat b"
    by (transfer, simp add: take_bit_take_bit)+
  ultimately have "stoi (dec_digits (unat w)) = Inr (uint w)" "stoi (dec_digits (unat b)) = Inr (uint b)"
    by (simp_all add: stoi_dec_digits)
  then show "stoi (toString dbl (YUInt16 w)) = Inr (uint w)" "stoi (toString dbl (YUInt8 b)) = Inr (uint b)"
    by (simp_all add: toString_def toUint64_def unat_up)
qed

text \<open>
  The text of an unsigned value is read back by \<open>std::stoi\<close> as the same number, but the
  text of a signed 32-bit value is the unsigned number of its bits, so that -1 is printed as
  4294967295.
\<close>

theorem toString_numbers:
  "stoi (toString dbl (YUInt16 w)) = Inr (uint w) \<and> stoi (toString dbl (YUInt8 b)) = Inr (uint b) \<and>
   toString dbl (YInt32 n) = dec_digits (unat n)"
proof -
  have "toString dbl (YInt32 n) = dec_int (uint n)"
    by (simp add: toString_def toUint64_def sint_ucast_u32)
  then have "toString dbl (YInt32 n) = dec_digits (unat n)"
    by (simp add: dec_int_def)
  then show ?thesis
    using stoi_toString_unsigned by simp
qed

end
