(* ===== verification/Tokeniser.thy ===== *)
theory Tokeniser
  imports CppLib
begin

text \<open>
  \<open>Tokeniser.cpp\<close>: cutting a text into the pieces between delimiters. The loop of \<open>getTokens\<close>
  runs as long as there is a token; that it ends is proved.
\<close>

section \<open>The tokeniser\<close>

record tokeniser =
  mString :: string
  mOffset :: nat
  mToken :: string
  mDelimiters :: string
  mDelimiter :: char

definition DELIMITERS :: string where
  "DELIMITERS = [CHR '' '', CHR 0x09, CHR 0x0A, CHR 0x0D]"

definition new_tokeniser :: "string \<Rightarrow> string \<Rightarrow> tokeniser" where
  "new_tokeniser s delimiters = \<lparr>mString = s, mOffset = 0, mToken = [], mDelimiters = delimiters, mDelimiter = CHR 0x00\<rparr>"

text \<open>\<open>s.find_first_not_of(set, pos)\<close> and \<open>s.find_first_of(set, pos)\<close>, \<open>None\<close> for \<open>npos\<close>.\<close>

definition first_not_of :: "string \<Rightarrow> string \<Rightarrow> nat \<Rightarrow> nat option" where
  "first_not_of cs s pos =
     (let n = length (takeWhile (\<lambda>c. c \<in> set cs) (drop pos s)) in if pos + n < length s then Some (pos + n) else None)"

definition first_of :: "string \<Rightarrow> string \<Rightarrow> nat \<Rightarrow> nat option" where
  "first_of cs s pos =
     (let n = length (takeWhile (\<lambda>c. c \<notin> set cs) (drop pos s)) in if pos + n < length s then Some (pos + n) else None)"

definition nextToken :: "string \<Rightarrow> tokeniser \<Rightarrow> bool \<times> tokeniser" where
  "nextToken delimiters t =
     (case first_not_of delimiters (mString t) (mOffset t) of
        None \<Rightarrow> (False, t\<lparr>mOffset := length (mString t)\<rparr>)
      | Some index \<Rightarrow>
          let t = t\<lparr>mDelimiter := if index > 0 then mString t ! (index - 1) else CHR 0x00\<rparr> in
          case first_of delimiters (mString t) index of
            None \<Rightarrow> (True, t\<lparr>mToken := substr_from (mString t) index, mOffset := length (mString t)\<rparr>)
          | Some subindex \<Rightarrow> (True, t\<lparr>mToken := substr (mString t) index (subindex - index), mOffset := subindex\<rparr>))"

definition hasNextToken :: "string \<Rightarrow> tokeniser \<Rightarrow> bool" where
  "hasNextToken delimiters t \<longleftrightarrow> first_not_of delimiters (mString t) (mOffset t) \<noteq> None"

definition reset :: "tokeniser \<Rightarrow> tokeniser" where
  "reset t = t\<lparr>mOffset := 0, mToken := [], mDelimiter := CHR 0x00\<rparr>"

partial_function (option) getTokens :: "tokeniser \<Rightarrow> string list \<Rightarrow> (string list \<times> tokeniser) option" where
  "getTokens t tokens =
     (case nextToken (mDelimiters t) t of
        (found, t) \<Rightarrow> if found then getTokens t (tokens @ [mToken t]) else Some (tokens, t))"

section \<open>The words of a text\<close>

text \<open>The maximal pieces without delimiters, by recursion on the text.\<close>

fun words :: "string \<Rightarrow> string \<Rightarrow> string \<Rightarrow> string list" where
  "words cs w [] = (if w = [] then [] else [w])"
| "words cs w (c # s) =
     (if c \<in> set cs then (if w = [] then words cs [] s else w # words cs [] s) else words cs (w @ [c]) s)"

lemma words_skip: "words cs [] s = words cs [] (dropWhile (\<lambda>c. c \<in> set cs) s)"
  by (induction s) auto

lemma words_take:
  "words cs w s =
    (if w @ takeWhile (\<lambda>c. c \<notin> set cs) s = [] then words cs [] (dropWhile (\<lambda>c. c \<notin> set cs) s)
     else (w @ takeWhile (\<lambda>c. c \<notin> set cs) s) # words cs [] (dropWhile (\<lambda>c. c \<notin> set cs) s))"
  by (induction s arbitrary: w) auto

lemma drop_takeWhile: "drop (length (takeWhile P xs)) xs = dropWhile P xs"
  by (simp add: dropWhile_eq_drop)

lemma take_takeWhile: "take (length (takeWhile P xs)) xs = takeWhile P xs"
  by (induction xs) auto

lemma first_not_of_None:
  assumes "first_not_of cs s pos = None"
  shows "words cs [] (drop pos s) = []"
proof -
  let ?d = "drop pos s" and ?p = "\<lambda>c. c \<in> set cs"
  have "length (takeWhile ?p ?d) \<ge> length ?d"
    using assms by (auto simp: first_not_of_def Let_def split: if_splits)
  then have "dropWhile ?p ?d = []"
    by (metis drop_all drop_takeWhile)
  then show ?thesis
    using words_skip [of cs ?d] by (simp del: dropWhile_eq_Nil_conv)
qed

lemma first_not_of_Some:
  assumes "first_not_of cs s pos = Some i"
  shows "pos \<le> i \<and> i < length s \<and> words cs [] (drop pos s) = words cs [] (drop i s) \<and> s ! i \<notin> set cs"
proof -
  let ?d = "drop pos s" and ?p = "\<lambda>c. c \<in> set cs"
  let ?n = "length (takeWhile ?p ?d)"
  have i: "i = pos + ?n" "i < length s"
    using assms by (auto simp: first_not_of_def Let_def split: if_splits)
  have d: "drop i s = dropWhile ?p ?d"
    using i drop_takeWhile [of ?p ?d] by (simp add: add.commute)
  then have "dropWhile ?p ?d \<noteq> []"
    using i(2) by (metis drop_eq_Nil not_le)
  then have "hd (dropWhile ?p ?d) \<notin> set cs"
    by (rule hd_dropWhile)
  then show ?thesis
    using i d words_skip [of cs ?d] by (simp add: hd_drop_conv_nth flip: d)
qed

lemma nextToken_words:
  assumes "nextToken (mDelimiters t) t = (b, t')"
  shows "mDelimiters t' = mDelimiters t \<and> mString t' = mString t \<and>
    (if b then mOffset t < mOffset t' \<and> mOffset t' \<le> length (mString t) \<and>
        words (mDelimiters t) [] (drop (mOffset t) (mString t)) =
          mToken t' # words (mDelimiters t) [] (drop (mOffset t') (mString t))
     else words (mDelimiters t) [] (drop (mOffset t) (mString t)) = [])"
proof (cases "first_not_of (mDelimiters t) (mString t) (mOffset t)")
  case None
  then show ?thesis
    using assms first_not_of_None [OF None] by (auto simp: nextToken_def)
next
  case (Some i)
  let ?s = "mString t" and ?cs = "mDelimiters t"
  let ?w = "takeWhile (\<lambda>c. c \<notin> set ?cs) (drop i ?s)" and ?r = "dropWhile (\<lambda>c. c \<notin> set ?cs) (drop i ?s)"
  note i = first_not_of_Some [OF Some]
  have ne: "?w \<noteq> []"
    using i Cons_nth_drop_Suc [of i ?s] by (metis list.discI takeWhile.simps(2))
  have words: "words ?cs [] (drop (mOffset t) ?s) = ?w # words ?cs [] ?r"
    using i words_take [of ?cs "[]" "drop i ?s"] ne by simp
  have r: "?r = drop (i + length ?w) ?s"
    using drop_takeWhile [of "\<lambda>c. c \<notin> set ?cs" "drop i ?s"] by (simp add: add.commute)
  have w: "?w = take (length ?w) (drop i ?s)"
    by (simp only: take_takeWhile)
  have on: "mOffset t < i + length ?w"
    using i length_greater_0_conv [THEN iffD2, OF ne] by linarith
  have len: "length ?w \<le> length ?s - i"
    using length_takeWhile_le [of "\<lambda>c. c \<notin> set ?cs" "drop i ?s"] by simp
  show ?thesis
  proof (cases "i + length ?w < length ?s")
    case True
    then have "first_of ?cs ?s i = Some (i + length ?w)"
      by (simp add: first_of_def Let_def)
    then have "b \<and> mString t' = ?s \<and> mDelimiters t' = ?cs \<and> mOffset t' = i + length ?w \<and> mToken t' = ?w"
      using assms Some w by (auto simp: nextToken_def Let_def substr_def)
    then show ?thesis
      using words r True on by auto
  next
    case False
    then have "length (drop i ?s) \<le> length ?w"
      by simp
    then have all: "?w = drop i ?s" "?r = []"
      using w r False by (metis take_all, simp)
    have "first_of ?cs ?s i = None"
      using False by (simp add: first_of_def Let_def)
    then have "b \<and> mString t' = ?s \<and> mDelimiters t' = ?cs \<and> mOffset t' = length ?s \<and> mToken t' = ?w"
      unfolding all(1) using assms Some by (auto simp: nextToken_def Let_def substr_from_def)
    then show ?thesis
      using words all i by auto
  qed
qed

lemma getTokens_words:
  "\<exists>t'. getTokens t acc = Some (acc @ words (mDelimiters t) [] (drop (mOffset t) (mString t)), t')"
proof (induction "length (mString t) - mOffset t" arbitrary: t acc rule: less_induct)
  case less
  obtain b t' where run: "nextToken (mDelimiters t) t = (b, t')"
    by fastforce
  note step = nextToken_words [OF run]
  show ?case
  proof (cases b)
    case True
    then have "length (mString t') - mOffset t' < length (mString t) - mOffset t"
      using step by auto
    then obtain t'' where
      "getTokens t' (acc @ [mToken t']) =
        Some ((acc @ [mToken t']) @ words (mDelimiters t') [] (drop (mOffset t') (mString t')), t'')"
      using less [of t' "acc @ [mToken t']"] by blast
    then show ?thesis
      using True step run by (subst getTokens.simps) auto
  next
    case False
    then show ?thesis
      using step run by (subst getTokens.simps) auto
  qed
qed

text \<open>
  Cutting a text into tokens ends for every text and all delimiters, and gives the
  maximal pieces of the text that contain no delimiter, in order.
\<close>

theorem tokens_are_words:
  "\<exists>t. getTokens (new_tokeniser s delimiters) [] = Some (words delimiters [] s, t)"
  using getTokens_words [of "new_tokeniser s delimiters" "[]"] by (simp add: new_tokeniser_def)

end
