(* ===== verification/Crc.thy ===== *)
theory Crc
  imports Prelude
begin

text \<open>
  \<open>Crc.cpp\<close>: the checksums CRC-32, with a table for the bytes, and CRC-16, bit by bit from the top
  on reversed bytes. Both are shown to be the checksums computed bit by bit from the bottom.
\<close>

unbundle bit_operations_syntax

section \<open>CRC-32\<close>

definition crc32table :: "u32 list" where
  "crc32table =
     [0x00000000, 0x77073096, 0xee0e612c, 0x990951ba, 0x076dc419, 0x706af48f, 0xe963a535, 0x9e6495a3,
      0x0edb8832, 0x79dcb8a4, 0xe0d5e91e, 0x97d2d988, 0x09b64c2b, 0x7eb17cbd, 0xe7b82d07, 0x90bf1d91,
      0x1db71064, 0x6ab020f2, 0xf3b97148, 0x84be41de, 0x1adad47d, 0x6ddde4eb, 0xf4d4b551, 0x83d385c7,
      0x136c9856, 0x646ba8c0, 0xfd62f97a, 0x8a65c9ec, 0x14015c4f, 0x63066cd9, 0xfa0f3d63, 0x8d080df5,
      0x3b6e20c8, 0x4c69105e, 0xd56041e4, 0xa2677172, 0x3c03e4d1, 0x4b04d447, 0xd20d85fd, 0xa50ab56b,
      0x35b5a8fa, 0x42b2986c, 0xdbbbc9d6, 0xacbcf940, 0x32d86ce3, 0x45df5c75, 0xdcd60dcf, 0xabd13d59,
      0x26d930ac, 0x51de003a, 0xc8d75180, 0xbfd06116, 0x21b4f4b5, 0x56b3c423, 0xcfba9599, 0xb8bda50f,
      0x2802b89e, 0x5f058808, 0xc60cd9b2, 0xb10be924, 0x2f6f7c87, 0x58684c11, 0xc1611dab, 0xb6662d3d,
      0x76dc4190, 0x01db7106, 0x98d220bc, 0xefd5102a, 0x71b18589, 0x06b6b51f, 0x9fbfe4a5, 0xe8b8d433,
      0x7807c9a2, 0x0f00f934, 0x9609a88e, 0xe10e9818, 0x7f6a0dbb, 0x086d3d2d, 0x91646c97, 0xe6635c01,
      0x6b6b51f4, 0x1c6c6162, 0x856530d8, 0xf262004e, 0x6c0695ed, 0x1b01a57b, 0x8208f4c1, 0xf50fc457,
      0x65b0d9c6, 0x12b7e950, 0x8bbeb8ea, 0xfcb9887c, 0x62dd1ddf, 0x15da2d49, 0x8cd37cf3, 0xfbd44c65,
      0x4db26158, 0x3ab551ce, 0xa3bc0074, 0xd4bb30e2, 0x4adfa541, 0x3dd895d7, 0xa4d1c46d, 0xd3d6f4fb,
      0x4369e96a, 0x346ed9fc, 0xad678846, 0xda60b8d0, 0x44042d73, 0x33031de5, 0xaa0a4c5f, 0xdd0d7cc9,
      0x5005713c, 0x270241aa, 0xbe0b1010, 0xc90c2086, 0x5768b525, 0x206f85b3, 0xb966d409, 0xce61e49f,
      0x5edef90e, 0x29d9c998, 0xb0d09822, 0xc7d7a8b4, 0x59b33d17, 0x2eb40d81, 0xb7bd5c3b, 0xc0ba6cad,
      0xedb88320, 0x9abfb3b6, 0x03b6e20c, 0x74b1d29a, 0xead54739, 0x9dd277af, 0x04db2615, 0x73dc1683,
      0xe3630b12, 0x94643b84, 0x0d6d6a3e, 0x7a6a5aa8, 0xe40ecf0b, 0x9309ff9d, 0x0a00ae27, 0x7d079eb1,
      0xf00f9344, 0x8708a3d2, 0x1e01f268, 0x6906c2fe, 0xf762575d, 0x806567cb, 0x196c3671, 0x6e6b06e7,
      0xfed41b76, 0x89d32be0, 0x10da7a5a, 0x67dd4acc, 0xf9b9df6f, 0x8ebeeff9, 0x17b7be43, 0x60b08ed5,
      0xd6d6a3e8, 0xa1d1937e, 0x38d8c2c4, 0x4fdff252, 0xd1bb67f1, 0xa6bc5767, 0x3fb506dd, 0x48b2364b,
      0xd80d2bda, 0xaf0a1b4c, 0x36034af6, 0x41047a60, 0xdf60efc3, 0xa867df55, 0x316e8eef, 0x4669be79,
      0xcb61b38c, 0xbc66831a, 0x256fd2a0, 0x5268e236, 0xcc0c7795, 0xbb0b4703, 0x220216b9, 0x5505262f,
      0xc5ba3bbe, 0xb2bd0b28, 0x2bb45a92, 0x5cb36a04, 0xc2d7ffa7, 0xb5d0cf31, 0x2cd99e8b, 0x5bdeae1d,
      0x9b64c2b0, 0xec63f226, 0x756aa39c, 0x026d930a, 0x9c0906a9, 0xeb0e363f, 0x72076785, 0x05005713,
      0x95bf4a82, 0xe2b87a14, 0x7bb12bae, 0x0cb61b38, 0x92d28e9b, 0xe5d5be0d, 0x7cdcefb7, 0x0bdbdf21,
      0x86d3d2d4, 0xf1d4e242, 0x68ddb3f8, 0x1fda836e, 0x81be16cd, 0xf6b9265b, 0x6fb077e1, 0x18b74777,
      0x88085ae6, 0xff0f6a70, 0x66063bca, 0x11010b5c, 0x8f659eff, 0xf862ae69, 0x616bffd3, 0x166ccf45,
      0xa00ae278, 0xd70dd2ee, 0x4e048354, 0x3903b3c2, 0xa7672661, 0xd06016f7, 0x4969474d, 0x3e6e77db,
      0xaed16a4a, 0xd9d65adc, 0x40df0b66, 0x37d83bf0, 0xa9bcae53, 0xdebb9ec5, 0x47b2cf7f, 0x30b5ffe9,
      0xbdbdf21c, 0xcabac28a, 0x53b39330, 0x24b4a3a6, 0xbad03605, 0xcdd70693, 0x54de5729, 0x23d967bf,
      0xb3667a2e, 0xc4614ab8, 0x5d681b02, 0x2a6f2b94, 0xb40bbe37, 0xc30c8ea1, 0x5a05df1b, 0x2d02ef8d]"

text \<open>The loop over the bytes at \<open>p\<close>; the variants for a vector take its size with 32 bits.\<close>

fun crc32_loop :: "u32 \<Rightarrow> u8 list \<Rightarrow> u32" where
  "crc32_loop crc [] = crc"
| "crc32_loop crc (b # bs) =
     crc32_loop (crc32table ! unat ((crc XOR ucast b) AND 0xFF) XOR drop_bit 8 crc) bs"

definition crc32_from :: "u32 \<Rightarrow> u8 list \<Rightarrow> u32" where
  "crc32_from crc p = crc32_loop (crc XOR NOT 0) p XOR NOT 0"

definition crc32_vector_from :: "u32 \<Rightarrow> u8 list \<Rightarrow> u32" where
  "crc32_vector_from crc data = crc32_from crc (take (length data mod 2 ^ 32) data)"

definition crc32 :: "u8 list \<Rightarrow> u32" where
  "crc32 p = crc32_from 0 p"

definition crc32_vector :: "u8 list \<Rightarrow> u32" where
  "crc32_vector data = crc32_from 0 (take (length data mod 2 ^ 32) data)"

section \<open>CRC-16\<close>

definition WIDTH :: nat where
  "WIDTH = 16"

definition MSB :: u16 where
  "MSB = push_bit (WIDTH - 1) 1"

definition CRC16_POLYNOMIAL :: u16 where
  "CRC16_POLYNOMIAL = 0x8005"

fun reverse_loop :: "nat \<Rightarrow> nat list \<Rightarrow> u16 \<Rightarrow> u16 \<Rightarrow> u16" where
  "reverse_loop numBits [] data reversed = reversed"
| "reverse_loop numBits (i # is) data reversed =
     reverse_loop numBits is (drop_bit 1 data)
       (if data AND 0x01 \<noteq> 0 then reversed OR push_bit (numBits - 1 - i) 1 else reversed)"

definition bitReverse :: "u16 \<Rightarrow> nat \<Rightarrow> u16" where
  "bitReverse data numBits = reverse_loop numBits [0..<numBits] data 0"

text \<open>A byte of the buffer is a \<open>char\<close>, extended with its sign.\<close>

definition char_word :: "u8 \<Rightarrow> u16" where
  "char_word b = scast b"

definition ibm_bit :: "u16 \<Rightarrow> u16" where
  "ibm_bit r = (if r AND MSB \<noteq> 0 then push_bit 1 r XOR CRC16_POLYNOMIAL else push_bit 1 r)"

definition ibm_byte :: "u16 \<Rightarrow> u8 \<Rightarrow> u16" where
  "ibm_byte r b = (ibm_bit ^^ 8) (r XOR push_bit (WIDTH - 8) (bitReverse (char_word b) 8))"

definition calc_ibm :: "u8 list \<Rightarrow> u16" where
  "calc_ibm dataBuffer = bitReverse (foldl ibm_byte 0 dataBuffer) 16"

definition ccitt_bit :: "u16 \<Rightarrow> u16" where
  "ccitt_bit r = push_bit 1 r XOR (if r AND 0x8000 \<noteq> 0 then 0x1021 else 0)"

definition ccitt_byte :: "u16 \<Rightarrow> u8 \<Rightarrow> u16" where
  "ccitt_byte r b = (ccitt_bit ^^ 8) (r XOR push_bit (WIDTH - 8) (bitReverse (char_word b) 8))"

definition calc_ccitt :: "u8 list \<Rightarrow> u16" where
  "calc_ccitt dataBuffer = bitReverse (foldl ccitt_byte 0xffff dataBuffer) 16 XOR 0xffff"

section \<open>Checksums from the bottom bit\<close>

definition lsb_bit :: "'a::len word \<Rightarrow> 'a word \<Rightarrow> 'a word" where
  "lsb_bit poly r = (if bit r 0 then drop_bit 1 r XOR poly else drop_bit 1 r)"

definition lsb_byte :: "'a::len word \<Rightarrow> 'a word \<Rightarrow> u8 \<Rightarrow> 'a word" where
  "lsb_byte poly r b = (lsb_bit poly ^^ 8) (r XOR ucast b)"

lemma lsb_bit_xor: "lsb_bit poly (x XOR y) = lsb_bit poly x XOR lsb_bit poly y"
  by (auto simp: lsb_bit_def bit_xor_iff drop_bit_xor ac_simps)

lemma lsb_bits_xor: "(lsb_bit poly ^^ k) (x XOR y) = (lsb_bit poly ^^ k) x XOR (lsb_bit poly ^^ k) y"
  by (induction k) (simp_all add: lsb_bit_xor)

lemma lsb_bit_zero: "\<not> bit y k \<Longrightarrow> lsb_bit poly (drop_bit k y) = drop_bit (Suc k) y"
  by (simp add: lsb_bit_def bit_drop_bit_eq)

lemma lsb_bits_zeros: "(\<And>n. n < k \<Longrightarrow> \<not> bit y n) \<Longrightarrow> (lsb_bit poly ^^ k) y = drop_bit k y"
  by (induction k) (simp_all add: lsb_bit_zero)

lemma byte_mask: "(0xFF :: u32) = mask 8"
  by (simp add: mask_eq_exp_minus_1)

lemma byte_steps: "(lsb_bit poly ^^ 8) c = (lsb_bit poly ^^ 8) (c AND 0xFF) XOR drop_bit 8 (c :: u32)"
proof -
  let ?h = "c AND NOT (mask 8)"
  have "c = (c AND mask 8) XOR ?h"
    by (rule bit_word_eqI) (auto simp: bit_simps)
  then have "(lsb_bit poly ^^ 8) c = (lsb_bit poly ^^ 8) (c AND mask 8) XOR (lsb_bit poly ^^ 8) ?h"
    using lsb_bits_xor by metis
  moreover have "(lsb_bit poly ^^ 8) ?h = drop_bit 8 ?h"
    by (rule lsb_bits_zeros) (auto simp: bit_simps)
  moreover have "drop_bit 8 ?h = drop_bit 8 c"
    by (rule bit_word_eqI) (use bit_imp_le_length in \<open>fastforce simp: bit_simps\<close>)
  ultimately show ?thesis
    by (simp only: byte_mask)
qed

text \<open>The table holds the eight steps of every byte.\<close>

fun table_ok :: "u32 \<Rightarrow> u32 list \<Rightarrow> bool" where
  "table_ok i [] = True"
| "table_ok i (t # ts) = ((lsb_bit 0xEDB88320 ^^ 8) i = t \<and> table_ok (i + 1) ts)"

lemma eight_times: "(f ^^ 8) x = f (f (f (f (f (f (f (f x)))))))"
  by (simp add: numeral_eq_Suc)

lemma crc32table_ok: "table_ok 0 crc32table" "length crc32table = 256"
  by (simp_all add: crc32table_def eight_times lsb_bit_def)

lemma table_ok_nth: "\<lbrakk>table_ok i ts; n < length ts\<rbrakk> \<Longrightarrow> ts ! n = (lsb_bit 0xEDB88320 ^^ 8) (i + of_nat n)"
proof (induction ts arbitrary: i n)
  case (Cons t ts)
  then show ?case
    by (cases n) (auto simp: algebra_simps)
qed simp

lemma crc32table_step: "unat (w :: u32) < 256 \<Longrightarrow> crc32table ! unat w = (lsb_bit 0xEDB88320 ^^ 8) w"
  using table_ok_nth [OF crc32table_ok(1), of "unat w"] crc32table_ok(2) by simp

lemma low_byte: "unat (c AND 0xFF :: u32) < 256"
  using take_bit_nat_less_exp [of 8 "unat c"] by (simp add: byte_mask unsigned_take_bit_eq flip: take_bit_eq_mask)

lemma crc32_step:
  "crc32table ! unat ((crc XOR ucast b) AND 0xFF) XOR drop_bit 8 crc = lsb_byte 0xEDB88320 crc b"
proof -
  have "drop_bit 8 (crc XOR ucast b :: u32) = drop_bit 8 crc"
    by (rule bit_word_eqI) (auto simp: bit_simps dest: bit_imp_le_length)
  then show ?thesis
    using byte_steps [of "0xEDB88320" "crc XOR ucast b"] crc32table_step [OF low_byte]
    by (simp add: lsb_byte_def)
qed

lemma crc32_loop_bitwise: "crc32_loop crc bs = foldl (lsb_byte 0xEDB88320) crc bs"
  by (induction bs arbitrary: crc) (simp_all add: crc32_step)

text \<open>
  C34: the checksum with the table is the checksum computed bit by bit with the reversed polynomial
  0xEDB88320, and the checksum of two pieces of data is computed by going on from that of the first.
\<close>

theorem crc32_bitwise:
  "crc32_from crc p = NOT (foldl (lsb_byte 0xEDB88320) (NOT crc) p) \<and>
   crc32_from (crc32_from crc p) q = crc32_from crc (p @ q)"
  by (simp add: crc32_from_def crc32_loop_bitwise xor.assoc)

section \<open>Reversed bits\<close>

lemma reverse_loop_bit:
  "\<lbrakk>k < n; n \<le> 16; m \<le> n\<rbrakk> \<Longrightarrow>
    bit (reverse_loop n [m..<n] data r) k \<longleftrightarrow> bit r k \<or> (k < n - m \<and> bit data (n - 1 - k - m))"
proof (induction "n - m" arbitrary: m data r)
  case (Suc d)
  then have m: "[m..<n] = m # [Suc m..<n]" "m < n"
    by (simp_all add: upt_conv_Cons)
  let ?r = "if data AND 1 \<noteq> 0 then r OR push_bit (n - 1 - m) 1 else r"
  have "data AND 1 \<noteq> 0 \<longleftrightarrow> bit data 0"
    by (simp add: and_one_eq bit_0 odd_iff_mod_2_eq_one)
  then have "bit ?r k \<longleftrightarrow> bit r k \<or> (bit data 0 \<and> k = n - 1 - m)"
    using Suc.prems m(2) by (auto simp: bit_or_iff bit_exp_iff)
  moreover have "bit (reverse_loop n [Suc m..<n] (drop_bit 1 data) ?r) k \<longleftrightarrow>
      bit ?r k \<or> (k < n - Suc m \<and> bit (drop_bit 1 data) (n - 1 - k - Suc m))"
    using Suc.hyps(1) [of "Suc m"] Suc.hyps(2) Suc.prems m(2) by simp
  moreover have "k < n - Suc m \<Longrightarrow> Suc (n - 1 - k - Suc m) = n - 1 - k - m"
    using Suc.prems by simp
  moreover have "k = n - 1 - m \<or> k < n - Suc m \<longleftrightarrow> k < n - m" "k = n - 1 - m \<Longrightarrow> n - 1 - k - m = 0"
    using m(2) by auto
  ultimately show ?case
    unfolding m(1) reverse_loop.simps by (auto simp: bit_drop_bit_eq)
qed simp

lemma bitReverse_bit: "\<lbrakk>n \<le> 16; k < n\<rbrakk> \<Longrightarrow> bit (bitReverse data n) k \<longleftrightarrow> bit data (n - 1 - k)"
  using reverse_loop_bit [of k n 0 data 0] by (simp add: bitReverse_def)

lemma reverse_reverse: "bitReverse (bitReverse w 16) 16 = w"
  by (rule bit_word_eqI) (simp add: bitReverse_bit)

lemma reverse_xor: "bitReverse (x XOR y) 16 = bitReverse x 16 XOR bitReverse y 16"
  by (rule bit_word_eqI) (simp add: bitReverse_bit bit_xor_iff)

lemma reverse_shift: "push_bit 1 (bitReverse r 16) = bitReverse (drop_bit 1 r) 16"
proof (rule bit_word_eqI)
  fix n
  assume n: "n < LENGTH(16)"
  have l: "bit (push_bit 1 (bitReverse r 16)) n \<longleftrightarrow> 1 \<le> n \<and> bit (bitReverse r 16) (n - 1)"
    using n by (simp only: bit_push_bit_iff) simp
  have "\<not> bit r 16"
    using bit_imp_le_length [of r 16] by auto
  moreover have "15 - m = Suc (14 - m)" if "m < 15" for m :: nat
    using that by simp
  ultimately show "bit (push_bit 1 (bitReverse r 16)) n = bit (bitReverse (drop_bit 1 r) 16) n"
    unfolding l using n by (cases n) (simp_all add: bitReverse_bit bit_drop_bit_eq)
qed

lemma reverse_double: "bitReverse r 16 * 2 = bitReverse (drop_bit (Suc 0) r) 16"
  using reverse_shift [of r] by simp

lemma top_bit: "bitReverse r 16 AND 0x8000 \<noteq> 0 \<longleftrightarrow> bit r 0"
proof -
  have "(0x8000 :: u16) = push_bit 15 1"
    by (simp add: push_bit_eq_mult)
  then have "bitReverse r 16 AND 0x8000 \<noteq> 0 \<longleftrightarrow> bit (bitReverse r 16) 15"
    by (metis bit_iff_and_push_bit_not_eq_0)
  then show ?thesis
    by (simp add: bitReverse_bit)
qed

text \<open>A byte, extended with its sign and reversed, in the upper half.\<close>

lemma reverse_loop_high:
  "\<lbrakk>\<forall>i \<in> set is. i < n; \<not> bit r k; n \<le> k\<rbrakk> \<Longrightarrow> \<not> bit (reverse_loop n is data r) k"
proof (induction "is" arbitrary: data r)
  case (Cons i "is")
  then have "\<not> bit (r OR push_bit (n - 1 - i) 1) k"
    by (auto simp: bit_or_iff bit_exp_iff)
  then show ?case
    using Cons by simp
qed simp

lemma reverse_byte: "push_bit 8 (bitReverse (char_word b) 8) = bitReverse (ucast b) 16"
proof (rule bit_word_eqI)
  fix n
  assume n: "n < LENGTH(16)"
  have b: "bit (char_word b) k = bit b k" if "k < 8" for k
    using that by (simp add: char_word_def bit_signed_iff)
  show "bit (push_bit 8 (bitReverse (char_word b) 8)) n = bit (bitReverse (ucast b) 16) n"
  proof (cases "n < 8")
    case True
    then show ?thesis
      using n bit_imp_le_length [of b "15 - n"] by (auto simp: bitReverse_bit bit_push_bit_iff bit_ucast_iff)
  next
    case False
    then have "7 - (n - 8) = 15 - n" "n - 8 < 8" "15 - n < 8"
      using n by simp_all
    then show ?thesis
      using n False b by (simp add: bitReverse_bit bit_push_bit_iff bit_ucast_iff)
  qed
qed

lemma polynomials: "MSB = 0x8000" "bitReverse 0xA001 16 = 0x8005" "bitReverse 0x8408 16 = 0x1021"
  by (simp_all add: MSB_def WIDTH_def bitReverse_def upt_conv_Cons)

lemma ibm_bit_reverse: "ibm_bit (bitReverse r 16) = bitReverse (lsb_bit 0xA001 r) 16"
  by (simp add: ibm_bit_def lsb_bit_def polynomials top_bit reverse_double reverse_xor CRC16_POLYNOMIAL_def)

lemma ccitt_bit_reverse: "ccitt_bit (bitReverse r 16) = bitReverse (lsb_bit 0x8408 r) 16"
  by (simp add: ccitt_bit_def lsb_bit_def polynomials top_bit reverse_double reverse_xor)

lemma ibm_byte_reverse: "ibm_byte (bitReverse r 16) b = bitReverse (lsb_byte 0xA001 r b) 16"
proof -
  have "(ibm_bit ^^ k) (bitReverse x 16) = bitReverse ((lsb_bit 0xA001 ^^ k) x) 16" for k x
    by (induction k) (simp_all add: ibm_bit_reverse)
  then show ?thesis
    by (simp add: ibm_byte_def lsb_byte_def WIDTH_def reverse_byte flip: reverse_xor)
qed

lemma ccitt_byte_reverse: "ccitt_byte (bitReverse r 16) b = bitReverse (lsb_byte 0x8408 r b) 16"
proof -
  have "(ccitt_bit ^^ k) (bitReverse x 16) = bitReverse ((lsb_bit 0x8408 ^^ k) x) 16" for k x
    by (induction k) (simp_all add: ccitt_bit_reverse)
  then show ?thesis
    by (simp add: ccitt_byte_def lsb_byte_def WIDTH_def reverse_byte flip: reverse_xor)
qed

lemma foldl_reverse:
  "(\<And>r b. f (bitReverse r 16) b = bitReverse (g r b) 16) \<Longrightarrow>
    foldl f (bitReverse r 16) bs = bitReverse (foldl g r bs) 16"
  by (induction bs arbitrary: r) simp_all

lemma reverse_constants: "bitReverse 0 16 = 0" "bitReverse 0xffff 16 = 0xffff"
  by (simp_all add: bitReverse_def upt_conv_Cons)

text \<open>
  The two CRC-16 checksums, computed from the top on reversed bytes, are those computed from the
  bottom bit with the reversed polynomials 0xA001 and 0x8408.
\<close>

theorem crc16_bitwise:
  "calc_ibm p = foldl (lsb_byte 0xA001) 0 p \<and>
   calc_ccitt p = foldl (lsb_byte 0x8408) 0xffff p XOR 0xffff"
  using foldl_reverse [of ibm_byte "lsb_byte 0xA001" 0 p, OF ibm_byte_reverse]
    foldl_reverse [of ccitt_byte "lsb_byte 0x8408" "0xffff" p, OF ccitt_byte_reverse]
  by (simp add: calc_ibm_def calc_ccitt_def reverse_constants reverse_reverse)

end
