(* ===== verification/BootEnv.thy ===== *)
theory BootEnv
  imports YangParam Tokeniser Crc "HOL-Library.Monad_Syntax"
begin

text \<open>
  \<open>i2cenv\<close>, the tool for the environment of the boot loader: \<open>BootEnvDevice.cpp\<close> (one copy of the
  environment in a flash partition, with a checksum), \<open>BootEnv.cpp\<close>, \<open>SingleBootEnv.cpp\<close>,
  \<open>Zcu111BootEnv.cpp\<close> (the banks) and \<open>ByteTransfer.hpp\<close>. The environment is a map in the order of its
  names. The flash is a parameter: \<open>'d\<close> is its state and the record \<open>mtd\<close> what the system calls do with
  it. The outer \<open>None\<close> is undefined behaviour: an access outside a buffer, a division by zero. The texts of
  errors go to \<open>stderr\<close> and are left out.
\<close>

unbundle bit_operations_syntax

section \<open>Bytes\<close>

type_synonym vars = "(string \<times> string) list"

definition char_byte :: "char \<Rightarrow> u8" where
  "char_byte c = of_nat (of_char c)"

definition byte_char :: "u8 \<Rightarrow> char" where
  "byte_char b = char_of (unat b)"

text \<open>A reader is what is left of the buffer; past its end bytes are 0.\<close>

definition readByte :: "u8 list \<Rightarrow> u8 \<times> u8 list" where
  "readByte data = (case data of [] \<Rightarrow> (0, []) | b # bs \<Rightarrow> (b, bs))"

fun readString :: "u8 list \<Rightarrow> string \<times> u8 list" where
  "readString [] = ([], [])"
| "readString (cc # data) =
     (if cc = 0 then ([], data) else let (str, data) = readString data in (byte_char cc # str, data))"

fun readValLE :: "nat \<Rightarrow> nat \<Rightarrow> u8 list \<Rightarrow> u32 \<times> u8 list" where
  "readValLE 0 shift data = (0, data)"
| "readValLE (Suc n) shift [] = (0, [])"
| "readValLE (Suc n) shift (b # data) =
     (let (val, data) = readValLE n (shift + 8) data in (push_bit shift (ucast b) OR val, data))"

definition readWordLE :: "u8 list \<Rightarrow> u32 \<times> u8 list" where
  "readWordLE data = readValLE 4 0 data"

text \<open>A writer is what was written and what is left; writing past the end does nothing.\<close>

type_synonym writer = "u8 list \<times> u8 list"

definition writeByte :: "u8 \<Rightarrow> writer \<Rightarrow> writer" where
  "writeByte v w = (case w of (done, []) \<Rightarrow> (done, []) | (done, b # rest) \<Rightarrow> (done @ [v], rest))"

definition writeString :: "string \<Rightarrow> writer \<Rightarrow> writer" where
  "writeString str w = writeByte 0 (fold (\<lambda>cc. writeByte (char_byte cc)) str w)"

definition writeWord :: "u32 \<Rightarrow> writer \<Rightarrow> writer" where
  "writeWord v w = fold (\<lambda>shift. writeByte (ucast (drop_bit shift v AND 0xFF))) [24, 16, 8, 0] w"

definition writeWordLE :: "u32 \<Rightarrow> writer \<Rightarrow> writer" where
  "writeWordLE v w = fold (\<lambda>shift. writeByte (ucast (drop_bit shift v AND 0xFF))) [0, 8, 16, 24] w"

section \<open>The flash\<close>

record 'd mtd =
  mtd_open_read :: "string \<Rightarrow> 'd \<Rightarrow> bool"
  mtd_read :: "string \<Rightarrow> nat \<Rightarrow> 'd \<Rightarrow> u8 list option"
  mtd_open_rdwr :: "string \<Rightarrow> 'd \<Rightarrow> bool"
  mtd_regions :: "string \<Rightarrow> 'd \<Rightarrow> bool"
  mtd_info :: "string \<Rightarrow> 'd \<Rightarrow> (u32 \<times> u32) option"
  mtd_erase :: "string \<Rightarrow> u32 \<Rightarrow> u32 \<Rightarrow> 'd \<Rightarrow> bool \<times> 'd"
  mtd_open_write :: "string \<Rightarrow> 'd \<Rightarrow> bool"
  mtd_write :: "string \<Rightarrow> u8 list \<Rightarrow> 'd \<Rightarrow> int \<times> 'd"
  mtd_lines :: "'d \<Rightarrow> string list option"

section \<open>One device\<close>

record boot_device =
  bd_flag :: bool
  bd_size :: nat
  bd_valid :: bool
  bd_index :: nat
  bd_name :: string
  bd_active :: bool
  bd_env :: vars

definition NOR_CRC_SIZE :: nat where "NOR_CRC_SIZE = 4"
definition NOR_FLAG_SIZE :: nat where "NOR_FLAG_SIZE = 1"

definition dataOffset :: "boot_device \<Rightarrow> nat" where
  "dataOffset e = NOR_CRC_SIZE + (if bd_flag e then NOR_FLAG_SIZE else 0)"

text \<open>The strings up to the first empty one; those of the form \<open>var=value\<close> are taken.\<close>

lemma readString_shorter: "readString data = (s, rest) \<Longrightarrow> s \<noteq> [] \<Longrightarrow> length rest < length data"
proof (induction data arbitrary: s rest)
  case (Cons b data)
  show ?case
  proof (cases "b = 0")
    case False
    obtain s' rest' where r: "readString data = (s', rest')"
      by fastforce
    then have "length rest' \<le> length data"
      using Cons.IH by (cases "s' = []"; cases data) (auto split: if_splits prod.splits)
    then show ?thesis
      using Cons.prems False r by auto
  qed (use Cons.prems in auto)
qed simp

function read_env :: "u8 list \<Rightarrow> vars \<Rightarrow> vars" where
  "read_env data env =
     (let (envStr, data') = readString data in
      if envStr = [] then env
      else case find_char (CHR ''='') envStr of
        None \<Rightarrow> read_env data' env
      | Some pos \<Rightarrow> read_env data' (map_put (substr envStr 0 pos) (substr_from envStr (pos + 1)) env))"
  by pat_completeness auto

termination
  by (relation "measure (\<lambda>(data, env). length data)") (auto dest: readString_shorter [OF sym])

declare read_env.simps [simp del]

text \<open>\<open>read\<close>: the validity is that of the checksum, until the constructor replaces it.\<close>

definition device_read :: "'d mtd \<Rightarrow> 'd \<Rightarrow> boot_device \<Rightarrow> (bool \<times> boot_device) option" where
  "device_read k d e =
     (if \<not> mtd_open_read k (bd_name e) d then Some (False, e)
      else case mtd_read k (bd_name e) (bd_size e) d of
        None \<Rightarrow> Some (False, e)
      | Some data \<Rightarrow>
          if length data < bd_size e then Some (False, e)
          else if bd_size e < dataOffset e then None
          else
            let (crc, rest) = readWordLE data;
                crcReal = crc32 (drop (dataOffset e) data);
                e = e\<lparr>bd_valid := (crc = crcReal)\<rparr>;
                (active, rest) = (if bd_flag e then let (flag, rest) = readByte rest in (flag > 0, rest) else (True, rest)) in
            Some (True, e\<lparr>bd_active := active, bd_env := read_env rest (bd_env e)\<rparr>))"

definition new_device :: "'d mtd \<Rightarrow> 'd \<Rightarrow> nat \<Rightarrow> string \<Rightarrow> bool \<Rightarrow> nat \<Rightarrow> boot_device option" where
  "new_device k d index devName flagSupported envSize =
     map_option (\<lambda>(r, e). e\<lparr>bd_valid := r\<rparr>)
       (device_read k d \<lparr>bd_flag = flagSupported, bd_size = envSize, bd_valid = False, bd_index = index, bd_name = devName,
          bd_active = False, bd_env = []\<rparr>)"

text \<open>The image that is written: the checksum is put before the rest when the rest is complete.\<close>

definition env_strings :: "vars \<Rightarrow> string list" where
  "env_strings env = map (\<lambda>(var, val). var @ ''='' @ val) env"

definition write_fields :: "boot_device \<Rightarrow> writer \<Rightarrow> writer" where
  "write_fields e w =
     (let w = writeWord 0xffffffff w;
          w = (if bd_flag e then writeByte (if bd_active e then 1 else 0) w else w) in
      writeByte 0 (fold writeString (env_strings (bd_env e)) w))"

definition device_image :: "boot_device \<Rightarrow> u8 list" where
  "device_image e =
     (let (done, rest) = write_fields e ([], replicate (bd_size e) 0xff);
          data = done @ rest;
          crc = crc32 (drop (dataOffset e) data);
          (done, rest) = writeWordLE crc ([], data) in
      done @ rest)"

text \<open>\<open>eraseFlash\<close>: every block of the partition.\<close>

fun erase_blocks :: "'d mtd \<Rightarrow> string \<Rightarrow> u32 \<Rightarrow> nat \<Rightarrow> nat \<Rightarrow> 'd \<Rightarrow> bool \<times> 'd" where
  "erase_blocks k name erasesize pos 0 d = (True, d)"
| "erase_blocks k name erasesize pos (Suc n) d =
     (case mtd_erase k name (of_nat pos * erasesize) erasesize d of
        (False, d) \<Rightarrow> (False, d)
      | (True, d) \<Rightarrow> erase_blocks k name erasesize (pos + 1) n d)"

definition eraseFlash :: "'d mtd \<Rightarrow> string \<Rightarrow> 'd \<Rightarrow> (bool \<times> 'd) option" where
  "eraseFlash k name d =
     (if \<not> mtd_open_rdwr k name d then Some (False, d)
      else if \<not> mtd_regions k name d then Some (False, d)
      else case mtd_info k name d of
        None \<Rightarrow> Some (False, d)
      | Some (bytes, erasesize) \<Rightarrow>
          if erasesize = 0 then None
          else Some (erase_blocks k name erasesize 0 (nat (sint (bytes div erasesize))) d))"

definition device_write :: "'d mtd \<Rightarrow> boot_device \<Rightarrow> 'd \<Rightarrow> (bool \<times> 'd) option" where
  "device_write k e d =
     (if bd_size e < dataOffset e then None
      else
        let data = device_image e in
        do { (erased, d) \<leftarrow> eraseFlash k (bd_name e) d;
             (if \<not> erased then Some (False, d)
              else if \<not> mtd_open_write k (bd_name e) d then Some (False, d)
              else
                let (written, d) = mtd_write k (bd_name e) data d in
                Some (if written < 0 then False else if nat written < length data then False else True, d)) })"

section \<open>The banks\<close>

text \<open>
  A kind of environment: whether a bank has a flag, the largest size of a bank (0 for any), the number of
  banks, the lines of \<open>/proc/mtd\<close> that are banks, and whether the active bank is rewritten in place.
\<close>

record env_class =
  ec_flag :: bool
  ec_max :: nat
  ec_banks :: nat
  ec_line :: "string \<Rightarrow> nat option"
  ec_single :: bool

text \<open>The pointers to the active and the inactive device are positions in the list of the devices.\<close>

record boot_env =
  be_devices :: "boot_device list"
  be_active :: "nat option"
  be_inactive :: "nat option"

definition no_banks :: boot_env where
  "no_banks = \<lparr>be_devices = [], be_active = None, be_inactive = None\<rparr>"

definition extractUnsigned :: "string \<Rightarrow> nat \<Rightarrow> nat option" where
  "extractUnsigned s pos =
     (case first_of ''0123456789'' s pos of
        None \<Rightarrow> None
      | Some start \<Rightarrow>
          let stop = (case first_not_of ''0123456789'' s (start + 1) of None \<Rightarrow> length s | Some i \<Rightarrow> i);
              n = digits_value 10 (substr s start (stop - start)) in
          Some ((if n \<ge> 2 ^ 64 then 2 ^ 64 - 1 else n) mod 2 ^ 32))"

fun find_text :: "string \<Rightarrow> string \<Rightarrow> nat option" where
  "find_text t [] = (if t = [] then Some 0 else None)"
| "find_text t (c # s) = (if prefix t (c # s) then Some 0 else map_option Suc (find_text t s))"

definition ubenv_line :: "string \<Rightarrow> nat option" where
  "ubenv_line line =
     (case find_text (CHR 0x22 # ''ubenv'') line of
        None \<Rightarrow> None
      | Some spos \<Rightarrow> (case extractUnsigned line spos of None \<Rightarrow> None | Some n \<Rightarrow> if n = 0 then None else Some n))"

definition bootenv_line :: "string \<Rightarrow> nat option" where
  "bootenv_line line = (if find_text ''bootenv'' line = None then None else Some 1)"

text \<open>\<open>BootEnv\<close> itself, with two banks, and \<open>Zcu111BootEnv\<close>, with one.\<close>

definition two_banks :: env_class where
  "two_banks = \<lparr>ec_flag = True, ec_max = 16 * 1024, ec_banks = 2, ec_line = ubenv_line, ec_single = False\<rparr>"

definition zcu111_env :: env_class where
  "zcu111_env = \<lparr>ec_flag = False, ec_max = 0, ec_banks = 1, ec_line = bootenv_line, ec_single = True\<rparr>"

text \<open>\<open>strtoul(s, nullptr, 16)\<close> cut to 32 bits.\<close>

definition hex_number :: "string \<Rightarrow> nat" where
  "hex_number s =
     (let (neg, s1) = split_sign (dropWhile is_space s);
          s2 = (if char_at s1 0 = CHR ''0'' \<and> char_at s1 1 \<in> {CHR ''x'', CHR ''X''} \<and> is_digit 16 (char_at s1 2) then drop 2 s1 else s1);
          n = digits_value 16 (takeWhile (is_digit 16) s2) in
      (if n \<ge> 2 ^ 64 then 2 ^ 64 - 1 else if neg then (2 ^ 64 - n) mod 2 ^ 64 else n) mod 2 ^ 32)"

record partition =
  pi_name :: string
  pi_size :: nat
  pi_erase :: nat

definition device_line :: "env_class \<Rightarrow> string \<Rightarrow> (nat \<times> partition) option" where
  "device_line c line =
     do { index \<leftarrow> ec_line c line;
          pos \<leftarrow> find_char (CHR '':'') line;
          sizepos \<leftarrow> first_not_of '' '' line (pos + 1);
          sizeendpos \<leftarrow> first_of '' '' line sizepos;
          erasepos \<leftarrow> first_not_of '' '' line (sizeendpos + 1);
          let bytes = hex_number (substr_from line sizepos) in
          Some (index, \<lparr>pi_name = ''/dev/'' @ substr line 0 pos,
                   pi_size = (if ec_max c > 0 \<and> bytes > ec_max c then ec_max c else bytes),
                   pi_erase = hex_number (substr_from line erasepos)\<rparr>) }"

fun part_put :: "nat \<Rightarrow> partition \<Rightarrow> (nat \<times> partition) list \<Rightarrow> (nat \<times> partition) list" where
  "part_put i p [] = [(i, p)]"
| "part_put i p ((j, q) # m) =
     (if i < j then (i, p) # (j, q) # m else if i = j then (i, p) # m else (j, q) # part_put i p m)"

definition getDeviceList :: "'d mtd \<Rightarrow> env_class \<Rightarrow> 'd \<Rightarrow> (nat \<times> partition) list" where
  "getDeviceList k c d =
     (case mtd_lines k d of
        None \<Rightarrow> []
      | Some lines \<Rightarrow> fold (\<lambda>line m. case device_line c line of None \<Rightarrow> m | Some (i, p) \<Rightarrow> part_put i p m) lines [])"

section \<open>Finding the banks\<close>

text \<open>One device: it is kept when it could be read; of several active ones the first stays active.\<close>

definition add_device :: "'d mtd \<Rightarrow> env_class \<Rightarrow> nat \<times> partition \<Rightarrow> boot_env \<times> 'd \<Rightarrow> (boot_env \<times> 'd) option" where
  "add_device k c entry bd =
     (let (b, d) = bd; (index, p) = entry in
      do { e \<leftarrow> new_device k d index (pi_name p) (ec_flag c) (pi_size p);
           let here = length (be_devices b) in
           (if \<not> bd_valid e then Some (b, d)
            else if bd_active e \<and> be_active b = None then
              Some (b\<lparr>be_devices := be_devices b @ [e], be_active := Some here\<rparr>, d)
            else if bd_active e then
              (let e = e\<lparr>bd_active := False\<rparr> in
               do { (_, d) \<leftarrow> device_write k e d;
                    Some (b\<lparr>be_devices := be_devices b @ [e], be_inactive := Some here\<rparr>, d) })
            else Some (b\<lparr>be_devices := be_devices b @ [e], be_inactive := Some here\<rparr>, d)) })"

fun add_devices :: "'d mtd \<Rightarrow> env_class \<Rightarrow> (nat \<times> partition) list \<Rightarrow> boot_env \<times> 'd \<Rightarrow> (boot_env \<times> 'd) option" where
  "add_devices k c [] bd = Some bd"
| "add_devices k c (entry # entries) bd = do { bd \<leftarrow> add_device k c entry bd; add_devices k c entries bd }"

text \<open>\<open>init\<close> gives \<open>false\<close> when it has found an active bank.\<close>

definition boot_init :: "'d mtd \<Rightarrow> env_class \<Rightarrow> 'd \<Rightarrow> (bool \<times> boot_env \<times> 'd) option" where
  "boot_init k c d =
     do { (b, d) \<leftarrow> add_devices k c (getDeviceList k c d) (no_banks, d);
          (if length (be_devices b) < ec_banks c then Some (False, b, d)
           else if be_active b \<noteq> None then Some (False, b, d)
           else
             case be_devices b of
               [] \<Rightarrow> None
             | e # es \<Rightarrow>
                 (let e = e\<lparr>bd_active := True\<rparr> in
                  do { (_, d) \<leftarrow> device_write k e d;
                       Some (True, b\<lparr>be_devices := e # es, be_active := Some 0\<rparr>, d) })) }"

section \<open>Reading and changing variables\<close>

definition checkState :: "env_class \<Rightarrow> boot_env \<Rightarrow> bool" where
  "checkState c b =
     (if length (be_devices b) < ec_banks c then False
      else if be_active b = None then False
      else if ec_banks c < 2 then True
      else be_inactive b \<noteq> None)"

definition active_device :: "boot_env \<Rightarrow> boot_device" where
  "active_device b = be_devices b ! the (be_active b)"

definition boot_getVars :: "env_class \<Rightarrow> boot_env \<Rightarrow> vars" where
  "boot_getVars c b = (if checkState c b then bd_env (active_device b) else [])"

definition boot_isVar :: "env_class \<Rightarrow> boot_env \<Rightarrow> string \<Rightarrow> bool" where
  "boot_isVar c b var = (if checkState c b then map_of (bd_env (active_device b)) var \<noteq> None else False)"

definition boot_getVar :: "env_class \<Rightarrow> boot_env \<Rightarrow> string \<Rightarrow> string" where
  "boot_getVar c b var =
     (if checkState c b then (case map_of (bd_env (active_device b)) var of None \<Rightarrow> [] | Some v \<Rightarrow> v) else [])"

text \<open>\<open>writeActive\<close> and \<open>writeInactive\<close>, which makes the other bank active before it is written.\<close>

definition writeActive :: "'d mtd \<Rightarrow> env_class \<Rightarrow> vars \<Rightarrow> boot_env \<Rightarrow> 'd \<Rightarrow> (bool \<times> boot_env \<times> 'd) option" where
  "writeActive k c newEnv b d =
     (if \<not> checkState c b then Some (False, b, d)
      else
        let i = the (be_active b);
            e = (be_devices b ! i)\<lparr>bd_env := newEnv\<rparr>;
            b = b\<lparr>be_devices := (be_devices b)[i := e]\<rparr> in
        do { (ok, d) \<leftarrow> device_write k e d; Some (ok, b, d) })"

definition writeInactive :: "'d mtd \<Rightarrow> env_class \<Rightarrow> vars \<Rightarrow> boot_env \<Rightarrow> 'd \<Rightarrow> (bool \<times> boot_env \<times> 'd) option" where
  "writeInactive k c newEnv b d =
     (if \<not> checkState c b then Some (False, b, d)
      else
        let i = the (be_active b);
            e = (be_devices b ! i)\<lparr>bd_active := False\<rparr>;
            b = b\<lparr>be_devices := (be_devices b)[i := e]\<rparr> in
        do { (ok, d) \<leftarrow> device_write k e d;
             (if \<not> ok then Some (False, b, d)
              else if ec_banks c < 2 then Some (True, b, d)
              else
                let j = the (be_inactive b);
                    e = (be_devices b ! j)\<lparr>bd_active := True, bd_env := newEnv\<rparr>;
                    b = b\<lparr>be_devices := (be_devices b)[j := e]\<rparr> in
                do { (ok, d) \<leftarrow> device_write k e d;
                     (if \<not> ok then Some (False, b, d)
                      else Some (True, b\<lparr>be_active := Some j, be_inactive := Some i\<rparr>, d)) }) })"

definition writeEnv :: "'d mtd \<Rightarrow> env_class \<Rightarrow> vars \<Rightarrow> boot_env \<Rightarrow> 'd \<Rightarrow> (bool \<times> boot_env \<times> 'd) option" where
  "writeEnv k c newEnv b d = (if ec_single c then writeActive k c newEnv b d else writeInactive k c newEnv b d)"

definition boot_setVar :: "'d mtd \<Rightarrow> env_class \<Rightarrow> vars \<Rightarrow> boot_env \<Rightarrow> 'd \<Rightarrow> (bool \<times> boot_env \<times> 'd) option" where
  "boot_setVar k c changes b d =
     (if \<not> checkState c b then Some (False, b, d)
      else writeEnv k c (fold (\<lambda>(var, val). map_put var val) changes (bd_env (active_device b))) b d)"

definition boot_deleteVar :: "'d mtd \<Rightarrow> env_class \<Rightarrow> string list \<Rightarrow> boot_env \<Rightarrow> 'd \<Rightarrow> (bool \<times> boot_env \<times> 'd) option" where
  "boot_deleteVar k c names b d =
     (if \<not> checkState c b then Some (False, b, d)
      else writeEnv k c (filter (\<lambda>(var, val). var \<notin> set names) (bd_env (active_device b))) b d)"

definition boot_resetVars :: "'d mtd \<Rightarrow> env_class \<Rightarrow> vars \<Rightarrow> boot_env \<Rightarrow> 'd \<Rightarrow> (bool \<times> boot_env \<times> 'd) option" where
  "boot_resetVars k c newEnv b d = (if \<not> checkState c b then Some (False, b, d) else writeEnv k c newEnv b d)"

section \<open>What is written\<close>

definition put :: "u8 list \<Rightarrow> writer \<Rightarrow> writer" where
  "put bs w = (fst w @ take (length (snd w)) bs, drop (length bs) (snd w))"

lemma put_Nil [simp]: "put [] w = w"
  by (simp add: put_def)

lemma writeByte_put: "writeByte v w = put [v] w"
  by (cases w; cases "snd w") (auto simp: writeByte_def put_def)

lemma put_put: "put cs (put bs w) = put (bs @ cs) w"
  by (auto simp: put_def drop_drop add.commute)

lemma fold_put: "fold (\<lambda>x. put (f x)) xs w = put (concat (map f xs)) w"
  by (induction xs arbitrary: w) (simp_all add: put_put)

lemma writeString_put: "writeString s w = put (map char_byte s @ [0]) w"
proof -
  have "concat (map (\<lambda>c. [char_byte c]) s) = map char_byte s"
    by (induction s) auto
  moreover have "(\<lambda>cc. writeByte (char_byte cc)) = (\<lambda>cc. put [char_byte cc])"
    by (simp add: fun_eq_iff writeByte_put)
  ultimately show ?thesis
    by (simp add: writeString_def writeByte_put fold_put put_put)
qed

definition crc_bytes :: "u32 \<Rightarrow> u8 list" where
  "crc_bytes v = map (\<lambda>shift. ucast (drop_bit shift v AND 0xFF)) [0, 8, 16, 24]"

lemma writeWordLE_put: "writeWordLE v w = put (crc_bytes v) w"
  by (simp add: writeWordLE_def crc_bytes_def writeByte_put put_put)

definition env_bytes :: "vars \<Rightarrow> u8 list" where
  "env_bytes env = concat (map (\<lambda>s. map char_byte s @ [0]) (env_strings env)) @ [0]"

definition payload :: "boot_device \<Rightarrow> u8 list" where
  "payload e = (if bd_flag e then [if bd_active e then 1 else 0] else []) @ env_bytes (bd_env e)"

text \<open>What a buffer of \<open>n\<close> bytes gets of bytes that are written to it.\<close>

definition padded :: "nat \<Rightarrow> u8 list \<Rightarrow> u8 list" where
  "padded n bs = take n bs @ replicate (n - length bs) 0xff"

lemma length_padded [simp]: "length (padded n bs) = n"
  by (simp add: padded_def)

lemma length_crc_bytes [simp]: "length (crc_bytes v) = 4"
  by (simp add: crc_bytes_def)

lemma writeWord_put: "writeWord v w = put (rev (crc_bytes v)) w"
  by (simp add: writeWord_def crc_bytes_def writeByte_put put_put)

lemma fold_writeString: "fold writeString strs w = put (concat (map (\<lambda>s. map char_byte s @ [0]) strs)) w"
  by (induction strs arbitrary: w) (simp_all add: writeString_put put_put)

lemma write_fields_put: "write_fields e w = put (rev (crc_bytes 0xffffffff) @ payload e) w"
  by (auto simp: write_fields_def writeWord_put writeByte_put fold_writeString put_put payload_def env_bytes_def Let_def)

lemma device_image_eq:
  assumes "dataOffset e \<le> bd_size e"
  shows "device_image e =
    (let tail = padded (bd_size e - 4) (payload e) in crc_bytes (crc32 (drop (dataOffset e - 4) tail)) @ tail)"
proof -
  let ?tail = "padded (bd_size e - 4) (payload e)" and ?h = "rev (crc_bytes 0xffffffff)"
  have n: "4 \<le> bd_size e" "4 \<le> dataOffset e"
    using assms by (auto simp: dataOffset_def NOR_CRC_SIZE_def)
  obtain dn rs where w: "write_fields e ([], replicate (bd_size e) 0xff) = (dn, rs)"
    by fastforce
  then have data: "dn @ rs = ?h @ ?tail"
    using n by (auto simp: write_fields_put put_def padded_def)
  have "drop (dataOffset e) (dn @ rs) = drop (dataOffset e - 4) ?tail" "drop 4 (dn @ rs) = ?tail" "4 \<le> length (dn @ rs)"
    unfolding data using n by simp_all
  then show ?thesis
    unfolding device_image_def w Let_def writeWordLE_put prod.case
    by (simp add: put_def min_absorb2 del: drop_append)
qed

lemma length_device_image: "dataOffset e \<le> bd_size e \<Longrightarrow> length (device_image e) = bd_size e"
  by (simp add: device_image_eq Let_def dataOffset_def NOR_CRC_SIZE_def)

section \<open>What is read\<close>

lemma low_u8: "(ucast (x AND 0xFF :: u32) :: u8) = ucast x"
  unfolding byte_mask by (rule bit_word_eqI) (simp add: bit_simps)

lemma bit_byte_at:
  "bit (push_bit k (ucast (ucast (drop_bit k v AND 0xFF) :: u8)) :: u32) n \<longleftrightarrow> k \<le> n \<and> n < k + 8 \<and> n < 32 \<and> bit (v :: u32) n"
  unfolding low_u8 by (auto simp: bit_simps)

lemma word_of_bytes:
  "push_bit 0 (ucast (ucast (drop_bit 0 v AND 0xFF) :: u8)) OR (push_bit 8 (ucast (ucast (drop_bit 8 v AND 0xFF) :: u8)) OR
     (push_bit 16 (ucast (ucast (drop_bit 16 v AND 0xFF) :: u8)) OR push_bit 24 (ucast (ucast (drop_bit 24 v AND 0xFF) :: u8)))) = (v :: u32)"
  (is "?w = v")
proof (rule bit_word_eqI)
  fix n assume "n < LENGTH(32)"
  then show "bit ?w n = bit v n"
    unfolding bit_or_iff bit_byte_at by auto
qed

lemma readWordLE_crc: "readWordLE (crc_bytes v @ bs) = (v, bs)"
proof -
  have "readValLE 4 0 (a # b # c # d # bs) = (push_bit 0 (ucast a) OR (push_bit 8 (ucast b) OR (push_bit 16 (ucast c) OR
      push_bit 24 (ucast d))), bs)" for a b c d
    by (simp add: numeral_eq_Suc)
  then show ?thesis
    using word_of_bytes [of v] by (simp only: readWordLE_def crc_bytes_def list.map append_Cons append_Nil)
qed

lemma byte_char_byte [simp]: "byte_char (char_byte c) = c"
proof -
  have "(of_char c :: nat) < 256"
    by simp
  then show ?thesis
    by (simp add: byte_char_def char_byte_def unat_of_nat)
qed

lemma char_byte_byte [simp]: "char_byte (byte_char b) = b"
  by (simp add: char_byte_def byte_char_def)

lemma byte_char_zero: "byte_char 0 = CHR 0x00"
  by (simp add: byte_char_def char_of_def)

lemma char_byte_zero: "char_byte c = 0 \<longleftrightarrow> c = CHR 0x00"
  using byte_char_byte [of c] byte_char_zero by (auto simp: char_byte_def simp del: byte_char_byte)

lemma readString_bytes: "CHR 0x00 \<notin> set s \<Longrightarrow> readString (map char_byte s @ 0 # r) = (s, r)"
  by (induction s) (auto simp: char_byte_zero)

lemma readString_end: "CHR 0x00 \<notin> set s \<Longrightarrow> readString (map char_byte s) = (s, [])"
  by (induction s) (auto simp: char_byte_zero)

definition clean_var :: "string \<times> string \<Rightarrow> bool" where
  "clean_var v \<longleftrightarrow> CHR ''='' \<notin> set (fst v) \<and> CHR 0x00 \<notin> set (fst v) \<and> CHR 0x00 \<notin> set (snd v)"

lemma read_env_var:
  assumes "clean_var (var, val)" "readString data = (var @ ''='' @ val, rest)"
  shows "read_env data env = read_env rest (map_put var val env)"
  using assms by (subst read_env.simps) (simp add: clean_var_def substr_def substr_from_def)

lemma read_env_bytes:
  "list_all clean_var vs \<Longrightarrow> read_env (env_bytes vs @ rest) env = fold (\<lambda>(k, v). map_put k v) vs env"
proof (induction vs arbitrary: env)
  case Nil
  then show ?case
    by (subst read_env.simps) (simp add: env_bytes_def env_strings_def)
next
  case (Cons v vs)
  obtain var val where v: "v = (var, val)"
    by (cases v)
  let ?s = "var @ ''='' @ val"
  have "CHR 0x00 \<notin> set ?s"
    using Cons.prems v by (simp add: clean_var_def)
  then have "readString (map char_byte ?s @ 0 # env_bytes vs @ rest) = (?s, env_bytes vs @ rest)"
    by (rule readString_bytes)
  moreover have "env_bytes (v # vs) @ rest = map char_byte ?s @ 0 # env_bytes vs @ rest"
    by (simp add: v env_bytes_def env_strings_def)
  ultimately have "read_env (env_bytes (v # vs) @ rest) env = read_env (env_bytes vs @ rest) (map_put var val env)"
    using Cons.prems v read_env_var [of var val] by simp
  then show ?case
    using Cons v by simp
qed

lemma map_put_last: "\<forall>x \<in> set m. fst x < k \<Longrightarrow> map_put k v m = m @ [(k, v)]"
  by (induction k v m rule: map_put.induct) (auto dest: less_not_sym)

lemma fold_map_put_sorted:
  "sorted_wrt (<) (map fst (m @ vs)) \<Longrightarrow> fold (\<lambda>(k, v). map_put k v) vs m = m @ vs"
proof (induction vs arbitrary: m)
  case (Cons v vs)
  have "\<forall>x \<in> set m. fst x < fst v"
    using Cons.prems by (auto simp: sorted_wrt_append)
  then have "map_put (fst v) (snd v) m = m @ [v]"
    by (simp add: map_put_last)
  then show ?case
    using Cons.IH [of "m @ [v]"] Cons.prems by (simp add: case_prod_beta)
qed simp

definition env_fits :: "boot_device \<Rightarrow> bool" where
  "env_fits e \<longleftrightarrow> 4 + length (payload e) \<le> bd_size e"

definition good_env :: "vars \<Rightarrow> bool" where
  "good_env env \<longleftrightarrow> sorted_wrt (<) (map fst env) \<and> list_all clean_var env"

lemma read_env_good: "good_env env \<Longrightarrow> read_env (env_bytes env @ rest) [] = env"
  using fold_map_put_sorted [of "[]" env] by (simp add: good_env_def read_env_bytes)

text \<open>The environment that is read is a good one.\<close>

lemma readString_no_NUL: "readString data = (s, rest) \<Longrightarrow> CHR 0x00 \<notin> set s"
proof (induction data arbitrary: s rest)
  case (Cons b data)
  have "byte_char b = CHR 0x00 \<Longrightarrow> b = 0"
    using char_byte_byte [of b] byte_char_zero char_byte_zero [of "byte_char b"] by simp
  then show ?case
    using Cons by (auto split: if_splits prod.splits)
qed auto

lemma set_map_put: "set (map_put k v m) \<subseteq> insert (k, v) (set m)"
  by (induction k v m rule: map_put.induct) auto

lemma read_env_is_good: "good_env env \<Longrightarrow> good_env (read_env data env)"
proof (induction data env rule: read_env.induct)
  case (1 data env)
  obtain s rest where r: "readString data = (s, rest)"
    by fastforce
  show ?case
  proof (cases "s = []")
    case True
    then show ?thesis
      using "1.prems" r by (subst read_env.simps) simp
  next
    case s: False
    show ?thesis
    proof (cases "find_char (CHR ''='') s")
      case None
      then show ?thesis
        using "1.IH"(1) [OF r [symmetric] refl s None "1.prems"] s r by (subst read_env.simps) simp
    next
      case (Some pos)
      let ?env = "map_put (substr s 0 pos) (substr_from s (pos + 1)) env"
      have "clean_var (substr s 0 pos, substr_from s (pos + 1))"
        using readString_no_NUL [OF r] find_char_Some [OF Some]
        by (auto simp: clean_var_def substr_def substr_from_def dest: in_set_takeD in_set_dropD)
      then have "good_env ?env"
        using "1.prems" set_map_put [of "substr s 0 pos" "substr_from s (pos + 1)" env]
        by (auto simp: good_env_def map_put_sorted list_all_iff)
      then show ?thesis
        using "1.IH"(2) [OF r [symmetric] refl s Some] s r Some by (subst read_env.simps) simp
    qed
  qed
qed

lemma good_env_put: "good_env env \<Longrightarrow> clean_var (var, val) \<Longrightarrow> good_env (map_put var val env)"
  using set_map_put [of var val env] by (auto simp: good_env_def map_put_sorted list_all_iff)

section \<open>A flash that works\<close>

text \<open>
  What the tool relies on: the partition can be opened and erased, and what is written to an erased
  partition is read back; \<open>/proc/mtd\<close> does not change.
\<close>

definition flash_works :: "'d mtd \<Rightarrow> string \<Rightarrow> nat \<Rightarrow> bool" where
  "flash_works k name n \<longleftrightarrow>
     (\<forall>d. mtd_open_read k name d \<and> mtd_open_write k name d \<and>
        (\<exists>d1. eraseFlash k name d = Some (True, d1) \<and> mtd_lines k d1 = mtd_lines k d \<and>
           (\<forall>data. length data = n \<longrightarrow>
              (\<exists>d2. mtd_write k name data d1 = (int n, d2) \<and> mtd_read k name n d2 = Some data \<and> mtd_lines k d2 = mtd_lines k d1))))"

lemma device_write_works:
  assumes "flash_works k (bd_name e) (bd_size e)" "dataOffset e \<le> bd_size e"
  shows "\<exists>d'. device_write k e d = Some (True, d') \<and> mtd_read k (bd_name e) (bd_size e) d' = Some (device_image e)
    \<and> mtd_lines k d' = mtd_lines k d"
proof -
  obtain d1 where d1: "eraseFlash k (bd_name e) d = Some (True, d1)" "mtd_lines k d1 = mtd_lines k d"
    and writes: "\<And>data. length data = bd_size e \<Longrightarrow> \<exists>d2. mtd_write k (bd_name e) data d1 = (int (bd_size e), d2) \<and>
      mtd_read k (bd_name e) (bd_size e) d2 = Some data \<and> mtd_lines k d2 = mtd_lines k d1"
    using assms(1) unfolding flash_works_def by metis
  obtain d2 where "mtd_write k (bd_name e) (device_image e) d1 = (int (bd_size e), d2)"
    "mtd_read k (bd_name e) (bd_size e) d2 = Some (device_image e)" "mtd_lines k d2 = mtd_lines k d1"
    using writes [OF length_device_image [OF assms(2)]] by blast
  then show ?thesis
    using d1 assms by (simp add: device_write_def flash_works_def length_device_image)
qed

text \<open>A device as it comes out of its constructor.\<close>

definition read_device :: "nat \<Rightarrow> string \<Rightarrow> bool \<Rightarrow> nat \<Rightarrow> u8 list \<Rightarrow> boot_device" where
  "read_device index name flag n data =
     \<lparr>bd_flag = flag, bd_size = n, bd_valid = True, bd_index = index, bd_name = name,
      bd_active = (if flag then 0 < data ! 4 else True), bd_env = read_env (drop (if flag then 5 else 4) data) []\<rparr>"

lemma snd_readWordLE: "4 \<le> length data \<Longrightarrow> snd (readWordLE data) = drop 4 data"
  by (cases data; cases "drop 1 data"; cases "drop 2 data"; cases "drop 3 data")
    (auto simp: readWordLE_def numeral_eq_Suc Let_def case_prod_beta drop_Suc split: list.splits)

lemma new_device_read:
  assumes "mtd_open_read k name d" "mtd_read k name n d = Some data" "length data = n" "(if flag then 5 else 4) \<le> n"
  shows "new_device k d index name flag n = Some (read_device index name flag n data)"
proof -
  obtain crc rest where w: "readWordLE data = (crc, rest)"
    by fastforce
  then have rest: "rest = drop 4 data"
    using snd_readWordLE [of data] assms(3,4) by (auto split: if_splits)
  have "readByte (drop 4 data) = (data ! 4, drop 5 data)" if "4 < length data"
    using that by (simp add: readByte_def Cons_nth_drop_Suc [symmetric])
  then show ?thesis
    using assms w rest
    by (auto simp: new_device_def device_read_def dataOffset_def NOR_CRC_SIZE_def NOR_FLAG_SIZE_def read_device_def Let_def)
qed

text \<open>
  A bank that can be read is taken as valid and its environment is used, whatever its checksum: the
  constructor overwrites the result of the comparison.
\<close>

theorem checksum_never_refuses:
  assumes "mtd_open_read k name d" "mtd_read k name n d = Some data" "length data = n" "(if flag then 5 else 4) \<le> n"
  shows "new_device k d index name flag n = Some (read_device index name flag n data)"
  using assms by (rule new_device_read)

text \<open>What comes back of a bank that was written.\<close>

lemma image_drop:
  assumes "dataOffset e \<le> bd_size e"
  shows "drop 4 (device_image e) = padded (bd_size e - 4) (payload e)"
  using assms by (simp add: device_image_eq Let_def)

lemma padded_fits: "length bs \<le> n \<Longrightarrow> padded n bs = bs @ replicate (n - length bs) 0xff"
  by (simp add: padded_def)

lemma image_env:
  assumes "dataOffset e \<le> bd_size e" "env_fits e" "good_env (bd_env e)"
  shows "read_env (drop (dataOffset e) (device_image e)) [] = bd_env e"
proof -
  have "drop 4 (device_image e) = payload e @ replicate (bd_size e - 4 - length (payload e)) 0xff"
    using assms(1,2) by (simp add: image_drop env_fits_def padded_fits)
  moreover have "drop (dataOffset e) (device_image e) = drop (dataOffset e - 4) (drop 4 (device_image e))"
    by (simp add: dataOffset_def NOR_CRC_SIZE_def NOR_FLAG_SIZE_def)
  ultimately have "drop (dataOffset e) (device_image e) = env_bytes (bd_env e) @ replicate (bd_size e - 4 - length (payload e)) 0xff"
    by (auto simp: payload_def dataOffset_def NOR_CRC_SIZE_def NOR_FLAG_SIZE_def)
  then show ?thesis
    using assms(3) by (simp add: read_env_good)
qed

lemma image_flag:
  assumes "dataOffset e \<le> bd_size e" "bd_flag e"
  shows "device_image e ! 4 = (if bd_active e then 1 else 0)"
proof -
  have "5 \<le> bd_size e"
    using assms by (simp add: dataOffset_def NOR_CRC_SIZE_def NOR_FLAG_SIZE_def)
  then have "device_image e ! 4 = drop 4 (device_image e) ! 0"
    using length_device_image [OF assms(1)] by simp
  also have "\<dots> = (if bd_active e then 1 else 0)"
    using Suc_diff_le [of 4 "bd_size e - 1"] \<open>5 \<le> bd_size e\<close> assms
    by (simp add: image_drop padded_def payload_def take_Cons' nth_append)
  finally show ?thesis .
qed

lemma offset_size: "dataOffset e = (if bd_flag e then 5 else 4)"
  by (simp add: dataOffset_def NOR_CRC_SIZE_def NOR_FLAG_SIZE_def)

definition checksum_ok :: "boot_device \<Rightarrow> u8 list \<Rightarrow> bool" where
  "checksum_ok e data \<longleftrightarrow> fst (readWordLE data) = crc32 (drop (dataOffset e) data)"

lemma image_checksum: "dataOffset e \<le> bd_size e \<Longrightarrow> checksum_ok e (device_image e)"
  by (simp add: checksum_ok_def device_image_eq Let_def readWordLE_crc dataOffset_def NOR_CRC_SIZE_def)

lemma write_then_read:
  assumes "flash_works k (bd_name e) (bd_size e)" "dataOffset e \<le> bd_size e" "env_fits e" "good_env (bd_env e)"
  shows "\<exists>d'. device_write k e d = Some (True, d') \<and> mtd_lines k d' = mtd_lines k d \<and>
    mtd_read k (bd_name e) (bd_size e) d' = Some (device_image e) \<and>
    new_device k d' i (bd_name e) (bd_flag e) (bd_size e) =
      Some (e\<lparr>bd_valid := True, bd_index := i, bd_active := (if bd_flag e then bd_active e else True)\<rparr>)"
proof -
  obtain d' where d': "device_write k e d = Some (True, d')" "mtd_read k (bd_name e) (bd_size e) d' = Some (device_image e)"
    "mtd_lines k d' = mtd_lines k d"
    using device_write_works [OF assms(1,2)] by blast
  moreover have "mtd_open_read k (bd_name e) d'"
    using assms(1) by (simp add: flash_works_def)
  ultimately have "new_device k d' i (bd_name e) (bd_flag e) (bd_size e) =
      Some (read_device i (bd_name e) (bd_flag e) (bd_size e) (device_image e))"
    using assms(2) by (intro new_device_read) (simp_all add: length_device_image offset_size)
  moreover have "read_device i (bd_name e) (bd_flag e) (bd_size e) (device_image e) =
      e\<lparr>bd_valid := True, bd_index := i, bd_active := (if bd_flag e then bd_active e else True)\<rparr>"
    using image_env [OF assms(2-4)] image_flag [OF assms(2)] by (cases e) (simp add: read_device_def offset_size)
  ultimately show ?thesis
    using d' by simp
qed

text \<open>
  C37: an environment that fits is read back from the flash as it was written, with a right checksum and
  the flag of the bank.
\<close>

theorem environment_roundtrip:
  assumes "flash_works k (bd_name e) (bd_size e)" "dataOffset e \<le> bd_size e" "env_fits e" "good_env (bd_env e)"
  shows "\<exists>d' data. device_write k e d = Some (True, d') \<and> mtd_read k (bd_name e) (bd_size e) d' = Some data \<and>
    checksum_ok e data \<and>
    new_device k d' i (bd_name e) (bd_flag e) (bd_size e) =
      Some (e\<lparr>bd_valid := True, bd_index := i, bd_active := (if bd_flag e then bd_active e else True)\<rparr>)"
  using write_then_read [OF assms, of d i] image_checksum [OF assms(2)] by metis

section \<open>An environment of any size\<close>

text \<open>What is left of an environment in \<open>n\<close> bytes: the variables that fit with their NUL, and of the next one the
  bytes that are left when they hold more than its name.\<close>

fun cut_env :: "nat \<Rightarrow> vars \<Rightarrow> vars" where
  "cut_env n [] = []"
| "cut_env n ((var, val) # env) =
     (if length var + length val + 2 \<le> n then (var, val) # cut_env (n - (length var + length val + 2)) env
      else if length var < n then [(var, take (n - length var - 1) val)]
      else [])"

lemma env_bytes_Cons: "env_bytes ((var, val) # env) = map char_byte (var @ ''='' @ val) @ 0 # env_bytes env"
  by (simp add: env_bytes_def env_strings_def)

lemma length_env_bytes: "length (env_bytes ((var, val) # env)) = length var + length val + 2 + length (env_bytes env)"
  by (simp add: env_bytes_Cons)

lemma env_bytes_ne: "0 < length (env_bytes env)"
  by (simp add: env_bytes_def)

lemma cut_env_keys: "\<exists>ks. map fst env = map fst (cut_env n env) @ ks"
  by (induction n env rule: cut_env.induct) auto

lemma cut_env_clean: "list_all clean_var env \<Longrightarrow> list_all clean_var (cut_env n env)"
  by (induction n env rule: cut_env.induct) (auto simp: clean_var_def dest: in_set_takeD)

lemma cut_env_good:
  assumes "good_env env"
  shows "good_env (cut_env n env)"
  using assms cut_env_keys [of env n] cut_env_clean [of env n] by (auto simp: good_env_def sorted_wrt_append)

lemma cut_env_whole: "cut_env n env = env \<longleftrightarrow> length (env_bytes env) \<le> n + 2"
proof (induction n env rule: cut_env.induct)
  case (2 n var val env)
  show ?case
  proof (cases "length var + length val + 2 \<le> n")
    case True
    then show ?thesis
      using 2 by (auto simp: length_env_bytes)
  next
    case False
    moreover have "3 \<le> length (env_bytes env)" if ne: "env \<noteq> []"
    proof -
      obtain v w r where "env = (v, w) # r"
        using ne by (metis neq_Nil_conv surj_pair)
      then show ?thesis
        unfolding \<open>env = (v, w) # r\<close> using env_bytes_ne [of r] length_env_bytes [of v w r] by linarith
    qed
    ultimately show ?thesis
      by (cases "env = []") (auto simp: length_env_bytes env_bytes_def env_strings_def)
  qed
qed (simp add: env_bytes_def env_strings_def)

text \<open>A string that was cut in its name has no equals sign and is skipped.\<close>

lemma read_env_end [simp]: "read_env [] env = env"
  by (subst read_env.simps) simp

lemma read_env_name:
  assumes "CHR 0x00 \<notin> set s" "CHR ''='' \<notin> set s"
  shows "read_env (map char_byte s) env = env"
proof -
  have "find_char (CHR ''='') s = None"
    using assms(2) by (induction s) auto
  then show ?thesis
    using readString_end [OF assms(1)] by (subst read_env.simps) simp
qed

lemma read_env_cut:
  "list_all clean_var vs \<Longrightarrow> read_env (take n (env_bytes vs)) env = fold (\<lambda>(k, v). map_put k v) (cut_env n vs) env"
proof (induction n vs arbitrary: env rule: cut_env.induct)
  case (1 n)
  then show ?case
    by (cases n) (simp_all add: env_bytes_def env_strings_def, subst read_env.simps, simp)
next
  case (2 n var val vs)
  let ?s = "var @ ''='' @ val"
  have clean: "clean_var (var, val)" "CHR 0x00 \<notin> set ?s"
    using "2.prems" by (auto simp: clean_var_def)
  consider "length var + length val + 2 \<le> n" | "length var < n" "n < length var + length val + 2" | "n \<le> length var"
    by linarith
  then show ?case
  proof cases
    case 1
    let ?m = "n - (length var + length val + 2)"
    have "take n (env_bytes ((var, val) # vs)) = map char_byte ?s @ 0 # take ?m (env_bytes vs)"
      using 1 by (simp add: env_bytes_Cons take_Cons')
    then show ?thesis
      using 1 "2.IH" "2.prems" readString_bytes [OF clean(2)] read_env_var [OF clean(1)] by simp
  next
    case 2
    let ?t = "var @ ''='' @ take (n - length var - 1) val"
    have "take n (env_bytes ((var, val) # vs)) = map char_byte ?t"
      using 2 by (simp add: env_bytes_Cons take_map take_Cons')
    moreover have "clean_var (var, take (n - length var - 1) val)" "CHR 0x00 \<notin> set ?t"
      using clean by (auto simp: clean_var_def dest: in_set_takeD)
    ultimately show ?thesis
      using 2 readString_end [of ?t] read_env_var by simp
  next
    case 3
    have "take n (env_bytes ((var, val) # vs)) = map char_byte (take n var)"
      using 3 by (simp add: env_bytes_Cons take_map)
    then show ?thesis
      using 3 read_env_name [of "take n var"] clean by (auto simp: clean_var_def dest: in_set_takeD)
  qed
qed

lemma read_padded:
  assumes "good_env env"
  shows "read_env (padded n (env_bytes env)) [] = cut_env n env"
proof -
  have "read_env (padded n (env_bytes env)) [] = fold (\<lambda>(k, v). map_put k v) (cut_env n env) []"
  proof (cases "length (env_bytes env) \<le> n")
    case True
    then have "cut_env n env = env"
      by (simp add: cut_env_whole)
    with True assms show ?thesis
      by (simp add: padded_fits good_env_def read_env_bytes)
  next
    case False
    with assms show ?thesis
      by (simp add: padded_def good_env_def read_env_cut)
  qed
  then show ?thesis
    using fold_map_put_sorted [of "[]" "cut_env n env"] cut_env_good [OF assms, of n] by (simp add: good_env_def)
qed

lemma image_data:
  assumes "dataOffset e \<le> bd_size e"
  shows "drop (dataOffset e) (device_image e) = padded (bd_size e - dataOffset e) (env_bytes (bd_env e))"
proof -
  have "drop (dataOffset e) (device_image e) = drop (dataOffset e - 4) (drop 4 (device_image e))"
    by (simp add: offset_size)
  also have "\<dots> = drop (dataOffset e - 4) (padded (bd_size e - 4) (payload e))"
    using assms by (simp add: image_drop)
  also have "\<dots> = padded (bd_size e - dataOffset e) (env_bytes (bd_env e))"
    using assms by (auto simp: offset_size padded_def payload_def take_Cons')
  finally show ?thesis .
qed

text \<open>
  C38: an environment that does not fit is cut off without a report. Whatever the size of a bank, writing
  succeeds and leaves a right checksum; what is read back is the environment up to the end of the
  bank: the variable at the end loses the end of its value, or all of it when the end falls into its
  name. The whole environment is read back exactly when its strings fit.
\<close>

theorem oversize_environment_cut:
  assumes "flash_works k (bd_name e) (bd_size e)" "dataOffset e \<le> bd_size e" "good_env (bd_env e)"
  shows "\<exists>d' data e'. device_write k e d = Some (True, d') \<and> mtd_read k (bd_name e) (bd_size e) d' = Some data \<and> checksum_ok e data \<and>
    new_device k d' i (bd_name e) (bd_flag e) (bd_size e) = Some e' \<and>
    bd_env e' = cut_env (bd_size e - dataOffset e) (bd_env e) \<and>
    (bd_env e' = bd_env e \<longleftrightarrow> length (env_bytes (bd_env e)) \<le> bd_size e - dataOffset e + 2)"
proof -
  let ?e' = "read_device i (bd_name e) (bd_flag e) (bd_size e) (device_image e)"
  obtain d' where d': "device_write k e d = Some (True, d')" "mtd_read k (bd_name e) (bd_size e) d' = Some (device_image e)"
    using device_write_works [OF assms(1,2)] by blast
  moreover have "mtd_open_read k (bd_name e) d'"
    using assms(1) by (simp add: flash_works_def)
  ultimately have new: "new_device k d' i (bd_name e) (bd_flag e) (bd_size e) = Some ?e'"
    using assms(2) by (intro new_device_read) (simp_all add: length_device_image offset_size)
  have "bd_env ?e' = read_env (drop (dataOffset e) (device_image e)) []"
    by (simp add: read_device_def offset_size)
  then have "bd_env ?e' = cut_env (bd_size e - dataOffset e) (bd_env e)"
    using image_data [OF assms(2)] read_padded [OF assms(3)] by simp
  then show ?thesis
    using d' new image_checksum [OF assms(2)] cut_env_whole by metis
qed

section \<open>A flash for examples\<close>

text \<open>The state of this flash is the contents of its partitions.\<close>

type_synonym partitions = "string \<Rightarrow> u8 list"

definition demo_mtd :: "string list \<Rightarrow> partitions mtd" where
  "demo_mtd lines = \<lparr>mtd_open_read = (\<lambda>name d. True), mtd_read = (\<lambda>name n d. Some (take n (d name))), mtd_open_rdwr = (\<lambda>name d. True),
     mtd_regions = (\<lambda>name d. True), mtd_info = (\<lambda>name d. Some (8192, 4096)),
     mtd_erase = (\<lambda>name start len d. (True, d(name := take (unat start) (d name) @ replicate (unat len) 0xff @
       drop (unat start + unat len) (d name)))),
     mtd_open_write = (\<lambda>name d. True), mtd_write = (\<lambda>name data d. (int (length data), d(name := data @ drop (length data) (d name)))),
     mtd_lines = (\<lambda>d. Some lines)\<rparr>"

lemma demo_erases: "\<exists>d1. erase_blocks (demo_mtd lines) name len pos n d = (True, d1) \<and> (\<forall>x. x \<noteq> name \<longrightarrow> d1 x = d x)"
proof (induction n arbitrary: pos d)
  case (Suc n)
  obtain d2 where d2: "mtd_erase (demo_mtd lines) name (of_nat pos * len) len d = (True, d2)" "\<forall>x. x \<noteq> name \<longrightarrow> d2 x = d x"
    by (simp add: demo_mtd_def)
  then obtain d1 where "erase_blocks (demo_mtd lines) name len (pos + 1) n d2 = (True, d1)" "\<forall>x. x \<noteq> name \<longrightarrow> d1 x = d2 x"
    using Suc.IH by blast
  with d2 show ?case
    by simp
qed simp

lemma demo_erased: "\<exists>d1. eraseFlash (demo_mtd lines) name d = Some (True, d1) \<and> (\<forall>x. x \<noteq> name \<longrightarrow> d1 x = d x)"
  using demo_erases [of lines name "4096" 0 "nat (sint ((8192 :: u32) div 4096))" d]
  by (simp add: eraseFlash_def demo_mtd_def)

lemma demo_flash_works: "flash_works (demo_mtd lines) name n"
proof -
  have "\<exists>d1. eraseFlash (demo_mtd lines) name d = Some (True, d1)" for d
    using demo_erased by blast
  then show ?thesis
    by (auto simp: flash_works_def) (auto simp: demo_mtd_def)
qed

definition demo_bank :: "vars \<Rightarrow> boot_device" where
  "demo_bank env = \<lparr>bd_flag = True, bd_size = 16, bd_valid = True, bd_index = 1, bd_name = ''/dev/mtd1'', bd_active = False, bd_env = env\<rparr>"

theorem checksum_never_refuses_witness:
  "new_device (demo_mtd []) (\<lambda>_. replicate 16 0) 1 ''/dev/mtd1'' True 16 =
    Some (read_device 1 ''/dev/mtd1'' True 16 (replicate 16 0))"
  by (rule checksum_never_refuses) (simp_all add: demo_mtd_def)

theorem environment_roundtrip_witness:
  "\<exists>d' data. device_write (demo_mtd []) (demo_bank [(''a'', ''1''), (''b'', ''2'')]) (\<lambda>_. []) = Some (True, d') \<and>
    mtd_read (demo_mtd []) ''/dev/mtd1'' 16 d' = Some data \<and> checksum_ok (demo_bank []) data \<and>
    map_option bd_env (new_device (demo_mtd []) d' 2 ''/dev/mtd1'' True 16) = Some [(''a'', ''1''), (''b'', ''2'')]"
proof -
  let ?e = "demo_bank [(''a'', ''1''), (''b'', ''2'')]"
  have "dataOffset ?e \<le> bd_size ?e" "env_fits ?e" "good_env (bd_env ?e)"
    by (simp_all add: offset_size env_fits_def payload_def env_bytes_def env_strings_def good_env_def clean_var_def demo_bank_def)
  from environment_roundtrip [OF demo_flash_works this, of "[]" "\<lambda>_. []" 2]
  show ?thesis
    by (auto simp: demo_bank_def checksum_ok_def offset_size)
qed

text \<open>In a bank of 16 bytes two variables are cut in the second value, and two others in the second name.\<close>

theorem oversize_environment_cut_witness:
  "(\<exists>d' e'. device_write (demo_mtd []) (demo_bank [(''a'', ''1''), (''b'', ''1234567890'')]) (\<lambda>_. []) = Some (True, d') \<and>
     new_device (demo_mtd []) d' 1 ''/dev/mtd1'' True 16 = Some e' \<and> bd_env e' = [(''a'', ''1''), (''b'', ''12345'')]) \<and>
   (\<exists>d' e'. device_write (demo_mtd []) (demo_bank [(''a'', ''1234567''), (''long'', ''1'')]) (\<lambda>_. []) = Some (True, d') \<and>
     new_device (demo_mtd []) d' 1 ''/dev/mtd1'' True 16 = Some e' \<and> bd_env e' = [(''a'', ''1234567'')])"
proof -
  have "dataOffset (demo_bank env) \<le> bd_size (demo_bank env)" for env
    by (simp add: offset_size demo_bank_def)
  note cut = oversize_environment_cut [OF demo_flash_works this, of _ "[]" "\<lambda>_. []" 1]
  have "good_env (bd_env (demo_bank [(''a'', ''1''), (''b'', ''1234567890'')]))"
    "good_env (bd_env (demo_bank [(''a'', ''1234567''), (''long'', ''1'')]))"
    by (simp_all add: good_env_def clean_var_def demo_bank_def)
  from cut [OF this(1)] cut [OF this(2)] show ?thesis
    by (auto simp: demo_bank_def offset_size)
qed

end
