(* ===== verification/I2cEnv.thy ===== *)
theory I2cEnv
  imports BootEnv
begin

text \<open>
  The program \<open>i2cenv\<close> (\<open>I2cEnv.cpp\<close>): its options, reading and writing variables of the one bank of the
  Zcu111 board (\<open>IBootEnv::getInstance\<close>). \<open>files\<close> gives the text of a file that can be opened. The result
  is what was printed, the exit code and the flash.
\<close>

section \<open>The commands\<close>

definition newline :: string where "newline = [CHR 0x0A]"

definition show_var :: "env_class \<Rightarrow> boot_env \<Rightarrow> string \<Rightarrow> string" where
  "show_var c b var = var @ ''='' @ boot_getVar c b var @ newline"

definition handleRead :: "env_class \<Rightarrow> boot_env \<Rightarrow> string list \<Rightarrow> string" where
  "handleRead c b args = concat (map (show_var c b) (if args = [] then map fst (boot_getVars c b) else args))"

text \<open>The pairs \<open>variable=value\<close> of the arguments, and their variables in the order given.\<close>

fun settings_of :: "string list \<Rightarrow> vars \<times> string list \<Rightarrow> vars \<times> string list" where
  "settings_of [] acc = acc"
| "settings_of (varval # args) (settings, names) =
     (case find_char (CHR ''='') varval of
        None \<Rightarrow> settings_of args (settings, names)
      | Some pos \<Rightarrow>
          settings_of args (map_put (substr varval 0 pos) (substr_from varval (pos + 1)) settings, names @ [substr varval 0 pos]))"

type_synonym 'd outcome = "(string \<times> int \<times> 'd) option"

definition handleWrite :: "'d mtd \<Rightarrow> env_class \<Rightarrow> boot_env \<Rightarrow> string list \<Rightarrow> 'd \<Rightarrow> 'd outcome" where
  "handleWrite k c b args d =
     (let (settings, names) = settings_of args ([], []) in
      if settings = [] then Some ([], 1, d)
      else
        do { (ok, b, d) \<leftarrow> boot_setVar k c settings b d;
             (if \<not> ok then Some ([], 1, d)
              else do { (_, b, d) \<leftarrow> boot_init k c d; Some (handleRead c b names, 0, d) }) })"

definition handleErase :: "'d mtd \<Rightarrow> env_class \<Rightarrow> boot_env \<Rightarrow> 'd \<Rightarrow> 'd outcome" where
  "handleErase k c b d = do { (ok, b, d) \<leftarrow> boot_resetVars k c [] b d; Some ([], if ok then 0 else 1, d) }"

text \<open>The lines \<open>std::getline\<close> gives until it fails: a final empty line is none.\<close>

function getlines :: "string \<Rightarrow> string list" where
  "getlines [] = []"
| "s \<noteq> [] \<Longrightarrow> getlines s =
     (let line = takeWhile (\<lambda>c. c \<noteq> CHR 0x0A) s in line # getlines (drop (length line + 1) s))"
  by auto

termination
  by (relation "measure length") auto

definition handleLoad :: "'d mtd \<Rightarrow> env_class \<Rightarrow> (string \<Rightarrow> string option) \<Rightarrow> boot_env \<Rightarrow> string \<Rightarrow> 'd \<Rightarrow> 'd outcome" where
  "handleLoad k c files b filename d =
     (case files filename of
        None \<Rightarrow> Some ([], 1, d)
      | Some text' \<Rightarrow> handleWrite k c b (getlines text') d)"

section \<open>The program\<close>

record env_opts =
  eo_write :: bool
  eo_debug :: bool
  eo_erase :: bool
  eo_file :: string

definition env_spec :: "char \<Rightarrow> bool option" where
  "env_spec ch =
     (if ch \<in> {CHR ''W'', CHR ''d'', CHR ''h'', CHR ''x''} then Some False
      else if ch = CHR ''f'' then Some True
      else None)"

text \<open>\<open>Inl\<close> is the exit code of \<open>-h\<close> and of an unknown option.\<close>

fun env_options :: "(char \<times> string) list \<Rightarrow> env_opts \<Rightarrow> int + env_opts" where
  "env_options [] p = Inr p"
| "env_options ((ch, arg) # opts) p =
     (if ch = CHR ''W'' then env_options opts (p\<lparr>eo_write := True\<rparr>)
      else if ch = CHR ''d'' then env_options opts (p\<lparr>eo_debug := True\<rparr>)
      else if ch = CHR ''f'' then env_options opts (p\<lparr>eo_file := arg\<rparr>)
      else if ch = CHR ''x'' then env_options opts (p\<lparr>eo_erase := True\<rparr>)
      else if ch = CHR ''h'' then Inl 0
      else Inl 1)"

text \<open>
  The words that are left from \<open>optind\<close> on when \<open>getopt\<close> has read all options: it moves the words that are
  no options behind the others.
\<close>

fun operand_words :: "(char \<Rightarrow> bool option) \<Rightarrow> string \<Rightarrow> string list \<Rightarrow> string list" where
  "operand_words spec (ch # cs) args =
     (case spec ch of
        Some True \<Rightarrow>
          (if cs \<noteq> [] then operand_words spec [] args
           else case args of [] \<Rightarrow> [] | a # args \<Rightarrow> operand_words spec [] args)
      | _ \<Rightarrow> operand_words spec cs args)"
| "operand_words spec [] [] = []"
| "operand_words spec [] (a # args) =
     (if a = ''--'' then args
      else if char_at a 0 = CHR ''-'' \<and> length a > 1 then operand_words spec (drop 1 a) args
      else a # operand_words spec [] args)"

definition no_env_opts :: env_opts where
  "no_env_opts = \<lparr>eo_write = False, eo_debug = False, eo_erase = False, eo_file = []\<rparr>"

text \<open>What \<open>-d\<close> prints; without an active bank the index is 0 and the name empty.\<close>

definition debug_line :: "env_class \<Rightarrow> boot_env \<Rightarrow> string" where
  "debug_line c b =
     (let ok = checkState c b; e = active_device b in
      ''Active env : ['' @ dec_int (if ok then int (bd_index e) else 0) @ ''] '' @ (if ok then bd_name e else []) @ '' ('' @
      (if ok \<and> bd_valid e then ''Valid'' else ''INVALID'') @ '')'' @ newline)"

definition printed :: "string \<Rightarrow> 'd outcome \<Rightarrow> 'd outcome" where
  "printed s r = map_option (\<lambda>(t, code, d). (s @ t, code, d)) r"

text \<open>\<open>argv\<close> is the list of the words behind the name of the program.\<close>

definition i2cenv_main :: "'d mtd \<Rightarrow> (string \<Rightarrow> string option) \<Rightarrow> string list \<Rightarrow> 'd \<Rightarrow> 'd outcome" where
  "i2cenv_main k files argv d =
     (case env_options (getopt env_spec argv) no_env_opts of
        Inl code \<Rightarrow> Some ([], code, d)
      | Inr p \<Rightarrow>
          do { (_, b, d) \<leftarrow> boot_init k zcu111_env d;
               let args = operand_words env_spec [] argv in
               printed (if eo_debug p then debug_line zcu111_env b else [])
                 (if eo_erase p then handleErase k zcu111_env b d
                  else if eo_file p \<noteq> [] then handleLoad k zcu111_env files b (eo_file p) d
                  else if \<not> eo_write p then Some (handleRead zcu111_env b args, 0, d)
                  else handleWrite k zcu111_env b args d) })"

section \<open>One bank\<close>

lemma same_devices: "mtd_lines k d' = mtd_lines k d \<Longrightarrow> getDeviceList k c d' = getDeviceList k c d"
  by (simp add: getDeviceList_def)

definition one_bank :: "boot_device \<Rightarrow> boot_env" where
  "one_bank e = \<lparr>be_devices = [e], be_active = Some 0, be_inactive = None\<rparr>"

text \<open>With one partition that can be read there is an active environment, although \<open>init\<close> gives \<open>false\<close>.\<close>

lemma one_bank_init:
  assumes "getDeviceList k zcu111_env d = [(i, p)]" "new_device k d i (pi_name p) False (pi_size p) = Some e"
    and "bd_valid e" "bd_active e"
  shows "boot_init k zcu111_env d = Some (False, one_bank e, d)"
  using assms by (simp add: boot_init_def add_device_def zcu111_env_def no_banks_def one_bank_def Let_def)

lemma one_bank_ok [simp]: "checkState zcu111_env (one_bank e)" "active_device (one_bank e) = e"
  by (simp_all add: checkState_def zcu111_env_def one_bank_def active_device_def)

lemma one_bank_vars [simp]:
  "boot_getVars zcu111_env (one_bank e) = bd_env e"
  "boot_getVar zcu111_env (one_bank e) var = (case map_of (bd_env e) var of None \<Rightarrow> [] | Some v \<Rightarrow> v)"
  by (simp_all add: boot_getVars_def boot_getVar_def)

lemma one_bank_setVar:
  assumes "device_write k (e\<lparr>bd_env := fold (\<lambda>(var, val). map_put var val) changes (bd_env e)\<rparr>) d = Some (ok, d')"
  shows "boot_setVar k zcu111_env changes (one_bank e) d =
    Some (ok, one_bank (e\<lparr>bd_env := fold (\<lambda>(var, val). map_put var val) changes (bd_env e)\<rparr>), d')"
  using assms by (simp add: boot_setVar_def writeEnv_def writeActive_def) (simp add: zcu111_env_def one_bank_def Let_def)

lemma bank_rewritten:
  assumes "flash_works k (bd_name e) (bd_size e)" "\<not> bd_flag e" "bd_valid e" "bd_active e"
    and "4 \<le> bd_size e" "env_fits e" "good_env (bd_env e)"
  shows "\<exists>d'. device_write k e d = Some (True, d') \<and> mtd_lines k d' = mtd_lines k d \<and>
    new_device k d' (bd_index e) (bd_name e) False (bd_size e) = Some e"
proof -
  have "dataOffset e \<le> bd_size e"
    using assms by (simp add: offset_size)
  moreover have "e\<lparr>bd_valid := True, bd_index := bd_index e, bd_active := (if bd_flag e then bd_active e else True)\<rparr> = e"
    using assms by (cases e) simp
  ultimately show ?thesis
    using write_then_read [of k e d "bd_index e"] assms by auto
qed

section \<open>Setting a variable\<close>

lemma find_char_equals: "CHR ''='' \<notin> set var \<Longrightarrow> find_char (CHR ''='') (var @ ''='' @ val) = Some (length var)"
  by (induction var) auto

lemma settings_of_pair:
  "CHR ''='' \<notin> set var \<Longrightarrow> settings_of [var @ ''='' @ val] ([], []) = ([(var, val)], [var])"
  using find_char_equals [of var val] by (simp add: substr_def substr_from_def)

lemma read_words:
  assumes "char_at var 0 \<noteq> CHR ''-''"
  shows "env_options (getopt env_spec [var]) no_env_opts = Inr no_env_opts" "operand_words env_spec [] [var] = [var]"
  using assms by (auto simp: getopt_def char_at_def)

lemma write_words:
  assumes "char_at word 0 \<noteq> CHR ''-''"
  shows "env_options (getopt env_spec [''-W'', word]) no_env_opts = Inr (no_env_opts\<lparr>eo_write := True\<rparr>)"
    and "operand_words env_spec [] [''-W'', word] = [word]"
  using assms by (auto simp: getopt_def env_spec_def char_at_def)

lemma read_one:
  assumes "char_at var 0 \<noteq> CHR ''-''" "boot_init k zcu111_env d = Some (r, one_bank e, d)"
  shows "i2cenv_main k files [var] d =
    Some (var @ ''='' @ (case map_of (bd_env e) var of None \<Rightarrow> [] | Some v \<Rightarrow> v) @ newline, 0, d)"
  unfolding i2cenv_main_def read_words [OF assms(1)] assms(2)
  by (simp add: no_env_opts_def printed_def handleRead_def show_var_def)

lemma write_one:
  assumes "char_at var 0 \<noteq> CHR ''-''" "CHR ''='' \<notin> set var" "boot_init k zcu111_env d = Some (r, one_bank e, d)"
    and "device_write k (e\<lparr>bd_env := map_put var val (bd_env e)\<rparr>) d = Some (True, d')"
    and "boot_init k zcu111_env d' = Some (r', one_bank e', d')" "map_of (bd_env e') var = Some val"
  shows "i2cenv_main k files [''-W'', var @ ''='' @ val] d = Some (var @ ''='' @ val @ newline, 0, d')"
proof -
  have word: "char_at (var @ ''='' @ val) 0 \<noteq> CHR ''-''"
    using assms(1) by (cases var) (auto simp: char_at_def)
  have "boot_setVar k zcu111_env [(var, val)] (one_bank e) d = Some (True, one_bank (e\<lparr>bd_env := map_put var val (bd_env e)\<rparr>), d')"
    using one_bank_setVar [where changes = "[(var, val)]", of k e d True d'] assms(4) by simp
  then have "handleWrite k zcu111_env (one_bank e) [var @ ''='' @ val] d = Some (var @ ''='' @ val @ newline, 0, d')"
    using settings_of_pair [OF assms(2), of val] assms(5,6) by (simp add: handleWrite_def handleRead_def show_var_def)
  then show ?thesis
    unfolding i2cenv_main_def write_words [OF word] assms(3) by (simp add: no_env_opts_def printed_def)
qed

text \<open>
  C35: when \<open>/proc/mtd\<close> names one partition for the environment, its flash works, and the environment with the new
  value fits, \<open>i2cenv -W var=val\<close> prints the variable and succeeds, and \<open>i2cenv var\<close> shows the value
  afterwards; the other variables are as before.
\<close>

theorem set_variable_is_shown:
  assumes "getDeviceList k zcu111_env d = [(i, p)]" "flash_works k (pi_name p) (pi_size p)"
    and "mtd_read k (pi_name p) (pi_size p) d = Some data" "length data = pi_size p" "4 \<le> pi_size p"
    and "clean_var (var, val)" "char_at var 0 \<noteq> CHR ''-''"
    and "env_fits (read_device i (pi_name p) False (pi_size p) data\<lparr>bd_env := map_put var val (read_env (drop 4 data) [])\<rparr>)"
  shows "\<exists>d'. i2cenv_main k files [''-W'', var @ ''='' @ val] d = Some (var @ ''='' @ val @ newline, 0, d') \<and>
    i2cenv_main k files [var] d' = Some (var @ ''='' @ val @ newline, 0, d') \<and>
    (\<forall>x v. char_at x 0 \<noteq> CHR ''-'' \<and> x \<noteq> var \<and> map_of (read_env (drop 4 data) []) x = Some v \<longrightarrow>
      i2cenv_main k files [x] d' = Some (x @ ''='' @ v @ newline, 0, d'))"
proof -
  let ?e = "read_device i (pi_name p) False (pi_size p) data"
  let ?e' = "?e\<lparr>bd_env := map_put var val (bd_env ?e)\<rparr>"
  have e: "bd_env ?e = read_env (drop 4 data) []" "bd_name ?e = pi_name p" "bd_size ?e = pi_size p" "\<not> bd_flag ?e"
    "bd_valid ?e" "bd_active ?e" "bd_index ?e = i"
    by (simp_all add: read_device_def)
  have "new_device k d i (pi_name p) False (pi_size p) = Some ?e"
    using assms(2-5) by (intro new_device_read) (auto simp: flash_works_def)
  then have init: "boot_init k zcu111_env d = Some (False, one_bank ?e, d)"
    using assms(1) e by (intro one_bank_init) auto
  have "good_env (bd_env ?e')"
    using read_env_is_good [of "[]" "drop 4 data"] assms(6) e(1) by (simp add: good_env_put good_env_def [of "[]"])
  then have "\<exists>d'. device_write k ?e' d = Some (True, d') \<and> mtd_lines k d' = mtd_lines k d \<and>
      new_device k d' i (pi_name p) False (pi_size p) = Some ?e'"
    using bank_rewritten [of k ?e' d] assms(2,5,8) e by simp
  then obtain d' where d': "device_write k ?e' d = Some (True, d')" "mtd_lines k d' = mtd_lines k d"
    "new_device k d' i (pi_name p) False (pi_size p) = Some ?e'"
    by blast
  then have init': "boot_init k zcu111_env d' = Some (False, one_bank ?e', d')"
    using assms(1) e same_devices [OF d'(2)] by (intro one_bank_init) simp_all
  have "CHR ''='' \<notin> set var"
    using assms(6) by (simp add: clean_var_def)
  moreover have "map_of (bd_env ?e') var = Some val"
    by (simp add: map_of_map_put)
  ultimately have "i2cenv_main k files [''-W'', var @ ''='' @ val] d = Some (var @ ''='' @ val @ newline, 0, d')"
    using assms(7) init d'(1) init' by (intro write_one)
  then show ?thesis
    using read_one [OF _ init'] assms(7) e(1) by (auto simp: map_of_map_put)
qed

definition demo_line :: string where
  "demo_line = ''mtd1: 20 1000 bootenv''"

lemma demo_size: "hex_number ''20 1000 bootenv'' = 32"
  by (simp add: hex_number_def number_simps)

lemma demo_erase: "hex_number ''1000 bootenv'' = 4096"
  by (simp add: hex_number_def number_simps)

lemmas demo_numbers = demo_size demo_erase

lemma demo_devices: "getDeviceList (demo_mtd [demo_line]) zcu111_env d = [(1, \<lparr>pi_name = ''/dev/mtd1'', pi_size = 32, pi_erase = 4096\<rparr>)]"
proof -
  have "ec_line zcu111_env demo_line = Some 1" "find_char (CHR '':'') demo_line = Some 4"
    by (simp_all add: zcu111_env_def bootenv_line_def demo_line_def)
  moreover have "first_not_of '' '' demo_line 5 = Some 6" "first_of '' '' demo_line 6 = Some 8" "first_not_of '' '' demo_line 9 = Some 9"
    by (simp_all add: first_of_def first_not_of_def demo_line_def)
  moreover have "substr_from demo_line 6 = ''20 1000 bootenv''" "substr_from demo_line 9 = ''1000 bootenv''" "substr demo_line 0 4 = ''mtd1''"
    by (simp_all add: substr_from_def substr_def demo_line_def)
  ultimately have "device_line zcu111_env demo_line = Some (1, \<lparr>pi_name = ''/dev/mtd1'', pi_size = 32, pi_erase = 4096\<rparr>)"
    by (simp add: device_line_def demo_numbers) (simp add: zcu111_env_def)
  then show ?thesis
    by (simp add: getDeviceList_def demo_mtd_def)
qed

lemma demo_empty: "read_env (replicate 28 0) [] = []"
  by (subst read_env.simps) (simp add: numeral_eq_Suc)

theorem set_variable_is_shown_witness:
  "\<exists>d'. i2cenv_main (demo_mtd [demo_line]) (\<lambda>f. None) [''-W'', ''delay=5''] (\<lambda>_. replicate 32 0) = Some (''delay=5'' @ newline, 0, d') \<and>
    i2cenv_main (demo_mtd [demo_line]) (\<lambda>f. None) [''delay''] d' = Some (''delay=5'' @ newline, 0, d')"
proof -
  let ?p = "\<lparr>pi_name = ''/dev/mtd1'', pi_size = 32, pi_erase = 4096\<rparr>"
  have "mtd_read (demo_mtd [demo_line]) (pi_name ?p) (pi_size ?p) (\<lambda>_. replicate 32 0) = Some (replicate 32 0)"
    by (simp add: demo_mtd_def)
  moreover have "clean_var (''delay'', ''5'')" "char_at ''delay'' 0 \<noteq> CHR ''-''"
    by (simp_all add: clean_var_def char_at_def)
  moreover have "env_fits (read_device 1 (pi_name ?p) False (pi_size ?p) (replicate 32 0)\<lparr>bd_env :=
      map_put ''delay'' ''5'' (read_env (drop 4 (replicate 32 0)) [])\<rparr>)"
    by (simp add: demo_empty env_fits_def payload_def env_bytes_def env_strings_def read_device_def)
  ultimately show ?thesis
    using set_variable_is_shown [OF demo_devices demo_flash_works, of "\<lambda>_. replicate 32 0" "replicate 32 0" "''delay''" "''5''" "\<lambda>f. None"]
    by auto
qed

end
