(* ===== verification/BootBanks.thy ===== *)
theory BootBanks
  imports BootEnv
begin

text \<open>
  The banks of \<open>BootEnv\<close> as its callers see them: the operations in any order keep the active and the inactive
  bank apart, and a change of variables is all or nothing.
\<close>

section \<open>The invariant\<close>

definition good_banks :: "boot_env \<Rightarrow> bool" where
  "good_banks b \<longleftrightarrow>
     (\<forall>i. be_active b = Some i \<longrightarrow> i < length (be_devices b)) \<and>
     (\<forall>j. be_inactive b = Some j \<longrightarrow> j < length (be_devices b)) \<and>
     (be_active b \<noteq> None \<longrightarrow> be_active b \<noteq> be_inactive b) \<and>
     (be_active b = None \<and> be_devices b \<noteq> [] \<longrightarrow> be_inactive b = Some (length (be_devices b) - 1))"

lemma good_no_banks: "good_banks no_banks"
  by (simp add: good_banks_def no_banks_def)

lemma good_new_active:
  "good_banks b \<Longrightarrow> be_active b = None \<Longrightarrow> good_banks (b\<lparr>be_devices := be_devices b @ [e], be_active := Some (length (be_devices b))\<rparr>)"
  by (auto simp: good_banks_def less_Suc_eq)

lemma good_new_inactive:
  "good_banks b \<Longrightarrow> good_banks (b\<lparr>be_devices := be_devices b @ [e], be_inactive := Some (length (be_devices b))\<rparr>)"
  by (auto simp: good_banks_def less_Suc_eq)

lemma add_device_cases:
  assumes "add_device k c entry (b, d) = Some (b', d')"
  obtains "b' = b" | e where "be_active b = None" "b' = b\<lparr>be_devices := be_devices b @ [e], be_active := Some (length (be_devices b))\<rparr>"
  | e where "b' = b\<lparr>be_devices := be_devices b @ [e], be_inactive := Some (length (be_devices b))\<rparr>"
proof -
  obtain index p where entry: "entry = (index, p)"
    by (cases entry)
  obtain e where e: "new_device k d index (pi_name p) (ec_flag c) (pi_size p) = Some e"
    using assms by (auto simp: add_device_def entry bind_eq_Some_conv)
  note add = assms [unfolded add_device_def entry Let_def prod.case e bind.bind_lunit]
  consider "\<not> bd_valid e" | "bd_valid e" "bd_active e" "be_active b = None" | "bd_valid e" "bd_active e" "be_active b \<noteq> None"
    | "bd_valid e" "\<not> bd_active e"
    by blast
  then show thesis
  proof cases
    case 1
    then show thesis using add by (intro that(1)) simp
  next
    case 2
    then show thesis using add by (intro that(2) [of e]) simp_all
  next
    case 3
    then have "b' = b\<lparr>be_devices := be_devices b @ [e\<lparr>bd_active := False\<rparr>], be_inactive := Some (length (be_devices b))\<rparr>"
      using add by (auto simp: bind_eq_Some_conv)
    then show thesis by (rule that(3))
  next
    case 4
    then show thesis using add by (intro that(3) [of e]) simp
  qed
qed

lemma add_device_good: "add_device k c entry (b, d) = Some (b', d') \<Longrightarrow> good_banks b \<Longrightarrow> good_banks b'"
  by (erule add_device_cases) (simp_all add: good_new_active good_new_inactive)

lemma add_devices_good: "add_devices k c entries (b, d) = Some (b', d') \<Longrightarrow> good_banks b \<Longrightarrow> good_banks b'"
proof (induction entries arbitrary: b d)
  case (Cons entry entries)
  then obtain b1 d1 where "add_device k c entry (b, d) = Some (b1, d1)" "add_devices k c entries (b1, d1) = Some (b', d')"
    by (auto simp: bind_eq_Some_conv)
  with Cons.prems(2) show ?case
    by (auto intro: Cons.IH add_device_good)
qed simp

lemma init_good:
  assumes "boot_init k c d = Some (r, b, d')" "2 \<le> ec_banks c"
  shows "good_banks b"
proof -
  obtain b1 d1 where add: "add_devices k c (getDeviceList k c d) (no_banks, d) = Some (b1, d1)"
    using assms(1) by (auto simp: boot_init_def bind_eq_Some_conv)
  then have "good_banks b1"
    using good_no_banks by (rule add_devices_good)
  moreover have "good_banks (b1\<lparr>be_devices := e # es, be_active := Some 0\<rparr>)"
    if "be_devices b1 = e' # es" "be_active b1 = None" "2 \<le> length (be_devices b1)" for e e' es
    using that \<open>good_banks b1\<close> by (cases es) (auto simp: good_banks_def)
  ultimately show ?thesis
    using assms add by (auto simp: boot_init_def bind_eq_Some_conv Let_def split: if_splits list.splits)
qed

section \<open>Changing the environment\<close>

lemma checkState_two:
  assumes "checkState c b" "2 \<le> ec_banks c" "good_banks b"
  obtains i j where "be_active b = Some i" "be_inactive b = Some j" "i \<noteq> j" "i < length (be_devices b)" "j < length (be_devices b)"
  using assms by (auto simp: checkState_def good_banks_def split: if_splits)

text \<open>Of two banks the one that was active keeps its variables, and it is the active one unless all was written.\<close>

definition kept :: "bool \<Rightarrow> vars \<Rightarrow> boot_env \<Rightarrow> boot_env \<Rightarrow> bool" where
  "kept ok newEnv b b' \<longleftrightarrow> good_banks b' \<and> length (be_devices b') = length (be_devices b) \<and>
     (if ok then be_active b' = be_inactive b \<and> be_inactive b' = be_active b \<and> bd_env (active_device b') = newEnv
      else be_active b' = be_active b \<and> be_inactive b' = be_inactive b) \<and>
     bd_env (be_devices b' ! the (be_active b)) = bd_env (active_device b)"

lemma kept_first: "be_active b = Some i \<Longrightarrow> i < length (be_devices b) \<Longrightarrow> good_banks b \<Longrightarrow>
    kept False newEnv b (b\<lparr>be_devices := (be_devices b)[i := (be_devices b ! i)\<lparr>bd_active := False\<rparr>]\<rparr>)"
  by (auto simp: kept_def good_banks_def active_device_def)

lemma writeInactive_keeps:
  assumes "writeInactive k c newEnv b d = Some (ok, b', d')" "checkState c b" "2 \<le> ec_banks c" "good_banks b"
  shows "kept ok newEnv b b'"
proof -
  obtain i j where ij: "be_active b = Some i" "be_inactive b = Some j" "i \<noteq> j" "i < length (be_devices b)" "j < length (be_devices b)"
    using checkState_two [OF assms(2-4)] .
  let ?ei = "(be_devices b ! i)\<lparr>bd_active := False\<rparr>"
  let ?ej = "(be_devices b ! j)\<lparr>bd_active := True, bd_env := newEnv\<rparr>"
  let ?b1 = "b\<lparr>be_devices := (be_devices b)[i := ?ei]\<rparr>"
  let ?b2 = "?b1\<lparr>be_devices := (be_devices b)[i := ?ei, j := ?ej]\<rparr>"
  have "b' = ?b1 \<and> \<not> ok \<or> b' = ?b2 \<and> \<not> ok \<or> b' = ?b2\<lparr>be_active := Some j, be_inactive := Some i\<rparr> \<and> ok"
    using assms(1-3) ij by (auto simp: writeInactive_def Let_def bind_eq_Some_conv nth_list_update split: if_splits)
  moreover have "kept False newEnv b ?b1"
    using kept_first ij assms(4) by blast
  moreover have "kept False newEnv b ?b2" "kept True newEnv b (?b2\<lparr>be_active := Some j, be_inactive := Some i\<rparr>)"
    using ij assms(4) by (auto simp: kept_def good_banks_def active_device_def)
  ultimately show ?thesis
    by auto
qed

lemma writeActive_good:
  "writeActive k c newEnv b d = Some (ok, b', d') \<Longrightarrow> good_banks b \<Longrightarrow> good_banks b'"
  by (auto simp: writeActive_def Let_def bind_eq_Some_conv good_banks_def split: if_splits)

lemma writeEnv_good:
  assumes "writeEnv k c newEnv b d = Some (ok, b', d')" "2 \<le> ec_banks c" "good_banks b"
  shows "good_banks b'"
proof (cases "ec_single c \<or> \<not> checkState c b")
  case True
  then show ?thesis
    using assms writeActive_good by (auto simp: writeEnv_def writeInactive_def split: if_splits)
next
  case False
  then show ?thesis
    using writeInactive_keeps [of k c newEnv b d ok b' d'] assms by (simp add: writeEnv_def kept_def)
qed

section \<open>Operations in any order\<close>

datatype env_op = Set_vars vars | Delete_vars "string list" | Reset_vars vars | Read_again

fun boot_op :: "'d mtd \<Rightarrow> env_class \<Rightarrow> env_op \<Rightarrow> boot_env \<Rightarrow> 'd \<Rightarrow> (bool \<times> boot_env \<times> 'd) option" where
  "boot_op k c (Set_vars changes) b d = boot_setVar k c changes b d"
| "boot_op k c (Delete_vars names) b d = boot_deleteVar k c names b d"
| "boot_op k c (Reset_vars env) b d = boot_resetVars k c env b d"
| "boot_op k c Read_again b d = boot_init k c d"

fun boot_ops :: "'d mtd \<Rightarrow> env_class \<Rightarrow> env_op list \<Rightarrow> boot_env \<Rightarrow> 'd \<Rightarrow> (boot_env \<times> 'd) option" where
  "boot_ops k c [] b d = Some (b, d)"
| "boot_ops k c (x # xs) b d = do { (ok, b, d) \<leftarrow> boot_op k c x b d; boot_ops k c xs b d }"

lemma boot_op_good:
  "boot_op k c x b d = Some (ok, b', d') \<Longrightarrow> 2 \<le> ec_banks c \<Longrightarrow> good_banks b \<Longrightarrow> good_banks b'"
  by (cases x) (auto simp: boot_setVar_def boot_deleteVar_def boot_resetVars_def split: if_splits dest: writeEnv_good init_good)

lemma boot_ops_good:
  "boot_ops k c xs b d = Some (b', d') \<Longrightarrow> 2 \<le> ec_banks c \<Longrightarrow> good_banks b \<Longrightarrow> good_banks b'"
proof (induction xs arbitrary: b d)
  case (Cons x xs)
  then obtain ok b1 d1 where "boot_op k c x b d = Some (ok, b1, d1)" "boot_ops k c xs b1 d1 = Some (b', d')"
    by (auto simp: bind_eq_Some_conv)
  with Cons.prems(2,3) show ?case
    by (auto intro: Cons.IH boot_op_good)
qed simp

text \<open>
  In the process, with two banks, in whatever order variables are set, deleted and reset and the flash is read again,
  and whichever writes fail: the active and the inactive bank stay two devices that exist. When a change fails the
  variables in the process are the old ones, when it succeeds they are the new ones and the other bank
  has the old ones.
\<close>

lemma change_in_memory:
  assumes "boot_init k c d0 = Some (r, b0, d1)" "2 \<le> ec_banks c" "\<not> ec_single c" "boot_ops k c xs b0 d1 = Some (b, d)"
    and "checkState c b" "boot_setVar k c changes b d = Some (ok, b', d')"
  shows "be_active b' \<noteq> be_inactive b' \<and> checkState c b' \<and>
    boot_getVars c b' = (if ok then fold (\<lambda>(var, val). map_put var val) changes (boot_getVars c b) else boot_getVars c b) \<and>
    (ok \<longrightarrow> bd_env (be_devices b' ! the (be_inactive b')) = boot_getVars c b)"
proof -
  have "good_banks b"
    using assms(4,2) init_good [OF assms(1,2)] by (rule boot_ops_good)
  then obtain i j where ij: "be_active b = Some i" "be_inactive b = Some j" "i \<noteq> j"
    using checkState_two [OF assms(5,2)] by metis
  have "writeInactive k c (fold (\<lambda>(var, val). map_put var val) changes (bd_env (active_device b))) b d = Some (ok, b', d')"
    using assms(3,5,6) by (simp add: boot_setVar_def writeEnv_def)
  then have "kept ok (fold (\<lambda>(var, val). map_put var val) changes (bd_env (active_device b))) b b'"
    using assms(5,2) \<open>good_banks b\<close> by (rule writeInactive_keeps)
  moreover from this have "checkState c b'"
    using ij assms(5) by (auto simp: kept_def checkState_def split: if_splits)
  ultimately show ?thesis
    using ij assms(5) by (auto simp: kept_def boot_getVars_def active_device_def split: if_splits)
qed

section \<open>The banks on the flash\<close>

text \<open>Erasing and writing one partition leaves what is read of another.\<close>

definition flash_apart :: "'d mtd \<Rightarrow> string \<Rightarrow> string \<Rightarrow> nat \<Rightarrow> bool" where
  "flash_apart k name other n \<longleftrightarrow>
     (\<forall>d start len. mtd_read k other n (snd (mtd_erase k name start len d)) = mtd_read k other n d) \<and>
     (\<forall>d data. mtd_read k other n (snd (mtd_write k name data d)) = mtd_read k other n d)"

lemma erase_blocks_apart:
  "flash_apart k name other n \<Longrightarrow> mtd_read k other n (snd (erase_blocks k name len pos m d)) = mtd_read k other n d"
proof (induction m arbitrary: pos d)
  case (Suc m)
  obtain ok d1 where e: "mtd_erase k name (of_nat pos * len) len d = (ok, d1)"
    by fastforce
  then have "mtd_read k other n d1 = mtd_read k other n d"
    using Suc.prems unfolding flash_apart_def by (metis snd_conv)
  then show ?case
    using Suc.IH [OF Suc.prems, of "pos + 1" d1] e by (cases ok) simp_all
qed simp

lemma device_write_apart:
  assumes "flash_apart k (bd_name e) other n" "device_write k e d = Some (ok, d')"
  shows "mtd_read k other n d' = mtd_read k other n d"
proof -
  obtain erased d1 where d1: "eraseFlash k (bd_name e) d = Some (erased, d1)"
    using assms(2) by (auto simp: device_write_def Let_def bind_eq_Some_conv split: if_splits)
  then have "d1 = d \<or> (\<exists>len m. d1 = snd (erase_blocks k (bd_name e) len 0 m d))"
    by (auto simp: eraseFlash_def split: if_splits option.splits) (metis snd_conv)
  then have "mtd_read k other n d1 = mtd_read k other n d"
    using erase_blocks_apart [OF assms(1)] by auto
  moreover have "d' = d1 \<or> d' = snd (mtd_write k (bd_name e) (device_image e) d1)"
    using assms(2) d1 by (auto simp: device_write_def Let_def case_prod_beta split: if_splits)
  ultimately show ?thesis
    using assms(1) by (auto simp: flash_apart_def)
qed

text \<open>A device in the list of the banks.\<close>

definition bank_of :: "nat \<Rightarrow> partition \<Rightarrow> boot_device \<Rightarrow> bool" where
  "bank_of i p e \<longleftrightarrow> bd_name e = pi_name p \<and> bd_size e = pi_size p \<and> bd_index e = i \<and> bd_flag e \<and> bd_valid e \<and>
     5 \<le> pi_size p \<and> good_env (bd_env e)"

lemma new_device_bank:
  assumes "new_device k d i (pi_name p) True (pi_size p) = Some e" "bd_valid e"
  shows "bank_of i p e"
proof -
  have "good_env (read_env rest [])" for rest
    by (rule read_env_is_good) (simp add: good_env_def)
  with assms show ?thesis
    by (auto simp: new_device_def device_read_def bank_of_def offset_size Let_def case_prod_beta split: if_splits option.splits)
qed

lemma bank_of_offset: "bank_of i p e \<Longrightarrow> dataOffset e \<le> bd_size e"
  by (simp add: bank_of_def offset_size)

lemma bank_of_update [simp]:
  "bank_of i p (e\<lparr>bd_active := a\<rparr>) = bank_of i p e"
  "bank_of i p (e\<lparr>bd_active := a, bd_env := env\<rparr>) = (bank_of i p (e\<lparr>bd_env := env\<rparr>))"
  by (simp_all add: bank_of_def)

lemma add_device_bank:
  assumes "add_device k two_banks (i, p) (b, d) = Some (b', d')" "flash_works k (pi_name p) (pi_size p)"
  shows "mtd_lines k d' = mtd_lines k d \<and> (be_devices b' = be_devices b \<or> (\<exists>e. be_devices b' = be_devices b @ [e] \<and> bank_of i p e))"
proof -
  obtain e where e: "new_device k d i (pi_name p) True (pi_size p) = Some e"
    using assms(1) by (auto simp: add_device_def two_banks_def bind_eq_Some_conv)
  have "mtd_lines k d' = mtd_lines k d" if "device_write k (e\<lparr>bd_active := False\<rparr>) d = Some (ok, d')" "bd_valid e" for ok d'
    using device_write_works [of k "e\<lparr>bd_active := False\<rparr>" d] that new_device_bank [OF e] bank_of_offset [of i p "e\<lparr>bd_active := False\<rparr>"] assms(2)
    by (auto simp: bank_of_def)
  then show ?thesis
    using assms(1) e new_device_bank [OF e]
    by (auto simp: add_device_def two_banks_def bind_eq_Some_conv Let_def split: if_splits)
qed

lemma init_two:
  assumes "getDeviceList k two_banks d0 = [(i1, p1), (i2, p2)]" "boot_init k two_banks d0 = Some (r, b, d)" "checkState two_banks b"
    and "flash_works k (pi_name p1) (pi_size p1)" "flash_works k (pi_name p2) (pi_size p2)"
  obtains e1 e2 where "be_devices b = [e1, e2]" "bank_of i1 p1 e1" "bank_of i2 p2 e2" "mtd_lines k d = mtd_lines k d0"
    "be_active b = Some 0 \<and> be_inactive b = Some 1 \<or> be_active b = Some 1 \<and> be_inactive b = Some 0"
proof -
  have good: "good_banks b"
    using init_good [OF assms(2)] by (simp add: two_banks_def)
  obtain b1 d1 b2 d2 where add: "add_device k two_banks (i1, p1) (no_banks, d0) = Some (b1, d1)"
      "add_device k two_banks (i2, p2) (b1, d1) = Some (b2, d2)"
    using assms(1,2) by (auto simp: boot_init_def bind_eq_Some_conv)
  note first = add_device_bank [OF add(1) assms(4)] and second = add_device_bank [OF add(2) assms(5)]
  have two: "2 \<le> length (be_devices b)"
    using assms(3) by (simp add: checkState_def two_banks_def split: if_splits)
  have lines: "mtd_lines k d2 = mtd_lines k d0"
    using first second by simp
  have "\<exists>e1 e2. be_devices b = [e1, e2] \<and> bank_of i1 p1 e1 \<and> bank_of i2 p2 e2 \<and> mtd_lines k d = mtd_lines k d0"
  proof (cases "b = b2 \<and> d = d2")
    case True
    then show ?thesis
      using first second two lines by (auto simp: no_banks_def)
  next
    case False
    then obtain e es ok where w: "be_devices b2 = e # es" "device_write k (e\<lparr>bd_active := True\<rparr>) d2 = Some (ok, d)"
        "be_devices b = e\<lparr>bd_active := True\<rparr> # es"
      using assms(1,2) add by (auto simp: boot_init_def bind_eq_Some_conv Let_def split: if_splits list.splits)
    then obtain e2 where "bank_of i1 p1 e" "es = [e2]" "bank_of i2 p2 e2"
      using first second two by (auto simp: no_banks_def)
    moreover from this have "mtd_lines k d = mtd_lines k d2"
      using device_write_works [of k "e\<lparr>bd_active := True\<rparr>" d2] bank_of_offset [of i1 p1 "e\<lparr>bd_active := True\<rparr>"] assms(4) w(2)
      by (auto simp: bank_of_def)
    ultimately show ?thesis
      using w(3) lines by simp
  qed
  moreover obtain i j where "be_active b = Some i" "be_inactive b = Some j" "i \<noteq> j" "i < length (be_devices b)" "j < length (be_devices b)"
    using checkState_two [OF assms(3) _ good] by (auto simp: two_banks_def)
  ultimately show thesis
    using that by (auto simp: less_Suc_eq)
qed

lemma new_device_same:
  "mtd_open_read k name d = mtd_open_read k name d' \<Longrightarrow> mtd_read k name n d = mtd_read k name n d' \<Longrightarrow>
    new_device k d i name flag n = new_device k d' i name flag n"
  by (simp add: new_device_def device_read_def)

lemma bank_written:
  assumes "flash_works k (pi_name p) (pi_size p)" "bank_of i p e" "env_fits e"
  obtains d' where "device_write k e d = Some (True, d')" "mtd_lines k d' = mtd_lines k d"
    "new_device k d' i (pi_name p) True (pi_size p) = Some e"
proof -
  have e: "bd_name e = pi_name p" "bd_size e = pi_size p" "bd_index e = i" "bd_flag e" "bd_valid e" "good_env (bd_env e)"
    using assms(2) by (simp_all add: bank_of_def)
  then have "e\<lparr>bd_valid := True, bd_index := i, bd_active := (if bd_flag e then bd_active e else True)\<rparr> = e"
    by (cases e) simp
  then show thesis
    using write_then_read [of k e d i] assms e bank_of_offset [OF assms(2)] that by auto
qed

text \<open>Two banks written one after the other are both read as they were written.\<close>

lemma banks_written:
  assumes "flash_works k (pi_name p) (pi_size p)" "flash_works k (pi_name q) (pi_size q)" "flash_apart k (pi_name q) (pi_name p) (pi_size p)"
    and "bank_of i p e" "env_fits e" "bank_of j q f" "env_fits f"
  obtains d1 d2 where "device_write k e d = Some (True, d1)" "device_write k f d1 = Some (True, d2)" "mtd_lines k d2 = mtd_lines k d"
    "new_device k d2 i (pi_name p) True (pi_size p) = Some e" "new_device k d2 j (pi_name q) True (pi_size q) = Some f"
proof -
  obtain d1 where d1: "device_write k e d = Some (True, d1)" "mtd_lines k d1 = mtd_lines k d"
    "new_device k d1 i (pi_name p) True (pi_size p) = Some e"
    using bank_written [OF assms(1,4,5)] by blast
  obtain d2 where d2: "device_write k f d1 = Some (True, d2)" "mtd_lines k d2 = mtd_lines k d1"
    "new_device k d2 j (pi_name q) True (pi_size q) = Some f"
    using bank_written [OF assms(2,6,7)] by blast
  have "mtd_read k (pi_name p) (pi_size p) d2 = mtd_read k (pi_name p) (pi_size p) d1"
    using device_write_apart [of k f _ _ d1] assms(3,6) d2(1) by (simp add: bank_of_def)
  moreover have "mtd_open_read k (pi_name p) d2 = mtd_open_read k (pi_name p) d1"
    using assms(1) by (simp add: flash_works_def)
  ultimately have "new_device k d2 i (pi_name p) True (pi_size p) = Some e"
    using d1(3) new_device_same by metis
  then show thesis
    using d1 d2 that by simp
qed

text \<open>Of two banks that can be read with one of them active, both are taken and nothing is written.\<close>

lemma init_reads_two:
  assumes "getDeviceList k two_banks d = [(i1, p1), (i2, p2)]"
    and "new_device k d i1 (pi_name p1) True (pi_size p1) = Some e1" "new_device k d i2 (pi_name p2) True (pi_size p2) = Some e2"
    and "bd_valid e1" "bd_valid e2" "bd_active e1 = (\<not> bd_active e2)"
  shows "boot_init k two_banks d = Some (False, \<lparr>be_devices = [e1, e2], be_active = Some (if bd_active e1 then 0 else 1),
    be_inactive = Some (if bd_active e1 then 1 else 0)\<rparr>, d)"
  using assms by (simp add: boot_init_def add_device_def no_banks_def Let_def) (simp add: two_banks_def)

lemma good_env_puts:
  "good_env env \<Longrightarrow> list_all clean_var changes \<Longrightarrow> good_env (fold (\<lambda>(var, val). map_put var val) changes env)"
  by (induction changes arbitrary: env) (auto intro: good_env_put)

text \<open>
  C36: with two banks on a flash that works, a change of variables that fit reaches the flash: it succeeds, and when the
  flash is read again the environment is the one in the process, the other bank is the active one with
  the new variables, and the bank that was active still holds the old ones.
\<close>

theorem change_switches_banks:
  assumes "getDeviceList k two_banks d0 = [(i1, p1), (i2, p2)]"
    and "flash_works k (pi_name p1) (pi_size p1)" "flash_works k (pi_name p2) (pi_size p2)"
    and "flash_apart k (pi_name p1) (pi_name p2) (pi_size p2)" "flash_apart k (pi_name p2) (pi_name p1) (pi_size p1)"
    and "boot_init k two_banks d0 = Some (r, b, d)" "checkState two_banks b" "list_all clean_var changes"
    and "env_fits (active_device b)"
    and "env_fits ((be_devices b ! the (be_inactive b))\<lparr>bd_env := fold (\<lambda>(var, val). map_put var val) changes (boot_getVars two_banks b)\<rparr>)"
  shows "\<exists>b' d'. boot_setVar k two_banks changes b d = Some (True, b', d') \<and> boot_init k two_banks d' = Some (False, b', d') \<and>
    be_active b' = be_inactive b \<and> be_inactive b' = be_active b \<and>
    boot_getVars two_banks b' = fold (\<lambda>(var, val). map_put var val) changes (boot_getVars two_banks b) \<and>
    bd_env (be_devices b' ! the (be_inactive b')) = boot_getVars two_banks b"
proof -
  obtain e1 e2 where e: "be_devices b = [e1, e2]" "bank_of i1 p1 e1" "bank_of i2 p2 e2" "mtd_lines k d = mtd_lines k d0"
    "be_active b = Some 0 \<and> be_inactive b = Some 1 \<or> be_active b = Some 1 \<and> be_inactive b = Some 0"
    using init_two [OF assms(1,6,7,2,3)] by blast
  have list: "getDeviceList k two_banks d' = [(i1, p1), (i2, p2)]" if "mtd_lines k d' = mtd_lines k d" for d'
    using assms(1) e(4) that by (simp add: getDeviceList_def)
  let ?env = "fold (\<lambda>(var, val). map_put var val) changes (boot_getVars two_banks b)"
  have good: "good_env ?env"
    using e assms(7,8) by (auto simp: boot_getVars_def active_device_def bank_of_def intro!: good_env_puts)
  from e(5) show ?thesis
  proof
    assume act: "be_active b = Some 0 \<and> be_inactive b = Some 1"
    let ?e = "e1\<lparr>bd_active := False\<rparr>" and ?f = "e2\<lparr>bd_active := True, bd_env := ?env\<rparr>"
    have banks: "bank_of i1 p1 ?e" "env_fits ?e" "bank_of i2 p2 ?f" "env_fits ?f"
      using e assms(9,10) act good by (auto simp: active_device_def env_fits_def payload_def bank_of_def)
    obtain d1 d2 where w: "device_write k ?e d = Some (True, d1)" "device_write k ?f d1 = Some (True, d2)" "mtd_lines k d2 = mtd_lines k d"
      "new_device k d2 i1 (pi_name p1) True (pi_size p1) = Some ?e" "new_device k d2 i2 (pi_name p2) True (pi_size p2) = Some ?f"
      using banks_written [OF assms(2,3,5) banks] by blast
    have "boot_setVar k two_banks changes b d =
        Some (True, \<lparr>be_devices = [?e, ?f], be_active = Some 1, be_inactive = Some 0\<rparr>, d2)"
      using e(1) act assms(7) w(1,2) by (simp add: boot_setVar_def writeEnv_def writeInactive_def active_device_def boot_getVars_def)
        (simp add: two_banks_def)
    then show ?thesis
      using init_reads_two [OF list [OF w(3)] w(4,5)] e act assms(7)
      by (simp add: bank_of_def boot_getVars_def active_device_def) (simp add: checkState_def two_banks_def)
  next
    assume act: "be_active b = Some 1 \<and> be_inactive b = Some 0"
    let ?e = "e2\<lparr>bd_active := False\<rparr>" and ?f = "e1\<lparr>bd_active := True, bd_env := ?env\<rparr>"
    have banks: "bank_of i2 p2 ?e" "env_fits ?e" "bank_of i1 p1 ?f" "env_fits ?f"
      using e assms(9,10) act good by (auto simp: active_device_def env_fits_def payload_def bank_of_def)
    obtain d1 d2 where w: "device_write k ?e d = Some (True, d1)" "device_write k ?f d1 = Some (True, d2)" "mtd_lines k d2 = mtd_lines k d"
      "new_device k d2 i2 (pi_name p2) True (pi_size p2) = Some ?e" "new_device k d2 i1 (pi_name p1) True (pi_size p1) = Some ?f"
      using banks_written [OF assms(3,2,4) banks] by blast
    have "boot_setVar k two_banks changes b d =
        Some (True, \<lparr>be_devices = [?f, ?e], be_active = Some 0, be_inactive = Some 1\<rparr>, d2)"
      using e(1) act assms(7) w(1,2) by (simp add: boot_setVar_def writeEnv_def writeInactive_def active_device_def boot_getVars_def)
        (simp add: two_banks_def)
    then show ?thesis
      using init_reads_two [OF list [OF w(3)] w(5,4)] e act assms(7)
      by (simp add: bank_of_def boot_getVars_def active_device_def) (simp add: checkState_def two_banks_def)
  qed
qed

text \<open>
  The switch is not safe against a loss of power. The bank that was active is marked inactive first; when the other is
  erased and not written, its flag reads as 255: the next \<open>init\<close> takes it as the active bank, with no variables, because
  the checksum is not asked.
\<close>

lemma erased_is_empty: "read_env (replicate n 0xff) [] = []"
proof -
  have "readString (replicate n 0xff) = (replicate n (byte_char 0xff), [])"
    by (induction n) auto
  moreover have "byte_char 0xff \<noteq> CHR ''=''"
    by code_simp
  then have "find_char (CHR ''='') (replicate n (byte_char 0xff)) = None"
    by (induction n) auto
  ultimately show ?thesis
    by (subst read_env.simps) (simp add: case_prod_beta)
qed

theorem interrupted_change_loses_variables:
  assumes "getDeviceList k two_banks d = [(i1, p1), (i2, p2)]" "5 \<le> pi_size p1" "5 \<le> pi_size p2"
    and "mtd_open_read k (pi_name p1) d" "mtd_open_read k (pi_name p2) d"
    and "mtd_read k (pi_name p1) (pi_size p1) d = Some data" "length data = pi_size p1" "data ! 4 = 0"
    and "mtd_read k (pi_name p2) (pi_size p2) d = Some (replicate (pi_size p2) 0xff)"
  shows "\<exists>b. boot_init k two_banks d = Some (False, b, d) \<and> checkState two_banks b \<and> be_active b = Some 1 \<and> boot_getVars two_banks b = []"
proof -
  have new: "new_device k d i1 (pi_name p1) True (pi_size p1) = Some (read_device i1 (pi_name p1) True (pi_size p1) data)"
    "new_device k d i2 (pi_name p2) True (pi_size p2) = Some (read_device i2 (pi_name p2) True (pi_size p2) (replicate (pi_size p2) 0xff))"
    using assms by (auto intro!: new_device_read)
  have "boot_getVars two_banks \<lparr>be_devices = [e1, e2], be_active = Some 1, be_inactive = Some 0\<rparr> = bd_env e2" for e1 e2
    by (simp add: boot_getVars_def checkState_def active_device_def two_banks_def)
  then show ?thesis
    using init_reads_two [OF assms(1) new] assms(2,3,8) erased_is_empty by (simp add: read_device_def checkState_def) (simp add: two_banks_def)
qed

section \<open>An example\<close>

definition demo_banks :: "string list" where
  "demo_banks = [''mtd3: 20 1000 \"ubenv1\"'', ''mtd2: 20 1000 \"ubenv2\"'']"

abbreviation demo_flash :: "partitions mtd" where
  "demo_flash \<equiv> demo_mtd demo_banks"

definition demo_partition :: "string \<Rightarrow> partition" where
  "demo_partition name = \<lparr>pi_name = name, pi_size = 32, pi_erase = 4096\<rparr>"

lemma demo_size1: "hex_number ''20 1000 \"ubenv1\"'' = 32"
  by (simp add: hex_number_def number_simps)

lemma demo_size2: "hex_number ''20 1000 \"ubenv2\"'' = 32"
  by (simp add: hex_number_def number_simps)

lemma demo_erase1: "hex_number ''1000 \"ubenv1\"'' = 4096"
  by (simp add: hex_number_def number_simps)

lemma demo_erase2: "hex_number ''1000 \"ubenv2\"'' = 4096"
  by (simp add: hex_number_def number_simps)

lemmas demo_hex = demo_size1 demo_size2 demo_erase1 demo_erase2

lemma demo_index: "ubenv_line ''mtd3: 20 1000 \"ubenv1\"'' = Some 1" "ubenv_line ''mtd2: 20 1000 \"ubenv2\"'' = Some 2"
  by (simp_all add: ubenv_line_def extractUnsigned_def first_of_def first_not_of_def substr_def digits_value_def digit_val_def Let_def)

lemma demo_partitions:
  "getDeviceList demo_flash two_banks d = [(1, demo_partition ''/dev/mtd3''), (2, demo_partition ''/dev/mtd2'')]"
proof -
  have "device_line two_banks ''mtd3: 20 1000 \"ubenv1\"'' = Some (1, demo_partition ''/dev/mtd3'')"
    "device_line two_banks ''mtd2: 20 1000 \"ubenv2\"'' = Some (2, demo_partition ''/dev/mtd2'')"
    by (simp_all add: device_line_def two_banks_def demo_index first_of_def first_not_of_def substr_def substr_from_def demo_hex
        demo_partition_def Let_def)
  then show ?thesis
    by (simp add: getDeviceList_def demo_mtd_def demo_banks_def)
qed

definition zero_bank :: "nat \<Rightarrow> string \<Rightarrow> boot_device" where
  "zero_bank i name = \<lparr>bd_flag = True, bd_size = 32, bd_valid = True, bd_index = i, bd_name = name, bd_active = False, bd_env = []\<rparr>"

abbreviation zero_flash :: partitions where
  "zero_flash \<equiv> \<lambda>_. replicate 32 0"

lemma zero_bank: "new_device demo_flash zero_flash i (pi_name (demo_partition name)) True (pi_size (demo_partition name)) =
    Some (zero_bank i name)"
proof -
  have "read_env (replicate 27 0) [] = []"
    by (subst read_env.simps) (simp add: numeral_eq_Suc)
  then have "read_device i name True 32 (replicate 32 0) = zero_bank i name"
    by (simp add: read_device_def zero_bank_def)
  then show ?thesis
    using new_device_read [of demo_flash name zero_flash 32 "replicate 32 0" True i] by (simp add: demo_mtd_def demo_partition_def)
qed

lemma demo_write: "dataOffset e \<le> bd_size e \<Longrightarrow> \<exists>d'. device_write demo_flash e d = Some (True, d')"
  using device_write_works [OF demo_flash_works] by blast

definition demo_env :: boot_env where
  "demo_env = \<lparr>be_devices = [(zero_bank 1 ''/dev/mtd3'')\<lparr>bd_active := True\<rparr>, zero_bank 2 ''/dev/mtd2''],
     be_active = Some 0, be_inactive = Some 1\<rparr>"

lemma demo_init: "\<exists>d. boot_init demo_flash two_banks zero_flash = Some (True, demo_env, d)"
proof -
  obtain d where d: "device_write demo_flash ((zero_bank 1 ''/dev/mtd3'')\<lparr>bd_active := True\<rparr>) zero_flash = Some (True, d)"
    using demo_write [of "(zero_bank 1 ''/dev/mtd3'')\<lparr>bd_active := True\<rparr>"] by (auto simp: zero_bank_def offset_size)
  have "add_devices demo_flash two_banks (getDeviceList demo_flash two_banks zero_flash) (no_banks, zero_flash) =
      Some (\<lparr>be_devices = [zero_bank 1 ''/dev/mtd3'', zero_bank 2 ''/dev/mtd2''], be_active = None, be_inactive = Some 1\<rparr>, zero_flash)"
    unfolding demo_partitions
    by (simp add: add_device_def zero_bank two_banks_def no_banks_def) (simp add: zero_bank_def)
  then show ?thesis
    using d by (simp add: boot_init_def demo_env_def) (simp add: two_banks_def)
qed

lemma demo_apart: "name \<noteq> other \<Longrightarrow> flash_apart demo_flash name other n"
  by (simp add: flash_apart_def demo_mtd_def)

theorem change_switches_banks_witness:
  "\<exists>d b' d'. boot_init demo_flash two_banks zero_flash = Some (True, demo_env, d) \<and>
    boot_setVar demo_flash two_banks [(''a'', ''1'')] demo_env d = Some (True, b', d') \<and>
    boot_init demo_flash two_banks d' = Some (False, b', d') \<and> boot_getVars two_banks b' = [(''a'', ''1'')]"
proof -
  obtain d where d: "boot_init demo_flash two_banks zero_flash = Some (True, demo_env, d)"
    using demo_init by blast
  have env: "checkState two_banks demo_env" "boot_getVars two_banks demo_env = []"
      "list_all clean_var [(''a'', ''1'')]" "env_fits (active_device demo_env)"
      "env_fits ((be_devices demo_env ! the (be_inactive demo_env))\<lparr>bd_env := [(''a'', ''1'')]\<rparr>)"
    by (simp_all add: checkState_def boot_getVars_def active_device_def demo_env_def two_banks_def zero_bank_def clean_var_def
        env_fits_def payload_def env_bytes_def env_strings_def)
  have "pi_name (demo_partition ''/dev/mtd3'') \<noteq> pi_name (demo_partition ''/dev/mtd2'')"
    by (simp add: demo_partition_def)
  then have apart: "flash_apart demo_flash (pi_name (demo_partition ''/dev/mtd3'')) (pi_name (demo_partition ''/dev/mtd2'')) n"
      "flash_apart demo_flash (pi_name (demo_partition ''/dev/mtd2'')) (pi_name (demo_partition ''/dev/mtd3'')) n" for n
    by (simp_all add: demo_apart)
  show ?thesis
    using change_switches_banks [OF demo_partitions demo_flash_works demo_flash_works apart d env(1,3,4)] env d by auto
qed

theorem interrupted_change_loses_variables_witness:
  "\<exists>b. boot_init demo_flash two_banks (zero_flash(''/dev/mtd2'' := replicate 32 0xff)) =
      Some (False, b, zero_flash(''/dev/mtd2'' := replicate 32 0xff)) \<and> be_active b = Some 1 \<and> boot_getVars two_banks b = []"
proof -
  have "\<exists>b. boot_init demo_flash two_banks (zero_flash(''/dev/mtd2'' := replicate 32 0xff)) =
      Some (False, b, zero_flash(''/dev/mtd2'' := replicate 32 0xff)) \<and> checkState two_banks b \<and> be_active b = Some 1 \<and>
      boot_getVars two_banks b = []"
    by (rule interrupted_change_loses_variables [OF demo_partitions, where data = "replicate 32 0"])
      (simp_all add: demo_partition_def demo_mtd_def)
  then show ?thesis
    by blast
qed

end
