(* ===== verification/IoWorld.thy ===== *)
theory IoWorld
  imports CLib "HOL-Library.State_Monad"
begin

text \<open>
  The world of a command-line tool: the kernel answers each call from the history of calls,
  standard input and standard output are strings, and the history is kept, so that a
  theorem can speak of what a program did to the device. A program is a state monad over
  the world; \<open>exit\<close> ends \<open>main\<close> and is its return value. Messages to \<open>stderr\<close> change nothing
  and are left out.
\<close>

section \<open>Calls and answers\<close>

datatype smbus_size =
    I2C_SMBUS_QUICK | I2C_SMBUS_BYTE | I2C_SMBUS_BYTE_DATA | I2C_SMBUS_WORD_DATA
  | I2C_SMBUS_PROC_CALL | I2C_SMBUS_BLOCK_DATA | I2C_SMBUS_I2C_BLOCK_BROKEN
  | I2C_SMBUS_BLOCK_PROC_CALL | I2C_SMBUS_I2C_BLOCK_DATA

datatype call =
    Open string
  | Close int
  | Ioctl_funcs int
  | Ioctl_slave int bool int
  | Ioctl_pec int int
  | Ioctl_smbus int u8 u8 smbus_size "u8 list option"
  | Fopen string
  | Opendir string
  | Alloc nat
  | Read int nat
  | Write int string
  | Usleep nat
  | Ioctl_tun int string nat
  | Ioctl_persist int nat
  | Mmap nat bool int nat
  | Peek nat
  | Poke nat u32

text \<open>
  The answer: the return value, \<open>errno\<close> when it reports an error, the bytes the kernel wrote
  into the caller's memory, the functionality mask, the text of a file, the names of a
  directory.
\<close>

record resp =
  r_ret :: int
  r_errno :: int
  r_data :: "u8 list"
  r_funcs :: u64
  r_text :: string
  r_names :: "string list"

record world =
  w_kernel :: "(call \<times> resp) list \<Rightarrow> call \<Rightarrow> resp"
  w_trace :: "(call \<times> resp) list"
  w_stdin :: string
  w_stdout :: string
  w_junk :: "u8 list"
  w_junk_ints :: "int list"

type_synonym 'a io = "(world, 'a) state"

definition sys :: "call \<Rightarrow> resp io" where
  "sys c = State (\<lambda>w. let r = w_kernel w (w_trace w) c in (r, w\<lparr>w_trace := w_trace w @ [(c, r)]\<rparr>))"

definition print :: "string \<Rightarrow> unit io" where
  "print s = State (\<lambda>w. ((), w\<lparr>w_stdout := w_stdout w @ s\<rparr>))"

definition read_stdin :: "(string \<Rightarrow> 'a \<times> string) \<Rightarrow> 'a io" where
  "read_stdin f = State (\<lambda>w. let (x, rest) = f (w_stdin w) in (x, w\<lparr>w_stdin := rest\<rparr>))"

text \<open>The 34 bytes of a local \<open>union i2c_smbus_data\<close> before anything is stored in it.\<close>

definition junk_union :: "u8 list io" where
  "junk_union = State (\<lambda>w. (take 34 (w_junk w @ replicate 34 0), w))"

text \<open>A local \<open>int block[256]\<close> before anything is stored in it.\<close>

definition junk_block :: "int list io" where
  "junk_block = State (\<lambda>w. (take 256 (w_junk_ints w @ replicate 256 0), w))"

section \<open>Reasoning\<close>

definition hoare :: "(world \<Rightarrow> bool) \<Rightarrow> 'a io \<Rightarrow> ('a \<Rightarrow> world \<Rightarrow> bool) \<Rightarrow> bool" where
  "hoare P m Q \<longleftrightarrow> (\<forall>w. P w \<longrightarrow> Q (fst (run_state m w)) (snd (run_state m w)))"

declare run_state_bind [simp del]

lemma run_bind [io_simps]:
  "run_state (State_Monad.bind m f) w = run_state (f (fst (run_state m w))) (snd (run_state m w))"
  by (simp add: run_state_bind split: prod.splits)

lemma run_return [io_simps]: "run_state (State_Monad.return x) w = (x, w)"
  by (simp add: State_Monad.return_def)

lemma run_sys [io_simps]:
  "run_state (sys c) w = (w_kernel w (w_trace w) c, w\<lparr>w_trace := w_trace w @ [(c, w_kernel w (w_trace w) c)]\<rparr>)"
  by (simp add: sys_def Let_def)

text \<open>The world after a call.\<close>

definition after :: "world \<Rightarrow> call \<Rightarrow> world" where
  "after w c = w\<lparr>w_trace := w_trace w @ [(c, w_kernel w (w_trace w) c)]\<rparr>"

lemma run_sys_after: "run_state (sys c) w = (w_kernel w (w_trace w) c, after w c)"
  by (simp add: run_sys after_def)

lemma after_simps [simp]: "w_kernel (after w c) = w_kernel w" "w_stdin (after w c) = w_stdin w" "w_stdout (after w c) = w_stdout w"
  by (simp_all add: after_def)

lemma after_trace: "w_trace (after w c) = w_trace w @ [(c, w_kernel w (w_trace w) c)]"
  by (simp add: after_def)

lemma run_print [io_simps]: "run_state (print s) w = ((), w\<lparr>w_stdout := w_stdout w @ s\<rparr>)"
  by (simp add: print_def)

lemma run_read_stdin [io_simps]:
  "run_state (read_stdin f) w = (fst (f (w_stdin w)), w\<lparr>w_stdin := snd (f (w_stdin w))\<rparr>)"
  by (simp add: read_stdin_def Let_def split: prod.splits)

lemma run_junk_union [io_simps]: "run_state junk_union w = (take 34 (w_junk w @ replicate 34 0), w)"
  by (simp add: junk_union_def)

lemma run_junk_block [io_simps]: "run_state junk_block w = (take 256 (w_junk_ints w @ replicate 256 0), w)"
  by (simp add: junk_block_def)

lemma hoareI: "(\<And>w. P w \<Longrightarrow> Q (fst (run_state m w)) (snd (run_state m w))) \<Longrightarrow> hoare P m Q"
  by (simp add: hoare_def)

lemma hoareD: "hoare P m Q \<Longrightarrow> P w \<Longrightarrow> Q (fst (run_state m w)) (snd (run_state m w))"
  by (simp add: hoare_def)

lemma hoare_bind: "hoare P m R \<Longrightarrow> (\<And>x. hoare (R x) (f x) Q) \<Longrightarrow> hoare P (State_Monad.bind m f) Q"
  unfolding hoare_def run_bind by blast

lemma hoare_return: "hoare (Q x) (State_Monad.return x) Q"
  by (simp add: hoare_def io_simps)

lemma hoare_if:
  "\<lbrakk> b \<Longrightarrow> hoare P m Q; \<not> b \<Longrightarrow> hoare P n Q \<rbrakk> \<Longrightarrow> hoare P (if b then m else n) Q"
  by simp

lemma hoare_option:
  "\<lbrakk> x = None \<Longrightarrow> hoare P m Q; \<And>v. x = Some v \<Longrightarrow> hoare P (f v) Q \<rbrakk> \<Longrightarrow>
    hoare P (case x of None \<Rightarrow> m | Some v \<Rightarrow> f v) Q"
  by (cases x) auto

lemma hoare_prod: "(\<And>a b. x = (a, b) \<Longrightarrow> hoare P (f a b) Q) \<Longrightarrow> hoare P (case x of (a, b) \<Rightarrow> f a b) Q"
  by (cases x) auto

lemma hoare_conseq:
  "\<lbrakk> hoare P' m Q'; \<And>w. P w \<Longrightarrow> P' w; \<And>x w. Q' x w \<Longrightarrow> Q x w \<rbrakk> \<Longrightarrow> hoare P m Q"
  by (simp add: hoare_def)

text \<open>What a program returns, whatever the world.\<close>

definition yields :: "'a io \<Rightarrow> ('a \<Rightarrow> bool) \<Rightarrow> bool" where
  "yields m P \<longleftrightarrow> (\<forall>w. P (fst (run_state m w)))"

lemma yields_bind: "yields m Q \<Longrightarrow> (\<And>x. Q x \<Longrightarrow> yields (f x) P) \<Longrightarrow> yields (State_Monad.bind m f) P"
  unfolding yields_def run_bind by blast

lemma yields_any: "(\<And>x. yields (f x) P) \<Longrightarrow> yields (State_Monad.bind m f) P"
  unfolding yields_def run_bind by blast

lemma yields_return [simp]: "yields (State_Monad.return x) P = P x"
  by (simp add: yields_def run_return)

lemma yieldsD: "yields m P \<Longrightarrow> P (fst (run_state m w))"
  by (simp add: yields_def)

text \<open>What a program returns under a fixed kernel.\<close>

definition under :: "((call \<times> resp) list \<Rightarrow> call \<Rightarrow> resp) \<Rightarrow> 'a io \<Rightarrow> ('a \<Rightarrow> bool) \<Rightarrow> bool" where
  "under k m P \<longleftrightarrow> hoare (\<lambda>w. w_kernel w = k) m (\<lambda>r w. P r \<and> w_kernel w = k)"

lemma under_bind: "under k m Q \<Longrightarrow> (\<And>x. Q x \<Longrightarrow> under k (f x) P) \<Longrightarrow> under k (State_Monad.bind m f) P"
  unfolding under_def hoare_def run_bind by blast

lemma under_return: "P x \<Longrightarrow> under k (State_Monad.return x) P"
  by (simp add: under_def hoare_def run_return)

lemma under_sys: "(\<And>h. P (k h c)) \<Longrightarrow> under k (sys c) P"
  by (auto simp: under_def hoare_def run_sys)

lemma under_print: "P () \<Longrightarrow> under k (print s) P"
  by (simp add: under_def hoare_def run_print)

lemma under_read_stdin: "under k (read_stdin f) (\<lambda>_. True)"
  by (simp add: under_def hoare_def run_read_stdin)

lemma under_weaken: "under k m Q \<Longrightarrow> (\<And>x. Q x \<Longrightarrow> P x) \<Longrightarrow> under k m P"
  by (auto simp: under_def hoare_def)

lemma under_any: "under k m (\<lambda>_. True) \<Longrightarrow> (\<And>x. under k (f x) P) \<Longrightarrow> under k (State_Monad.bind m f) P"
  by (rule under_bind)

lemma under_junk: "under k junk_union (\<lambda>_. True)" "under k junk_block (\<lambda>_. True)"
  by (simp_all add: under_def hoare_def run_junk_union run_junk_block)

text \<open>Programs that keep the kernel, whatever they return.\<close>

lemmas under_rules = under_return under_any under_sys under_print under_read_stdin under_junk

text \<open>An invariant of the world, kept by a program whatever it returns.\<close>

definition keeps :: "(world \<Rightarrow> bool) \<Rightarrow> 'a io \<Rightarrow> bool" where
  "keeps I m \<longleftrightarrow> hoare I m (\<lambda>_. I)"

lemma keepsD: "keeps I m \<Longrightarrow> I w \<Longrightarrow> I (snd (run_state m w))"
  by (simp add: keeps_def hoare_def)

lemma keeps_bind: "keeps I m \<Longrightarrow> (\<And>x. keeps I (f x)) \<Longrightarrow> keeps I (State_Monad.bind m f)"
  unfolding keeps_def by (rule hoare_bind)

lemma keeps_return: "keeps I (State_Monad.return x)"
  by (simp add: keeps_def hoare_def io_simps)

lemma keeps_if: "\<lbrakk> b \<Longrightarrow> keeps I m; \<not> b \<Longrightarrow> keeps I n \<rbrakk> \<Longrightarrow> keeps I (if b then m else n)"
  by simp

lemma keeps_option:
  "\<lbrakk> x = None \<Longrightarrow> keeps I m; \<And>v. x = Some v \<Longrightarrow> keeps I (f v) \<rbrakk> \<Longrightarrow>
    keeps I (case x of None \<Rightarrow> m | Some v \<Rightarrow> f v)"
  by (cases x) auto

lemma keeps_prod: "(\<And>a b. x = (a, b) \<Longrightarrow> keeps I (f a b)) \<Longrightarrow> keeps I (case x of (a, b) \<Rightarrow> f a b)"
  by (cases x) auto

lemmas keeps_rules = keeps_bind keeps_return keeps_if keeps_option keeps_prod

text \<open>Invariants of the history: every call made so far satisfies a predicate.\<close>

definition all_calls :: "(call \<Rightarrow> bool) \<Rightarrow> world \<Rightarrow> bool" where
  "all_calls p w \<longleftrightarrow> (\<forall>(c, r) \<in> set (w_trace w). p c)"

lemma all_calls_sys: "p c \<Longrightarrow> keeps (all_calls p) (sys c)"
  by (auto simp: keeps_def hoare_def all_calls_def io_simps)

lemma all_calls_sys_and: "p c \<Longrightarrow> (\<And>w. I (w\<lparr>w_trace := w_trace w @ [(c, w_kernel w (w_trace w) c)]\<rparr>) = I w) \<Longrightarrow>
    keeps (\<lambda>w. all_calls p w \<and> I w) (sys c)"
  by (auto simp: keeps_def hoare_def all_calls_def io_simps)

lemma all_calls_print: "keeps (all_calls p) (print s)"
  by (auto simp: keeps_def hoare_def all_calls_def io_simps)

lemma all_calls_read_stdin: "keeps (all_calls p) (read_stdin f)"
  by (auto simp: keeps_def hoare_def all_calls_def io_simps)

lemma all_calls_junk: "keeps (all_calls p) junk_union"
  by (auto simp: keeps_def hoare_def all_calls_def io_simps)

text \<open>So far only calls of a kind were made and no input was read.\<close>

definition quiet :: "(call \<Rightarrow> bool) \<Rightarrow> string \<Rightarrow> world \<Rightarrow> bool" where
  "quiet p str w \<longleftrightarrow> all_calls p w \<and> w_stdin w = str"

lemma quiet_sys: "p c \<Longrightarrow> keeps (quiet p str) (sys c)"
  by (auto simp: keeps_def hoare_def quiet_def all_calls_def io_simps)

lemma quiet_print: "keeps (quiet p str) (print s)"
  by (auto simp: keeps_def hoare_def quiet_def all_calls_def io_simps)

lemma quiet_junk: "keeps (quiet p str) junk_union" "keeps (quiet p str) junk_block"
  by (auto simp: keeps_def hoare_def quiet_def all_calls_def io_simps)

lemmas quiet_rules = keeps_return keeps_bind quiet_sys quiet_print quiet_junk

text \<open>Calls that leave every device alone: files, memory, opening and asking an adapter.\<close>

fun harmless :: "call \<Rightarrow> bool" where
  "harmless (Open _) = True"
| "harmless (Close _) = True"
| "harmless (Ioctl_funcs _) = True"
| "harmless (Fopen _) = True"
| "harmless (Opendir _) = True"
| "harmless (Alloc _) = True"
| "harmless _ = False"

text \<open>A transaction on the bus.\<close>

fun is_transfer :: "call \<Rightarrow> bool" where
  "is_transfer (Ioctl_smbus _ _ _ _ _) = True"
| "is_transfer _ = False"

lemma harmless_no_transfer: "harmless c \<Longrightarrow> \<not> is_transfer c"
  by (cases c) auto

section \<open>Confirmation by the user\<close>

text \<open>The rest of the line is read away; its end before a newline counts as a refusal.\<close>

fun flush_line :: "char \<Rightarrow> string \<Rightarrow> bool \<times> string" where
  "flush_line c str =
     (if c = CHR 0x0A then (True, str)
      else case str of [] \<Rightarrow> (False, []) | d # str' \<Rightarrow> flush_line d str')"

declare flush_line.simps [simp del]

definition ack_string :: "bool \<Rightarrow> string \<Rightarrow> bool \<times> string" where
  "ack_string def str =
     (case str of
        [] \<Rightarrow> (False, [])
      | c # rest \<Rightarrow>
          let ret = (if c \<in> {CHR ''y'', CHR ''Y''} then True
                     else if c \<in> {CHR ''n'', CHR ''N''} then False else def);
              (ok, rest') = flush_line c rest in
          (if ok then ret else False, rest'))"

definition user_ack :: "bool \<Rightarrow> bool io" where
  "user_ack def = read_stdin (ack_string def)"

lemma flush_line_spec:
  "flush_line c str =
    (if CHR 0x0A \<in> set (c # str) then (True, tl (dropWhile (\<lambda>d. d \<noteq> CHR 0x0A) (c # str))) else (False, []))"
proof (induction str arbitrary: c)
  case Nil
  then show ?case by (subst flush_line.simps) simp
next
  case (Cons d str)
  then show ?case by (subst flush_line.simps) auto
qed

lemma dropWhile_no_newline: "CHR 0x0A \<notin> set s \<Longrightarrow> dropWhile (\<lambda>d. d \<noteq> CHR 0x0A) s = []"
  by (auto simp: dropWhile_eq_Nil_conv)

text \<open>
  \<open>user_ack\<close> answers by the first character of a complete line (yes, no, or the
  default), consumes exactly that line, and refuses at the end of the input.
\<close>

theorem user_ack_spec:
  "run_state (user_ack def) w =
    (CHR 0x0A \<in> set (w_stdin w) \<and>
       (let c = hd (w_stdin w) in
        if c \<in> {CHR ''y'', CHR ''Y''} then True else if c \<in> {CHR ''n'', CHR ''N''} then False else def),
     w\<lparr>w_stdin := tl (dropWhile (\<lambda>c. c \<noteq> CHR 0x0A) (w_stdin w))\<rparr>)"
proof (cases "w_stdin w")
  case Nil
  then show ?thesis
    by (simp add: user_ack_def ack_string_def io_simps)
next
  case (Cons c rest)
  then show ?thesis
    by (simp add: user_ack_def ack_string_def flush_line_spec dropWhile_no_newline io_simps Let_def)
qed

section \<open>Consent\<close>

lemma user_ack_quiet:
  "hoare (quiet p str) (user_ack d) (\<lambda>ok w. quiet p (snd (ack_string d str)) w \<and> ok = fst (ack_string d str))"
  by (auto simp: hoare_def user_ack_def quiet_def all_calls_def io_simps)

lemma ack_string_mono: "fst (ack_string d str) \<Longrightarrow> fst (ack_string True str)"
  by (auto simp: ack_string_def split: list.splits prod.splits if_splits)

text \<open>A quiet part followed by the rest of the program.\<close>

lemma quiet_then:
  "keeps (quiet p str) m \<Longrightarrow> (\<And>x. hoare (quiet p str) (f x) Q) \<Longrightarrow> hoare (quiet p str) (State_Monad.bind m f) Q"
  unfolding keeps_def by (rule hoare_bind)

lemma quiet_return: "hoare (quiet p str) (State_Monad.return x) (\<lambda>_. all_calls p)"
  by (simp add: hoare_def io_simps quiet_def)

lemma hoare_then_return:
  "hoare P m (\<lambda>_. Q) \<Longrightarrow> hoare P (State_Monad.bind m (\<lambda>x. State_Monad.return (f x))) (\<lambda>_. Q)"
  by (simp add: hoare_def run_bind)

text \<open>A refusal ends the program.\<close>

lemma refuse_then:
  "hoare P m (\<lambda>ok w. \<not> ok \<and> R w) \<Longrightarrow>
    hoare P (State_Monad.bind m (\<lambda>ok. if \<not> ok then State_Monad.return x else n)) (\<lambda>_. R)"
  by (simp add: hoare_def run_bind run_return)

lemma quietD: "quiet p str w \<Longrightarrow> all_calls p w" "quiet p str w \<Longrightarrow> w_stdin w = str"
  by (simp_all add: quiet_def)

lemma quiet_start: "w_trace w = [] \<Longrightarrow> quiet p (w_stdin w) w"
  by (simp add: quiet_def all_calls_def)

end
