(* ===== verification/Smbus.thy ===== *)
theory Smbus
  imports IoWorld
begin

text \<open>
  \<open>smbus.c\<close>: the SMBus transactions as calls of \<open>ioctl(I2C_SMBUS)\<close>. \<open>union i2c_smbus_data\<close>
  is its 34 bytes; \<open>byte\<close> is the first, \<open>word\<close> the first two (little-endian), \<open>block[0]\<close> the
  length of a block. The kernel overwrites a prefix of the union with \<open>r_data\<close>. A function
  that would read past the union returns \<open>None\<close>.
\<close>

section \<open>The union and the access\<close>

definition I2C_SMBUS_READ :: u8 where "I2C_SMBUS_READ = 1"
definition I2C_SMBUS_WRITE :: u8 where "I2C_SMBUS_WRITE = 0"
definition I2C_SMBUS_BLOCK_MAX :: nat where "I2C_SMBUS_BLOCK_MAX = 32"

lemmas smbus_consts = I2C_SMBUS_READ_def I2C_SMBUS_WRITE_def I2C_SMBUS_BLOCK_MAX_def

definition kernel_writes :: "u8 list \<Rightarrow> u8 list \<Rightarrow> u8 list" where
  "kernel_writes new old = take 34 (new @ drop (length new) old)"

definition get_word :: "u8 list \<Rightarrow> nat" where
  "get_word data = unat (data ! 0) + 256 * unat (data ! 1)"

definition put_word :: "u16 \<Rightarrow> u8 list \<Rightarrow> u8 list" where
  "put_word v data = [ucast v, ucast (drop_bit 8 v)] @ drop 2 data"

definition put_byte :: "u8 \<Rightarrow> u8 list \<Rightarrow> u8 list" where
  "put_byte v data = v # drop 1 data"

definition put_block :: "nat \<Rightarrow> u8 list \<Rightarrow> u8 list \<Rightarrow> u8 list" where
  "put_block n values data = of_nat n # take n values @ drop (n + 1) data"

definition i2c_smbus_access :: "int \<Rightarrow> u8 \<Rightarrow> u8 \<Rightarrow> smbus_size \<Rightarrow> u8 list \<Rightarrow> (int \<times> u8 list) io" where
  "i2c_smbus_access fd read_write command sz data = do {
     r \<leftarrow> sys (Ioctl_smbus fd read_write command sz (Some data));
     let err = (if r_ret r = -1 then - r_errno r else r_ret r);
     State_Monad.return (err, kernel_writes (r_data r) data)
   }"

definition i2c_smbus_access_null :: "int \<Rightarrow> u8 \<Rightarrow> u8 \<Rightarrow> smbus_size \<Rightarrow> int io" where
  "i2c_smbus_access_null fd read_write command sz = do {
     r \<leftarrow> sys (Ioctl_smbus fd read_write command sz None);
     State_Monad.return (if r_ret r = -1 then - r_errno r else r_ret r)
   }"

section \<open>Bytes and words\<close>

definition i2c_smbus_write_quick :: "int \<Rightarrow> u8 \<Rightarrow> int io" where
  "i2c_smbus_write_quick fd v = i2c_smbus_access_null fd v 0 I2C_SMBUS_QUICK"

definition i2c_smbus_read_byte :: "int \<Rightarrow> int io" where
  "i2c_smbus_read_byte fd = do {
     data \<leftarrow> junk_union;
     (err, data) \<leftarrow> i2c_smbus_access fd I2C_SMBUS_READ 0 I2C_SMBUS_BYTE data;
     State_Monad.return (if err < 0 then err else int (unat (data ! 0)))
   }"

definition i2c_smbus_write_byte :: "int \<Rightarrow> u8 \<Rightarrow> int io" where
  "i2c_smbus_write_byte fd v = i2c_smbus_access_null fd I2C_SMBUS_WRITE v I2C_SMBUS_BYTE"

definition i2c_smbus_read_byte_data :: "int \<Rightarrow> u8 \<Rightarrow> int io" where
  "i2c_smbus_read_byte_data fd command = do {
     data \<leftarrow> junk_union;
     (err, data) \<leftarrow> i2c_smbus_access fd I2C_SMBUS_READ command I2C_SMBUS_BYTE_DATA data;
     State_Monad.return (if err < 0 then err else int (unat (data ! 0)))
   }"

definition i2c_smbus_write_byte_data :: "int \<Rightarrow> u8 \<Rightarrow> u8 \<Rightarrow> int io" where
  "i2c_smbus_write_byte_data fd command v = do {
     data \<leftarrow> junk_union;
     (err, data) \<leftarrow> i2c_smbus_access fd I2C_SMBUS_WRITE command I2C_SMBUS_BYTE_DATA (put_byte v data);
     State_Monad.return err
   }"

definition i2c_smbus_read_word_data :: "int \<Rightarrow> u8 \<Rightarrow> int io" where
  "i2c_smbus_read_word_data fd command = do {
     data \<leftarrow> junk_union;
     (err, data) \<leftarrow> i2c_smbus_access fd I2C_SMBUS_READ command I2C_SMBUS_WORD_DATA data;
     State_Monad.return (if err < 0 then err else int (get_word data))
   }"

definition i2c_smbus_write_word_data :: "int \<Rightarrow> u8 \<Rightarrow> u16 \<Rightarrow> int io" where
  "i2c_smbus_write_word_data fd command v = do {
     data \<leftarrow> junk_union;
     (err, data) \<leftarrow> i2c_smbus_access fd I2C_SMBUS_WRITE command I2C_SMBUS_WORD_DATA (put_word v data);
     State_Monad.return err
   }"

definition i2c_smbus_process_call :: "int \<Rightarrow> u8 \<Rightarrow> u16 \<Rightarrow> int io" where
  "i2c_smbus_process_call fd command v = do {
     data \<leftarrow> junk_union;
     (err, data) \<leftarrow> i2c_smbus_access fd I2C_SMBUS_WRITE command I2C_SMBUS_PROC_CALL (put_word v data);
     State_Monad.return (if err \<noteq> 0 then -1 else int (get_word data))
   }"

section \<open>Blocks\<close>

text \<open>What a caller gets back: the return value and the bytes stored in its array.\<close>

definition block_result :: "int \<Rightarrow> u8 list \<Rightarrow> (int \<times> u8 list) option" where
  "block_result err data =
     (if err < 0 then Some (err, [])
      else let n = unat (data ! 0) in
        if n < length data then Some (int n, take n (drop 1 data)) else None)"

definition block_length :: "u8 \<Rightarrow> nat" where
  "block_length n = min (unat n) I2C_SMBUS_BLOCK_MAX"

definition i2c_smbus_read_block_data :: "int \<Rightarrow> u8 \<Rightarrow> (int \<times> u8 list) option io" where
  "i2c_smbus_read_block_data fd command = do {
     data \<leftarrow> junk_union;
     (err, data) \<leftarrow> i2c_smbus_access fd I2C_SMBUS_READ command I2C_SMBUS_BLOCK_DATA data;
     State_Monad.return (block_result err data)
   }"

definition i2c_smbus_write_block_data :: "int \<Rightarrow> u8 \<Rightarrow> u8 \<Rightarrow> u8 list \<Rightarrow> int option io" where
  "i2c_smbus_write_block_data fd command len values =
     (let n = block_length len in
      if length values < n then State_Monad.return None
      else do {
        data \<leftarrow> junk_union;
        (err, data) \<leftarrow> i2c_smbus_access fd I2C_SMBUS_WRITE command I2C_SMBUS_BLOCK_DATA (put_block n values data);
        State_Monad.return (Some err)
      })"

definition i2c_smbus_read_i2c_block_data :: "int \<Rightarrow> u8 \<Rightarrow> u8 \<Rightarrow> (int \<times> u8 list) option io" where
  "i2c_smbus_read_i2c_block_data fd command len = do {
     let n = block_length len;
     data \<leftarrow> junk_union;
     (err, data) \<leftarrow> i2c_smbus_access fd I2C_SMBUS_READ command
       (if n = 32 then I2C_SMBUS_I2C_BLOCK_BROKEN else I2C_SMBUS_I2C_BLOCK_DATA) (put_byte (of_nat n) data);
     State_Monad.return (block_result err data)
   }"

definition i2c_smbus_write_i2c_block_data :: "int \<Rightarrow> u8 \<Rightarrow> u8 \<Rightarrow> u8 list \<Rightarrow> int option io" where
  "i2c_smbus_write_i2c_block_data fd command len values =
     (let n = block_length len in
      if length values < n then State_Monad.return None
      else do {
        data \<leftarrow> junk_union;
        (err, data) \<leftarrow> i2c_smbus_access fd I2C_SMBUS_WRITE command I2C_SMBUS_I2C_BLOCK_BROKEN (put_block n values data);
        State_Monad.return (Some err)
      })"

definition i2c_smbus_block_process_call :: "int \<Rightarrow> u8 \<Rightarrow> u8 \<Rightarrow> u8 list \<Rightarrow> (int \<times> u8 list) option io" where
  "i2c_smbus_block_process_call fd command len values =
     (let n = block_length len in
      if length values < n then State_Monad.return None
      else do {
        data \<leftarrow> junk_union;
        (err, data) \<leftarrow> i2c_smbus_access fd I2C_SMBUS_WRITE command I2C_SMBUS_BLOCK_PROC_CALL (put_block n values data);
        State_Monad.return (block_result err data)
      })"

lemmas smbus_defs = i2c_smbus_write_quick_def i2c_smbus_read_byte_def i2c_smbus_write_byte_def
  i2c_smbus_read_byte_data_def i2c_smbus_write_byte_data_def i2c_smbus_read_word_data_def
  i2c_smbus_write_word_data_def i2c_smbus_process_call_def i2c_smbus_read_block_data_def
  i2c_smbus_write_block_data_def i2c_smbus_read_i2c_block_data_def
  i2c_smbus_write_i2c_block_data_def i2c_smbus_block_process_call_def

section \<open>Classes of calls\<close>

lemma access_quiet: "(\<And>data. p (Ioctl_smbus fd rw command sz (Some data))) \<Longrightarrow>
    keeps (quiet p str) (i2c_smbus_access fd rw command sz data)"
  by (auto simp: i2c_smbus_access_def Let_def intro!: quiet_rules)

text \<open>The reads make only read transfers.\<close>

lemma reads_quiet:
  assumes "\<And>command sz data. p (Ioctl_smbus fd I2C_SMBUS_READ command sz (Some data))"
  shows "keeps (quiet p str) (i2c_smbus_read_byte fd)"
    "keeps (quiet p str) (i2c_smbus_read_byte_data fd command)"
    "keeps (quiet p str) (i2c_smbus_read_word_data fd command)"
    "keeps (quiet p str) (i2c_smbus_read_block_data fd command)"
    "keeps (quiet p str) (i2c_smbus_read_i2c_block_data fd command len)"
  using assms
  by (auto simp: smbus_defs Let_def intro!: quiet_rules access_quiet split: prod.splits)

fun is_write :: "call \<Rightarrow> bool" where
  "is_write (Ioctl_smbus fd rw command sz data) = (rw = I2C_SMBUS_WRITE)"
| "is_write _ = False"

section \<open>Block transfers\<close>

lemma length_junk [simp]: "length (take 34 (js @ replicate 34 0)) = 34"
  by simp

text \<open>
  \<open>i2c_smbus_write_block_data\<close> makes one transfer. Its length byte is the requested length,
  at most 32, and the bytes after it are the caller's; nothing of the uninitialised union
  lies within that length.
\<close>

theorem write_block_call:
  assumes "n = block_length len" "n \<le> length values"
  shows "\<exists>data r. w_trace (snd (run_state (i2c_smbus_write_block_data fd command len values) w)) =
      w_trace w @ [(Ioctl_smbus fd I2C_SMBUS_WRITE command I2C_SMBUS_BLOCK_DATA (Some data), r)] \<and>
    fst (run_state (i2c_smbus_write_block_data fd command len values) w) =
      Some (if r_ret r = -1 then - r_errno r else r_ret r) \<and>
    length data = 34 \<and> unat (data ! 0) = n \<and> n \<le> 32 \<and> take n (drop 1 data) = take n values"
proof -
  have n: "n \<le> 32"
    using assms(1) by (simp add: block_length_def I2C_SMBUS_BLOCK_MAX_def)
  have "unat (of_nat n :: u8) = n"
    using n by (simp add: unsigned_of_nat take_bit_nat_eq_self)
  then show ?thesis
    using assms n
    by (auto simp: i2c_smbus_write_block_data_def i2c_smbus_access_def put_block_def Let_def io_simps)
qed

theorem write_block_call_witness:
  "\<exists>data r. w_trace (snd (run_state (i2c_smbus_write_block_data 3 0x10 2 [7, 8])
       \<lparr>w_kernel = (\<lambda>h c. \<lparr>r_ret = 0, r_errno = 0, r_data = [], r_funcs = 0, r_text = [], r_names = []\<rparr>),
        w_trace = [], w_stdin = [], w_stdout = [], w_junk = [], w_junk_ints = []\<rparr>)) =
      [(Ioctl_smbus 3 I2C_SMBUS_WRITE 0x10 I2C_SMBUS_BLOCK_DATA (Some data), r)] \<and>
    take 2 (drop 1 data) = [7, 8]"
proof -
  let ?w = "\<lparr>w_kernel = (\<lambda>h c. \<lparr>r_ret = 0, r_errno = 0, r_data = [], r_funcs = 0, r_text = [], r_names = []\<rparr>),
      w_trace = [], w_stdin = [], w_stdout = [], w_junk = [], w_junk_ints = []\<rparr> :: world"
  from write_block_call [of 2 2 "[7, 8]" 3 "0x10" ?w] show ?thesis
    by (fastforce simp: block_length_def I2C_SMBUS_BLOCK_MAX_def)
qed

text \<open>
  A block read returns either the negative error of the transfer and no byte, or the
  length byte that the kernel stored and exactly that many bytes; it reads past the union
  if and only if the transfer succeeded and the length byte is 34 or more.
\<close>

theorem read_block_result:
  assumes "run_state (i2c_smbus_read_block_data fd command) w = (res, w')"
    and "data = take 34 (w_junk w @ replicate 34 0)"
    and "w_kernel w (w_trace w) (Ioctl_smbus fd I2C_SMBUS_READ command I2C_SMBUS_BLOCK_DATA (Some data)) = r"
    and "err = (if r_ret r = -1 then - r_errno r else r_ret r)" "back = kernel_writes (r_data r) data"
  shows "(res = None \<longleftrightarrow> 0 \<le> err \<and> 34 \<le> unat (back ! 0)) \<and>
    (\<forall>n bytes. res = Some (n, bytes) \<longrightarrow>
       (err < 0 \<and> n = err \<and> bytes = []) \<or>
       (0 \<le> err \<and> n = int (unat (back ! 0)) \<and> length bytes = unat (back ! 0) \<and> bytes = take (unat (back ! 0)) (drop 1 back)))"
proof -
  have len: "length back = 34"
    using assms(2,5) by (simp add: kernel_writes_def)
  have "run_state (i2c_smbus_read_block_data fd command) w = (block_result err back, w\<lparr>w_trace := w_trace w @
      [(Ioctl_smbus fd I2C_SMBUS_READ command I2C_SMBUS_BLOCK_DATA (Some data), r)]\<rparr>)"
    unfolding i2c_smbus_read_block_data_def i2c_smbus_access_def Let_def io_simps
    by (simp only: fst_conv snd_conv prod.case io_simps assms(2) [symmetric]) (simp only: assms(3-5))
  then have "res = block_result err back"
    using assms(1) by simp
  then show ?thesis
    using len by (auto simp: block_result_def Let_def)
qed

theorem read_block_result_witness:
  "fst (run_state (i2c_smbus_read_block_data 3 0x10)
     \<lparr>w_kernel = (\<lambda>h c. \<lparr>r_ret = 0, r_errno = 0, r_data = [2, 7, 8], r_funcs = 0, r_text = [], r_names = []\<rparr>),
      w_trace = [], w_stdin = [], w_stdout = [], w_junk = [], w_junk_ints = []\<rparr>) \<noteq> None"
proof -
  let ?w = "\<lparr>w_kernel = (\<lambda>h c. \<lparr>r_ret = 0, r_errno = 0, r_data = [2, 7, 8], r_funcs = 0, r_text = [], r_names = []\<rparr>),
      w_trace = [], w_stdin = [], w_stdout = [], w_junk = [], w_junk_ints = []\<rparr> :: world"
  obtain res w' where run: "run_state (i2c_smbus_read_block_data 3 0x10) ?w = (res, w')"
    by fastforce
  from read_block_result [OF run refl refl refl refl] show ?thesis
    using run by (simp add: kernel_writes_def)
qed

section \<open>Under a kernel\<close>

lemma under_smbus:
  "under k (i2c_smbus_access fd rw command sz data) (\<lambda>_. True)"
  "under k (i2c_smbus_access_null fd rw command sz) (\<lambda>_. True)"
  "under k (i2c_smbus_write_byte fd v) (\<lambda>_. True)"
  "under k (i2c_smbus_read_byte fd) (\<lambda>_. True)"
  "under k (i2c_smbus_read_byte_data fd command) (\<lambda>_. True)"
  "under k (i2c_smbus_read_word_data fd command) (\<lambda>_. True)"
  "under k (i2c_smbus_write_byte_data fd command v) (\<lambda>_. True)"
  by (auto simp: smbus_defs i2c_smbus_access_def i2c_smbus_access_null_def Let_def intro!: under_rules)

text \<open>
  A kernel that keeps the promise of the SMBus interface for block reads: an error has an
  error number, and a block has at most 32 bytes.
\<close>

definition block_kernel :: "((call \<times> resp) list \<Rightarrow> call \<Rightarrow> resp) \<Rightarrow> bool" where
  "block_kernel k \<longleftrightarrow> (\<forall>h fd command sz data.
     sz \<in> {I2C_SMBUS_BLOCK_DATA, I2C_SMBUS_I2C_BLOCK_BROKEN, I2C_SMBUS_I2C_BLOCK_DATA} \<longrightarrow>
     (let r = k h (Ioctl_smbus fd I2C_SMBUS_READ command sz (Some data)) in
      (r_ret r = -1 \<longrightarrow> 0 < r_errno r) \<and>
      (0 \<le> r_ret r \<longrightarrow> r_data r \<noteq> [] \<and> unat (hd (r_data r)) \<le> I2C_SMBUS_BLOCK_MAX)))"

definition block_ok :: "(int \<times> u8 list) option \<Rightarrow> bool" where
  "block_ok r \<longleftrightarrow> (\<exists>n bytes. r = Some (n, bytes) \<and> n \<le> 32 \<and> length bytes = nat n)"

lemma block_result_ok:
  "length back = 34 \<Longrightarrow> err < 0 \<or> unat (back ! 0) \<le> 32 \<Longrightarrow> block_ok (block_result err back)"
proof -
  have "unat (back ! 0) \<le> 32 \<Longrightarrow> int (unat (back ! 0)) \<le> int 32"
    by (simp only: of_nat_le_iff)
  then show "length back = 34 \<Longrightarrow> err < 0 \<or> unat (back ! 0) \<le> 32 \<Longrightarrow> ?thesis"
    by (auto simp: block_ok_def block_result_def Let_def)
qed

lemma block_access:
  assumes "block_kernel k" "sz \<in> {I2C_SMBUS_BLOCK_DATA, I2C_SMBUS_I2C_BLOCK_BROKEN, I2C_SMBUS_I2C_BLOCK_DATA}"
    and "length data = 34"
  shows "under k (i2c_smbus_access fd I2C_SMBUS_READ command sz data) (\<lambda>(err, data). block_ok (block_result err data))"
proof -
  define c where "c = Ioctl_smbus fd I2C_SMBUS_READ command sz (Some data)"
  have ok: "block_ok (block_result (if r_ret (k h c) = -1 then - r_errno (k h c) else r_ret (k h c))
      (kernel_writes (r_data (k h c)) data))" for h
  proof (rule block_result_ok)
    show "length (kernel_writes (r_data (k h c)) data) = 34"
      using assms(3) by (simp add: kernel_writes_def)
    have "r_data (k h c) \<noteq> [] \<Longrightarrow> kernel_writes (r_data (k h c)) data ! 0 = hd (r_data (k h c))"
      by (cases "r_data (k h c)") (simp_all add: kernel_writes_def)
    moreover have "r_ret (k h c) = -1 \<longrightarrow> 0 < r_errno (k h c)"
      "0 \<le> r_ret (k h c) \<longrightarrow> r_data (k h c) \<noteq> [] \<and> unat (hd (r_data (k h c))) \<le> 32"
      using assms(1,2) by (auto simp: block_kernel_def I2C_SMBUS_BLOCK_MAX_def Let_def c_def)
    ultimately show "(if r_ret (k h c) = -1 then - r_errno (k h c) else r_ret (k h c)) < 0 \<or>
        unat (kernel_writes (r_data (k h c)) data ! 0) \<le> 32"
      by auto
  qed
  have "under k (sys c) (\<lambda>r. block_ok (block_result (if r_ret r = -1 then - r_errno r else r_ret r) (kernel_writes (r_data r) data)))"
    by (rule under_sys) (rule ok)
  then show ?thesis
    unfolding i2c_smbus_access_def Let_def c_def by (rule under_bind) (simp add: under_return)
qed

lemma under_blocks:
  assumes "block_kernel k"
  shows "under k (i2c_smbus_read_block_data fd command) block_ok"
    "under k (i2c_smbus_read_i2c_block_data fd command len) block_ok"
proof -
  have junk: "under k junk_union (\<lambda>data. length data = 34)"
    by (auto simp: under_def hoare_def io_simps)
  show "under k (i2c_smbus_read_block_data fd command) block_ok"
    unfolding i2c_smbus_read_block_data_def
    by (rule under_bind [OF junk], rule under_bind [OF block_access [OF assms]]) (auto intro!: under_return)
  have put: "length data = 34 \<Longrightarrow> length (put_byte b data) = 34" for b data
    by (simp add: put_byte_def)
  show "under k (i2c_smbus_read_i2c_block_data fd command len) block_ok"
    unfolding i2c_smbus_read_i2c_block_data_def Let_def
    by (rule under_bind [OF junk], rule under_bind [OF block_access [OF assms _ put]]) (auto intro!: under_return)
qed

end
