(* ===== verification/I2cBusses.thy ===== *)
theory I2cBusses
  imports IoWorld
begin

text \<open>
  \<open>i2cbusses.c\<close>: the list of the I2C busses, the parsing of bus and chip arguments, opening
  a bus and choosing a chip. Files and directories are read through the world; their text
  holds no NUL. Undefined behaviour (a null or uninitialised value used, a store past an
  array) is a value of the result, so its absence can be stated.
\<close>

section \<open>Adapters\<close>

datatype adt = adt_dummy | adt_isa | adt_i2c | adt_smbus | adt_unknown

record i2c_adap =
  a_nr :: int
  a_name :: string
  a_funcs :: string
  a_algo :: string

fun adap_types :: "adt \<Rightarrow> string \<times> string" where
  "adap_types adt_dummy = (''dummy'', ''Dummy bus'')"
| "adap_types adt_isa = (''isa'', ''ISA bus'')"
| "adap_types adt_i2c = (''i2c'', ''I2C adapter'')"
| "adap_types adt_smbus = (''smbus'', ''SMBus adapter'')"
| "adap_types adt_unknown = (''unknown'', ''N/A'')"

definition ENOENT :: int where "ENOENT = 2"
definition EBUSY :: int where "EBUSY = 16"
definition ENOTDIR :: int where "ENOTDIR = 20"
definition EOVERFLOW :: int where "EOVERFLOW = 75"

definition I2C_FUNC_I2C :: u64 where "I2C_FUNC_I2C = 0x00000001"
definition I2C_FUNC_SMBUS_PEC :: u64 where "I2C_FUNC_SMBUS_PEC = 0x00000008"
definition I2C_FUNC_SMBUS_BLOCK_PROC_CALL :: u64 where "I2C_FUNC_SMBUS_BLOCK_PROC_CALL = 0x00008000"
definition I2C_FUNC_SMBUS_QUICK :: u64 where "I2C_FUNC_SMBUS_QUICK = 0x00010000"
definition I2C_FUNC_SMBUS_READ_BYTE :: u64 where "I2C_FUNC_SMBUS_READ_BYTE = 0x00020000"
definition I2C_FUNC_SMBUS_WRITE_BYTE :: u64 where "I2C_FUNC_SMBUS_WRITE_BYTE = 0x00040000"
definition I2C_FUNC_SMBUS_READ_BYTE_DATA :: u64 where "I2C_FUNC_SMBUS_READ_BYTE_DATA = 0x00080000"
definition I2C_FUNC_SMBUS_WRITE_BYTE_DATA :: u64 where "I2C_FUNC_SMBUS_WRITE_BYTE_DATA = 0x00100000"
definition I2C_FUNC_SMBUS_READ_WORD_DATA :: u64 where "I2C_FUNC_SMBUS_READ_WORD_DATA = 0x00200000"
definition I2C_FUNC_SMBUS_WRITE_WORD_DATA :: u64 where "I2C_FUNC_SMBUS_WRITE_WORD_DATA = 0x00400000"
definition I2C_FUNC_SMBUS_PROC_CALL :: u64 where "I2C_FUNC_SMBUS_PROC_CALL = 0x00800000"
definition I2C_FUNC_SMBUS_READ_BLOCK_DATA :: u64 where "I2C_FUNC_SMBUS_READ_BLOCK_DATA = 0x01000000"
definition I2C_FUNC_SMBUS_WRITE_BLOCK_DATA :: u64 where "I2C_FUNC_SMBUS_WRITE_BLOCK_DATA = 0x02000000"
definition I2C_FUNC_SMBUS_READ_I2C_BLOCK :: u64 where "I2C_FUNC_SMBUS_READ_I2C_BLOCK = 0x04000000"
definition I2C_FUNC_SMBUS_WRITE_I2C_BLOCK :: u64 where "I2C_FUNC_SMBUS_WRITE_I2C_BLOCK = 0x08000000"

lemmas i2c_func_defs = I2C_FUNC_I2C_def I2C_FUNC_SMBUS_PEC_def I2C_FUNC_SMBUS_BLOCK_PROC_CALL_def
  I2C_FUNC_SMBUS_QUICK_def I2C_FUNC_SMBUS_READ_BYTE_def I2C_FUNC_SMBUS_WRITE_BYTE_def
  I2C_FUNC_SMBUS_READ_BYTE_DATA_def I2C_FUNC_SMBUS_WRITE_BYTE_DATA_def
  I2C_FUNC_SMBUS_READ_WORD_DATA_def I2C_FUNC_SMBUS_WRITE_WORD_DATA_def
  I2C_FUNC_SMBUS_PROC_CALL_def I2C_FUNC_SMBUS_READ_BLOCK_DATA_def
  I2C_FUNC_SMBUS_WRITE_BLOCK_DATA_def I2C_FUNC_SMBUS_READ_I2C_BLOCK_def
  I2C_FUNC_SMBUS_WRITE_I2C_BLOCK_def

text \<open>\<open>funcs & flag\<close> as a condition; the masks are single bits.\<close>

definition has_func :: "u64 \<Rightarrow> u64 \<Rightarrow> bool" where
  "has_func funcs flag \<longleftrightarrow> and funcs flag \<noteq> 0"

section \<open>Opening a bus\<close>

text \<open>\<open>open_i2c_dev\<close> returns the descriptor or a negative value, and the file name.\<close>

definition open_i2c_dev :: "int \<Rightarrow> nat \<Rightarrow> (int \<times> string) io" where
  "open_i2c_dev i2cbus sz =
     (let name = ''/dev/i2c/'' @ dec_int i2cbus in
      if length name \<ge> sz then State_Monad.return (- EOVERFLOW, take (sz - 1) name)
      else do {
        r \<leftarrow> sys (Open name);
        if r_ret r < 0 \<and> (r_errno r = ENOENT \<or> r_errno r = ENOTDIR) then
          (let name = ''/dev/i2c-'' @ dec_int i2cbus in
           if length name \<ge> sz then State_Monad.return (- EOVERFLOW, take (sz - 1) name)
           else do {
             r \<leftarrow> sys (Open name);
             State_Monad.return (r_ret r, name)
           })
        else State_Monad.return (r_ret r, name)
      })"

definition set_slave_addr :: "int \<Rightarrow> int \<Rightarrow> bool \<Rightarrow> int io" where
  "set_slave_addr fd address force = do {
     r \<leftarrow> sys (Ioctl_slave fd force address);
     State_Monad.return (if r_ret r < 0 then - r_errno r else 0)
   }"

definition i2c_get_funcs :: "int \<Rightarrow> adt io" where
  "i2c_get_funcs i2cbus = do {
     (fd, _) \<leftarrow> open_i2c_dev i2cbus 20;
     if fd < 0 then State_Monad.return adt_unknown
     else do {
       r \<leftarrow> sys (Ioctl_funcs fd);
       let ret = (if r_ret r < 0 then adt_unknown
         else if has_func (r_funcs r) I2C_FUNC_I2C then adt_i2c
         else if has_func (r_funcs r) I2C_FUNC_SMBUS_READ_BYTE \<or> has_func (r_funcs r) I2C_FUNC_SMBUS_WRITE_BYTE
           \<or> has_func (r_funcs r) I2C_FUNC_SMBUS_READ_BYTE_DATA \<or> has_func (r_funcs r) I2C_FUNC_SMBUS_WRITE_BYTE_DATA
           \<or> has_func (r_funcs r) I2C_FUNC_SMBUS_READ_WORD_DATA \<or> has_func (r_funcs r) I2C_FUNC_SMBUS_WRITE_WORD_DATA
           then adt_smbus
         else adt_dummy);
       _ \<leftarrow> sys (Close fd);
       State_Monad.return ret
     }
   }"

section \<open>Text of the kernel's files\<close>

text \<open>The text without its trailing blanks, and its length with the NUL.\<close>

definition rtrim :: "string \<Rightarrow> string \<times> nat" where
  "rtrim s = (let t = rev (dropWhile (\<lambda>c. c = CHR '' '' \<or> c = CHR 0x0A) (rev s)) in (t, length t + 1))"

text \<open>\<open>strrchr(s, '\t')\<close>: the parts before and after the last tab.\<close>

definition split_tab :: "string \<Rightarrow> (string \<times> string) option" where
  "split_tab s =
     (let after = rev (takeWhile (\<lambda>c. c \<noteq> CHR 0x09) (rev s)) in
      if length after < length s then Some (take (length s - length after - 1) s, after) else None)"

datatype scanned = Scan_eof | Scan_none | Scanned int

text \<open>\<open>sscanf(s, "i2c-%d", &nr)\<close>; the value is clamped like \<open>strtol\<close> and stored as an \<open>int\<close>.\<close>

fun scan_literal :: "string \<Rightarrow> string \<Rightarrow> scanned + string" where
  "scan_literal [] s = Inr s"
| "scan_literal (p # ps) [] = Inl Scan_eof"
| "scan_literal (p # ps) (c # cs) = (if p = c then scan_literal ps cs else Inl Scan_none)"

definition scan_decimal :: "string \<Rightarrow> scanned" where
  "scan_decimal s =
     (let s1 = dropWhile is_space s in
      if s1 = [] then Scan_eof
      else
        let (neg, s2) = split_sign s1;
            ds = takeWhile (is_digit 10) s2;
            v = int (digits_value 10 ds) in
        if ds = [] then Scan_none
        else Scanned (to_int (max (- (2 ^ 63)) (min (2 ^ 63 - 1) (if neg then - v else v)))))"

definition scan_i2c_nr :: "string \<Rightarrow> scanned" where
  "scan_i2c_nr s = (case scan_literal ''i2c-'' s of Inl r \<Rightarrow> r | Inr rest \<Rightarrow> scan_decimal rest)"

text \<open>The successive strings of \<open>while (fgets(s, n, f))\<close>.\<close>

function fgets_all :: "nat \<Rightarrow> string \<Rightarrow> string list" where
  "fgets_all n txt =
     (if n < 2 then []
      else case fgets n txt of None \<Rightarrow> [] | Some (s, rest) \<Rightarrow> s # fgets_all n rest)"
  by auto
termination
  by (relation "measure (\<lambda>(n, txt). length txt)") (auto intro: fgets_shorter [rotated])

declare fgets_all.simps [simp del]

section \<open>The array of adapters\<close>

definition BUNCH :: nat where "BUNCH = 8"
definition NAME_MAX :: nat where "NAME_MAX = 255"
definition sizeof_adap :: nat where "sizeof_adap = 32"

text \<open>\<open>None\<close> is the zero entry, whose \<open>name\<close> is null.\<close>

type_synonym adapters = "i2c_adap option list"

datatype gathered = Undefined | No_memory | Adapters adapters

definition more_adapters :: "adapters \<Rightarrow> nat \<Rightarrow> adapters option io" where
  "more_adapters adapters n = do {
     r \<leftarrow> sys (Alloc ((n + BUNCH) * sizeof_adap));
     State_Monad.return (if r_ret r = 0 then None else Some (take n adapters @ replicate BUNCH None))
   }"

definition make_room :: "adapters \<Rightarrow> nat \<Rightarrow> adapters option io" where
  "make_room adapters count =
     (if (count + 1) mod BUNCH = 0 then more_adapters adapters (count + 1)
      else State_Monad.return (Some adapters))"

text \<open>Make room, allocate the strings, store the entry; a store past the array is undefined.\<close>

definition add_adapter :: "adapters \<Rightarrow> nat \<Rightarrow> nat \<Rightarrow> i2c_adap \<Rightarrow> gathered io" where
  "add_adapter adapters count sz a = do {
     room \<leftarrow> make_room adapters count;
     case room of
       None \<Rightarrow> State_Monad.return No_memory
     | Some adapters \<Rightarrow> do {
         r \<leftarrow> sys (Alloc sz);
         State_Monad.return (if r_ret r = 0 then No_memory
           else if count < length adapters then Adapters (adapters[count := Some a])
           else Undefined)
       }
   }"

section \<open>Busses in /proc\<close>

definition proc_line :: "string \<Rightarrow> (nat \<times> i2c_adap) option" where
  "proc_line s =
     (case split_tab s of None \<Rightarrow> None | Some (s, algo) \<Rightarrow>
      case split_tab s of None \<Rightarrow> None | Some (s, name) \<Rightarrow>
      case split_tab s of None \<Rightarrow> None | Some (s, type) \<Rightarrow>
        let (algo, len_algo) = rtrim algo; (name, len_name) = rtrim name; (type, len_type) = rtrim type in
        (case scan_i2c_nr s of
           Scanned nr \<Rightarrow> Some (len_name + len_type + len_algo,
             \<lparr>a_nr = nr, a_name = name, a_funcs = type, a_algo = algo\<rparr>)
         | _ \<Rightarrow> None))"

primrec gather_proc :: "string list \<Rightarrow> adapters \<Rightarrow> nat \<Rightarrow> gathered io" where
  "gather_proc [] adapters count = State_Monad.return (Adapters adapters)"
| "gather_proc (s # ss) adapters count =
     (case proc_line s of
        None \<Rightarrow> State_Monad.return Undefined
      | Some (sz, a) \<Rightarrow> do {
          g \<leftarrow> add_adapter adapters count sz a;
          case g of Adapters adapters \<Rightarrow> gather_proc ss adapters (count + 1)
          | _ \<Rightarrow> State_Monad.return g
        })"

section \<open>Busses in sysfs\<close>

text \<open>
  One line of \<open>/proc/mounts\<close>: \<open>sscanf(n, "%*[^ ] %[^ ] %[^ ] %*s\n", sysfs, fstype)\<close> assigns
  what it reaches; \<open>None\<close> is a buffer never written.
\<close>

definition scan_mount :: "string \<Rightarrow> string option \<times> string option \<Rightarrow> string option \<times> string option" where
  "scan_mount s bufs =
     (let rest = dropWhile (\<lambda>c. c \<noteq> CHR '' '') s in
      if rest = s then bufs
      else
        let s1 = dropWhile is_space rest;
            dir = takeWhile (\<lambda>c. c \<noteq> CHR '' '') s1 in
        if s1 = [] then bufs
        else
          let s2 = dropWhile is_space (dropWhile (\<lambda>c. c \<noteq> CHR '' '') s1) in
          if s2 = [] then (Some dir, snd bufs)
          else (Some dir, Some (takeWhile (\<lambda>c. c \<noteq> CHR '' '') s2)))"

definition to_lower :: "char \<Rightarrow> char" where
  "to_lower c = (let n = of_char c :: nat in if 65 \<le> n \<and> n \<le> 90 then char_of (n + 32) else c)"

datatype mounts = Mounts_undefined | Not_mounted | Mounted string

fun find_sysfs :: "string list \<Rightarrow> string option \<times> string option \<Rightarrow> mounts" where
  "find_sysfs [] bufs = Not_mounted"
| "find_sysfs (s # ss) bufs =
     (case scan_mount s bufs of
        (Some dir, Some fstype) \<Rightarrow>
          if map to_lower fstype = ''sysfs'' then Mounted dir else find_sysfs ss (Some dir, Some fstype)
      | _ \<Rightarrow> Mounts_undefined)"

datatype opened = Too_long | Missing | Opened string

definition fopen_path :: "string \<Rightarrow> opened io" where
  "fopen_path path =
     (if length path \<ge> NAME_MAX then State_Monad.return Too_long
      else do {
        r \<leftarrow> sys (Fopen path);
        State_Monad.return (if r_ret r = 0 then Missing else Opened (r_text r))
      })"

primrec scan_device_dir :: "string \<Rightarrow> string list \<Rightarrow> string option io" where
  "scan_device_dir dir [] = State_Monad.return None"
| "scan_device_dir dir (d # ds) =
     (if d = ''.'' \<or> d = ''..'' \<or> take 4 d \<noteq> ''i2c-'' then scan_device_dir dir ds
      else do {
        f \<leftarrow> fopen_path (dir @ ''/'' @ d @ ''/name'');
        case f of Opened txt \<Rightarrow> State_Monad.return (Some txt)
        | _ \<Rightarrow> scan_device_dir dir ds
      })"

text \<open>The file with the name of a bus: three places, in this order.\<close>

definition find_name_file :: "string \<Rightarrow> string \<Rightarrow> string option io" where
  "find_name_file sysfs d = do {
     f \<leftarrow> fopen_path (sysfs @ ''/'' @ d @ ''/name'');
     case f of Too_long \<Rightarrow> State_Monad.return None
     | Opened txt \<Rightarrow> State_Monad.return (Some txt)
     | Missing \<Rightarrow> do {
         f \<leftarrow> fopen_path (sysfs @ ''/'' @ d @ ''/device/name'');
         case f of Too_long \<Rightarrow> State_Monad.return None
         | Opened txt \<Rightarrow> State_Monad.return (Some txt)
         | Missing \<Rightarrow>
             (let dir = sysfs @ ''/'' @ d @ ''/device'' in
              if length dir \<ge> NAME_MAX then State_Monad.return None
              else do {
                r \<leftarrow> sys (Opendir dir);
                if r_ret r = 0 then State_Monad.return None
                else scan_device_dir dir (r_names r)
              })
       }
   }"

primrec gather_sysfs :: "string \<Rightarrow> string list \<Rightarrow> adapters \<Rightarrow> nat \<Rightarrow> gathered io" where
  "gather_sysfs sysfs [] adapters count = State_Monad.return (Adapters adapters)"
| "gather_sysfs sysfs (d # ds) adapters count =
     (if d = ''.'' \<or> d = ''..'' then gather_sysfs sysfs ds adapters count
      else do {
        f \<leftarrow> find_name_file sysfs d;
        case f of None \<Rightarrow> gather_sysfs sysfs ds adapters count
        | Some txt \<Rightarrow>
           (case fgets 120 txt of None \<Rightarrow> gather_sysfs sysfs ds adapters count
            | Some (line, _) \<Rightarrow>
               (let s = takeWhile (\<lambda>c. c \<noteq> CHR 0x0A) line in
                case scan_i2c_nr d of
                  Scan_none \<Rightarrow> gather_sysfs sysfs ds adapters count
                | Scan_eof \<Rightarrow> State_Monad.return Undefined
                | Scanned nr \<Rightarrow> do {
                    type \<leftarrow> (if take 4 s = ''ISA '' then State_Monad.return adt_isa else i2c_get_funcs nr);
                    g \<leftarrow> add_adapter adapters count (length s + 1)
                      \<lparr>a_nr = nr, a_name = s, a_funcs = fst (adap_types type), a_algo = snd (adap_types type)\<rparr>;
                    case g of Adapters adapters \<Rightarrow> gather_sysfs sysfs ds adapters (count + 1)
                    | _ \<Rightarrow> State_Monad.return g
                  }))
      })"

definition gather_i2c_busses :: "gathered io" where
  "gather_i2c_busses = do {
     r \<leftarrow> sys (Alloc (BUNCH * sizeof_adap));
     if r_ret r = 0 then State_Monad.return No_memory
     else do {
       let adapters = replicate BUNCH None;
       f \<leftarrow> sys (Fopen ''/proc/bus/i2c'');
       if r_ret f \<noteq> 0 then gather_proc (fgets_all 120 (r_text f)) adapters 0
       else do {
         f \<leftarrow> sys (Fopen ''/proc/mounts'');
         if r_ret f = 0 then State_Monad.return (Adapters adapters)
         else
           (case find_sysfs (fgets_all NAME_MAX (r_text f)) (None, None) of
              Mounts_undefined \<Rightarrow> State_Monad.return Undefined
            | Not_mounted \<Rightarrow> State_Monad.return (Adapters adapters)
            | Mounted dir \<Rightarrow>
               (let sysfs = dir @ ''/class/i2c-dev'' in
                if length sysfs \<ge> NAME_MAX then State_Monad.return Undefined
                else do {
                  r \<leftarrow> sys (Opendir sysfs);
                  if r_ret r = 0 then State_Monad.return (Adapters adapters)
                  else gather_sysfs sysfs (r_names r) adapters 0
                }))
       }
     }
   }"

section \<open>Arguments\<close>

text \<open>The walk up to the null name; \<open>None\<close> would be a read past the array.\<close>

fun find_bus :: "string \<Rightarrow> adapters \<Rightarrow> int \<Rightarrow> int option" where
  "find_bus bus_name [] i2cbus = None"
| "find_bus bus_name (None # rest) i2cbus = Some i2cbus"
| "find_bus bus_name (Some a # rest) i2cbus =
     (if a_name a = bus_name then if i2cbus \<ge> 0 then Some (-4) else find_bus bus_name rest (a_nr a)
      else find_bus bus_name rest i2cbus)"

definition lookup_i2c_bus_by_name :: "string \<Rightarrow> int option io" where
  "lookup_i2c_bus_by_name bus_name = do {
     g \<leftarrow> gather_i2c_busses;
     State_Monad.return (case g of Undefined \<Rightarrow> None | No_memory \<Rightarrow> Some (-3)
       | Adapters adapters \<Rightarrow> find_bus bus_name adapters (-1))
   }"

definition lookup_i2c_bus :: "string \<Rightarrow> int option io" where
  "lookup_i2c_bus i2cbus_arg =
     (let (i2cbus, rest) = strtoul i2cbus_arg in
      if rest \<noteq> [] \<or> i2cbus_arg = [] then lookup_i2c_bus_by_name i2cbus_arg
      else State_Monad.return (Some (if i2cbus > 0xFFFFF then -2 else int i2cbus)))"

definition parse_i2c_address :: "string \<Rightarrow> bool \<Rightarrow> int" where
  "parse_i2c_address address_arg all_addrs =
     (let (address, rest) = strtol address_arg;
          (min_addr, max_addr) = (if all_addrs then (0x00, 0x7f) else (0x08, 0x77)) in
      if rest \<noteq> [] \<or> address_arg = [] then -1
      else if address < min_addr \<or> address > max_addr then -2
      else address)"

section \<open>The chip address\<close>

text \<open>
  \<open>parse_i2c_address\<close> accepts exactly the arguments that are a number as a whole and
  lie in the range, and returns that number; any other result is -1 or -2.
\<close>

theorem parse_i2c_address_spec:
  "(0 \<le> parse_i2c_address arg all_addrs) =
      (arg \<noteq> [] \<and> snd (strtol arg) = [] \<and>
       fst (strtol arg) \<in> (if all_addrs then {0x00..0x7f} else {0x08..0x77})) \<and>
   parse_i2c_address arg all_addrs \<in> {-2, -1, fst (strtol arg)}"
  by (auto simp: parse_i2c_address_def Let_def split: prod.splits)

section \<open>The walk over the adapters\<close>

definition entries :: "adapters \<Rightarrow> i2c_adap list" where
  "entries adapters = map the (takeWhile (\<lambda>e. e \<noteq> None) adapters)"

lemma entries_simps [simp]:
  "entries [] = []" "entries (None # rest) = []" "entries (Some a # rest) = a # entries rest"
  by (simp_all add: entries_def)

lemma find_bus_found:
  "\<lbrakk> None \<in> set adapters; 0 \<le> k \<rbrakk> \<Longrightarrow> find_bus bus_name adapters k =
     Some (if \<exists>a \<in> set (entries adapters). a_name a = bus_name then -4 else k)"
  by (induction bus_name adapters k rule: find_bus.induct) auto

text \<open>
  With non-negative bus numbers, the walk returns the number of the only bus with the
  name, -1 when there is none and -4 when there are several; it stops at the null name.
\<close>

theorem find_bus_spec:
  assumes "None \<in> set adapters" "\<forall>a \<in> set (entries adapters). 0 \<le> a_nr a"
  shows "find_bus bus_name adapters (-1) = Some
    (case filter (\<lambda>a. a_name a = bus_name) (entries adapters) of
       [] \<Rightarrow> -1 | [a] \<Rightarrow> a_nr a | _ \<Rightarrow> -4)"
  using assms
proof (induction bus_name adapters "-1 :: int" rule: find_bus.induct)
  case (3 bus_name a rest)
  show ?case
  proof (cases "a_name a = bus_name")
    case True
    then show ?thesis
      using "3.prems" by (auto simp: find_bus_found filter_empty_conv split: list.splits)
  qed (use 3 in simp)
qed simp_all

theorem find_bus_spec_witness:
  "find_bus ''A'' [Some \<lparr>a_nr = 0, a_name = ''B'', a_funcs = [], a_algo = []\<rparr>,
     Some \<lparr>a_nr = 5, a_name = ''A'', a_funcs = [], a_algo = []\<rparr>, None] (-1) = Some 5"
  using find_bus_spec [of "[Some \<lparr>a_nr = 0, a_name = ''B'', a_funcs = [], a_algo = []\<rparr>,
     Some \<lparr>a_nr = 5, a_name = ''A'', a_funcs = [], a_algo = []\<rparr>, None]" "''A''"] by simp

section \<open>The array always ends in a null name\<close>

definition adapters_ok :: "adapters \<Rightarrow> nat \<Rightarrow> bool" where
  "adapters_ok adapters count \<longleftrightarrow> length adapters = BUNCH * (count div BUNCH + 1) \<and>
     (\<forall>i < count. adapters ! i \<noteq> None) \<and> (\<forall>i. count \<le> i \<and> i < length adapters \<longrightarrow> adapters ! i = None)"

lemma adapters_ok_terminated:
  assumes "adapters_ok adapters count"
  shows "count < length adapters \<and> None \<in> set adapters"
proof -
  have "count < 8 * (count div 8 + 1)"
    using div_mult_mod_eq [of count 8] mod_less_divisor [of 8 count, OF zero_less_numeral] by (simp add: algebra_simps)
  then have "count < length adapters"
    using assms by (simp add: adapters_ok_def BUNCH_def)
  then show ?thesis
    using assms nth_mem [of count adapters] by (simp add: adapters_ok_def)
qed

lemma adapters_ok_start: "adapters_ok (replicate BUNCH None) 0"
  by (simp add: adapters_ok_def BUNCH_def)

text \<open>What a step of the gathering may return.\<close>

definition gathered_ok :: "nat \<Rightarrow> gathered \<Rightarrow> bool" where
  "gathered_ok count g = (case g of Undefined \<Rightarrow> False | No_memory \<Rightarrow> True | Adapters arr \<Rightarrow> adapters_ok arr count)"

text \<open>The array grows just before its last entry would be used.\<close>

lemma bunch_full: "(count + 1) mod 8 = 0 \<Longrightarrow> 8 * (count div 8 + 1) = count + 1 \<and> (count + 1) div 8 = count div 8 + 1"
  for count :: nat
  using div_mult_mod_eq [of "count + 1" 8] by (simp add: div_Suc)

lemma bunch_room: "(count + 1) mod 8 \<noteq> 0 \<Longrightarrow> (count + 1) div 8 = count div 8"
  for count :: nat
  by (simp add: div_Suc)

lemma adapters_ok_store:
  assumes "adapters_ok adapters count"
    and "room = (if (count + 1) mod BUNCH = 0 then take (count + 1) adapters @ replicate BUNCH None else adapters)"
  shows "adapters_ok (room[count := Some a]) (count + 1) \<and> count < length room"
proof (cases "(count + 1) mod 8 = 0")
  case True
  note len = adapters_ok_terminated [OF assms(1)]
  have "length adapters = count + 1" "(count + 1) div 8 = count div 8 + 1"
    using assms(1) bunch_full [OF True] by (simp_all add: adapters_ok_def BUNCH_def)
  moreover have "room = adapters @ replicate 8 None"
    using True assms(2) calculation by (simp add: BUNCH_def)
  ultimately show ?thesis
    using assms(1) by (auto simp: adapters_ok_def BUNCH_def nth_append nth_list_update)
next
  case False
  note len = adapters_ok_terminated [OF assms(1)]
  have "room = adapters"
    using False assms(2) by (simp add: BUNCH_def)
  then show ?thesis
    using assms(1) bunch_room [OF False] len by (simp add: adapters_ok_def BUNCH_def nth_list_update)
qed

lemma adapters_ok_end:
  "adapters_ok arr count \<Longrightarrow> \<exists>n < length arr. arr ! n = None \<and> (\<forall>i < n. arr ! i \<noteq> None)"
  using adapters_ok_terminated [of arr count] by (auto simp: adapters_ok_def intro!: exI [of _ count])

lemma add_adapter_ok:
  assumes "adapters_ok adapters count"
  shows "yields (add_adapter adapters count sz a) (gathered_ok (count + 1))"
proof (cases "(count + 1) mod BUNCH = 0")
  case True
  then show ?thesis
    using adapters_ok_store [OF assms refl, of a] adapters_ok_terminated [OF assms]
    by (simp add: yields_def add_adapter_def make_room_def more_adapters_def gathered_ok_def io_simps)
next
  case False
  then show ?thesis
    using adapters_ok_store [OF assms refl, of a] adapters_ok_terminated [OF assms]
    by (simp add: yields_def add_adapter_def make_room_def more_adapters_def gathered_ok_def io_simps)
qed

text \<open>The result of the whole gathering: no undefined behaviour, and a null name at the end.\<close>

definition gathered_fine :: "gathered \<Rightarrow> bool" where
  "gathered_fine g \<longleftrightarrow> (\<exists>n. gathered_ok n g)"

lemma gathered_fine_simps [simp]:
  "\<not> gathered_fine Undefined" "gathered_fine No_memory" "adapters_ok adapters n \<Longrightarrow> gathered_fine (Adapters adapters)"
  by (auto simp: gathered_fine_def gathered_ok_def)

text \<open>The step after an entry was added, in both loops.\<close>

lemma add_then:
  assumes "adapters_ok adapters count"
    and "\<And>adapters. adapters_ok adapters (count + 1) \<Longrightarrow> yields (next_step adapters) gathered_fine"
  shows "yields (State_Monad.bind (add_adapter adapters count sz a)
    (\<lambda>g. case g of Adapters adapters \<Rightarrow> next_step adapters | _ \<Rightarrow> State_Monad.return g)) gathered_fine"
proof (rule yields_bind [OF add_adapter_ok [OF assms(1)]])
  fix g
  assume "gathered_ok (count + 1) g"
  then show "yields (case g of Adapters adapters \<Rightarrow> next_step adapters | _ \<Rightarrow> State_Monad.return g) gathered_fine"
    by (cases g) (auto simp: gathered_ok_def assms(2))
qed

text \<open>A text of \<open>/proc/bus/i2c\<close> as the kernel writes it: every line has its three tabs and a number.\<close>

lemma gather_proc_ok:
  "\<lbrakk> adapters_ok adapters count; \<forall>s \<in> set ss. proc_line s \<noteq> None \<rbrakk> \<Longrightarrow>
    yields (gather_proc ss adapters count) gathered_fine"
  by (induction ss arbitrary: adapters count) (auto intro!: add_then split: prod.splits)

text \<open>A directory entry is fine when it is no proper prefix of \<open>i2c-N\<close>.\<close>

lemma gather_sysfs_ok:
  assumes "adapters_ok adapters count" "\<forall>d \<in> set ds. scan_i2c_nr d \<noteq> Scan_eof"
  shows "yields (gather_sysfs sysfs ds adapters count) gathered_fine"
  using assms
proof (induction ds arbitrary: adapters count)
  case (Cons d ds)
  have "yields (gather_sysfs sysfs ds arr n) gathered_fine" if "adapters_ok arr n" for arr n
    using Cons that by simp
  then show ?case
    using Cons.prems
    by (auto simp: Let_def intro!: add_then yields_any [where m = "find_name_file sysfs d"]
        yields_any [where m = "i2c_get_funcs n" for n] yields_any [where m = "State_Monad.return t" for t :: adt] split: option.splits prod.splits scanned.splits)
qed simp

text \<open>Kernel files of the expected format.\<close>

definition kernel_files_ok :: "((call \<times> resp) list \<Rightarrow> call \<Rightarrow> resp) \<Rightarrow> bool" where
  "kernel_files_ok k \<longleftrightarrow>
     (\<forall>h s. s \<in> set (fgets_all 120 (r_text (k h (Fopen ''/proc/bus/i2c'')))) \<longrightarrow> proc_line s \<noteq> None) \<and>
     (\<forall>h. case find_sysfs (fgets_all NAME_MAX (r_text (k h (Fopen ''/proc/mounts'')))) (None, None) of
        Mounts_undefined \<Rightarrow> False | Not_mounted \<Rightarrow> True | Mounted dir \<Rightarrow> length dir < 241) \<and>
     (\<forall>h p d. d \<in> set (r_names (k h (Opendir p))) \<longrightarrow> scan_i2c_nr d \<noteq> Scan_eof)"

lemma kernel_files_okD:
  assumes "kernel_files_ok k"
  shows "\<forall>s \<in> set (fgets_all 120 (r_text (k h (Fopen ''/proc/bus/i2c'')))). proc_line s \<noteq> None"
    and "find_sysfs (fgets_all NAME_MAX (r_text (k h (Fopen ''/proc/mounts'')))) (None, None) \<noteq> Mounts_undefined"
    and "find_sysfs (fgets_all NAME_MAX (r_text (k h (Fopen ''/proc/mounts'')))) (None, None) = Mounted dir \<Longrightarrow> length dir < 241"
    and "\<forall>d \<in> set (r_names (k h (Opendir p))). scan_i2c_nr d \<noteq> Scan_eof"
  using assms by (auto simp: kernel_files_ok_def split: mounts.splits)

text \<open>
  Gathering the busses never stores past its array, never uses an uninitialised value
  and always leaves a null name at the end, when the files have the kernel's format: every
  line of \<open>/proc/bus/i2c\<close> parses, every mount line has three fields and a directory that
  leaves room for the path, and no directory entry is a proper prefix of \<open>i2c-N\<close>.
\<close>

theorem gather_i2c_busses_ok:
  assumes "kernel_files_ok (w_kernel w)" "fst (run_state gather_i2c_busses w) = g"
  shows "g \<noteq> Undefined \<and> (\<forall>arr. g = Adapters arr \<longrightarrow> (\<exists>n < length arr. arr ! n = None \<and> (\<forall>i < n. arr ! i \<noteq> None)))"
proof -
  note ok = kernel_files_okD [OF assms(1)] and start = adapters_ok_start
  have "gathered_fine (fst (run_state gather_i2c_busses w))"
    unfolding gather_i2c_busses_def Let_def
    by (simp add: io_simps ok(2) yieldsD [OF gather_proc_ok [OF start ok(1)]] gathered_fine_simps(3) [OF start]
          yieldsD [OF gather_sysfs_ok [OF start ok(4)]] split: mounts.splits)
      (auto dest!: ok(3) [unfolded NAME_MAX_def] simp: NAME_MAX_def)
  then have "gathered_fine g"
    using assms(2) by simp
  then show ?thesis
    using adapters_ok_end by (auto simp: gathered_fine_def gathered_ok_def split: gathered.splits)
qed

definition demo_files :: "(call \<times> resp) list \<Rightarrow> call \<Rightarrow> resp" where
  "demo_files h c = \<lparr>r_ret = 1, r_errno = 0, r_data = [], r_funcs = 0,
     r_text = (if c = Fopen ''/proc/bus/i2c'' then ''i2c-3'' @ [CHR 0x09] @ ''smbus'' @ [CHR 0x09] @ ''X1'' @ [CHR 0x09] @ ''A2'' @ [CHR 0x0A]
               else []),
     r_names = []\<rparr>"

definition demo_world :: "((call \<times> resp) list \<Rightarrow> call \<Rightarrow> resp) \<Rightarrow> string \<Rightarrow> world" where
  "demo_world k input = \<lparr>w_kernel = k, w_trace = [], w_stdin = input, w_stdout = [], w_junk = [], w_junk_ints = []\<rparr>"

lemma demo_files_ok: "kernel_files_ok demo_files"
proof -
  have "\<forall>s \<in> set (fgets_all 120 (''i2c-3'' @ [CHR 0x09] @ ''smbus'' @ [CHR 0x09] @ ''X1'' @ [CHR 0x09] @ ''A2'' @ [CHR 0x0A])).
      proc_line s \<noteq> None"
    by code_simp
  moreover have "fgets_all NAME_MAX [] = []"
    by code_simp
  ultimately show ?thesis
    by (simp add: kernel_files_ok_def demo_files_def)
qed

theorem gather_i2c_busses_ok_witness:
  "fst (run_state gather_i2c_busses (demo_world demo_files [])) \<noteq> Undefined"
  using gather_i2c_busses_ok [of "demo_world demo_files []", OF _ refl] demo_files_ok
  by (simp add: demo_world_def)

section \<open>Opening a bus\<close>

lemma dec_digits_length: "n < 10 ^ Suc k \<Longrightarrow> length (dec_digits n) \<le> Suc k"
proof (induction k arbitrary: n)
  case 0
  then show ?case by (subst dec_digits.simps) simp
next
  case (Suc k)
  then have "length (dec_digits (n div 10)) \<le> Suc k"
    by (intro Suc.IH) (simp add: less_mult_imp_div_less)
  then show ?case by (subst dec_digits.simps) simp
qed

lemma bus_name_length: "0 \<le> i2cbus \<Longrightarrow> i2cbus \<le> 0xFFFFF \<Longrightarrow> length (dec_int i2cbus) \<le> 7"
  using dec_digits_length [of "nat i2cbus" 6] by (simp add: dec_int_def)

text \<open>
  For a bus number that \<open>lookup_i2c_bus\<close> accepts, \<open>open_i2c_dev\<close> never truncates the path:
  it tries \<open>/dev/i2c/N\<close>, and \<open>/dev/i2c-N\<close> exactly when the first does not exist, and returns
  what the last \<open>open\<close> returned.
\<close>

theorem open_i2c_dev_spec:
  assumes "0 \<le> i2cbus" "i2cbus \<le> 0xFFFFF"
    and "w_kernel w (w_trace w) (Open (''/dev/i2c/'' @ dec_int i2cbus)) = r1"
    and "w_kernel w (w_trace w @ [(Open (''/dev/i2c/'' @ dec_int i2cbus), r1)]) (Open (''/dev/i2c-'' @ dec_int i2cbus)) = r2"
  shows "run_state (open_i2c_dev i2cbus 20) w =
    (if r_ret r1 < 0 \<and> r_errno r1 \<in> {ENOENT, ENOTDIR}
     then ((r_ret r2, ''/dev/i2c-'' @ dec_int i2cbus),
       w\<lparr>w_trace := w_trace w @ [(Open (''/dev/i2c/'' @ dec_int i2cbus), r1), (Open (''/dev/i2c-'' @ dec_int i2cbus), r2)]\<rparr>)
     else ((r_ret r1, ''/dev/i2c/'' @ dec_int i2cbus),
       w\<lparr>w_trace := w_trace w @ [(Open (''/dev/i2c/'' @ dec_int i2cbus), r1)]\<rparr>))"
  using assms bus_name_length [OF assms(1,2)] by (auto simp: open_i2c_dev_def Let_def io_simps)

theorem open_i2c_dev_spec_witness:
  "fst (run_state (open_i2c_dev 3 20) (demo_world demo_files [])) = (1, ''/dev/i2c/'' @ dec_int 3)"
  using open_i2c_dev_spec [of 3 "demo_world demo_files []", OF _ _ refl refl]
  by (simp add: demo_world_def demo_files_def)

section \<open>Looking up and opening a bus leaves the devices alone\<close>

text \<open>
  A class of calls that a program may make while it only looks things up: it holds every
  harmless call. The tools use it with the calls that are no transfer and with the calls
  that leave the choice of the chip alone.
\<close>

locale call_class =
  fixes p :: "call \<Rightarrow> bool"
  assumes p: "harmless c \<Longrightarrow> p c"
begin

lemma open_quiet: "keeps (quiet p str) (open_i2c_dev i2cbus sz)"
  by (auto simp: open_i2c_dev_def Let_def intro!: quiet_rules p)

lemma get_funcs_quiet: "keeps (quiet p str) (i2c_get_funcs i2cbus)"
  by (auto simp: i2c_get_funcs_def Let_def intro!: quiet_rules open_quiet p)

lemma add_adapter_quiet: "keeps (quiet p str) (add_adapter adapters count sz a)"
  by (auto simp: add_adapter_def make_room_def more_adapters_def intro!: quiet_rules p split: option.splits)

lemma gather_proc_quiet: "keeps (quiet p str) (gather_proc ss adapters count)"
  by (induction ss arbitrary: adapters count)
    (auto intro!: quiet_rules add_adapter_quiet split: option.splits gathered.splits)

lemma fopen_path_quiet: "keeps (quiet p str) (fopen_path path)"
  by (auto simp: fopen_path_def intro!: quiet_rules p)

lemma scan_device_dir_quiet: "keeps (quiet p str) (scan_device_dir dir ds)"
  by (induction ds) (auto intro!: quiet_rules fopen_path_quiet split: opened.splits)

lemma find_name_file_quiet: "keeps (quiet p str) (find_name_file sysfs d)"
  by (auto simp: find_name_file_def Let_def intro!: quiet_rules fopen_path_quiet scan_device_dir_quiet p
      split: opened.splits)

lemma gather_sysfs_quiet: "keeps (quiet p str) (gather_sysfs sysfs ds adapters count)"
  by (induction ds arbitrary: adapters count)
    (auto simp: Let_def intro!: quiet_rules find_name_file_quiet get_funcs_quiet add_adapter_quiet
      split: option.splits gathered.splits scanned.splits prod.splits)

lemma gather_quiet: "keeps (quiet p str) gather_i2c_busses"
  by (auto simp: gather_i2c_busses_def Let_def intro!: quiet_rules gather_proc_quiet gather_sysfs_quiet p
      split: mounts.splits)

lemma lookup_quiet: "keeps (quiet p str) (lookup_i2c_bus arg)"
  by (auto simp: lookup_i2c_bus_def lookup_i2c_bus_by_name_def Let_def intro!: quiet_rules gather_quiet
      split: prod.splits)

text \<open>Setting the chip, when the class allows it.\<close>

lemma slave_quiet: "(\<And>fd force address. p (Ioctl_slave fd force address)) \<Longrightarrow>
    keeps (quiet p str) (set_slave_addr fd address force)"
  by (auto simp: set_slave_addr_def intro!: quiet_rules)

end

interpretation no_transfer: call_class "\<lambda>c. \<not> is_transfer c"
  by unfold_locales (rule harmless_no_transfer)

text \<open>The calls before the chip is chosen.\<close>

fun is_slave :: "call \<Rightarrow> bool" where
  "is_slave (Ioctl_slave _ _ _) = True"
| "is_slave _ = False"

interpretation no_access: call_class "\<lambda>c. \<not> is_transfer c \<and> \<not> is_slave c"
  by unfold_locales (case_tac c; simp)

end
