(* ===== verification/RegDevice.thy ===== *)
theory RegDevice
  imports Smbus I2cBusses
begin

text \<open>
  A chip behind a bus, as a behaviour of the kernel. The chip answers at one slave address, through the
  descriptor that opening the file of its bus gave; a byte-data read returns the register and a byte-data
  write changes the chip. Its kind is a parameter: plain registers, or registers in banks. The interface of
  such a chip is a locale, whose clients are the read-modify-write of \<open>i2cset\<close> and the bank switch of
  \<open>i2cdump\<close>; \<open>smbus.c\<close> provides it.
\<close>

section \<open>The chip\<close>

text \<open>Where the chip is (bus, descriptor, slave address), what it is, and its state at the start.\<close>

record 'c site =
  s_bus :: int
  s_fd :: int
  s_adr :: int
  rd_reg :: "'c \<Rightarrow> u8 \<Rightarrow> u8"
  wr_reg :: "u8 \<Rightarrow> u8 \<Rightarrow> 'c \<Rightarrow> 'c"
  s_start :: 'c

text \<open>256 registers; and 256 banks of them, the register at \<open>br\<close> choosing the bank.\<close>

definition plain_site :: "int \<Rightarrow> int \<Rightarrow> int \<Rightarrow> (u8 \<Rightarrow> u8) \<Rightarrow> (u8 \<Rightarrow> u8) site" where
  "plain_site bus fd adr m = \<lparr>s_bus = bus, s_fd = fd, s_adr = adr, rd_reg = (\<lambda>m. m), wr_reg = (\<lambda>a v m. m(a := v)), s_start = m\<rparr>"

type_synonym banks = "u8 \<times> (u8 \<Rightarrow> u8 \<Rightarrow> u8)"

definition rd_banked :: "u8 \<Rightarrow> banks \<Rightarrow> u8 \<Rightarrow> u8" where
  "rd_banked br c a = (if a = br then fst c else snd c (fst c) a)"

definition wr_banked :: "u8 \<Rightarrow> u8 \<Rightarrow> u8 \<Rightarrow> banks \<Rightarrow> banks" where
  "wr_banked br a v c = (if a = br then (v, snd c) else (fst c, (snd c)(fst c := (snd c (fst c))(a := v))))"

definition banked_site :: "u8 \<Rightarrow> int \<Rightarrow> int \<Rightarrow> int \<Rightarrow> banks \<Rightarrow> banks site" where
  "banked_site br bus fd adr c = \<lparr>s_bus = bus, s_fd = fd, s_adr = adr, rd_reg = rd_banked br, wr_reg = wr_banked br, s_start = c\<rparr>"

text \<open>
  What the history of calls has made of it: whether the descriptor is open on the bus, the slave address
  that is chosen, and the registers, which are unknown after a transfer of another kind.
\<close>

record 'c chip_state =
  cs_open :: bool
  cs_sel :: "int option"
  cs_regs :: "'c option"

definition bus_files :: "int \<Rightarrow> string set" where
  "bus_files i = {''/dev/i2c/'' @ dec_int i, ''/dev/i2c-'' @ dec_int i}"

definition transfer_step :: "'c site \<Rightarrow> u8 \<Rightarrow> u8 \<Rightarrow> smbus_size \<Rightarrow> u8 list option \<Rightarrow> 'c \<Rightarrow> 'c option" where
  "transfer_step S rw command sz data c =
     (if sz = I2C_SMBUS_BYTE_DATA \<and> data \<noteq> None
      then Some (if rw = I2C_SMBUS_WRITE then wr_reg S command (the data ! 0) c else c)
      else None)"

definition chip_step :: "'c site \<Rightarrow> call \<times> resp \<Rightarrow> 'c chip_state \<Rightarrow> 'c chip_state" where
  "chip_step S cr st = (case fst cr of
     Open name \<Rightarrow> if r_ret (snd cr) = s_fd S then st\<lparr>cs_open := (name \<in> bus_files (s_bus S)), cs_sel := None\<rparr> else st
   | Close fd \<Rightarrow> if fd = s_fd S then st\<lparr>cs_open := False\<rparr> else st
   | Ioctl_slave fd force a \<Rightarrow> if fd = s_fd S \<and> 0 \<le> r_ret (snd cr) then st\<lparr>cs_sel := Some a\<rparr> else st
   | Ioctl_smbus fd rw command sz data \<Rightarrow>
       if fd = s_fd S \<and> cs_open st \<and> cs_sel st = Some (s_adr S)
       then st\<lparr>cs_regs := Option.bind (cs_regs st) (transfer_step S rw command sz data)\<rparr> else st
   | _ \<Rightarrow> st)"

definition chip_state :: "'c site \<Rightarrow> (call \<times> resp) list \<Rightarrow> 'c chip_state" where
  "chip_state S h = fold (chip_step S) h \<lparr>cs_open = False, cs_sel = None, cs_regs = Some (s_start S)\<rparr>"

lemma chip_state_append: "chip_state S (h @ xs) = fold (chip_step S) xs (chip_state S h)"
  by (simp add: chip_state_def)

text \<open>
  What the kernel answers: one of the two files of the bus can be opened and gives the descriptor; on an
  open descriptor the chip's address can be chosen and the functions and PEC are served; the chip at the
  chosen address answers byte-data transfers. Of other calls nothing is said.
\<close>

definition opens :: "'c site \<Rightarrow> ((call \<times> resp) list \<Rightarrow> call \<Rightarrow> resp) \<Rightarrow> bool" where
  "opens S k \<longleftrightarrow> 0 \<le> s_fd S \<and>
     ((\<forall>h. r_ret (k h (Open (''/dev/i2c/'' @ dec_int (s_bus S)))) = s_fd S) \<or>
      (\<forall>h. r_ret (k h (Open (''/dev/i2c/'' @ dec_int (s_bus S)))) = -1 \<and>
         r_errno (k h (Open (''/dev/i2c/'' @ dec_int (s_bus S)))) \<in> {ENOENT, ENOTDIR} \<and>
         r_ret (k h (Open (''/dev/i2c-'' @ dec_int (s_bus S)))) = s_fd S))"

definition answers :: "'c site \<Rightarrow> ((call \<times> resp) list \<Rightarrow> call \<Rightarrow> resp) \<Rightarrow> bool" where
  "answers S k \<longleftrightarrow> (\<forall>h. cs_open (chip_state S h) \<longrightarrow>
     (\<forall>force. r_ret (k h (Ioctl_slave (s_fd S) force (s_adr S))) = 0) \<and>
     r_ret (k h (Ioctl_funcs (s_fd S))) = 0 \<and> (\<forall>x. r_ret (k h (Ioctl_pec (s_fd S) x)) = 0) \<and>
     (\<forall>c command data. cs_sel (chip_state S h) = Some (s_adr S) \<longrightarrow> cs_regs (chip_state S h) = Some c \<longrightarrow>
        r_ret (k h (Ioctl_smbus (s_fd S) I2C_SMBUS_READ command I2C_SMBUS_BYTE_DATA (Some data))) = 0 \<and>
        r_data (k h (Ioctl_smbus (s_fd S) I2C_SMBUS_READ command I2C_SMBUS_BYTE_DATA (Some data))) = [rd_reg S c command] \<and>
        r_ret (k h (Ioctl_smbus (s_fd S) I2C_SMBUS_WRITE command I2C_SMBUS_BYTE_DATA (Some data))) = 0))"

text \<open>The registers hold \<open>c\<close>; and, in addition, the bus is open, and the chip is chosen.\<close>

definition registers :: "'c site \<Rightarrow> 'c \<Rightarrow> world \<Rightarrow> bool" where
  "registers S c w \<longleftrightarrow> opens S (w_kernel w) \<and> answers S (w_kernel w) \<and> cs_regs (chip_state S (w_trace w)) = Some c"

definition bus_open :: "'c site \<Rightarrow> 'c \<Rightarrow> world \<Rightarrow> bool" where
  "bus_open S c w \<longleftrightarrow> registers S c w \<and> cs_open (chip_state S (w_trace w))"

definition chip_holds :: "'c site \<Rightarrow> 'c \<Rightarrow> world \<Rightarrow> bool" where
  "chip_holds S c w \<longleftrightarrow> bus_open S c w \<and> cs_sel (chip_state S (w_trace w)) = Some (s_adr S)"

lemmas chip_defs = chip_holds_def bus_open_def registers_def chip_state_append chip_step_def

section \<open>The interface\<close>

text \<open>
  \<open>holds c w\<close>: in the world \<open>w\<close> the chip is in the state \<open>c\<close>. The laws: a read gives the register and changes
  none; a write succeeds and changes the chip as a write does.
\<close>

locale register_chip =
  fixes holds :: "'c \<Rightarrow> world \<Rightarrow> bool"
    and reg :: "'c \<Rightarrow> u8 \<Rightarrow> u8"
    and upd :: "u8 \<Rightarrow> u8 \<Rightarrow> 'c \<Rightarrow> 'c"
    and rd :: "u8 \<Rightarrow> int io"
    and wr :: "u8 \<Rightarrow> u8 \<Rightarrow> int io"
  assumes rd: "hoare (holds c) (rd a) (\<lambda>r w. r = int (unat (reg c a)) \<and> holds c w)"
    and wr: "hoare (holds c) (wr a v) (\<lambda>r w. r = 0 \<and> holds (upd a v c) w)"
begin

text \<open>A read, and a write, in front of the rest of a program.\<close>

lemma read_then:
  assumes "hoare (holds c) (cont (int (unat (reg c a)))) Q"
  shows "hoare (holds c) (State_Monad.bind (rd a) cont) Q"
proof (rule hoare_bind [OF rd])
  show "hoare (\<lambda>w. r = int (unat (reg c a)) \<and> holds c w) (cont r) Q" for r
    using assms by (auto simp: hoare_def)
qed

lemma write_then:
  assumes "hoare (holds (upd a v c)) (cont 0) Q"
  shows "hoare (holds c) (State_Monad.bind (wr a v) cont) Q"
proof (rule hoare_bind [OF wr])
  show "hoare (\<lambda>w. r = 0 \<and> holds (upd a v c) w) (cont r) Q" for r
    using assms by (auto simp: hoare_def)
qed

text \<open>Read, change, write: only that write happens to the chip.\<close>

lemma update_then:
  assumes "hoare (holds (upd a (f (int (unat (reg c a)))) c)) (cont 0) Q"
  shows "hoare (holds c) (do { old \<leftarrow> rd a; r \<leftarrow> wr a (f old); cont r }) Q"
  by (intro read_then write_then assms)

end

section \<open>\<open>smbus.c\<close> provides it\<close>

lemma kernel_writes_0: "kernel_writes (b # bs) old ! 0 = b"
  by (simp add: kernel_writes_def)

text \<open>The registers and what has been printed, while the chip is chosen and at the end.\<close>

definition chip_out :: "'c site \<Rightarrow> string \<Rightarrow> 'c \<Rightarrow> world \<Rightarrow> bool" where
  "chip_out S out c w \<longleftrightarrow> chip_holds S c w \<and> w_stdout w = out"

definition chip_end :: "'c site \<Rightarrow> string \<Rightarrow> 'c \<Rightarrow> world \<Rightarrow> bool" where
  "chip_end S out c w \<longleftrightarrow> registers S c w \<and> w_stdout w = out"

lemma chip_out_end: "chip_out S out c w \<Longrightarrow> chip_end S out c w"
  by (simp add: chip_out_def chip_end_def chip_holds_def bus_open_def)

lemma answers_chosen:
  assumes "chip_holds S c w"
  shows "r_ret (w_kernel w (w_trace w) (Ioctl_smbus (s_fd S) I2C_SMBUS_READ a I2C_SMBUS_BYTE_DATA (Some data))) = 0"
    and "r_data (w_kernel w (w_trace w) (Ioctl_smbus (s_fd S) I2C_SMBUS_READ a I2C_SMBUS_BYTE_DATA (Some data))) = [rd_reg S c a]"
    and "r_ret (w_kernel w (w_trace w) (Ioctl_smbus (s_fd S) I2C_SMBUS_WRITE a I2C_SMBUS_BYTE_DATA (Some data))) = 0"
    and "r_ret (w_kernel w (w_trace w) (Ioctl_pec (s_fd S) x)) = 0"
  using assms by (auto simp: chip_holds_def bus_open_def registers_def answers_def)

lemma smbus_rd:
  "hoare (chip_out S out c) (i2c_smbus_read_byte_data (s_fd S) a) (\<lambda>r w. r = int (unat (rd_reg S c a)) \<and> chip_out S out c w)"
proof (rule hoareI)
  fix w
  assume "chip_out S out c w"
  then have w: "chip_holds S c w" "w_stdout w = out"
    by (simp_all add: chip_out_def)
  then show "fst (run_state (i2c_smbus_read_byte_data (s_fd S) a) w) = int (unat (rd_reg S c a)) \<and>
      chip_out S out c (snd (run_state (i2c_smbus_read_byte_data (s_fd S) a) w))"
    by (simp add: i2c_smbus_read_byte_data_def i2c_smbus_access_def Let_def io_simps answers_chosen [OF w(1)] kernel_writes_0
        chip_out_def) (simp add: chip_defs transfer_step_def smbus_consts)
qed

lemma smbus_wr:
  "hoare (chip_out S out c) (i2c_smbus_write_byte_data (s_fd S) a v) (\<lambda>r w. r = 0 \<and> chip_out S out (wr_reg S a v c) w)"
proof (rule hoareI)
  fix w
  assume "chip_out S out c w"
  then have w: "chip_holds S c w" "w_stdout w = out"
    by (simp_all add: chip_out_def)
  then show "fst (run_state (i2c_smbus_write_byte_data (s_fd S) a v) w) = 0 \<and>
      chip_out S out (wr_reg S a v c) (snd (run_state (i2c_smbus_write_byte_data (s_fd S) a v) w))"
    by (simp add: i2c_smbus_write_byte_data_def i2c_smbus_access_def Let_def io_simps answers_chosen [OF w(1)]
        chip_out_def) (simp add: chip_defs transfer_step_def put_byte_def)
qed

interpretation smbus_chip: register_chip "chip_out S out" "rd_reg S" "wr_reg S" "i2c_smbus_read_byte_data (s_fd S)"
    "i2c_smbus_write_byte_data (s_fd S)"
  for S out
  by unfold_locales (rule smbus_rd, rule smbus_wr)

text \<open>Other calls and output in front of the rest of a program.\<close>

lemma chip_pec_then:
  assumes "\<And>r. r_ret r = 0 \<Longrightarrow> hoare (chip_out S out c) (cont r) Q"
  shows "hoare (chip_out S out c) (State_Monad.bind (sys (Ioctl_pec (s_fd S) x)) cont) Q"
proof -
  have "hoare (chip_out S out c) (sys (Ioctl_pec (s_fd S) x)) (\<lambda>r w. r_ret r = 0 \<and> chip_out S out c w)"
    by (auto simp: hoare_def chip_out_def io_simps answers_chosen) (auto simp: chip_defs)
  then show ?thesis
    by (rule hoare_bind) (use assms in \<open>auto simp: hoare_def\<close>)
qed

lemma chip_close_then:
  assumes "\<And>r. hoare (chip_end S out c) (cont r) Q"
  shows "hoare (chip_out S out c) (State_Monad.bind (sys (Close fd)) cont) Q"
proof -
  have "hoare (chip_out S out c) (sys (Close fd)) (\<lambda>r w. chip_end S out c w)"
    by (auto simp: hoare_def chip_out_def chip_end_def io_simps chip_defs)
  then show ?thesis
    by (rule hoare_bind) (use assms in \<open>auto simp: hoare_def\<close>)
qed

lemma chip_print_then:
  "hoare (chip_out S (out @ s) c) (cont ()) Q \<Longrightarrow> hoare (chip_out S out c) (State_Monad.bind (print s) cont) Q"
  by (simp add: hoare_def chip_out_def chip_defs run_bind run_print)

lemma end_print_then:
  "hoare (chip_end S (out @ s) c) (cont ()) Q \<Longrightarrow> hoare (chip_end S out c) (State_Monad.bind (print s) cont) Q"
  by (simp add: hoare_def chip_end_def chip_defs run_bind run_print)

lemma chip_return: "(\<And>w. chip_out S out c w \<Longrightarrow> Q x w) \<Longrightarrow> hoare (chip_out S out c) (State_Monad.return x) Q"
  by (simp add: hoare_def run_return)

lemma end_return: "(\<And>w. chip_end S out c w \<Longrightarrow> Q x w) \<Longrightarrow> hoare (chip_end S out c) (State_Monad.return x) Q"
  by (simp add: hoare_def run_return)

text \<open>Opening a bus and choosing a chip: the registers stay.\<close>

definition same_io :: "world \<Rightarrow> world \<Rightarrow> bool" where
  "same_io w w' \<longleftrightarrow> w_kernel w' = w_kernel w \<and> w_stdin w' = w_stdin w \<and> w_stdout w' = w_stdout w"

lemma open_chip:
  assumes "registers S c w" "0 \<le> s_bus S" "s_bus S \<le> 0xFFFFF"
  shows "\<exists>name w'. run_state (open_i2c_dev (s_bus S) 20) w = ((s_fd S, name), w') \<and> bus_open S c w' \<and> same_io w w'"
proof -
  have len: "length (''/dev/i2c/'' @ dec_int (s_bus S)) < 20" "length (''/dev/i2c-'' @ dec_int (s_bus S)) < 20"
    using bus_name_length [OF assms(2,3)] by simp_all
  have "opens S (w_kernel w)"
    using assms(1) by (simp add: registers_def)
  then show ?thesis
    using assms(1) len unfolding opens_def
    by (auto simp: open_i2c_dev_def Let_def io_simps same_io_def chip_defs bus_files_def)
qed

lemma funcs_chip:
  assumes "bus_open S c w"
  shows "r_ret (w_kernel w (w_trace w) (Ioctl_funcs (s_fd S))) = 0" "bus_open S c (after w (Ioctl_funcs (s_fd S)))"
  using assms by (auto simp: answers_def after_def chip_defs)

lemma slave_chip:
  assumes "bus_open S c w"
  shows "\<exists>w'. run_state (set_slave_addr (s_fd S) (s_adr S) force) w = (0, w') \<and> chip_holds S c w' \<and> same_io w w'"
proof -
  have "r_ret (w_kernel w (w_trace w) (Ioctl_slave (s_fd S) force (s_adr S))) = 0"
    using assms by (auto simp: bus_open_def registers_def answers_def)
  then show ?thesis
    using assms by (simp add: set_slave_addr_def io_simps same_io_def chip_defs)
qed

lemma lookup_number:
  assumes "strtoul bus = (n, [])" "bus \<noteq> []" "n \<le> 0xFFFFF"
  shows "run_state (lookup_i2c_bus bus) w = (Some (int n), w)"
  using assms by (simp add: lookup_i2c_bus_def io_simps)

text \<open>A kernel of this kind: only the second file of the bus exists.\<close>

definition demo_kernel :: "'c site \<Rightarrow> (call \<times> resp) list \<Rightarrow> call \<Rightarrow> resp" where
  "demo_kernel S h c = \<lparr>r_ret = (case c of Open name \<Rightarrow> if name = ''/dev/i2c-'' @ dec_int (s_bus S) then s_fd S else -1 | _ \<Rightarrow> 0),
     r_errno = (case c of Open name \<Rightarrow> ENOENT | _ \<Rightarrow> 0),
     r_data = (case c of Ioctl_smbus fd rw command sz data \<Rightarrow>
         if rw = I2C_SMBUS_READ then [rd_reg S (the (cs_regs (chip_state S h))) command] else []
       | _ \<Rightarrow> []),
     r_funcs = 0x0FFF8009, r_text = [], r_names = []\<rparr>"

lemma demo_kernel_ok: "0 \<le> s_fd S \<Longrightarrow> registers S (s_start S) (demo_world (demo_kernel S) inp)"
  by (simp add: registers_def opens_def answers_def demo_kernel_def demo_world_def smbus_consts chip_state_def)

text \<open>Plain registers at address 0x20 of bus 3, on descriptor 4.\<close>

definition demo_chip :: "(u8 \<Rightarrow> u8) \<Rightarrow> (call \<times> resp) list \<Rightarrow> call \<Rightarrow> resp" where
  "demo_chip m = demo_kernel (plain_site 3 4 0x20 m)"

end
