(* ===== verification/I2cGet.thy ===== *)
theory I2cGet
  imports RegDevice
begin

text \<open>
  \<open>i2cget.c\<close>: read one register of a chip. \<open>argv\<close> is the list of the arguments after the
  program's name; the result of \<open>main\<close> is the exit code, \<open>None\<close> for undefined behaviour in
  the lookup of the bus.
\<close>

section \<open>Arguments\<close>

record i2c_flags =
  f_force :: bool
  f_yes :: bool
  f_version :: bool
  f_all :: bool

definition no_flags :: i2c_flags where
  "no_flags = \<lparr>f_force = False, f_yes = False, f_version = False, f_all = False\<rparr>"

text \<open>The flags and the other arguments; \<open>None\<close> for an unsupported option.\<close>

fun get_flags :: "string list \<Rightarrow> i2c_flags \<Rightarrow> (i2c_flags \<times> string list) option" where
  "get_flags [] f = Some (f, [])"
| "get_flags (a # args) f =
     (if char_at a 0 = CHR ''-'' then
        (if char_at a 1 = CHR ''V'' then get_flags args (f\<lparr>f_version := True\<rparr>)
         else if char_at a 1 = CHR ''f'' then get_flags args (f\<lparr>f_force := True\<rparr>)
         else if char_at a 1 = CHR ''y'' then get_flags args (f\<lparr>f_yes := True\<rparr>)
         else if char_at a 1 = CHR ''a'' then get_flags args (f\<lparr>f_all := True\<rparr>)
         else None)
      else Some (f, a # args))"

text \<open>Size, data address and PEC from the arguments after the chip address.\<close>

definition get_params :: "string list \<Rightarrow> (smbus_size \<times> int \<times> bool) option" where
  "get_params args =
     (case args of [] \<Rightarrow> Some (I2C_SMBUS_BYTE, -1, False)
      | a # modes \<Rightarrow>
          let (n, rest) = strtol a; daddress = to_int n in
          if rest \<noteq> [] \<or> daddress < 0 \<or> daddress > 0xff then None
          else (case modes of [] \<Rightarrow> Some (I2C_SMBUS_BYTE_DATA, daddress, False)
            | mode # _ \<Rightarrow>
                let pec = (char_at mode 1 = CHR ''p'') in
                if char_at mode 0 = CHR ''b'' then Some (I2C_SMBUS_BYTE_DATA, daddress, pec)
                else if char_at mode 0 = CHR ''w'' then Some (I2C_SMBUS_WORD_DATA, daddress, pec)
                else if char_at mode 0 = CHR ''c'' then Some (I2C_SMBUS_BYTE, daddress, pec)
                else None))"

section \<open>Checks and confirmation\<close>

definition get_check_funcs :: "int \<Rightarrow> smbus_size \<Rightarrow> int \<Rightarrow> bool \<Rightarrow> int io" where
  "get_check_funcs fd sz daddress pec = do {
     r \<leftarrow> sys (Ioctl_funcs fd);
     let funcs = r_funcs r;
     State_Monad.return
       (if r_ret r < 0 then -1
        else case sz of
          I2C_SMBUS_BYTE \<Rightarrow>
            if \<not> has_func funcs I2C_FUNC_SMBUS_READ_BYTE then -1
            else if daddress \<ge> 0 \<and> \<not> has_func funcs I2C_FUNC_SMBUS_WRITE_BYTE then -1
            else 0
        | I2C_SMBUS_BYTE_DATA \<Rightarrow> if \<not> has_func funcs I2C_FUNC_SMBUS_READ_BYTE_DATA then -1 else 0
        | I2C_SMBUS_WORD_DATA \<Rightarrow> if \<not> has_func funcs I2C_FUNC_SMBUS_READ_WORD_DATA then -1 else 0
        | _ \<Rightarrow> 0)
   }"

definition get_confirm :: "int \<Rightarrow> smbus_size \<Rightarrow> int \<Rightarrow> bool \<Rightarrow> bool io" where
  "get_confirm address sz daddress pec =
     (if address \<ge> 0x50 \<and> address \<le> 0x57 \<and> pec then State_Monad.return False
      else
        let dont = (sz = I2C_SMBUS_BYTE \<and> daddress \<ge> 0 \<and> pec) in
        user_ack (\<not> dont))"

section \<open>The read\<close>

definition get_access :: "int \<Rightarrow> smbus_size \<Rightarrow> int \<Rightarrow> int io" where
  "get_access fd sz daddress =
     (case sz of
        I2C_SMBUS_BYTE \<Rightarrow> do {
          _ \<leftarrow> (if daddress \<ge> 0 then i2c_smbus_write_byte fd (of_int daddress) else State_Monad.return 0);
          i2c_smbus_read_byte fd
        }
      | I2C_SMBUS_WORD_DATA \<Rightarrow> i2c_smbus_read_word_data fd (of_int daddress)
      | _ \<Rightarrow> i2c_smbus_read_byte_data fd (of_int daddress))"

definition get_read :: "int \<Rightarrow> smbus_size \<Rightarrow> int \<Rightarrow> int io" where
  "get_read fd sz daddress = do {
     res \<leftarrow> get_access fd sz daddress;
     _ \<leftarrow> sys (Close fd);
     if res < 0 then State_Monad.return 2
     else do {
       _ \<leftarrow> print (''0x'' @ hex_pad (if sz = I2C_SMBUS_WORD_DATA then 4 else 2) res @ [CHR 0x0A]);
       State_Monad.return 0
     }
   }"

definition get_transfer :: "int \<Rightarrow> smbus_size \<Rightarrow> int \<Rightarrow> bool \<Rightarrow> int io" where
  "get_transfer fd sz daddress pec =
     (if pec then do {
        r \<leftarrow> sys (Ioctl_pec fd 1);
        if r_ret r < 0 then do {
          _ \<leftarrow> sys (Close fd);
          State_Monad.return 1
        } else get_read fd sz daddress
      } else get_read fd sz daddress)"

definition get_run :: "i2c_flags \<Rightarrow> int \<Rightarrow> int \<Rightarrow> smbus_size \<Rightarrow> int \<Rightarrow> bool \<Rightarrow> int io" where
  "get_run f i2cbus address sz daddress pec = do {
     (fd, filename) \<leftarrow> open_i2c_dev i2cbus 20;
     if fd < 0 then State_Monad.return 1
     else do {
       c \<leftarrow> get_check_funcs fd sz daddress pec;
       if c \<noteq> 0 then State_Monad.return 1
       else do {
         s \<leftarrow> set_slave_addr fd address (f_force f);
         if s \<noteq> 0 then State_Monad.return 1
         else do {
           ok \<leftarrow> (if f_yes f then State_Monad.return True else get_confirm address sz daddress pec);
           if \<not> ok then State_Monad.return 0 else get_transfer fd sz daddress pec
         }
       }
     }
   }"

definition i2cget_main :: "string list \<Rightarrow> int option io" where
  "i2cget_main argv =
     (case get_flags argv no_flags of None \<Rightarrow> State_Monad.return (Some 1)
      | Some (f, args) \<Rightarrow>
          if f_version f then State_Monad.return (Some 0)
          else if length args < 2 then State_Monad.return (Some 1)
          else do {
            b \<leftarrow> lookup_i2c_bus (args ! 0);
            case b of None \<Rightarrow> State_Monad.return None
            | Some i2cbus \<Rightarrow>
                let address = parse_i2c_address (args ! 1) (f_all f) in
                if i2cbus < 0 \<or> address < 0 then State_Monad.return (Some 1)
                else (case get_params (drop 2 args) of None \<Rightarrow> State_Monad.return (Some 1)
                  | Some (sz, daddress, pec) \<Rightarrow> do {
                      code \<leftarrow> get_run f i2cbus address sz daddress pec;
                      State_Monad.return (Some code)
                    })
          })"

section \<open>No transfer without consent\<close>

text \<open>The reasons for which \<open>confirm\<close> refuses.\<close>

definition get_refused :: "string \<Rightarrow> int \<Rightarrow> bool \<Rightarrow> bool" where
  "get_refused str address pec \<longleftrightarrow> \<not> fst (ack_string True str) \<or> (0x50 \<le> address \<and> address \<le> 0x57 \<and> pec)"

lemma get_confirm_refuses:
  assumes "get_refused str address pec"
  shows "hoare (quiet p str) (get_confirm address sz daddress pec) (\<lambda>ok w. \<not> ok \<and> all_calls p w)"
  using assms hoareD [OF user_ack_quiet [of p str]] ack_string_mono [of _ str]
  by (auto dest: quietD simp: get_refused_def get_confirm_def Let_def hoare_def io_simps)

lemma get_check_quiet: "keeps (quiet (\<lambda>c. \<not> is_transfer c) str) (get_check_funcs fd sz daddress pec)"
  by (auto simp: get_check_funcs_def Let_def intro!: quiet_rules)

lemma get_run_refused:
  assumes "get_refused str address pec" "\<not> f_yes f"
  shows "hoare (quiet (\<lambda>c. \<not> is_transfer c) str) (get_run f i2cbus address sz daddress pec)
    (\<lambda>_. all_calls (\<lambda>c. \<not> is_transfer c))"
proof -
  have ask: "hoare (quiet (\<lambda>c. \<not> is_transfer c) str)
      (do { ok \<leftarrow> get_confirm address sz daddress pec;
            if \<not> ok then State_Monad.return 0 else get_transfer fd sz daddress pec })
      (\<lambda>_. all_calls (\<lambda>c. \<not> is_transfer c))" for fd
    by (rule hoare_bind [OF get_confirm_refuses [OF assms(1)]]) (auto simp: hoare_def io_simps)
  show ?thesis
    unfolding get_run_def
    using assms(2) ask
    by (auto intro!: quiet_then [OF no_transfer.open_quiet] quiet_then [OF get_check_quiet]
        quiet_then [OF no_transfer.slave_quiet] quiet_return)
qed

text \<open>
  Without \<open>-y\<close>, \<open>i2cget\<close> makes no transfer on any bus when the user does not agree, and
  none with error checking on an EEPROM address whatever the user answers.
\<close>

theorem i2cget_needs_consent:
  assumes "w_trace w = []" "get_flags argv no_flags = Some (f, args)" "\<not> f_yes f"
    and "\<not> fst (ack_string True (w_stdin w)) \<or>
      (\<exists>sz d. parse_i2c_address (args ! 1) (f_all f) \<in> {0x50..0x57} \<and> get_params (drop 2 args) = Some (sz, d, True))"
  shows "all_calls (\<lambda>c. \<not> is_transfer c) (snd (run_state (i2cget_main argv) w))"
proof -
  have "hoare (quiet (\<lambda>c. \<not> is_transfer c) (w_stdin w)) (i2cget_main argv) (\<lambda>_. all_calls (\<lambda>c. \<not> is_transfer c))"
    unfolding i2cget_main_def
    using assms(2-)
    by (auto simp: Let_def get_refused_def intro!: quiet_then [OF no_transfer.lookup_quiet] quiet_return
        get_run_refused hoare_then_return split: option.splits)
  then show ?thesis
    using assms(1) by (auto dest: hoareD quiet_start)
qed

definition ask_argv :: "string list" where
  "ask_argv = [''3'', ''0x50'', ''0x10'', ''bp'']"

theorem i2cget_needs_consent_witness:
  "all_calls (\<lambda>c. \<not> is_transfer c)
    (snd (run_state (i2cget_main ask_argv) (demo_world (demo_chip (\<lambda>_. 7)) ''y'')))"
proof (rule i2cget_needs_consent)
  show "get_flags ask_argv no_flags = Some (no_flags, ask_argv)" "\<not> f_yes no_flags"
    by code_simp+
  have "parse_i2c_address (ask_argv ! 1) (f_all no_flags) = 0x50"
    "get_params (drop 2 ask_argv) = Some (I2C_SMBUS_BYTE_DATA, 0x10, True)"
    by code_simp+
  then show "\<not> fst (ack_string True (w_stdin (demo_world (demo_chip (\<lambda>_. 7)) ''y''))) \<or>
      (\<exists>sz d. parse_i2c_address (ask_argv ! 1) (f_all no_flags) \<in> {0x50..0x57} \<and>
         get_params (drop 2 ask_argv) = Some (sz, d, True))"
    by simp
qed (simp add: demo_world_def)

section \<open>What is read and printed\<close>

text \<open>The printed line, read back.\<close>

definition printed_value :: "string \<Rightarrow> int" where
  "printed_value s = fst (strtol (takeWhile (\<lambda>c. c \<noteq> CHR 0x0A) s))"

lemma hex_digit_not_newline: "is_digit 16 c \<Longrightarrow> c \<noteq> CHR 0x0A"
  by (auto simp: is_digit_def digit_val_def)

lemma printed_hex:
  assumes "0 \<le> x" "x < 2 ^ 32"
  shows "printed_value (''0x'' @ hex_pad k x @ [CHR 0x0A]) = x"
proof -
  have "takeWhile (\<lambda>c. c \<noteq> CHR 0x0A) (''0x'' @ hex_pad k x @ [CHR 0x0A]) = ''0x'' @ hex_pad k x"
    using hex_pad_value(2) [OF assms, of k] hex_digit_not_newline by (auto simp: takeWhile_append)
  then show ?thesis
    using strtol_hex [OF assms, of k] by (simp add: printed_value_def)
qed

lemma printed_byte: "printed_value (''0x'' @ hex_pad k (int (unat (b :: u8))) @ [CHR 0x0A]) = int (unat b)"
proof (rule printed_hex)
  have "uint b < 2 ^ LENGTH(8)"
    by (rule uint_lt2p)
  then show "int (unat b) < 2 ^ 32"
    by simp
qed simp

lemma get_params_range:
  "get_params args = Some (I2C_SMBUS_BYTE_DATA, daddress, pec) \<Longrightarrow> 0 \<le> daddress \<and> daddress \<le> 0xff"
  by (auto simp: get_params_def Let_def split: list.splits prod.splits if_splits)

text \<open>The read and its report on a chip.\<close>

lemma get_transfer_chip:
  "hoare (chip_out S out c) (get_transfer (s_fd S) I2C_SMBUS_BYTE_DATA daddress pec)
    (\<lambda>code w. code = 0 \<and>
       chip_end S (out @ ''0x'' @ hex_pad 2 (int (unat (rd_reg S c (of_int daddress)))) @ [CHR 0x0A]) c w)"
proof -
  have "hoare (chip_out S out c) (get_read (s_fd S) I2C_SMBUS_BYTE_DATA daddress)
    (\<lambda>code w. code = 0 \<and>
       chip_end S (out @ ''0x'' @ hex_pad 2 (int (unat (rd_reg S c (of_int daddress)))) @ [CHR 0x0A]) c w)"
    by (auto simp: get_read_def get_access_def intro!: smbus_chip.read_then chip_close_then end_print_then end_return)
  then show ?thesis
    by (auto simp: get_transfer_def intro!: chip_pec_then)
qed

text \<open>
  With \<open>-y\<close> on a chip that answers at the given address of the given bus, \<open>i2cget\<close> in byte mode ends with
  code 0, prints one line that reads back as the register's value, and leaves every register as it was.
\<close>

theorem i2cget_reads_register:
  assumes "registers S c w" "\<forall>h. has_func (r_funcs (w_kernel w h (Ioctl_funcs (s_fd S)))) I2C_FUNC_SMBUS_READ_BYTE_DATA"
    and "get_flags argv no_flags = Some (f, [bus, chip] @ rest)" "f_yes f" "\<not> f_version f"
    and "strtoul bus = (n, [])" "bus \<noteq> []" "n \<le> 0xFFFFF" "s_bus S = int n"
    and "0 \<le> s_adr S" "parse_i2c_address chip (f_all f) = s_adr S"
    and "get_params rest = Some (I2C_SMBUS_BYTE_DATA, daddress, pec)"
  shows "\<exists>line w'. run_state (i2cget_main argv) w = (Some 0, w') \<and> w_stdout w' = w_stdout w @ line \<and>
      printed_value line = int (unat (rd_reg S c (of_int daddress))) \<and> registers S c w'"
proof -
  obtain name w1 where w1: "run_state (open_i2c_dev (int n) 20) w = ((s_fd S, name), w1)" "bus_open S c w1" "same_io w w1"
    using open_chip [OF assms(1)] assms(8,9) by auto
  let ?w2 = "after w1 (Ioctl_funcs (s_fd S))"
  have "has_func (r_funcs (w_kernel w1 (w_trace w1) (Ioctl_funcs (s_fd S)))) I2C_FUNC_SMBUS_READ_BYTE_DATA"
    using assms(2) w1(3) by (simp add: same_io_def)
  then have w2: "run_state (get_check_funcs (s_fd S) I2C_SMBUS_BYTE_DATA daddress pec) w1 = (0, ?w2)" "bus_open S c ?w2"
    using funcs_chip [OF w1(2)] by (simp_all add: get_check_funcs_def run_bind run_sys_after run_return Let_def)
  obtain w3 where w3: "run_state (set_slave_addr (s_fd S) (s_adr S) (f_force f)) ?w2 = (0, w3)" "chip_holds S c w3" "same_io ?w2 w3"
    using slave_chip [OF w2(2)] by blast
  have "chip_out S (w_stdout w) c w3"
    using w1(3) w3(2,3) by (simp add: same_io_def chip_out_def)
  note transfer = hoareD [OF get_transfer_chip [of S "w_stdout w" c daddress pec] this]
  have "0 \<le> s_fd S"
    using assms(1) by (simp add: registers_def opens_def)
  then have "run_state (i2cget_main argv) w =
      (let (r, w') = run_state (get_transfer (s_fd S) I2C_SMBUS_BYTE_DATA daddress pec) w3 in (Some r, w'))"
    using assms(3-) w1 w2 w3 lookup_number [OF assms(6,7,8), of w]
    by (simp add: i2cget_main_def get_run_def io_simps split: prod.splits)
  then show ?thesis
    using transfer printed_byte [of 2 "rd_reg S c (of_int daddress)"] by (auto simp: chip_end_def split: prod.splits)
qed

theorem i2cget_reads_register_witness:
  "\<exists>line w'. run_state (i2cget_main [''-y'', ''3'', ''0x20'', ''0x10'']) (demo_world (demo_chip (\<lambda>_. 7)) []) = (Some 0, w') \<and>
     w_stdout w' = line \<and> printed_value line = 7 \<and> registers (plain_site 3 4 0x20 (\<lambda>_. 7)) (\<lambda>_. 7) w'"
proof -
  let ?S = "plain_site 3 4 0x20 (\<lambda>_. 7)" and ?f = "no_flags\<lparr>f_yes := True\<rparr>"
  have flags: "get_flags [''-y'', ''3'', ''0x20'', ''0x10''] no_flags = Some (?f, [''3'', ''0x20''] @ [''0x10''])"
    "f_yes ?f" "\<not> f_version ?f"
    by (simp_all add: no_flags_def char_at_def)
  have bus: "strtoul ''3'' = (3, [])" "''3'' \<noteq> []" "3 \<le> (0xFFFFF :: nat)" "s_bus ?S = int 3" "0 \<le> s_adr ?S"
    by (simp_all add: strtoul_def parse_number_def split_sign_def detect_base_def char_at_def is_space_def Let_def
        is_digit_def digit_val_def digits_value_def plain_site_def)
  have "parse_i2c_address ''0x20'' (f_all ?f) = 0x20"
    by code_simp
  then have addr: "parse_i2c_address ''0x20'' (f_all ?f) = s_adr ?S"
    by (simp add: plain_site_def)
  have params: "get_params [''0x10''] = Some (I2C_SMBUS_BYTE_DATA, 0x10, False)"
    by code_simp
  have chip: "registers ?S (\<lambda>_. 7) (demo_world (demo_chip (\<lambda>_. 7)) [])"
    "\<forall>h. has_func (r_funcs (w_kernel (demo_world (demo_chip (\<lambda>_. 7)) []) h (Ioctl_funcs (s_fd ?S)))) I2C_FUNC_SMBUS_READ_BYTE_DATA"
    using demo_kernel_ok [of ?S "[]"]
    by (simp_all add: demo_chip_def) (simp_all add: plain_site_def demo_kernel_def demo_world_def has_func_def i2c_func_defs)
  from i2cget_reads_register [OF chip flags bus addr params] show ?thesis
    by (simp add: demo_world_def plain_site_def)
qed

end
