(* ===== verification/I2cSet.thy ===== *)
theory I2cSet
  imports RegDevice
begin

text \<open>
  \<open>i2cset.c\<close>: write a register, a command byte or a block, with an optional mask (only the
  masked bits change) and an optional read-back. The arguments are handled in the order of
  \<open>main\<close>; every \<open>help()\<close> ends the program with code 1.
\<close>

section \<open>Flags\<close>

record set_flags =
  s_force :: bool
  s_yes :: bool
  s_version :: bool
  s_readback :: bool
  s_all :: bool
  s_mask :: "string option"

definition no_set_flags :: set_flags where
  "no_set_flags = \<lparr>s_force = False, s_yes = False, s_version = False, s_readback = False, s_all = False, s_mask = None\<rparr>"

text \<open>\<open>-m\<close> takes the next argument; as the last one it leaves too few arguments.\<close>

fun set_argv :: "string list \<Rightarrow> set_flags \<Rightarrow> (set_flags \<times> string list) option" where
  "set_argv [] f = Some (f, [])"
| "set_argv (a # args) f =
     (if char_at a 0 = CHR ''-'' then
        (if char_at a 1 = CHR ''V'' then set_argv args (f\<lparr>s_version := True\<rparr>)
         else if char_at a 1 = CHR ''f'' then set_argv args (f\<lparr>s_force := True\<rparr>)
         else if char_at a 1 = CHR ''y'' then set_argv args (f\<lparr>s_yes := True\<rparr>)
         else if char_at a 1 = CHR ''m'' then
           (case args of [] \<Rightarrow> Some (f, []) | b # args \<Rightarrow> set_argv args (f\<lparr>s_mask := Some b\<rparr>))
         else if char_at a 1 = CHR ''r'' then set_argv args (f\<lparr>s_readback := True\<rparr>)
         else if char_at a 1 = CHR ''a'' then set_argv args (f\<lparr>s_all := True\<rparr>)
         else None)
      else Some (f, a # args))"

section \<open>Arguments\<close>

text \<open>\<open>strtol\<close> into an \<open>int\<close> with a test of the upper bound; \<open>None\<close> is an error.\<close>

definition parse_int :: "string \<Rightarrow> int \<Rightarrow> int option" where
  "parse_int s most =
     (let (n, rest) = strtol s; v = to_int n in
      if rest \<noteq> [] \<or> v < 0 \<or> v > most then None else Some v)"

text \<open>The mode and PEC, by the number of arguments.\<close>

definition set_mode :: "string list \<Rightarrow> bool \<Rightarrow> (smbus_size \<times> bool) option" where
  "set_mode args masked =
     (if length args = 3 then Some (I2C_SMBUS_BYTE, False)
      else if length args = 4 then
        (if args ! 3 = ''c'' \<or> args ! 3 = ''cp'' then Some (I2C_SMBUS_BYTE, char_at (args ! 3) 1 = CHR ''p'')
         else Some (I2C_SMBUS_BYTE_DATA, False))
      else
        let mode = last args; pec = (char_at mode 1 = CHR ''p'') in
        if length mode > 2 \<or> length mode = 2 \<and> char_at mode 1 \<noteq> CHR ''p'' then None
        else if char_at mode 0 = CHR ''b'' then (if length args \<noteq> 5 then None else Some (I2C_SMBUS_BYTE_DATA, pec))
        else if char_at mode 0 = CHR ''w'' then (if length args \<noteq> 5 then None else Some (I2C_SMBUS_WORD_DATA, pec))
        else if char_at mode 0 = CHR ''s'' then
          (if masked \<or> length args > 36 then None else Some (I2C_SMBUS_BLOCK_DATA, pec))
        else if char_at mode 0 = CHR ''i'' then
          (if pec \<or> masked \<or> length args > 36 then None else Some (I2C_SMBUS_I2C_BLOCK_DATA, pec))
        else None)"

primrec parse_bytes :: "string list \<Rightarrow> u8 list option" where
  "parse_bytes [] = Some []"
| "parse_bytes (s # ss) =
     (case parse_int s 0xff of None \<Rightarrow> None
      | Some v \<Rightarrow> (case parse_bytes ss of None \<Rightarrow> None | Some bs \<Rightarrow> Some (of_int v # bs)))"

text \<open>The value and the block.\<close>

definition set_values :: "smbus_size \<Rightarrow> string list \<Rightarrow> (int \<times> u8 list) option" where
  "set_values sz args =
     (case sz of
        I2C_SMBUS_BYTE_DATA \<Rightarrow> map_option (\<lambda>v. (v, [])) (parse_int (args ! 3) 0xff)
      | I2C_SMBUS_WORD_DATA \<Rightarrow> map_option (\<lambda>v. (v, [])) (parse_int (args ! 3) 0xffff)
      | I2C_SMBUS_BLOCK_DATA \<Rightarrow> map_option (Pair (-1)) (parse_bytes (take (length args - 4) (drop 3 args)))
      | I2C_SMBUS_I2C_BLOCK_DATA \<Rightarrow> map_option (Pair (-1)) (parse_bytes (take (length args - 4) (drop 3 args)))
      | _ \<Rightarrow> Some (-1, []))"

text \<open>The mask, 0 without \<open>-m\<close>; only its upper bound is tested.\<close>

definition set_vmask :: "smbus_size \<Rightarrow> string option \<Rightarrow> int option" where
  "set_vmask sz maskp =
     (case maskp of None \<Rightarrow> Some 0
      | Some s \<Rightarrow>
          let (n, rest) = strtol s; vmask = to_int n in
          if rest \<noteq> [] \<or> vmask = 0 then None
          else if (sz = I2C_SMBUS_BYTE \<or> sz = I2C_SMBUS_BYTE_DATA) \<and> vmask > 0xff \<or> vmask > 0xffff then None
          else Some vmask)"

record set_params =
  p_size :: smbus_size
  p_daddress :: int
  p_value :: int
  p_vmask :: int
  p_block :: "u8 list"
  p_pec :: bool

definition get_set_params :: "string list \<Rightarrow> string option \<Rightarrow> set_params option" where
  "get_set_params args maskp =
     (case parse_int (args ! 2) 0xff of None \<Rightarrow> None | Some daddress \<Rightarrow>
      case set_mode args (maskp \<noteq> None) of None \<Rightarrow> None | Some (sz, pec) \<Rightarrow>
      case set_values sz args of None \<Rightarrow> None | Some (v, block) \<Rightarrow>
      case set_vmask sz maskp of None \<Rightarrow> None | Some vmask \<Rightarrow>
      Some \<lparr>p_size = sz, p_daddress = daddress, p_value = v, p_vmask = vmask, p_block = block, p_pec = pec\<rparr>)"

section \<open>Checks and confirmation\<close>

definition set_check_funcs :: "int \<Rightarrow> smbus_size \<Rightarrow> bool \<Rightarrow> int io" where
  "set_check_funcs fd sz pec = do {
     r \<leftarrow> sys (Ioctl_funcs fd);
     State_Monad.return
       (if r_ret r < 0 then -1
        else case sz of
          I2C_SMBUS_BYTE \<Rightarrow> if \<not> has_func (r_funcs r) I2C_FUNC_SMBUS_WRITE_BYTE then -1 else 0
        | I2C_SMBUS_BYTE_DATA \<Rightarrow> if \<not> has_func (r_funcs r) I2C_FUNC_SMBUS_WRITE_BYTE_DATA then -1 else 0
        | I2C_SMBUS_WORD_DATA \<Rightarrow> if \<not> has_func (r_funcs r) I2C_FUNC_SMBUS_WRITE_WORD_DATA then -1 else 0
        | I2C_SMBUS_BLOCK_DATA \<Rightarrow> if \<not> has_func (r_funcs r) I2C_FUNC_SMBUS_WRITE_BLOCK_DATA then -1 else 0
        | I2C_SMBUS_I2C_BLOCK_DATA \<Rightarrow> if \<not> has_func (r_funcs r) I2C_FUNC_SMBUS_WRITE_I2C_BLOCK then -1 else 0
        | _ \<Rightarrow> 0)
   }"

text \<open>On an EEPROM address the default answer is no.\<close>

definition set_confirm :: "int \<Rightarrow> bool io" where
  "set_confirm address = (let dont = (address \<ge> 0x50 \<and> address \<le> 0x57) in user_ack (\<not> dont))"

section \<open>Masked value, write, read-back\<close>

definition set_read_old :: "int \<Rightarrow> smbus_size \<Rightarrow> int \<Rightarrow> int io" where
  "set_read_old fd sz daddress =
     (case sz of
        I2C_SMBUS_BYTE \<Rightarrow> i2c_smbus_read_byte fd
      | I2C_SMBUS_WORD_DATA \<Rightarrow> i2c_smbus_read_word_data fd (of_int daddress)
      | _ \<Rightarrow> i2c_smbus_read_byte_data fd (of_int daddress))"

text \<open>The value to write, or the code of the exit.\<close>

definition set_masked :: "int \<Rightarrow> bool \<Rightarrow> set_params \<Rightarrow> (int + int) io" where
  "set_masked fd yes q =
     (if p_vmask q = 0 then State_Monad.return (Inr (p_value q))
      else do {
        oldvalue \<leftarrow> set_read_old fd (p_size q) (p_daddress q);
        if oldvalue < 0 then State_Monad.return (Inl 1)
        else do {
          let v = or (and (p_value q) (p_vmask q)) (and oldvalue (not (p_vmask q)));
          if yes then State_Monad.return (Inr v)
          else do {
            ok \<leftarrow> user_ack True;
            State_Monad.return (if ok then Inr v else Inl 0)
          }
        }
      })"

definition set_write :: "int \<Rightarrow> set_params \<Rightarrow> int \<Rightarrow> int option io" where
  "set_write fd q v =
     (let daddress = of_int (p_daddress q); len = of_nat (length (p_block q)) in
      case p_size q of
        I2C_SMBUS_BYTE \<Rightarrow> do { res \<leftarrow> i2c_smbus_write_byte fd daddress; State_Monad.return (Some res) }
      | I2C_SMBUS_WORD_DATA \<Rightarrow> do { res \<leftarrow> i2c_smbus_write_word_data fd daddress (of_int v); State_Monad.return (Some res) }
      | I2C_SMBUS_BLOCK_DATA \<Rightarrow> i2c_smbus_write_block_data fd daddress len (p_block q)
      | I2C_SMBUS_I2C_BLOCK_DATA \<Rightarrow> i2c_smbus_write_i2c_block_data fd daddress len (p_block q)
      | _ \<Rightarrow> do { res \<leftarrow> i2c_smbus_write_byte_data fd daddress (of_int v); State_Monad.return (Some res) })"

definition set_readback :: "int \<Rightarrow> set_params \<Rightarrow> int \<Rightarrow> int io" where
  "set_readback fd q v = do {
     res \<leftarrow> set_read_old fd (p_size q) (p_daddress q);
     let v = (if p_size q = I2C_SMBUS_BYTE then p_daddress q else v);
     _ \<leftarrow> sys (Close fd);
     let k = (if p_size q = I2C_SMBUS_WORD_DATA then 4 else 2);
     _ \<leftarrow> print
       (if res < 0 then ''Warning - readback failed'' @ [CHR 0x0A]
        else if res \<noteq> v then
          ''Warning - data mismatch - wrote 0x'' @ hex_pad k v @ '', read back 0x'' @ hex_pad k res @ [CHR 0x0A]
        else ''Value 0x'' @ hex_pad k v @ '' written, readback matched'' @ [CHR 0x0A]);
     State_Monad.return 0
   }"

text \<open>After the write: clear PEC, then close or read back.\<close>

definition set_finish :: "int \<Rightarrow> bool \<Rightarrow> set_params \<Rightarrow> int \<Rightarrow> int io" where
  "set_finish fd readback q v = do {
     r \<leftarrow> (if p_pec q then do { r \<leftarrow> sys (Ioctl_pec fd 0); State_Monad.return (r_ret r) } else State_Monad.return 0);
     if r < 0 then do { _ \<leftarrow> sys (Close fd); State_Monad.return 1 }
     else if \<not> readback then do { _ \<leftarrow> sys (Close fd); State_Monad.return 0 }
     else set_readback fd q v
   }"

definition set_transfer :: "int \<Rightarrow> bool \<Rightarrow> set_params \<Rightarrow> int \<Rightarrow> int option io" where
  "set_transfer fd readback q v = do {
     r \<leftarrow> (if p_pec q then do { r \<leftarrow> sys (Ioctl_pec fd 1); State_Monad.return (r_ret r) } else State_Monad.return 0);
     if r < 0 then do { _ \<leftarrow> sys (Close fd); State_Monad.return (Some 1) }
     else do {
       res \<leftarrow> set_write fd q v;
       case res of None \<Rightarrow> State_Monad.return None
       | Some res \<Rightarrow>
           if res < 0 then do { _ \<leftarrow> sys (Close fd); State_Monad.return (Some 1) }
           else do { code \<leftarrow> set_finish fd readback q v; State_Monad.return (Some code) }
     }
   }"

definition set_run :: "set_flags \<Rightarrow> int \<Rightarrow> int \<Rightarrow> set_params \<Rightarrow> int option io" where
  "set_run f i2cbus address q = do {
     (fd, filename) \<leftarrow> open_i2c_dev i2cbus 20;
     if fd < 0 then State_Monad.return (Some 1)
     else do {
       c \<leftarrow> set_check_funcs fd (p_size q) (p_pec q);
       if c \<noteq> 0 then State_Monad.return (Some 1)
       else do {
         s \<leftarrow> set_slave_addr fd address (s_force f);
         if s \<noteq> 0 then State_Monad.return (Some 1)
         else do {
           ok \<leftarrow> (if s_yes f then State_Monad.return True else set_confirm address);
           if \<not> ok then State_Monad.return (Some 0)
           else do {
             r \<leftarrow> set_masked fd (s_yes f) q;
             case r of Inl code \<Rightarrow> State_Monad.return (Some code)
             | Inr v \<Rightarrow> set_transfer fd (s_readback f) q v
           }
         }
       }
     }
   }"

definition i2cset_main :: "string list \<Rightarrow> int option io" where
  "i2cset_main argv =
     (case set_argv argv no_set_flags of None \<Rightarrow> State_Monad.return (Some 1)
      | Some (f, args) \<Rightarrow>
          if s_version f then State_Monad.return (Some 0)
          else if length args < 3 then State_Monad.return (Some 1)
          else do {
            b \<leftarrow> lookup_i2c_bus (args ! 0);
            case b of None \<Rightarrow> State_Monad.return None
            | Some i2cbus \<Rightarrow>
                let address = parse_i2c_address (args ! 1) (s_all f) in
                if i2cbus < 0 \<or> address < 0 then State_Monad.return (Some 1)
                else (case get_set_params args (s_mask f) of None \<Rightarrow> State_Monad.return (Some 1)
                  | Some q \<Rightarrow> set_run f i2cbus address q)
          })"

section \<open>What the parsers accept\<close>

lemma parse_int_range: "parse_int s most = Some v \<Longrightarrow> 0 \<le> v \<and> v \<le> most"
  by (auto simp: parse_int_def Let_def split: prod.splits if_splits)

lemma parse_bytes_length: "parse_bytes ss = Some bs \<Longrightarrow> length bs = length ss"
  by (induction ss arbitrary: bs) (auto split: option.splits)

lemma parse_bytes_nth:
  "parse_bytes ss = Some bs \<Longrightarrow> i < length ss \<Longrightarrow> parse_int (ss ! i) 0xff = Some (int (unat (bs ! i)))"
proof (induction ss arbitrary: bs i)
  case (Cons s ss)
  then obtain v bs' where v: "parse_int s 0xff = Some v" "parse_bytes ss = Some bs'" "bs = of_int v # bs'"
    by (auto split: option.splits)
  have "int (unat (of_int v :: u8)) = v"
    using parse_int_range [OF v(1)] by (simp add: uint_word_of_int_eq take_bit_int_eq_self)
  then show ?case
    using Cons v by (cases i) auto
qed simp

text \<open>
  An accepted command line of \<open>i2cset\<close> has a data address of one byte, a value that fits
  the size, a mask below $2^{16}$ (0 without \<open>-m\<close>), and for the block modes no mask and between
  1 and 32 bytes, the numbers between the data address and the mode.
\<close>

theorem set_params_accepted:
  assumes "get_set_params args maskp = Some q" "3 \<le> length args"
  shows "p_daddress q \<in> {0..0xff} \<and> (maskp = None \<longleftrightarrow> p_vmask q = 0) \<and> p_vmask q \<le> 0xffff \<and>
    (p_size q = I2C_SMBUS_BYTE \<and> p_value q = -1 \<and> p_block q = [] \<or>
     p_size q = I2C_SMBUS_BYTE_DATA \<and> p_value q \<in> {0..0xff} \<and> p_vmask q \<le> 0xff \<or>
     p_size q = I2C_SMBUS_WORD_DATA \<and> p_value q \<in> {0..0xffff} \<or>
     p_size q \<in> {I2C_SMBUS_BLOCK_DATA, I2C_SMBUS_I2C_BLOCK_DATA} \<and> p_vmask q = 0 \<and>
       length (p_block q) = length args - 4 \<and> length (p_block q) \<in> {1..32} \<and>
       (\<forall>i < length (p_block q). parse_int (args ! (i + 3)) 0xff = Some (int (unat (p_block q ! i)))))"
proof -
  obtain d sz pec v block vmask where q: "parse_int (args ! 2) 0xff = Some d" "set_mode args (maskp \<noteq> None) = Some (sz, pec)"
    "set_values sz args = Some (v, block)" "set_vmask sz maskp = Some vmask"
    "q = \<lparr>p_size = sz, p_daddress = d, p_value = v, p_vmask = vmask, p_block = block, p_pec = pec\<rparr>"
    using assms(1) by (auto simp: get_set_params_def split: option.splits prod.splits)
  have mask: "(maskp = None \<longleftrightarrow> vmask = 0) \<and> vmask \<le> 0xffff \<and> (sz = I2C_SMBUS_BYTE_DATA \<longrightarrow> vmask \<le> 0xff)"
    using q(4) by (auto simp: set_vmask_def Let_def split: option.splits prod.splits if_splits)
  have blocks: "length block = length args - 4 \<and>
      (\<forall>i < length block. parse_int (args ! (i + 3)) 0xff = Some (int (unat (block ! i))))"
    if "parse_bytes (take (length args - 4) (drop 3 args)) = Some block"
    using parse_bytes_length [OF that] parse_bytes_nth [OF that] by (simp add: add.commute)
  have sizes: "sz \<in> {I2C_SMBUS_BYTE, I2C_SMBUS_BYTE_DATA, I2C_SMBUS_WORD_DATA} \<or>
      sz \<in> {I2C_SMBUS_BLOCK_DATA, I2C_SMBUS_I2C_BLOCK_DATA} \<and> maskp = None \<and> 5 \<le> length args \<and> length args \<le> 36"
    using q(2) assms(2) by (auto simp: set_mode_def Let_def split: if_splits)
  have val: "sz = I2C_SMBUS_BYTE \<longrightarrow> v = -1 \<and> block = []" "sz = I2C_SMBUS_BYTE_DATA \<longrightarrow> v \<in> {0..0xff}"
    "sz = I2C_SMBUS_WORD_DATA \<longrightarrow> v \<in> {0..0xffff}"
    "sz \<in> {I2C_SMBUS_BLOCK_DATA, I2C_SMBUS_I2C_BLOCK_DATA} \<longrightarrow>
      parse_bytes (take (length args - 4) (drop 3 args)) = Some block"
    using q(3) parse_int_range by (auto simp: set_values_def)
  have d: "d \<in> {0..0xff}"
    using parse_int_range [OF q(1)] by simp
  have sel: "p_size q = sz" "p_daddress q = d" "p_value q = v" "p_vmask q = vmask" "p_block q = block"
    using q(5) by simp_all
  show ?thesis
    unfolding sel
  proof (intro conjI)
    show "sz = I2C_SMBUS_BYTE \<and> v = -1 \<and> block = [] \<or>
        sz = I2C_SMBUS_BYTE_DATA \<and> v \<in> {0..0xff} \<and> vmask \<le> 0xff \<or>
        sz = I2C_SMBUS_WORD_DATA \<and> v \<in> {0..0xffff} \<or>
        sz \<in> {I2C_SMBUS_BLOCK_DATA, I2C_SMBUS_I2C_BLOCK_DATA} \<and> vmask = 0 \<and>
          length block = length args - 4 \<and> length block \<in> {1..32} \<and>
          (\<forall>i < length block. parse_int (args ! (i + 3)) 0xff = Some (int (unat (block ! i))))"
    proof (cases "sz \<in> {I2C_SMBUS_BLOCK_DATA, I2C_SMBUS_I2C_BLOCK_DATA}")
      case True
      then have five: "5 \<le> length args" "length args \<le> 36" "vmask = 0"
        using sizes mask by auto
      have "length block = length args - 4 \<and>
          (\<forall>i < length block. parse_int (args ! (i + 3)) 0xff = Some (int (unat (block ! i))))"
        using blocks val(4) True by blast
      moreover have "length args - 4 \<in> {1..32}"
        using five by auto
      ultimately show ?thesis
        using True five(3) by metis
    next
      case False
      then show ?thesis
        using sizes val(1-3) mask by blast
    qed
  qed (use d mask in blast)+
qed

theorem set_params_accepted_witness:
  "\<exists>q. get_set_params [''0'', ''0x20'', ''0x10'', ''1'', ''255'', ''s''] None = Some q \<and> length (p_block q) = 2"
proof -
  have "get_set_params [''0'', ''0x20'', ''0x10'', ''1'', ''255'', ''s''] None =
      Some \<lparr>p_size = I2C_SMBUS_BLOCK_DATA, p_daddress = 0x10, p_value = -1, p_vmask = 0, p_block = [1, 255], p_pec = False\<rparr>"
    by code_simp
  from set_params_accepted [OF this] this show ?thesis
    by simp
qed

text \<open>
  The number parsers of \<open>i2cset\<close> narrow \<open>long\<close> to \<open>int\<close> before the range test and do not ask
  for digits: the data addresses 0x100000010 and -0xfffffff0 are taken as 0x10, and an
  empty argument as 0.
\<close>

theorem parse_int_narrows:
  "parse_int ''0x100000010'' 0xff = Some 0x10 \<and> parse_int ''-0xfffffff0'' 0xff = Some 0x10 \<and> parse_int [] 0xff = Some 0"
  by (simp add: parse_int_def number_simps)

section \<open>No transfer without consent\<close>

interpretation no_write: call_class "\<lambda>c. \<not> is_write c"
  by unfold_locales (case_tac c; simp)

text \<open>The first answer, with the default of the address.\<close>

abbreviation set_ack :: "int \<Rightarrow> string \<Rightarrow> bool \<times> string" where
  "set_ack address str \<equiv> ack_string (\<not> (0x50 \<le> address \<and> address \<le> 0x57)) str"

lemma set_confirm_quiet:
  "hoare (quiet p str) (set_confirm address)
    (\<lambda>ok w. quiet p (snd (set_ack address str)) w \<and> ok = fst (set_ack address str))"
  unfolding set_confirm_def Let_def by (rule user_ack_quiet)

lemma set_check_quiet: "p (Ioctl_funcs fd) \<Longrightarrow> keeps (quiet p str) (set_check_funcs fd sz pec)"
  by (auto simp: set_check_funcs_def Let_def intro!: quiet_rules)

text \<open>What comes after the confirmation decides; \<open>cont\<close> stands for it.\<close>

lemma set_run_quiet:
  assumes "call_class p" "\<And>fd force address. p (Ioctl_slave fd force address)" "\<not> s_yes f"
    and "\<And>fd. hoare (quiet p str)
      (do { ok \<leftarrow> set_confirm address;
            if \<not> ok then State_Monad.return (Some 0)
            else do {
              r \<leftarrow> set_masked fd (s_yes f) q;
              case r of Inl code \<Rightarrow> State_Monad.return (Some code)
              | Inr v \<Rightarrow> set_transfer fd (s_readback f) q v } }) (\<lambda>_. all_calls p)"
  shows "hoare (quiet p str) (set_run f i2cbus address q) (\<lambda>_. all_calls p)"
  unfolding set_run_def
  using assms call_class.p [OF assms(1)]
  by (auto intro!: quiet_then [OF call_class.open_quiet] quiet_then [OF set_check_quiet]
      quiet_then [OF call_class.slave_quiet] quiet_return)

lemma set_main_quiet:
  assumes "call_class p" "set_argv argv no_set_flags = Some (f, args)"
    and "\<And>i2cbus address q. \<lbrakk> address = parse_i2c_address (args ! 1) (s_all f); 0 \<le> address;
        get_set_params args (s_mask f) = Some q \<rbrakk> \<Longrightarrow>
      hoare (quiet p str) (set_run f i2cbus address q) (\<lambda>_. all_calls p)"
  shows "hoare (quiet p str) (i2cset_main argv) (\<lambda>_. all_calls p)"
  unfolding i2cset_main_def
  using assms
  by (auto simp: Let_def intro!: quiet_then [OF call_class.lookup_quiet] quiet_return split: option.splits)

text \<open>
  Without \<open>-y\<close>, \<open>i2cset\<close> makes no transfer unless the first answer is a consent; on an
  EEPROM address only an explicit yes is one.
\<close>

theorem i2cset_needs_consent:
  assumes "w_trace w = []" "set_argv argv no_set_flags = Some (f, args)" "\<not> s_yes f"
    and "\<not> fst (set_ack (parse_i2c_address (args ! 1) (s_all f)) (w_stdin w))"
  shows "all_calls (\<lambda>c. \<not> is_transfer c) (snd (run_state (i2cset_main argv) w))"
proof -
  let ?p = "\<lambda>c. \<not> is_transfer c" and ?addr = "parse_i2c_address (args ! 1) (s_all f)"
  have "hoare (quiet ?p (w_stdin w)) (i2cset_main argv) (\<lambda>_. all_calls ?p)"
  proof (rule set_main_quiet [OF no_transfer.call_class_axioms assms(2)])
    fix i2cbus address q
    assume "address = ?addr"
    then have refuse: "\<not> fst (set_ack address (w_stdin w))"
      using assms(4) by simp
    show "hoare (quiet ?p (w_stdin w)) (set_run f i2cbus address q) (\<lambda>_. all_calls ?p)"
      by (rule set_run_quiet [OF no_transfer.call_class_axioms _ assms(3)], simp,
          rule hoare_bind [OF set_confirm_quiet]) (use refuse in \<open>auto simp: hoare_def io_simps dest: quietD\<close>)
  qed
  then show ?thesis
    using assms(1) by (auto dest: hoareD quiet_start)
qed

theorem i2cset_needs_consent_witness:
  "all_calls (\<lambda>c. \<not> is_transfer c)
    (snd (run_state (i2cset_main [''3'', ''0x50'', ''0x10'', ''1'']) (demo_world (demo_chip (\<lambda>_. 7)) [CHR 0x0A])))"
proof (rule i2cset_needs_consent)
  show "set_argv [''3'', ''0x50'', ''0x10'', ''1''] no_set_flags = Some (no_set_flags, [''3'', ''0x50'', ''0x10'', ''1''])"
    "\<not> s_yes no_set_flags"
    by code_simp+
  have "parse_i2c_address ([''3'', ''0x50'', ''0x10'', ''1''] ! 1) (s_all no_set_flags) = 0x50"
    by code_simp
  then show "\<not> fst (set_ack (parse_i2c_address ([''3'', ''0x50'', ''0x10'', ''1''] ! 1) (s_all no_set_flags))
      (w_stdin (demo_world (demo_chip (\<lambda>_. 7)) [CHR 0x0A])))"
    by (simp add: demo_world_def ack_string_def flush_line_spec Let_def)
qed (simp add: demo_world_def)

lemma read_old_quiet:
  "(\<And>command sz data. p (Ioctl_smbus fd I2C_SMBUS_READ command sz (Some data))) \<Longrightarrow>
    keeps (quiet p str) (set_read_old fd sz daddress)"
  by (cases sz) (simp_all add: set_read_old_def reads_quiet)

lemma set_masked_refused:
  assumes "p_vmask q \<noteq> 0" "\<not> fst (ack_string True str)"
    and "\<And>command sz data. p (Ioctl_smbus fd I2C_SMBUS_READ command sz (Some data))"
  shows "hoare (quiet p str) (set_masked fd False q) (\<lambda>r w. (\<exists>code. r = Inl code) \<and> all_calls p w)"
proof -
  have ask: "hoare (quiet p str) (do { ok \<leftarrow> user_ack True; State_Monad.return (if ok then Inr v else Inl 0) })
      (\<lambda>r w. (\<exists>code. r = Inl code) \<and> all_calls p w)" for v :: int
    by (rule hoare_bind [OF user_ack_quiet]) (use assms(2) in \<open>auto simp: hoare_def io_simps dest: quietD\<close>)
  have failed: "hoare (quiet p str) (State_Monad.return (Inl 1)) (\<lambda>r w. (\<exists>code. r = Inl code) \<and> all_calls p w)"
    by (auto simp: hoare_def io_simps dest: quietD)
  show ?thesis
    unfolding set_masked_def Let_def
    using assms(1) ask failed by (auto intro!: quiet_then [OF read_old_quiet] assms(3))
qed

text \<open>
  Without \<open>-y\<close> and with a mask, \<open>i2cset\<close> writes to no chip unless both answers, before
  the read of the old value and before the write, are consents.
\<close>

theorem i2cset_masked_needs_both:
  assumes "w_trace w = []" "set_argv argv no_set_flags = Some (f, args)" "\<not> s_yes f" "s_mask f \<noteq> None"
    and "set_ack (parse_i2c_address (args ! 1) (s_all f)) (w_stdin w) = (first, rest)"
    and "\<not> (first \<and> fst (ack_string True rest))"
  shows "all_calls (\<lambda>c. \<not> is_write c) (snd (run_state (i2cset_main argv) w))"
proof -
  let ?p = "\<lambda>c. \<not> is_write c" and ?addr = "parse_i2c_address (args ! 1) (s_all f)"
  have reads: "?p (Ioctl_smbus fd I2C_SMBUS_READ command sz (Some data))" for fd command sz data
    by (simp add: smbus_consts)
  have "hoare (quiet ?p (w_stdin w)) (i2cset_main argv) (\<lambda>_. all_calls ?p)"
  proof (rule set_main_quiet [OF no_write.call_class_axioms assms(2)])
    fix i2cbus address q
    assume addr: "address = ?addr" "get_set_params args (s_mask f) = Some q"
    have mask: "p_vmask q \<noteq> 0"
      using addr(2) assms(4)
      by (auto simp: get_set_params_def set_vmask_def Let_def split: option.splits prod.splits if_splits)
    have ask: "hoare (\<lambda>w'. quiet ?p rest w' \<and> ok = first)
        (if \<not> ok then State_Monad.return (Some 0)
         else do { r \<leftarrow> set_masked fd (s_yes f) q;
                   case r of Inl code \<Rightarrow> State_Monad.return (Some code)
                   | Inr v \<Rightarrow> set_transfer fd (s_readback f) q v }) (\<lambda>_. all_calls ?p)" for ok fd
    proof (cases "ok \<and> first")
      case True
      then have "\<not> fst (ack_string True rest)"
        using assms(6) by simp
      then have "hoare (quiet ?p rest) (do { r \<leftarrow> set_masked fd False q;
                   case r of Inl code \<Rightarrow> State_Monad.return (Some code)
                   | Inr v \<Rightarrow> set_transfer fd (s_readback f) q v }) (\<lambda>_. all_calls ?p)"
        by (intro hoare_bind [OF set_masked_refused [where p = ?p, OF mask]]) (auto simp: hoare_def io_simps smbus_consts)
      then show ?thesis
        using assms(3) True by (auto simp: hoare_def)
    qed (auto simp: hoare_def io_simps dest: quietD)
    show "hoare (quiet ?p (w_stdin w)) (set_run f i2cbus address q) (\<lambda>_. all_calls ?p)"
      by (rule set_run_quiet [OF no_write.call_class_axioms _ assms(3)], simp,
          rule hoare_bind [OF set_confirm_quiet]) (use ask assms(5) addr(1) in simp)
  qed
  then show ?thesis
    using assms(1) by (auto dest: hoareD quiet_start)
qed

theorem i2cset_masked_needs_both_witness:
  "all_calls (\<lambda>c. \<not> is_write c)
    (snd (run_state (i2cset_main [''-m'', ''0x0f'', ''3'', ''0x20'', ''0x10'', ''1'']) (demo_world (demo_chip (\<lambda>_. 7)) [CHR ''y'', CHR 0x0A])))"
proof (rule i2cset_masked_needs_both)
  show "set_argv [''-m'', ''0x0f'', ''3'', ''0x20'', ''0x10'', ''1''] no_set_flags =
      Some (no_set_flags\<lparr>s_mask := Some ''0x0f''\<rparr>, [''3'', ''0x20'', ''0x10'', ''1''])"
    "\<not> s_yes (no_set_flags\<lparr>s_mask := Some ''0x0f''\<rparr>)" "s_mask (no_set_flags\<lparr>s_mask := Some ''0x0f''\<rparr>) \<noteq> None"
    by code_simp+
  have "parse_i2c_address ([''3'', ''0x20'', ''0x10'', ''1''] ! 1) (s_all (no_set_flags\<lparr>s_mask := Some ''0x0f''\<rparr>)) = 0x20"
    by code_simp
  then show "set_ack (parse_i2c_address ([''3'', ''0x20'', ''0x10'', ''1''] ! 1) (s_all (no_set_flags\<lparr>s_mask := Some ''0x0f''\<rparr>)))
      (w_stdin (demo_world (demo_chip (\<lambda>_. 7)) [CHR ''y'', CHR 0x0A])) = (True, [])"
    by (simp add: demo_world_def ack_string_def flush_line_spec Let_def)
  show "\<not> (True \<and> fst (ack_string True []))"
    by (simp add: ack_string_def)
qed (simp add: demo_world_def)

section \<open>The masked write on a chip\<close>

text \<open>The bits of the mask come from the value, the others from the register.\<close>

definition masked_byte :: "u8 \<Rightarrow> u8 \<Rightarrow> u8 \<Rightarrow> u8" where
  "masked_byte v msk old = or (and v msk) (and old (not msk))"

lemma masked_of_int:
  "of_int (or (and v msk) (and (int (unat old)) (not msk))) = masked_byte (of_int v) (of_int msk) (old :: u8)"
  by (simp add: masked_byte_def of_int_and_eq of_int_or_eq of_int_not_eq)

text \<open>What \<open>i2cset\<close> computes fits the byte, whatever the sign of the mask.\<close>

lemma masked_range:
  assumes "0 \<le> v" "v \<le> 0xff"
  shows "0 \<le> or (and v msk) (and (int (unat (old :: u8))) (not msk)) \<and>
    or (and v msk) (and (int (unat old)) (not msk)) < 2 ^ 8"
proof -
  have old: "0 \<le> int (unat old)" "int (unat old) < 2 ^ 8"
    using uint_lt2p [of old] by simp_all
  have "0 \<le> and v msk" "and v msk < 2 ^ 8" "0 \<le> and (int (unat old)) (not msk)" "and (int (unat old)) (not msk) < 2 ^ 8"
    using assms old AND_upper1 [of v msk] AND_upper1 [of "int (unat old)" "not msk"] by simp_all
  then show ?thesis
    using OR_upper [of "and v msk" 8 "and (int (unat old)) (not msk)"] by simp
qed

lemma byte_of_int: "0 \<le> v \<Longrightarrow> v < 2 ^ 8 \<Longrightarrow> int (unat (of_int v :: u8)) = v"
  by (simp add: uint_word_of_int_eq take_bit_int_eq_self)

text \<open>The value written for the parameters on a register that holds \<open>old\<close>.\<close>

definition set_result :: "set_params \<Rightarrow> u8 \<Rightarrow> u8" where
  "set_result q old = (if p_vmask q = 0 then of_int (p_value q)
     else masked_byte (of_int (p_value q)) (of_int (p_vmask q)) old)"

lemma set_result_value:
  assumes "0 \<le> p_value q" "p_value q \<le> 0xff"
  shows "int (unat (set_result q old)) = (if p_vmask q = 0 then p_value q
    else or (and (p_value q) (p_vmask q)) (and (int (unat old)) (not (p_vmask q))))"
  unfolding set_result_def masked_of_int [symmetric]
  using byte_of_int [of "p_value q"] masked_range [OF assms, of "p_vmask q" old] byte_of_int assms by simp

lemma set_masked_chip:
  assumes "p_size q = I2C_SMBUS_BYTE_DATA" "0 \<le> p_value q" "p_value q \<le> 0xff"
  shows "hoare (chip_out S out c) (set_masked (s_fd S) True q)
    (\<lambda>r w. r = Inr (int (unat (set_result q (rd_reg S c (of_int (p_daddress q)))))) \<and> chip_out S out c w)"
  unfolding set_masked_def set_read_old_def Let_def set_result_value [OF assms(2,3)]
  using assms(1) by (auto intro!: smbus_chip.read_then chip_return)

text \<open>Switching PEC on or off, when it is wanted, in front of the rest.\<close>

lemma pec_then:
  "hoare (chip_out S out c) (cont 0) Q \<Longrightarrow>
    hoare (chip_out S out c) (State_Monad.bind
      (if pec then do { r \<leftarrow> sys (Ioctl_pec (s_fd S) x); State_Monad.return (r_ret r) } else State_Monad.return 0) cont) Q"
  by (auto intro!: chip_pec_then)

definition matched_text :: "int \<Rightarrow> string" where
  "matched_text v = ''Value 0x'' @ hex_pad 2 v @ '' written, readback matched'' @ [CHR 0x0A]"

text \<open>A chip whose register at \<open>a\<close> can be read back as it was written.\<close>

definition reads_back :: "'c site \<Rightarrow> u8 \<Rightarrow> bool" where
  "reads_back S a \<longleftrightarrow> (\<forall>v c. rd_reg S (wr_reg S a v c) a = v)"

lemma plain_reads_back: "reads_back (plain_site bus fd adr m) a"
  by (simp add: reads_back_def plain_site_def)

lemma set_transfer_chip:
  assumes "p_size q = I2C_SMBUS_BYTE_DATA" "reads_back S (of_int (p_daddress q))"
  shows "hoare (chip_out S out c) (set_transfer (s_fd S) readback q (int (unat b)))
    (\<lambda>r w. r = Some 0 \<and> chip_end S (out @ (if readback then matched_text (int (unat b)) else []))
       (wr_reg S (of_int (p_daddress q)) b c) w)"
proof -
  let ?c = "wr_reg S (of_int (p_daddress q)) b c"
  have readback: "hoare (chip_out S out ?c) (set_readback (s_fd S) q (int (unat b)))
      (\<lambda>r w. r = 0 \<and> chip_end S (out @ matched_text (int (unat b))) ?c w)"
    using assms
    by (auto simp: set_readback_def set_read_old_def matched_text_def reads_back_def
        intro!: smbus_chip.read_then chip_close_then end_print_then end_return)
  have finish: "hoare (chip_out S out ?c) (set_finish (s_fd S) readback q (int (unat b)))
      (\<lambda>r w. r = 0 \<and> chip_end S (out @ (if readback then matched_text (int (unat b)) else [])) ?c w)"
    unfolding set_finish_def
    by (rule pec_then) (use readback in \<open>auto intro!: chip_close_then end_return\<close>)
  have final: "hoare (chip_out S out ?c) (do { code \<leftarrow> set_finish (s_fd S) readback q (int (unat b)); State_Monad.return (Some code) })
      (\<lambda>r w. r = Some 0 \<and> chip_end S (out @ (if readback then matched_text (int (unat b)) else [])) ?c w)"
    by (rule hoare_bind [OF finish]) (auto simp: hoare_def io_simps)
  show ?thesis
    unfolding set_transfer_def set_write_def Let_def
    by (rule pec_then) (use assms final in \<open>auto intro!: smbus_chip.write_then\<close>)
qed

lemma set_value_range:
  "get_set_params args m = Some q \<Longrightarrow> p_size q = I2C_SMBUS_BYTE_DATA \<Longrightarrow> 0 \<le> p_value q \<and> p_value q \<le> 0xff"
  using parse_int_range by (auto simp: get_set_params_def set_values_def split: option.splits prod.splits)

lemma set_chip:
  assumes "chip_out S out c w" "p_size q = I2C_SMBUS_BYTE_DATA" "reads_back S (of_int (p_daddress q))"
    and "0 \<le> p_value q" "p_value q \<le> 0xff" "b = set_result q (rd_reg S c (of_int (p_daddress q)))"
  shows "\<exists>w'. run_state (do { r \<leftarrow> set_masked (s_fd S) True q;
        case r of Inl code \<Rightarrow> State_Monad.return (Some code) | Inr v \<Rightarrow> set_transfer (s_fd S) readback q v }) w = (Some 0, w') \<and>
    chip_end S (out @ (if readback then matched_text (int (unat b)) else [])) (wr_reg S (of_int (p_daddress q)) b c) w'"
proof -
  let ?prog = "do { r \<leftarrow> set_masked (s_fd S) True q;
        case r of Inl code \<Rightarrow> State_Monad.return (Some code) | Inr v \<Rightarrow> set_transfer (s_fd S) readback q v }"
  have "hoare (chip_out S out c) ?prog (\<lambda>r w'. r = Some 0 \<and>
      chip_end S (out @ (if readback then matched_text (int (unat b)) else [])) (wr_reg S (of_int (p_daddress q)) b c) w')"
  proof (rule hoare_bind [OF set_masked_chip [OF assms(2,4,5), of S out c, folded assms(6)]])
    show "hoare (\<lambda>w'. r = Inr (int (unat b)) \<and> chip_out S out c w')
        (case r of Inl code \<Rightarrow> State_Monad.return (Some code) | Inr v \<Rightarrow> set_transfer (s_fd S) readback q v)
        (\<lambda>r w'. r = Some 0 \<and> chip_end S (out @ (if readback then matched_text (int (unat b)) else []))
           (wr_reg S (of_int (p_daddress q)) b c) w')" for r
    proof (cases "r = Inr (int (unat b))")
      case True
      then show ?thesis
        using set_transfer_chip [OF assms(2,3), of out c readback b] by (simp add: hoare_def)
    qed (simp add: hoare_def)
  qed
  from hoareD [OF this assms(1)] show ?thesis
    by (auto simp: prod_eq_iff)
qed

text \<open>
  C39: with \<open>-y\<close> on a chip of byte registers that answers at the given address of the given bus, whatever the
  descriptor of the bus is, \<open>i2cset\<close> in byte mode ends with code 0 and changes exactly the addressed register:
  the masked bits (all bits without \<open>-m\<close>) become those of the value, the others keep the old contents. With
  \<open>-r\<close> it reports a match.
\<close>

theorem i2cset_writes_register:
  assumes S: "S = plain_site (int n) fd (parse_i2c_address (args ! 1) (s_all f)) m0" and "registers S m w"
    and "\<forall>h. has_func (r_funcs (w_kernel w h (Ioctl_funcs fd))) I2C_FUNC_SMBUS_WRITE_BYTE_DATA"
    and "set_argv argv no_set_flags = Some (f, args)" "s_yes f" "\<not> s_version f" "3 \<le> length args"
    and "strtoul (args ! 0) = (n, [])" "args ! 0 \<noteq> []" "n \<le> 0xFFFFF" "0 \<le> parse_i2c_address (args ! 1) (s_all f)"
    and "get_set_params args (s_mask f) = Some q" "p_size q = I2C_SMBUS_BYTE_DATA"
  shows "\<exists>w'. run_state (i2cset_main argv) w = (Some 0, w') \<and>
      registers S (m(of_int (p_daddress q) := set_result q (m (of_int (p_daddress q))))) w' \<and>
      w_stdout w' = w_stdout w @
        (if s_readback f then matched_text (int (unat (set_result q (m (of_int (p_daddress q)))))) else [])"
proof -
  have site: "s_bus S = int n" "s_fd S = fd" "s_adr S = parse_i2c_address (args ! 1) (s_all f)" "rd_reg S m = m"
    "wr_reg S a v m = m(a := v)" "reads_back S a" for a v
    using S plain_reads_back by (simp_all add: plain_site_def)
  obtain name w1 where w1: "run_state (open_i2c_dev (int n) 20) w = ((s_fd S, name), w1)" "bus_open S m w1" "same_io w w1"
    using open_chip [OF assms(2)] assms(10) site by auto
  let ?w2 = "after w1 (Ioctl_funcs (s_fd S))"
  have "has_func (r_funcs (w_kernel w1 (w_trace w1) (Ioctl_funcs (s_fd S)))) I2C_FUNC_SMBUS_WRITE_BYTE_DATA"
    using assms(3) w1(3) site by (simp add: same_io_def)
  then have w2: "run_state (set_check_funcs (s_fd S) I2C_SMBUS_BYTE_DATA (p_pec q)) w1 = (0, ?w2)" "bus_open S m ?w2"
    using funcs_chip [OF w1(2)] by (simp_all add: set_check_funcs_def run_bind run_sys_after run_return)
  obtain w3 where w3: "run_state (set_slave_addr (s_fd S) (s_adr S) (s_force f)) ?w2 = (0, w3)" "chip_holds S m w3" "same_io ?w2 w3"
    using slave_chip [OF w2(2)] by blast
  have out: "chip_out S (w_stdout w) m w3"
    using w1(3) w3(2,3) by (simp add: same_io_def chip_out_def)
  have "0 \<le> s_fd S"
    using assms(2) by (simp add: registers_def opens_def)
  then have "run_state (i2cset_main argv) w = run_state
      (do { r \<leftarrow> set_masked (s_fd S) True q;
            case r of Inl code \<Rightarrow> State_Monad.return (Some code) | Inr v \<Rightarrow> set_transfer (s_fd S) (s_readback f) q v }) w3"
    using assms(4-) w1 w2 w3 site(1,3) lookup_number [OF assms(8,9,10), of w]
    by (simp add: i2cset_main_def set_run_def run_bind)
  then show ?thesis
    using set_chip [OF out assms(13) site(6) _ _ refl, of "s_readback f"] set_value_range [OF assms(12,13)] site(4,5)
    by (auto simp: chip_end_def)
qed

text \<open>Five registers on, the low four bits of register 0x10 are set to 1: 0x27 becomes 0x21.\<close>

theorem i2cset_writes_register_witness:
  "\<exists>w'. run_state (i2cset_main [''-y'', ''-m'', ''0x0f'', ''3'', ''0x20'', ''0x10'', ''1''])
        (demo_world (demo_chip (\<lambda>_. 0x27)) []) = (Some 0, w') \<and>
      registers (plain_site 3 4 0x20 (\<lambda>_. 0x27)) ((\<lambda>_. 0x27)(0x10 := 0x21)) w'"
proof -
  let ?f = "no_set_flags\<lparr>s_yes := True, s_mask := Some ''0x0f''\<rparr>" and ?args = "[''3'', ''0x20'', ''0x10'', ''1'']"
  let ?q = "\<lparr>p_size = I2C_SMBUS_BYTE_DATA, p_daddress = 0x10, p_value = 1, p_vmask = 0x0f, p_block = [], p_pec = False\<rparr>"
  let ?w = "demo_world (demo_chip (\<lambda>_. 0x27)) []" and ?S = "plain_site 3 4 0x20 (\<lambda>_. 0x27)"
  have flags: "set_argv [''-y'', ''-m'', ''0x0f'', ''3'', ''0x20'', ''0x10'', ''1''] no_set_flags = Some (?f, ?args)"
    "s_yes ?f" "\<not> s_version ?f" "3 \<le> length ?args"
    by (simp_all add: no_set_flags_def char_at_def)
  have bus: "strtoul (?args ! 0) = (3, [])" "?args ! 0 \<noteq> []" "3 \<le> (0xFFFFF :: nat)"
    by (simp_all add: strtoul_def parse_number_def split_sign_def detect_base_def char_at_def is_space_def Let_def
        is_digit_def digit_val_def digits_value_def)
  have addr: "parse_i2c_address (?args ! 1) (s_all ?f) = 0x20"
    by code_simp
  have params: "get_set_params ?args (s_mask ?f) = Some ?q" "p_size ?q = I2C_SMBUS_BYTE_DATA"
    by code_simp+
  have chip: "registers ?S (\<lambda>_. 0x27) ?w"
    "\<forall>h. has_func (r_funcs (w_kernel ?w h (Ioctl_funcs 4))) I2C_FUNC_SMBUS_WRITE_BYTE_DATA"
    using demo_kernel_ok [of ?S "[]"]
    by (simp_all add: demo_chip_def) (simp_all add: plain_site_def demo_kernel_def demo_world_def has_func_def i2c_func_defs)
  have S: "?S = plain_site (int 3) 4 (parse_i2c_address (?args ! 1) (s_all ?f)) (\<lambda>_. 0x27)" "0 \<le> parse_i2c_address (?args ! 1) (s_all ?f)"
    unfolding addr by simp_all
  have res: "set_result ?q 0x27 = 0x21"
    by (simp add: set_result_def masked_byte_def)
  from i2cset_writes_register [OF S(1) chip flags bus S(2) params] res show ?thesis
    by auto
qed

end
