(* ===== verification/I2cDump.thy ===== *)
theory I2cDump
  imports RegDevice
begin

text \<open>
  \<open>i2cdump.c\<close>: dump the registers of a chip, byte by byte, as words, or from block reads,
  with an optional bank and range. \<open>int block[256]\<close> is a list whose initial contents are
  those of the world; \<open>None\<close> stands for a store past \<open>cblock\<close> or a read past a union.
\<close>

section \<open>Arguments\<close>

record dump_flags =
  u_force :: bool
  u_yes :: bool
  u_version :: bool
  u_all :: bool
  u_range :: "string option"

definition no_dump_flags :: dump_flags where
  "no_dump_flags = \<lparr>u_force = False, u_yes = False, u_version = False, u_all = False, u_range = None\<rparr>"

text \<open>\<open>-r\<close> takes the next argument; as the last one its range is the null pointer of \<open>argv[argc]\<close>.\<close>

fun dump_argv :: "string list \<Rightarrow> dump_flags \<Rightarrow> (dump_flags \<times> string list) option" where
  "dump_argv [] f = Some (f, [])"
| "dump_argv (a # args) f =
     (if char_at a 0 = CHR ''-'' then
        (if char_at a 1 = CHR ''V'' then dump_argv args (f\<lparr>u_version := True\<rparr>)
         else if char_at a 1 = CHR ''f'' then dump_argv args (f\<lparr>u_force := True\<rparr>)
         else if char_at a 1 = CHR ''r'' then
           (case args of [] \<Rightarrow> Some (f\<lparr>u_range := None\<rparr>, []) | b # args \<Rightarrow> dump_argv args (f\<lparr>u_range := Some b\<rparr>))
         else if char_at a 1 = CHR ''y'' then dump_argv args (f\<lparr>u_yes := True\<rparr>)
         else if char_at a 1 = CHR ''a'' then dump_argv args (f\<lparr>u_all := True\<rparr>)
         else None)
      else Some (f, a # args))"

record dump_params =
  u_size :: smbus_size
  u_pec :: bool
  u_even :: bool
  u_bank :: int
  u_bankreg :: int
  u_lo :: int
  u_hi :: int

text \<open>Size, PEC and the word mode on even addresses.\<close>

definition dump_mode :: "string list \<Rightarrow> (smbus_size \<times> bool \<times> bool) option" where
  "dump_mode args =
     (if length args < 3 then Some (I2C_SMBUS_BYTE_DATA, False, False)
      else
        let mode = args ! 2; pec = (char_at mode 1 = CHR ''p'') in
        if char_at mode 0 = CHR ''b'' then Some (I2C_SMBUS_BYTE_DATA, pec, False)
        else if char_at mode 0 = CHR ''w'' then Some (I2C_SMBUS_WORD_DATA, pec, False)
        else if char_at mode 0 = CHR ''W'' then Some (I2C_SMBUS_WORD_DATA, False, True)
        else if char_at mode 0 = CHR ''s'' then Some (I2C_SMBUS_BLOCK_DATA, pec, False)
        else if char_at mode 0 = CHR ''c'' then Some (I2C_SMBUS_BYTE, pec, False)
        else if mode = ''i'' then Some (I2C_SMBUS_I2C_BLOCK_DATA, False, False)
        else None)"

definition dump_bank :: "smbus_size \<Rightarrow> string list \<Rightarrow> (int \<times> int) option" where
  "dump_bank sz args =
     (if length args < 4 then Some (0, 0x4E)
      else
        let (n, rest) = strtol (args ! 3); bank = to_int n in
        if rest \<noteq> [] \<or> sz = I2C_SMBUS_I2C_BLOCK_DATA then None
        else if (sz = I2C_SMBUS_BYTE_DATA \<or> sz = I2C_SMBUS_WORD_DATA) \<and> (bank < 0 \<or> bank > 15) then None
        else if sz = I2C_SMBUS_BLOCK_DATA \<and> (bank < 0 \<or> bank > 0xff) then None
        else if length args < 5 then Some (bank, 0x4E)
        else
          let (n, rest) = strtol (args ! 4); bankreg = to_int n in
          if rest \<noteq> [] \<or> sz = I2C_SMBUS_BLOCK_DATA then None
          else if bankreg < 0 \<or> bankreg > 0xff then None
          else Some (bank, bankreg))"

text \<open>\<open>first-last\<close>, with the constraints of the modes.\<close>

definition dump_range :: "smbus_size \<Rightarrow> bool \<Rightarrow> string option \<Rightarrow> (int \<times> int) option" where
  "dump_range sz ev rng =
     (case rng of None \<Rightarrow> Some (0x00, 0xff)
      | Some rng \<Rightarrow>
          let (n, dash) = strtol rng; lo = to_int n in
          if dash = rng \<or> char_at dash 0 \<noteq> CHR ''-'' \<or> lo < 0 \<or> lo > 0xff then None
          else
            let dash = drop 1 dash; (n, rest) = strtol dash; hi = to_int n in
            if rest = dash \<or> rest \<noteq> [] \<or> hi < lo \<or> hi > 0xff then None
            else if sz = I2C_SMBUS_BYTE \<or> sz = I2C_SMBUS_BYTE_DATA
              \<or> sz = I2C_SMBUS_WORD_DATA \<and> (\<not> ev \<or> lo mod 2 = 0 \<and> hi mod 2 \<noteq> 0) then Some (lo, hi)
            else None)"

definition get_dump_params :: "string list \<Rightarrow> string option \<Rightarrow> dump_params option" where
  "get_dump_params args rng =
     (case dump_mode args of None \<Rightarrow> None | Some (sz, pec, ev) \<Rightarrow>
      case dump_bank sz args of None \<Rightarrow> None | Some (bank, bankreg) \<Rightarrow>
      case dump_range sz ev rng of None \<Rightarrow> None | Some (lo, hi) \<Rightarrow>
      Some \<lparr>u_size = sz, u_pec = pec, u_even = ev, u_bank = bank, u_bankreg = bankreg, u_lo = lo, u_hi = hi\<rparr>)"

definition dump_check_funcs :: "int \<Rightarrow> smbus_size \<Rightarrow> bool \<Rightarrow> int io" where
  "dump_check_funcs fd sz pec = do {
     r \<leftarrow> sys (Ioctl_funcs fd);
     let funcs = r_funcs r;
     State_Monad.return
       (if r_ret r < 0 then -1
        else case sz of
          I2C_SMBUS_BYTE \<Rightarrow>
            if \<not> has_func funcs I2C_FUNC_SMBUS_READ_BYTE then -1
            else if \<not> has_func funcs I2C_FUNC_SMBUS_WRITE_BYTE then -1
            else 0
        | I2C_SMBUS_BYTE_DATA \<Rightarrow> if \<not> has_func funcs I2C_FUNC_SMBUS_READ_BYTE_DATA then -1 else 0
        | I2C_SMBUS_WORD_DATA \<Rightarrow> if \<not> has_func funcs I2C_FUNC_SMBUS_READ_WORD_DATA then -1 else 0
        | I2C_SMBUS_BLOCK_DATA \<Rightarrow> if \<not> has_func funcs I2C_FUNC_SMBUS_READ_BLOCK_DATA then -1 else 0
        | I2C_SMBUS_I2C_BLOCK_DATA \<Rightarrow> if \<not> has_func funcs I2C_FUNC_SMBUS_READ_I2C_BLOCK then -1 else 0
        | _ \<Rightarrow> 0)
   }"

section \<open>Block reads\<close>

definition cblock_size :: nat where "cblock_size = 288"

text \<open>
  \<open>for (res = 0; res < 256; res += i)\<close>: \<open>cblock\<close> holds the bytes read so far, as many as
  \<open>res\<close>; each round reads at least one byte, so 256 rounds are enough.
\<close>

fun read_i2c_blocks :: "nat \<Rightarrow> int \<Rightarrow> u8 list \<Rightarrow> (int \<times> u8 list) option io" where
  "read_i2c_blocks fuel fd cblock =
     (let res = length cblock in
      if \<not> res < 256 then State_Monad.return (Some (int res, cblock))
      else case fuel of 0 \<Rightarrow> State_Monad.return None
      | Suc fuel \<Rightarrow> do {
          i \<leftarrow> i2c_smbus_read_i2c_block_data fd (of_nat res) 32;
          case i of None \<Rightarrow> State_Monad.return None
          | Some (i, bytes) \<Rightarrow>
              if res + length bytes > cblock_size then State_Monad.return None
              else if i \<le> 0 then State_Monad.return (Some (i, cblock))
              else read_i2c_blocks fuel fd (cblock @ bytes)
        })"

declare read_i2c_blocks.simps [simp del]

text \<open>The first entries of \<open>block\<close> become the bytes; for I2C blocks the others become -1.\<close>

definition fill_block :: "bool \<Rightarrow> nat \<Rightarrow> u8 list \<Rightarrow> int list \<Rightarrow> int list" where
  "fill_block i2c n cblock block =
     map (\<lambda>b. int (unat b)) (take n cblock) @ (if i2c then replicate (256 - n) (-1) else drop n block)"

text \<open>The block of the table and the length returned by an SMBus block read, or the failure.\<close>

datatype block_read = Block_undefined | Block_failed | Block_read "int list" int

definition read_blocks :: "int \<Rightarrow> dump_params \<Rightarrow> int list \<Rightarrow> block_read io" where
  "read_blocks fd q block =
     (if u_size q = I2C_SMBUS_BLOCK_DATA then do {
        r \<leftarrow> i2c_smbus_read_block_data fd (of_int (u_bank q));
        State_Monad.return (case r of None \<Rightarrow> Block_undefined
          | Some (res, cblock) \<Rightarrow> if res \<le> 0 then Block_failed
              else Block_read (fill_block False (min (nat res) 256) cblock block) res)
      } else if u_size q = I2C_SMBUS_I2C_BLOCK_DATA then do {
        r \<leftarrow> read_i2c_blocks 256 fd [];
        State_Monad.return (case r of None \<Rightarrow> Block_undefined
          | Some (res, cblock) \<Rightarrow> if res \<le> 0 then Block_failed
              else Block_read (fill_block True (min (nat res) 256) cblock block) 0)
      } else State_Monad.return (Block_read block 0))"

section \<open>The table of bytes\<close>

text \<open>The columns of a row: with words, \<open>j\<close> advances by two.\<close>

definition columns :: "smbus_size \<Rightarrow> int list" where
  "columns sz = (if sz = I2C_SMBUS_WORD_DATA then map (\<lambda>j. 2 * j) [0..7] else [0..15])"

text \<open>Read the register (or take it from \<open>block\<close>): the new \<open>block\<close> and \<open>res\<close>.\<close>

definition dump_fetch :: "int \<Rightarrow> smbus_size \<Rightarrow> int \<Rightarrow> int list \<Rightarrow> (int list \<times> int) io" where
  "dump_fetch fd sz a block =
     (case sz of
        I2C_SMBUS_BYTE_DATA \<Rightarrow> do {
          res \<leftarrow> i2c_smbus_read_byte_data fd (of_int a);
          State_Monad.return (block[nat a := res], res)
        }
      | I2C_SMBUS_WORD_DATA \<Rightarrow> do {
          res \<leftarrow> i2c_smbus_read_word_data fd (of_int a);
          State_Monad.return
            (if res < 0 then block[nat a := res, nat a + 1 := res]
             else block[nat a := res mod 256, nat a + 1 := res div 256], res)
        }
      | I2C_SMBUS_BYTE \<Rightarrow> do {
          res \<leftarrow> i2c_smbus_read_byte fd;
          State_Monad.return (block[nat a := res], res)
        }
      | _ \<Rightarrow> State_Monad.return (block, block ! nat a))"

definition dump_cell_text :: "smbus_size \<Rightarrow> int \<Rightarrow> int \<Rightarrow> int list \<Rightarrow> int \<Rightarrow> string" where
  "dump_cell_text sz s_length a block res =
     (if sz = I2C_SMBUS_BLOCK_DATA \<and> a \<ge> s_length then ''   ''
      else if res < 0 then ''XX '' @ (if sz = I2C_SMBUS_WORD_DATA then ''XX '' else [])
      else hex_pad 2 (block ! nat a) @ '' '' @
        (if sz = I2C_SMBUS_WORD_DATA then hex_pad 2 (block ! (nat a + 1)) @ '' '' else []))"

primrec dump_cells :: "int \<Rightarrow> dump_params \<Rightarrow> int \<Rightarrow> int \<Rightarrow> int list \<Rightarrow> int list \<Rightarrow> int list io" where
  "dump_cells fd q s_length i [] block = State_Monad.return block"
| "dump_cells fd q s_length i (j # js) block =
     (if i + j < u_lo q \<or> i + j > u_hi q then do {
        _ \<leftarrow> print (''   '' @ (if u_size q = I2C_SMBUS_WORD_DATA then ''   '' else []));
        dump_cells fd q s_length i js block
      } else do {
        (block, res) \<leftarrow> dump_fetch fd (u_size q) (i + j) block;
        _ \<leftarrow> print (dump_cell_text (u_size q) s_length (i + j) block res);
        dump_cells fd q s_length i js block
      })"

text \<open>The characters at the end of a row; a short block ends the row.\<close>

definition char_of_byte :: "int \<Rightarrow> char" where
  "char_of_byte res =
     (if res < 0 then CHR ''X''
      else if res mod 256 = 0x00 \<or> res mod 256 = 0xff then CHR ''.''
      else if res mod 256 < 32 \<or> res mod 256 \<ge> 127 then CHR ''?''
      else char_of (nat (res mod 256)))"

primrec dump_chars :: "dump_params \<Rightarrow> int \<Rightarrow> int \<Rightarrow> int list \<Rightarrow> int list \<Rightarrow> string" where
  "dump_chars q s_length i block [] = []"
| "dump_chars q s_length i block (j # js) =
     (if u_size q = I2C_SMBUS_BLOCK_DATA \<and> i + j \<ge> s_length then []
      else if i + j < u_lo q \<or> i + j > u_hi q then CHR '' '' # dump_chars q s_length i block js
      else char_of_byte (block ! nat (i + j)) # dump_chars q s_length i block js)"

primrec dump_rows :: "int \<Rightarrow> dump_params \<Rightarrow> int \<Rightarrow> int list \<Rightarrow> int list \<Rightarrow> unit io" where
  "dump_rows fd q s_length [] block = State_Monad.return ()"
| "dump_rows fd q s_length (i # is) block =
     (if u_size q = I2C_SMBUS_BLOCK_DATA \<and> i \<ge> s_length then State_Monad.return ()
      else if i div 16 < u_lo q div 16 then dump_rows fd q s_length is block
      else if i div 16 > u_hi q div 16 then State_Monad.return ()
      else do {
        _ \<leftarrow> print (hex_pad 2 i @ '': '');
        block \<leftarrow> dump_cells fd q s_length i (columns (u_size q)) block;
        _ \<leftarrow> print (''   '' @ dump_chars q s_length i block [0..15] @ [CHR 0x0A]);
        dump_rows fd q s_length is block
      })"

section \<open>The table of words\<close>

primrec dump_words :: "int \<Rightarrow> dump_params \<Rightarrow> int list \<Rightarrow> unit io" where
  "dump_words fd q [] = State_Monad.return ()"
| "dump_words fd q (a # as) =
     (if a < u_lo q \<or> a > u_hi q then do {
        _ \<leftarrow> print ''     '';
        dump_words fd q as
      } else do {
        res \<leftarrow> i2c_smbus_read_word_data fd (of_int a);
        _ \<leftarrow> print (if res < 0 then ''XXXX '' else hex_pad 4 (res mod 0x10000) @ '' '');
        dump_words fd q as
      })"

primrec dump_word_rows :: "int \<Rightarrow> dump_params \<Rightarrow> int list \<Rightarrow> unit io" where
  "dump_word_rows fd q [] = State_Monad.return ()"
| "dump_word_rows fd q (i # is) =
     (if i div 8 < u_lo q div 8 then dump_word_rows fd q is
      else if i div 8 > u_hi q div 8 then State_Monad.return ()
      else do {
        _ \<leftarrow> print (hex_pad 2 i @ '': '');
        _ \<leftarrow> dump_words fd q (map (\<lambda>j. i + j) [0..7]);
        _ \<leftarrow> print [CHR 0x0A];
        dump_word_rows fd q is
      })"

section \<open>main\<close>

text \<open>The bank switch: the old bank, or the failure.\<close>

definition switch_bank :: "int \<Rightarrow> dump_params \<Rightarrow> int option io" where
  "switch_bank fd q =
     (if u_bank q \<noteq> 0 \<and> u_size q \<noteq> I2C_SMBUS_BLOCK_DATA then do {
        res \<leftarrow> i2c_smbus_read_byte_data fd (of_int (u_bankreg q));
        if res < 0 then State_Monad.return None
        else do {
          r \<leftarrow> i2c_smbus_write_byte_data fd (of_int (u_bankreg q)) (of_int (or (u_bank q) (and res 0xf0)));
          State_Monad.return (if r < 0 then None else Some res)
        }
      } else State_Monad.return (Some 0))"

definition restore_bank :: "int \<Rightarrow> dump_params \<Rightarrow> int \<Rightarrow> unit io" where
  "restore_bank fd q old_bank =
     (if u_bank q \<noteq> 0 \<and> u_size q \<noteq> I2C_SMBUS_BLOCK_DATA then do {
        _ \<leftarrow> i2c_smbus_write_byte_data fd (of_int (u_bankreg q)) (of_int old_bank);
        State_Monad.return ()
      } else State_Monad.return ())"

definition byte_header :: string where
  "byte_header = ''     0  1  2  3  4  5  6  7  8  9  a  b  c  d  e  f    0123456789abcdef'' @ [CHR 0x0A]"

definition word_header :: string where
  "word_header = ''     0,8  1,9  2,a  3,b  4,c  5,d  6,e  7,f'' @ [CHR 0x0A]"

text \<open>Everything but plain words; the result is the exit code when it is not 0.\<close>

definition dump_table :: "int \<Rightarrow> dump_params \<Rightarrow> int list \<Rightarrow> int option io" where
  "dump_table fd q block = do {
     b \<leftarrow> read_blocks fd q block;
     case b of Block_undefined \<Rightarrow> State_Monad.return None
     | Block_failed \<Rightarrow> State_Monad.return (Some 1)
     | Block_read block s_length \<Rightarrow> do {
         res \<leftarrow> (if u_size q = I2C_SMBUS_BYTE then i2c_smbus_write_byte fd (of_int (u_lo q)) else State_Monad.return 0);
         if res \<noteq> 0 then State_Monad.return (Some 1)
         else do {
           _ \<leftarrow> print byte_header;
           _ \<leftarrow> dump_rows fd q s_length (map (\<lambda>i. 16 * i) [0..15]) block;
           State_Monad.return (Some 0)
         }
       }
   }"

definition dump_bytes :: "int \<Rightarrow> dump_params \<Rightarrow> int option io" where
  "dump_bytes fd q = do {
     block \<leftarrow> junk_block;
     dump_table fd q block
   }"

definition dump_tables :: "int \<Rightarrow> dump_params \<Rightarrow> int option io" where
  "dump_tables fd q =
     (if u_size q \<noteq> I2C_SMBUS_WORD_DATA \<or> u_even q then dump_bytes fd q
      else do {
        _ \<leftarrow> print word_header;
        _ \<leftarrow> dump_word_rows fd q (map (\<lambda>i. 8 * i) [0..31]);
        State_Monad.return (Some 0)
      })"

text \<open>After the confirmation. A failure in the tables exits before the bank is restored.\<close>

definition dump_chip :: "int \<Rightarrow> dump_params \<Rightarrow> int option io" where
  "dump_chip fd q = do {
     b \<leftarrow> switch_bank fd q;
     case b of None \<Rightarrow> State_Monad.return (Some 1)
     | Some old_bank \<Rightarrow> do {
         code \<leftarrow> dump_tables fd q;
         if code \<noteq> Some 0 then State_Monad.return code
         else do {
           _ \<leftarrow> restore_bank fd q old_bank;
           State_Monad.return (Some 0)
         }
       }
   }"

definition dump_confirmed :: "int \<Rightarrow> bool \<Rightarrow> dump_params \<Rightarrow> int option io" where
  "dump_confirmed fd yes q = do {
     ok \<leftarrow> (if yes then State_Monad.return True else user_ack True);
     if \<not> ok then State_Monad.return (Some 0) else dump_chip fd q
   }"

definition dump_run :: "dump_flags \<Rightarrow> int \<Rightarrow> int \<Rightarrow> dump_params \<Rightarrow> int option io" where
  "dump_run f i2cbus address q = do {
     (fd, filename) \<leftarrow> open_i2c_dev i2cbus 20;
     if fd < 0 then State_Monad.return (Some 1)
     else do {
       c \<leftarrow> dump_check_funcs fd (u_size q) (u_pec q);
       if c \<noteq> 0 then State_Monad.return (Some 1)
       else do {
         s \<leftarrow> set_slave_addr fd address (u_force f);
         if s \<noteq> 0 then State_Monad.return (Some 1)
         else if u_pec q then do {
           r \<leftarrow> sys (Ioctl_pec fd 1);
           if r_ret r < 0 then State_Monad.return (Some 1) else dump_confirmed fd (u_yes f) q
         }
         else dump_confirmed fd (u_yes f) q
       }
     }
   }"

definition i2cdump_main :: "string list \<Rightarrow> int option io" where
  "i2cdump_main argv =
     (case dump_argv argv no_dump_flags of None \<Rightarrow> State_Monad.return (Some 1)
      | Some (f, args) \<Rightarrow>
          if u_version f then State_Monad.return (Some 0)
          else if args = [] then State_Monad.return (Some 1)
          else do {
            b \<leftarrow> lookup_i2c_bus (args ! 0);
            case b of None \<Rightarrow> State_Monad.return None
            | Some i2cbus \<Rightarrow>
                if i2cbus < 0 \<or> length args < 2 then State_Monad.return (Some 1)
                else
                  let address = parse_i2c_address (args ! 1) (u_all f) in
                  if address < 0 then State_Monad.return (Some 1)
                  else (case get_dump_params args (u_range f) of None \<Rightarrow> State_Monad.return (Some 1)
                    | Some q \<Rightarrow> dump_run f i2cbus address q)
          })"

section \<open>The dump of a chip of byte registers\<close>

text \<open>The register at an address, and the text that a dump of the range shows of it.\<close>

definition reg_at :: "(u8 \<Rightarrow> u8) \<Rightarrow> int \<Rightarrow> int" where
  "reg_at m a = int (unat (m (of_int a)))"

definition spec_row :: "(u8 \<Rightarrow> u8) \<Rightarrow> int \<Rightarrow> int \<Rightarrow> int \<Rightarrow> string" where
  "spec_row m lo hi i =
     hex_pad 2 i @ '': '' @
     concat (map (\<lambda>j. if lo \<le> i + j \<and> i + j \<le> hi then hex_pad 2 (reg_at m (i + j)) @ '' '' else ''   '') [0..15]) @
     ''   '' @
     map (\<lambda>j. if lo \<le> i + j \<and> i + j \<le> hi then char_of_byte (reg_at m (i + j)) else CHR '' '') [0..15] @
     [CHR 0x0A]"

definition spec_rows :: "(u8 \<Rightarrow> u8) \<Rightarrow> int \<Rightarrow> int \<Rightarrow> int list \<Rightarrow> string" where
  "spec_rows m lo hi is = concat (map (spec_row m lo hi) (filter (\<lambda>i. lo div 16 \<le> i div 16 \<and> i div 16 \<le> hi div 16) is))"

text \<open>The cells of a row print the registers and leave them in \<open>block\<close>.\<close>

definition block_shows :: "(u8 \<Rightarrow> u8) \<Rightarrow> int set \<Rightarrow> int list \<Rightarrow> bool" where
  "block_shows m as block \<longleftrightarrow> length block = 256 \<and> (\<forall>a \<in> as. block ! nat a = reg_at m a)"

lemma block_shows_update:
  "\<lbrakk> block_shows m as block; 0 \<le> a; a < 256; as \<subseteq> {0..255} \<rbrakk> \<Longrightarrow>
    block_shows m (insert a as) (block[nat a := reg_at m a])"
  by (auto simp: block_shows_def nth_list_update eq_nat_nat_iff)

lemma block_shows_weaken: "block_shows m as block \<Longrightarrow> bs \<subseteq> as \<Longrightarrow> block_shows m bs block"
  by (auto simp: block_shows_def)

lemma dump_cells_chip:
  assumes "u_size q = I2C_SMBUS_BYTE_DATA" "\<forall>j \<in> set js. 0 \<le> i + j \<and> i + j < 256" "block_shows (rd_reg S c) as block" "as \<subseteq> {0..255}"
  shows "hoare (chip_out S out c) (dump_cells (s_fd S) q s_length i js block)
    (\<lambda>block' w. block_shows (rd_reg S c) (as \<union> {a. (\<exists>j \<in> set js. a = i + j) \<and> u_lo q \<le> a \<and> a \<le> u_hi q}) block' \<and>
       chip_out S (out @ concat (map (\<lambda>j. if u_lo q \<le> i + j \<and> i + j \<le> u_hi q
          then hex_pad 2 (reg_at (rd_reg S c) (i + j)) @ '' '' else ''   '') js)) c w)"
  using assms
proof (induction js arbitrary: out block as)
  case Nil
  then show ?case by (auto simp: hoare_def io_simps)
next
  case (Cons j js)
  let ?a = "i + j"
  show ?case
  proof (cases "u_lo q \<le> ?a \<and> ?a \<le> u_hi q")
    case True
    have block1: "block_shows (rd_reg S c) (insert ?a as) (block[nat ?a := reg_at (rd_reg S c) ?a])"
      using Cons.prems by (intro block_shows_update) auto
    have sub: "insert ?a as \<subseteq> {0..255}"
      using Cons.prems by auto
    have "0 \<le> reg_at (rd_reg S c) ?a" "block[nat ?a := reg_at (rd_reg S c) ?a] ! nat ?a = reg_at (rd_reg S c) ?a"
      using block1 by (simp_all add: reg_at_def block_shows_def)
    moreover note IH = Cons.IH [OF Cons.prems(1) _ block1 sub, of "out @ hex_pad 2 (reg_at (rd_reg S c) ?a) @ '' ''"]
    have "hoare (chip_out S (out @ hex_pad 2 (reg_at (rd_reg S c) ?a) @ '' '') c)
        (dump_cells (s_fd S) q s_length i js (block[nat ?a := reg_at (rd_reg S c) ?a]))
        (\<lambda>block' w. block_shows (rd_reg S c) (as \<union> {a. (\<exists>j \<in> set (j # js). a = i + j) \<and> u_lo q \<le> a \<and> a \<le> u_hi q}) block' \<and>
         chip_out S (out @ concat (map (\<lambda>j. if u_lo q \<le> i + j \<and> i + j \<le> u_hi q
            then hex_pad 2 (reg_at (rd_reg S c) (i + j)) @ '' '' else ''   '') (j # js))) c w)"
      by (rule hoare_conseq [OF IH]) (use Cons.prems(2) True in \<open>auto elim!: block_shows_weaken\<close>)
    ultimately show ?thesis
      using True Cons.prems(1) unfolding dump_cells.simps dump_fetch_def
      by (auto simp: dump_cell_text_def reg_at_def intro!: smbus_chip.read_then chip_print_then)
  next
    case False
    note IH = Cons.IH [OF Cons.prems(1) _ Cons.prems(3,4), of "out @ ''   ''"]
    have "hoare (chip_out S (out @ ''   '') c) (dump_cells (s_fd S) q s_length i js block)
        (\<lambda>block' w. block_shows (rd_reg S c) (as \<union> {a. (\<exists>j \<in> set (j # js). a = i + j) \<and> u_lo q \<le> a \<and> a \<le> u_hi q}) block' \<and>
         chip_out S (out @ concat (map (\<lambda>j. if u_lo q \<le> i + j \<and> i + j \<le> u_hi q
            then hex_pad 2 (reg_at (rd_reg S c) (i + j)) @ '' '' else ''   '') (j # js))) c w)"
      by (rule hoare_conseq [OF IH]) (use Cons.prems(2) False in \<open>auto elim!: block_shows_weaken\<close>)
    then show ?thesis
      using False Cons.prems(1) by (auto intro!: chip_print_then)
  qed
qed

lemma dump_chars_chip:
  assumes "u_size q = I2C_SMBUS_BYTE_DATA"
    and "\<forall>j \<in> set js. u_lo q \<le> i + j \<and> i + j \<le> u_hi q \<longrightarrow> block ! nat (i + j) = reg_at (rd_reg S c) (i + j)"
  shows "dump_chars q s_length i block js =
    map (\<lambda>j. if u_lo q \<le> i + j \<and> i + j \<le> u_hi q then char_of_byte (reg_at (rd_reg S c) (i + j)) else CHR '' '') js"
  using assms by (induction js) auto

text \<open>The rows of the range are those that the filter keeps, as the row numbers ascend.\<close>

lemma spec_rows_skip: "i div 16 < lo div 16 \<Longrightarrow> spec_rows m lo hi (i # is) = spec_rows m lo hi is"
  by (simp add: spec_rows_def)

lemma spec_rows_stop: "hi div 16 < i div 16 \<Longrightarrow> sorted (i # is) \<Longrightarrow> spec_rows m lo hi (i # is) = []"
proof -
  assume "hi div 16 < i div 16" "sorted (i # is)"
  then have "hi div 16 < k div 16" if "k \<in> set (i # is)" for k
    using that zdiv_mono1 [of i k 16] by force
  then have "filter (\<lambda>i. lo div 16 \<le> i div 16 \<and> i div 16 \<le> hi div 16) (i # is) = []"
    by (force simp: filter_empty_conv)
  then show ?thesis
    by (simp only: spec_rows_def) simp
qed

lemma dump_rows_chip:
  assumes "u_size q = I2C_SMBUS_BYTE_DATA" "sorted is" "\<forall>i \<in> set is. 0 \<le> i \<and> i \<le> 240" "length block = 256"
  shows "hoare (chip_out S out c) (dump_rows (s_fd S) q s_length is block)
    (\<lambda>_. chip_out S (out @ spec_rows (rd_reg S c) (u_lo q) (u_hi q) is) c)"
  using assms
proof (induction "is" arbitrary: out block)
  case Nil
  then show ?case by (simp add: hoare_def io_simps spec_rows_def)
next
  case (Cons i "is")
  note row = Cons.prems(1)
  consider "i div 16 < u_lo q div 16" | "u_hi q div 16 < i div 16" "\<not> i div 16 < u_lo q div 16"
    | "u_lo q div 16 \<le> i div 16" "i div 16 \<le> u_hi q div 16"
    by linarith
  then show ?case
  proof cases
    case 1
    then show ?thesis
      using Cons by (simp add: spec_rows_skip)
  next
    case 2
    then show ?thesis
      using Cons.prems(1,2) by (simp add: spec_rows_stop hoare_def io_simps)
  next
    case 3
    let ?cells = "concat (map (\<lambda>j. if u_lo q \<le> i + j \<and> i + j \<le> u_hi q
        then hex_pad 2 (reg_at (rd_reg S c) (i + j)) @ '' '' else ''   '') [0..15])"
    let ?out1 = "(out @ hex_pad 2 i @ '': '') @ ?cells"
    have "columns (u_size q) = [0..15]" "block_shows (rd_reg S c) {} block" "\<forall>j \<in> set [0..15]. 0 \<le> i + j \<and> i + j < 256"
      using Cons.prems by (auto simp: columns_def block_shows_def)
    note cells = this(1) dump_cells_chip [OF row this(3,2) empty_subsetI, of "out @ hex_pad 2 i @ '': ''" s_length]
    have next_row: "hoare (chip_out S ?out1 c)
        (do { _ \<leftarrow> print (''   '' @ dump_chars q s_length i block' [0..15] @ [CHR 0x0A]);
              dump_rows (s_fd S) q s_length is block' })
        (\<lambda>_. chip_out S (out @ spec_rows (rd_reg S c) (u_lo q) (u_hi q) (i # is)) c)"
      if shown: "block_shows (rd_reg S c) ({} \<union> {a. (\<exists>j \<in> set [0..15]. a = i + j) \<and> u_lo q \<le> a \<and> a \<le> u_hi q}) block'" for block'
    proof -
      have "dump_chars q s_length i block' [0..15] = map (\<lambda>j. if u_lo q \<le> i + j \<and> i + j \<le> u_hi q
          then char_of_byte (reg_at (rd_reg S c) (i + j)) else CHR '' '') [0..15]"
        using shown by (intro dump_chars_chip [OF row]) (auto simp: block_shows_def)
      then have eq: "out @ spec_rows (rd_reg S c) (u_lo q) (u_hi q) (i # is) =
          (?out1 @ (''   '' @ dump_chars q s_length i block' [0..15] @ [CHR 0x0A])) @ spec_rows (rd_reg S c) (u_lo q) (u_hi q) is"
        using 3 by (simp add: spec_rows_def spec_row_def)
      have len: "length block' = 256" and srt: "sorted is" "\<forall>i \<in> set is. 0 \<le> i \<and> i \<le> 240"
        using shown Cons.prems(2,3) by (simp_all add: block_shows_def)
      show ?thesis
        unfolding eq by (rule chip_print_then) (rule Cons.IH [OF row srt len])
    qed
    have "hoare (chip_out S (out @ hex_pad 2 i @ '': '') c)
        (do { block \<leftarrow> dump_cells (s_fd S) q s_length i (columns (u_size q)) block;
              _ \<leftarrow> print (''   '' @ dump_chars q s_length i block [0..15] @ [CHR 0x0A]);
              dump_rows (s_fd S) q s_length is block })
        (\<lambda>_. chip_out S (out @ spec_rows (rd_reg S c) (u_lo q) (u_hi q) (i # is)) c)"
      unfolding cells(1)
      by (rule hoare_bind [OF cells(2)]) (use next_row in \<open>fastforce simp: hoare_def\<close>)
    then show ?thesis
      using 3 row by (auto intro!: chip_print_then)
  qed
qed

text \<open>What \<open>i2cdump\<close> prints in byte mode, and the registers it sees with a bank.\<close>

definition spec_dump :: "(u8 \<Rightarrow> u8) \<Rightarrow> int \<Rightarrow> int \<Rightarrow> string" where
  "spec_dump m lo hi = byte_header @ spec_rows m lo hi (map (\<lambda>i. 16 * i) [0..15])"

text \<open>The chip after the switch to the bank of the parameters: the low bits of the bank register are set.\<close>

definition in_bank :: "dump_params \<Rightarrow> 'c site \<Rightarrow> 'c \<Rightarrow> 'c" where
  "in_bank q S c = (if u_bank q = 0 then c
     else wr_reg S (of_int (u_bankreg q)) (of_int (or (u_bank q) (and (reg_at (rd_reg S c) (u_bankreg q)) 0xf0))) c)"

text \<open>Writing back what was read undoes any write of the register.\<close>

definition undoes :: "'c site \<Rightarrow> u8 \<Rightarrow> bool" where
  "undoes S a \<longleftrightarrow> (\<forall>v c. wr_reg S a (rd_reg S c a) (wr_reg S a v c) = c)"

lemma banked_undoes: "undoes (banked_site br bus fd adr c0) a"
  by (auto simp: undoes_def banked_site_def wr_banked_def rd_banked_def fun_upd_idem)

lemma dump_tables_chip:
  assumes "u_size q = I2C_SMBUS_BYTE_DATA"
  shows "hoare (chip_out S out c) (dump_tables (s_fd S) q)
    (\<lambda>r w. r = Some 0 \<and> chip_out S (out @ spec_dump (rd_reg S c) (u_lo q) (u_hi q)) c w)"
proof -
  have sorted_rows: "sorted (map (\<lambda>i. 16 * i) [0..15 :: int])" "\<forall>i \<in> set (map (\<lambda>i. 16 * i) [0..15 :: int]). 0 \<le> i \<and> i \<le> 240"
    by code_simp+
  have rows: "hoare (chip_out S (out @ byte_header) c)
      (do { _ \<leftarrow> dump_rows (s_fd S) q 0 (map (\<lambda>i. 16 * i) [0..15]) block; State_Monad.return (Some 0) })
      (\<lambda>r w. r = Some 0 \<and> chip_out S (out @ spec_dump (rd_reg S c) (u_lo q) (u_hi q)) c w)"
    if "length block = 256" for block
    by (rule hoare_bind [OF dump_rows_chip [OF assms sorted_rows that]]) (simp add: hoare_def io_simps spec_dump_def)
  have junk: "hoare (chip_out S out c) junk_block (\<lambda>block w. length block = 256 \<and> chip_out S out c w)"
    by (auto simp: hoare_def io_simps)
  have printed: "hoare (chip_out S out c)
      (do { _ \<leftarrow> print byte_header;
            _ \<leftarrow> dump_rows (s_fd S) q 0 (map (\<lambda>i. 16 * i) [0..15]) block; State_Monad.return (Some 0) })
      (\<lambda>r w. r = Some 0 \<and> chip_out S (out @ spec_dump (rd_reg S c) (u_lo q) (u_hi q)) c w)"
    if "length block = 256" for block
    using rows [OF that] by (rule chip_print_then)
  have table: "hoare (\<lambda>w. length block = 256 \<and> chip_out S out c w) (dump_table (s_fd S) q block)
      (\<lambda>r w. r = Some 0 \<and> chip_out S (out @ spec_dump (rd_reg S c) (u_lo q) (u_hi q)) c w)" for block
    using printed [of block] assms by (auto simp: dump_table_def read_blocks_def hoare_def)
  have "hoare (chip_out S out c) (dump_bytes (s_fd S) q)
      (\<lambda>r w. r = Some 0 \<and> chip_out S (out @ spec_dump (rd_reg S c) (u_lo q) (u_hi q)) c w)"
    unfolding dump_bytes_def by (rule hoare_bind [OF junk table])
  then show ?thesis
    using assms by (simp add: dump_tables_def)
qed

lemma reg_at_range: "0 \<le> reg_at m a" "reg_at m a < 2 ^ 8" "of_int (reg_at m a) = m (of_int a)"
  using uint_lt2p [of "m (of_int a)"] by (simp_all add: reg_at_def)

text \<open>Switch, dump, restore: the chip ends as it was, the dump shows the bank.\<close>

lemma dump_chip_restores:
  assumes "u_size q = I2C_SMBUS_BYTE_DATA" "undoes S (of_int (u_bankreg q))"
  shows "hoare (chip_out S out c) (dump_chip (s_fd S) q)
    (\<lambda>r w. r = Some 0 \<and> chip_out S (out @ spec_dump (rd_reg S (in_bank q S c)) (u_lo q) (u_hi q)) c w)"
proof -
  let ?c = "in_bank q S c" and ?out = "out @ spec_dump (rd_reg S (in_bank q S c)) (u_lo q) (u_hi q)"
  let ?old = "if u_bank q = 0 then 0 else reg_at (rd_reg S c) (u_bankreg q)"
  have switch: "hoare (chip_out S out c) (switch_bank (s_fd S) q) (\<lambda>r w. r = Some ?old \<and> chip_out S out ?c w)"
    using assms(1)
    by (auto simp: switch_bank_def in_bank_def reg_at_def intro!: smbus_chip.read_then smbus_chip.write_then chip_return)
  have restore: "hoare (chip_out S ?out ?c) (do { _ \<leftarrow> restore_bank (s_fd S) q ?old; State_Monad.return (Some 0) })
      (\<lambda>r w. r = Some 0 \<and> chip_out S ?out c w)"
    using assms
    by (auto simp: restore_bank_def in_bank_def reg_at_range undoes_def intro!: smbus_chip.write_then chip_return)
  have tables: "hoare (chip_out S out ?c)
      (do { code \<leftarrow> dump_tables (s_fd S) q;
            if code \<noteq> Some 0 then State_Monad.return code
            else do { _ \<leftarrow> restore_bank (s_fd S) q ?old; State_Monad.return (Some 0) } })
      (\<lambda>r w. r = Some 0 \<and> chip_out S ?out c w)"
    by (rule hoare_bind [OF dump_tables_chip [OF assms(1)]]) (use restore in \<open>auto simp: hoare_def\<close>)
  show ?thesis
    unfolding dump_chip_def
    by (rule hoare_bind [OF switch]) (use tables in \<open>auto simp: hoare_def split: option.splits\<close>)
qed

text \<open>
  C40: with \<open>-y\<close> on a chip with banks of byte registers, chosen by any register of it, that answers at the
  given address of the given bus, whatever the descriptor of the bus is, \<open>i2cdump\<close> in byte mode ends with code 0
  and prints exactly the table of the registers of the range after the switch to the bank of the
  arguments; the chip, its bank and all registers of all banks included, is left as it was.
\<close>

theorem i2cdump_dumps_registers:
  assumes S: "S = banked_site br (int n) fd (parse_i2c_address (args ! 1) (u_all f)) c0" and "registers S c w"
    and "\<forall>h. has_func (r_funcs (w_kernel w h (Ioctl_funcs fd))) I2C_FUNC_SMBUS_READ_BYTE_DATA"
    and "dump_argv argv no_dump_flags = Some (f, args)" "u_yes f" "\<not> u_version f" "2 \<le> length args"
    and "strtoul (args ! 0) = (n, [])" "args ! 0 \<noteq> []" "n \<le> 0xFFFFF" "0 \<le> parse_i2c_address (args ! 1) (u_all f)"
    and "get_dump_params args (u_range f) = Some q" "u_size q = I2C_SMBUS_BYTE_DATA"
  shows "\<exists>w'. run_state (i2cdump_main argv) w = (Some 0, w') \<and> registers S c w' \<and>
      w_stdout w' = w_stdout w @ spec_dump (rd_banked br (in_bank q S c)) (u_lo q) (u_hi q)"
proof -
  have site: "s_bus S = int n" "s_fd S = fd" "s_adr S = parse_i2c_address (args ! 1) (u_all f)" "rd_reg S = rd_banked br"
    "undoes S a" for a
    using S banked_undoes by (simp_all add: banked_site_def)
  obtain name w1 where w1: "run_state (open_i2c_dev (int n) 20) w = ((s_fd S, name), w1)" "bus_open S c w1" "same_io w w1"
    using open_chip [OF assms(2)] assms(10) site by auto
  let ?w2 = "after w1 (Ioctl_funcs (s_fd S))"
  have "has_func (r_funcs (w_kernel w1 (w_trace w1) (Ioctl_funcs (s_fd S)))) I2C_FUNC_SMBUS_READ_BYTE_DATA"
    using assms(3) w1(3) site by (simp add: same_io_def)
  then have w2: "run_state (dump_check_funcs (s_fd S) I2C_SMBUS_BYTE_DATA (u_pec q)) w1 = (0, ?w2)" "bus_open S c ?w2"
    using funcs_chip [OF w1(2)] by (simp_all add: dump_check_funcs_def run_bind run_sys_after run_return Let_def)
  obtain w3 where w3: "run_state (set_slave_addr (s_fd S) (s_adr S) (u_force f)) ?w2 = (0, w3)" "chip_holds S c w3" "same_io ?w2 w3"
    using slave_chip [OF w2(2)] by blast
  have out: "chip_out S (w_stdout w) c w3"
    using w1(3) w3(2,3) by (simp add: same_io_def chip_out_def)
  let ?rest = "if u_pec q then do {
      r \<leftarrow> sys (Ioctl_pec (s_fd S) 1);
      if r_ret r < 0 then State_Monad.return (Some 1) else dump_confirmed (s_fd S) (u_yes f) q
    } else dump_confirmed (s_fd S) (u_yes f) q"
  have "hoare (chip_out S (w_stdout w) c) ?rest
      (\<lambda>r w'. r = Some 0 \<and> chip_out S (w_stdout w @ spec_dump (rd_reg S (in_bank q S c)) (u_lo q) (u_hi q)) c w')"
    using dump_chip_restores [OF assms(13) site(5), of "w_stdout w" c] assms(5)
    by (auto simp: dump_confirmed_def intro!: chip_pec_then)
  note rest = hoareD [OF this out]
  have "length args \<noteq> 0" "args \<noteq> []" "0 \<le> s_fd S"
    using assms(2,7) by (auto simp: registers_def opens_def)
  then have "run_state (i2cdump_main argv) w = run_state ?rest w3"
    using assms(4-) w1 w2 w3 site(1,3) lookup_number [OF assms(8,9,10), of w]
    by (simp add: i2cdump_main_def dump_run_def run_bind)
  then show ?thesis
    using rest chip_out_end site(4) by (fastforce simp: chip_end_def prod_eq_iff)
qed

text \<open>A chip whose register 0x4E chooses the bank, with 0x41 in bank 0 and 0x42 in the others: bank 1 is dumped.\<close>

definition demo_banks :: banks where
  "demo_banks = (0, \<lambda>b a. if b = 0 then 0x41 else 0x42)"

theorem i2cdump_dumps_registers_witness:
  "\<exists>w'. run_state (i2cdump_main [''-y'', ''-r'', ''0x10-0x1f'', ''3'', ''0x20'', ''b'', ''1''])
        (demo_world (demo_kernel (banked_site 0x4E 3 4 0x20 demo_banks)) []) = (Some 0, w') \<and>
      registers (banked_site 0x4E 3 4 0x20 demo_banks) demo_banks w' \<and>
      w_stdout w' = spec_dump (rd_banked 0x4E (1, snd demo_banks)) 0x10 0x1f"
proof -
  let ?f = "no_dump_flags\<lparr>u_yes := True, u_range := Some ''0x10-0x1f''\<rparr>" and ?args = "[''3'', ''0x20'', ''b'', ''1'']"
  let ?q = "\<lparr>u_size = I2C_SMBUS_BYTE_DATA, u_pec = False, u_even = False, u_bank = 1, u_bankreg = 0x4E, u_lo = 0x10, u_hi = 0x1f\<rparr>"
  let ?S = "banked_site 0x4E 3 4 0x20 demo_banks"
  let ?w = "demo_world (demo_kernel ?S) []"
  have flags: "dump_argv [''-y'', ''-r'', ''0x10-0x1f'', ''3'', ''0x20'', ''b'', ''1''] no_dump_flags = Some (?f, ?args)"
    "u_yes ?f" "\<not> u_version ?f" "2 \<le> length ?args"
    by (simp_all add: no_dump_flags_def char_at_def)
  have bus: "strtoul (?args ! 0) = (3, [])" "?args ! 0 \<noteq> []" "3 \<le> (0xFFFFF :: nat)"
    by (simp_all add: strtoul_def parse_number_def split_sign_def detect_base_def char_at_def is_space_def Let_def
        is_digit_def digit_val_def digits_value_def)
  have addr: "parse_i2c_address (?args ! 1) (u_all ?f) = 0x20"
    by code_simp
  have S: "?S = banked_site 0x4E (int 3) 4 (parse_i2c_address (?args ! 1) (u_all ?f)) demo_banks" "0 \<le> parse_i2c_address (?args ! 1) (u_all ?f)"
    unfolding addr by simp_all
  have params: "get_dump_params ?args (u_range ?f) = Some ?q" "u_size ?q = I2C_SMBUS_BYTE_DATA"
    by code_simp+
  have chip: "registers ?S demo_banks ?w"
    "\<forall>h. has_func (r_funcs (w_kernel ?w h (Ioctl_funcs 4))) I2C_FUNC_SMBUS_READ_BYTE_DATA"
    using demo_kernel_ok [of ?S "[]"]
    by (simp_all add: banked_site_def) (simp add: demo_kernel_def demo_world_def has_func_def i2c_func_defs)
  have bank: "in_bank ?q ?S demo_banks = (1, snd demo_banks)"
    by (simp add: in_bank_def banked_site_def wr_banked_def rd_banked_def reg_at_def demo_banks_def)
  from i2cdump_dumps_registers [OF S(1) chip flags bus S(2) params] bank show ?thesis
    by (auto simp: demo_world_def)
qed

section \<open>No overrun of the block buffers\<close>

text \<open>Each round adds at most 32 bytes to at most 255, and at least one.\<close>

lemma read_i2c_blocks_ok:
  assumes "block_kernel k" "256 \<le> length cblock + fuel"
  shows "under k (read_i2c_blocks fuel fd cblock) (\<lambda>r. r \<noteq> None)"
  using assms(2)
proof (induction fuel arbitrary: cblock)
  case 0
  then show ?case by (subst read_i2c_blocks.simps) (simp add: under_return)
next
  case (Suc fuel)
  have round: "under k (case i of None \<Rightarrow> State_Monad.return None
      | Some (i, bytes) \<Rightarrow>
          if length cblock + length bytes > cblock_size then State_Monad.return None
          else if i \<le> 0 then State_Monad.return (Some (i, cblock))
          else read_i2c_blocks fuel fd (cblock @ bytes)) (\<lambda>r. r \<noteq> None)"
    if "block_ok i" "length cblock < 256" for i
  proof -
    obtain n bytes where i: "i = Some (n, bytes)" "n \<le> 32" "length bytes = nat n"
      using \<open>block_ok i\<close> by (auto simp: block_ok_def)
    then have "length cblock + length bytes \<le> cblock_size" "0 < n \<longrightarrow> 256 \<le> length (cblock @ bytes) + fuel"
      using that(2) Suc.prems by (auto simp: cblock_size_def)
    then show ?thesis
      using i(1) Suc.IH [of "cblock @ bytes"] by (auto simp: under_return)
  qed
  show ?case
    using round by (subst read_i2c_blocks.simps)
      (auto simp: Let_def intro!: under_return under_bind [OF under_blocks(2) [OF assms(1)]])
qed

lemma under_read_blocks:
  assumes "block_kernel k"
  shows "under k (read_blocks fd q block) (\<lambda>b. b \<noteq> Block_undefined)"
  unfolding read_blocks_def
  by (auto simp: block_ok_def split: option.splits if_splits intro!: under_return under_bind [OF under_blocks(1) [OF assms]]
      under_bind [OF read_i2c_blocks_ok [OF assms]])

lemma under_cells: "under k (dump_cells fd q s_length i js block) (\<lambda>_. True)"
  by (induction js arbitrary: block)
    (auto simp: dump_fetch_def intro!: under_rules under_smbus split: smbus_size.splits)

lemma under_rows: "under k (dump_rows fd q s_length is block) (\<lambda>_. True)"
  by (induction "is" arbitrary: block) (auto intro!: under_rules under_cells)

lemma under_words: "under k (dump_words fd q as) (\<lambda>_. True)"
  by (induction as) (auto intro!: under_rules under_smbus)

lemma under_word_rows: "under k (dump_word_rows fd q is) (\<lambda>_. True)"
  by (induction "is") (auto intro!: under_rules under_words)

lemma under_tables:
  assumes "block_kernel k"
  shows "under k (dump_tables fd q) (\<lambda>r. r \<noteq> None)"
  by (auto simp: dump_tables_def dump_bytes_def dump_table_def
      intro!: under_rules under_rows under_word_rows under_smbus under_bind [OF under_read_blocks [OF assms]]
      split: block_read.splits)

lemma under_dump_chip:
  assumes "block_kernel k"
  shows "under k (dump_chip fd q) (\<lambda>r. r \<noteq> None)"
proof -
  have switch: "under k (switch_bank fd q) (\<lambda>_. True)"
    by (auto simp: switch_bank_def Let_def intro!: under_rules under_smbus)
  have restore: "under k (restore_bank fd q old) (\<lambda>_. True)" for old
    by (auto simp: restore_bank_def intro!: under_rules under_smbus)
  show ?thesis
    by (auto simp: dump_chip_def intro!: under_rules under_any [OF switch] under_any [OF restore]
        under_bind [OF under_tables [OF assms]] split: option.splits)
qed

text \<open>
  When the kernel keeps the promise of block reads (at most 32 bytes each), no store of
  \<open>i2cdump\<close> goes past \<open>cblock\<close> and no read past a union, in any mode and with any answers; the
  loop of I2C block reads ends.
\<close>

theorem i2cdump_no_overrun:
  assumes "block_kernel (w_kernel w)"
  shows "fst (run_state (dump_run f i2cbus address q) w) \<noteq> None"
proof -
  let ?k = "w_kernel w"
  have confirmed: "under ?k (dump_confirmed fd yes q) (\<lambda>r. r \<noteq> None)" for fd yes
    by (auto simp: dump_confirmed_def user_ack_def simp del: not_None_eq intro!: under_rules under_dump_chip assms)
  have "under ?k (open_i2c_dev i2cbus 20) (\<lambda>_. True)"
    by (auto simp: open_i2c_dev_def Let_def intro!: under_rules)
  moreover have "under ?k (dump_check_funcs fd (u_size q) (u_pec q)) (\<lambda>_. True)" for fd
    by (auto simp: dump_check_funcs_def Let_def intro!: under_rules)
  moreover have "under ?k (set_slave_addr fd address (u_force f)) (\<lambda>_. True)" for fd
    by (auto simp: set_slave_addr_def intro!: under_rules)
  ultimately have "under ?k (dump_run f i2cbus address q) (\<lambda>r. r \<noteq> None)"
    unfolding dump_run_def
    by (auto simp del: not_None_eq intro!: under_any [where m = "open_i2c_dev i2cbus 20"] under_rules confirmed)
  then show ?thesis
    by (simp add: under_def hoare_def)
qed

definition block_demo :: "(call \<times> resp) list \<Rightarrow> call \<Rightarrow> resp" where
  "block_demo h c = \<lparr>r_ret = 0, r_errno = 0, r_data = [3, 1, 2, 3], r_funcs = 0x0FFF8009, r_text = [], r_names = []\<rparr>"

theorem i2cdump_no_overrun_witness:
  "fst (run_state (dump_run no_dump_flags 0 0x50 \<lparr>u_size = I2C_SMBUS_I2C_BLOCK_DATA, u_pec = False, u_even = False,
     u_bank = 0, u_bankreg = 0x4E, u_lo = 0, u_hi = 0xff\<rparr>) (demo_world block_demo [CHR 0x0A])) \<noteq> None"
  by (rule i2cdump_no_overrun) (simp add: block_kernel_def block_demo_def demo_world_def I2C_SMBUS_BLOCK_MAX_def Let_def)

section \<open>A failure leaves the bank switched\<close>

text \<open>Plain registers, open and chosen, that do not acknowledge a send byte.\<close>

definition mute_chip :: "(u8 \<Rightarrow> u8) \<Rightarrow> (call \<times> resp) list \<Rightarrow> call \<Rightarrow> resp" where
  "mute_chip m h c = (case c of
     Ioctl_smbus fd rw command I2C_SMBUS_BYTE data \<Rightarrow> (demo_chip m h c)\<lparr>r_ret := -1, r_errno := 6\<rparr>
   | _ \<Rightarrow> demo_chip m h c)"

text \<open>
  In consecutive mode with a bank, a failure to write the start address ends \<open>i2cdump\<close> with
  code 1 after the bank was switched, and the bank register is not restored: the last byte-data transfer
  has set register 0x4E, which was 0, to 1.
\<close>

theorem i2cdump_failure_keeps_bank:
  "\<exists>w' r. run_state (dump_chip 4 \<lparr>u_size = I2C_SMBUS_BYTE, u_pec = False, u_even = False, u_bank = 1, u_bankreg = 0x4E,
      u_lo = 0, u_hi = 0xff\<rparr>) (demo_world (mute_chip (\<lambda>_. 0)) []) = (Some 1, w') \<and>
    (\<exists>data. w_trace w' ! 1 = (Ioctl_smbus 4 I2C_SMBUS_WRITE 0x4E I2C_SMBUS_BYTE_DATA (Some data), r) \<and> data ! 0 = 1 \<and> r_ret r = 0) \<and>
    length (w_trace w') = 3 \<and> (\<exists>r'. w_trace w' ! 2 = (Ioctl_smbus 4 I2C_SMBUS_WRITE 0 I2C_SMBUS_BYTE None, r') \<and> r_ret r' = -1)"
proof -
  have "or 1 (and 0 0xf0 :: int) = 1"
    by simp
  then show ?thesis
    by (simp add: dump_chip_def switch_bank_def dump_tables_def dump_bytes_def dump_table_def read_blocks_def Let_def io_simps
        i2c_smbus_read_byte_data_def i2c_smbus_write_byte_data_def i2c_smbus_write_byte_def i2c_smbus_access_def
        i2c_smbus_access_null_def demo_world_def mute_chip_def demo_chip_def demo_kernel_def kernel_writes_def put_byte_def smbus_consts
        plain_site_def chip_state_def)
qed

end
