(* ===== verification/I2cDetect.thy ===== *)
theory I2cDetect
  imports Smbus I2cBusses "HOL-Library.Sublist"
begin

text \<open>
  \<open>i2cdetect.c\<close>: probe the addresses of a bus, list the busses, or list what an adapter can
  do. The loops over rows and columns run over the lists of their indices.
\<close>

section \<open>Flags\<close>

datatype detect_mode = MODE_AUTO | MODE_QUICK | MODE_READ | MODE_FUNC

record detect_flags =
  d_mode :: detect_mode
  d_first :: int
  d_last :: int
  d_yes :: bool
  d_version :: bool
  d_list :: bool

definition no_detect_flags :: detect_flags where
  "no_detect_flags = \<lparr>d_mode = MODE_AUTO, d_first = 0x03, d_last = 0x77, d_yes = False, d_version = False, d_list = False\<rparr>"

text \<open>\<open>None\<close>: an unsupported option, or two modes that exclude each other.\<close>

fun detect_argv :: "string list \<Rightarrow> detect_flags \<Rightarrow> (detect_flags \<times> string list) option" where
  "detect_argv [] f = Some (f, [])"
| "detect_argv (a # args) f =
     (if char_at a 0 = CHR ''-'' then
        (if char_at a 1 = CHR ''V'' then detect_argv args (f\<lparr>d_version := True\<rparr>)
         else if char_at a 1 = CHR ''y'' then detect_argv args (f\<lparr>d_yes := True\<rparr>)
         else if char_at a 1 = CHR ''l'' then detect_argv args (f\<lparr>d_list := True\<rparr>)
         else if char_at a 1 = CHR ''F'' then
           (if d_mode f \<noteq> MODE_AUTO \<and> d_mode f \<noteq> MODE_FUNC then None
            else detect_argv args (f\<lparr>d_mode := MODE_FUNC\<rparr>))
         else if char_at a 1 = CHR ''r'' then
           (if d_mode f = MODE_QUICK then None else detect_argv args (f\<lparr>d_mode := MODE_READ\<rparr>))
         else if char_at a 1 = CHR ''q'' then
           (if d_mode f = MODE_READ then None else detect_argv args (f\<lparr>d_mode := MODE_QUICK\<rparr>))
         else if char_at a 1 = CHR ''a'' then detect_argv args (f\<lparr>d_first := 0x00, d_last := 0x7F\<rparr>)
         else None)
      else Some (f, a # args))"

section \<open>Scanning a bus\<close>

text \<open>One address; \<open>False\<close> stops the scan.\<close>

definition probe :: "int \<Rightarrow> detect_mode \<Rightarrow> int \<Rightarrow> int io" where
  "probe fd mode a =
     (case mode of
        MODE_QUICK \<Rightarrow> i2c_smbus_write_quick fd I2C_SMBUS_WRITE
      | MODE_READ \<Rightarrow> i2c_smbus_read_byte fd
      | _ \<Rightarrow> if a \<ge> 0x30 \<and> a \<le> 0x37 \<or> a \<ge> 0x50 \<and> a \<le> 0x5F then i2c_smbus_read_byte fd
             else i2c_smbus_write_quick fd I2C_SMBUS_WRITE)"

definition scan_cell :: "int \<Rightarrow> detect_mode \<Rightarrow> int \<Rightarrow> int \<Rightarrow> int \<Rightarrow> bool io" where
  "scan_cell fd mode lo hi a =
     (if a < lo \<or> a > hi then do { _ \<leftarrow> print ''   ''; State_Monad.return True }
      else do {
        r \<leftarrow> sys (Ioctl_slave fd False a);
        if r_ret r < 0 then
          (if r_errno r = EBUSY then do { _ \<leftarrow> print ''UU ''; State_Monad.return True }
           else State_Monad.return False)
        else do {
          res \<leftarrow> probe fd mode a;
          _ \<leftarrow> print (if res < 0 then ''-- '' else hex_pad 2 a @ '' '');
          State_Monad.return True
        }
      })"

primrec scan_row :: "int \<Rightarrow> detect_mode \<Rightarrow> int \<Rightarrow> int \<Rightarrow> int list \<Rightarrow> bool io" where
  "scan_row fd mode lo hi [] = State_Monad.return True"
| "scan_row fd mode lo hi (a # as) = do {
     ok \<leftarrow> scan_cell fd mode lo hi a;
     if ok then scan_row fd mode lo hi as else State_Monad.return False
   }"

primrec scan_rows :: "int \<Rightarrow> detect_mode \<Rightarrow> int \<Rightarrow> int \<Rightarrow> int list \<Rightarrow> bool io" where
  "scan_rows fd mode lo hi [] = State_Monad.return True"
| "scan_rows fd mode lo hi (i # is) = do {
     _ \<leftarrow> print (hex_pad 2 i @ '': '');
     ok \<leftarrow> scan_row fd mode lo hi (map (\<lambda>j. i + j) [0..15]);
     if ok then do {
       _ \<leftarrow> print [CHR 0x0A];
       scan_rows fd mode lo hi is
     } else State_Monad.return False
   }"

definition scan_i2c_bus :: "int \<Rightarrow> detect_mode \<Rightarrow> int \<Rightarrow> int \<Rightarrow> int io" where
  "scan_i2c_bus fd mode lo hi = do {
     _ \<leftarrow> print (''     0  1  2  3  4  5  6  7  8  9  a  b  c  d  e  f'' @ [CHR 0x0A]);
     ok \<leftarrow> scan_rows fd mode lo hi (map (\<lambda>i. 16 * i) [0..7]);
     State_Monad.return (if ok then 0 else -1)
   }"

section \<open>Functionality\<close>

definition all_func :: "(u64 \<times> string) list" where
  "all_func =
    [(I2C_FUNC_I2C, ''I2C''),
     (I2C_FUNC_SMBUS_QUICK, ''SMBus Quick Command''),
     (I2C_FUNC_SMBUS_WRITE_BYTE, ''SMBus Send Byte''),
     (I2C_FUNC_SMBUS_READ_BYTE, ''SMBus Receive Byte''),
     (I2C_FUNC_SMBUS_WRITE_BYTE_DATA, ''SMBus Write Byte''),
     (I2C_FUNC_SMBUS_READ_BYTE_DATA, ''SMBus Read Byte''),
     (I2C_FUNC_SMBUS_WRITE_WORD_DATA, ''SMBus Write Word''),
     (I2C_FUNC_SMBUS_READ_WORD_DATA, ''SMBus Read Word''),
     (I2C_FUNC_SMBUS_PROC_CALL, ''SMBus Process Call''),
     (I2C_FUNC_SMBUS_WRITE_BLOCK_DATA, ''SMBus Block Write''),
     (I2C_FUNC_SMBUS_READ_BLOCK_DATA, ''SMBus Block Read''),
     (I2C_FUNC_SMBUS_BLOCK_PROC_CALL, ''SMBus Block Process Call''),
     (I2C_FUNC_SMBUS_PEC, ''SMBus PEC''),
     (I2C_FUNC_SMBUS_WRITE_I2C_BLOCK, ''I2C Block Write''),
     (I2C_FUNC_SMBUS_READ_I2C_BLOCK, ''I2C Block Read''),
     (0, '''')]"

fun print_funcs :: "(u64 \<times> string) list \<Rightarrow> u64 \<Rightarrow> unit io" where
  "print_funcs [] funcs = State_Monad.return ()"
| "print_funcs ((v, name) # rest) funcs =
     (if v = 0 then State_Monad.return ()
      else do {
        _ \<leftarrow> print (pad_right 32 name @ '' '' @ (if has_func funcs v then ''yes'' else ''no'') @ [CHR 0x0A]);
        print_funcs rest funcs
      })"

definition print_functionality :: "u64 \<Rightarrow> unit io" where
  "print_functionality funcs = print_funcs all_func funcs"

section \<open>The list of the busses\<close>

text \<open>\<open>False\<close>: a read past the array.\<close>

fun print_adapters :: "adapters \<Rightarrow> bool io" where
  "print_adapters [] = State_Monad.return False"
| "print_adapters (None # rest) = State_Monad.return True"
| "print_adapters (Some a # rest) = do {
     _ \<leftarrow> print (''i2c-'' @ dec_int (a_nr a) @ [CHR 0x09] @ pad_right 10 (a_funcs a) @ [CHR 0x09] @
       pad_right 32 (a_name a) @ [CHR 0x09] @ a_algo a @ [CHR 0x0A]);
     print_adapters rest
   }"

definition print_i2c_busses :: "bool io" where
  "print_i2c_busses = do {
     g \<leftarrow> gather_i2c_busses;
     case g of Undefined \<Rightarrow> State_Monad.return False
     | No_memory \<Rightarrow> State_Monad.return True
     | Adapters adapters \<Rightarrow> print_adapters adapters
   }"

section \<open>main\<close>

text \<open>The range: both ends are numbers between the limits, the second not below the lo.\<close>

definition detect_range :: "detect_flags \<Rightarrow> string list \<Rightarrow> (int \<times> int) option" where
  "detect_range f args =
     (if length args = 3 \<and> d_mode f \<noteq> MODE_FUNC then
        let (n, rest) = strtol (args ! 1); tmp = to_int n in
        if rest \<noteq> [] \<or> tmp < d_first f \<or> tmp > d_last f then None
        else
          let lo = tmp; (n, rest) = strtol (args ! 2); tmp = to_int n in
          if rest \<noteq> [] \<or> tmp < lo \<or> tmp > d_last f then None
          else Some (lo, tmp)
      else if length args \<noteq> 1 then None
      else Some (d_first f, d_last f))"

definition ack_char :: "bool io" where
  "ack_char = read_stdin (\<lambda>str. case str of [] \<Rightarrow> (False, [])
     | c # rest \<Rightarrow> (c \<in> {CHR 0x0A, CHR ''y'', CHR ''Y''}, rest))"

definition detect_scan :: "int \<Rightarrow> detect_flags \<Rightarrow> int \<Rightarrow> int \<Rightarrow> int io" where
  "detect_scan fd f lo hi = do {
     ok \<leftarrow> (if d_yes f then State_Monad.return True else ack_char);
     if \<not> ok then State_Monad.return 0
     else do {
       res \<leftarrow> scan_i2c_bus fd (d_mode f) lo hi;
       _ \<leftarrow> sys (Close fd);
       State_Monad.return (if res \<noteq> 0 then 1 else 0)
     }
   }"

definition detect_run :: "detect_flags \<Rightarrow> int \<Rightarrow> int \<Rightarrow> int \<Rightarrow> int io" where
  "detect_run f i2cbus lo hi = do {
     (fd, filename) \<leftarrow> open_i2c_dev i2cbus 20;
     if fd < 0 then State_Monad.return 1
     else do {
       r \<leftarrow> sys (Ioctl_funcs fd);
       let funcs = r_funcs r;
       if r_ret r < 0 then do { _ \<leftarrow> sys (Close fd); State_Monad.return 1 }
       else if d_mode f = MODE_FUNC then do {
         _ \<leftarrow> sys (Close fd);
         _ \<leftarrow> print (''Functionalities implemented by '' @ filename @ '':'' @ [CHR 0x0A]);
         _ \<leftarrow> print_functionality funcs;
         State_Monad.return 0
       }
       else if d_mode f \<noteq> MODE_READ \<and> \<not> has_func funcs I2C_FUNC_SMBUS_QUICK then
         do { _ \<leftarrow> sys (Close fd); State_Monad.return 1 }
       else if d_mode f \<noteq> MODE_QUICK \<and> \<not> has_func funcs I2C_FUNC_SMBUS_READ_BYTE then
         do { _ \<leftarrow> sys (Close fd); State_Monad.return 1 }
       else detect_scan fd f lo hi
     }
   }"

definition i2cdetect_main :: "string list \<Rightarrow> int option io" where
  "i2cdetect_main argv =
     (case detect_argv argv no_detect_flags of None \<Rightarrow> State_Monad.return (Some 1)
      | Some (f, args) \<Rightarrow>
          if d_version f then State_Monad.return (Some 0)
          else if d_list f then do {
            ok \<leftarrow> print_i2c_busses;
            State_Monad.return (if ok then Some 0 else None)
          }
          else if args = [] then State_Monad.return (Some 1)
          else do {
            b \<leftarrow> lookup_i2c_bus (args ! 0);
            case b of None \<Rightarrow> State_Monad.return None
            | Some i2cbus \<Rightarrow>
                if i2cbus < 0 then State_Monad.return (Some 1)
                else (case detect_range f args of None \<Rightarrow> State_Monad.return (Some 1)
                  | Some (lo, hi) \<Rightarrow> do {
                      code \<leftarrow> detect_run f i2cbus lo hi;
                      State_Monad.return (Some code)
                    })
          })"

section \<open>Which addresses are probed, and how\<close>

text \<open>The chips chosen, and each transfer with the chip it went to, as the history shows them.\<close>

definition chosen :: "(call \<times> resp) list \<Rightarrow> int list" where
  "chosen h = concat (map (\<lambda>(c, r). case c of Ioctl_slave _ _ a \<Rightarrow> [a] | _ \<Rightarrow> []) h)"

fun log_step :: "int option \<times> (int option \<times> call) list \<Rightarrow> call \<times> resp \<Rightarrow> int option \<times> (int option \<times> call) list" where
  "log_step (cur, log) (Ioctl_slave fd force a, r) = (if r_ret r < 0 then cur else Some a, log)"
| "log_step (cur, log) (c, r) = (cur, if is_transfer c then log @ [(cur, c)] else log)"

definition chip_log :: "(call \<times> resp) list \<Rightarrow> int option \<times> (int option \<times> call) list" where
  "chip_log h = foldl log_step (None, []) h"

lemma chosen_snoc: "chosen (h @ [(c, r)]) = chosen h @ (case c of Ioctl_slave _ _ a \<Rightarrow> [a] | _ \<Rightarrow> [])"
  by (simp add: chosen_def)

lemma chip_log_snoc: "chip_log (h @ [x]) = log_step (chip_log h) x"
  by (simp add: chip_log_def)

definition is_quick :: "call \<Rightarrow> bool" where
  "is_quick c = (case c of Ioctl_smbus _ rw _ I2C_SMBUS_QUICK None \<Rightarrow> rw = I2C_SMBUS_WRITE | _ \<Rightarrow> False)"

definition is_byte_read :: "call \<Rightarrow> bool" where
  "is_byte_read c = (case c of Ioctl_smbus _ rw _ I2C_SMBUS_BYTE (Some _) \<Rightarrow> rw = I2C_SMBUS_READ | _ \<Rightarrow> False)"

text \<open>The transfer that suits a mode and an address.\<close>

definition right_probe :: "detect_mode \<Rightarrow> int \<Rightarrow> call \<Rightarrow> bool" where
  "right_probe mode a c = (case mode of MODE_QUICK \<Rightarrow> is_quick c | MODE_READ \<Rightarrow> is_byte_read c
     | _ \<Rightarrow> if 0x30 \<le> a \<and> a \<le> 0x37 \<or> 0x50 \<le> a \<and> a \<le> 0x5F then is_byte_read c else is_quick c)"

text \<open>Every transfer of the history went to an address of the range and suits it.\<close>

definition probes_ok :: "detect_mode \<Rightarrow> int \<Rightarrow> int \<Rightarrow> world \<Rightarrow> bool" where
  "probes_ok mode lo hi w \<longleftrightarrow>
     (\<forall>(cur, c) \<in> set (snd (chip_log (w_trace w))). \<exists>a. cur = Some a \<and> lo \<le> a \<and> a \<le> hi \<and> right_probe mode a c)"

lemma probe_step:
  assumes "fst (chip_log (w_trace w)) = Some a" "lo \<le> a" "a \<le> hi" "probes_ok mode lo hi w"
  shows "probes_ok mode lo hi (snd (run_state (probe fd mode a) w)) \<and>
    chosen (w_trace (snd (run_state (probe fd mode a) w))) = chosen (w_trace w)"
proof -
  obtain log where log: "chip_log (w_trace w) = (Some a, log)"
    using assms(1) by (cases "chip_log (w_trace w)") auto
  show ?thesis
    using assms(2-) log
    by (cases mode) (auto simp: probe_def smbus_defs i2c_smbus_access_def i2c_smbus_access_null_def Let_def io_simps
        probes_ok_def chip_log_snoc chosen_snoc right_probe_def is_quick_def is_byte_read_def smbus_consts)
qed

text \<open>One cell chooses its address when it is in the range, and keeps the record clean.\<close>

lemma scan_cell_step:
  assumes "probes_ok mode lo hi w"
  shows "probes_ok mode lo hi (snd (run_state (scan_cell fd mode lo hi a) w)) \<and>
    chosen (w_trace (snd (run_state (scan_cell fd mode lo hi a) w))) =
      chosen (w_trace w) @ (if lo \<le> a \<and> a \<le> hi then [a] else [])"
proof (cases "lo \<le> a \<and> a \<le> hi")
  case True
  let ?r = "w_kernel w (w_trace w) (Ioctl_slave fd False a)"
  let ?w1 = "w\<lparr>w_trace := w_trace w @ [(Ioctl_slave fd False a, ?r)]\<rparr>"
  obtain cur log where log: "chip_log (w_trace w) = (cur, log)"
    by (cases "chip_log (w_trace w)")
  have w1: "probes_ok mode lo hi ?w1" "chosen (w_trace ?w1) = chosen (w_trace w) @ [a]"
    using assms log by (simp_all add: probes_ok_def chip_log_snoc chosen_snoc)
  show ?thesis
  proof (cases "r_ret ?r < 0")
    case True
    then show ?thesis
      using w1 \<open>lo \<le> a \<and> a \<le> hi\<close> by (simp add: scan_cell_def io_simps probes_ok_def)
  next
    case False
    then have "fst (chip_log (w_trace ?w1)) = Some a"
      using log by (simp add: chip_log_snoc)
    then show ?thesis
      using probe_step [of ?w1 a lo hi mode fd] w1 False True
      by (simp add: scan_cell_def io_simps probes_ok_def)
  qed
next
  case False
  then show ?thesis
    using assms by (auto simp: scan_cell_def io_simps probes_ok_def)
qed

text \<open>A part of the scan over the addresses \<open>as\<close>: all of them, or a first part when it stops.\<close>

definition scanned :: "detect_mode \<Rightarrow> int \<Rightarrow> int \<Rightarrow> int list \<Rightarrow> bool io \<Rightarrow> bool" where
  "scanned mode lo hi as m \<longleftrightarrow>
     (\<forall>w. probes_ok mode lo hi w \<longrightarrow>
        probes_ok mode lo hi (snd (run_state m w)) \<and>
        (\<exists>ad. chosen (w_trace (snd (run_state m w))) = chosen (w_trace w) @ ad \<and>
           prefix ad (filter (\<lambda>a. lo \<le> a \<and> a \<le> hi) as) \<and>
           (fst (run_state m w) \<longrightarrow> ad = filter (\<lambda>a. lo \<le> a \<and> a \<le> hi) as)))"

lemma scanned_cell: "scanned mode lo hi [a] (scan_cell fd mode lo hi a)"
  using scan_cell_step [of mode lo hi] by (auto simp: scanned_def)

lemma scanned_done: "scanned mode lo hi [] (State_Monad.return b)"
  by (simp add: scanned_def io_simps)

lemma scanned_seq:
  assumes "scanned mode lo hi as m" "scanned mode lo hi bs n"
  shows "scanned mode lo hi (as @ bs) (do { ok \<leftarrow> m; if ok then n else State_Monad.return False })"
  unfolding scanned_def
proof (intro allI impI)
  fix w
  assume ok: "probes_ok mode lo hi w"
  obtain b w1 where m: "run_state m w = (b, w1)"
    by fastforce
  obtain d where d: "probes_ok mode lo hi w1" "chosen (w_trace w1) = chosen (w_trace w) @ d"
      "prefix d (filter (\<lambda>a. lo \<le> a \<and> a \<le> hi) as)" "b \<longrightarrow> d = filter (\<lambda>a. lo \<le> a \<and> a \<le> hi) as"
    using assms(1) ok m by (auto simp: scanned_def)
  let ?n = "do { ok \<leftarrow> m; if ok then n else State_Monad.return False }"
  show "probes_ok mode lo hi (snd (run_state ?n w)) \<and>
      (\<exists>ad. chosen (w_trace (snd (run_state ?n w))) = chosen (w_trace w) @ ad \<and>
        prefix ad (filter (\<lambda>a. lo \<le> a \<and> a \<le> hi) (as @ bs)) \<and>
        (fst (run_state ?n w) \<longrightarrow> ad = filter (\<lambda>a. lo \<le> a \<and> a \<le> hi) (as @ bs)))"
  proof (cases b)
    case True
    then show ?thesis
      using assms(2) d m by (auto simp: scanned_def io_simps)
  next
    case False
    then show ?thesis
      using d m by (auto simp: io_simps)
  qed
qed

lemma scanned_print:
  assumes "scanned mode lo hi as m"
  shows "scanned mode lo hi as (do { _ \<leftarrow> print s; m })"
  unfolding scanned_def
proof (intro allI impI)
  fix w
  assume "probes_ok mode lo hi w"
  then have "probes_ok mode lo hi (w\<lparr>w_stdout := w_stdout w @ s\<rparr>)"
    by (simp add: probes_ok_def)
  then show "probes_ok mode lo hi (snd (run_state (do { _ \<leftarrow> print s; m }) w)) \<and>
      (\<exists>ad. chosen (w_trace (snd (run_state (do { _ \<leftarrow> print s; m }) w))) = chosen (w_trace w) @ ad \<and>
        prefix ad (filter (\<lambda>a. lo \<le> a \<and> a \<le> hi) as) \<and>
        (fst (run_state (do { _ \<leftarrow> print s; m }) w) \<longrightarrow> ad = filter (\<lambda>a. lo \<le> a \<and> a \<le> hi) as))"
    using assms unfolding scanned_def run_bind run_print by fastforce
qed

lemma scanned_row: "scanned mode lo hi as (scan_row fd mode lo hi as)"
proof (induction as)
  case (Cons a as)
  then show ?case
    using scanned_seq [OF scanned_cell Cons, of a] by simp
qed (simp add: scanned_done)

lemma scanned_rows:
  "scanned mode lo hi (concat (map (\<lambda>i. map (\<lambda>j. i + j) [0..15]) is)) (scan_rows fd mode lo hi is)"
proof (induction "is")
  case (Cons i "is")
  have "scanned mode lo hi (map (\<lambda>j. i + j) [0..15] @ concat (map (\<lambda>i. map (\<lambda>j. i + j) [0..15]) is))
      (do { ok \<leftarrow> scan_row fd mode lo hi (map (\<lambda>j. i + j) [0..15]);
            if ok then do { _ \<leftarrow> print [CHR 0x0A]; scan_rows fd mode lo hi is } else State_Monad.return False })"
    by (intro scanned_seq scanned_row scanned_print Cons)
  from scanned_print [OF this] show ?case
    by simp
qed (simp add: scanned_done)

lemma all_addresses: "concat (map (\<lambda>i. map (\<lambda>j. i + j) [0..15]) (map (\<lambda>i. 16 * i) [0..7 :: int])) = [0..127]"
  by code_simp

text \<open>
  \<open>scan_i2c_bus\<close> chooses, in ascending order and once each, exactly the addresses of the
  range among 0x00 to 0x7f (a first part of them when it returns -1), and every transfer
  it makes goes to the address just chosen and is the one that mode and address call for:
  in automatic mode never a quick write to an EEPROM address.
\<close>

theorem scan_probes_range:
  assumes "w_trace w = []" "run_state (scan_i2c_bus fd mode lo hi) w = (res, w')"
  shows "probes_ok mode lo hi w' \<and> res \<in> {0, -1} \<and>
    prefix (chosen (w_trace w')) (filter (\<lambda>a. lo \<le> a \<and> a \<le> hi) [0..127]) \<and>
    (res = 0 \<longrightarrow> chosen (w_trace w') = filter (\<lambda>a. lo \<le> a \<and> a \<le> hi) [0..127])"
proof -
  have start: "probes_ok mode lo hi w" "chosen (w_trace w) = []"
    using assms(1) by (simp_all add: probes_ok_def chip_log_def chosen_def)
  have "scanned mode lo hi [0..127]
      (do { _ \<leftarrow> print (''     0  1  2  3  4  5  6  7  8  9  a  b  c  d  e  f'' @ [CHR 0x0A]);
            scan_rows fd mode lo hi (map (\<lambda>i. 16 * i) [0..7]) })"
    using scanned_print [OF scanned_rows [of mode lo hi "map (\<lambda>i. 16 * i) [0..7]" fd]]
    by (simp only: all_addresses)
  from this [unfolded scanned_def, rule_format, OF start(1)] show ?thesis
    using start(2) assms(2) by (auto simp: scan_i2c_bus_def run_bind run_return split: if_splits)
qed

definition probe_world :: world where
  "probe_world = \<lparr>w_kernel = (\<lambda>h c. \<lparr>r_ret = (if c = Ioctl_slave 3 False 0x51 then -1 else 0), r_errno = 16,
     r_data = [], r_funcs = 0, r_text = [], r_names = []\<rparr>), w_trace = [], w_stdin = [], w_stdout = [],
     w_junk = [], w_junk_ints = []\<rparr>"

theorem scan_probes_range_witness:
  "probes_ok MODE_AUTO 0x50 0x52 (snd (run_state (scan_i2c_bus 3 MODE_AUTO 0x50 0x52) probe_world))"
  using scan_probes_range [of probe_world 3 MODE_AUTO "0x50" "0x52"]
  by (auto simp: probe_world_def prod_eq_iff)

section \<open>No probe without consent\<close>

lemma ack_char_quiet:
  "str = [] \<or> hd str \<notin> {CHR 0x0A, CHR ''y'', CHR ''Y''} \<Longrightarrow>
    hoare (quiet p str) ack_char (\<lambda>ok w. \<not> ok \<and> all_calls p w)"
  by (cases str) (auto simp: hoare_def ack_char_def quiet_def all_calls_def io_simps)

lemma print_funcs_quiet: "keeps (quiet p str) (print_funcs fs funcs)"
  by (induction fs funcs rule: print_funcs.induct) (auto intro!: quiet_rules)

lemma print_adapters_quiet: "keeps (quiet p str) (print_adapters adapters)"
  by (induction adapters rule: print_adapters.induct) (auto intro!: quiet_rules)

lemma print_busses_quiet: "keeps (quiet (\<lambda>c. \<not> is_transfer c \<and> \<not> is_slave c) str) print_i2c_busses"
  by (auto simp: print_i2c_busses_def intro!: quiet_rules no_access.gather_quiet print_adapters_quiet split: gathered.splits)

lemma detect_run_refused:
  assumes "str = [] \<or> hd str \<notin> {CHR 0x0A, CHR ''y'', CHR ''Y''}" "\<not> d_yes f"
  shows "hoare (quiet (\<lambda>c. \<not> is_transfer c \<and> \<not> is_slave c) str) (detect_run f i2cbus lo hi)
    (\<lambda>_. all_calls (\<lambda>c. \<not> is_transfer c \<and> \<not> is_slave c))"
proof -
  let ?p = "\<lambda>c. \<not> is_transfer c \<and> \<not> is_slave c"
  have "hoare (quiet ?p str) (detect_scan fd f lo hi) (\<lambda>_. all_calls ?p)" for fd
    unfolding detect_scan_def
    using assms(2) refuse_then [OF ack_char_quiet [OF assms(1)]] by simp
  then show ?thesis
    unfolding detect_run_def print_functionality_def
    by (auto simp: Let_def intro!: quiet_then [OF no_access.open_quiet] quiet_then [OF quiet_sys] quiet_then [OF quiet_print]
        quiet_then [OF print_funcs_quiet] quiet_return)
qed

text \<open>
  Without \<open>-y\<close>, \<open>i2cdetect\<close> addresses no chip and makes no transfer unless the next
  character of the input is a newline or a yes.
\<close>

theorem i2cdetect_needs_consent:
  assumes "w_trace w = []" "detect_argv argv no_detect_flags = Some (f, args)" "\<not> d_yes f"
    and "w_stdin w = [] \<or> hd (w_stdin w) \<notin> {CHR 0x0A, CHR ''y'', CHR ''Y''}"
  shows "all_calls (\<lambda>c. \<not> is_transfer c \<and> \<not> is_slave c) (snd (run_state (i2cdetect_main argv) w))"
proof -
  let ?p = "\<lambda>c. \<not> is_transfer c \<and> \<not> is_slave c"
  have "hoare (quiet ?p (w_stdin w)) (i2cdetect_main argv) (\<lambda>_. all_calls ?p)"
    unfolding i2cdetect_main_def
    using assms(2-4)
    by (auto intro!: quiet_then [OF no_access.lookup_quiet] quiet_then [OF print_busses_quiet] quiet_return
        hoare_then_return [OF detect_run_refused] split: option.splits)
  then show ?thesis
    using assms(1) by (auto dest: hoareD quiet_start)
qed

theorem i2cdetect_needs_consent_witness:
  "all_calls (\<lambda>c. \<not> is_transfer c \<and> \<not> is_slave c)
    (snd (run_state (i2cdetect_main [''-a'', ''0'']) (probe_world\<lparr>w_stdin := ''n''\<rparr>)))"
proof (rule i2cdetect_needs_consent)
  show "detect_argv [''-a'', ''0''] no_detect_flags = Some (no_detect_flags\<lparr>d_first := 0, d_last := 0x7F\<rparr>, [''0''])"
    "\<not> d_yes (no_detect_flags\<lparr>d_first := 0, d_last := 0x7F\<rparr>)"
    by code_simp+
qed (simp_all add: probe_world_def)

end
