(* ===== verification/GpioDemo.thy ===== *)
theory GpioDemo
  imports IoWorld
begin

text \<open>
  \<open>gpio-demo.c\<close>: drive the channels of a GPIO chip through sysfs. Every loop over channels
  runs over the list of their numbers. \<open>G_undefined\<close> is undefined behaviour (a buffer too
  short, a number that runs past what was read, a signed overflow), \<open>G_exit\<close> a call of
  \<open>exit\<close>. The endless test patterns are given by the number of rounds before a signal.
\<close>

section \<open>Channels\<close>

datatype gpio_result = G_undefined | G_exit int | G_return int

text \<open>\<open>strtoul\<close> on the bytes just read: the text must stop the number. The flag: nothing was read.\<close>

definition number_read :: "nat \<Rightarrow> string \<Rightarrow> (nat \<times> bool) option" where
  "number_read n txt =
     (let t = take n txt; (v, rest) = strtoul t in if rest = [] then None else Some (v, rest = t))"

definition channels :: "int \<Rightarrow> int \<Rightarrow> int list option" where
  "channels base n = (if base + n > 2 ^ 31 - 1 then None else Some [base..base + n - 1])"

text \<open>\<open>sprintf(channel_str, "%d", c)\<close> into five bytes, then \<open>write\<close> with the NUL; \<open>False\<close> is an overflow.\<close>

primrec write_channels :: "int \<Rightarrow> int list \<Rightarrow> bool io" where
  "write_channels fd [] = State_Monad.return True"
| "write_channels fd (c # cs) =
     (if length (dec_int c) + 1 > 5 then State_Monad.return False
      else do {
        _ \<leftarrow> sys (Write fd (dec_int c @ [CHR 0x00]));
        write_channels fd cs
      })"

text \<open>The number of channels, from \<open>ngpio\<close>; then each number goes to \<open>export\<close> or \<open>unexport\<close>.\<close>

definition gpio_channels :: "int \<Rightarrow> string \<Rightarrow> (int \<Rightarrow> int) \<Rightarrow> gpio_result io" where
  "gpio_channels base file result = do {
     r \<leftarrow> sys (Open (''/sys/class/gpio/gpiochip'' @ dec_int base @ ''/ngpio''));
     if r_ret r < 0 then State_Monad.return (G_return (-1))
     else do {
       t \<leftarrow> sys (Read (r_ret r) 5);
       _ \<leftarrow> sys (Close (r_ret r));
       case number_read 5 (r_text t) of None \<Rightarrow> State_Monad.return G_undefined
       | Some (v, none) \<Rightarrow>
           if none then State_Monad.return (G_exit 1)
           else do {
             let nchannel = to_int (int v);
             e \<leftarrow> sys (Open file);
             if r_ret e < 0 then State_Monad.return (G_return (-1))
             else (case channels base nchannel of None \<Rightarrow> State_Monad.return G_undefined
               | Some cs \<Rightarrow> do {
                   ok \<leftarrow> write_channels (r_ret e) cs;
                   if \<not> ok then State_Monad.return G_undefined
                   else do {
                     _ \<leftarrow> sys (Close (r_ret e));
                     State_Monad.return (G_return (result nchannel))
                   }
                 })
           }
     }
   }"

definition open_gpio_channel :: "int \<Rightarrow> gpio_result io" where
  "open_gpio_channel base = gpio_channels base ''/sys/class/gpio/export'' (\<lambda>nchannel. nchannel)"

definition close_gpio_channel :: "int \<Rightarrow> gpio_result io" where
  "close_gpio_channel base = gpio_channels base ''/sys/class/gpio/unexport'' (\<lambda>nchannel. 0)"

section \<open>Direction and value\<close>

definition gpio_file :: "int \<Rightarrow> string \<Rightarrow> string" where
  "gpio_file c name = ''/sys/class/gpio/gpio'' @ dec_int c @ ''/'' @ name"

primrec set_directions :: "int list \<Rightarrow> string \<Rightarrow> int io" where
  "set_directions [] direction = State_Monad.return 0"
| "set_directions (c # cs) direction = do {
     r \<leftarrow> sys (Open (gpio_file c ''direction''));
     if r_ret r < 0 then State_Monad.return 1
     else do {
       _ \<leftarrow> sys (Write (r_ret r) (direction @ [CHR 0x00]));
       _ \<leftarrow> sys (Close (r_ret r));
       set_directions cs direction
     }
   }"

definition set_gpio_direction :: "int \<Rightarrow> int \<Rightarrow> string \<Rightarrow> int option io" where
  "set_gpio_direction base nchannel direction =
     (case channels base nchannel of None \<Rightarrow> State_Monad.return None
      | Some cs \<Rightarrow> do { r \<leftarrow> set_directions cs direction; State_Monad.return (Some r) })"

text \<open>\<open>value & 1\<close> for each channel, \<open>value >>= 1\<close> (arithmetic shift) after it.\<close>

primrec put_levels :: "int list \<Rightarrow> int \<Rightarrow> int io" where
  "put_levels [] v = State_Monad.return 0"
| "put_levels (c # cs) v = do {
     r \<leftarrow> sys (Open (gpio_file c ''value''));
     if r_ret r < 0 then State_Monad.return (-1)
     else do {
       _ \<leftarrow> sys (Write (r_ret r) [if v mod 2 = 1 then CHR ''1'' else CHR ''0'', CHR 0x00]);
       _ \<leftarrow> sys (Close (r_ret r));
       put_levels cs (v div 2)
     }
   }"

definition set_gpio_value :: "int \<Rightarrow> int \<Rightarrow> int \<Rightarrow> int option io" where
  "set_gpio_value base nchannel v =
     (case channels base nchannel of None \<Rightarrow> State_Monad.return None
      | Some cs \<Rightarrow> do { r \<leftarrow> put_levels cs v; State_Monad.return (Some r) })"

text \<open>From the highest channel down: \<open>value <<= 1; value += (int) strtoul(val_str)\<close>.\<close>

primrec take_levels :: "int list \<Rightarrow> int \<Rightarrow> int option io" where
  "take_levels [] v = State_Monad.return (Some v)"
| "take_levels (c # cs) v = do {
     r \<leftarrow> sys (Open (gpio_file c ''value''));
     if r_ret r < 0 then State_Monad.return (Some (-1))
     else do {
       t \<leftarrow> sys (Read (r_ret r) 2);
       case number_read 2 (r_text t) of None \<Rightarrow> State_Monad.return None
       | Some (b, _) \<Rightarrow> do {
           _ \<leftarrow> sys (Close (r_ret r));
           take_levels cs (to_int (to_int (v * 2) + to_int (int b)))
         }
     }
   }"

definition get_gpio_value :: "int \<Rightarrow> int \<Rightarrow> int option io" where
  "get_gpio_value base nchannel =
     (case channels base nchannel of None \<Rightarrow> State_Monad.return None
      | Some cs \<Rightarrow> take_levels (rev cs) 0)"

section \<open>Patterns and signals\<close>

definition cylon :: "int list" where
  "cylon = [0x80, 0x40, 0x20, 0x10, 0x08, 0x04, 0x02, 0x01, 0x02, 0x04, 0x08, 0x10, 0x20, 0x40, 0x80]"

definition kit :: "int list" where
  "kit = [0xe0, 0x70, 0x38, 0x1c, 0x0e, 0x07, 0x03, 0x01, 0x03, 0x07, 0x0e, 0x1c, 0x38, 0x70, 0xe0]"

primrec show_pattern :: "int \<Rightarrow> int \<Rightarrow> int list \<Rightarrow> bool io" where
  "show_pattern base nchannel [] = State_Monad.return True"
| "show_pattern base nchannel (v # vs) = do {
     r \<leftarrow> set_gpio_value base nchannel v;
     case r of None \<Rightarrow> State_Monad.return False | Some _ \<Rightarrow> show_pattern base nchannel vs
   }"

primrec pattern_rounds :: "nat \<Rightarrow> int \<Rightarrow> int \<Rightarrow> int list \<Rightarrow> bool io" where
  "pattern_rounds 0 base nchannel pat = State_Monad.return True"
| "pattern_rounds (Suc n) base nchannel pat = do {
     ok \<leftarrow> show_pattern base nchannel pat;
     if \<not> ok then State_Monad.return False
     else do {
       _ \<leftarrow> sys (Usleep 10000);
       pattern_rounds n base nchannel pat
     }
   }"

text \<open>SIGTERM, SIGHUP, SIGQUIT and SIGINT unexport the channels and exit; \<open>None\<close> goes on.\<close>

definition signal_handler :: "int \<Rightarrow> nat \<Rightarrow> gpio_result option io" where
  "signal_handler base sig =
     (if sig \<in> {15, 1, 3, 2} then do {
        r \<leftarrow> close_gpio_channel base;
        State_Monad.return (Some (case r of G_return _ \<Rightarrow> G_exit 0 | _ \<Rightarrow> r))
      } else State_Monad.return None)"

section \<open>main\<close>

datatype gpio_opt = G_NONE | G_IN | G_OUT | G_CYLON | G_KIT

definition gpio_spec :: "char \<Rightarrow> bool option" where
  "gpio_spec = [CHR ''g'' \<mapsto> True, CHR ''i'' \<mapsto> False, CHR ''o'' \<mapsto> True, CHR ''c'' \<mapsto> False, CHR ''k'' \<mapsto> False]"

text \<open>Command, base and value; \<open>None\<close> shows the usage.\<close>

fun gpio_options :: "(char \<times> string) list \<Rightarrow> gpio_opt \<times> int \<times> int \<Rightarrow> (gpio_opt \<times> int \<times> int) option" where
  "gpio_options [] st = Some st"
| "gpio_options ((c, arg) # opts) (cmd, base, v) =
     (if c = CHR ''g'' then
        (let (n, rest) = strtoul arg in
         if rest = arg then None else gpio_options opts (cmd, to_int (int n), v))
      else if c = CHR ''i'' then gpio_options opts (G_IN, base, v)
      else if c = CHR ''o'' then
        (let (n, rest) = strtoul arg in
         if rest = arg then None else gpio_options opts (G_OUT, base, to_int (int n)))
      else if c = CHR ''c'' then gpio_options opts (G_CYLON, base, v)
      else if c = CHR ''k'' then gpio_options opts (G_KIT, base, v)
      else None)"

text \<open>\<open>%08X\<close>\<close>

definition to_upper :: "char \<Rightarrow> char" where
  "to_upper c = (let n = of_char c :: nat in if 97 \<le> n \<and> n \<le> 122 then char_of (n - 32) else c)"

text \<open>
  The command. After \<open>rounds\<close> rounds of a pattern the signal \<open>sig\<close> arrives; the result of
  \<open>open_gpio_channel\<close> is used whatever it is.
\<close>

definition gpio_command :: "gpio_opt \<Rightarrow> int \<Rightarrow> int \<Rightarrow> int \<Rightarrow> nat \<Rightarrow> gpio_result option io" where
  "gpio_command cmd base nchannel v rounds =
     (case cmd of
        G_IN \<Rightarrow> do {
          d \<leftarrow> set_gpio_direction base nchannel ''in'';
          case d of None \<Rightarrow> State_Monad.return (Some G_undefined)
          | Some _ \<Rightarrow> do {
              r \<leftarrow> get_gpio_value base nchannel;
              case r of None \<Rightarrow> State_Monad.return (Some G_undefined)
              | Some v \<Rightarrow> do {
                  _ \<leftarrow> print (''0x'' @ map to_upper (hex_pad 8 v) @ [CHR 0x0A]);
                  State_Monad.return None
                }
            }
        }
      | G_OUT \<Rightarrow> do {
          d \<leftarrow> set_gpio_direction base nchannel ''out'';
          case d of None \<Rightarrow> State_Monad.return (Some G_undefined)
          | Some _ \<Rightarrow> do {
              r \<leftarrow> set_gpio_value base nchannel v;
              State_Monad.return (case r of None \<Rightarrow> Some G_undefined | Some _ \<Rightarrow> None)
            }
        }
      | G_NONE \<Rightarrow> State_Monad.return None
      | _ \<Rightarrow> do {
          d \<leftarrow> set_gpio_direction base nchannel ''out'';
          case d of None \<Rightarrow> State_Monad.return (Some G_undefined)
          | Some _ \<Rightarrow> do {
              ok \<leftarrow> pattern_rounds rounds base nchannel (if cmd = G_CYLON then cylon else kit);
              if \<not> ok then State_Monad.return (Some G_undefined) else signal_handler base 15
            }
        })"

definition gpio_main :: "string list \<Rightarrow> nat \<Rightarrow> gpio_result io" where
  "gpio_main argv rounds =
     (case gpio_options (getopt gpio_spec argv) (G_NONE, 0, 0) of None \<Rightarrow> State_Monad.return (G_exit (-2))
      | Some (cmd, base, v) \<Rightarrow>
          if base = 0 then State_Monad.return (G_exit (-2))
          else do {
            n \<leftarrow> open_gpio_channel base;
            case n of
              G_return nchannel \<Rightarrow> do {
                r \<leftarrow> gpio_command cmd base nchannel v rounds;
                case r of
                  Some stop \<Rightarrow> State_Monad.return stop
                | None \<Rightarrow> do {
                    c \<leftarrow> close_gpio_channel base;
                    State_Monad.return (case c of G_return _ \<Rightarrow> G_return 0 | _ \<Rightarrow> c)
                  }
              }
            | _ \<Rightarrow> State_Monad.return n
          })"

section \<open>The pins of a board\<close>

text \<open>The path opened last and the level of each value file, as the history leaves them.\<close>

fun pin_step :: "string \<times> (string \<Rightarrow> bool) \<Rightarrow> call \<times> resp \<Rightarrow> string \<times> (string \<Rightarrow> bool)" where
  "pin_step (cur, pins) (Open path, r) = (path, pins)"
| "pin_step (cur, pins) (Write fd str, r) = (cur, pins(cur := char_at str 0 \<noteq> CHR ''0''))"
| "pin_step (cur, pins) (c, r) = (cur, pins)"

definition pin_state :: "(string \<Rightarrow> bool) \<Rightarrow> (call \<times> resp) list \<Rightarrow> string \<times> (string \<Rightarrow> bool)" where
  "pin_state p0 h = foldl pin_step ([], p0) h"

text \<open>A kernel whose calls succeed and whose value files read as their level and a newline.\<close>

definition gpio_board :: "(string \<Rightarrow> bool) \<Rightarrow> ((call \<times> resp) list \<Rightarrow> call \<Rightarrow> resp) \<Rightarrow> bool" where
  "gpio_board p0 k \<longleftrightarrow> (\<forall>h c. 0 \<le> r_ret (k h c)) \<and>
     (\<forall>h fd. r_text (k h (Read fd 2)) =
        [if snd (pin_state p0 h) (fst (pin_state p0 h)) then CHR ''1'' else CHR ''0'', CHR 0x0A])"

definition board_pins :: "(string \<Rightarrow> bool) \<Rightarrow> (string \<Rightarrow> bool) \<Rightarrow> world \<Rightarrow> bool" where
  "board_pins p0 pins w \<longleftrightarrow> gpio_board p0 (w_kernel w) \<and> snd (pin_state p0 (w_trace w)) = pins"

lemma pin_state_append: "pin_state p0 (h @ h1) = foldl pin_step (pin_state p0 h) h1"
  by (simp add: pin_state_def)

lemma number_read_level: "number_read 2 [if b then CHR ''1'' else CHR ''0'', CHR 0x0A] = Some (of_bool b, False)"
  by (cases b) (simp_all add: number_read_def strtoul_def parse_number_def split_sign_def detect_base_def char_at_def
      is_space_def is_digit_def digit_val_def digits_value_def)

section \<open>Setting and getting\<close>

text \<open>The levels that \<open>put_levels\<close> leaves, and the number that \<open>take_levels\<close> reads.\<close>

primrec assign :: "int list \<Rightarrow> int \<Rightarrow> (string \<Rightarrow> bool) \<Rightarrow> string \<Rightarrow> bool" where
  "assign [] v pins = pins"
| "assign (c # cs) v pins = assign cs (v div 2) (pins(gpio_file c ''value'' := (v mod 2 = 1)))"

definition levels :: "(string \<Rightarrow> bool) \<Rightarrow> int list \<Rightarrow> int \<Rightarrow> int" where
  "levels pins cs v = foldl (\<lambda>acc c. 2 * acc + of_bool (pins (gpio_file c ''value''))) v cs"

lemma board_step:
  assumes "board_pins p0 pins w"
  shows "\<exists>w'. run_state (put_levels (c # cs) v) w = run_state (put_levels cs (v div 2)) w' \<and>
    board_pins p0 (pins(gpio_file c ''value'' := (v mod 2 = 1))) w'"
proof -
  obtain cur where st: "pin_state p0 (w_trace w) = (cur, pins)"
    using assms by (cases "pin_state p0 (w_trace w)") (simp add: board_pins_def)
  have ok: "\<not> r_ret (w_kernel w h c) < 0" for h c
    using assms by (simp add: board_pins_def gpio_board_def not_less)
  let ?w1 = "after w (Open (gpio_file c ''value''))"
  let ?fd = "r_ret (w_kernel w (w_trace w) (Open (gpio_file c ''value'')))"
  let ?w3 = "after (after ?w1 (Write ?fd [if v mod 2 = 1 then CHR ''1'' else CHR ''0'', CHR 0x00])) (Close ?fd)"
  have "run_state (put_levels (c # cs) v) w = run_state (put_levels cs (v div 2)) ?w3"
    by (simp add: run_bind run_sys_after ok)
  moreover have "board_pins p0 (pins(gpio_file c ''value'' := (v mod 2 = 1))) ?w3"
    using assms st by (simp add: board_pins_def after_trace pin_state_append char_at_def)
  ultimately show ?thesis
    by blast
qed

lemma put_levels_board:
  "hoare (board_pins p0 pins) (put_levels cs v) (\<lambda>r w. r = 0 \<and> board_pins p0 (assign cs v pins) w)"
proof (induction cs arbitrary: v pins)
  case Nil
  then show ?case by (simp add: hoare_def io_simps)
next
  case (Cons c cs)
  show ?case
    unfolding hoare_def
  proof (intro allI impI)
    fix w
    assume "board_pins p0 pins w"
    from board_step [OF this, of c cs v] obtain w' where
      w': "run_state (put_levels (c # cs) v) w = run_state (put_levels cs (v div 2)) w'"
        "board_pins p0 (pins(gpio_file c ''value'' := (v mod 2 = 1))) w'"
      by blast
    show "fst (run_state (put_levels (c # cs) v) w) = 0 \<and>
        board_pins p0 (assign (c # cs) v pins) (snd (run_state (put_levels (c # cs) v) w))"
      unfolding w'(1) assign.simps by (rule hoareD [OF Cons.IH w'(2)])
  qed
qed

lemma levels_simps: "levels pins [] v = v" "levels pins (c # cs) v = levels pins cs (2 * v + of_bool (pins (gpio_file c ''value'')))"
  "levels pins (cs @ ds) v = levels pins ds (levels pins cs v)"
  by (simp_all add: levels_def)

lemma levels_ge: "0 \<le> v \<Longrightarrow> v \<le> levels pins cs v"
proof (induction cs arbitrary: v)
  case (Cons c cs)
  have "v \<le> 2 * v + of_bool (pins (gpio_file c ''value''))"
    using Cons.prems by simp
  also have "\<dots> \<le> levels pins cs (2 * v + of_bool (pins (gpio_file c ''value'')))"
    using Cons.prems by (intro Cons.IH) simp
  finally show ?case by (simp add: levels_simps)
qed (simp add: levels_simps)

text \<open>As long as the final number fits an \<open>int\<close>, no step wraps.\<close>

lemma take_levels_board:
  assumes "0 \<le> v" "levels pins cs v < 2 ^ 31"
  shows "hoare (board_pins p0 pins) (take_levels cs v) (\<lambda>r w. r = Some (levels pins cs v) \<and> board_pins p0 pins w)"
  using assms
proof (induction cs arbitrary: v)
  case Nil
  then show ?case by (simp add: hoare_def io_simps levels_simps)
next
  case (Cons c cs)
  let ?b = "pins (gpio_file c ''value'')"
  let ?v = "2 * v + of_bool ?b"
  have small: "?v < 2 ^ 31" "levels pins cs ?v < 2 ^ 31"
    using Cons.prems levels_ge [of ?v pins cs] by (simp_all add: levels_simps)
  then have v: "to_int (to_int (v * 2) + to_int (of_bool ?b)) = ?v"
    using Cons.prems(1) by (cases ?b) (simp_all add: to_int_def mult.commute)
  show ?case
    unfolding hoare_def
  proof (intro allI impI)
    fix w
    assume w: "board_pins p0 pins w"
    obtain cur where st: "pin_state p0 (w_trace w) = (cur, pins)"
      using w by (cases "pin_state p0 (w_trace w)") (simp add: board_pins_def)
    have ok: "\<not> r_ret (w_kernel w h c) < 0" for h c
      using w by (simp add: board_pins_def gpio_board_def not_less)
    have level: "r_text (w_kernel w h (Read fd 2)) =
        [if snd (pin_state p0 h) (fst (pin_state p0 h)) then CHR ''1'' else CHR ''0'', CHR 0x0A]" for h fd
      using w by (simp add: board_pins_def gpio_board_def)
    let ?w1 = "after w (Open (gpio_file c ''value''))"
    let ?fd = "r_ret (w_kernel w (w_trace w) (Open (gpio_file c ''value'')))"
    let ?w3 = "after (after ?w1 (Read ?fd 2)) (Close ?fd)"
    have "run_state (take_levels (c # cs) v) w = run_state (take_levels cs ?v) ?w3"
      using st v by (simp add: run_bind run_sys_after ok level after_trace pin_state_append number_read_level)
    moreover have "board_pins p0 pins ?w3"
      using w st by (simp add: board_pins_def after_trace pin_state_append)
    ultimately show "fst (run_state (take_levels (c # cs) v) w) = Some (levels pins (c # cs) v) \<and>
        board_pins p0 pins (snd (run_state (take_levels (c # cs) v) w))"
      using hoareD [OF Cons.IH [of ?v]] small Cons.prems(1)
      by (auto simp del: take_levels.simps simp: levels_simps)
  qed
qed

lemma dec_int_inj: "0 \<le> c \<Longrightarrow> 0 \<le> d \<Longrightarrow> dec_int c = dec_int d \<Longrightarrow> c = d"
proof -
  assume "0 \<le> c" "0 \<le> d" "dec_int c = dec_int d"
  then have "digits_value 10 (dec_digits (nat c)) = digits_value 10 (dec_digits (nat d))"
    by (simp add: dec_int_def)
  then show "c = d"
    using \<open>0 \<le> c\<close> \<open>0 \<le> d\<close> by (simp add: dec_digits_value)
qed

lemma gpio_file_inj: "0 \<le> c \<Longrightarrow> 0 \<le> d \<Longrightarrow> gpio_file c name = gpio_file d name \<Longrightarrow> c = d"
  by (simp add: gpio_file_def dec_int_inj)

lemma assign_other: "\<forall>d \<in> set cs. gpio_file d ''value'' \<noteq> path \<Longrightarrow> assign cs v pins path = pins path"
  by (induction cs arbitrary: v pins) auto

lemma assign_nth:
  "\<lbrakk> distinct cs; \<forall>c \<in> set cs. 0 \<le> c; i < length cs \<rbrakk> \<Longrightarrow>
    assign cs v pins (gpio_file (cs ! i) ''value'') = bit v i"
proof (induction cs arbitrary: v pins i)
  case (Cons c cs)
  show ?case
  proof (cases i)
    case 0
    have "\<forall>d \<in> set cs. gpio_file d ''value'' \<noteq> gpio_file c ''value''"
      using Cons.prems gpio_file_inj by force
    then show ?thesis
      using 0 by (simp add: assign_other bit_0 odd_iff_mod_2_eq_one)
  next
    case (Suc j)
    then show ?thesis
      using Cons by (simp add: bit_Suc)
  qed
qed simp

lemma levels_assign:
  "\<lbrakk> distinct cs; \<forall>c \<in> set cs. 0 \<le> c \<rbrakk> \<Longrightarrow> levels (assign cs v pins) (rev cs) 0 = v mod 2 ^ length cs"
proof (induction cs arbitrary: v pins)
  case (Cons c cs)
  have other: "\<forall>d \<in> set cs. gpio_file d ''value'' \<noteq> gpio_file c ''value''"
    using Cons.prems gpio_file_inj by force
  have "levels (assign (c # cs) v pins) (rev (c # cs)) 0 =
      2 * (v div 2 mod 2 ^ length cs) + of_bool (v mod 2 = 1)"
    using Cons by (simp add: levels_simps assign_other [OF other])
  also have "\<dots> = v mod 2 ^ length (c # cs)"
    by (simp add: mod_mult2_eq zmod_zmult2_eq)
  finally show ?case .
qed (simp add: levels_simps)

lemma channels_props:
  assumes "channels base n = Some cs" "0 \<le> base"
  shows "distinct cs" "\<forall>c \<in> set cs. 0 \<le> c" "cs = [base..base + n - 1]" "length cs = nat n"
  using assms by (auto simp: channels_def split: if_splits)

text \<open>
  On a GPIO chip with at most 31 channels, \<open>set_gpio_value\<close> puts bit \<open>i\<close> of the value on
  channel \<open>base + i\<close>, and a following \<open>get_gpio_value\<close> returns the value modulo two to the
  number of channels, without any wrap of the \<open>int\<close>.
\<close>

theorem gpio_set_get:
  assumes "board_pins p0 pins w" "0 \<le> base" "0 \<le> n" "n \<le> 31" "base + n \<le> 2 ^ 31 - 1"
    and "run_state (set_gpio_value base n v) w = (r1, w1)" "run_state (get_gpio_value base n) w1 = (r2, w2)"
  shows "r1 = Some 0 \<and> r2 = Some (v mod 2 ^ nat n) \<and>
    (\<exists>pins'. board_pins p0 pins' w2 \<and> (\<forall>i < nat n. pins' (gpio_file (base + int i) ''value'') = bit v i))"
proof -
  obtain cs where cs: "channels base n = Some cs"
    using assms(5) by (simp add: channels_def)
  note props = channels_props [OF cs assms(2)]
  let ?pins = "assign cs v pins"
  have one: "r1 = Some 0 \<and> board_pins p0 ?pins w1"
    using hoareD [OF put_levels_board assms(1), of cs v] assms(6) cs by (auto simp: set_gpio_value_def run_bind run_return)
  have val: "levels ?pins (rev cs) 0 = v mod 2 ^ nat n"
    using levels_assign [OF props(1,2)] props(4) by simp
  have "(2 :: int) ^ nat n \<le> 2 ^ 31"
    using assms(4) by (intro power_increasing) auto
  then have "levels ?pins (rev cs) 0 < 2 ^ 31"
    unfolding val using pos_mod_bound [of "2 ^ nat n" v, OF zero_less_power] by linarith
  then have two: "r2 = Some (v mod 2 ^ nat n) \<and> board_pins p0 ?pins w2"
    using hoareD [OF take_levels_board [of 0 ?pins "rev cs" p0] conjunct2 [OF one]] assms(7) cs val
    by (simp add: get_gpio_value_def)
  have "?pins (gpio_file (base + int i) ''value'') = bit v i" if "i < nat n" for i
    using assign_nth [OF props(1,2), of i v pins] that props(3,4) by (simp add: nth_upto)
  then show ?thesis
    using one two by blast
qed

definition demo_board :: "(call \<times> resp) list \<Rightarrow> call \<Rightarrow> resp" where
  "demo_board h c = \<lparr>r_ret = 3, r_errno = 0, r_data = [], r_funcs = 0,
     r_text = [if snd (pin_state (\<lambda>_. False) h) (fst (pin_state (\<lambda>_. False) h)) then CHR ''1'' else CHR ''0'', CHR 0x0A],
     r_names = []\<rparr>"

definition board_world :: world where
  "board_world = \<lparr>w_kernel = demo_board, w_trace = [], w_stdin = [], w_stdout = [], w_junk = [], w_junk_ints = []\<rparr>"

theorem gpio_set_get_witness:
  "\<exists>w1. run_state (set_gpio_value 240 8 0x1a5) board_world = (Some 0, w1) \<and>
     fst (run_state (get_gpio_value 240 8) w1) = Some 0xa5"
proof -
  have board: "board_pins (\<lambda>_. False) (\<lambda>_. False) board_world"
    by (simp add: board_pins_def gpio_board_def board_world_def demo_board_def pin_state_def)
  obtain r1 w1 r2 w2 where "run_state (set_gpio_value 240 8 0x1a5) board_world = (r1, w1)"
      "run_state (get_gpio_value 240 8) w1 = (r2, w2)"
    by fastforce
  from gpio_set_get [OF board _ _ _ _ this] this show ?thesis
    by simp
qed

end
