(* ===== verification/DeviceTools.thy ===== *)
theory DeviceTools
  imports IoWorld
begin

text \<open>
  \<open>tunctl.c\<close> (a persistent TAP interface), \<open>peek.c\<close> and \<open>poke.c\<close> (a word of physical memory).
  \<open>None\<close> is undefined behaviour: a buffer without its NUL used as a string.
\<close>

section \<open>tunctl\<close>

record tun_opts =
  t_name :: string
  t_device :: string
  t_delete :: bool

definition tun_default :: tun_opts where
  "tun_default = \<lparr>t_name = ''tap0'', t_device = ''/dev/net/tun'', t_delete = False\<rparr>"

definition tun_spec :: "char \<Rightarrow> bool option" where
  "tun_spec = [CHR ''t'' \<mapsto> True, CHR ''d'' \<mapsto> True, CHR ''f'' \<mapsto> True, CHR ''b'' \<mapsto> False, CHR ''n'' \<mapsto> False,
     CHR ''p'' \<mapsto> False, CHR ''u'' \<mapsto> True, CHR ''g'' \<mapsto> True]"

text \<open>\<open>strncpy\<close> into 512 bytes: a longer argument loses its NUL.\<close>

definition opt_buffer :: nat where "opt_buffer = 512"

primrec tun_options :: "(char \<times> string) list \<Rightarrow> tun_opts \<Rightarrow> tun_opts io" where
  "tun_options [] t = State_Monad.return t"
| "tun_options (o1 # opts) t =
     (let (c, arg) = o1 in
      if c = CHR ''t'' then tun_options opts (t\<lparr>t_name := take opt_buffer arg\<rparr>)
      else if c = CHR ''d'' then tun_options opts (t\<lparr>t_name := take opt_buffer arg, t_delete := True\<rparr>)
      else if c = CHR ''f'' then tun_options opts (t\<lparr>t_device := take opt_buffer arg\<rparr>)
      else if c \<in> {CHR ''b'', CHR ''n'', CHR ''p'', CHR ''u'', CHR ''g''} then do {
        _ \<leftarrow> print (''Unsupported option. This version does not support the option specified'' @ [CHR 0x0A]);
        tun_options opts t
      } else do {
        _ \<leftarrow> print (''Unexpected option '' @ [CHR 0x27, c, CHR 0x27, CHR 0x0A]);
        tun_options opts t
      })"

definition IFNAMSIZ :: nat where "IFNAMSIZ = 16"
definition IFF_TAP_NO_PI :: nat where "IFF_TAP_NO_PI = 0x1002"

text \<open>The macro \<open>IOCTL\<close>: an error closes the device and is the result of \<open>main\<close>.\<close>

definition tun_ioctl :: "int \<Rightarrow> call \<Rightarrow> (resp \<Rightarrow> int option io) \<Rightarrow> int option io" where
  "tun_ioctl fd c cont = do {
     r \<leftarrow> sys c;
     if r_ret r < 0 then do { _ \<leftarrow> sys (Close fd); State_Monad.return (Some (r_ret r)) }
     else cont r
   }"

text \<open>The kernel stores the name of the interface back into \<open>ifr\<close>, with its NUL.\<close>

definition tun_run :: "tun_opts \<Rightarrow> int option io" where
  "tun_run t =
     (if length (t_device t) = opt_buffer then State_Monad.return None
      else do {
        r \<leftarrow> sys (Open (t_device t));
        if r_ret r < 0 then do {
          _ \<leftarrow> print (''Error: Unable to open tun device '' @ [CHR 0x27] @ t_device t @ [CHR 0x27, CHR 0x0A]);
          State_Monad.return (Some 1)
        } else
          tun_ioctl (r_ret r) (Ioctl_tun (r_ret r) (take IFNAMSIZ (t_name t)) IFF_TAP_NO_PI) (\<lambda>ifr.
            if t_delete t then
              tun_ioctl (r_ret r) (Ioctl_persist (r_ret r) 0) (\<lambda>_.
                if length (t_name t) = opt_buffer then State_Monad.return None
                else do {
                  _ \<leftarrow> print (''Set '' @ [CHR 0x27] @ t_name t @ [CHR 0x27] @ '' nonpersistent'' @ [CHR 0x0A]);
                  State_Monad.return (Some 0)
                })
            else
              tun_ioctl (r_ret r) (Ioctl_persist (r_ret r) 1) (\<lambda>_. do {
                _ \<leftarrow> print (''Created TAP '' @ [CHR 0x27] @ r_text ifr @ [CHR 0x27, CHR 0x0A]);
                State_Monad.return (Some 0)
              }))
      })"

definition tunctl_main :: "string list \<Rightarrow> int option io" where
  "tunctl_main argv = do {
     t \<leftarrow> tun_options (getopt tun_spec argv) tun_default;
     tun_run t
   }"

section \<open>peek and poke\<close>

definition page_size :: u32 where "page_size = 4096"

definition page_of :: "u32 \<Rightarrow> u32" where
  "page_of addr = and addr (not (page_size - 1))"

definition page_offset :: "u32 \<Rightarrow> u32" where
  "page_offset addr = addr - page_of addr"

text \<open>\<open>(int) ptr == -1\<close>: the low 32 bits of the pointer are all ones.\<close>

definition map_failed :: "int \<Rightarrow> bool" where
  "map_failed ptr \<longleftrightarrow> to_int ptr = -1"

definition word_arg :: "string \<Rightarrow> u32" where
  "word_arg s = of_nat (fst (strtoul s))"

definition peek_usage :: "string \<Rightarrow> string" where
  "peek_usage prog = ''usage: '' @ prog @ '' ADDR'' @ [CHR 0x0A, CHR 0x0A] @
     ''ADDR may be specified as hex values'' @ [CHR 0x0A]"

definition poke_usage :: "string \<Rightarrow> string" where
  "poke_usage prog = ''usage: '' @ prog @ '' ADDR VAL'' @ [CHR 0x0A, CHR 0x0A] @
     ''ADDR and VAL may be specified as hex values'' @ [CHR 0x0A]"

definition peek_main :: "string list \<Rightarrow> int io" where
  "peek_main argv =
     (if length argv \<noteq> 2 then do { _ \<leftarrow> print (peek_usage (hd argv)); State_Monad.return (-1) }
      else do {
        r \<leftarrow> sys (Open ''/dev/mem'');
        if r_ret r < 1 then State_Monad.return (-1)
        else do {
          let addr = word_arg (argv ! 1);
          p \<leftarrow> sys (Mmap (unat page_size) False (r_ret r) (unat (page_of addr)));
          if map_failed (r_ret p) then State_Monad.return (-1)
          else do {
            v \<leftarrow> sys (Peek (nat (r_ret p) + unat (page_offset addr)));
            _ \<leftarrow> print (''0x'' @ hex_pad 8 (r_ret v) @ [CHR 0x0A]);
            State_Monad.return 0
          }
        }
      })"

definition poke_main :: "string list \<Rightarrow> int io" where
  "poke_main argv = do {
     r \<leftarrow> sys (Open ''/dev/mem'');
     if r_ret r < 1 then State_Monad.return (-1)
     else if length argv \<noteq> 3 then do { _ \<leftarrow> print (poke_usage (hd argv)); State_Monad.return (-1) }
     else do {
       let addr = word_arg (argv ! 1);
       let v = word_arg (argv ! 2);
       p \<leftarrow> sys (Mmap (unat page_size) True (r_ret r) (unat (page_of addr)));
       if map_failed (r_ret p) then State_Monad.return (-1)
       else do {
         _ \<leftarrow> sys (Poke (nat (r_ret p) + unat (page_offset addr)) v);
         State_Monad.return 0
       }
     }
   }"

section \<open>The page and the offset\<close>

lemma page_split:
  "unat (page_of addr) = 4096 * (unat addr div 4096)" "unat (page_offset addr) = unat addr mod 4096"
proof -
  have msk: "page_size - 1 = mask 12"
    by (simp add: page_size_def mask_eq_exp_minus_1)
  have "and addr (not (mask 12)) + and addr (mask 12) = or (and addr (not (mask 12))) (and addr (mask 12))"
    by (rule disjunctive_add_eq_or) (simp add: bit_eq_iff bit_simps)
  also have "\<dots> = addr"
    by (rule bit_eqI) (auto simp: bit_simps)
  finally have sum: "page_of addr + take_bit 12 addr = addr"
    by (simp add: page_of_def msk take_bit_eq_mask)
  then have off: "page_offset addr = take_bit 12 addr"
    by (simp add: page_offset_def algebra_simps)
  then show offset: "unat (page_offset addr) = unat addr mod 4096"
    unfolding off unsigned_take_bit_eq by (simp add: take_bit_eq_mod)
  have "page_of addr = addr - page_offset addr"
    using sum off by (simp add: algebra_simps)
  moreover have "page_offset addr \<le> addr"
    by (simp add: word_le_nat_alt offset)
  ultimately have "unat (page_of addr) = unat addr - unat addr mod 4096"
    by (simp only: unat_sub offset)
  then show "unat (page_of addr) = 4096 * (unat addr div 4096)"
    by (simp add: minus_mod_eq_mult_div)
qed

text \<open>
  \<open>poke\<close> with two arguments and a successful mapping maps the one page that holds the
  address and stores the value at the mapped position of the address; the four bytes lie
  inside the page if and only if the offset of the address is at most 4092.
\<close>

theorem poke_writes_word:
  assumes "argv = [prog, a, v]" "addr = word_arg a"
    and "w_kernel w (w_trace w) (Open ''/dev/mem'') = r1" "1 \<le> r_ret r1"
    and "\<forall>h. r_ret (w_kernel w h (Mmap 4096 True (r_ret r1) (4096 * (unat addr div 4096)))) = ptr" "0 \<le> ptr" "to_int ptr \<noteq> -1"
  shows "\<exists>r2 r3 w'. run_state (poke_main argv) w = (0, w') \<and> w_trace w' = w_trace w @
      [(Open ''/dev/mem'', r1), (Mmap 4096 True (r_ret r1) (4096 * (unat addr div 4096)), r2),
       (Poke (nat ptr + unat addr mod 4096) (word_arg v), r3)] \<and> r_ret r2 = ptr \<and>
    ({nat ptr + unat addr mod 4096 ..< nat ptr + unat addr mod 4096 + 4} \<subseteq> {nat ptr ..< nat ptr + 4096} \<longleftrightarrow>
       unat addr mod 4096 \<le> 4092)"
proof -
  have inside: "{p + d ..< p + d + 4} \<subseteq> {p ..< p + 4096} \<longleftrightarrow> d \<le> 4092" for p d :: nat
    by auto
  have "unat page_size = 4096"
    by (simp add: page_size_def)
  then show ?thesis
    using assms by (simp add: poke_main_def io_simps Let_def map_failed_def page_split inside)
qed

definition mem_kernel :: "(call \<times> resp) list \<Rightarrow> call \<Rightarrow> resp" where
  "mem_kernel h c = \<lparr>r_ret = (case c of Mmap _ _ _ _ \<Rightarrow> 0x10000 | _ \<Rightarrow> 3), r_errno = 0, r_data = [], r_funcs = 0,
     r_text = ''tap0'', r_names = []\<rparr>"

definition mem_world :: world where
  "mem_world = \<lparr>w_kernel = mem_kernel, w_trace = [], w_stdin = [], w_stdout = [], w_junk = [], w_junk_ints = []\<rparr>"

lemma word_arg_0x1004: "word_arg ''0x1004'' = 0x1004"
  by (simp add: word_arg_def strtoul_def parse_number_def split_sign_def detect_base_def char_at_def is_space_def Let_def
      is_digit_def digit_val_def digits_value_def)

theorem poke_writes_word_witness:
  "\<exists>w'. run_state (poke_main [''poke'', ''0x1004'', ''7'']) mem_world = (0, w') \<and>
     (Poke 0x10004 (word_arg ''7'')) \<in> fst ` set (w_trace w')"
  using poke_writes_word [OF refl refl refl, where prog = "''poke''" and a = "''0x1004''" and v = "''7''" and w = mem_world
      and ptr = "0x10000"]
  by (auto simp: mem_world_def mem_kernel_def to_int_def word_arg_0x1004)

section \<open>The interface of tunctl\<close>

text \<open>
  When every call succeeds, \<open>tunctl\<close> asks for a TAP interface whose name is the first 16
  bytes of the wanted one, makes it persistent (with \<open>-d\<close>: not persistent), and ends with
  code 0 after exactly these three calls.
\<close>

theorem tunctl_calls:
  assumes "length (t_device t) < opt_buffer" "length (t_name t) < opt_buffer" "\<forall>h c. 0 \<le> r_ret (w_kernel w h c)"
  shows "\<exists>r1 r2 r3 w'. run_state (tun_run t) w = (Some 0, w') \<and>
    w_trace w' = w_trace w @ [(Open (t_device t), r1), (Ioctl_tun (r_ret r1) (take 16 (t_name t)) 0x1002, r2),
      (Ioctl_persist (r_ret r1) (if t_delete t then 0 else 1), r3)] \<and>
    r2 = w_kernel w (w_trace w @ [(Open (t_device t), r1)]) (Ioctl_tun (r_ret r1) (take 16 (t_name t)) 0x1002) \<and>
    w_stdout w' = w_stdout w @ (if t_delete t then ''Set '' @ [CHR 0x27] @ t_name t @ [CHR 0x27] @ '' nonpersistent''
      else ''Created TAP '' @ [CHR 0x27] @ r_text r2 @ [CHR 0x27]) @ [CHR 0x0A]"
proof -
  have ok: "\<not> r_ret (w_kernel w h c) < 0" for h c
    using assms(3) by (simp add: not_less)
  show ?thesis
    using assms(1,2) by (cases "t_delete t")
      (simp_all add: tun_run_def tun_ioctl_def io_simps ok IFNAMSIZ_def IFF_TAP_NO_PI_def)
qed

theorem tunctl_calls_witness:
  "\<exists>w'. run_state (tun_run (tun_default\<lparr>t_name := ''tap7''\<rparr>)) mem_world = (Some 0, w') \<and>
     w_stdout w' = ''Created TAP '' @ [CHR 0x27] @ ''tap0'' @ [CHR 0x27, CHR 0x0A]"
proof -
  have world: "\<forall>h c. 0 \<le> r_ret (w_kernel mem_world h c)" "\<And>h c. r_text (w_kernel mem_world h c) = ''tap0''"
      "w_trace mem_world = []" "w_stdout mem_world = []"
    by (auto simp: mem_world_def mem_kernel_def split: call.split)
  have t: "length (t_device (tun_default\<lparr>t_name := ''tap7''\<rparr>)) < opt_buffer"
      "length (t_name (tun_default\<lparr>t_name := ''tap7''\<rparr>)) < opt_buffer" "\<not> t_delete (tun_default\<lparr>t_name := ''tap7''\<rparr>)"
    by (simp_all add: tun_default_def opt_buffer_def)
  show ?thesis
    using tunctl_calls [OF t(1,2) world(1)] by (auto simp: world t(3))
qed

end
