(* ===== verification/YangPersist.thy ===== *)
theory YangPersist
  imports YangParam
begin

text \<open>
  \<open>YangPersist.cpp\<close>: the values of a YANG model that survive a restart, in memory and in the
  text file they are saved to. The file system is the text of the file: \<open>None\<close> when it cannot
  be opened.
\<close>

section \<open>State and operations\<close>

record yang_persist =
  mYangModelName :: string
  mDirty :: bool
  mValues :: "(string \<times> string) list"
  mPersistPaths :: "string set"

definition xpathMatchesPersist :: "yang_persist \<Rightarrow> string \<Rightarrow> bool" where
  "xpathMatchesPersist p xpath = (\<exists>path \<in> mPersistPaths p. startsWith xpath path)"

definition persist_set :: "string \<Rightarrow> string \<Rightarrow> yang_persist \<Rightarrow> yang_persist" where
  "persist_set xpath value p =
     (if \<not> xpathMatchesPersist p xpath then p
      else case map_of (mValues p) xpath of
        None \<Rightarrow> p\<lparr>mValues := map_put xpath value (mValues p), mDirty := True\<rparr>
      | Some old \<Rightarrow>
          if old = value then p
          else p\<lparr>mValues := map_put xpath value (mValues p), mDirty := True\<rparr>)"

definition setPersist :: "string set \<Rightarrow> yang_persist \<Rightarrow> yang_persist" where
  "setPersist xpaths p = p\<lparr>mPersistPaths := mPersistPaths p \<union> xpaths\<rparr>"

abbreviation quote :: char where
  "quote \<equiv> CHR 0x22"

text \<open>The text of the file; \<open>None\<close> when nothing is written because nothing changed.\<close>

definition persist_line :: "string \<times> string \<Rightarrow> string" where
  "persist_line e = quote # fst e @ [quote, CHR ''='', quote] @ snd e @ [quote, CHR 0x0A]"

definition persist_text :: "yang_persist \<Rightarrow> string" where
  "persist_text p =
     ''# Persistent values for YANG model '' @ mYangModelName p @ [CHR 0x0A] @
     concat (map persist_line (mValues p))"

definition persist_write :: "yang_persist \<Rightarrow> string option" where
  "persist_write p = (if \<not> mDirty p then None else Some (persist_text p))"

section \<open>Reading\<close>

text \<open>\<open>std::getline\<close> until the stream is no longer good: a final line may be empty.\<close>

fun split_lines :: "string \<Rightarrow> string \<Rightarrow> string list" where
  "split_lines line [] = [rev line]"
| "split_lines line (c # cs) =
     (if c = CHR 0x0A then rev line # split_lines [] cs else split_lines (c # line) cs)"

text \<open>\<open>trim\<close> of \<open>stringfunc.hpp\<close>, which trims spaces.\<close>

definition trim :: "string \<Rightarrow> string" where
  "trim s = dropWhile (\<lambda>c. c = CHR '' '') (rev (dropWhile (\<lambda>c. c = CHR '' '') (rev s)))"

text \<open>\<open>s.find(t)\<close>\<close>

fun find_str :: "string \<Rightarrow> string \<Rightarrow> nat option" where
  "find_str t [] = (if t = [] then Some 0 else None)"
| "find_str t (c # s) = (if prefix t (c # s) then Some 0 else map_option Suc (find_str t s))"

definition unquoted :: "string \<Rightarrow> string" where
  "unquoted s =
     (if s ! 0 = quote \<and> s ! (length s - 1) = quote then substr s 1 (length s - 2) else s)"

definition read_line :: "string \<Rightarrow> (string \<times> string) list \<Rightarrow> (string \<times> string) list" where
  "read_line line values =
     (let line = (case find_char (CHR ''#'') line of None \<Rightarrow> line | Some pos \<Rightarrow> take pos line);
          line = trim line in
      if length line = 0 then values
      else case find_str [quote, CHR ''='', quote] line of
        None \<Rightarrow> values
      | Some pos \<Rightarrow>
          let xpath = trim (substr line 0 (pos + 1));
              value = trim (substr_from line (pos + 2)) in
          if length xpath < 3 \<or> length value < 3 then values
          else map_put (unquoted xpath) (unquoted value) values)"

definition persist_read :: "string option \<Rightarrow> yang_persist \<Rightarrow> yang_persist" where
  "persist_read file p =
     (case file of
        None \<Rightarrow> p\<lparr>mValues := []\<rparr>
      | Some text \<Rightarrow> p\<lparr>mValues := fold read_line (split_lines [] text) []\<rparr>)"

section \<open>Set\<close>

text \<open>Only persistent paths are kept, and each keeps its last value.\<close>

lemma persist_set_value:
  "map_of (mValues (persist_set xpath value p)) =
     (if xpathMatchesPersist p xpath then (map_of (mValues p))(xpath \<mapsto> value) else map_of (mValues p))"
  by (auto simp: persist_set_def map_of_map_put split: option.splits)

lemma persist_set_sorted:
  "sorted_wrt (<) (map fst (mValues p)) \<Longrightarrow> sorted_wrt (<) (map fst (mValues (persist_set xpath value p)))"
  by (auto simp: persist_set_def map_put_sorted split: option.splits)

section \<open>Round trip\<close>

text \<open>What survives a write and a read.\<close>

definition savable :: "string \<times> string \<Rightarrow> bool" where
  "savable e \<longleftrightarrow>
     fst e \<noteq> [] \<and> fst e ! 0 \<noteq> CHR ''='' \<and> set (fst e) \<inter> {quote, CHR ''#'', CHR 0x0A} = {} \<and>
     snd e \<noteq> [] \<and> set (snd e) \<inter> {CHR ''#'', CHR 0x0A} = {}"

lemma split_lines_line:
  "CHR 0x0A \<notin> set cs \<Longrightarrow> split_lines line (cs @ CHR 0x0A # rest) = (rev line @ cs) # split_lines [] rest"
  by (induction cs arbitrary: line) auto

lemma trim_quoted: "trim (quote # s @ [quote]) = quote # s @ [quote]"
  by (simp add: trim_def)

lemma find_str_skip:
  "quote \<notin> set xs \<Longrightarrow> find_str (quote # ys) (xs @ quote # zs) =
     (if prefix ys zs then Some (length xs) else map_option (\<lambda>i. length xs + i) (find_str (quote # ys) (quote # zs)))"
  by (induction xs) (auto simp: option.map_comp comp_def option.map_ident)

lemma find_str_line:
  assumes "savable e"
  shows "find_str [quote, CHR ''='', quote] (quote # fst e @ [quote, CHR ''='', quote] @ snd e @ [quote]) =
    Some (Suc (length (fst e)))"
proof -
  obtain c cs where k: "fst e = c # cs" "c \<noteq> CHR ''=''" "quote \<notin> set (c # cs)"
    using assms by (cases "fst e") (auto simp: savable_def)
  then show ?thesis
    using find_str_skip [of "c # cs" "[CHR ''='', quote]" "[CHR ''='', quote] @ snd e @ [quote]"]
    by simp
qed

lemma unquoted_quoted: "unquoted (quote # s @ [quote]) = s"
  by (simp add: unquoted_def nth_append substr_def)

lemma read_line_saved:
  assumes "savable e"
  shows "read_line (quote # fst e @ [quote, CHR ''='', quote] @ snd e @ [quote]) values = map_put (fst e) (snd e) values"
proof -
  let ?l = "quote # fst e @ [quote, CHR ''='', quote] @ snd e @ [quote]"
  have hash: "find_char (CHR ''#'') ?l = None"
    using assms by (simp add: find_char_None savable_def)
  have trim: "trim ?l = ?l"
    using trim_quoted [of "fst e @ [quote, CHR ''='', quote] @ snd e"] by simp
  have parts: "substr ?l 0 (Suc (length (fst e)) + 1) = quote # fst e @ [quote]"
    "substr_from ?l (Suc (length (fst e)) + 2) = quote # snd e @ [quote]"
    by (simp_all add: substr_def substr_from_def)
  have ne: "fst e \<noteq> []" "snd e \<noteq> []"
    using assms by (auto simp: savable_def)
  have long: "\<not> (length (quote # fst e @ [quote]) < 3 \<or> length (quote # snd e @ [quote]) < 3)"
    using ne by (cases "fst e"; cases "snd e") auto
  show ?thesis
    unfolding read_line_def hash option.case trim Let_def find_str_line [OF assms] parts trim_quoted
      unquoted_quoted using long by simp
qed

lemma read_lines_saved:
  "list_all savable es \<Longrightarrow>
    fold read_line (split_lines [] (concat (map persist_line es))) m = fold (\<lambda>(k, v). map_put k v) es m"
proof (induction es arbitrary: m)
  case Nil
  then show ?case
    by (simp add: read_line_def trim_def)
next
  case (Cons e es)
  let ?l = "quote # fst e @ [quote, CHR ''='', quote] @ snd e @ [quote]"
  have "CHR 0x0A \<notin> set ?l"
    using Cons.prems by (auto simp: savable_def)
  then have "split_lines [] (concat (map persist_line (e # es))) = ?l # split_lines [] (concat (map persist_line es))"
    using split_lines_line [of ?l "[]" "concat (map persist_line es)"] by (simp add: persist_line_def)
  then show ?case
    using Cons read_line_saved [of e m] by (cases e) simp
qed

lemma map_put_largest: "\<forall>x \<in> set (map fst m). x < k \<Longrightarrow> map_put k v m = m @ [(k, v)]"
  by (induction k v m rule: map_put.induct) (auto dest: less_asym)

lemma fold_map_put:
  "sorted_wrt (<) (map fst (m @ es)) \<Longrightarrow> fold (\<lambda>(k, v). map_put k v) es m = m @ es"
proof (induction es arbitrary: m)
  case (Cons e es)
  obtain k v where e: "e = (k, v)"
    by (cases e)
  have "map_put k v m = m @ [(k, v)]"
    using Cons.prems e by (intro map_put_largest) (auto simp: sorted_wrt_append)
  then show ?case
    using Cons.IH [of "m @ [(k, v)]"] Cons.prems e by simp
qed simp

text \<open>
  C30: what a write saves a read brings back: values whose paths and texts are not empty,
  contain no \<open>#\<close> and no newline, and whose paths contain no quote, survive a restart.
\<close>

theorem persist_roundtrip:
  assumes "mDirty p" "sorted_wrt (<) (map fst (mValues p))" "list_all savable (mValues p)"
    and "CHR 0x0A \<notin> set (mYangModelName p)"
  shows "\<exists>text. persist_write p = Some text \<and> mValues (persist_read (Some text) q) = mValues p"
proof -
  let ?h = "''# Persistent values for YANG model '' @ mYangModelName p"
  have "CHR 0x0A \<notin> set ?h"
    using assms(4) by simp
  then have lines: "split_lines [] (persist_text p) = ?h # split_lines [] (concat (map persist_line (mValues p)))"
    using split_lines_line [of ?h "[]"] by (simp add: persist_text_def)
  have "read_line ?h [] = []"
    by (simp add: read_line_def trim_def)
  then have "fold read_line (split_lines [] (persist_text p)) [] = fold (\<lambda>(k, v). map_put k v) (mValues p) []"
    using read_lines_saved [OF assms(3), of "[]"] by (simp add: lines)
  also have "\<dots> = mValues p"
    using fold_map_put [of "[]" "mValues p"] assms(2) by simp
  finally show ?thesis
    using assms(1) by (simp add: persist_write_def persist_read_def)
qed

theorem persist_roundtrip_witness:
  "\<exists>text. persist_write (persist_set ''/a:b/c'' ''x y'' \<lparr>mYangModelName = ''a'', mDirty = False, mValues = [], mPersistPaths = {''/a:b''}\<rparr>) = Some text \<and>
     mValues (persist_read (Some text) \<lparr>mYangModelName = ''a'', mDirty = False, mValues = [], mPersistPaths = {}\<rparr>) = [(''/a:b/c'', ''x y'')]"
proof -
  have set: "persist_set ''/a:b/c'' ''x y'' \<lparr>mYangModelName = ''a'', mDirty = False, mValues = [], mPersistPaths = {''/a:b''}\<rparr> =
      \<lparr>mYangModelName = ''a'', mDirty = True, mValues = [(''/a:b/c'', ''x y'')], mPersistPaths = {''/a:b''}\<rparr>"
    by (simp add: persist_set_def xpathMatchesPersist_def startsWith_def)
  show ?thesis
    unfolding set using persist_roundtrip [of "\<lparr>mYangModelName = ''a'', mDirty = True, mValues = [(''/a:b/c'', ''x y'')], mPersistPaths = {''/a:b''}\<rparr>"]
    by (simp add: savable_def)
qed

end
