(* ===== verification/CarrierState.thy ===== *)
theory CarrierState
  imports YangPersist
begin

text \<open>
  The state of the user-plane part of the M-plane server: the members of
  \<open>OranYangCarrierMgr.cpp\<close> and \<open>OranUplaneConfHandler.cpp\<close>, the tree of leaves that is served
  as operational data, and the calls of \<open>libhalmplane\<close> through the module loader. The data
  store, the loaded module and the texts that \<open>sysrepo\<close> and the output streams produce are
  the environment. A module may call the carrier state callbacks from inside any call.
\<close>

section \<open>Data of the hardware abstraction\<close>

datatype compression_type = STATIC | DYNAMIC

text \<open>
  \<open>compression_t\<close>: its union is four bytes, in which the first byte of every member is at
  offset 0, a second \<open>uint8_t\<close> at offset 1 and a \<open>uint16_t\<close> at offset 2.
\<close>

record compression =
  iq_bitwidth :: u8
  compression_type :: compression_type
  u_byte0 :: u8
  u_byte1 :: u8
  u_half :: u16

definition compression_zero :: compression where
  "compression_zero = \<lparr>iq_bitwidth = 0, compression_type = STATIC, u_byte0 = 0, u_byte1 = 0, u_half = 0\<rparr>"

record e_axcid =
  o_du_port_bitmask :: u16
  band_sector_bitmask :: u16
  ccid_bitmask :: u16
  ru_port_bitmask :: u16
  eaxc_id :: u16

definition e_axcid_zero :: e_axcid where
  "e_axcid_zero = \<lparr>o_du_port_bitmask = 0, band_sector_bitmask = 0, ccid_bitmask = 0, ru_port_bitmask = 0, eaxc_id = 0\<rparr>"

text \<open>A \<open>const char *\<close>: null, or pointing into a string that no longer exists.\<close>

datatype c_string = Null | Dangling

record dyn_compression =
  dc_id :: u16
  dc_iq_bitwidth :: u8
  dc_method :: c_string

definition dyn_compression_zero :: dyn_compression where
  "dyn_compression_zero = \<lparr>dc_id = 0, dc_iq_bitwidth = 0, dc_method = Null\<rparr>"

datatype carrier_state = DISABLED | BUSY | READY

definition state_name :: "carrier_state \<Rightarrow> string" where
  "state_name st = (case st of DISABLED \<Rightarrow> ''DISABLED'' | BUSY \<Rightarrow> ''BUSY'' | READY \<Rightarrow> ''READY'')"

datatype dir = Rx | Tx

definition txrx :: "dir \<Rightarrow> string" where
  "txrx d = (case d of Rx \<Rightarrow> ''rx'' | Tx \<Rightarrow> ''tx'')"

section \<open>Calls of the hardware abstraction\<close>

datatype hal_call =
    Carrier_state_change dir string u64 u64 u64 string bool
  | Update_eaxc dir string e_axcid
  | Update_compression dir string compression
  | Update_dyn_config dir string dyn_compression
  | Register_carrier_state_cb dir

record hal_reply =
  hr_status :: int
  hr_states :: "(dir \<times> string \<times> carrier_state) list"

definition hal_symbol :: "hal_call \<Rightarrow> string" where
  "hal_symbol c =
     (case c of
        Carrier_state_change d _ _ _ _ _ _ \<Rightarrow>
          ''int halmplane_'' @ txrx d @ ''_carrier_state_change(const char*, uint64_t, uint64_t, double, const char*, int)''
      | Update_eaxc d _ _ \<Rightarrow> ''int halmplane_update_'' @ txrx d @ ''_eaxc(const char*, e_axcid_t*)''
      | Update_compression d _ _ \<Rightarrow>
          ''int halmplane_update_'' @ txrx d @ ''_endpoint_compression(const char*, compression_t*)''
      | Update_dyn_config d _ _ \<Rightarrow>
          ''int halmplane_update_'' @ txrx d @
          ''_endpoint_compression_dyn_config(const char*, dynamic_compression_configuration_t*)''
      | Register_carrier_state_cb d \<Rightarrow>
          ''int halmplane_register_'' @ txrx d @ ''_carrier_state_cb(halmplane_carrier_state_cb_t)'')"

text \<open>
  The environment: the items of the data store by path, the texts of a \<open>double\<close> and of a value
  of the data store, whether the file of the persistent values can be opened for writing, the
  symbols of the function table, and the functions of the module,
  which may depend on the calls made before.
\<close>

record env =
  e_items :: "string \<Rightarrow> yang_param list option"
  e_double :: "u64 \<Rightarrow> string"
  e_val_to_string :: "sr_value \<Rightarrow> string"
  e_save_opens :: bool
  e_loaded :: "string \<Rightarrow> bool"
  e_module :: "hal_call list \<Rightarrow> hal_call \<Rightarrow> hal_reply"

section \<open>The tree of leaves\<close>

text \<open>A leaf whose value is a function is the state of a carrier in the handler.\<close>

datatype node = Container string "node list" | Leaf string string | State_leaf string dir string

text \<open>\<open>addLeaf\<close> of \<open>LeafContainer.cpp\<close> on the contents of a container.\<close>

definition addLeaf :: "string \<Rightarrow> string \<Rightarrow> node list \<Rightarrow> node list" where
  "addLeaf name value contents = (if value = [] then contents else contents @ [Leaf name value])"

section \<open>State\<close>

record link =
  mEndpointName :: string
  mCarrierName :: string

type_synonym notification = "string \<times> (string \<times> string) list"

record uplane =
  mInitialised :: bool
  mRxLinks :: "string \<rightharpoonup> link"
  mTxLinks :: "string \<rightharpoonup> link"
  mRxCarriers :: "string set"
  mTxCarriers :: "string set"
  mRxEndpointComps :: "string \<rightharpoonup> compression"
  mTxEndpointComps :: "string \<rightharpoonup> compression"
  mRxEndpointEaxcs :: "string \<rightharpoonup> e_axcid"
  mTxEndpointEaxcs :: "string \<rightharpoonup> e_axcid"
  mRxEndpointDynComps :: "string \<rightharpoonup> (int \<rightharpoonup> dyn_compression)"
  mTxEndpointDynComps :: "string \<rightharpoonup> (int \<rightharpoonup> dyn_compression)"
  leaves :: "node list"
  mRxCarrierState :: "string \<rightharpoonup> string"
  mTxCarrierState :: "string \<rightharpoonup> string"
  handler_instance :: bool
  notifications :: "notification list"
  hal_calls :: "hal_call list"
  mReadOnlyPaths :: "string set"
  mPersist :: yang_persist
  mSaveFile :: "string option"

section \<open>Links\<close>

definition link_empty :: "link \<Rightarrow> bool" where
  "link_empty l = (if mEndpointName l \<noteq> [] then False else if mCarrierName l \<noteq> [] then False else True)"

definition link_merge :: "link \<Rightarrow> link \<Rightarrow> link" where
  "link_merge l rhs =
     (let l = (if mEndpointName rhs \<noteq> [] then l\<lparr>mEndpointName := mEndpointName rhs\<rparr> else l) in
      if mCarrierName rhs \<noteq> [] then l\<lparr>mCarrierName := mCarrierName rhs\<rparr> else l)"

definition update_link :: "string \<Rightarrow> string \<Rightarrow> string \<Rightarrow> (string \<rightharpoonup> link) \<Rightarrow> (string \<rightharpoonup> link)" where
  "update_link name endpoint carrierName links =
     (let link = \<lparr>mEndpointName = endpoint, mCarrierName = carrierName\<rparr> in
      if link_empty link then
        (case links name of None \<Rightarrow> links | Some _ \<Rightarrow> links(name := None))
      else
        (case links name of
           None \<Rightarrow> links(name \<mapsto> link)
         | Some l \<Rightarrow> links(name \<mapsto> link_merge l link)))"

definition updateRxLink :: "string \<Rightarrow> string \<Rightarrow> string \<Rightarrow> uplane \<Rightarrow> uplane" where
  "updateRxLink name endpoint carrierName s = s\<lparr>mRxLinks := update_link name endpoint carrierName (mRxLinks s)\<rparr>"

definition updateTxLink :: "string \<Rightarrow> string \<Rightarrow> string \<Rightarrow> uplane \<Rightarrow> uplane" where
  "updateTxLink name endpoint carrierName s = s\<lparr>mTxLinks := update_link name endpoint carrierName (mTxLinks s)\<rparr>"

section \<open>Carriers\<close>

text \<open>\<open>updateRxCarrier\<close> and \<open>updateTxCarrier\<close> of the carrier manager.\<close>

definition mgr_updateRxCarrier :: "string \<Rightarrow> uplane \<Rightarrow> uplane" where
  "mgr_updateRxCarrier carrierName s =
     (if carrierName \<in> mRxCarriers s then s
      else s\<lparr>leaves := leaves s @
        [Container ''rx-array-carriers'' (addLeaf ''name'' carrierName [] @ [State_leaf ''state'' Rx carrierName])]\<rparr>)"

definition mgr_updateTxCarrier :: "string \<Rightarrow> uplane \<Rightarrow> uplane" where
  "mgr_updateTxCarrier carrierName s =
     (if carrierName \<in> mTxCarriers s then s
      else s\<lparr>leaves := leaves s @
        [Container ''tx-array-carriers'' (addLeaf ''name'' carrierName [] @ [State_leaf ''state'' Tx carrierName])]\<rparr>)"

text \<open>The same names in the handler.\<close>

definition updateRxCarrier :: "string \<Rightarrow> uplane \<Rightarrow> uplane" where
  "updateRxCarrier carrierName s =
     (if mRxCarrierState s carrierName \<noteq> None then s
      else mgr_updateRxCarrier carrierName
        (s\<lparr>mRxCarrierState := (mRxCarrierState s)(carrierName \<mapsto> ''DISABLED'')\<rparr>))"

definition updateTxCarrier :: "string \<Rightarrow> uplane \<Rightarrow> uplane" where
  "updateTxCarrier carrierName s =
     (if mTxCarrierState s carrierName \<noteq> None then s
      else mgr_updateTxCarrier carrierName
        (s\<lparr>mTxCarrierState := (mTxCarrierState s)(carrierName \<mapsto> ''DISABLED'')\<rparr>))"

section \<open>Notifications and callbacks\<close>

definition path :: "string \<Rightarrow> string" where
  "path p = ''/o-ran-uplane-conf:'' @ p"

definition carrierChangeNotification :: "string \<Rightarrow> string \<Rightarrow> string \<Rightarrow> string \<Rightarrow> uplane \<Rightarrow> uplane" where
  "carrierChangeNotification d carrierName currentState newState s =
     (if newState = currentState then s
      else
        let notifPath = path (d @ ''-array-carriers-state-change'');
            carrierPath = notifPath @ ''/'' @ d @ ''-array-carriers[name='' @ CHR 0x27 # carrierName @ [CHR 0x27, CHR '']''] in
        s\<lparr>notifications := notifications s @
          [(notifPath, [(carrierPath @ ''/name'', carrierName), (carrierPath @ ''/state'', newState)])]\<rparr>)"

text \<open>\<open>std::map::operator[]\<close> of the states: a missing entry is made, with the empty string.\<close>

definition state_of :: "(string \<rightharpoonup> string) \<Rightarrow> string \<Rightarrow> string" where
  "state_of m name = (case m name of None \<Rightarrow> [] | Some v \<Rightarrow> v)"

definition rxCarrierStateCallback :: "string \<Rightarrow> carrier_state \<Rightarrow> uplane \<Rightarrow> uplane" where
  "rxCarrierStateCallback name carrierState s =
     (let s = updateRxCarrier name s;
          oldState = state_of (mRxCarrierState s) name;
          newState = state_name carrierState;
          s = s\<lparr>mRxCarrierState := (mRxCarrierState s)(name \<mapsto> newState)\<rparr> in
      carrierChangeNotification ''rx'' name oldState newState s)"

definition txCarrierStateCallback :: "string \<Rightarrow> carrier_state \<Rightarrow> uplane \<Rightarrow> uplane" where
  "txCarrierStateCallback name carrierState s =
     (let s = updateTxCarrier name s;
          oldState = state_of (mTxCarrierState s) name;
          newState = state_name carrierState;
          s = s\<lparr>mTxCarrierState := (mTxCarrierState s)(name \<mapsto> newState)\<rparr> in
      carrierChangeNotification ''tx'' name oldState newState s)"

text \<open>The static wrappers that are registered with the hardware abstraction.\<close>

definition carrierStateCallbackWrapper :: "dir \<Rightarrow> string \<Rightarrow> carrier_state \<Rightarrow> uplane \<Rightarrow> uplane" where
  "carrierStateCallbackWrapper d name carrierState s =
     (if handler_instance s then
        (case d of Rx \<Rightarrow> rxCarrierStateCallback name carrierState s | Tx \<Rightarrow> txCarrierStateCallback name carrierState s)
      else s)"

fun run_callbacks :: "(dir \<times> string \<times> carrier_state) list \<Rightarrow> uplane \<Rightarrow> uplane" where
  "run_callbacks [] s = s"
| "run_callbacks ((d, name, st) # cbs) s = run_callbacks cbs (carrierStateCallbackWrapper d name st s)"

section \<open>A call through the loader\<close>

definition hal :: "env \<Rightarrow> hal_call \<Rightarrow> uplane \<Rightarrow> int \<times> uplane" where
  "hal env c s =
     (if e_loaded env (hal_symbol c) then
        let r = e_module env (hal_calls s) c in
        (hr_status r, run_callbacks (hr_states r) (s\<lparr>hal_calls := hal_calls s @ [c]\<rparr>))
      else (1, s))"

end
