(* ===== verification/CarrierMgr.thy ===== *)
theory CarrierMgr
  imports CarrierState
begin

text \<open>
  The endpoint updates of \<open>OranYangCarrierMgr.cpp\<close>: compression, dynamic compression and
  address data of the low-level endpoints, kept by endpoint and passed on to the hardware
  abstraction. \<open>std::stoi\<close> may throw in the middle of an update; what was stored before
  stays, and the hardware abstraction is not called.
\<close>

section \<open>An update of a kept object\<close>

text \<open>The object of the endpoint, made on demand and changed in place, then the call.\<close>

definition update_object ::
    "(uplane \<Rightarrow> string \<Rightarrow> 'c option) \<Rightarrow> (string \<Rightarrow> 'c \<Rightarrow> uplane \<Rightarrow> uplane) \<Rightarrow> 'c \<Rightarrow>
     (string \<Rightarrow> 'c \<Rightarrow> hal_call) \<Rightarrow> env \<Rightarrow> string \<Rightarrow> 'c cpp \<Rightarrow> uplane cpp" where
  "update_object get put zero call env endpointName change s =
     (let obj = (case get s endpointName of None \<Rightarrow> zero | Some c \<Rightarrow> c) in
      case change obj of
        (Some e, obj) \<Rightarrow> (Some e, put endpointName obj s)
      | (None, obj) \<Rightarrow> (None, snd (hal env (call endpointName obj) (put endpointName obj s))))"

section \<open>Compression\<close>

definition set_type :: "string \<Rightarrow> compression cpp" where
  "set_type compressionType c =
     (if compressionType = ''STATIC'' then (None, c\<lparr>compression_type := STATIC\<rparr>)
      else if compressionType = ''DYNAMIC'' then (None, c\<lparr>compression_type := DYNAMIC\<rparr>)
      else (None, c))"

abbreviation put_byte0 :: "int \<Rightarrow> compression \<Rightarrow> compression" where
  "put_byte0 v c \<equiv> c\<lparr>u_byte0 := of_int v\<rparr>"

abbreviation put_byte1 :: "int \<Rightarrow> compression \<Rightarrow> compression" where
  "put_byte1 v c \<equiv> c\<lparr>u_byte1 := of_int v\<rparr>"

abbreviation put_half :: "int \<Rightarrow> compression \<Rightarrow> compression" where
  "put_half v c \<equiv> c\<lparr>u_half := of_int v\<rparr>"

definition set_format_rx :: "string \<Rightarrow> string \<Rightarrow> string \<Rightarrow> compression cpp list" where
  "set_format_rx compressionFormat val1 val2 =
     (if compressionFormat = ''block-floating-point'' then [assign val1 put_byte0]
      else if compressionFormat = ''block-floating-point-selective-re-sending'' then [assign val1 put_byte0]
      else if compressionFormat = ''block-scaling'' then [assign val1 put_byte0]
      else if compressionFormat = ''u-law'' then [assign_if val1 put_byte0, assign_if val2 put_byte1]
      else if compressionFormat = ''beam-space-compression'' then [assign_if val1 put_byte0, assign_if val2 put_byte1]
      else if compressionFormat = ''modulation-compression'' then [assign_if val1 put_byte0, assign_if val2 put_half]
      else if compressionFormat = ''modulation-compression-selective-re-sending'' then
        [assign_if val1 put_byte0, assign_if val2 put_half]
      else [])"

definition updateRxEndpointCompression ::
    "env \<Rightarrow> string \<Rightarrow> string \<Rightarrow> string \<Rightarrow> string \<Rightarrow> string \<Rightarrow> string \<Rightarrow> uplane cpp" where
  "updateRxEndpointCompression env endpointName iqBitwidth compressionType compressionFormat val1 val2 =
     update_object mRxEndpointComps (\<lambda>e c s. s\<lparr>mRxEndpointComps := (mRxEndpointComps s)(e \<mapsto> c)\<rparr>)
       compression_zero (Update_compression Rx) env endpointName
       (in_order ([assign_if iqBitwidth (\<lambda>v c. c\<lparr>iq_bitwidth := of_int v\<rparr>), set_type compressionType] @
          set_format_rx compressionFormat val1 val2))"

text \<open>
  The transmit side converts both values without a test, and stores the second one of beam
  space compression in \<open>block_scalar\<close>, the first byte of the union.
\<close>

definition set_format_tx :: "string \<Rightarrow> string \<Rightarrow> string \<Rightarrow> compression cpp list" where
  "set_format_tx compressionFormat val1 val2 =
     (if compressionFormat = ''block-floating-point'' then [assign val1 put_byte0]
      else if compressionFormat = ''block-floating-point-selective-re-sending'' then [assign val1 put_byte0]
      else if compressionFormat = ''block-scaling'' then [assign val1 put_byte0]
      else if compressionFormat = ''u-law'' then [assign val1 put_byte0, assign val2 put_byte1]
      else if compressionFormat = ''beam-space-compression'' then [assign val1 put_byte0, assign val2 put_byte0]
      else if compressionFormat = ''modulation-compression'' then [assign val1 put_byte0, assign val2 put_half]
      else if compressionFormat = ''modulation-compression-selective-re-sending'' then
        [assign val1 put_byte0, assign val2 put_half]
      else [])"

definition updateTxEndpointCompression ::
    "env \<Rightarrow> string \<Rightarrow> string \<Rightarrow> string \<Rightarrow> string \<Rightarrow> string \<Rightarrow> string \<Rightarrow> uplane cpp" where
  "updateTxEndpointCompression env endpointName iqBitwidth compressionType compressionFormat val1 val2 =
     update_object mTxEndpointComps (\<lambda>e c s. s\<lparr>mTxEndpointComps := (mTxEndpointComps s)(e \<mapsto> c)\<rparr>)
       compression_zero (Update_compression Tx) env endpointName
       (in_order ([assign_if iqBitwidth (\<lambda>v c. c\<lparr>iq_bitwidth := of_int v\<rparr>), set_type compressionType] @
          set_format_tx compressionFormat val1 val2))"

section \<open>Address data\<close>

definition set_eaxc :: "string \<Rightarrow> string \<Rightarrow> string \<Rightarrow> string \<Rightarrow> string \<Rightarrow> e_axcid cpp" where
  "set_eaxc oduPortBitmask bandSectorBitmask ccidBitmask ruPortBitmask eaxcId =
     in_order
      [assign_if oduPortBitmask (\<lambda>v x. x\<lparr>o_du_port_bitmask := of_int v\<rparr>),
       assign_if bandSectorBitmask (\<lambda>v x. x\<lparr>band_sector_bitmask := of_int v\<rparr>),
       assign_if ccidBitmask (\<lambda>v x. x\<lparr>ccid_bitmask := of_int v\<rparr>),
       assign_if ruPortBitmask (\<lambda>v x. x\<lparr>ru_port_bitmask := of_int v\<rparr>),
       assign_if eaxcId (\<lambda>v x. x\<lparr>eaxc_id := of_int v\<rparr>)]"

definition updateRxEndpointEaxc ::
    "env \<Rightarrow> string \<Rightarrow> string \<Rightarrow> string \<Rightarrow> string \<Rightarrow> string \<Rightarrow> string \<Rightarrow> uplane cpp" where
  "updateRxEndpointEaxc env endpointName oduPortBitmask bandSectorBitmask ccidBitmask ruPortBitmask eaxcId =
     update_object mRxEndpointEaxcs (\<lambda>e x s. s\<lparr>mRxEndpointEaxcs := (mRxEndpointEaxcs s)(e \<mapsto> x)\<rparr>)
       e_axcid_zero (Update_eaxc Rx) env endpointName
       (set_eaxc oduPortBitmask bandSectorBitmask ccidBitmask ruPortBitmask eaxcId)"

definition updateTxEndpointEaxc ::
    "env \<Rightarrow> string \<Rightarrow> string \<Rightarrow> string \<Rightarrow> string \<Rightarrow> string \<Rightarrow> string \<Rightarrow> uplane cpp" where
  "updateTxEndpointEaxc env endpointName oduPortBitmask bandSectorBitmask ccidBitmask ruPortBitmask eaxcId =
     update_object mTxEndpointEaxcs (\<lambda>e x s. s\<lparr>mTxEndpointEaxcs := (mTxEndpointEaxcs s)(e \<mapsto> x)\<rparr>)
       e_axcid_zero (Update_eaxc Tx) env endpointName
       (set_eaxc oduPortBitmask bandSectorBitmask ccidBitmask ruPortBitmask eaxcId)"

section \<open>Dynamic compression\<close>

text \<open>
  The method is the \<open>c_str()\<close> of a string that is destroyed at the end of the statement.
\<close>

definition set_dyn :: "int \<Rightarrow> string \<Rightarrow> string \<Rightarrow> dyn_compression cpp" where
  "set_dyn idVal iqBitwidth compressionMethod =
     in_order
      [\<lambda>c. (None, c\<lparr>dc_id := of_int idVal\<rparr>),
       assign_if iqBitwidth (\<lambda>v c. c\<lparr>dc_iq_bitwidth := of_int v\<rparr>),
       if compressionMethod = [] then skip else (\<lambda>c. (None, c\<lparr>dc_method := Dangling\<rparr>))]"

text \<open>
  \<open>auto configs = m[endpointName]\<close> makes the map of the endpoint before the identifier is
  converted.
\<close>

definition dyn_configs :: "(string \<rightharpoonup> (int \<rightharpoonup> dyn_compression)) \<Rightarrow> string \<Rightarrow> (int \<rightharpoonup> dyn_compression)" where
  "dyn_configs m endpointName = (case m endpointName of None \<Rightarrow> Map.empty | Some configs \<Rightarrow> configs)"

definition update_dyn ::
    "(uplane \<Rightarrow> string \<rightharpoonup> (int \<rightharpoonup> dyn_compression)) \<Rightarrow>
     ((string \<rightharpoonup> (int \<rightharpoonup> dyn_compression)) \<Rightarrow> uplane \<Rightarrow> uplane) \<Rightarrow> dir \<Rightarrow> env \<Rightarrow>
     string \<Rightarrow> string \<Rightarrow> string \<Rightarrow> string \<Rightarrow> uplane cpp" where
  "update_dyn get put d env endpointName ident iqBitwidth compressionMethod s =
     (let configs = dyn_configs (get s) endpointName;
          s = put ((get s)(endpointName \<mapsto> configs)) s in
      case stoi ident of
        Inl e \<Rightarrow> (Some e, s)
      | Inr idVal \<Rightarrow>
          update_object (\<lambda>s e. dyn_configs (get s) e idVal)
            (\<lambda>e c s. put ((get s)(e \<mapsto> (dyn_configs (get s) e)(idVal \<mapsto> c))) s)
            dyn_compression_zero (Update_dyn_config d) env endpointName
            (set_dyn idVal iqBitwidth compressionMethod) s)"

definition updateRxEndpointDynCompConfig :: "env \<Rightarrow> string \<Rightarrow> string \<Rightarrow> string \<Rightarrow> string \<Rightarrow> uplane cpp" where
  "updateRxEndpointDynCompConfig =
     update_dyn mRxEndpointDynComps (\<lambda>m s. s\<lparr>mRxEndpointDynComps := m\<rparr>) Rx"

definition updateTxEndpointDynCompConfig :: "env \<Rightarrow> string \<Rightarrow> string \<Rightarrow> string \<Rightarrow> string \<Rightarrow> uplane cpp" where
  "updateTxEndpointDynCompConfig =
     update_dyn mTxEndpointDynComps (\<lambda>m s. s\<lparr>mTxEndpointDynComps := m\<rparr>) Tx"

end
