(* ===== verification/SysrepoError.thy ===== *)
theory SysrepoError
  imports Main
begin

text \<open>
  The error codes of \<open>sysrepo\<close> (\<open>sr_error_t\<close>) as \<open>RadioDatastoreSysrepo.cpp\<close> lists them, and the
  results of the YANG manager (\<open>YangTypes.h\<close>).
\<close>

datatype sr_error =
    SR_ERR_OK | SR_ERR_INVAL_ARG | SR_ERR_LY | SR_ERR_SYS | SR_ERR_NOMEM | SR_ERR_NOT_FOUND | SR_ERR_EXISTS
  | SR_ERR_INTERNAL | SR_ERR_UNSUPPORTED | SR_ERR_VALIDATION_FAILED | SR_ERR_OPERATION_FAILED
  | SR_ERR_UNAUTHORIZED | SR_ERR_LOCKED | SR_ERR_TIME_OUT | SR_ERR_CALLBACK_FAILED | SR_ERR_CALLBACK_SHELVE

datatype yang_result = YANG_OK | YANG_FAIL | YANG_INVALID_TYPE | YANG_EXISTS | YANG_NOT_FOUND

definition typeStr :: "sr_error \<Rightarrow> string" where
  "typeStr e =
     (case e of
        SR_ERR_OK \<Rightarrow> ''SR_ERR_OK'' | SR_ERR_INVAL_ARG \<Rightarrow> ''SR_ERR_INVAL_ARG'' | SR_ERR_LY \<Rightarrow> ''SR_ERR_LY''
      | SR_ERR_SYS \<Rightarrow> ''SR_ERR_SYS'' | SR_ERR_NOMEM \<Rightarrow> ''SR_ERR_NOMEM'' | SR_ERR_NOT_FOUND \<Rightarrow> ''SR_ERR_NOT_FOUND''
      | SR_ERR_EXISTS \<Rightarrow> ''SR_ERR_EXISTS'' | SR_ERR_INTERNAL \<Rightarrow> ''SR_ERR_INTERNAL''
      | SR_ERR_UNSUPPORTED \<Rightarrow> ''SR_ERR_UNSUPPORTED''
      | SR_ERR_VALIDATION_FAILED \<Rightarrow> ''SR_ERR_VALIDATION_FAILED''
      | SR_ERR_OPERATION_FAILED \<Rightarrow> ''SR_ERR_OPERATION_FAILED'' | SR_ERR_UNAUTHORIZED \<Rightarrow> ''SR_ERR_UNAUTHORIZED''
      | SR_ERR_LOCKED \<Rightarrow> ''SR_ERR_LOCKED'' | SR_ERR_TIME_OUT \<Rightarrow> ''SR_ERR_TIME_OUT''
      | SR_ERR_CALLBACK_FAILED \<Rightarrow> ''SR_ERR_CALLBACK_FAILED''
      | SR_ERR_CALLBACK_SHELVE \<Rightarrow> ''SR_ERR_CALLBACK_SHELVE'')"

end
