(* ===== verification/UplaneHandler.thy ===== *)
theory UplaneHandler
  imports CarrierMgr SysrepoError
begin

text \<open>
  \<open>OranUplaneConfHandler.cpp\<close>: what the handler of \<open>o-ran-uplane-conf\<close> does with a changed
  value, with a set of changes that is to be validated, and at the start.
\<close>

datatype value_phase = VALUE_VALIDATE | VALUE_APPLY

section \<open>Endpoints\<close>

definition handleEaxc :: "env \<Rightarrow> string \<Rightarrow> string \<Rightarrow> string \<Rightarrow> bool \<Rightarrow> uplane cpp" where
  "handleEaxc env endpointName leaf v rx =
     (if rx then
        (if leaf = ''o-du-port-bitmask'' then updateRxEndpointEaxc env endpointName v [] [] [] []
         else if leaf = ''band-sector-bitmask'' then updateRxEndpointEaxc env endpointName [] v [] [] []
         else if leaf = ''ccid-bitmask'' then updateRxEndpointEaxc env endpointName [] [] v [] []
         else if leaf = ''ru-port-bitmask'' then updateRxEndpointEaxc env endpointName [] [] [] v []
         else if leaf = ''eaxc-id'' then updateRxEndpointEaxc env endpointName [] [] [] [] v
         else skip)
      else
        (if leaf = ''o-du-port-bitmask'' then updateTxEndpointEaxc env endpointName v [] [] [] []
         else if leaf = ''band-sector-bitmask'' then updateTxEndpointEaxc env endpointName [] v [] [] []
         else if leaf = ''ccid-bitmask'' then updateTxEndpointEaxc env endpointName [] [] v [] []
         else if leaf = ''ru-port-bitmask'' then updateTxEndpointEaxc env endpointName [] [] [] v []
         else if leaf = ''eaxc-id'' then updateTxEndpointEaxc env endpointName [] [] [] [] v
         else skip))"

definition handleDynCompConfig :: "env \<Rightarrow> string \<Rightarrow> string \<Rightarrow> string \<Rightarrow> string \<Rightarrow> bool \<Rightarrow> uplane cpp" where
  "handleDynCompConfig env endpointName ident leaf v rx =
     (if rx then
        (if leaf = ''iq-bitwidth'' then updateRxEndpointDynCompConfig env endpointName ident v []
         else if leaf = ''compression-method'' then updateRxEndpointDynCompConfig env endpointName ident [] v
         else skip)
      else
        (if leaf = ''iq-bitwidth'' then updateTxEndpointDynCompConfig env endpointName ident v []
         else if leaf = ''compression-method'' then updateTxEndpointDynCompConfig env endpointName ident [] v
         else skip))"

text \<open>The arguments of the update for a leaf: format, first and second value.\<close>

definition compression_leaf :: "string \<Rightarrow> (string \<times> bool) option" where
  "compression_leaf leaf =
     (if leaf = ''exponent'' then Some (''block-floating-point'', True)
      else if leaf = ''sres-exponent'' then Some (''block-floating-point-selective-re-sending'', True)
      else if leaf = ''block-scalar'' then Some (''block-scaling'', True)
      else if leaf = ''comp-bit-width'' then Some (''u-law'', True)
      else if leaf = ''comp-shift'' then Some (''u-law'', False)
      else if leaf = ''active-beam-space-coeficient-mask'' then Some (''beam-space-compression'', True)
      else if leaf = ''block-scaler'' then Some (''beam-space-compression'', False)
      else if leaf = ''csf'' then Some (''modulation-compression'', True)
      else if leaf = ''mod-comp-scaler'' then Some (''modulation-compression'', False)
      else if leaf = ''sres-csf'' then Some (''modulation-compression-selective-re-sending'', True)
      else if leaf = ''sres-mod-comp-scaler'' then Some (''modulation-compression-selective-re-sending'', False)
      else None)"

definition handleCompression :: "env \<Rightarrow> string \<Rightarrow> string \<Rightarrow> string \<Rightarrow> bool \<Rightarrow> uplane cpp" where
  "handleCompression env endpointName leaf v rx =
     (let update = (if rx then updateRxEndpointCompression else updateTxEndpointCompression) env endpointName in
      if leaf = ''iq-bitwidth'' then update v [] [] [] []
      else if leaf = ''compression-type'' then update [] v [] [] []
      else case compression_leaf leaf of
        None \<Rightarrow> skip
      | Some (fmt, True) \<Rightarrow> update [] [] fmt v []
      | Some (fmt, False) \<Rightarrow> update [] [] fmt [] v)"

section \<open>Activation\<close>

definition getArrayCarrier :: "env \<Rightarrow> string \<Rightarrow> string \<Rightarrow> (string \<times> yang_param) list" where
  "getArrayCarrier env d carrierName =
     getParams (e_items env (path ''user-plane-configuration'' @ ''/'' @ d @ ''-array-carriers[name='' @
       CHR 0x27 # carrierName @ CHR 0x27 # '']//.''))"

text \<open>The gain is named \<open>gain-correction\<close> on the receive side.\<close>

definition change_carrier :: "env \<Rightarrow> dir \<Rightarrow> string \<Rightarrow> string \<Rightarrow> string \<Rightarrow> value_phase \<Rightarrow> uplane \<Rightarrow> sr_error \<times> uplane" where
  "change_carrier env d gain_leaf name v phase s =
     (let carrierData = getArrayCarrier env (txrx d) name;
          chbw = paramValUInt64 carrierData ''channel-bandwidth'';
          center = paramValUInt64 carrierData ''center-of-channel-bandwidth'';
          gain = paramValDecimal64 carrierData gain_leaf;
          (ret, s) = hal env (Carrier_state_change d name chbw center gain v (phase = VALUE_APPLY)) s in
      (if ret \<noteq> 0 then SR_ERR_INVAL_ARG else SR_ERR_OK, s))"

definition handleActivate :: "env \<Rightarrow> string \<Rightarrow> string \<Rightarrow> string \<Rightarrow> value_phase \<Rightarrow> uplane \<Rightarrow> sr_error \<times> uplane" where
  "handleActivate env pname leaf v phase s =
     (let (_, listName, _, name) = listIndex pname in
      if listName = ''rx-array-carriers'' then
        (if leaf \<noteq> ''active'' then (SR_ERR_OK, s) else change_carrier env Rx ''gain-correction'' name v phase s)
      else if listName = ''tx-array-carriers'' then
        (if leaf \<noteq> ''active'' then (SR_ERR_OK, s) else change_carrier env Tx ''gain'' name v phase s)
      else (SR_ERR_OK, s))"

section \<open>Values\<close>

text \<open>A link leaf: the index of the list names the link.\<close>

definition link_value ::
    "(string \<Rightarrow> string \<Rightarrow> string \<Rightarrow> uplane \<Rightarrow> uplane) \<Rightarrow> string \<Rightarrow> string \<Rightarrow> string \<Rightarrow> string \<Rightarrow> string \<Rightarrow> uplane \<Rightarrow> sr_error \<times> uplane" where
  "link_value update endpoint_leaf carrier_leaf index leaf v s =
     (let endpoint = (if leaf = endpoint_leaf then v else []);
          carrierName = (if leaf = carrier_leaf then v else []) in
      if endpoint = [] \<and> carrierName = [] then (SR_ERR_INVAL_ARG, s)
      else (SR_ERR_OK, update index endpoint carrierName s))"

text \<open>A leaf of an array carrier; the lookup of the state makes a missing entry.\<close>

definition rx_carrier_value :: "env \<Rightarrow> string \<Rightarrow> string \<Rightarrow> string \<Rightarrow> string \<Rightarrow> uplane \<Rightarrow> sr_error \<times> uplane" where
  "rx_carrier_value env pname index leaf v s =
     (if leaf = ''name'' then (SR_ERR_OK, updateRxCarrier v s)
      else if leaf \<noteq> ''active'' then (SR_ERR_OK, s)
      else if v = ''INACTIVE'' then
        (let st = state_of (mRxCarrierState s) index;
             s = s\<lparr>mRxCarrierState := (mRxCarrierState s)(index \<mapsto> st)\<rparr> in
         if st = ''DISABLED'' then (SR_ERR_OK, s) else handleActivate env pname leaf v VALUE_APPLY s)
      else handleActivate env pname leaf v VALUE_APPLY s)"

definition tx_carrier_value :: "env \<Rightarrow> string \<Rightarrow> string \<Rightarrow> string \<Rightarrow> string \<Rightarrow> uplane \<Rightarrow> sr_error \<times> uplane" where
  "tx_carrier_value env pname index leaf v s =
     (if leaf = ''name'' then (SR_ERR_OK, updateTxCarrier v s)
      else if leaf \<noteq> ''active'' then (SR_ERR_OK, s)
      else if v = ''INACTIVE'' then
        (let st = state_of (mTxCarrierState s) index;
             s = s\<lparr>mTxCarrierState := (mTxCarrierState s)(index \<mapsto> st)\<rparr> in
         if st = ''DISABLED'' then (SR_ERR_OK, s) else handleActivate env pname leaf v VALUE_APPLY s)
      else handleActivate env pname leaf v VALUE_APPLY s)"

text \<open>
  A leaf of an endpoint; the second list of the path, if any, replaces the list name, the key
  and the index that the caller goes on with.
\<close>

definition endpoint_value ::
    "env \<Rightarrow> bool \<Rightarrow> string \<Rightarrow> string \<times> string \<times> string \<Rightarrow> string \<Rightarrow> string \<Rightarrow> string \<Rightarrow> uplane \<Rightarrow>
     exn option \<times> (string \<times> string \<times> string) \<times> uplane" where
  "endpoint_value env rx pname outs leaf v xpath s =
     (let (listName, key, index) = outs; endpointName = index in
      if \<not> contains xpath ''/compression/'' then
        (case handleEaxc env index leaf v rx s of (e, s) \<Rightarrow> (e, outs, s))
      else case listIndexN pname outs 2 of
        Inl e \<Rightarrow> (Some e, outs, s)
      | Inr (True, listName, key, index) \<Rightarrow>
          (case handleDynCompConfig env endpointName index leaf v rx s of (e, s) \<Rightarrow> (e, (listName, key, index), s))
      | Inr (False, listName, key, index) \<Rightarrow>
          (case handleCompression env index leaf v rx s of (e, s) \<Rightarrow> (e, (listName, key, index), s)))"

definition endpoints_value ::
    "env \<Rightarrow> string \<Rightarrow> string \<times> string \<times> string \<Rightarrow> string \<Rightarrow> string \<Rightarrow> string \<Rightarrow> uplane \<Rightarrow> (exn + sr_error) \<times> uplane" where
  "endpoints_value env pname outs leaf v xpath s =
     (case (if fst outs = ''low-level-rx-endpoints'' then endpoint_value env True pname outs leaf v xpath s
            else (None, outs, s)) of
        (Some e, _, s) \<Rightarrow> (Inl e, s)
      | (None, outs, s) \<Rightarrow>
     (case (if fst outs = ''low-level-tx-endpoints'' then endpoint_value env False pname outs leaf v xpath s
            else (None, outs, s)) of
        (Some e, _, s) \<Rightarrow> (Inl e, s)
      | (None, _, s) \<Rightarrow> (Inr SR_ERR_OK, s)))"

definition processValue :: "env \<Rightarrow> string \<Rightarrow> string \<Rightarrow> string \<Rightarrow> string \<Rightarrow> uplane \<Rightarrow> (exn + sr_error) \<times> uplane" where
  "processValue env pname leaf v xpath s =
     (let (_, listName, key, index) = listIndex pname in
      if listName = ''low-level-rx-links'' then
        apfst Inr (link_value updateRxLink ''low-level-rx-endpoint'' ''rx-array-carrier'' index leaf v s)
      else if listName = ''low-level-tx-links'' then
        apfst Inr (link_value updateTxLink ''low-level-tx-endpoint'' ''tx-array-carrier'' index leaf v s)
      else if listName = ''rx-array-carriers'' then apfst Inr (rx_carrier_value env pname index leaf v s)
      else if listName = ''tx-array-carriers'' then apfst Inr (tx_carrier_value env pname index leaf v s)
      else endpoints_value env pname (listName, key, index) leaf v xpath s)"

definition validateValue :: "env \<Rightarrow> string \<Rightarrow> string \<Rightarrow> string \<Rightarrow> uplane \<Rightarrow> sr_error \<times> uplane" where
  "validateValue env pname leaf v s =
     (if leaf \<noteq> ''active'' then (SR_ERR_OK, s)
      else if v \<noteq> ''ACTIVE'' then (SR_ERR_OK, s)
      else handleActivate env pname leaf v VALUE_VALIDATE s)"

section \<open>Hooks of the change callback\<close>

definition valueChange :: "env \<Rightarrow> string \<Rightarrow> yang_param option \<Rightarrow> yang_param option \<Rightarrow> uplane cpp" where
  "valueChange env xpath oldValue newValue s =
     (case newValue of
        None \<Rightarrow> (None, s)
      | Some p \<Rightarrow>
          (case processValue env (y_name p) (leafName (y_name p)) (toString (e_double env) (y_val p)) xpath s of
             (Inl e, s) \<Rightarrow> (Some e, s)
           | (Inr _, s) \<Rightarrow> (None, s)))"

definition activates :: "env \<Rightarrow> yang_param \<Rightarrow> bool" where
  "activates env p \<longleftrightarrow> leafName (y_name p) = ''active'' \<and> toString (e_double env) (y_val p) = ''ACTIVE''"

text \<open>The second loop applies every value but the activations, the third checks those.\<close>

fun validate_apply :: "env \<Rightarrow> yang_param list \<Rightarrow> uplane \<Rightarrow> (exn + sr_error) \<times> uplane" where
  "validate_apply env [] s = (Inr SR_ERR_OK, s)"
| "validate_apply env (p # ps) s =
     (let leaf = leafName (y_name p) in
      if leaf = ''active'' then validate_apply env ps s
      else case processValue env (y_name p) leaf (toString (e_double env) (y_val p)) [] s of
        (Inl e, s) \<Rightarrow> (Inl e, s)
      | (Inr rc, s) \<Rightarrow> if rc \<noteq> SR_ERR_OK then (Inr rc, s) else validate_apply env ps s)"

fun validate_active :: "env \<Rightarrow> yang_param list \<Rightarrow> uplane \<Rightarrow> sr_error \<times> uplane" where
  "validate_active env [] s = (SR_ERR_OK, s)"
| "validate_active env (p # ps) s =
     (let leaf = leafName (y_name p) in
      if leaf \<noteq> ''active'' then validate_active env ps s
      else case validateValue env (y_name p) leaf (toString (e_double env) (y_val p)) s of
        (rc, s) \<Rightarrow> if rc \<noteq> SR_ERR_OK then (rc, s) else validate_active env ps s)"

definition validate :: "env \<Rightarrow> yang_param list \<Rightarrow> yang_param list \<Rightarrow> uplane \<Rightarrow> (exn + sr_error) \<times> uplane" where
  "validate env params deletedParams s =
     (if \<not> list_ex (activates env) params then (Inr SR_ERR_OK, s)
      else case validate_apply env params s of
        (Inl e, s) \<Rightarrow> (Inl e, s)
      | (Inr rc, s) \<Rightarrow>
          if rc \<noteq> SR_ERR_OK then (Inr rc, s) else apfst Inr (validate_active env params s))"

section \<open>Start\<close>

definition getLinks :: "env \<Rightarrow> string \<Rightarrow> (string \<times> (string \<times> string) list) list" where
  "getLinks env d =
     getKeyValues (e_double env)
       (e_items env (path ''user-plane-configuration'' @ ''/low-level-'' @ d @ ''-links//.''))"

definition init_link :: "(string \<Rightarrow> string \<Rightarrow> string \<Rightarrow> uplane \<Rightarrow> uplane) \<Rightarrow> string \<Rightarrow> string \<Rightarrow> string \<Rightarrow> string \<times> string \<Rightarrow> uplane \<Rightarrow> uplane" where
  "init_link update carrier_leaf endpoint_leaf name e s =
     (if fst e = carrier_leaf then update name [] (snd e) s
      else if fst e = endpoint_leaf then update name (snd e) [] s
      else s)"

definition init_links :: "(string \<Rightarrow> string \<Rightarrow> string \<Rightarrow> uplane \<Rightarrow> uplane) \<Rightarrow> string \<Rightarrow> string \<Rightarrow> (string \<times> (string \<times> string) list) list \<Rightarrow> uplane \<Rightarrow> uplane" where
  "init_links update carrier_leaf endpoint_leaf links =
     fold (\<lambda>(name, values). fold (init_link update carrier_leaf endpoint_leaf name) values) links"

definition carrier_names :: "env \<Rightarrow> string \<Rightarrow> string list" where
  "carrier_names env d =
     map fst (getKeyValues (e_double env)
       (e_items env (path ''user-plane-configuration'' @ ''/'' @ d @ ''-array-carriers//.'')))"

definition initialise :: "env \<Rightarrow> uplane \<Rightarrow> uplane" where
  "initialise env s =
     (let s = init_links updateTxLink ''tx-array-carrier'' ''low-level-tx-endpoint'' (getLinks env ''tx'') s;
          s = init_links updateRxLink ''rx-array-carrier'' ''low-level-rx-endpoint'' (getLinks env ''rx'') s;
          s = fold updateTxCarrier (carrier_names env ''tx'') s;
          s = fold updateRxCarrier (carrier_names env ''rx'') s;
          s = s\<lparr>handler_instance := True\<rparr>;
          s = snd (hal env (Register_carrier_state_cb Rx) s) in
      snd (hal env (Register_carrier_state_cb Tx) s))"

end
