(* ===== verification/HandlerCallback.thy ===== *)
theory HandlerCallback
  imports UplaneHandler
begin

text \<open>
  \<open>HandlerCallback.cpp\<close> and \<open>YangHandlerSysrepoUnlogged.cpp\<close>: how the server reacts to a change
  of the data store. The hooks of the handler and the functions given to the constructor
  are the operations of a record, so that the callback works for every handler; the
  handler of the user plane is one. The changes of a session are a list.
\<close>

section \<open>Changes and hooks\<close>

datatype sr_oper = SR_OP_CREATED | SR_OP_DELETED | SR_OP_MODIFIED | SR_OP_MOVED

record change =
  c_oper :: sr_oper
  c_old :: "sr_value option"
  c_new :: "sr_value option"

datatype sr_event = SR_EV_CHANGE | SR_EV_DONE | SR_EV_OTHER

record 's hooks =
  h_validate :: "yang_param list \<Rightarrow> yang_param list \<Rightarrow> 's \<Rightarrow> (exn + sr_error) \<times> 's"
  h_valueChange :: "string \<Rightarrow> yang_param option \<Rightarrow> yang_param option \<Rightarrow> 's cpp"
  h_paramDelete :: "string \<Rightarrow> yang_param \<Rightarrow> 's cpp"
  h_setVal :: "sr_value \<Rightarrow> 's cpp"
  h_complete :: "'s cpp"
  h_roPaths :: "'s \<Rightarrow> string set"

section \<open>Read-only paths\<close>

text \<open>
  The path of a change; a change without the expected values leaves the path of the one
  before.
\<close>

definition value_path :: "change \<Rightarrow> string \<Rightarrow> string" where
  "value_path c valuePath =
     (case c_oper c of
        SR_OP_CREATED \<Rightarrow> (case c_new c of Some n \<Rightarrow> v_xpath n | None \<Rightarrow> valuePath)
      | SR_OP_DELETED \<Rightarrow> (case c_old c of Some old \<Rightarrow> v_xpath old | None \<Rightarrow> valuePath)
      | SR_OP_MODIFIED \<Rightarrow>
          (case (c_old c, c_new c) of (Some old, Some n) \<Rightarrow> v_xpath old | _ \<Rightarrow> valuePath)
      | SR_OP_MOVED \<Rightarrow>
          (case (c_old c, c_new c) of
             (Some old, Some n) \<Rightarrow> v_xpath old
           | (None, Some n) \<Rightarrow> v_xpath n
           | _ \<Rightarrow> valuePath))"

fun check_changes :: "string set \<Rightarrow> string \<Rightarrow> change list \<Rightarrow> sr_error" where
  "check_changes readOnlyPaths valuePath [] = SR_ERR_OK"
| "check_changes readOnlyPaths valuePath (c # cs) =
     (let valuePath = value_path c valuePath in
      if valuePath \<noteq> [] \<and> (\<exists>p \<in> readOnlyPaths. startsWith valuePath p) then SR_ERR_VALIDATION_FAILED
      else check_changes readOnlyPaths valuePath cs)"

definition checkPseudoReadOnly :: "string set \<Rightarrow> change list \<Rightarrow> sr_error" where
  "checkPseudoReadOnly readOnlyPaths changes =
     (if readOnlyPaths = {} then SR_ERR_OK else check_changes readOnlyPaths [] changes)"

section \<open>Validation\<close>

text \<open>The parameter of a change; without the value, the one of the change before.\<close>

definition change_param :: "change \<Rightarrow> yang_param option \<Rightarrow> yang_param option" where
  "change_param c param =
     (case (if c_oper c = SR_OP_DELETED then c_old c else c_new c) of
        Some v \<Rightarrow> Some (setSysrepo v)
      | None \<Rightarrow> param)"

fun collect_params ::
    "(u64 \<Rightarrow> string) \<Rightarrow> change list \<Rightarrow> yang_param option \<Rightarrow> yang_param list \<times> yang_param list \<Rightarrow>
     yang_param list \<times> yang_param list" where
  "collect_params dbl [] param acc = acc"
| "collect_params dbl (c # cs) param (params, deletedParams) =
     (let param = change_param c param in
      collect_params dbl cs param
        (case param of
           None \<Rightarrow> (params, deletedParams)
         | Some p \<Rightarrow>
             if toString dbl (y_val p) = [] then (params, deletedParams)
             else if c_oper c \<noteq> SR_OP_DELETED then (params @ [p], deletedParams)
             else (params, deletedParams @ [p])))"

definition handleChangeEvent :: "(u64 \<Rightarrow> string) \<Rightarrow> 's hooks \<Rightarrow> change list \<Rightarrow> 's \<Rightarrow> sr_error \<times> 's" where
  "handleChangeEvent dbl h changes s =
     (let (params, deletedParams) = collect_params dbl changes None ([], []) in
      if params = [] then (SR_ERR_OK, s)
      else case h_validate h params deletedParams s of
        (Inl e, s) \<Rightarrow> (SR_ERR_OK, s)
      | (Inr rc, s) \<Rightarrow> (rc, s))"

section \<open>Applying\<close>

definition done_steps :: "'s hooks \<Rightarrow> string \<Rightarrow> change \<Rightarrow> 's cpp list" where
  "done_steps h xpath c =
     (let change = (\<lambda>old n. [h_valueChange h xpath old (Some (setSysrepo n)), h_setVal h n]) in
      case c_oper c of
        SR_OP_CREATED \<Rightarrow> (case c_new c of Some n \<Rightarrow> change None n | None \<Rightarrow> [])
      | SR_OP_DELETED \<Rightarrow> (case c_old c of Some old \<Rightarrow> [h_paramDelete h xpath (setSysrepo old)] | None \<Rightarrow> [])
      | SR_OP_MODIFIED \<Rightarrow>
          (case (c_old c, c_new c) of (Some old, Some n) \<Rightarrow> change (Some (setSysrepo old)) n | _ \<Rightarrow> [])
      | SR_OP_MOVED \<Rightarrow>
          (case (c_old c, c_new c) of
             (Some old, Some n) \<Rightarrow> change (Some (setSysrepo old)) n
           | (None, Some n) \<Rightarrow> change None n
           | _ \<Rightarrow> []))"

text \<open>An exception ends the loop, before the remaining changes and the completion.\<close>

definition handleDoneEvent :: "'s hooks \<Rightarrow> string \<Rightarrow> change list \<Rightarrow> 's \<Rightarrow> sr_error \<times> 's" where
  "handleDoneEvent h xpath changes s =
     (SR_ERR_OK, snd (in_order (concat (map (done_steps h xpath) changes) @ [h_complete h]) s))"

section \<open>The callback\<close>

text \<open>\<open>xpath\<close> is the path of the subscription, null when the whole module is subscribed to.\<close>

definition module_change ::
    "(u64 \<Rightarrow> string) \<Rightarrow> 's hooks \<Rightarrow> string option \<Rightarrow> sr_event \<Rightarrow> change list \<Rightarrow> 's \<Rightarrow> sr_error \<times> 's" where
  "module_change dbl h xpath event changes s =
     (let xpathString = (case xpath of None \<Rightarrow> [] | Some x \<Rightarrow> x) in
      if event = SR_EV_CHANGE then
        (let rc = checkPseudoReadOnly (h_roPaths h s) changes in
         if rc \<noteq> SR_ERR_OK then (rc, s) else handleChangeEvent dbl h changes s)
      else if event \<noteq> SR_EV_DONE then (SR_ERR_OK, s)
      else handleDoneEvent h xpathString changes s)"

section \<open>A session that throws\<close>

text \<open>
  The iterator of the changes of a session may throw after some of them: the changes it gives and whether it
  throws then. Every pass catches the exception. The pass for the read-only paths finds nothing in the changes
  that are missing, the validation is left out, and the done event leaves out the rest and the completion.
\<close>

type_synonym iteration = "change list \<times> bool"

definition checkPseudoReadOnly_it :: "string set \<Rightarrow> iteration \<Rightarrow> sr_error" where
  "checkPseudoReadOnly_it readOnlyPaths it = checkPseudoReadOnly readOnlyPaths (fst it)"

definition handleChangeEvent_it :: "(u64 \<Rightarrow> string) \<Rightarrow> 's hooks \<Rightarrow> iteration \<Rightarrow> 's \<Rightarrow> sr_error \<times> 's" where
  "handleChangeEvent_it dbl h it s = (if snd it then (SR_ERR_OK, s) else handleChangeEvent dbl h (fst it) s)"

definition handleDoneEvent_it :: "'s hooks \<Rightarrow> string \<Rightarrow> iteration \<Rightarrow> 's \<Rightarrow> sr_error \<times> 's" where
  "handleDoneEvent_it h xpath it s =
     (SR_ERR_OK, snd (in_order (concat (map (done_steps h xpath) (fst it)) @ (if snd it then [] else [h_complete h])) s))"

definition module_change_it ::
    "(u64 \<Rightarrow> string) \<Rightarrow> 's hooks \<Rightarrow> string option \<Rightarrow> sr_event \<Rightarrow> iteration \<Rightarrow> iteration \<Rightarrow> 's \<Rightarrow> sr_error \<times> 's" where
  "module_change_it dbl h xpath event check it s =
     (let xpathString = (case xpath of None \<Rightarrow> [] | Some x \<Rightarrow> x) in
      if event = SR_EV_CHANGE then
        (let rc = checkPseudoReadOnly_it (h_roPaths h s) check in
         if rc \<noteq> SR_ERR_OK then (rc, s) else handleChangeEvent_it dbl h it s)
      else if event \<noteq> SR_EV_DONE then (SR_ERR_OK, s)
      else handleDoneEvent_it h xpathString it s)"

text \<open>A session that does not throw gives the same changes in both passes: the callback from above.\<close>

lemma module_change_it_fine:
  "module_change_it dbl h xpath event (changes, False) (changes, False) s = module_change dbl h xpath event changes s"
  by (simp add: module_change_it_def module_change_def checkPseudoReadOnly_it_def handleChangeEvent_it_def
      handleDoneEvent_it_def handleDoneEvent_def Let_def)

text \<open>
  When the iterator throws at once, every set of changes is accepted, those below a read-only path included, and
  nothing is validated.
\<close>

lemma throwing_session_accepted: "module_change_it dbl h xpath SR_EV_CHANGE ([], True) ([], True) s = (SR_ERR_OK, s)"
  by (simp add: module_change_it_def checkPseudoReadOnly_it_def checkPseudoReadOnly_def handleChangeEvent_it_def)

text \<open>\<open>changeSubscribe(xpath)\<close>: the empty path subscribes to the whole module.\<close>

definition changeSubscribe :: "string \<Rightarrow> string option" where
  "changeSubscribe xpath = (if xpath \<noteq> [] then Some xpath else None)"

section \<open>The handler of the user plane\<close>

text \<open>
  \<open>setVal\<close>: the value, and then every other value that the data store returns for its path,
  because the path of an entry of a list need not be unique.
\<close>

definition setVal :: "env \<Rightarrow> sr_value \<Rightarrow> uplane cpp" where
  "setVal env val s =
     (let xpath = v_xpath val;
          p = persist_set xpath (e_val_to_string env val) (mPersist s);
          p = (case e_items env xpath of
            None \<Rightarrow> p
          | Some params \<Rightarrow>
              fold (\<lambda>q p. if y_name q = xpath then p else persist_set (y_name q) (toString (e_double env) (y_val q)) p)
                params p) in
      (None, s\<lparr>mPersist := p\<rparr>))"

text \<open>\<open>persistMgr()->write()\<close>\<close>

definition changeComplete :: "env \<Rightarrow> uplane cpp" where
  "changeComplete env s =
     (case persist_write (mPersist s) of
        None \<Rightarrow> (None, s)
      | Some text \<Rightarrow> (None, if e_save_opens env then s\<lparr>mSaveFile := Some text\<rparr> else s))"

definition uplane_hooks :: "env \<Rightarrow> uplane hooks" where
  "uplane_hooks env =
     \<lparr>h_validate = validate env,
      h_valueChange = valueChange env,
      h_paramDelete = (\<lambda>xpath oldValue s. (None, s)),
      h_setVal = setVal env,
      h_complete = changeComplete env,
      h_roPaths = mReadOnlyPaths\<rparr>"

text \<open>A change event of the subscription that \<open>initialise\<close> makes.\<close>

definition uplane_change :: "env \<Rightarrow> sr_event \<Rightarrow> change list \<Rightarrow> uplane \<Rightarrow> sr_error \<times> uplane" where
  "uplane_change env event changes s =
     module_change (e_double env) (uplane_hooks env) (changeSubscribe []) event changes s"

definition makeReadOnly :: "string set \<Rightarrow> uplane \<Rightarrow> uplane" where
  "makeReadOnly paths s = s\<lparr>mReadOnlyPaths := mReadOnlyPaths s \<union> paths\<rparr>"

definition removeReadOnly :: "string \<Rightarrow> uplane \<Rightarrow> uplane" where
  "removeReadOnly xpath s = s\<lparr>mReadOnlyPaths := mReadOnlyPaths s - {xpath}\<rparr>"

end
