(* ===== verification/UplaneInvariant.thy ===== *)
theory UplaneInvariant
  imports HandlerCallback
begin

text \<open>
  What every operation of the user-plane handler keeps. The locale \<open>uplane_inv\<close> asks of an
  invariant that the primitive steps keep it, with the calls of the hardware abstraction
  restricted to a class, and shows that the hooks keep it; the locale \<open>change_handler\<close> carries
  an invariant of the hooks over to the change callback of any handler.
\<close>

section \<open>An environment\<close>

text \<open>A module that answers an activation with the states BUSY and READY.\<close>

definition demo_env :: env where
  "demo_env = \<lparr>e_items = (\<lambda>_. None), e_double = (\<lambda>_. []), e_val_to_string = (\<lambda>_. []), e_save_opens = True,
     e_loaded = (\<lambda>_. True),
     e_module = (\<lambda>cs c. case c of
         Carrier_state_change d name _ _ _ _ True \<Rightarrow> \<lparr>hr_status = 0, hr_states = [(d, name, BUSY), (d, name, READY)]\<rparr>
       | _ \<Rightarrow> \<lparr>hr_status = 0, hr_states = []\<rparr>)\<rparr>"

definition fresh_state :: uplane where
  "fresh_state = \<lparr>mInitialised = False, mRxLinks = Map.empty, mTxLinks = Map.empty, mRxCarriers = {}, mTxCarriers = {},
     mRxEndpointComps = Map.empty, mTxEndpointComps = Map.empty, mRxEndpointEaxcs = Map.empty,
     mTxEndpointEaxcs = Map.empty, mRxEndpointDynComps = Map.empty, mTxEndpointDynComps = Map.empty, leaves = [],
     mRxCarrierState = Map.empty, mTxCarrierState = Map.empty, handler_instance = False, notifications = [],
     hal_calls = [], mReadOnlyPaths = {}, mPersist = \<lparr>mYangModelName = [], mDirty = False, mValues = [], mPersistPaths = {}\<rparr>,
     mSaveFile = None\<rparr>"

section \<open>The change callback keeps what the hooks keep\<close>

locale change_handler =
  fixes h :: "'s hooks" and xpath :: string and I :: "'s \<Rightarrow> bool"
  assumes validate_keeps: "I s \<Longrightarrow> I (snd (h_validate h ps ds s))"
    and valueChange_keeps: "I s \<Longrightarrow> I (snd (h_valueChange h xpath old new s))"
    and paramDelete_keeps: "I s \<Longrightarrow> I (snd (h_paramDelete h xpath p s))"
    and setVal_keeps: "I s \<Longrightarrow> I (snd (h_setVal h v s))"
    and complete_keeps: "I s \<Longrightarrow> I (snd (h_complete h s))"
begin

lemma in_order_keeps: "(\<And>f s. f \<in> set fs \<Longrightarrow> I s \<Longrightarrow> I (snd (f s))) \<Longrightarrow> I s \<Longrightarrow> I (snd (in_order fs s))"
proof (induction fs arbitrary: s)
  case (Cons f fs)
  have "I (snd (f s))"
    using Cons.prems by simp
  then show ?case
    using Cons.IH [of "snd (f s)"] Cons.prems(1) by (auto split: prod.split option.split)
qed simp

lemma done_steps_keep: "f \<in> set (done_steps h xpath c) \<Longrightarrow> I s \<Longrightarrow> I (snd (f s))"
  by (auto simp: done_steps_def Let_def valueChange_keeps paramDelete_keeps setVal_keeps
      split: sr_oper.splits option.splits)

lemma change_event_keeps: "I s \<Longrightarrow> I (snd (handleChangeEvent dbl h changes s))"
proof -
  assume "I s"
  then have "I (snd (h_validate h ps ds s))" for ps ds
    by (rule validate_keeps)
  then show ?thesis
    using \<open>I s\<close> by (auto simp: handleChangeEvent_def split: prod.split sum.split) (metis snd_conv)+
qed

lemma done_event_keeps: "I s \<Longrightarrow> I (snd (handleDoneEvent h xpath changes s))"
  by (auto simp: handleDoneEvent_def complete_keeps done_steps_keep intro!: in_order_keeps)

lemma module_change_keeps:
  "(case xp of None \<Rightarrow> [] | Some x \<Rightarrow> x) = xpath \<Longrightarrow> I s \<Longrightarrow> I (snd (module_change dbl h xp event changes s))"
  by (simp add: module_change_def Let_def change_event_keeps done_event_keeps)

end

section \<open>The hooks keep what the primitive steps keep\<close>

locale uplane_inv =
  fixes env :: env and I :: "uplane \<Rightarrow> bool" and P :: "hal_call \<Rightarrow> bool"
  assumes keeps_links: "I s \<Longrightarrow> I (updateRxLink n e c s)" "I s \<Longrightarrow> I (updateTxLink n e c s)"
    and keeps_comps: "I s \<Longrightarrow> I (s\<lparr>mRxEndpointComps := comps\<rparr>)" "I s \<Longrightarrow> I (s\<lparr>mTxEndpointComps := comps\<rparr>)"
    and keeps_eaxcs: "I s \<Longrightarrow> I (s\<lparr>mRxEndpointEaxcs := eaxcs\<rparr>)" "I s \<Longrightarrow> I (s\<lparr>mTxEndpointEaxcs := eaxcs\<rparr>)"
    and keeps_dyns: "I s \<Longrightarrow> I (s\<lparr>mRxEndpointDynComps := dyns\<rparr>)" "I s \<Longrightarrow> I (s\<lparr>mTxEndpointDynComps := dyns\<rparr>)"
    and keeps_persist: "I s \<Longrightarrow> I (s\<lparr>mPersist := p\<rparr>)" "I s \<Longrightarrow> I (s\<lparr>mSaveFile := f\<rparr>)"
    and keeps_carriers: "I s \<Longrightarrow> I (updateRxCarrier c s)" "I s \<Longrightarrow> I (updateTxCarrier c s)"
    and keeps_lookup:
      "I s \<Longrightarrow> I (s\<lparr>mRxCarrierState := (mRxCarrierState s)(i \<mapsto> state_of (mRxCarrierState s) i)\<rparr>)"
      "I s \<Longrightarrow> I (s\<lparr>mTxCarrierState := (mTxCarrierState s)(i \<mapsto> state_of (mTxCarrierState s) i)\<rparr>)"
    and keeps_hal: "P call \<Longrightarrow> I s \<Longrightarrow> I (snd (hal env call s))"
begin

lemma update_object_keeps:
  assumes "\<And>e c s. I s \<Longrightarrow> I (put e c s)" "\<And>e c. P (call e c)" "I s"
  shows "I (snd (update_object get put zero call env e change s))"
  by (auto simp: update_object_def Let_def assms keeps_hal split: prod.split option.split)

lemma handleEaxc_keeps:
  assumes "\<And>d e x. P (Update_eaxc d e x)" "I s"
  shows "I (snd (handleEaxc env e leaf v rx s))"
  by (simp add: handleEaxc_def updateRxEndpointEaxc_def updateTxEndpointEaxc_def skip_def
      update_object_keeps keeps_eaxcs assms)

lemma handleCompression_keeps:
  assumes "\<And>d e x. P (Update_compression d e x)" "I s"
  shows "I (snd (handleCompression env e leaf v rx s))"
  by (auto simp: handleCompression_def Let_def updateRxEndpointCompression_def updateTxEndpointCompression_def
      skip_def update_object_keeps keeps_comps assms split: option.split bool.split)

lemma update_dyn_keeps:
  assumes "\<And>m s. I s \<Longrightarrow> I (put m s)" "\<And>e x. P (Update_dyn_config d e x)" "I s"
  shows "I (snd (update_dyn get put d env e ident iq meth s))"
  by (auto simp: update_dyn_def Let_def assms update_object_keeps split: sum.split)

lemma handleDynCompConfig_keeps:
  assumes "\<And>d e x. P (Update_dyn_config d e x)" "I s"
  shows "I (snd (handleDynCompConfig env e ident leaf v rx s))"
  by (simp add: handleDynCompConfig_def updateRxEndpointDynCompConfig_def updateTxEndpointDynCompConfig_def
      skip_def update_dyn_keeps keeps_dyns assms)

lemma change_carrier_keeps:
  assumes "\<And>d n a b g v. P (Carrier_state_change d n a b g v (phase = VALUE_APPLY))" "I s"
  shows "I (snd (change_carrier env d gain_leaf name v phase s))"
proof -
  have "I (snd (hal env (Carrier_state_change d name a b g v (phase = VALUE_APPLY)) s))" for a b g
    by (rule keeps_hal [OF assms])
  then show ?thesis
    by (simp add: change_carrier_def Let_def split: prod.split) (metis snd_conv)
qed

lemma handleActivate_keeps:
  assumes "\<And>d n a b g v. P (Carrier_state_change d n a b g v (phase = VALUE_APPLY))" "I s"
  shows "I (snd (handleActivate env pname leaf v phase s))"
  using assms by (simp add: handleActivate_def change_carrier_keeps split: prod.split)

lemma link_value_keeps:
  "(\<And>n e c. I (update n e c s)) \<Longrightarrow> I s \<Longrightarrow> I (snd (link_value update el cl index leaf v s))"
  by (simp add: link_value_def Let_def)

lemma carrier_value_keeps:
  assumes "leaf = ''active'' \<Longrightarrow> (\<And>d n a b g v. P (Carrier_state_change d n a b g v True))" "I s"
  shows "I (snd (rx_carrier_value env pname index leaf v s))" "I (snd (tx_carrier_value env pname index leaf v s))"
  using assms keeps_lookup [OF assms(2), of index]
  by (auto simp: rx_carrier_value_def tx_carrier_value_def Let_def keeps_carriers intro!: handleActivate_keeps)

lemma endpoint_value_keeps:
  assumes "\<And>d e x. P (Update_eaxc d e x)"
    and "contains xpath ''/compression/'' \<Longrightarrow> (\<And>d e x. P (Update_compression d e x))"
    and "contains xpath ''/compression/'' \<Longrightarrow> (\<And>d e x. P (Update_dyn_config d e x))"
    and "I s"
  shows "I (snd (snd (endpoint_value env rx pname outs leaf v xpath s)))"
proof (cases outs)
  case (fields listName key index)
  have eaxc: "I (snd (handleEaxc env index leaf v rx s))"
    by (rule handleEaxc_keeps [OF assms(1,4)])
  have comp: "contains xpath ''/compression/'' \<Longrightarrow> I (snd (handleCompression env e leaf v rx s))" for e
    by (rule handleCompression_keeps [OF assms(2,4)])
  have dyn: "contains xpath ''/compression/'' \<Longrightarrow> I (snd (handleDynCompConfig env index e leaf v rx s))" for e
    by (rule handleDynCompConfig_keeps [OF assms(3,4)])
  show ?thesis
    using eaxc comp dyn assms(4)
    by (auto simp: endpoint_value_def fields split: prod.split sum.split bool.split) (metis snd_conv)+
qed

lemma endpoints_value_keeps:
  assumes "\<And>d e x. P (Update_eaxc d e x)"
    and "contains xpath ''/compression/'' \<Longrightarrow> (\<And>d e x. P (Update_compression d e x))"
    and "contains xpath ''/compression/'' \<Longrightarrow> (\<And>d e x. P (Update_dyn_config d e x))"
    and "I s"
  shows "I (snd (endpoints_value env pname outs leaf v xpath s))"
proof -
  let ?rx = "(if fst outs = ''low-level-rx-endpoints'' then endpoint_value env True pname outs leaf v xpath s
    else (None, outs, s))"
  have rx: "I (snd (snd ?rx))"
    using endpoint_value_keeps [OF assms] assms(4) by simp
  obtain e outs' s' where s': "?rx = (e, outs', s')"
    by (metis prod_cases3)
  have "I s'"
    using rx unfolding s' by simp
  then have "I (snd (snd (if fst outs' = ''low-level-tx-endpoints'' then
      endpoint_value env False pname outs' leaf v xpath s' else (None, outs', s'))))"
    using endpoint_value_keeps [OF assms(1-3)] by simp
  then show ?thesis
    using \<open>I s'\<close> unfolding endpoints_value_def s' by (auto split: option.split prod.split)
qed

lemma processValue_keeps:
  assumes "\<And>d e x. P (Update_eaxc d e x)"
    and "contains xpath ''/compression/'' \<Longrightarrow> (\<And>d e x. P (Update_compression d e x))"
    and "contains xpath ''/compression/'' \<Longrightarrow> (\<And>d e x. P (Update_dyn_config d e x))"
    and "leaf = ''active'' \<Longrightarrow> (\<And>d n a b g v. P (Carrier_state_change d n a b g v True))"
    and "I s"
  shows "I (snd (processValue env pname leaf v xpath s))"
  using endpoints_value_keeps [OF assms(1-3,5)] carrier_value_keeps [OF assms(4,5)] assms(5)
  by (simp add: processValue_def link_value_keeps keeps_links split: prod.split)

lemma valueChange_keeps:
  assumes "\<And>d e x. P (Update_eaxc d e x)"
    and "contains xpath ''/compression/'' \<Longrightarrow> (\<And>d e x. P (Update_compression d e x))"
    and "contains xpath ''/compression/'' \<Longrightarrow> (\<And>d e x. P (Update_dyn_config d e x))"
    and "\<And>d n a b g v. P (Carrier_state_change d n a b g v True)"
    and "I s"
  shows "I (snd (valueChange env xpath old new s))"
  using processValue_keeps [OF assms(1-3) assms(4) assms(5)] assms(5)
  by (simp add: valueChange_def split: option.split prod.split sum.split) (metis snd_conv)

lemma validate_apply_keeps:
  assumes "\<And>d e x. P (Update_eaxc d e x)" "I s"
  shows "I (snd (validate_apply env ps s))"
  using assms(2)
proof (induction ps arbitrary: s)
  case (Cons p ps)
  have "I (snd (processValue env (y_name p) leaf v [] s))" if "leaf \<noteq> ''active''" for leaf v
    using that Cons.prems by (intro processValue_keeps) (auto simp: assms(1))
  then show ?case
    using Cons by (auto simp: Let_def split: prod.split sum.split) (metis snd_conv)+
qed simp

lemma validate_active_keeps:
  assumes "\<And>d n a b g v. P (Carrier_state_change d n a b g v False)" "I s"
  shows "I (snd (validate_active env ps s))"
  using assms(2)
proof (induction ps arbitrary: s)
  case (Cons p ps)
  have "I (snd (validateValue env (y_name p) leaf v s))" for leaf v
    using Cons.prems by (auto simp: validateValue_def assms(1) intro!: handleActivate_keeps)
  then show ?case
    using Cons by (auto simp: Let_def split: prod.split) (metis snd_conv)+
qed simp

lemma validate_keeps:
  assumes "\<And>d e x. P (Update_eaxc d e x)" "\<And>d n a b g v. P (Carrier_state_change d n a b g v False)" "I s"
  shows "I (snd (validate env ps ds s))"
proof -
  have apply_ok: "I (snd (validate_apply env ps s))"
    by (rule validate_apply_keeps [OF assms(1,3)])
  show ?thesis
    using apply_ok validate_active_keeps [OF assms(2)] assms(3)
    by (auto simp: validate_def split: prod.split sum.split)
qed

lemma setVal_keeps: "I s \<Longrightarrow> I (snd (setVal env v s))"
  by (simp add: setVal_def Let_def keeps_persist)

lemma changeComplete_keeps: "I s \<Longrightarrow> I (snd (changeComplete env s))"
  by (simp add: changeComplete_def keeps_persist split: option.split)

lemma hooks_keep:
  assumes "\<And>d e x. P (Update_eaxc d e x)" "\<And>d n a b g v ap. P (Carrier_state_change d n a b g v ap)"
    and "contains xpath ''/compression/'' \<Longrightarrow> (\<And>d e x. P (Update_compression d e x))"
    and "contains xpath ''/compression/'' \<Longrightarrow> (\<And>d e x. P (Update_dyn_config d e x))"
  shows "change_handler (uplane_hooks env) xpath I"
proof (unfold_locales, goal_cases)
  case (1 s ps ds)
  then show ?case
    by (simp add: uplane_hooks_def validate_keeps assms(1,2))
next
  case (2 s old new)
  then show ?case
    using valueChange_keeps [OF assms(1,3,4) assms(2)] by (simp add: uplane_hooks_def)
next
  case (4 s v)
  then show ?case
    by (simp add: uplane_hooks_def setVal_keeps)
next
  case (5 s)
  then show ?case
    by (simp add: uplane_hooks_def changeComplete_keeps)
qed (simp add: uplane_hooks_def)

lemma init_links_keeps:
  assumes "\<And>n e c s. I s \<Longrightarrow> I (update n e c s)" "I s"
  shows "I (init_links update cl el links s)"
proof -
  have leaf: "I (init_link update cl el name e s)" if "I s" for name e s
    using that assms(1) by (simp add: init_link_def)
  have inner: "I (fold (init_link update cl el name) vs s)" if "I s" for name vs s
    using that by (induction vs arbitrary: s) (auto simp: leaf)
  show ?thesis
    unfolding init_links_def using assms(2) by (induction links arbitrary: s) (auto simp: inner split: prod.split)
qed

lemma fold_keeps: "(\<And>x s. I s \<Longrightarrow> I (f x s)) \<Longrightarrow> I s \<Longrightarrow> I (fold f xs s)"
  by (induction xs arbitrary: s) auto

lemma initialise_keeps:
  assumes "\<And>d. P (Register_carrier_state_cb d)" "\<And>s. I s \<Longrightarrow> I (s\<lparr>handler_instance := True\<rparr>)" "I s"
  shows "I (initialise env s)"
  unfolding initialise_def Let_def
  by (intro keeps_hal assms fold_keeps init_links_keeps keeps_links keeps_carriers)

end

end
