(* ===== verification/UplaneCalls.thy ===== *)
theory UplaneCalls
  imports UplaneInvariant
begin

text \<open>
  Which calls of the hardware abstraction the user-plane handler makes: an instance of the
  invariant locale for every class of calls, and the properties that rest on it.
\<close>

section \<open>Only calls of a class\<close>

definition calls_since :: "uplane \<Rightarrow> (hal_call \<Rightarrow> bool) \<Rightarrow> uplane \<Rightarrow> bool" where
  "calls_since s0 P s \<longleftrightarrow> (\<exists>cs. hal_calls s = hal_calls s0 @ cs \<and> list_all P cs)"

lemma calls_since_refl [simp]: "calls_since s P s"
  by (simp add: calls_since_def)

lemma calls_since_same: "calls_since s0 P s \<Longrightarrow> hal_calls s' = hal_calls s \<Longrightarrow> calls_since s0 P s'"
  by (simp add: calls_since_def)

lemma calls_since_call:
  "calls_since s0 P s \<Longrightarrow> P c \<Longrightarrow> hal_calls s' = hal_calls s @ [c] \<Longrightarrow> calls_since s0 P s'"
  by (auto simp: calls_since_def)

lemma hal_calls_links [simp]:
  "hal_calls (updateRxLink n e c s) = hal_calls s" "hal_calls (updateTxLink n e c s) = hal_calls s"
  by (simp_all add: updateRxLink_def updateTxLink_def)

lemma hal_calls_carriers [simp]:
  "hal_calls (updateRxCarrier c s) = hal_calls s" "hal_calls (updateTxCarrier c s) = hal_calls s"
  by (simp_all add: updateRxCarrier_def updateTxCarrier_def mgr_updateRxCarrier_def mgr_updateTxCarrier_def)

lemma hal_calls_callback [simp]: "hal_calls (carrierStateCallbackWrapper d n st s) = hal_calls s"
  by (simp add: carrierStateCallbackWrapper_def rxCarrierStateCallback_def txCarrierStateCallback_def
      carrierChangeNotification_def Let_def split: dir.split)

lemma hal_calls_run_callbacks [simp]: "hal_calls (run_callbacks cbs s) = hal_calls s"
  by (induction cbs s rule: run_callbacks.induct) simp_all

lemma hal_calls_hal:
  "hal_calls (snd (hal env c s)) = hal_calls s @ (if e_loaded env (hal_symbol c) then [c] else [])"
  by (simp add: hal_def Let_def)

interpretation calls: uplane_inv env "calls_since s0 P" P for env s0 P
proof unfold_locales
  fix call s
  assume "P call" "calls_since s0 P s"
  then show "calls_since s0 P (snd (hal env call s))"
    by (cases "e_loaded env (hal_symbol call)")
      (simp_all add: hal_calls_hal calls_since_call [of s0 P s call] calls_since_same [of s0 P s "snd (hal env call s)"])
qed (erule calls_since_same, simp)+

section \<open>Validation\<close>

text \<open>The calls that change nothing but the address data of an endpoint.\<close>

definition is_applied :: "hal_call \<Rightarrow> bool" where
  "is_applied c =
     (case c of
        Carrier_state_change _ _ _ _ _ _ do_apply \<Rightarrow> do_apply
      | Update_compression _ _ _ \<Rightarrow> True
      | Update_dyn_config _ _ _ \<Rightarrow> True
      | _ \<Rightarrow> False)"

lemma is_applied_simps [simp]:
  "is_applied (Carrier_state_change d n a b g v ap) = ap"
  "is_applied (Update_compression d e x)" "is_applied (Update_dyn_config d e y)"
  "\<not> is_applied (Update_eaxc d e z)" "\<not> is_applied (Register_carrier_state_cb d)"
  by (simp_all add: is_applied_def)

lemma change_event_calls:
  "calls_since s (\<lambda>c. \<not> is_applied c) (snd (uplane_change env SR_EV_CHANGE changes s))"
proof -
  have "calls_since s (\<lambda>c. \<not> is_applied c) (snd (validate env ps ds s))" for ps ds
    by (rule calls.validate_keeps) simp_all
  then show ?thesis
    by (simp add: uplane_change_def module_change_def Let_def handleChangeEvent_def uplane_hooks_def
        split: prod.split sum.split) (metis calls_since_refl snd_conv)
qed

text \<open>Without an activation among the changes nothing is called at all.\<close>

lemma change_event_idle:
  assumes "\<not> list_ex (activates env) (fst (collect_params (e_double env) changes None ([], [])))"
  shows "snd (uplane_change env SR_EV_CHANGE changes s) = s"
  using assms by (auto simp: uplane_change_def module_change_def Let_def handleChangeEvent_def uplane_hooks_def
      validate_def split: prod.split)

text \<open>
  C14: validating a change set never changes the state of a carrier, only asks whether it
  could, and never sets a compression; and a change set that activates no carrier changes
  nothing at all.
\<close>

theorem validation_applies_nothing:
  assumes "uplane_change env SR_EV_CHANGE changes s = (rc, s')"
  shows "(\<exists>cs. hal_calls s' = hal_calls s @ cs \<and> list_all (\<lambda>c. \<not> is_applied c) cs) \<and>
    (\<not> list_ex (activates env) (fst (collect_params (e_double env) changes None ([], []))) \<longrightarrow> s' = s)"
  using change_event_calls [of s env changes] change_event_idle [of env changes s] assms
  by (auto simp: calls_since_def)

theorem validation_applies_nothing_witness:
  "snd (uplane_change demo_env SR_EV_CHANGE [\<lparr>c_oper = SR_OP_CREATED, c_old = None,
     c_new = Some \<lparr>v_xpath = ''/m:a/b'', v_data = SR_BOOL True\<rparr>\<rparr>] fresh_state) = fresh_state"
proof -
  let ?cs = "[\<lparr>c_oper = SR_OP_CREATED, c_old = None, c_new = Some \<lparr>v_xpath = ''/m:a/b'', v_data = SR_BOOL True\<rparr>\<rparr>]"
  obtain rc s' where run: "uplane_change demo_env SR_EV_CHANGE ?cs fresh_state = (rc, s')"
    by fastforce
  have "\<not> list_ex (activates demo_env) (fst (collect_params (e_double demo_env) ?cs None ([], [])))"
    by (simp add: change_param_def setSysrepo_def toString_def activates_def)
  then show ?thesis
    using validation_applies_nothing [OF run] run by simp
qed

section \<open>Compression\<close>

definition is_compression :: "hal_call \<Rightarrow> bool" where
  "is_compression c = (case c of Update_compression _ _ _ \<Rightarrow> True | Update_dyn_config _ _ _ \<Rightarrow> True | _ \<Rightarrow> False)"

interpretation no_compression: change_handler "uplane_hooks env" "[]" "calls_since s0 (\<lambda>c. \<not> is_compression c)" for env s0
  by (rule calls.hooks_keep) (simp_all add: is_compression_def)

text \<open>
  C31: no change of the data store ever reaches the compression functions of the hardware
  abstraction: the handler looks for \<open>/compression/\<close> in the path of its subscription, which is
  empty, and not in the path of the value.
\<close>

theorem compression_never_set:
  "\<exists>cs. hal_calls (snd (uplane_change env event changes s)) = hal_calls s @ cs \<and>
     list_all (\<lambda>c. \<not> is_compression c) cs"
  using no_compression.module_change_keeps [of "changeSubscribe []" s s "e_double env" env event changes]
  by (simp add: uplane_change_def changeSubscribe_def calls_since_def)

end
