(* ===== verification/YangConfig.thy ===== *)
theory YangConfig
  imports YangParam "HOL-Library.Monad_Syntax"
begin

text \<open>
  \<open>YangConfig.cpp\<close> and \<open>YangElement.cpp\<close>: the tree of the configuration and the walk along a
  path such as \<open>module-m/list-l[0]/leaf-x\<close>. Positions are numbers, with \<open>npos\<close> as the library
  has it, because the code computes with them. \<open>None\<close> is an exception of \<open>std::stoi\<close>.
\<close>

section \<open>Elements\<close>

datatype element = Element (elementType: string) (elementName: string) (elementValue: string)
  (elementVersion: string) (childElements: "element list")

definition getElement :: "element \<Rightarrow> string \<Rightarrow> string \<Rightarrow> element option" where
  "getElement e type name = find (\<lambda>c. elementType c = type \<and> elementName c = name) (childElements e)"

definition getElement_type :: "element \<Rightarrow> string \<Rightarrow> element option" where
  "getElement_type e type = find (\<lambda>c. elementType c = type) (childElements e)"

definition listElements :: "element \<Rightarrow> string" where
  "listElements e = concat (map (\<lambda>c. elementType c @ '','') (childElements e))"

definition listElements_type :: "element \<Rightarrow> string \<Rightarrow> string" where
  "listElements_type e type = concat (map (\<lambda>c. if type = elementType c then elementName c @ '','' else []) (childElements e))"

text \<open>The index counts all children, the ones of another type too.\<close>

definition getElement_at :: "element \<Rightarrow> string \<Rightarrow> nat \<Rightarrow> element option" where
  "getElement_at e type number =
     (if number < length (childElements e) \<and> elementType (childElements e ! number) = type
      then Some (childElements e ! number) else None)"

definition getNumberOfChildElements :: "element \<Rightarrow> nat" where
  "getNumberOfChildElements e = length (childElements e)"

definition addChildElement :: "element \<Rightarrow> element \<Rightarrow> element" where
  "addChildElement e c =
     Element (elementType e) (elementName e) (elementValue e) (elementVersion e) (childElements e @ [c])"

lemma size_getElement: "getElement e type name = Some c \<Longrightarrow> size c < size e"
  by (cases e) (auto simp: getElement_def find_Some_iff less_Suc_eq_le intro!: size_list_estimation')

lemma size_getElement_at: "getElement_at e type number = Some c \<Longrightarrow> size c < size e"
  by (cases e) (auto simp: getElement_at_def less_Suc_eq_le split: if_splits intro!: size_list_estimation')

section \<open>One step of a path\<close>

definition npos :: nat where
  "npos = 2 ^ 64 - 1"

definition find_pos :: "char \<Rightarrow> string \<Rightarrow> nat" where
  "find_pos c s = (case find_char c s of None \<Rightarrow> npos | Some i \<Rightarrow> i)"

definition wrap_int :: "int \<Rightarrow> nat" where
  "wrap_int i = nat (i mod 2 ^ 64)"

text \<open>The name without its index, the index, and whether there is one.\<close>

definition split_index :: "string \<Rightarrow> string \<times> string \<times> bool" where
  "split_index name =
     (let listDelimiterPos = find_pos (CHR ''['') name in
      if listDelimiterPos \<noteq> 0 \<and> listDelimiterPos \<noteq> npos then
        let listSize = length name - listDelimiterPos in
        (take (length name - listSize) name,
         substr name (length name - listSize + 1) (wrap_int (int listSize - 2)), True)
      else (name, [], False))"

record search =
  foundListDelimiter :: bool
  elementFound :: "element option"
  s_type :: string
  s_index :: string
  pathDelimiterPos :: nat

definition commonSearch :: "element \<Rightarrow> string \<Rightarrow> search" where
  "commonSearch elementSearch p =
     (let pathPos = find_pos (CHR ''/'') p; typePos = find_pos (CHR ''-'') p;
          none = \<lparr>foundListDelimiter = False, elementFound = None, s_type = [], s_index = [], pathDelimiterPos = pathPos\<rparr> in
      if pathPos = 0 then none
      else if typePos = 0 then none
      else
        let type = substr p 0 typePos;
            name = substr p (wrap_int (int typePos + 1)) (wrap_int (int pathPos - int typePos - 1));
            (name, index, found) = split_index name in
        \<lparr>foundListDelimiter = found, elementFound = getElement elementSearch type name,
         s_type = type, s_index = index, pathDelimiterPos = pathPos\<rparr>)"

lemma elementFound_size: "elementFound (commonSearch es p) = Some e \<Longrightarrow> size e < size es"
  by (auto simp: commonSearch_def Let_def size_getElement split: if_splits prod.splits)

text \<open>\<open>pathCopy.erase(0, pathDelimiterPos + 1)\<close>\<close>

definition rest_of_path :: "string \<Rightarrow> search \<Rightarrow> string" where
  "rest_of_path p r = drop (wrap_int (int (pathDelimiterPos r) + 1)) p"

text \<open>\<open>(unsigned int)std::stoi(index, nullptr, 0)\<close>\<close>

definition index_number :: "string \<Rightarrow> nat option" where
  "index_number s =
     (let (neg, n, rest) = parse_number s; v = (if neg then - int n else int n) in
      if rest = s \<or> v < - (2 ^ 31) \<or> v \<ge> 2 ^ 31 then None else Some (nat (v mod 2 ^ 32)))"

section \<open>The walk\<close>

text \<open>\<open>commonGet\<close>; the access permissions are not followed. The empty value is not found.\<close>

function commonGet :: "element \<Rightarrow> string \<Rightarrow> string option" where
  "commonGet elementSearch p =
     (let r = commonSearch elementSearch p in
      case elementFound r of None \<Rightarrow> Some []
      | Some e \<Rightarrow>
          if s_type r = ''leaf'' then Some (elementValue e)
          else if s_type r = ''list'' then
            (if foundListDelimiter r then
               case index_number (s_index r) of None \<Rightarrow> None
               | Some i \<Rightarrow>
                   (case getElement_at e ''listEntry'' i of
                      None \<Rightarrow> Some []
                    | Some entry \<Rightarrow> commonGet entry (rest_of_path p r))
             else Some [])
          else if s_type r = ''listLeaf'' then
            (if foundListDelimiter r then
               case index_number (s_index r) of None \<Rightarrow> None
               | Some i \<Rightarrow>
                   (case getElement_at e ''entry'' i of None \<Rightarrow> Some [] | Some entry \<Rightarrow> Some (elementValue entry))
             else Some [])
          else if s_type r = ''feature'' then Some (elementValue e)
          else commonGet e (rest_of_path p r))"
  by pat_completeness auto

termination
  by (relation "measure (\<lambda>(es, p). size es)")
    (auto dest!: elementFound_size size_getElement_at)

definition getValue :: "element \<Rightarrow> string \<Rightarrow> string option" where
  "getValue config p = commonGet config p"

text \<open>
  \<open>commonGetNumEntries\<close>: the number of entries of the deepest list of the wanted type on the
  path, \<open>returnValue\<close> being the last one found.
\<close>

function commonGetNumEntries :: "element \<Rightarrow> string \<Rightarrow> string \<Rightarrow> nat \<Rightarrow> nat option" where
  "commonGetNumEntries elementSearch p type returnValue =
     (let r = commonSearch elementSearch p in
      case elementFound r of None \<Rightarrow> Some returnValue
      | Some e \<Rightarrow>
          let returnValue = (if s_type r = type then getNumberOfChildElements e else returnValue) in
          if s_type r = ''list'' \<and> foundListDelimiter r then
            (case index_number (s_index r) of None \<Rightarrow> None
             | Some i \<Rightarrow>
                 (case getElement_at e ''listEntry'' i of
                    None \<Rightarrow> Some returnValue
                  | Some entry \<Rightarrow> commonGetNumEntries entry (rest_of_path p r) type returnValue))
          else commonGetNumEntries e (rest_of_path p r) type returnValue)"
  by pat_completeness auto

termination
  by (relation "measure (\<lambda>(es, p, type, returnValue). size es)")
    (auto dest!: elementFound_size size_getElement_at)

declare commonGet.simps [simp del] commonGetNumEntries.simps [simp del]

definition getNumOfListEntries :: "element \<Rightarrow> string \<Rightarrow> nat option" where
  "getNumOfListEntries config p = commonGetNumEntries config p ''list'' 0"

definition getNumOfListLeafEntries :: "element \<Rightarrow> string \<Rightarrow> nat option" where
  "getNumOfListLeafEntries config p = commonGetNumEntries config p ''listLeaf'' 0"

section \<open>Modules and features\<close>

definition isModuleSupported :: "element \<Rightarrow> string \<Rightarrow> bool" where
  "isModuleSupported config module = (getElement config ''module'' module \<noteq> None)"

definition getModuleVersion :: "element \<Rightarrow> string \<Rightarrow> string" where
  "getModuleVersion config module =
     (case getElement config ''module'' module of None \<Rightarrow> [] | Some e \<Rightarrow> elementVersion e)"

text \<open>The map of the features; of two with one name the last counts.\<close>

definition listModuleFeatures :: "element \<Rightarrow> string \<Rightarrow> (string \<times> bool) list" where
  "listModuleFeatures config module =
     (case getElement config ''module'' module of None \<Rightarrow> []
      | Some e \<Rightarrow>
          foldl (\<lambda>m c. if elementType c = ''feature'' then map_put (elementName c) (elementValue c = ''true'') m else m)
            [] (childElements e))"

definition listModuleFeatures_text :: "element \<Rightarrow> string \<Rightarrow> string" where
  "listModuleFeatures_text config module =
     (case getElement config ''module'' module of None \<Rightarrow> []
      | Some e \<Rightarrow>
          concat (map (\<lambda>c. if elementType c = ''feature'' then elementName c @ ''='' @ elementValue c @ '','' else [])
            (childElements e)))"

definition isModuleFeatureEnabled :: "element \<Rightarrow> string \<Rightarrow> string \<Rightarrow> bool" where
  "isModuleFeatureEnabled config module feature =
     (case map_of (listModuleFeatures config module) feature of None \<Rightarrow> False | Some b \<Rightarrow> b)"

definition listSupportedModules :: "element \<Rightarrow> string" where
  "listSupportedModules config = listElements_type config ''module''"

section \<open>Choices and the listing of the tree\<close>

function getChoiceCaseName :: "element \<Rightarrow> string \<Rightarrow> string option" where
  "getChoiceCaseName elementSearch p =
     (let r = commonSearch elementSearch p in
      case elementFound r of None \<Rightarrow> Some []
      | Some e \<Rightarrow>
          if s_type r = ''choice'' then
            (case getElement_type e ''case'' of None \<Rightarrow> Some [] | Some c \<Rightarrow> Some (elementName c))
          else if s_type r = ''list'' then
            (if foundListDelimiter r then
               case index_number (s_index r) of None \<Rightarrow> None
               | Some i \<Rightarrow>
                   (case getElement_at e ''listEntry'' i of
                      None \<Rightarrow> Some []
                    | Some entry \<Rightarrow> getChoiceCaseName entry (rest_of_path p r))
             else Some [])
          else getChoiceCaseName e (rest_of_path p r))"
  by pat_completeness auto

termination
  by (relation "measure (\<lambda>(es, p). size es)")
    (auto dest!: elementFound_size size_getElement_at)

declare getChoiceCaseName.simps [simp del]

lemma size_childElements: "size_list size (childElements e) < size e"
  by (cases e) simp

text \<open>\<open>recursiveElementSearch\<close>: the lines of the children, the indentation going on from one to the next.\<close>

function recursiveElementSearch :: "element list \<Rightarrow> nat \<Rightarrow> string" where
  "recursiveElementSearch [] indent = []"
| "recursiveElementSearch (e # es) indent =
     (let type = elementType e;
          indent = (if type = ''module'' then 0 else indent);
          spaces = (if type = ''module'' then [] else replicate (indent + 1) (CHR '' ''));
          line = type @ '' '' @ elementName e @ '' '' @ elementValue e @ '' '' @ elementVersion e @ [CHR 0x0A];
          indent = (if type \<noteq> ''leaf'' \<and> type \<noteq> ''module'' \<and> type \<noteq> ''entry'' then indent + 1 else indent)
      in spaces @ line @ recursiveElementSearch (childElements e) indent @
         recursiveElementSearch es (if type = ''listLeaf'' then indent - 1 else indent))"
  by pat_completeness auto

termination
  by (relation "measure (\<lambda>(es, indent). size_list size es)")
    (auto simp: less_Suc_eq_le intro: order.trans [OF less_imp_le [OF size_childElements]])

declare recursiveElementSearch.simps [simp del]

definition listConfigTree :: "element \<Rightarrow> string" where
  "listConfigTree config = recursiveElementSearch (childElements config) 0"

section \<open>Steps that find something\<close>

definition plain_name :: "string \<Rightarrow> bool" where
  "plain_name s \<longleftrightarrow> s \<noteq> [] \<and> set s \<inter> {CHR ''/'', CHR ''[''} = {} \<and> length s < 2 ^ 32"

definition plain_type :: "string \<Rightarrow> bool" where
  "plain_type s \<longleftrightarrow> s \<noteq> [] \<and> set s \<inter> {CHR ''/'', CHR ''['', CHR ''-''} = {} \<and> length s < 2 ^ 32"

lemma find_pos_at: "c \<notin> set xs \<Longrightarrow> find_pos c (xs @ c # ys) = length xs"
  by (simp add: find_pos_def)

lemma find_pos_none: "c \<notin> set xs \<Longrightarrow> find_pos c xs = npos"
  using find_char_None [of c xs] by (simp add: find_pos_def)

lemma wrap_int_id: "0 \<le> i \<Longrightarrow> i < 2 ^ 64 \<Longrightarrow> wrap_int i = nat i"
  by (simp add: wrap_int_def)

lemma split_index_plain: "CHR ''['' \<notin> set name \<Longrightarrow> split_index name = (name, [], False)"
  by (simp add: split_index_def find_pos_none)

lemma split_index_entry:
  assumes "plain_name name" "length idx < 2 ^ 32"
  shows "split_index (name @ CHR ''['' # idx @ [CHR '']'']) = (name, idx, True)"
proof -
  have "find_pos (CHR ''['') (name @ CHR ''['' # idx @ [CHR '']'']) = length name"
    using assms by (intro find_pos_at) (auto simp: plain_name_def)
  moreover have "length name \<noteq> 0" "length name \<noteq> npos"
    using assms by (auto simp: plain_name_def npos_def)
  moreover have "wrap_int (int (Suc (Suc (length idx))) - 2) = length idx"
    using assms by (simp add: wrap_int_def)
  ultimately show ?thesis
    by (simp add: split_index_def substr_def)
qed

text \<open>A step of the form \<open>type-name\<close>, last or followed by \<open>/\<close>.\<close>

lemma commonSearch_step:
  assumes "plain_type type" "CHR ''/'' \<notin> set name" "length name < 2 ^ 33"
  shows "commonSearch es (type @ CHR ''-'' # name @ CHR ''/'' # rest) =
     (case split_index name of (n, i, f) \<Rightarrow>
        \<lparr>foundListDelimiter = f, elementFound = getElement es type n, s_type = type, s_index = i,
         pathDelimiterPos = Suc (length type + length name)\<rparr>)"
proof -
  let ?p = "type @ CHR ''-'' # name @ CHR ''/'' # rest"
  have pathPos: "find_pos (CHR ''/'') ?p = Suc (length type + length name)"
    using assms find_pos_at [of "CHR ''/''" "type @ CHR ''-'' # name" rest] by (simp add: plain_type_def)
  have typePos: "find_pos (CHR ''-'') ?p = length type" "length type \<noteq> 0" "length type < 2 ^ 32"
    using assms by (auto simp: plain_type_def intro!: find_pos_at)
  have w1: "wrap_int (int (length type) + 1) = length type + 1"
    using typePos(3) by (subst wrap_int_id) (simp_all add: nat_add_distrib)
  have w2: "wrap_int (int (Suc (length type + length name)) - int (length type) - 1) = length name"
    using assms(3) by (subst wrap_int_id) simp_all
  have parts: "substr ?p 0 (length type) = type" "substr ?p (length type + 1) (length name) = name"
    by (simp_all add: substr_def)
  show ?thesis
    unfolding commonSearch_def pathPos typePos(1) Let_def w1 w2 parts using typePos(2)
    by (simp split: prod.split)
qed

lemma commonSearch_last:
  assumes "plain_type type" "CHR ''/'' \<notin> set name" "length name < 2 ^ 33"
  shows "commonSearch es (type @ CHR ''-'' # name) =
     (case split_index name of (n, i, f) \<Rightarrow>
        \<lparr>foundListDelimiter = f, elementFound = getElement es type n, s_type = type, s_index = i,
         pathDelimiterPos = npos\<rparr>)"
proof -
  let ?p = "type @ CHR ''-'' # name"
  have pathPos: "find_pos (CHR ''/'') ?p = npos"
    using assms by (intro find_pos_none) (simp add: plain_type_def)
  have typePos: "find_pos (CHR ''-'') ?p = length type" "length type \<noteq> 0" "length type < 2 ^ 32"
    using assms by (auto simp: plain_type_def intro!: find_pos_at)
  have w1: "wrap_int (int (length type) + 1) = length type + 1"
    using typePos(3) by (subst wrap_int_id) (simp_all add: nat_add_distrib)
  have w2: "length name \<le> wrap_int (int npos - int (length type) - 1)"
    using assms(3) typePos(3) unfolding npos_def by (subst wrap_int_id) auto
  have parts: "substr ?p 0 (length type) = type"
    "length name \<le> k \<Longrightarrow> substr ?p (length type + 1) k = name" for k
    by (simp_all add: substr_def)
  show ?thesis
    unfolding commonSearch_def pathPos typePos(1) Let_def w1 parts(1) parts(2) [OF w2] using typePos(2)
    by (simp add: npos_def split: prod.split)
qed

section \<open>Walks\<close>

text \<open>The tree navigation that a path stands for.\<close>

datatype path_step = Child string string | Entry string nat

fun follow :: "element \<Rightarrow> path_step list \<Rightarrow> element option" where
  "follow e [] = Some e"
| "follow e (Child t n # ps) = (case getElement e t n of None \<Rightarrow> None | Some c \<Rightarrow> follow c ps)"
| "follow e (Entry n i # ps) =
     (case getElement e ''list'' n of None \<Rightarrow> None
      | Some l \<Rightarrow> (case getElement_at l ''listEntry'' i of None \<Rightarrow> None | Some c \<Rightarrow> follow c ps))"

fun step_text :: "path_step \<Rightarrow> string" where
  "step_text (Child t n) = t @ CHR ''-'' # n"
| "step_text (Entry n i) = ''list-'' @ n @ CHR ''['' # dec_digits i @ [CHR '']'']"

fun step_ok :: "path_step \<Rightarrow> bool" where
  "step_ok (Child t n) \<longleftrightarrow> plain_type t \<and> plain_name n \<and> t \<notin> {''leaf'', ''list'', ''listLeaf'', ''feature''}"
| "step_ok (Entry n i) \<longleftrightarrow> plain_name n \<and> i < 2 ^ 31"

definition path_text :: "path_step list \<Rightarrow> string \<Rightarrow> string" where
  "path_text ps final = concat (map (\<lambda>p. step_text p @ [CHR ''/'']) ps) @ final"

lemma dec_digits_first: "0 < n \<Longrightarrow> dec_digits n ! 0 \<noteq> CHR ''0''"
proof (induction n rule: dec_digits.induct)
  case (1 n)
  show ?case
  proof (cases "n < 10")
    case True
    have "(of_char (char_of (48 + n) :: char) :: nat) = 48 + n"
      using True by simp
    then have "char_of (48 + n) \<noteq> CHR ''0''"
      using \<open>0 < n\<close> by (auto dest: arg_cong [where f = "of_char :: char \<Rightarrow> nat"])
    then show ?thesis
      using True by (subst dec_digits.simps) simp
  next
    case False
    have "dec_digits (n div 10) ! 0 \<noteq> CHR ''0''"
      using False by (intro "1.IH") auto
    then show ?thesis
      using False dec_digits_ne [of "n div 10"] by (subst dec_digits.simps) (simp add: nth_append)
  qed
qed

lemma digit_plain: "is_digit 10 c \<Longrightarrow> c \<noteq> CHR ''/'' \<and> c \<noteq> CHR ''[''"
  by (auto simp: is_digit_def digit_val_def Let_def)

lemma length_dec_digits_le: "length (dec_digits m) \<le> Suc m"
proof (induction m rule: dec_digits.induct)
  case (1 m)
  then show ?case
    by (subst dec_digits.simps) (cases "m < 10"; fastforce)
qed

lemma length_dec_digits: "n < 2 ^ 31 \<Longrightarrow> length (dec_digits n) < 2 ^ 32"
  using length_dec_digits_le [of n] by simp

lemma index_number_dec:
  assumes "i < 2 ^ 31"
  shows "index_number (dec_digits i) = Some i"
proof -
  have all: "\<forall>c \<in> set (dec_digits i). is_digit 10 c"
    by (rule dec_digits_digits)
  obtain c cs where ds: "dec_digits i = c # cs"
    using dec_digits_ne by (cases "dec_digits i") auto
  then have c: "\<not> is_space c" "c \<noteq> CHR ''-''" "c \<noteq> CHR ''+''"
    using is_digit_plain [of c] all by auto
  then have sign: "split_sign (dropWhile is_space (dec_digits i)) = (False, dec_digits i)"
    by (simp add: ds split_sign_def char_at_def)
  have "parse_number (dec_digits i) = (False, i, [])"
  proof (cases "i = 0")
    case True
    then have "dec_digits i = [char_of (48 :: nat)]"
      by (subst dec_digits.simps) simp
    also have "\<dots> = ''0''"
      by code_simp
    finally have "dec_digits i = ''0''" .
    then show ?thesis
      using True by (simp add: number_simps parse_number_def)
  next
    case False
    then have base: "detect_base (dec_digits i) = (10, dec_digits i)"
      using dec_digits_first [of i] ds by (simp add: detect_base_def char_at_def)
    have digits: "takeWhile (is_digit 10) (dec_digits i) = dec_digits i" "dropWhile (is_digit 10) (dec_digits i) = []"
      by (rule takeWhile_eq_all_conv [THEN iffD2, OF all], rule dropWhile_eq_Nil_conv [THEN iffD2, OF all])
    show ?thesis
      unfolding parse_number_def sign prod.case Let_def base digits dec_digits_value
      using dec_digits_ne [of i] by simp
  qed
  then show ?thesis
    using assms ds by (simp add: index_number_def)
qed

lemma rest_of_path_at:
  assumes "pathDelimiterPos r = length pre" "length pre < 2 ^ 60"
  shows "rest_of_path (pre @ c # rest) r = rest"
proof -
  have "wrap_int (int (pathDelimiterPos r) + 1) = length pre + 1"
    using assms by (subst wrap_int_id) (simp_all add: nat_add_distrib)
  then show ?thesis
    by (simp only: rest_of_path_def drop_length_Cons)
qed

lemma commonGet_child:
  assumes "step_ok (Child t n)"
  shows "commonGet e (step_text (Child t n) @ CHR ''/'' # rest) =
    (case getElement e t n of None \<Rightarrow> Some [] | Some c \<Rightarrow> commonGet c rest)"
proof -
  let ?p = "t @ CHR ''-'' # n @ CHR ''/'' # rest"
  have ok: "plain_type t" "CHR ''/'' \<notin> set n" "CHR ''['' \<notin> set n" "length n < 2 ^ 33" "length t < 2 ^ 32"
    using assms by (auto simp: plain_name_def plain_type_def)
  have s: "commonSearch e ?p = \<lparr>foundListDelimiter = False, elementFound = getElement e t n, s_type = t, s_index = [],
      pathDelimiterPos = Suc (length t + length n)\<rparr>"
    using commonSearch_step [OF ok(1,2,4), of e rest] split_index_plain [OF ok(3)] by simp
  have "rest_of_path ?p \<lparr>foundListDelimiter = False, elementFound = x, s_type = t, s_index = [],
      pathDelimiterPos = Suc (length t + length n)\<rparr> = rest" for x
    using rest_of_path_at [of _ "t @ CHR ''-'' # n" "CHR ''/''" rest] ok(4,5) by simp
  then show ?thesis
    using assms by (simp add: commonGet.simps [of e ?p] s split: option.split)
qed

lemma commonGet_entry:
  assumes "step_ok (Entry n i)"
  shows "commonGet e (step_text (Entry n i) @ CHR ''/'' # rest) =
    (case getElement e ''list'' n of None \<Rightarrow> Some []
     | Some l \<Rightarrow> (case getElement_at l ''listEntry'' i of None \<Rightarrow> Some [] | Some c \<Rightarrow> commonGet c rest))"
proof -
  let ?n = "n @ CHR ''['' # dec_digits i @ [CHR '']'']"
  let ?p = "''list'' @ CHR ''-'' # ?n @ CHR ''/'' # rest"
  have i: "i < 2 ^ 31" and n: "plain_name n"
    using assms by simp_all
  have len: "length (dec_digits i) < 2 ^ 32" "length n < 2 ^ 32" "length (dec_digits i) \<le> Suc i"
    using i n length_dec_digits [of i] length_dec_digits_le [of i] by (simp_all add: plain_name_def)
  have ok: "plain_type ''list''" "CHR ''/'' \<notin> set ?n" "length ?n < 2 ^ 33"
    using n len i digit_plain dec_digits_digits [of i] by (auto simp: plain_type_def plain_name_def)
  have s: "commonSearch e ?p = \<lparr>foundListDelimiter = True, elementFound = getElement e ''list'' n, s_type = ''list'',
      s_index = dec_digits i, pathDelimiterPos = Suc (length ''list'' + length ?n)\<rparr>"
    using commonSearch_step [OF ok, of e rest] split_index_entry [OF n len(1)] by simp
  have r: "rest_of_path ?p \<lparr>foundListDelimiter = True, elementFound = x, s_type = ''list'', s_index = dec_digits i,
      pathDelimiterPos = Suc (length ''list'' + length ?n)\<rparr> = rest" for x
    using rest_of_path_at [of _ "''list'' @ CHR ''-'' # ?n" "CHR ''/''" rest] ok(3) by simp
  have "commonGet e ?p = (case getElement e ''list'' n of None \<Rightarrow> Some []
     | Some l \<Rightarrow> (case getElement_at l ''listEntry'' i of None \<Rightarrow> Some [] | Some c \<Rightarrow> commonGet c rest))"
    unfolding commonGet.simps [of e ?p] s Let_def using index_number_dec [OF i] r
    by (auto split: option.split)
  then show ?thesis
    by simp
qed

lemma getValue_steps:
  assumes "list_all step_ok ps" "plain_name x"
  shows "getValue config (path_text ps (''leaf-'' @ x)) =
    Some (case follow config ps of
        None \<Rightarrow> []
      | Some e \<Rightarrow> (case getElement e ''leaf'' x of None \<Rightarrow> [] | Some l \<Rightarrow> elementValue l))"
  using assms(1)
proof (induction ps arbitrary: config)
  case Nil
  have x: "CHR ''/'' \<notin> set x" "CHR ''['' \<notin> set x" "length x < 2 ^ 33" "plain_type ''leaf''"
    using assms(2) by (auto simp: plain_name_def plain_type_def)
  have "commonSearch config (''leaf-'' @ x) = \<lparr>foundListDelimiter = False, elementFound = getElement config ''leaf'' x,
      s_type = ''leaf'', s_index = [], pathDelimiterPos = npos\<rparr>"
    using commonSearch_last [OF x(4,1,3), of config] split_index_plain [OF x(2)] by simp
  then show ?case
    by (simp add: getValue_def path_text_def commonGet.simps [of config] split: option.split)
next
  case (Cons p ps)
  define leaf where "leaf = ''leaf-'' @ x"
  have IH: "commonGet c (path_text ps leaf) =
    Some (case follow c ps of None \<Rightarrow> []
      | Some e \<Rightarrow> (case getElement e ''leaf'' x of None \<Rightarrow> [] | Some l \<Rightarrow> elementValue l))" for c
    using Cons unfolding getValue_def leaf_def by simp
  have parts: "path_text (p # ps) leaf = step_text p @ CHR ''/'' # path_text ps leaf"
    by (simp add: path_text_def)
  show ?case
  proof (cases p)
    case (Child t n)
    then show ?thesis
      unfolding getValue_def leaf_def [symmetric] parts
      using commonGet_child [of t n config "path_text ps leaf"] Cons.prems
      by (simp add: IH del: step_text.simps step_ok.simps split: option.split)
  next
    case (Entry n i)
    then show ?thesis
      unfolding getValue_def leaf_def [symmetric] parts
      using commonGet_entry [of n i config "path_text ps leaf"] Cons.prems
      by (simp add: IH del: step_text.simps step_ok.simps split: option.split)
  qed
qed

text \<open>
  C29: reading a value of the configuration follows the path step by step: if the steps lead
  to an element with a leaf of the name, the value of that leaf is returned, and if they
  lead nowhere the empty value.
\<close>

theorem getValue_follows:
  assumes "list_all step_ok ps" "plain_name x"
  shows "getValue config (path_text ps (''leaf-'' @ x)) =
    Some (case follow config ps of
        None \<Rightarrow> []
      | Some e \<Rightarrow> (case getElement e ''leaf'' x of None \<Rightarrow> [] | Some l \<Rightarrow> elementValue l))"
  using assms by (rule getValue_steps)

theorem getValue_follows_witness:
  "getValue (Element ''config'' [] [] [] [Element ''module'' ''m'' [] [] [Element ''list'' ''l'' [] []
      [Element ''listEntry'' [] [] [] [Element ''leaf'' ''x'' ''7'' [] []]]]])
     (path_text [Child ''module'' ''m'', Entry ''l'' 0] (''leaf-'' @ ''x'')) = Some ''7''"
  by (subst getValue_follows) (simp_all add: plain_name_def plain_type_def getElement_def getElement_at_def)

end
