(* ===== verification/CarrierConfig.thy ===== *)
theory CarrierConfig
  imports CarrierState YangConfig
begin

text \<open>
  The static part of the user-plane tree: what \<open>OranYangCarrierMgr::initialise\<close> copies from the
  configuration, and the configuration leaves of \<open>LeafContainer.cpp\<close> that it uses. A function
  returns the contents it adds; \<open>None\<close> is an exception, which a number of a list entry beyond
  $2^{31}$ would throw.
\<close>

section \<open>Leaves from the configuration\<close>

text \<open>Contents made from each of some items, in their order.\<close>

fun collect :: "('a \<Rightarrow> node list option) \<Rightarrow> 'a list \<Rightarrow> node list option" where
  "collect f [] = Some []"
| "collect f (x # xs) = do { ns \<leftarrow> f x; rest \<leftarrow> collect f xs; Some (ns @ rest) }"

definition entry_text :: "string \<Rightarrow> nat \<Rightarrow> string" where
  "entry_text p i = p @ ''['' @ dec_digits i @ '']''"

definition addLeafFromConfig :: "element \<Rightarrow> string \<Rightarrow> string \<Rightarrow> node list option" where
  "addLeafFromConfig config baseConfigPath name = do {
     v \<leftarrow> getValue config (baseConfigPath @ ''/leaf-'' @ name);
     Some (addLeaf name v []) }"

definition addLeavesFromConfig :: "element \<Rightarrow> string \<Rightarrow> string list \<Rightarrow> node list option" where
  "addLeavesFromConfig config baseConfigPath leafNames = collect (addLeafFromConfig config baseConfigPath) leafNames"

definition addListLeafFromConfig :: "element \<Rightarrow> string \<Rightarrow> string \<Rightarrow> node list option" where
  "addListLeafFromConfig config baseConfigPath name = do {
     n \<leftarrow> getNumOfListLeafEntries config (baseConfigPath @ ''/listLeaf-'' @ name);
     collect (\<lambda>i. do {
       v \<leftarrow> getValue config (entry_text (baseConfigPath @ ''/listLeaf-'' @ name) i);
       Some (addLeaf name v []) }) [0..<n] }"

definition addListLeavesFromConfig :: "element \<Rightarrow> string \<Rightarrow> string list \<Rightarrow> node list option" where
  "addListLeavesFromConfig config baseConfigPath leafNames =
     collect (addListLeafFromConfig config baseConfigPath) leafNames"

text \<open>A container for every entry of a list.\<close>

definition each_entry :: "element \<Rightarrow> string \<Rightarrow> string \<Rightarrow> (string \<Rightarrow> node list option) \<Rightarrow> node list option" where
  "each_entry config listPath name body = do {
     n \<leftarrow> getNumOfListEntries config listPath;
     collect (\<lambda>i. do { ns \<leftarrow> body (entry_text listPath i); Some [Container name ns] }) [0..<n] }"

definition container :: "string \<Rightarrow> node list option \<Rightarrow> node list option" where
  "container name contents = do { ns \<leftarrow> contents; Some [Container name ns] }"

text \<open>Contents one after the other.\<close>

definition parts :: "node list option list \<Rightarrow> node list option" where
  "parts nss = collect (\<lambda>x. x) nss"

section \<open>Leaves of the groupings\<close>

definition uplane_path :: "string \<Rightarrow> string" where
  "uplane_path l = ''module-o-ran-uplane-conf/container-user-plane-configuration/'' @ l"

definition kEndpointSectionCapacityLeaves :: "string list" where
  "kEndpointSectionCapacityLeaves =
    [''max-control-sections-per-data-section'', ''max-sections-per-symbol'', ''max-sections-per-slot'',
     ''max-highest-priority-sections-per-slot'', ''max-remasks-per-section-id'',
     ''max-uplane-section-header-per-symbol'', ''max-uplane-section-header-per-slot'']"

definition kEndpointBeamCapacityLeaves :: "string list" where
  "kEndpointBeamCapacityLeaves =
    [''max-beams-per-symbol'', ''max-beams-per-slot'', ''max-beam-updates-per-slot'', ''max-beam-updates-per-symbol'']"

definition kEndpointPrbCapacityLeaves :: "string list" where
  "kEndpointPrbCapacityLeaves = [''max-prb-per-symbol'']"

definition kEndpointNumerologyCapacityLeaves :: "string list" where
  "kEndpointNumerologyCapacityLeaves = [''endpoint-numerology-capacity'']"

definition kParametersLeaves :: "string list" where
  "kParametersLeaves =
    [''name'', ''number-of-rows'', ''number-of-columns'', ''number-of-array-layers'', ''horizontal-spacing'',
     ''vertical-spacing'', ''band-number'']"

definition kSupportForUl :: "string list" where
  "kSupportForUl =
    [''max-supported-frequency-ul'', ''min-supported-frequency-ul'', ''max-supported-bandwidth-ul'',
     ''max-num-carriers-ul'', ''max-carrier-bandwidth-ul'', ''min-carrier-bandwidth-ul'']"

definition kSupportForDl :: "string list" where
  "kSupportForDl =
    [''max-supported-frequency-dl'', ''min-supported-frequency-dl'', ''max-supported-bandwidth-dl'',
     ''max-num-carriers-dl'', ''max-carrier-bandwidth-dl'', ''min-carrier-bandwidth-dl'']"

section \<open>Parts of the tree\<close>

definition capacity :: "element \<Rightarrow> string \<Rightarrow> node list option" where
  "capacity config p = parts
    [addLeavesFromConfig config p kEndpointSectionCapacityLeaves,
     addLeavesFromConfig config p kEndpointBeamCapacityLeaves,
     addLeavesFromConfig config p kEndpointPrbCapacityLeaves,
     addLeavesFromConfig config p kEndpointNumerologyCapacityLeaves]"

definition createEndpointTypes :: "element \<Rightarrow> node list option" where
  "createEndpointTypes config =
     each_entry config (uplane_path ''list-endpoint-types'') ''endpoint-types'' (\<lambda>p. parts
      [addLeavesFromConfig config p
         [''id'', ''managed-delay-support'', ''multiple-numerology-supported'', ''max-numerology-change-duration''],
       capacity config p,
       each_entry config (p @ ''/list-supported-section-types'') ''supported-section-types'' (\<lambda>q. parts
        [addLeafFromConfig config q ''section-type'',
         addListLeafFromConfig config q ''supported-section-extensions'']),
       addListLeafFromConfig config p ''supported-frame-structures'',
       addListLeafFromConfig config p ''prb-capacity-allocation-granularity''])"

definition createEndpointCapacitySharingGroups :: "element \<Rightarrow> node list option" where
  "createEndpointCapacitySharingGroups config =
     each_entry config (uplane_path ''list-endpoint-capacity-sharing-groups'') ''endpoint-capacity-sharing-groups''
      (\<lambda>p. parts
       [addLeavesFromConfig config p
          [''id'', ''max-endpoints'', ''max-managed-delay-endpoints'', ''max-non-managed-delay-endpoints''],
        capacity config p])"

definition createArray :: "element \<Rightarrow> string \<Rightarrow> node list option" where
  "createArray config p = parts
    [addLeavesFromConfig config p kParametersLeaves,
     container ''normal-vector-direction''
       (addLeavesFromConfig config (p @ ''/container-normal-vector-direction'') [''azimuth-angle'', ''zenith-angle'']),
     container ''leftmost-bottom-array-element-position''
       (addLeavesFromConfig config (p @ ''/container-leftmost-bottom-array-element-position'') [''x'', ''y'', ''z'']),
     each_entry config (p @ ''/list-polarisations'') ''polarisations''
       (\<lambda>q. addLeavesFromConfig config q [''p'', ''polarisation''])]"

definition createTxArrays :: "element \<Rightarrow> node list option" where
  "createTxArrays config =
     each_entry config (uplane_path ''list-tx-arrays'') ''tx-arrays'' (\<lambda>p. parts
      [createArray config p,
       addLeavesFromConfig config p [''max-gain'', ''independent-power-budget''],
       each_entry config (p @ ''/list-capabilities'') ''capabilities'' (\<lambda>q. parts
        [addLeavesFromConfig config q kSupportForDl,
         addListLeafFromConfig config q ''supported-technology-dl''])])"

definition createRxArrays :: "element \<Rightarrow> node list option" where
  "createRxArrays config =
     each_entry config (uplane_path ''list-rx-arrays'') ''rx-arrays'' (\<lambda>p. parts
      [createArray config p,
       container ''gain-correction-range''
         (addLeavesFromConfig config (p @ ''/container-gain-correction-range'') [''max'', ''min'']),
       each_entry config (p @ ''/list-capabilities'') ''capabilities'' (\<lambda>q. parts
        [addLeavesFromConfig config q kSupportForUl,
         addListLeafFromConfig config q ''supported-technology-ul''])])"

definition endpoint_compression :: "element \<Rightarrow> string \<Rightarrow> node list option" where
  "endpoint_compression config p =
     container ''compression''
       (addLeavesFromConfig config (p @ ''/container-compression'')
         [''dynamic-compression-supported'', ''realtime-variable-bit-width-supported'', ''supported-compression-set-id''])"

definition createStaticLowLevelTxEndpoints :: "element \<Rightarrow> node list option" where
  "createStaticLowLevelTxEndpoints config =
     each_entry config (uplane_path ''list-static-low-level-tx-endpoints'') ''static-low-level-tx-endpoints'' (\<lambda>p. parts
      [addLeavesFromConfig config p [''name'', ''array'', ''endpoint-type'', ''tdd-group''],
       addListLeavesFromConfig config p [''restricted-interfaces'', ''capacity-sharing-groups''],
       endpoint_compression config p])"

definition createStaticLowLevelRxEndpoints :: "element \<Rightarrow> node list option" where
  "createStaticLowLevelRxEndpoints config =
     each_entry config (uplane_path ''list-static-low-level-rx-endpoints'') ''static-low-level-rx-endpoints'' (\<lambda>p. parts
      [addLeavesFromConfig config p
         [''name'', ''array'', ''endpoint-type'', ''prach-group'', ''static-config-supported'',
          ''max-prach-patterns'', ''max-srs-patterns'', ''tdd-group''],
       addListLeavesFromConfig config p [''restricted-interfaces'', ''capacity-sharing-groups''],
       endpoint_compression config p])"

definition createRelations :: "element \<Rightarrow> node list option" where
  "createRelations config =
     each_entry config (uplane_path ''list-relations'') ''relations'' (\<lambda>p. parts
      [addLeafFromConfig config p ''entity'',
       container ''array1'' (addLeavesFromConfig config (p @ ''/container-array1'') [''tx-array-name'', ''rx-array-name'']),
       container ''array2'' (addLeavesFromConfig config (p @ ''/container-array2'') [''tx-array-name'', ''rx-array-name'']),
       each_entry config (p @ ''/list-types'') ''types'' (\<lambda>q. parts
        [addLeafFromConfig config q ''relation-type'',
         each_entry config (q @ ''/list-pairs'') ''pairs''
           (\<lambda>r. addLeavesFromConfig config r [''element-array1'', ''element-array2''])])])"

definition createEndpointPrachGroups :: "element \<Rightarrow> node list option" where
  "createEndpointPrachGroups config =
     each_entry config (uplane_path ''list-endpoint-prach-group'') ''endpoint-prach-group'' (\<lambda>p. parts
      [addLeafFromConfig config p ''id'',
       addListLeafFromConfig config p ''supported-prach-preamble-formats''])"

definition createSupportedCompressionMethodSets :: "element \<Rightarrow> node list option" where
  "createSupportedCompressionMethodSets config =
     each_entry config (uplane_path ''list-supported-compression-method-sets'') ''supported-compression-method-sets''
      (\<lambda>p. parts
       [addLeafFromConfig config p ''id'',
        addLeavesFromConfig config p
          [''iq-bitwidth'', ''exponent'', ''sres-exponent'', ''block-scalar'', ''comp-bit-width'', ''comp-shift'',
           ''block-scalar'', ''csf'', ''mod-comp-scaler'', ''sres-csf'', ''sres-mod-comp-scaler''],
        addListLeafFromConfig config p ''active-beam-space-coeficient-mask''])"

section \<open>Initialisation\<close>

definition mgr_initialise :: "element \<Rightarrow> uplane \<Rightarrow> uplane option" where
  "mgr_initialise config s =
     (if mInitialised s then Some s
      else do {
        ns \<leftarrow> parts
          [createEndpointTypes config, createEndpointCapacitySharingGroups config, createTxArrays config,
           createRxArrays config, createStaticLowLevelTxEndpoints config, createStaticLowLevelRxEndpoints config,
           createRelations config, createEndpointPrachGroups config, createSupportedCompressionMethodSets config];
        Some (s\<lparr>leaves := leaves s @ ns, mInitialised := True\<rparr>) })"

section \<open>Shape of the tree\<close>

lemma collect_Some:
  "collect f xs = Some ns \<longleftrightarrow> (\<exists>nss. map f xs = map Some nss \<and> ns = concat nss)"
proof (induction xs arbitrary: ns)
  case (Cons x xs)
  show ?case
  proof
    assume "collect f (x # xs) = Some ns"
    then obtain n rest where n: "f x = Some n" "collect f xs = Some rest" "ns = n @ rest"
      by (auto split: Option.bind_splits)
    then obtain nss where "map f xs = map Some nss" "rest = concat nss"
      using Cons.IH by auto
    then show "\<exists>nss. map f (x # xs) = map Some nss \<and> ns = concat nss"
      using n by (intro exI [of _ "n # nss"]) simp
  next
    assume "\<exists>nss. map f (x # xs) = map Some nss \<and> ns = concat nss"
    then obtain n nss where "f x = Some n" "map f xs = map Some nss" "ns = n @ concat nss"
      by (auto simp: Cons_eq_map_conv)
    then show "collect f (x # xs) = Some ns"
      using Cons.IH [of "concat nss"] by auto
  qed
qed auto

lemma concat_singletons: "concat (map (\<lambda>x. [f x]) xs) = map f xs"
  by (induction xs) auto

lemma map_Some_singletons:
  assumes "map g xs = map Some nss" "\<And>x ns. x \<in> set xs \<Longrightarrow> g x = Some ns \<Longrightarrow> \<exists>kids. b x = Some kids \<and> ns = [Container name kids]"
  shows "concat nss = map (\<lambda>x. Container name (the (b x))) xs \<and> (\<forall>x \<in> set xs. b x \<noteq> None)"
  using assms
proof (induction xs arbitrary: nss)
  case (Cons x xs)
  then obtain ns rest where ns: "nss = ns # rest" "g x = Some ns" "map g xs = map Some rest"
    by auto
  moreover obtain kids where "b x = Some kids" "ns = [Container name kids]"
    using Cons.prems(2) [of x ns] ns(2) by auto
  ultimately show ?case
    using Cons.IH [of rest] Cons.prems(2) by auto
qed simp

text \<open>One container for every entry, all with the name of the list.\<close>

lemma each_entry_shape:
  assumes "each_entry config listPath name body = Some ns"
  shows "\<exists>n. getNumOfListEntries config listPath = Some n \<and>
    ns = map (\<lambda>i. Container name (the (body (entry_text listPath i)))) [0..<n]"
proof -
  let ?g = "\<lambda>i. do { ns \<leftarrow> body (entry_text listPath i); Some [Container name ns] }"
  obtain n where n: "getNumOfListEntries config listPath = Some n" and c: "collect ?g [0..<n] = Some ns"
    using assms by (auto simp: each_entry_def split: Option.bind_splits)
  from c obtain nss where nss: "map ?g [0..<n] = map Some nss" "ns = concat nss"
    unfolding collect_Some by blast
  have "concat nss = map (\<lambda>i. Container name (the (body (entry_text listPath i)))) [0..<n] \<and>
      (\<forall>i \<in> set [0..<n]. body (entry_text listPath i) \<noteq> None)"
    by (rule map_Some_singletons [OF nss(1)]) (simp split: Option.bind_splits)
  then show ?thesis
    using n nss(2) by blast
qed

text \<open>The manager adds no carrier of its own.\<close>

fun container_name :: "node \<Rightarrow> string" where
  "container_name (Container name _) = name"
| "container_name (Leaf name _) = name"
| "container_name (State_leaf name _ _) = name"

lemma each_entry_names:
  "each_entry config listPath name body = Some ns \<Longrightarrow> \<forall>node \<in> set ns. container_name node = name"
  using each_entry_shape by fastforce

lemma parts_names:
  assumes "parts nss = Some ns" "\<forall>x \<in> set nss. \<forall>ns. x = Some ns \<longrightarrow> (\<forall>node \<in> set ns. container_name node \<notin> bad)"
  shows "\<forall>node \<in> set ns. container_name node \<notin> bad"
proof -
  obtain nss' where "map (\<lambda>x. x) nss = map Some nss'" "ns = concat nss'"
    using assms(1) unfolding parts_def collect_Some by blast
  then show ?thesis
    using assms(2) by auto
qed

lemma mgr_initialise_leaves:
  assumes "mgr_initialise config s = Some s'"
  shows "\<exists>ns. s' = s\<lparr>leaves := leaves s @ ns, mInitialised := True\<rparr> \<and>
    (\<forall>node \<in> set ns. container_name node \<notin> {''rx-array-carriers'', ''tx-array-carriers''})"
proof (cases "mInitialised s")
  case True
  then have "s' = s\<lparr>leaves := leaves s @ [], mInitialised := True\<rparr>"
    using assms by (simp add: mgr_initialise_def)
  then show ?thesis
    by (intro exI [of _ "[]"]) simp
next
  case False
  let ?ps = "[createEndpointTypes config, createEndpointCapacitySharingGroups config, createTxArrays config,
     createRxArrays config, createStaticLowLevelTxEndpoints config, createStaticLowLevelRxEndpoints config,
     createRelations config, createEndpointPrachGroups config, createSupportedCompressionMethodSets config]"
  obtain ns where ns: "parts ?ps = Some ns" "s' = s\<lparr>leaves := leaves s @ ns, mInitialised := True\<rparr>"
    using assms False by (auto simp: mgr_initialise_def split: Option.bind_splits)
  have "\<forall>node \<in> set ns. container_name node \<notin> {''rx-array-carriers'', ''tx-array-carriers''}"
    by (rule parts_names [OF ns(1)])
      (auto simp: createEndpointTypes_def createEndpointCapacitySharingGroups_def createTxArrays_def createRxArrays_def
        createStaticLowLevelTxEndpoints_def createStaticLowLevelRxEndpoints_def createRelations_def
        createEndpointPrachGroups_def createSupportedCompressionMethodSets_def dest!: each_entry_names)
  then show ?thesis
    using ns(2) by blast
qed

end
