(* ===== verification/UplaneCarriers.thy ===== *)
theory UplaneCarriers
  imports UplaneInvariant CarrierConfig
begin

text \<open>
  The carriers of the user plane over the life of the server: a state is reachable by the
  start of the handler and of the carrier manager, by changes of the data store and by
  callbacks of the hardware, in any order. In every such state a carrier is served at most
  once and the notifications sent for it are the changes of its state.
\<close>

section \<open>Runs\<close>

definition fresh :: "uplane \<Rightarrow> bool" where
  "fresh s \<longleftrightarrow>
     mRxLinks s = Map.empty \<and> mTxLinks s = Map.empty \<and> leaves s = [] \<and>
     mRxCarrierState s = Map.empty \<and> mTxCarrierState s = Map.empty \<and>
     notifications s = [] \<and> \<not> handler_instance s"

inductive reachable :: "uplane \<Rightarrow> bool" where
  start: "fresh s \<Longrightarrow> reachable (initialise env s)"
| tree: "reachable s \<Longrightarrow> mgr_initialise config s = Some s' \<Longrightarrow> reachable s'"
| change: "reachable s \<Longrightarrow> reachable (snd (uplane_change env event changes s))"
| callback: "reachable s \<Longrightarrow> reachable (carrierStateCallbackWrapper d name st s)"
| read_only: "reachable s \<Longrightarrow> reachable (makeReadOnly paths s)"
| read_write: "reachable s \<Longrightarrow> reachable (removeReadOnly xpath s)"

section \<open>What is observed of a carrier\<close>

definition stored_state :: "dir \<Rightarrow> uplane \<Rightarrow> string \<rightharpoonup> string" where
  "stored_state d s = (case d of Rx \<Rightarrow> mRxCarrierState s | Tx \<Rightarrow> mTxCarrierState s)"

definition carrier_list :: "dir \<Rightarrow> string" where
  "carrier_list d = (case d of Rx \<Rightarrow> ''rx-array-carriers'' | Tx \<Rightarrow> ''tx-array-carriers'')"

fun serves :: "dir \<Rightarrow> string \<Rightarrow> node \<Rightarrow> bool" where
  "serves d c (Container name kids) \<longleftrightarrow> name = carrier_list d \<and> State_leaf ''state'' d c \<in> set kids"
| "serves d c _ \<longleftrightarrow> False"

definition served :: "dir \<Rightarrow> string \<Rightarrow> uplane \<Rightarrow> nat" where
  "served d c s = length (filter (serves d c) (leaves s))"

definition notif_path :: "dir \<Rightarrow> string" where
  "notif_path d = path (txrx d @ ''-array-carriers-state-change'')"

definition notified :: "dir \<Rightarrow> string \<Rightarrow> uplane \<Rightarrow> string list" where
  "notified d c s =
     map (\<lambda>(p, ps). snd (ps ! 1)) (filter (\<lambda>(p, ps). p = notif_path d \<and> snd (ps ! 0) = c) (notifications s))"

definition state_names :: "string set" where
  "state_names = {''DISABLED'', ''BUSY'', ''READY''}"

text \<open>
  The stored state, the number of times the carrier is served, and the states notified: the
  notifications start from \<open>DISABLED\<close>, or from the empty state of a carrier that was looked up
  before it was known, each differs from the one before, and the last is the stored state.
\<close>

definition carrier_ok :: "string option \<Rightarrow> nat \<Rightarrow> string list \<Rightarrow> bool" where
  "carrier_ok st n ns =
     (case st of
        None \<Rightarrow> n = 0 \<and> ns = []
      | Some v \<Rightarrow>
          n \<le> 1 \<and> v \<in> insert [] state_names \<and> set ns \<subseteq> state_names \<and>
          (\<exists>x \<in> {[], ''DISABLED''}. v = last (x # ns) \<and> distinct_adj (x # ns)))"

definition links_ok :: "uplane \<Rightarrow> bool" where
  "links_ok s \<longleftrightarrow>
     (\<forall>n l. mRxLinks s n = Some l \<longrightarrow> \<not> link_empty l) \<and> (\<forall>n l. mTxLinks s n = Some l \<longrightarrow> \<not> link_empty l)"

definition uplane_ok :: "uplane \<Rightarrow> bool" where
  "uplane_ok s \<longleftrightarrow> links_ok s \<and> (\<forall>d c. carrier_ok (stored_state d s c) (served d c s) (notified d c s))"

section \<open>Links\<close>

lemma link_empty_iff: "link_empty l \<longleftrightarrow> mEndpointName l @ mCarrierName l = []"
  by (simp add: link_empty_def)

lemma link_merge_not_empty: "\<not> link_empty l \<Longrightarrow> \<not> link_empty (link_merge l r)"
  by (auto simp: link_empty_def link_merge_def Let_def split: if_splits)

lemma update_link_ok:
  "\<forall>n l. links n = Some l \<longrightarrow> \<not> link_empty l \<Longrightarrow>
   \<forall>n l. update_link name endpoint carrierName links n = Some l \<longrightarrow> \<not> link_empty l"
  by (auto simp: update_link_def Let_def link_merge_not_empty split: option.splits if_splits)

section \<open>The primitive steps on the observations\<close>

lemma observe_same:
  assumes "mRxCarrierState s' = mRxCarrierState s" "mTxCarrierState s' = mTxCarrierState s" "leaves s' = leaves s"
    and "notifications s' = notifications s"
  shows "stored_state d s' c = stored_state d s c" "served d c s' = served d c s" "notified d c s' = notified d c s"
  using assms by (simp_all add: stored_state_def served_def notified_def split: dir.split)

lemma uplane_ok_same:
  "uplane_ok s \<Longrightarrow> mRxCarrierState s' = mRxCarrierState s \<Longrightarrow> mTxCarrierState s' = mTxCarrierState s \<Longrightarrow>
   leaves s' = leaves s \<Longrightarrow> notifications s' = notifications s \<Longrightarrow> links_ok s' \<Longrightarrow> uplane_ok s'"
  unfolding uplane_ok_def using observe_same [of s' s] by simp

lemma uplane_ok_unobserved:
  "uplane_ok s \<Longrightarrow> mRxCarrierState s' = mRxCarrierState s \<Longrightarrow> mTxCarrierState s' = mTxCarrierState s \<Longrightarrow>
   leaves s' = leaves s \<Longrightarrow> notifications s' = notifications s \<Longrightarrow> mRxLinks s' = mRxLinks s \<Longrightarrow>
   mTxLinks s' = mTxLinks s \<Longrightarrow> uplane_ok s'"
  by (rule uplane_ok_same) (auto simp: uplane_ok_def links_ok_def)

lemma links_keep: "uplane_ok s \<Longrightarrow> uplane_ok (updateRxLink n e c s)" "uplane_ok s \<Longrightarrow> uplane_ok (updateTxLink n e c s)"
proof -
  assume ok: "uplane_ok s"
  then have l: "\<forall>n l. mRxLinks s n = Some l \<longrightarrow> \<not> link_empty l" "\<forall>n l. mTxLinks s n = Some l \<longrightarrow> \<not> link_empty l"
    by (auto simp: uplane_ok_def links_ok_def)
  show "uplane_ok (updateRxLink n e c s)" "uplane_ok (updateTxLink n e c s)"
    using update_link_ok [OF l(1), of n e c] update_link_ok [OF l(2), of n e c] l
    by (auto intro!: uplane_ok_same [OF ok] simp: updateRxLink_def updateTxLink_def links_ok_def)
qed

text \<open>A carrier that becomes known is served once more and has the state \<open>DISABLED\<close>.\<close>

lemma serves_new [simp]:
  "serves d c (Container ''rx-array-carriers'' (addLeaf ''name'' c' [] @ [State_leaf ''state'' Rx c'])) \<longleftrightarrow> d = Rx \<and> c = c'"
  "serves d c (Container ''tx-array-carriers'' (addLeaf ''name'' c' [] @ [State_leaf ''state'' Tx c'])) \<longleftrightarrow> d = Tx \<and> c = c'"
  by (cases d; auto simp: carrier_list_def addLeaf_def)+

lemma observe_updateRxCarrier:
  "stored_state d (updateRxCarrier c' s) c =
     (if d = Rx \<and> c = c' \<and> mRxCarrierState s c' = None then Some ''DISABLED'' else stored_state d s c)"
  "served d c (updateRxCarrier c' s) =
     served d c s + (if d = Rx \<and> c = c' \<and> mRxCarrierState s c' = None \<and> c' \<notin> mRxCarriers s then 1 else 0)"
  "notified d c (updateRxCarrier c' s) = notified d c s"
  by (auto simp: updateRxCarrier_def mgr_updateRxCarrier_def stored_state_def served_def notified_def
      simp del: serves.simps split: dir.split)

lemma observe_updateTxCarrier:
  "stored_state d (updateTxCarrier c' s) c =
     (if d = Tx \<and> c = c' \<and> mTxCarrierState s c' = None then Some ''DISABLED'' else stored_state d s c)"
  "served d c (updateTxCarrier c' s) =
     served d c s + (if d = Tx \<and> c = c' \<and> mTxCarrierState s c' = None \<and> c' \<notin> mTxCarriers s then 1 else 0)"
  "notified d c (updateTxCarrier c' s) = notified d c s"
  by (auto simp: updateTxCarrier_def mgr_updateTxCarrier_def stored_state_def served_def notified_def
      simp del: serves.simps split: dir.split)

lemma links_ok_carriers [simp]:
  "links_ok (updateRxCarrier c s) = links_ok s" "links_ok (updateTxCarrier c s) = links_ok s"
  by (simp_all add: links_ok_def updateRxCarrier_def updateTxCarrier_def mgr_updateRxCarrier_def mgr_updateTxCarrier_def)

lemma carrier_ok_new: "carrier_ok None n ns \<Longrightarrow> k \<le> 1 \<Longrightarrow> carrier_ok (Some ''DISABLED'') (n + k) ns"
  by (simp add: carrier_ok_def state_names_def)

lemma carrier_ok_lookup: "carrier_ok None n ns \<Longrightarrow> carrier_ok (Some []) n ns"
  by (simp add: carrier_ok_def)

lemma carriers_keep: "uplane_ok s \<Longrightarrow> uplane_ok (updateRxCarrier c s)" "uplane_ok s \<Longrightarrow> uplane_ok (updateTxCarrier c s)"
proof -
  assume ok: "uplane_ok s"
  have rx: "mRxCarrierState s c = None \<Longrightarrow> carrier_ok None (served Rx c s) (notified Rx c s)"
    using ok unfolding uplane_ok_def by (metis dir.case(1) stored_state_def)
  have tx: "mTxCarrierState s c = None \<Longrightarrow> carrier_ok None (served Tx c s) (notified Tx c s)"
    using ok unfolding uplane_ok_def by (metis dir.case(2) stored_state_def)
  show "uplane_ok (updateRxCarrier c s)"
    using ok carrier_ok_new [OF rx, of 0] carrier_ok_new [OF rx, of 1]
    by (auto simp: uplane_ok_def observe_updateRxCarrier)
  show "uplane_ok (updateTxCarrier c s)"
    using ok carrier_ok_new [OF tx, of 0] carrier_ok_new [OF tx, of 1]
    by (auto simp: uplane_ok_def observe_updateTxCarrier)
qed

text \<open>The lookup that makes a missing entry.\<close>

lemma lookup_keeps:
  "uplane_ok s \<Longrightarrow> uplane_ok (s\<lparr>mRxCarrierState := (mRxCarrierState s)(i \<mapsto> state_of (mRxCarrierState s) i)\<rparr>)"
  "uplane_ok s \<Longrightarrow> uplane_ok (s\<lparr>mTxCarrierState := (mTxCarrierState s)(i \<mapsto> state_of (mTxCarrierState s) i)\<rparr>)"
proof -
  assume ok: "uplane_ok s"
  have all: "carrier_ok (stored_state d s c) (served d c s) (notified d c s)" for d c
    using ok by (simp add: uplane_ok_def)
  have links: "links_ok (s\<lparr>mRxCarrierState := m\<rparr>)" "links_ok (s\<lparr>mTxCarrierState := m\<rparr>)" for m
    using ok by (simp_all add: uplane_ok_def links_ok_def)
  let ?r = "s\<lparr>mRxCarrierState := (mRxCarrierState s)(i \<mapsto> state_of (mRxCarrierState s) i)\<rparr>"
  let ?t = "s\<lparr>mTxCarrierState := (mTxCarrierState s)(i \<mapsto> state_of (mTxCarrierState s) i)\<rparr>"
  have same: "served d c ?r = served d c s" "notified d c ?r = notified d c s"
      "served d c ?t = served d c s" "notified d c ?t = notified d c s" for d c
    by (simp_all add: served_def notified_def)
  have r: "carrier_ok (stored_state d ?r c) (served d c s) (notified d c s)" for d c
    using all [of d c] carrier_ok_lookup
    by (cases d; cases "mRxCarrierState s i") (auto simp: stored_state_def state_of_def)
  have t: "carrier_ok (stored_state d ?t c) (served d c s) (notified d c s)" for d c
    using all [of d c] carrier_ok_lookup
    by (cases d; cases "mTxCarrierState s i") (auto simp: stored_state_def state_of_def)
  show "uplane_ok ?r" "uplane_ok ?t"
    using r t same links by (simp_all add: uplane_ok_def)
qed

section \<open>Callbacks\<close>

lemma state_name_names: "state_name st \<in> state_names"
  by (simp add: state_name_def state_names_def split: carrier_state.split)

lemma carrier_ok_callback:
  assumes "carrier_ok (Some v) n ns" "v' \<in> state_names"
  shows "carrier_ok (Some v') n (if v' = v then ns else ns @ [v'])"
proof -
  obtain x where x: "x \<in> {[], ''DISABLED''}" "v = last (x # ns)" "distinct_adj (x # ns)"
    and n: "n \<le> 1" "v \<in> insert [] state_names" "set ns \<subseteq> state_names"
    using assms(1) unfolding carrier_ok_def option.case by blast
  have "distinct_adj ((x # ns) @ [v'])" if "v' \<noteq> v"
    using that x(2,3) by (subst distinct_adj_append_iff) simp
  then have "\<exists>x \<in> {[], ''DISABLED''}. v' = last (x # ns @ [v']) \<and> distinct_adj (x # ns @ [v'])" if "v' \<noteq> v"
    using that x(1) by (intro bexI [of _ x]) simp_all
  then show ?thesis
    using assms n by (simp add: carrier_ok_def)
qed

text \<open>The end of a callback, for a carrier that is known.\<close>

lemma observe_notification:
  "stored_state d' (carrierChangeNotification (txrx d) c old v s) c' = stored_state d' s c'"
  "served d' c' (carrierChangeNotification (txrx d) c old v s) = served d' c' s"
  "notified d' c' (carrierChangeNotification (txrx d) c old v s) =
     notified d' c' s @ (if v \<noteq> old \<and> d' = d \<and> c' = c then [v] else [])"
  "links_ok (carrierChangeNotification (txrx d) c old v s) = links_ok s"
  by (cases d; cases d'; auto simp: carrierChangeNotification_def Let_def stored_state_def served_def notified_def
      notif_path_def path_def txrx_def links_ok_def)+

lemma callback_keeps:
  assumes "uplane_ok s"
  shows "uplane_ok (carrierStateCallbackWrapper d name st s)"
proof -
  define t where "t = (case d of Rx \<Rightarrow> updateRxCarrier name s | Tx \<Rightarrow> updateTxCarrier name s)"
  have ok: "uplane_ok t"
    unfolding t_def using carriers_keep [OF assms] by (cases d) simp_all
  obtain old where old: "stored_state d t name = Some old"
    unfolding t_def using observe_updateRxCarrier(1) [of d name s name] observe_updateTxCarrier(1) [of d name s name]
    by (cases d; cases "stored_state d s name") (auto simp: stored_state_def split: if_splits)
  let ?v = "state_name st"
  define u where "u = (case d of Rx \<Rightarrow> t\<lparr>mRxCarrierState := (mRxCarrierState t)(name \<mapsto> ?v)\<rparr>
    | Tx \<Rightarrow> t\<lparr>mTxCarrierState := (mTxCarrierState t)(name \<mapsto> ?v)\<rparr>)"
  have u: "stored_state d' u c = (if d' = d \<and> c = name then Some ?v else stored_state d' t c)"
      "served d' c u = served d' c t" "notified d' c u = notified d' c t" "links_ok u = links_ok t" for d' c
    by (cases d; cases d'; simp add: u_def stored_state_def served_def notified_def links_ok_def)+
  have all: "carrier_ok (stored_state d' t c) (served d' c t) (notified d' c t)" for d' c
    using ok by (simp add: uplane_ok_def)
  have "uplane_ok (carrierChangeNotification (txrx d) name old ?v u)"
    using ok all carrier_ok_callback [OF all [of d name, unfolded old] state_name_names [of st]]
    by (auto simp: uplane_ok_def observe_notification u)
  moreover have "carrierStateCallbackWrapper d name st s =
      (if handler_instance s then carrierChangeNotification (txrx d) name old ?v u else s)"
    using old by (cases d) (simp_all add: carrierStateCallbackWrapper_def rxCarrierStateCallback_def
        txCarrierStateCallback_def t_def u_def txrx_def stored_state_def state_of_def Let_def)
  ultimately show ?thesis
    using assms by simp
qed

lemma run_callbacks_keep: "uplane_ok s \<Longrightarrow> uplane_ok (run_callbacks cbs s)"
  by (induction cbs s rule: run_callbacks.induct) (simp_all add: callback_keeps)

lemma hal_keeps: "uplane_ok s \<Longrightarrow> uplane_ok (snd (hal env c s))"
  by (auto simp: hal_def Let_def intro!: run_callbacks_keep uplane_ok_unobserved [of s])

section \<open>Runs keep the invariant\<close>

interpretation carriers: uplane_inv env uplane_ok "\<lambda>_. True" for env
  by unfold_locales
    (auto simp: links_keep carriers_keep lookup_keeps hal_keeps intro: uplane_ok_unobserved)

interpretation carriers_change: change_handler "uplane_hooks env" xpath uplane_ok for env xpath
  by (rule carriers.hooks_keep) simp_all

lemma fresh_ok: "fresh s \<Longrightarrow> uplane_ok s"
  by (simp add: fresh_def uplane_ok_def links_ok_def carrier_ok_def stored_state_def served_def notified_def
      split: dir.split)

lemma served_other: "container_name node \<notin> {''rx-array-carriers'', ''tx-array-carriers''} \<Longrightarrow> \<not> serves d c node"
  by (cases node; cases d) (auto simp: carrier_list_def)

lemma tree_keeps:
  assumes "uplane_ok s" "mgr_initialise config s = Some s'"
  shows "uplane_ok s'"
proof -
  obtain ns where ns: "s' = s\<lparr>leaves := leaves s @ ns, mInitialised := True\<rparr>"
      "\<forall>node \<in> set ns. container_name node \<notin> {''rx-array-carriers'', ''tx-array-carriers''}"
    using mgr_initialise_leaves [OF assms(2)] by blast
  then have "filter (serves d c) ns = []" for d c
    using served_other by (auto simp: filter_empty_conv)
  then have "served d c s' = served d c s" "notified d c s' = notified d c s" "stored_state d s' = stored_state d s" for d c
    using ns(1) by (simp_all add: served_def notified_def stored_state_def split: dir.split)
  then show ?thesis
    using assms(1) ns(1) by (simp add: uplane_ok_def links_ok_def)
qed

lemma reachable_ok: "reachable s \<Longrightarrow> uplane_ok s"
proof (induction rule: reachable.induct)
  case (start s env)
  have "uplane_ok (s\<lparr>handler_instance := True\<rparr>)" if "uplane_ok s" for s
    by (rule uplane_ok_unobserved [OF that]) simp_all
  then show ?case
    using fresh_ok [OF start] by (intro carriers.initialise_keeps) simp_all
next
  case (tree s config s')
  then show ?case
    by (rule_tac tree_keeps)
next
  case (change s env event changes)
  then show ?case
    unfolding uplane_change_def by (intro carriers_change.module_change_keeps) simp_all
next
  case (callback s d name st)
  then show ?case
    by (simp add: callback_keeps)
next
  case (read_only s paths)
  then show ?case
    by (auto simp: makeReadOnly_def intro: uplane_ok_unobserved)
next
  case (read_write s xpath)
  then show ?case
    by (auto simp: removeReadOnly_def intro: uplane_ok_unobserved)
qed

section \<open>Properties\<close>

text \<open>
  C13: whatever the order of changes, callbacks and initialisation, a carrier is served at
  most once, and only when it is known; a carrier that is not known was never notified; and
  the notifications of a carrier replay its states: each differs from the one before, and
  the last is the stored state.
\<close>

theorem carriers_served_once:
  assumes "reachable s"
  shows "served d c s \<le> 1 \<and>
    (case stored_state d s c of
       None \<Rightarrow> served d c s = 0 \<and> notified d c s = []
     | Some v \<Rightarrow> \<exists>x \<in> {[], ''DISABLED''}. v = last (x # notified d c s) \<and> distinct_adj (x # notified d c s))"
proof -
  have "carrier_ok (stored_state d s c) (served d c s) (notified d c s)"
    using reachable_ok [OF assms] by (simp add: uplane_ok_def)
  then show ?thesis
    unfolding carrier_ok_def by (cases "stored_state d s c") simp_all
qed

lemma fresh_fresh_state: "fresh fresh_state"
  by (simp add: fresh_def fresh_state_def)

theorem carriers_served_once_witness:
  "served Rx ''c'' (carrierStateCallbackWrapper Rx ''c'' BUSY (initialise demo_env fresh_state)) \<le> 1"
  using carriers_served_once [OF reachable.callback [OF reachable.start [OF fresh_fresh_state]], of Rx "''c''" Rx "''c''" BUSY demo_env]
  by blast

text \<open>
  C17: the state keeps its types: the stored state of a carrier is one of the names the
  model has, or empty, only such names are notified, and no link that has neither an
  endpoint nor a carrier is kept.
\<close>

theorem uplane_types:
  assumes "reachable s"
  shows "ran (stored_state d s) \<subseteq> {[], ''DISABLED'', ''BUSY'', ''READY''} \<and>
    set (notified d c s) \<subseteq> {''DISABLED'', ''BUSY'', ''READY''} \<and>
    Ball (ran (mRxLinks s) \<union> ran (mTxLinks s)) (\<lambda>l. mEndpointName l @ mCarrierName l \<noteq> [])"
proof -
  have ok: "links_ok s" "carrier_ok (stored_state d s c) (served d c s) (notified d c s)" for c
    using reachable_ok [OF assms] by (auto simp: uplane_ok_def)
  have "v \<in> {[], ''DISABLED'', ''BUSY'', ''READY''}" if "stored_state d s c' = Some v" for c' v
    using ok(2) [of c'] that by (simp add: carrier_ok_def state_names_def)
  then have "ran (stored_state d s) \<subseteq> {[], ''DISABLED'', ''BUSY'', ''READY''}"
    unfolding ran_def by blast
  moreover have "set (notified d c s) \<subseteq> {''DISABLED'', ''BUSY'', ''READY''}"
    using ok(2) [of c] by (auto simp: carrier_ok_def state_names_def split: option.splits)
  moreover have "Ball (ran (mRxLinks s) \<union> ran (mTxLinks s)) (\<lambda>l. mEndpointName l @ mCarrierName l \<noteq> [])"
    using ok(1) by (fastforce simp: ran_def links_ok_def link_empty_iff)
  ultimately show ?thesis
    by blast
qed

theorem uplane_types_witness:
  "ran (stored_state Tx (initialise demo_env fresh_state)) \<subseteq> {[], ''DISABLED'', ''BUSY'', ''READY''}"
  using uplane_types [OF reachable.start [OF fresh_fresh_state], of Tx demo_env] by blast

section \<open>A carrier that is never served\<close>

text \<open>
  When \<open>active\<close> is set to \<open>INACTIVE\<close> before the name of the carrier arrives, the lookup makes an
  entry with the empty state, and the carrier counts as present from then on.
\<close>

lemma inactive_hides_carrier:
  assumes "mRxCarrierState s c = None" "\<And>cs call. hr_states (e_module env cs call) = []"
    and "s' = snd (rx_carrier_value env pname c ''active'' ''INACTIVE'' s)"
  shows "mRxCarrierState s' c = Some [] \<and> updateRxCarrier c s' = s' \<and> served Rx c s' = served Rx c s"
proof -
  let ?t = "s\<lparr>mRxCarrierState := (mRxCarrierState s)(c \<mapsto> [])\<rparr>"
  have hal: "mRxCarrierState (snd (hal env call u)) = mRxCarrierState u \<and> leaves (snd (hal env call u)) = leaves u" for call u
    by (simp add: hal_def Let_def assms(2))
  have act: "mRxCarrierState (snd (handleActivate env pname l v ph u)) = mRxCarrierState u \<and>
      leaves (snd (handleActivate env pname l v ph u)) = leaves u" for l v ph u
    using hal by (simp add: handleActivate_def change_carrier_def Let_def split: prod.split) (metis snd_conv)
  have "s' = snd (handleActivate env pname ''active'' ''INACTIVE'' VALUE_APPLY ?t)"
    using assms(1,3) by (simp add: rx_carrier_value_def state_of_def)
  then show ?thesis
    using act [of "''active''" "''INACTIVE''" VALUE_APPLY ?t] by (simp add: updateRxCarrier_def served_def)
qed

end
