(* ===== verification/UplaneEndpoints.thy ===== *)
theory UplaneEndpoints
  imports UplaneCalls UplaneCarriers
begin

text \<open>
  What reaches the hardware abstraction for a leaf of an endpoint, what a change of a carrier
  asks of it, and which changes are refused because they are read-only.
\<close>

section \<open>Callbacks leave the endpoints alone\<close>

lemma endpoints_carriers [simp]:
  "mRxEndpointComps (updateRxCarrier c s) = mRxEndpointComps s" "mRxEndpointComps (updateTxCarrier c s) = mRxEndpointComps s"
  "mRxEndpointEaxcs (updateRxCarrier c s) = mRxEndpointEaxcs s" "mRxEndpointEaxcs (updateTxCarrier c s) = mRxEndpointEaxcs s"
  "mTxEndpointEaxcs (updateRxCarrier c s) = mTxEndpointEaxcs s" "mTxEndpointEaxcs (updateTxCarrier c s) = mTxEndpointEaxcs s"
  by (simp_all add: updateRxCarrier_def updateTxCarrier_def mgr_updateRxCarrier_def mgr_updateTxCarrier_def)

lemma endpoints_callback [simp]:
  "mRxEndpointComps (carrierStateCallbackWrapper d n st s) = mRxEndpointComps s"
  "mRxEndpointEaxcs (carrierStateCallbackWrapper d n st s) = mRxEndpointEaxcs s"
  "mTxEndpointEaxcs (carrierStateCallbackWrapper d n st s) = mTxEndpointEaxcs s"
  by (simp_all add: carrierStateCallbackWrapper_def rxCarrierStateCallback_def txCarrierStateCallback_def
      carrierChangeNotification_def Let_def split: dir.split)

lemma endpoints_run_callbacks [simp]:
  "mRxEndpointComps (run_callbacks cbs s) = mRxEndpointComps s"
  "mRxEndpointEaxcs (run_callbacks cbs s) = mRxEndpointEaxcs s"
  "mTxEndpointEaxcs (run_callbacks cbs s) = mTxEndpointEaxcs s"
  by (induction cbs s rule: run_callbacks.induct) simp_all

lemma endpoints_hal [simp]:
  "mRxEndpointComps (snd (hal env c s)) = mRxEndpointComps s"
  "mRxEndpointEaxcs (snd (hal env c s)) = mRxEndpointEaxcs s"
  "mTxEndpointEaxcs (snd (hal env c s)) = mTxEndpointEaxcs s"
  by (simp_all add: hal_def Let_def)

section \<open>Compression\<close>

text \<open>The member of \<open>compression_t\<close> that a leaf of the model stands for.\<close>

definition leaf_member :: "string \<Rightarrow> (int \<Rightarrow> compression \<Rightarrow> compression) option" where
  "leaf_member leaf =
     map_of
      [(''iq-bitwidth'', \<lambda>v c. c\<lparr>iq_bitwidth := of_int v\<rparr>),
       (''exponent'', put_byte0), (''sres-exponent'', put_byte0), (''block-scalar'', put_byte0),
       (''comp-bit-width'', put_byte0), (''comp-shift'', put_byte1),
       (''active-beam-space-coeficient-mask'', put_byte0), (''block-scaler'', put_byte1),
       (''csf'', put_byte0), (''mod-comp-scaler'', put_half),
       (''sres-csf'', put_byte0), (''sres-mod-comp-scaler'', put_half)] leaf"

lemma leaf_member_Some: "leaf_member leaf = Some f \<Longrightarrow> leaf \<noteq> ''compression-type''"
  by (auto simp: leaf_member_def)

definition kept :: "'c \<Rightarrow> (string \<rightharpoonup> 'c) \<Rightarrow> string \<Rightarrow> 'c" where
  "kept zero m e = (case m e of None \<Rightarrow> zero | Some c \<Rightarrow> c)"

lemma set_type_none [simp]: "set_type [] c = (None, c)"
  by (simp add: set_type_def)

lemma update_object_runs:
  assumes "change (kept zero (get s) e) = (None, obj)" "e_loaded env (hal_symbol (call e obj))"
    and "\<And>e c s. hal_calls (put e c s) = hal_calls s"
  shows "fst (update_object get put zero call env e change s) = None"
    "hal_calls (snd (update_object get put zero call env e change s)) = hal_calls s @ [call e obj]"
    "snd (update_object get put zero call env e change s) = snd (hal env (call e obj) (put e obj s))"
  using assms by (simp_all add: update_object_def kept_def hal_calls_hal)

lemma update_object_throws:
  assumes "\<And>c. fst (change c) \<noteq> None" "\<And>e c s. hal_calls (put e c s) = hal_calls s"
  shows "fst (update_object get put zero call env e change s) \<noteq> None"
    "hal_calls (snd (update_object get put zero call env e change s)) = hal_calls s"
  using assms(1) [of "kept zero (get s) e"] assms(2)
  by (auto simp: update_object_def kept_def split: prod.split option.split)

text \<open>Statements without effect drop out of a sequence.\<close>

lemma in_order_funs:
  "in_order [] = (\<lambda>c. (None, c))" "in_order (skip # fs) = in_order fs"
  "in_order ((\<lambda>c. (None, f c)) # fs) = (\<lambda>c. in_order fs (f c))"
  "set_type [] = skip" "assign_if [] g = skip"
  by (simp_all add: fun_eq_iff skip_def)

lemma assign_runs:
  "stoi v = Inr n \<Longrightarrow> assign v f = (\<lambda>c. (None, f n c))"
  "stoi v = Inr n \<Longrightarrow> assign_if v f = (\<lambda>c. (None, f n c))"
  by (auto simp: assign_def assign_if_def fun_eq_iff)

lemma rx_leaf_change:
  assumes "leaf_member leaf = Some f" "stoi v = Inr n"
  shows "handleCompression env e leaf v True =
    update_object mRxEndpointComps (\<lambda>e c s. s\<lparr>mRxEndpointComps := (mRxEndpointComps s)(e \<mapsto> c)\<rparr>)
      compression_zero (Update_compression Rx) env e (\<lambda>c. (None, f n c))"
  using assms
  by (auto simp: leaf_member_def handleCompression_def compression_leaf_def updateRxEndpointCompression_def
      set_format_rx_def in_order_funs assign_runs split: if_splits)

text \<open>
  A numeric compression leaf of a receive endpoint sets exactly the member of the
  compression structure that the leaf stands for, to the value modulo the width of the
  member, keeps the rest, and passes the structure on.
\<close>

theorem rx_compression_leaf:
  assumes "leaf_member leaf = Some f" "stoi v = Inr n"
    and "e_loaded env (hal_symbol (Update_compression Rx e c))"
    and "c = f n (kept compression_zero (mRxEndpointComps s) e)"
    and "handleCompression env e leaf v True s = (exn, s')"
  shows "exn = None \<and> mRxEndpointComps s' = (mRxEndpointComps s)(e \<mapsto> c) \<and>
    hal_calls s' = hal_calls s @ [Update_compression Rx e c]"
proof -
  let ?put = "\<lambda>e c s. s\<lparr>mRxEndpointComps := (mRxEndpointComps s)(e \<mapsto> c)\<rparr>"
  have run: "(exn, s') = update_object mRxEndpointComps ?put compression_zero (Update_compression Rx) env e
      (\<lambda>c. (None, f n c)) s"
    using assms(5) rx_leaf_change [OF assms(1,2), of env e] by simp
  have loaded: "e_loaded env (hal_symbol (Update_compression Rx e (f n (kept compression_zero (mRxEndpointComps s) e))))"
    using assms(3,4) by simp
  have change: "(\<lambda>c. (None, f n c)) (kept compression_zero (mRxEndpointComps s) e) = (None :: exn option, f n (kept compression_zero (mRxEndpointComps s) e))"
    by simp
  note runs = update_object_runs [where change = "\<lambda>c. (None, f n c)" and get = mRxEndpointComps and zero = compression_zero
      and call = "Update_compression Rx" and put = ?put, OF change loaded, folded assms(4)]
  have "exn = fst (exn, s')" "s' = snd (exn, s')"
    by simp_all
  then show ?thesis
    unfolding run using runs by simp
qed

theorem rx_compression_leaf_witness:
  "mRxEndpointComps (snd (handleCompression demo_env ''e'' ''comp-shift'' ''7'' True fresh_state)) ''e'' =
    Some (compression_zero\<lparr>u_byte1 := 7\<rparr>)"
proof -
  obtain exn s' where run: "handleCompression demo_env ''e'' ''comp-shift'' ''7'' True fresh_state = (exn, s')"
    by (cases "handleCompression demo_env ''e'' ''comp-shift'' ''7'' True fresh_state")
  have n: "stoi ''7'' = Inr 7"
    by (simp add: stoi_def number_simps)
  have f: "leaf_member ''comp-shift'' = Some put_byte1"
    by (simp add: leaf_member_def)
  have "e_loaded demo_env (hal_symbol x)" for x
    by (simp add: demo_env_def)
  from rx_compression_leaf [OF f n this refl run] show ?thesis
    using run by (simp add: fresh_state_def kept_def)
qed

text \<open>
  For the transmit side the same leaves of the formats with two values always throw,
  because the value that is not being set is converted from the empty string; the hardware
  abstraction is never called.
\<close>

theorem tx_two_values_throw:
  assumes "compression_leaf leaf = Some (fmt, b)"
    and "fmt \<in> {''u-law'', ''beam-space-compression'', ''modulation-compression'', ''modulation-compression-selective-re-sending''}"
  shows "fst (handleCompression env e leaf v False s) \<noteq> None \<and>
    hal_calls (snd (handleCompression env e leaf v False s)) = hal_calls s"
proof -
  have leaf: "leaf \<noteq> ''iq-bitwidth''" "leaf \<noteq> ''compression-type''"
    using assms(1) by (auto simp: compression_leaf_def)
  let ?vs = "if b then (v, []) else ([], v)"
  have h: "handleCompression env e leaf v False = updateTxEndpointCompression env e [] [] fmt (fst ?vs) (snd ?vs)"
    using leaf assms(1) by (cases b) (simp_all add: handleCompression_def)
  obtain g where g: "set_format_tx fmt x y = [assign x put_byte0, assign y g]" for x y
    using assms(2) by (auto simp: set_format_tx_def)
  have empty: "assign [] f c = (Some Invalid_argument, c)" for f and c :: compression
    by (simp add: assign_def)
  have throws: "fst (in_order ([assign_if [] (\<lambda>v c. c\<lparr>iq_bitwidth := of_int v\<rparr>), set_type []] @
      set_format_tx fmt (fst ?vs) (snd ?vs)) c) \<noteq> None" for c
    unfolding g by (cases b) (simp_all add: in_order_funs empty split: prod.split option.split)
  show ?thesis
    unfolding h updateTxEndpointCompression_def by (intro conjI update_object_throws throws) simp_all
qed

theorem tx_two_values_throw_witness:
  "fst (handleCompression demo_env ''e'' ''comp-shift'' ''7'' False fresh_state) \<noteq> None"
  using tx_two_values_throw [of "''comp-shift''" "''u-law''" False demo_env "''e''" "''7''" fresh_state]
  by (simp add: compression_leaf_def)

section \<open>Activation\<close>

definition rx_active_path :: "string \<Rightarrow> string" where
  "rx_active_path c = path ''user-plane-configuration'' @ CHR ''/'' # list_entry ''rx-array-carriers'' ''name'' c @ ''/active''"

lemma rx_active_path_parts:
  assumes "CHR '']'' \<notin> set c" "length c < 2 ^ 63"
  shows "listIndex (rx_active_path c) = (True, ''rx-array-carriers'', ''name'', c)" "leafName (rx_active_path c) = ''active''"
proof -
  show "listIndex (rx_active_path c) = (True, ''rx-array-carriers'', ''name'', c)"
    unfolding rx_active_path_def by (rule listIndex_entry [OF _ _ _ assms]) (simp_all add: path_def plain_def)
  show "leafName (rx_active_path c) = ''active''"
    using leafName_path [of "''active''" "path ''user-plane-configuration'' @ CHR ''/'' # list_entry ''rx-array-carriers'' ''name'' c"]
    by (simp add: rx_active_path_def)
qed

lemma setVal_shape: "\<exists>p. setVal env v s = (None, s\<lparr>mPersist := p\<rparr>)"
  by (simp add: setVal_def Let_def) blast

lemma changeComplete_shape: "\<exists>f. changeComplete env s = (None, s\<lparr>mSaveFile := f\<rparr>)"
proof (cases "persist_write (mPersist s)")
  case None
  then show ?thesis
    by (intro exI [of _ "mSaveFile s"]) (simp add: changeComplete_def)
next
  case (Some t)
  then show ?thesis
    by (intro exI [of _ "if e_save_opens env then Some t else mSaveFile s"]) (simp add: changeComplete_def)
qed

lemma change_carrier_calls:
  assumes "call = (\<lambda>b. Carrier_state_change d name
      (paramValUInt64 (getArrayCarrier env (txrx d) name) ''channel-bandwidth'')
      (paramValUInt64 (getArrayCarrier env (txrx d) name) ''center-of-channel-bandwidth'')
      (paramValDecimal64 (getArrayCarrier env (txrx d) name) gain_leaf) v b)"
    and "\<And>x. e_loaded env (hal_symbol x)"
  shows "change_carrier env d gain_leaf name v phase s =
    (if hr_status (e_module env (hal_calls s) (call (phase = VALUE_APPLY))) \<noteq> 0 then SR_ERR_INVAL_ARG else SR_ERR_OK,
     snd (hal env (call (phase = VALUE_APPLY)) s))"
  by (simp add: change_carrier_def Let_def hal_def assms)

text \<open>The change event of the leaf asks the handler of the activation, and nothing else.\<close>

lemma active_param:
  "setSysrepo \<lparr>v_xpath = rx_active_path c, v_data = SR_ENUM ''ACTIVE''\<rparr> = \<lparr>y_name = rx_active_path c, y_val = YString ''ACTIVE''\<rparr>"
  "toString (e_double env) (YString ''ACTIVE'') = ''ACTIVE''"
  by (simp_all add: setSysrepo_def toString_def)

lemma change_active:
  assumes "CHR '']'' \<notin> set c" "length c < 2 ^ 63" "mReadOnlyPaths s = {}"
    and "changes = [\<lparr>c_oper = SR_OP_MODIFIED, c_old = Some old,
      c_new = Some \<lparr>v_xpath = rx_active_path c, v_data = SR_ENUM ''ACTIVE''\<rparr>\<rparr>]"
  shows "uplane_change env SR_EV_CHANGE changes s = handleActivate env (rx_active_path c) ''active'' ''ACTIVE'' VALUE_VALIDATE s"
proof -
  note parts = rx_active_path_parts [OF assms(1,2)]
  let ?p = "\<lparr>y_name = rx_active_path c, y_val = YString ''ACTIVE''\<rparr>"
  have collect: "collect_params (e_double env) changes None ([], []) = ([?p], [])"
    by (simp add: assms(4) change_param_def active_param)
  obtain rc s' where act: "handleActivate env (rx_active_path c) ''active'' ''ACTIVE'' VALUE_VALIDATE s = (rc, s')"
    by fastforce
  have "validate env [?p] [] s = apfst Inr (handleActivate env (rx_active_path c) ''active'' ''ACTIVE'' VALUE_VALIDATE s)"
    by (simp add: validate_def activates_def parts active_param validateValue_def act)
  then show ?thesis
    by (simp add: uplane_change_def module_change_def handleChangeEvent_def collect uplane_hooks_def
        checkPseudoReadOnly_def assms(3) Let_def act)
qed

text \<open>
  C15: activating a receive carrier takes two steps with the same parameters, read from the
  data store: the validation asks the hardware abstraction without applying and refuses the
  change when it is refused, and the change itself then applies it.
\<close>

theorem activation_asks_then_applies:
  assumes "CHR '']'' \<notin> set c" "length c < 2 ^ 63" "mReadOnlyPaths s = {}" "\<And>x. e_loaded env (hal_symbol x)"
    and "changes = [\<lparr>c_oper = SR_OP_MODIFIED, c_old = Some old,
      c_new = Some \<lparr>v_xpath = rx_active_path c, v_data = SR_ENUM ''ACTIVE''\<rparr>\<rparr>]"
    and "call = (\<lambda>do_apply. Carrier_state_change Rx c
      (paramValUInt64 (getArrayCarrier env ''rx'' c) ''channel-bandwidth'')
      (paramValUInt64 (getArrayCarrier env ''rx'' c) ''center-of-channel-bandwidth'')
      (paramValDecimal64 (getArrayCarrier env ''rx'' c) ''gain-correction'') ''ACTIVE'' do_apply)"
  shows "fst (uplane_change env SR_EV_CHANGE changes s) =
      (if hr_status (e_module env (hal_calls s) (call False)) = 0 then SR_ERR_OK else SR_ERR_INVAL_ARG) \<and>
    hal_calls (snd (uplane_change env SR_EV_CHANGE changes s)) = hal_calls s @ [call False] \<and>
    hal_calls (snd (uplane_change env SR_EV_DONE changes s)) = hal_calls s @ [call True]"
proof -
  note parts = rx_active_path_parts [OF assms(1,2)]
  let ?p = "\<lparr>y_name = rx_active_path c, y_val = YString ''ACTIVE''\<rparr>"
  note p = active_param(1) [of c] and str = active_param(2) [of env]
  have act: "handleActivate env (rx_active_path c) ''active'' ''ACTIVE'' phase s =
      (if hr_status (e_module env (hal_calls s) (call (phase = VALUE_APPLY))) \<noteq> 0 then SR_ERR_INVAL_ARG else SR_ERR_OK,
       snd (hal env (call (phase = VALUE_APPLY)) s))" for phase
    using change_carrier_calls [where d = Rx and name = c and env = env and gain_leaf = "''gain-correction''" and v = "''ACTIVE''"
        and call = call and phase = phase and s = s] assms(4,6)
    by (simp add: handleActivate_def parts txrx_def)
  note change = change_active [OF assms(1,2,3,5), of env]
  have process: "processValue env (rx_active_path c) ''active'' ''ACTIVE'' x s =
      apfst Inr (handleActivate env (rx_active_path c) ''active'' ''ACTIVE'' VALUE_APPLY s)" for x
    by (simp add: processValue_def parts rx_carrier_value_def)
  obtain q where q: "setVal env \<lparr>v_xpath = rx_active_path c, v_data = SR_ENUM ''ACTIVE''\<rparr> (snd (hal env (call True) s)) =
      (None, snd (hal env (call True) s)\<lparr>mPersist := q\<rparr>)"
    using setVal_shape by blast
  obtain f where f: "changeComplete env (snd (hal env (call True) s)\<lparr>mPersist := q\<rparr>) =
      (None, snd (hal env (call True) s)\<lparr>mPersist := q, mSaveFile := f\<rparr>)"
    using changeComplete_shape [of env "snd (hal env (call True) s)\<lparr>mPersist := q\<rparr>"] by auto
  have "hal_calls (snd (uplane_change env SR_EV_DONE changes s)) = hal_calls (snd (hal env (call True) s))"
    using act [of VALUE_APPLY]
    by (simp add: uplane_change_def module_change_def handleDoneEvent_def assms(5) done_steps_def uplane_hooks_def p
        valueChange_def parts str process q f)
  then show ?thesis
    using act [of VALUE_VALIDATE] by (simp add: change hal_calls_hal assms(4))
qed

theorem activation_asks_then_applies_witness:
  "hal_calls (snd (uplane_change demo_env SR_EV_DONE
      [\<lparr>c_oper = SR_OP_MODIFIED, c_old = Some \<lparr>v_xpath = rx_active_path ''c'', v_data = SR_ENUM ''INACTIVE''\<rparr>,
        c_new = Some \<lparr>v_xpath = rx_active_path ''c'', v_data = SR_ENUM ''ACTIVE''\<rparr>\<rparr>] fresh_state)) =
    [Carrier_state_change Rx ''c'' 0 0 0 ''ACTIVE'' True]"
proof -
  have "e_loaded demo_env (hal_symbol x)" for x
    by (simp add: demo_env_def)
  from activation_asks_then_applies [OF _ _ _ this refl refl, of "''c''" fresh_state]
  show ?thesis
    by (simp add: fresh_state_def getArrayCarrier_def demo_env_def getParams_def paramValUInt64_def paramValDecimal64_def)
qed

section \<open>Read-only values\<close>

text \<open>The path of a change whose values are there.\<close>

definition complete_change :: "change \<Rightarrow> bool" where
  "complete_change c \<longleftrightarrow>
     (case c_oper c of
        SR_OP_CREATED \<Rightarrow> c_new c \<noteq> None
      | SR_OP_DELETED \<Rightarrow> c_old c \<noteq> None
      | SR_OP_MODIFIED \<Rightarrow> c_old c \<noteq> None \<and> c_new c \<noteq> None
      | SR_OP_MOVED \<Rightarrow> c_new c \<noteq> None)"

definition change_xpath :: "change \<Rightarrow> string" where
  "change_xpath c = (case c_old c of Some old \<Rightarrow> if c_oper c = SR_OP_CREATED then v_xpath (the (c_new c)) else v_xpath old
     | None \<Rightarrow> v_xpath (the (c_new c)))"

lemma value_path_complete: "complete_change c \<Longrightarrow> value_path c vp = change_xpath c"
  by (auto simp: complete_change_def value_path_def change_xpath_def split: sr_oper.splits option.splits)

lemma check_changes_complete:
  assumes "list_all complete_change cs"
  shows "check_changes ro vp cs =
    (if \<exists>c \<in> set cs. change_xpath c \<noteq> [] \<and> (\<exists>p \<in> ro. prefix p (change_xpath c)) then SR_ERR_VALIDATION_FAILED else SR_ERR_OK)"
  using assms
  by (induction cs arbitrary: vp) (auto simp: value_path_complete startsWith_prefix Let_def)

text \<open>
  C16: a change set is refused, with nothing changed, if and only if one of its changes lies
  below a path that was made read-only; any other set goes to the validation of the handler.
\<close>

theorem read_only_refused:
  assumes "list_all complete_change changes"
  shows "uplane_change env SR_EV_CHANGE changes s =
    (if \<exists>c \<in> set changes. change_xpath c \<noteq> [] \<and> (\<exists>p \<in> mReadOnlyPaths s. prefix p (change_xpath c))
     then (SR_ERR_VALIDATION_FAILED, s)
     else handleChangeEvent (e_double env) (uplane_hooks env) changes s)"
  using check_changes_complete [OF assms, of "mReadOnlyPaths s"]
  by (auto simp: uplane_change_def module_change_def checkPseudoReadOnly_def uplane_hooks_def Let_def)

theorem read_only_refused_witness:
  "uplane_change demo_env SR_EV_CHANGE
     [\<lparr>c_oper = SR_OP_CREATED, c_old = None, c_new = Some \<lparr>v_xpath = ''/m:a/b'', v_data = SR_BOOL True\<rparr>\<rparr>]
     (makeReadOnly {''/m:a''} fresh_state) = (SR_ERR_VALIDATION_FAILED, makeReadOnly {''/m:a''} fresh_state)"
  by (subst read_only_refused)
    (simp_all add: complete_change_def change_xpath_def makeReadOnly_def fresh_state_def)

end
