(* ===== verification/Datastore.thy ===== *)
theory Datastore
  imports YangParam SysrepoError
begin

text \<open>
  \<open>RadioDatastore.cpp\<close> and \<open>RadioDatastoreSysrepo.cpp\<close>: the state machine of the data store, its
  sessions, and the operations that pass values on to \<open>sysrepo\<close>. What \<open>sysrepo\<close> does with a
  call is a parameter: it may throw, and it returns the values. A call that is made is kept in
  a list, together with whether it threw.
\<close>

section \<open>State\<close>

datatype ds_state = UNINITIALISED | INITIALISED | CONFIGURING | ACTIVE | SETUP_FAILURE

datatype sr_ds = SR_DS_RUNNING | SR_DS_OPERATIONAL

datatype sr_call =
    Connect
  | Start_session sr_ds
  | Get_item sr_ds string
  | Get_items sr_ds string
  | Set_item sr_ds string
  | Set_item_str sr_ds string string
  | Set_item_val sr_ds string yang_val
  | Delete_item sr_ds string
  | Apply_changes sr_ds
  | Send_notif sr_ds string "yang_param list"
  | Subscribe_items sr_ds string string
  | Subscribe_changes sr_ds string "string option"
  | Subscribe_rpc sr_ds string
  | Install_module string "string option"
  | Remove_module string
  | Install_data string "string option" "string option"
  | Enable_feature string string
  | Disable_feature string string

text \<open>An exception, or the use of a null pointer.\<close>

datatype ds_exn = Invalid_state_change | Sysrepo_exception sr_error | Null_pointer

record datastore =
  mState :: ds_state
  mModsInstalled :: "string list"
  mSrConnection :: bool
  mSrSessions :: "sr_ds list"
  mSubscriptions :: nat
  mEvents :: "string list"
  sr_calls :: "(sr_call \<times> sr_error option) list"

text \<open>
  \<open>sysrepo\<close>: the exception of a call, the values of a path and whether the context of the connection has a
  module, after the calls so far.
\<close>

record sysrepo =
  sr_throws :: "(sr_call \<times> sr_error option) list \<Rightarrow> sr_call \<Rightarrow> sr_error option"
  sr_value_of :: "(sr_call \<times> sr_error option) list \<Rightarrow> sr_ds \<Rightarrow> string \<Rightarrow> sr_value option"
  sr_values_of :: "(sr_call \<times> sr_error option) list \<Rightarrow> sr_ds \<Rightarrow> string \<Rightarrow> sr_value list option"
  sr_has_module :: "(sr_call \<times> sr_error option) list \<Rightarrow> string \<Rightarrow> bool"

definition new_datastore :: datastore where
  "new_datastore = \<lparr>mState = UNINITIALISED, mModsInstalled = [], mSrConnection = False, mSrSessions = [],
     mSubscriptions = 0, mEvents = [], sr_calls = []\<rparr>"

section \<open>The base class\<close>

definition isState :: "ds_state \<Rightarrow> datastore \<Rightarrow> bool" where
  "isState st s = (mState s = st)"

text \<open>\<open>setState\<close>: an invalid change throws.\<close>

definition validStateChange :: "ds_state \<Rightarrow> ds_state \<Rightarrow> bool" where
  "validStateChange old new =
     (if new \<noteq> old then
        (case old of
           UNINITIALISED \<Rightarrow> new = INITIALISED
         | INITIALISED \<Rightarrow> new = CONFIGURING
         | CONFIGURING \<Rightarrow> new = ACTIVE
         | ACTIVE \<Rightarrow> True
         | SETUP_FAILURE \<Rightarrow> True)
      else True)"

definition setState :: "ds_state \<Rightarrow> datastore \<Rightarrow> ds_exn option \<times> datastore" where
  "setState st s = (if validStateChange (mState s) st then (None, s\<lparr>mState := st\<rparr>) else (Some Invalid_state_change, s))"

text \<open>The class of the server asks the library for the module, not its own list.\<close>

definition isModuleInstalled :: "sysrepo \<Rightarrow> string \<Rightarrow> datastore \<Rightarrow> bool" where
  "isModuleInstalled sr name s = sr_has_module sr (sr_calls s) name"

definition addInstalledModule :: "sysrepo \<Rightarrow> string \<Rightarrow> datastore \<Rightarrow> datastore" where
  "addInstalledModule sr name s =
     (if \<not> isModuleInstalled sr name s then s\<lparr>mModsInstalled := mModsInstalled s @ [name]\<rparr> else s)"

text \<open>The queue of events.\<close>

definition evt_add :: "string \<Rightarrow> datastore \<Rightarrow> datastore" where
  "evt_add event s = s\<lparr>mEvents := mEvents s @ [event]\<rparr>"

definition getNextEvent :: "datastore \<Rightarrow> string option \<times> datastore" where
  "getNextEvent s = (case mEvents s of [] \<Rightarrow> (None, s) | e # es \<Rightarrow> (Some e, s\<lparr>mEvents := es\<rparr>))"

section \<open>Calls\<close>

definition sr_call :: "sysrepo \<Rightarrow> sr_call \<Rightarrow> datastore \<Rightarrow> sr_error option \<times> datastore" where
  "sr_call sr c s =
     (let r = sr_throws sr (sr_calls s) c in (r, s\<lparr>sr_calls := sr_calls s @ [(c, r)]\<rparr>))"

text \<open>The statements of a \<open>try\<close> block: the first exception ends it.\<close>

fun sr_try :: "sysrepo \<Rightarrow> sr_call list \<Rightarrow> datastore \<Rightarrow> sr_error option \<times> datastore" where
  "sr_try sr [] s = (None, s)"
| "sr_try sr (c # cs) s = (case sr_call sr c s of (None, s) \<Rightarrow> sr_try sr cs s | (Some e, s) \<Rightarrow> (Some e, s))"

text \<open>\<open>exceptionHandler\<close>: with \<open>halt\<close> the exception is thrown again.\<close>

definition exceptionHandler :: "sr_error \<Rightarrow> bool \<Rightarrow> ds_exn + yang_result" where
  "exceptionHandler errType halt =
     (if errType = SR_ERR_EXISTS then Inr YANG_EXISTS
      else if errType \<noteq> SR_ERR_OK then
        (if halt then Inl (Sysrepo_exception errType) else Inr YANG_FAIL)
      else Inr YANG_OK)"

text \<open>The test at the start of the operations, and the block that most of them consist of.\<close>

definition session :: "nat \<Rightarrow> datastore \<Rightarrow> sr_ds option" where
  "session datastoreId s =
     (if \<not> isState ACTIVE s then None
      else if datastoreId \<ge> length (mSrSessions s) then None
      else Some (mSrSessions s ! datastoreId))"

definition guarded ::
    "sysrepo \<Rightarrow> bool \<Rightarrow> (sr_ds \<Rightarrow> sr_call list) \<Rightarrow> nat \<Rightarrow> datastore \<Rightarrow> (ds_exn + yang_result) \<times> datastore" where
  "guarded sr halt calls datastoreId s =
     (case session datastoreId s of None \<Rightarrow> (Inr YANG_FAIL, s)
      | Some ds \<Rightarrow>
          (case sr_try sr (calls ds) s of
             (None, s) \<Rightarrow> (Inr YANG_OK, s)
           | (Some e, s) \<Rightarrow> (exceptionHandler e halt, s)))"

section \<open>Connection and sessions\<close>

text \<open>\<open>resetConnection\<close>: the old connection is dropped before the new one is made.\<close>

definition resetConnection :: "sysrepo \<Rightarrow> datastore \<Rightarrow> yang_result \<times> datastore" where
  "resetConnection sr s =
     (if \<not> isState CONFIGURING s then (YANG_FAIL, s)
      else if \<not> mSrConnection s then (YANG_FAIL, s)
      else case sr_call sr Connect (s\<lparr>mSrConnection := False\<rparr>) of
        (None, s) \<Rightarrow> (YANG_OK, s\<lparr>mSrConnection := True\<rparr>)
      | (Some e, s) \<Rightarrow>
          (if e = SR_ERR_EXISTS then YANG_EXISTS else if e \<noteq> SR_ERR_OK then YANG_FAIL else YANG_OK, s))"

definition fail_state :: "yang_result \<Rightarrow> datastore \<Rightarrow> (ds_exn + yang_result) \<times> datastore" where
  "fail_state result s =
     (case setState SETUP_FAILURE s of (Some e, s) \<Rightarrow> (Inl e, s) | (None, s) \<Rightarrow> (Inr result, s))"

definition ds_initialise :: "sysrepo \<Rightarrow> datastore \<Rightarrow> (ds_exn + yang_result) \<times> datastore" where
  "ds_initialise sr s =
     (case sr_call sr Connect s of
        (None, s) \<Rightarrow>
          (case setState INITIALISED (s\<lparr>mSrConnection := True\<rparr>) of
             (Some e, s) \<Rightarrow> (Inl e, s)
           | (None, s) \<Rightarrow> (Inr YANG_OK, s))
      | (Some e, s) \<Rightarrow>
          (case exceptionHandler e False of
             Inl x \<Rightarrow> (Inl x, s)
           | Inr result \<Rightarrow> if result \<noteq> YANG_OK then fail_state result s else (Inr result, s)))"

text \<open>The sessions are kept as they are made, also when a later one throws.\<close>

fun start_sessions :: "sysrepo \<Rightarrow> sr_ds list \<Rightarrow> datastore \<Rightarrow> sr_error option \<times> datastore" where
  "start_sessions sr [] s = (None, s)"
| "start_sessions sr (d # ds) s =
     (case sr_call sr (Start_session d) s of
        (Some e, s) \<Rightarrow> (Some e, s)
      | (None, s) \<Rightarrow> start_sessions sr ds (s\<lparr>mSrSessions := mSrSessions s @ [d]\<rparr>))"

text \<open>\<open>activate\<close>, up to the test of the result.\<close>

definition ds_activate_body :: "sysrepo \<Rightarrow> datastore \<Rightarrow> (ds_exn + yang_result) \<times> datastore" where
  "ds_activate_body sr s =
     (if \<not> mSrConnection s then (exceptionHandler SR_ERR_INTERNAL False, s)
      else
        let (_, s) = resetConnection sr s in
        if mSrConnection s then
          (case start_sessions sr [SR_DS_RUNNING, SR_DS_OPERATIONAL] s of
             (Some e, s) \<Rightarrow> (exceptionHandler e True, s)
           | (None, s) \<Rightarrow>
               (case setState ACTIVE s of (Some e, s) \<Rightarrow> (Inl e, s) | (None, s) \<Rightarrow> (Inr YANG_OK, s)))
        else (exceptionHandler SR_ERR_INTERNAL False, s))"

definition ds_activate :: "sysrepo \<Rightarrow> datastore \<Rightarrow> (ds_exn + yang_result) \<times> datastore" where
  "ds_activate sr s =
     (case ds_activate_body sr s of
        (Inr YANG_FAIL, s) \<Rightarrow> fail_state YANG_FAIL s
      | r \<Rightarrow> r)"

section \<open>Reading\<close>

definition no_leaf :: "sr_data \<Rightarrow> bool" where
  "no_leaf d \<longleftrightarrow> d \<in> {SR_UNKNOWN, SR_CONTAINER, SR_CONTAINER_PRESENCE, SR_LIST, SR_LEAF_EMPTY}"

definition getItem :: "sysrepo \<Rightarrow> string \<Rightarrow> nat \<Rightarrow> datastore \<Rightarrow> (ds_exn + yang_result) \<times> yang_param option \<times> datastore" where
  "getItem sr xpath datastoreId s =
     (case session datastoreId s of None \<Rightarrow> (Inr YANG_FAIL, None, s)
      | Some ds \<Rightarrow>
          let val = sr_value_of sr (sr_calls s) ds xpath in
          case sr_call sr (Get_item ds xpath) s of
            (Some e, s) \<Rightarrow> (exceptionHandler e False, None, s)
          | (None, s) \<Rightarrow>
              (case val of
                 None \<Rightarrow> (Inr YANG_NOT_FOUND, None, s)
               | Some v \<Rightarrow>
                   if no_leaf (v_data v) then (Inr YANG_INVALID_TYPE, None, s) else (Inr YANG_OK, Some (setSysrepo v), s)))"

text \<open>No value at all leaves the parameters null although the result is OK.\<close>

definition getItems ::
    "sysrepo \<Rightarrow> string \<Rightarrow> nat \<Rightarrow> datastore \<Rightarrow> (ds_exn + yang_result) \<times> yang_param list option \<times> datastore" where
  "getItems sr xpath datastoreId s =
     (case session datastoreId s of None \<Rightarrow> (Inr YANG_FAIL, None, s)
      | Some ds \<Rightarrow>
          let vals = sr_values_of sr (sr_calls s) ds xpath in
          case sr_call sr (Get_items ds xpath) s of
            (Some e, s) \<Rightarrow> (exceptionHandler e False, None, s)
          | (None, s) \<Rightarrow>
              (case vals of
                 None \<Rightarrow> (Inr YANG_NOT_FOUND, None, s)
               | Some [] \<Rightarrow> (Inr YANG_OK, None, s)
               | Some vs \<Rightarrow> (Inr YANG_OK, Some (map setSysrepo (filter (\<lambda>v. \<not> no_leaf (v_data v)) vs)), s)))"

text \<open>
  The loop over the path of a list instance: the text between \<open>[\<close> and the next \<open>]\<close>, then on from
  that \<open>]\<close>; the position is an \<open>unsigned int\<close>.
\<close>

partial_function (option) key_values :: "string \<Rightarrow> nat \<Rightarrow> string list \<Rightarrow> string list option" where
  "key_values p pos keyValues =
     (if \<not> pos \<le> length p then Some keyValues
      else case find_first_of (CHR ''['') p pos of None \<Rightarrow> Some keyValues
        | Some keyStartPos \<Rightarrow>
            (case find_first_of (CHR '']'') p keyStartPos of None \<Rightarrow> Some keyValues
             | Some keyEndPos \<Rightarrow>
                 key_values p (wrap32 keyEndPos)
                   (keyValues @ [substr p (keyStartPos + 1) (keyEndPos - keyStartPos - 1)])))"

fun list_keys :: "sr_value list \<Rightarrow> string list \<Rightarrow> string list option" where
  "list_keys [] keyValues = Some keyValues"
| "list_keys (v # vs) keyValues =
     (if v_data v = SR_LIST then
        (case key_values (v_xpath v) 0 keyValues of None \<Rightarrow> None | Some keyValues \<Rightarrow> list_keys vs keyValues)
      else list_keys vs keyValues)"

text \<open>\<open>None\<close>: the loop does not end.\<close>

definition getListItems ::
    "sysrepo \<Rightarrow> string \<Rightarrow> string list \<Rightarrow> nat \<Rightarrow> datastore \<Rightarrow> ((ds_exn + yang_result) \<times> string list) option \<times> datastore" where
  "getListItems sr listXpath keyValues datastoreId s =
     (case session datastoreId s of None \<Rightarrow> (Some (Inr YANG_FAIL, keyValues), s)
      | Some ds \<Rightarrow>
          let vals = sr_values_of sr (sr_calls s) ds listXpath in
          case sr_call sr (Get_items ds listXpath) s of
            (Some e, s) \<Rightarrow> (Some (exceptionHandler e False, keyValues), s)
          | (None, s) \<Rightarrow>
              (case vals of
                 None \<Rightarrow> (Some (Inr YANG_NOT_FOUND, keyValues), s)
               | Some vs \<Rightarrow>
                   (case list_keys vs keyValues of None \<Rightarrow> (None, s) | Some keys \<Rightarrow> (Some (Inr YANG_OK, keys), s))))"

section \<open>The keys of a list instance\<close>

function keys_in :: "string \<Rightarrow> string list" where
  "keys_in [] = []"
| "keys_in (c # s) =
     (if c = CHR ''['' \<and> CHR '']'' \<in> set s
      then takeWhile (\<lambda>c. c \<noteq> CHR '']'') s # keys_in (dropWhile (\<lambda>c. c \<noteq> CHR '']'') s)
      else keys_in s)"
  by pat_completeness auto

termination
  by (relation "measure length") (auto simp: less_Suc_eq_le length_dropWhile_le)

lemma keys_in_skip: "CHR ''['' \<notin> set a \<Longrightarrow> keys_in (a @ s) = keys_in s"
  by (induction a) auto

lemma keys_in_open: "CHR '']'' \<notin> set s \<Longrightarrow> keys_in s = []"
  by (induction s) auto

lemma keys_in_key: "CHR '']'' \<notin> set k \<Longrightarrow> keys_in (CHR ''['' # k @ CHR '']'' # s) = k # keys_in (CHR '']'' # s)"
  by (simp add: takeWhile_append dropWhile_append)

lemma find_char_split: "find_char c s = Some i \<Longrightarrow> s = take i s @ c # drop (Suc i) s \<and> c \<notin> set (take i s) \<and> i < length s"
  by (induction c s arbitrary: i rule: find_char.induct) (auto split: if_splits)

lemma key_values_ends:
  assumes "length p < 2 ^ 32"
  shows "key_values p pos acc = Some (acc @ keys_in (drop pos p))"
proof (induction "length p - pos" arbitrary: pos acc rule: less_induct)
  case less
  let ?s = "drop pos p"
  show ?case
  proof (cases "find_char (CHR ''['') ?s")
    case None
    then have "CHR ''['' \<notin> set ?s"
      by (simp add: find_char_None)
    then show ?thesis
      using None keys_in_skip [of ?s "[]"] by (subst key_values.simps) (simp add: find_first_of_def)
  next
    case (Some i)
    note i = find_char_split [OF Some]
    let ?t = "drop (pos + i) p"
    have t: "?t = CHR ''['' # drop (Suc (pos + i)) p"
      using i Cons_nth_drop_Suc [of "pos + i" p] by (metis add_Suc_right drop_drop add.commute append_eq_conv_conj length_take min.absorb4)
    have keys: "keys_in ?s = keys_in ?t"
      using i keys_in_skip [of "take i ?s" ?t] t by (simp add: add.commute)
    show ?thesis
    proof (cases "find_char (CHR '']'') ?t")
      case None
      then have "keys_in ?t = []"
        by (simp add: find_char_None keys_in_open)
      then show ?thesis
        using Some None keys by (subst key_values.simps) (simp add: find_first_of_def)
    next
      case (Some j)
      note j = find_char_split [OF Some]
      let ?k = "take (j - 1) (drop (Suc (pos + i)) p)"
      obtain j' where j': "j = Suc j'"
        using Some t by (cases j) (auto split: if_splits)
      have k: "?t = CHR ''['' # ?k @ CHR '']'' # drop (Suc (pos + i + j)) p" "CHR '']'' \<notin> set ?k"
        using j t j' by (auto simp: ac_simps)
      have rest: "CHR '']'' # drop (Suc (pos + i + j)) p = drop (pos + i + j) p"
        using j by (metis add.commute add_Suc_right append_eq_conv_conj drop_drop length_take min.absorb4)
      have "keys_in ?t = ?k # keys_in (drop (pos + i + j) p)"
        using keys_in_key [OF k(2), of "drop (Suc (pos + i + j)) p"] k(1) rest by metis
      moreover have "pos + i + j < length p" "0 < j"
        using j j' by auto
      moreover have "key_values p (pos + i + j) (acc @ [?k]) = Some ((acc @ [?k]) @ keys_in (drop (pos + i + j) p))"
        using less [of "pos + i + j"] calculation(2,3) by auto
      ultimately show ?thesis
        using assms Some \<open>find_char (CHR ''['') ?s = Some i\<close> keys i
        by (subst key_values.simps) (simp add: find_first_of_def substr_def)
    qed
  qed
qed

text \<open>
  C32: the search for the keys of a list instance ends for every path of less than four
  gigabytes, and finds the text of every pair of brackets, in order.
\<close>

theorem key_values_terminates:
  assumes "length p < 2 ^ 32"
  shows "key_values p 0 keyValues = Some (keyValues @ keys_in p)"
  using key_values_ends [OF assms, of 0] by simp

theorem key_values_terminates_witness:
  "key_values ''/a:b[k=1]/c[l=2][m=3]'' 0 [] = Some [''k=1'', ''l=2'', ''m=3'']"
  using key_values_terminates [of "''/a:b[k=1]/c[l=2][m=3]''" "[]"] by simp

end
