(* ===== verification/DatastoreOps.thy ===== *)
theory DatastoreOps
  imports Datastore
begin

text \<open>
  The operations of \<open>RadioDatastoreSysrepo.cpp\<close> that change values, subscribe and install, and
  what they guarantee: nothing is written before the data store is active, and a list entry
  is written in the order of its leaves.
\<close>

section \<open>Writing\<close>

text \<open>\<open>setItem\<close>: a parameter without a type has no value, and its text is asked for.\<close>

definition setItem :: "sysrepo \<Rightarrow> string \<Rightarrow> yang_param \<Rightarrow> nat \<Rightarrow> datastore \<Rightarrow> (ds_exn + yang_result) \<times> datastore" where
  "setItem sr xpath param datastoreId s =
     (case session datastoreId s of None \<Rightarrow> (Inr YANG_FAIL, s)
      | Some ds \<Rightarrow>
          if y_val param = YUnknown then (Inl Null_pointer, s)
          else guarded sr False (\<lambda>ds. [Set_item_val ds xpath (y_val param), Apply_changes ds]) datastoreId s)"

definition setItemStr :: "sysrepo \<Rightarrow> string \<Rightarrow> string \<Rightarrow> nat \<Rightarrow> datastore \<Rightarrow> (ds_exn + yang_result) \<times> datastore" where
  "setItemStr sr xpath v =
     guarded sr False (\<lambda>ds. [Set_item_str ds xpath v, Apply_changes ds])"

text \<open>The loop of \<open>setItems\<close>: every parameter is set at the same path.\<close>

fun set_item_values :: "sysrepo \<Rightarrow> sr_ds \<Rightarrow> string \<Rightarrow> yang_param list \<Rightarrow> datastore \<Rightarrow> ds_exn option \<times> datastore" where
  "set_item_values sr ds xpath [] s = (None, s)"
| "set_item_values sr ds xpath (p # ps) s =
     (if y_val p = YUnknown then (Some Null_pointer, s)
      else case sr_call sr (Set_item_val ds xpath (y_val p)) s of
        (Some e, s) \<Rightarrow> (Some (Sysrepo_exception e), s)
      | (None, s) \<Rightarrow> set_item_values sr ds xpath ps s)"

definition setItems :: "sysrepo \<Rightarrow> string \<Rightarrow> yang_param list \<Rightarrow> nat \<Rightarrow> datastore \<Rightarrow> (ds_exn + yang_result) \<times> datastore" where
  "setItems sr xpath params datastoreId s =
     (case session datastoreId s of None \<Rightarrow> (Inr YANG_FAIL, s)
      | Some ds \<Rightarrow>
          (case set_item_values sr ds xpath params s of
             (Some (Sysrepo_exception e), s) \<Rightarrow> (exceptionHandler e False, s)
           | (Some x, s) \<Rightarrow> (Inl x, s)
           | (None, s) \<Rightarrow>
               (case sr_call sr (Apply_changes ds) s of
                  (Some e, s) \<Rightarrow> (exceptionHandler e False, s)
                | (None, s) \<Rightarrow> (Inr YANG_OK, s))))"

definition deleteItem :: "sysrepo \<Rightarrow> string \<Rightarrow> nat \<Rightarrow> datastore \<Rightarrow> (ds_exn + yang_result) \<times> datastore" where
  "deleteItem sr xpath = guarded sr False (\<lambda>ds. [Delete_item ds xpath, Apply_changes ds])"

definition sendNotification :: "sysrepo \<Rightarrow> string \<Rightarrow> yang_param list \<Rightarrow> nat \<Rightarrow> datastore \<Rightarrow> (ds_exn + yang_result) \<times> datastore" where
  "sendNotification sr xpath params = guarded sr False (\<lambda>ds. [Send_notif ds xpath params])"

text \<open>\<open>createListEntry\<close>: the entry, its leaves in the order of the map, and the change.\<close>

definition createListEntry ::
    "sysrepo \<Rightarrow> string \<Rightarrow> (string \<times> string) list \<Rightarrow> nat \<Rightarrow> datastore \<Rightarrow> (ds_exn + yang_result) \<times> datastore" where
  "createListEntry sr xpath values =
     guarded sr True (\<lambda>ds. Set_item ds xpath #
       map (\<lambda>(k, v). Set_item_str ds (xpath @ ''/'' @ k) v) values @ [Apply_changes ds])"

definition entry_path :: "string \<Rightarrow> string \<Rightarrow> string \<Rightarrow> string" where
  "entry_path xpath key keyval = xpath @ ''['' @ key @ ''='' @ CHR 0x27 # keyval @ CHR 0x27 # '']''"

definition createListEntry_key ::
    "sysrepo \<Rightarrow> string \<Rightarrow> string \<Rightarrow> string \<Rightarrow> (string \<times> string) list \<Rightarrow> nat \<Rightarrow> datastore \<Rightarrow>
     (ds_exn + yang_result) \<times> datastore" where
  "createListEntry_key sr xpath key keyval values = createListEntry sr (entry_path xpath key keyval) values"

text \<open>The variant in which a leaf may have no value; its exceptions do not halt.\<close>

definition createListEntry_opt ::
    "sysrepo \<Rightarrow> string \<Rightarrow> (string \<times> string option) list \<Rightarrow> nat \<Rightarrow> datastore \<Rightarrow> (ds_exn + yang_result) \<times> datastore" where
  "createListEntry_opt sr xpath values =
     guarded sr False (\<lambda>ds. Set_item ds xpath #
       map (\<lambda>(k, v). case v of Some v \<Rightarrow> Set_item_str ds (xpath @ ''/'' @ k) v | None \<Rightarrow> Set_item ds (xpath @ ''/'' @ k))
         values @ [Apply_changes ds])"

definition createListEntry_opt_key ::
    "sysrepo \<Rightarrow> string \<Rightarrow> string \<Rightarrow> string \<Rightarrow> (string \<times> string option) list \<Rightarrow> nat \<Rightarrow> datastore \<Rightarrow>
     (ds_exn + yang_result) \<times> datastore" where
  "createListEntry_opt_key sr xpath key keyval values = createListEntry_opt sr (entry_path xpath key keyval) values"

section \<open>Subscriptions\<close>

definition subscribe :: "sysrepo \<Rightarrow> (sr_ds \<Rightarrow> sr_call) \<Rightarrow> nat \<Rightarrow> datastore \<Rightarrow> (ds_exn + yang_result) \<times> datastore" where
  "subscribe sr call datastoreId s =
     (case session datastoreId s of None \<Rightarrow> (Inr YANG_FAIL, s)
      | Some ds \<Rightarrow>
          (case sr_call sr (call ds) s of
             (Some e, s) \<Rightarrow> (exceptionHandler e False, s)
           | (None, s) \<Rightarrow> (Inr YANG_OK, s\<lparr>mSubscriptions := mSubscriptions s + 1\<rparr>)))"

definition getItemsSubscribe :: "sysrepo \<Rightarrow> string \<Rightarrow> string \<Rightarrow> nat \<Rightarrow> datastore \<Rightarrow> (ds_exn + yang_result) \<times> datastore" where
  "getItemsSubscribe sr moduleName p = subscribe sr (\<lambda>ds. Subscribe_items ds moduleName p)"

definition itemsChangeSubscribe :: "sysrepo \<Rightarrow> string \<Rightarrow> string \<Rightarrow> nat \<Rightarrow> datastore \<Rightarrow> (ds_exn + yang_result) \<times> datastore" where
  "itemsChangeSubscribe sr moduleName xpath =
     subscribe sr (\<lambda>ds. Subscribe_changes ds moduleName (if xpath \<noteq> [] then Some xpath else None))"

definition rpcSubscribe :: "sysrepo \<Rightarrow> string \<Rightarrow> nat \<Rightarrow> datastore \<Rightarrow> (ds_exn + yang_result) \<times> datastore" where
  "rpcSubscribe sr p = subscribe sr (\<lambda>ds. Subscribe_rpc ds p)"

section \<open>Modules\<close>

text \<open>The state changes to \<open>CONFIGURING\<close>, or the invalid change throws.\<close>

definition configuring ::
    "(datastore \<Rightarrow> (ds_exn + yang_result) \<times> datastore) \<Rightarrow> datastore \<Rightarrow> (ds_exn + yang_result) \<times> datastore" where
  "configuring body s =
     (case setState CONFIGURING s of
        (Some e, s) \<Rightarrow> (Inl e, s)
      | (None, s) \<Rightarrow>
          if \<not> isState CONFIGURING s then (Inr YANG_FAIL, s)
          else if \<not> mSrConnection s then (Inr YANG_FAIL, s)
          else body s)"

definition installModule :: "sysrepo \<Rightarrow> string \<Rightarrow> string \<Rightarrow> string \<Rightarrow> datastore \<Rightarrow> (ds_exn + yang_result) \<times> datastore" where
  "installModule sr name p filename =
     configuring (\<lambda>s.
       let modulePathName = p @ ''/'' @ filename;
           pathp = (if p \<noteq> [] \<and> p \<noteq> ''.'' then Some p else None) in
       case sr_call sr (Install_module modulePathName pathp) s of
         (None, s) \<Rightarrow>
           (case resetConnection sr (addInstalledModule sr name s) of (result, s) \<Rightarrow> (Inr result, s))
       | (Some e, s) \<Rightarrow>
           (case exceptionHandler e True of
              Inl x \<Rightarrow> (Inl x, s)
            | Inr result \<Rightarrow> (Inr (if result = YANG_EXISTS then YANG_OK else result), s)))"

definition uninstallModule :: "sysrepo \<Rightarrow> string \<Rightarrow> datastore \<Rightarrow> (ds_exn + yang_result) \<times> datastore" where
  "uninstallModule sr name =
     configuring (\<lambda>s. case sr_call sr (Remove_module name) s of
         (None, s) \<Rightarrow> (Inr YANG_OK, s) | (Some e, s) \<Rightarrow> (exceptionHandler e True, s))"

definition installModuleData :: "sysrepo \<Rightarrow> string \<Rightarrow> string \<Rightarrow> string \<Rightarrow> datastore \<Rightarrow> (ds_exn + yang_result) \<times> datastore" where
  "installModuleData sr name data data_path =
     configuring (\<lambda>s.
       case sr_call sr (if data = [] then Install_data name None (Some data_path) else Install_data name (Some data) None) s of
         (None, s) \<Rightarrow> (Inr YANG_OK, s) | (Some e, s) \<Rightarrow> (exceptionHandler e True, s))"

definition change_feature :: "sysrepo \<Rightarrow> sr_call \<Rightarrow> datastore \<Rightarrow> (ds_exn + yang_result) \<times> datastore" where
  "change_feature sr c s =
     (if \<not> isState CONFIGURING s then (Inr YANG_FAIL, s)
      else if \<not> mSrConnection s then (Inr YANG_FAIL, s)
      else case sr_call sr c s of
        (None, s) \<Rightarrow> (Inr YANG_OK, s) | (Some e, s) \<Rightarrow> (exceptionHandler e True, s))"

definition enableFeature :: "sysrepo \<Rightarrow> string \<Rightarrow> string \<Rightarrow> datastore \<Rightarrow> (ds_exn + yang_result) \<times> datastore" where
  "enableFeature sr name feature = change_feature sr (Enable_feature name feature)"

definition disableFeature :: "sysrepo \<Rightarrow> string \<Rightarrow> string \<Rightarrow> datastore \<Rightarrow> (ds_exn + yang_result) \<times> datastore" where
  "disableFeature sr name feature = change_feature sr (Disable_feature name feature)"

section \<open>A library that does not throw\<close>

text \<open>An active data store whose session of index 0 is the running one.\<close>

definition ready :: "datastore \<Rightarrow> bool" where
  "ready s \<longleftrightarrow> mState s = ACTIVE \<and> mSrSessions s = [SR_DS_RUNNING, SR_DS_OPERATIONAL]"

definition calls_made :: "sr_call list \<Rightarrow> datastore \<Rightarrow> datastore" where
  "calls_made cs s = s\<lparr>sr_calls := sr_calls s @ map (\<lambda>c. (c, None)) cs\<rparr>"

lemma calls_made_simps [simp]:
  "ready (calls_made cs s) = ready s" "calls_made ds (calls_made cs s) = calls_made (cs @ ds) s"
  "sr_calls (calls_made cs s) = sr_calls s @ map (\<lambda>c. (c, None)) cs" "calls_made [] s = s"
  by (simp_all add: ready_def calls_made_def)

lemma session_ready [simp]: "ready s \<Longrightarrow> session 0 s = Some SR_DS_RUNNING"
  by (simp add: ready_def session_def isState_def)

lemma sr_call_fine: "(\<And>cs c. sr_throws sr cs c = None) \<Longrightarrow> sr_call sr c s = (None, calls_made [c] s)"
  by (simp add: sr_call_def calls_made_def)

lemma sr_try_fine: "(\<And>cs c. sr_throws sr cs c = None) \<Longrightarrow> sr_try sr cs s = (None, calls_made cs s)"
  by (induction cs arbitrary: s) (simp_all add: sr_call_fine)

lemma createListEntry_fine:
  assumes "\<And>cs c. sr_throws sr cs c = None" "ready s"
  shows "createListEntry sr xpath values 0 s = (Inr YANG_OK,
    calls_made (Set_item SR_DS_RUNNING xpath #
      map (\<lambda>(k, v). Set_item_str SR_DS_RUNNING (xpath @ ''/'' @ k) v) values @ [Apply_changes SR_DS_RUNNING]) s)"
  using assms by (simp add: createListEntry_def guarded_def sr_try_fine del: sr_try.simps)

lemma subscribe_fine:
  assumes "\<And>cs c. sr_throws sr cs c = None" "ready s"
  shows "subscribe sr call 0 s =
    (Inr YANG_OK, (calls_made [call SR_DS_RUNNING] s)\<lparr>mSubscriptions := mSubscriptions s + 1\<rparr>)"
  using assms by (simp add: subscribe_def sr_call_fine calls_made_def)

end
