(* ===== verification/ModuleMgr.thy ===== *)
theory ModuleMgr
  imports YangConfig DatastoreOps Tokeniser
begin

text \<open>
  \<open>YangModuleMgr.cpp\<close>, \<open>YangMgrServer.cpp\<close> and the state of \<open>YangModule.cpp\<close>: the modules that the
  server knows, and its start. The modules are shared between the two maps of the manager, so the
  maps hold positions in a list. The messages are left out.
\<close>

unbundle bit_operations_syntax

section \<open>A module\<close>

record 'v yang_module =
  getName :: string
  getFilename :: string
  getId :: nat
  mActive :: bool
  mFeatures :: "(string \<times> bool) list"
  mCallbacks :: "(string \<times> (string \<Rightarrow> 'v \<Rightarrow> bool)) list"

definition new_module :: "string \<Rightarrow> string \<Rightarrow> nat \<Rightarrow> 'v yang_module" where
  "new_module name filename i =
     \<lparr>getName = name, getFilename = filename, getId = i, mActive = False, mFeatures = [], mCallbacks = []\<rparr>"

definition activate :: "'v yang_module \<Rightarrow> 'v yang_module" where
  "activate m = m\<lparr>mActive := True\<rparr>"

definition deactivate :: "'v yang_module \<Rightarrow> 'v yang_module" where
  "deactivate m = m\<lparr>mActive := False\<rparr>"

definition setFeature :: "string \<Rightarrow> bool \<Rightarrow> 'v yang_module \<Rightarrow> bool \<times> 'v yang_module" where
  "setFeature feature enabled m =
     (if \<not> mActive m then (False, m) else (True, m\<lparr>mFeatures := map_put feature enabled (mFeatures m)\<rparr>))"

text \<open>\<open>isFeatureEnabled\<close> adds the feature, disabled, when it is not there.\<close>

definition isFeatureEnabled :: "string \<Rightarrow> 'v yang_module \<Rightarrow> bool \<times> 'v yang_module" where
  "isFeatureEnabled feature m =
     (case map_of (mFeatures m) feature of
        Some b \<Rightarrow> (b, m)
      | None \<Rightarrow> (False, m\<lparr>mFeatures := map_put feature False (mFeatures m)\<rparr>))"

definition registerCallback :: "string \<Rightarrow> (string \<Rightarrow> 'v \<Rightarrow> bool) \<Rightarrow> 'v yang_module \<Rightarrow> bool \<times> 'v yang_module" where
  "registerCallback xpath callback m = (True, m\<lparr>mCallbacks := map_put xpath callback (mCallbacks m)\<rparr>)"

text \<open>The last path, in the order of the map, that the given one starts with.\<close>

definition testCallback :: "string \<Rightarrow> 'v \<Rightarrow> 'v yang_module \<Rightarrow> bool" where
  "testCallback xpath v m =
     (case List.find (\<lambda>(p, f). startsWith xpath p) (rev (mCallbacks m)) of
        Some (p, f) \<Rightarrow> f xpath v
      | None \<Rightarrow> False)"

section \<open>The manager\<close>

datatype mgr_status = MGR_UNINITIALISED | MGR_INITIALISED | MGR_FAILED

record 'v module_mgr =
  mRadioDs :: "datastore option"
  mSearchPath :: string
  mModules :: "'v yang_module list"
  mModMapName :: "(string \<times> nat) list"
  mModNames :: "string list"
  mModMapId :: "nat \<rightharpoonup> nat"
  mModIds :: "nat list"
  mStatus :: mgr_status

text \<open>
  What the manager asks outside: \<open>sysrepo\<close>, the mode of a file (\<open>None\<close> when \<open>stat\<close> fails), the
  configuration, and whether the server of the management protocol starts.
\<close>

record mgr_env =
  m_sysrepo :: sysrepo
  m_stat :: "string \<Rightarrow> u32 option"
  m_config :: "element option"
  m_netopeer :: bool

definition new_mgr :: "'v module_mgr" where
  "new_mgr = \<lparr>mRadioDs = None, mSearchPath = [], mModules = [], mModMapName = [], mModNames = [],
     mModMapId = Map.empty, mModIds = [], mStatus = MGR_UNINITIALISED\<rparr>"

definition setStatus :: "mgr_status \<Rightarrow> 'v module_mgr \<Rightarrow> 'v module_mgr" where
  "setStatus st m = m\<lparr>mStatus := st\<rparr>"

definition isInitialised :: "'v module_mgr \<Rightarrow> bool" where
  "isInitialised m = (mStatus m = MGR_INITIALISED)"

definition setSearchPath :: "string \<Rightarrow> 'v module_mgr \<Rightarrow> 'v module_mgr" where
  "setSearchPath p m = m\<lparr>mSearchPath := p\<rparr>"

definition addModule :: "'v yang_module \<Rightarrow> 'v module_mgr \<Rightarrow> 'v module_mgr" where
  "addModule module m =
     (let i = length (mModules m) in
      m\<lparr>mModules := mModules m @ [module],
        mModNames := mModNames m @ [getName module], mModMapName := map_put (getName module) i (mModMapName m),
        mModIds := mModIds m @ [getId module], mModMapId := (mModMapId m)(getId module \<mapsto> i)\<rparr>)"

definition getModule :: "string \<Rightarrow> 'v module_mgr \<Rightarrow> 'v yang_module option" where
  "getModule name m = map_option (\<lambda>i. mModules m ! i) (map_of (mModMapName m) name)"

definition getModule_id :: "nat \<Rightarrow> 'v module_mgr \<Rightarrow> 'v yang_module option" where
  "getModule_id i m = map_option (\<lambda>i. mModules m ! i) (mModMapId m i)"

definition getPath :: "string \<Rightarrow> string \<Rightarrow> string" where
  "getPath moduleName xpath = ''/'' @ moduleName @ '':'' @ xpath"

text \<open>A call of the data store; without one the null pointer is used.\<close>

definition with_ds :: "(datastore \<Rightarrow> (ds_exn + 'r) \<times> datastore) \<Rightarrow> 'v module_mgr \<Rightarrow> (ds_exn + 'r) \<times> 'v module_mgr" where
  "with_ds f m =
     (case mRadioDs m of None \<Rightarrow> (Inl Null_pointer, m)
      | Some ds \<Rightarrow> (case f ds of (r, ds) \<Rightarrow> (r, m\<lparr>mRadioDs := Some ds\<rparr>)))"

definition getSupportedModuleList :: "'v module_mgr \<Rightarrow> ds_exn + string list" where
  "getSupportedModuleList m = (case mRadioDs m of None \<Rightarrow> Inl Null_pointer | Some ds \<Rightarrow> Inr (mModsInstalled ds))"

text \<open>The items of a module, for a module found by name or by number.\<close>

definition mod_getItem ::
    "sysrepo \<Rightarrow> 'v yang_module option \<Rightarrow> string \<Rightarrow> 'v module_mgr \<Rightarrow>
     (ds_exn + yang_result \<times> yang_param option) \<times> 'v module_mgr" where
  "mod_getItem sr module xpath m =
     (case module of None \<Rightarrow> (Inr (YANG_FAIL, None), m)
      | Some md \<Rightarrow>
          with_ds (\<lambda>ds. case getItem sr (getPath (getName md) xpath) 0 ds of
            (Inl e, _, ds) \<Rightarrow> (Inl e, ds) | (Inr r, p, ds) \<Rightarrow> (Inr (r, p), ds)) m)"

definition mod_getItems ::
    "sysrepo \<Rightarrow> 'v yang_module option \<Rightarrow> string \<Rightarrow> 'v module_mgr \<Rightarrow>
     (ds_exn + yang_result \<times> yang_param list option) \<times> 'v module_mgr" where
  "mod_getItems sr module xpath m =
     (case module of None \<Rightarrow> (Inr (YANG_FAIL, None), m)
      | Some md \<Rightarrow>
          with_ds (\<lambda>ds. case getItems sr (getPath (getName md) xpath) 0 ds of
            (Inl e, _, ds) \<Rightarrow> (Inl e, ds) | (Inr r, ps, ds) \<Rightarrow> (Inr (r, ps), ds)) m)"

definition mod_setItem ::
    "sysrepo \<Rightarrow> 'v yang_module option \<Rightarrow> string \<Rightarrow> yang_param \<Rightarrow> 'v module_mgr \<Rightarrow> (ds_exn + yang_result) \<times> 'v module_mgr" where
  "mod_setItem sr module xpath p m =
     (case module of None \<Rightarrow> (Inr YANG_FAIL, m)
      | Some md \<Rightarrow> with_ds (setItem sr (getPath (getName md) xpath) p 0) m)"

definition mod_setItems ::
    "sysrepo \<Rightarrow> 'v yang_module option \<Rightarrow> string \<Rightarrow> yang_param list \<Rightarrow> 'v module_mgr \<Rightarrow> (ds_exn + yang_result) \<times> 'v module_mgr" where
  "mod_setItems sr module xpath ps m =
     (case module of None \<Rightarrow> (Inr YANG_FAIL, m)
      | Some md \<Rightarrow> with_ds (setItems sr (getPath (getName md) xpath) ps 0) m)"

text \<open>\<open>processEvents\<close> takes the events off the queue and does nothing with them.\<close>

definition processEvents :: "datastore \<Rightarrow> datastore" where
  "processEvents ds = ds\<lparr>mEvents := []\<rparr>"

section \<open>Installing modules\<close>

definition getModuleNamesAvailable :: "(string \<Rightarrow> u32 option) \<Rightarrow> 'v module_mgr \<Rightarrow> (string \<times> string) list" where
  "getModuleNamesAvailable stat m =
     (case stat (mSearchPath m) of None \<Rightarrow> []
      | Some mode \<Rightarrow>
          if mode AND 0x4000 = 0 then []
          else foldl (\<lambda>files name.
              case getModule name m of None \<Rightarrow> files
              | Some md \<Rightarrow>
                  (case stat (mSearchPath m @ ''/'' @ getFilename md) of None \<Rightarrow> files
                   | Some mode \<Rightarrow>
                       if mode AND 0xF000 = 0 then files else map_put (getName md) (getFilename md) files))
            [] (mModNames m))"

definition getModuleNamesConfigured :: "element \<Rightarrow> string list option" where
  "getModuleNamesConfigured config =
     map_option fst (getTokens (new_tokeniser (listSupportedModules config)
       [CHR '','', CHR '' '', CHR 0x09, CHR 0x0A, CHR 0x0D]) [])"

text \<open>\<open>enableFeatures\<close>: the features of the configuration that are on, in the order of their names.\<close>

fun enable_features ::
    "sysrepo \<Rightarrow> string \<Rightarrow> (string \<times> bool) list \<Rightarrow> yang_result \<Rightarrow> datastore \<Rightarrow> (ds_exn + yang_result) \<times> datastore" where
  "enable_features sr name [] result ds = (Inr result, ds)"
| "enable_features sr name ((feature, enabled) # fs) result ds =
     (if enabled then
        (case enableFeature sr name feature ds of
           (Inl e, ds) \<Rightarrow> (Inl e, ds)
         | (Inr r, ds) \<Rightarrow> enable_features sr name fs (if r \<noteq> YANG_OK then YANG_FAIL else result) ds)
      else enable_features sr name fs result ds)"

definition enableFeatures :: "sysrepo \<Rightarrow> element \<Rightarrow> string \<Rightarrow> datastore \<Rightarrow> (ds_exn + yang_result) \<times> datastore" where
  "enableFeatures sr config name ds =
     (let featureList = listModuleFeatures config name in
      if featureList = [] then (Inr YANG_OK, ds) else enable_features sr name featureList YANG_OK ds)"

text \<open>
  The loop over the modules, with the result and the number of successes so far. \<open>modsAvailable[name]\<close>
  adds an empty file name for a module that is not available, so the test that follows always
  finds it. A name that the manager does not know is the use of a null pointer.
\<close>

fun install_loop ::
    "mgr_env \<Rightarrow> element \<Rightarrow> (string \<times> string) list \<Rightarrow> string list \<Rightarrow> yang_result \<Rightarrow> nat \<Rightarrow> 'v module_mgr \<Rightarrow>
     (ds_exn + yang_result \<times> nat) \<times> 'v module_mgr" where
  "install_loop env config avail [] result successCount m = (Inr (result, successCount), m)"
| "install_loop env config avail (name # ns) result successCount m =
     (let avail = (if map_of avail name = None then map_put name [] avail else avail) in
      case map_of avail name of
        None \<Rightarrow> install_loop env config avail ns result successCount m
      | Some filename \<Rightarrow>
          (case with_ds (installModule (m_sysrepo env) name (mSearchPath m) filename) m of
             (Inl e, m) \<Rightarrow> (Inl e, m)
           | (Inr r, m) \<Rightarrow>
               if r \<noteq> YANG_OK then install_loop env config avail ns result successCount m
               else case map_of (mModMapName m) name of
                 None \<Rightarrow> (Inl Null_pointer, m)
               | Some i \<Rightarrow>
                   let m = m\<lparr>mModules := (mModules m)[i := activate (mModules m ! i)]\<rparr> in
                   (case with_ds (enableFeatures (m_sysrepo env) config name) m of
                      (Inl e, m) \<Rightarrow> (Inl e, m)
                    | (Inr result, m) \<Rightarrow>
                        if result \<noteq> YANG_OK then (Inr (result, successCount), m)
                        else install_loop env config avail ns result (successCount + 1) m)))"

definition installModules_list ::
    "mgr_env \<Rightarrow> element \<Rightarrow> string list \<Rightarrow> 'v module_mgr \<Rightarrow> (ds_exn + yang_result) \<times> 'v module_mgr" where
  "installModules_list env config names m =
     (case install_loop env config (getModuleNamesAvailable (m_stat env) m) names YANG_FAIL 0 m of
        (Inl e, m) \<Rightarrow> (Inl e, m)
      | (Inr (result, successCount), m) \<Rightarrow>
          (Inr (if successCount = length names then YANG_OK else result), m))"

definition requiredModules :: "string list" where
  "requiredModules =
     [''ietf-crypto-types'', ''ietf-inet-types'', ''ietf-netconf-acm'', ''ietf-netconf-monitoring'',
      ''ietf-yang-types'', ''ietf-yang-library'', ''iana-if-type'', ''iana-hardware'',
      ''ietf-interfaces'', ''ietf-dhcpv6-types'', ''ietf-hardware'', ''ietf-ip'']"

text \<open>The configured names always exist: cutting a text into tokens ends.\<close>

definition installModules :: "mgr_env \<Rightarrow> element \<Rightarrow> 'v module_mgr \<Rightarrow> (ds_exn + yang_result) \<times> 'v module_mgr" where
  "installModules env config m =
     (case installModules_list env config requiredModules m of
        (Inl e, m) \<Rightarrow> (Inl e, m)
      | (Inr result, m) \<Rightarrow>
          if result \<noteq> YANG_OK then (Inr YANG_FAIL, m)
          else (case installModules_list env config (the (getModuleNamesConfigured config)) m of
              (Inl e, m) \<Rightarrow> (Inl e, m)
            | (Inr result, m) \<Rightarrow> (Inr (if result \<noteq> YANG_OK then YANG_FAIL else YANG_OK), m)))"

section \<open>Start\<close>

text \<open>The steps of \<open>initialise\<close>: the first one that fails is the last one made.\<close>

fun until_failure ::
    "('v module_mgr \<Rightarrow> (ds_exn + yang_result) \<times> 'v module_mgr) list \<Rightarrow> 'v module_mgr \<Rightarrow>
     (ds_exn + yang_result) \<times> 'v module_mgr" where
  "until_failure [] m = (Inr YANG_OK, m)"
| "until_failure (f # fs) m =
     (case f m of
        (Inl e, m) \<Rightarrow> (Inl e, m)
      | (Inr result, m) \<Rightarrow> if result \<noteq> YANG_OK then (Inr result, m) else until_failure fs m)"

definition createDatastore :: "'v module_mgr \<Rightarrow> (ds_exn + yang_result) \<times> 'v module_mgr" where
  "createDatastore m = (Inr YANG_OK, m\<lparr>mRadioDs := Some new_datastore\<rparr>)"

definition start_steps ::
    "mgr_env \<Rightarrow> ('v module_mgr \<Rightarrow> (ds_exn + yang_result) \<times> 'v module_mgr) \<Rightarrow> element \<Rightarrow>
     ('v module_mgr \<Rightarrow> (ds_exn + yang_result) \<times> 'v module_mgr) list" where
  "start_steps env createModules config =
     [createModules, createDatastore, with_ds (ds_initialise (m_sysrepo env)), installModules env config,
      with_ds (ds_activate (m_sysrepo env)),
      \<lambda>m. (Inr (if m_netopeer env then YANG_OK else YANG_FAIL), m)]"

definition module_mgr_initialise ::
    "mgr_env \<Rightarrow> ('v module_mgr \<Rightarrow> (ds_exn + yang_result) \<times> 'v module_mgr) \<Rightarrow> 'v module_mgr \<Rightarrow>
     (ds_exn + yang_result) \<times> 'v module_mgr" where
  "module_mgr_initialise env createModules m =
     (case (case m_config env of
              None \<Rightarrow> (Inr YANG_FAIL, m)
            | Some config \<Rightarrow> until_failure (start_steps env createModules config) m) of
        (Inl e, m) \<Rightarrow> (Inl e, m)
      | (Inr result, m) \<Rightarrow>
          (Inr result, setStatus (if result = YANG_OK then MGR_INITIALISED else MGR_FAILED) m))"

section \<open>The modules of the server\<close>

text \<open>\<open>YangMgrServer\<close>: the modules in the order of their numbers; the file is named after the module.\<close>

definition server_modules :: "string list" where
  "server_modules =
     [''iana-hardware'', ''iana-if-type'', ''ietf-crypto-types'', ''ietf-dhcpv6-types'', ''ietf-hardware'',
      ''ietf-inet-types'', ''ietf-interfaces'', ''ietf-ip'', ''ietf-netconf-acm'',
      ''ietf-netconf-monitoring'', ''ietf-yang-library'', ''ietf-yang-types'', ''o-ran-ald-port'',
      ''o-ran-ald'', ''o-ran-antenna-calibration'', ''o-ran-compression-factors'',
      ''o-ran-delay-management'', ''o-ran-dhcp'', ''o-ran-ecpri-delay'', ''o-ran-externalio'', ''o-ran-fan'',
      ''o-ran-file-management'', ''o-ran-fm'', ''o-ran-hardware'', ''o-ran-interfaces'',
      ''o-ran-laa-operations'', ''o-ran-laa'', ''o-ran-lbm'', ''o-ran-module-cap'', ''o-ran-mplane-int'',
      ''o-ran-operations'', ''o-ran-performance-management'', ''o-ran-processing-element'',
      ''o-ran-software-management'', ''o-ran-supervision'', ''o-ran-sync'', ''o-ran-trace'',
      ''o-ran-transceiver'', ''o-ran-troubleshooting'', ''o-ran-udp-echo'', ''o-ran-uplane-conf'',
      ''o-ran-usermgmt'']"

definition createModules :: "'v module_mgr \<Rightarrow> (ds_exn + yang_result) \<times> 'v module_mgr" where
  "createModules m =
     (Inr YANG_OK, fold (\<lambda>(i, name). addModule (new_module name (name @ ''.yang'') i))
        (List.enumerate 0 server_modules) m)"

definition getNumModules :: nat where
  "getNumModules = length server_modules"

end
