(* ===== verification/ModuleStart.thy ===== *)
theory ModuleStart
  imports ModuleMgr
begin

text \<open>
  The start of the server: when it succeeds the data store is active with both of its sessions, and it
  does succeed when the library does not throw and every configured module is one of the server's.
\<close>

section \<open>What the data store keeps\<close>

lemma setState_frame [simp]:
  "mSrSessions (snd (setState st s)) = mSrSessions s" "mSrConnection (snd (setState st s)) = mSrConnection s"
  by (simp_all add: setState_def)

lemma sr_call_frame [simp]:
  "mSrSessions (snd (sr_call sr c s)) = mSrSessions s" "mState (snd (sr_call sr c s)) = mState s"
  "mSrConnection (snd (sr_call sr c s)) = mSrConnection s"
  by (simp_all add: sr_call_def Let_def)

lemma addInstalledModule_frame [simp]:
  "mSrSessions (addInstalledModule sr name s) = mSrSessions s" "mState (addInstalledModule sr name s) = mState s"
  "mSrConnection (addInstalledModule sr name s) = mSrConnection s"
  by (simp_all add: addInstalledModule_def)

lemma resetConnection_frame [simp]:
  "mSrSessions (snd (resetConnection sr s)) = mSrSessions s" "mState (snd (resetConnection sr s)) = mState s"
  by (simp_all add: resetConnection_def sr_call_def Let_def split: option.split)

lemma fail_state_frame [simp]: "mSrSessions (snd (fail_state r s)) = mSrSessions s"
  by (simp add: fail_state_def setState_def)

lemma ds_initialise_frame [simp]: "mSrSessions (snd (ds_initialise sr s)) = mSrSessions s"
  by (simp add: ds_initialise_def sr_call_def setState_def fail_state_def Let_def split: option.split sum.split)

lemma configuring_frame:
  assumes "\<And>s. mSrSessions (snd (body s)) = mSrSessions s"
  shows "mSrSessions (snd (configuring body s)) = mSrSessions s"
  using assms by (simp add: configuring_def setState_def)

lemma installModule_frame [simp]: "mSrSessions (snd (installModule sr name p f s)) = mSrSessions s"
  unfolding installModule_def
proof (rule configuring_frame)
  fix s
  let ?c = "Install_module (p @ ''/'' @ f) (if p \<noteq> [] \<and> p \<noteq> ''.'' then Some p else None)"
  obtain r s1 where c: "sr_call sr ?c s = (r, s1)"
    by fastforce
  obtain x s2 where x: "resetConnection sr (addInstalledModule sr name s1) = (x, s2)"
    by fastforce
  have "mSrSessions s1 = mSrSessions s"
    using sr_call_frame(1) c by (metis snd_conv)
  moreover have "mSrSessions s2 = mSrSessions s1"
    using resetConnection_frame(1) addInstalledModule_frame(1) x by (metis snd_conv)
  ultimately have "mSrSessions s1 = mSrSessions s" "mSrSessions s2 = mSrSessions s"
    by simp_all
  then show "mSrSessions (snd (let modulePathName = p @ ''/'' @ f; pathp = if p \<noteq> [] \<and> p \<noteq> ''.'' then Some p else None in
       case sr_call sr (Install_module modulePathName pathp) s of
         (None, s) \<Rightarrow> (case resetConnection sr (addInstalledModule sr name s) of (result, s) \<Rightarrow> (Inr result, s))
       | (Some e, s) \<Rightarrow>
           (case exceptionHandler e True of
              Inl x \<Rightarrow> (Inl x, s)
            | Inr result \<Rightarrow> (Inr (if result = YANG_EXISTS then YANG_OK else result), s)))) = mSrSessions s"
    using c x by (simp add: Let_def split: option.split sum.split)
qed

lemma change_feature_frame [simp]: "mSrSessions (snd (change_feature sr c s)) = mSrSessions s"
  by (simp add: change_feature_def sr_call_def Let_def split: option.split)

lemma enable_features_frame [simp]: "mSrSessions (snd (enable_features sr name fs r s)) = mSrSessions s"
proof (induction fs arbitrary: r s)
  case (Cons f fs)
  obtain feature on where f: "f = (feature, on)"
    by (cases f)
  obtain x s' where e: "enableFeature sr name feature s = (x, s')"
    by (cases "enableFeature sr name feature s")
  then have "mSrSessions s' = mSrSessions s"
    using change_feature_frame unfolding enableFeature_def by (metis snd_conv)
  then show ?case
    using Cons f e by (auto split: sum.split)
qed simp

lemma enableFeatures_frame [simp]: "mSrSessions (snd (enableFeatures sr config name s)) = mSrSessions s"
  by (simp add: enableFeatures_def Let_def)

section \<open>A successful start\<close>

definition no_sessions :: "'v module_mgr \<Rightarrow> bool" where
  "no_sessions m \<longleftrightarrow> (\<exists>ds. mRadioDs m = Some ds \<and> mSrSessions ds = [])"

lemma with_ds_no_sessions:
  assumes "no_sessions m" "\<And>s. mSrSessions (snd (f s)) = mSrSessions s" "with_ds f m = (r, m')"
  shows "no_sessions m'"
proof -
  obtain ds where ds: "mRadioDs m = Some ds" "mSrSessions ds = []"
    using assms(1) by (auto simp: no_sessions_def)
  then show ?thesis
    using assms(2) [of ds] assms(3) by (auto simp: with_ds_def no_sessions_def split: prod.splits)
qed

lemma install_loop_no_sessions:
  "\<lbrakk>no_sessions m; install_loop env config avail names result n m = (r, m')\<rbrakk> \<Longrightarrow> no_sessions m'"
proof (induction names arbitrary: avail result n m)
  case (Cons name names)
  let ?avail = "if map_of avail name = None then map_put name [] avail else avail"
  obtain filename where f: "map_of ?avail name = Some filename"
    by (cases "map_of avail name") (auto simp: map_of_map_put)
  obtain x m1 where i: "with_ds (installModule (m_sysrepo env) name (mSearchPath m) filename) m = (x, m1)"
    by fastforce
  have m1: "no_sessions m1"
    using with_ds_no_sessions [OF Cons.prems(1) installModule_frame i] .
  have act: "no_sessions (m1\<lparr>mModules := ms\<rparr>)" for ms
    using m1 by (simp add: no_sessions_def)
  show ?case
    using Cons.prems(2) Cons.IH m1 f i
    by (auto simp: Let_def dest!: with_ds_no_sessions [OF act enableFeatures_frame]
        split: sum.splits if_splits option.splits prod.splits)
qed simp

lemma installModules_list_no_sessions:
  "\<lbrakk>no_sessions m; installModules_list env config names m = (r, m')\<rbrakk> \<Longrightarrow> no_sessions m'"
  using install_loop_no_sessions by (fastforce simp: installModules_list_def split: prod.splits sum.splits)

lemma installModules_no_sessions:
  assumes "no_sessions m" "installModules env config m = (r, m')"
  shows "no_sessions m'"
proof -
  obtain x m1 where m1: "installModules_list env config requiredModules m = (x, m1)"
    by fastforce
  have "no_sessions m1"
    using installModules_list_no_sessions [OF assms(1) m1] .
  then show ?thesis
    using assms(2) m1 installModules_list_no_sessions
    by (auto simp: installModules_def split: sum.splits if_splits prod.splits)
qed

text \<open>The library does not throw the code of success.\<close>

definition honest :: "sysrepo \<Rightarrow> bool" where
  "honest sr \<longleftrightarrow> (\<forall>cs c. sr_throws sr cs c \<noteq> Some SR_ERR_OK)"

lemma honest_call: "\<lbrakk>honest sr; sr_call sr c s = (Some e, s')\<rbrakk> \<Longrightarrow> e \<noteq> SR_ERR_OK"
  by (auto simp: honest_def sr_call_def Let_def)

lemma start_sessions_throws: "\<lbrakk>honest sr; start_sessions sr ds s = (Some e, s')\<rbrakk> \<Longrightarrow> e \<noteq> SR_ERR_OK"
  by (induction ds arbitrary: s) (auto dest: honest_call split: prod.splits option.splits)

lemma start_sessions_made:
  "start_sessions sr ds s = (None, s') \<Longrightarrow> mSrSessions s' = mSrSessions s @ ds"
proof (induction ds arbitrary: s)
  case (Cons d ds)
  obtain r s1 where c: "sr_call sr (Start_session d) s = (r, s1)"
    by fastforce
  then have "mSrSessions s1 = mSrSessions s"
    using sr_call_frame(1) by (metis snd_conv)
  then show ?case
    using Cons c by (auto split: option.splits)
qed simp

lemma exceptionHandler_OK: "exceptionHandler e halt = Inr YANG_OK \<Longrightarrow> e = SR_ERR_OK"
  by (auto simp: exceptionHandler_def split: if_splits)

lemma ds_activate_ready:
  assumes "honest sr" "mSrSessions s = []" "ds_activate sr s = (Inr YANG_OK, s')"
  shows "ready s'"
proof -
  have body: "ds_activate_body sr s = (Inr YANG_OK, s')"
    using assms(3) by (auto simp: ds_activate_def fail_state_def split: prod.splits sum.splits yang_result.splits option.splits)
  obtain x s1 where s1: "resetConnection sr s = (x, s1)"
    by fastforce
  then have "mSrSessions s1 = []"
    using resetConnection_frame(1) [of sr s] assms(2) by simp
  moreover obtain y s2 where s2: "start_sessions sr [SR_DS_RUNNING, SR_DS_OPERATIONAL] s1 = (y, s2)"
    by fastforce
  ultimately have "y = None \<Longrightarrow> mSrSessions s2 = [SR_DS_RUNNING, SR_DS_OPERATIONAL]"
    using start_sessions_made by fastforce
  moreover have "exceptionHandler SR_ERR_INTERNAL False \<noteq> Inr YANG_OK"
    by (simp add: exceptionHandler_def)
  moreover have "y \<noteq> None \<Longrightarrow> exceptionHandler (the y) True \<noteq> Inr YANG_OK"
    using start_sessions_throws [OF assms(1)] s2 exceptionHandler_OK by fastforce
  ultimately show ?thesis
    using body s1 s2
    by (auto simp: ds_activate_body_def ready_def setState_def Let_def simp del: start_sessions.simps
        split: if_splits option.splits)
qed

lemma until_failure_OK:
  "until_failure (f # fs) m = (Inr YANG_OK, m') \<longleftrightarrow>
     (\<exists>m1. f m = (Inr YANG_OK, m1) \<and> until_failure fs m1 = (Inr YANG_OK, m'))"
  by (auto split: prod.splits sum.splits)

lemma mgr_started_ready:
  assumes "honest (m_sysrepo env)" "module_mgr_initialise env createModules m = (Inr YANG_OK, m')"
  shows "mStatus m' = MGR_INITIALISED \<and> (\<exists>ds. mRadioDs m' = Some ds \<and> ready ds)"
proof -
  obtain config m1 where m1: "until_failure (start_steps env createModules config) m = (Inr YANG_OK, m1)"
    and m': "m' = setStatus MGR_INITIALISED m1"
    using assms(2) by (auto simp: module_mgr_initialise_def split: option.splits prod.splits sum.splits simp del: until_failure.simps)
  obtain ma mb mc md me where
    b: "createDatastore ma = (Inr YANG_OK, mb)" and
    c: "with_ds (ds_initialise (m_sysrepo env)) mb = (Inr YANG_OK, mc)" and
    d: "installModules env config mc = (Inr YANG_OK, md)" and
    e: "with_ds (ds_activate (m_sysrepo env)) md = (Inr YANG_OK, me)" and
    f: "me = m1"
    using m1 unfolding start_steps_def until_failure_OK by auto
  have "no_sessions mb"
    using b by (auto simp: createDatastore_def no_sessions_def new_datastore_def)
  then have "no_sessions mc"
    using with_ds_no_sessions [OF _ ds_initialise_frame c] by blast
  then have "no_sessions md"
    using installModules_no_sessions d by blast
  then obtain ds where "mRadioDs md = Some ds" "mSrSessions ds = []"
    by (auto simp: no_sessions_def)
  then show ?thesis
    using e f m' ds_activate_ready [OF assms(1)]
    by (auto simp: with_ds_def setStatus_def split: prod.splits)
qed

text \<open>
  A start that reports success leaves the data store active, with the session of the running
  configuration as number 0 and the operational one as number 1, and the manager initialised.
\<close>

theorem started_is_ready:
  assumes "honest (m_sysrepo env)" "module_mgr_initialise env createModules m = (Inr YANG_OK, m')"
  shows "mStatus m' = MGR_INITIALISED \<and> (\<exists>ds. mRadioDs m' = Some ds \<and> ready ds)"
  by (rule mgr_started_ready [OF assms])

section \<open>A start that does succeed\<close>

definition quiet :: "sysrepo \<Rightarrow> bool" where
  "quiet sr \<longleftrightarrow> (\<forall>cs c. sr_throws sr cs c = None)"

lemma quiet_call: "quiet sr \<Longrightarrow> sr_call sr c s = (None, calls_made [c] s)"
  using sr_call_fine by (simp add: quiet_def)

definition in_state :: "ds_state set \<Rightarrow> datastore \<Rightarrow> bool" where
  "in_state sts s \<longleftrightarrow> mState s \<in> sts \<and> mSrConnection s \<and> mSrSessions s = []"

lemma in_state_calls [simp]: "in_state sts (calls_made cs s) = in_state sts s"
  by (simp add: in_state_def calls_made_def)

lemma setState_configuring:
  "in_state {INITIALISED, CONFIGURING} s \<Longrightarrow>
    setState CONFIGURING s = (None, s\<lparr>mState := CONFIGURING\<rparr>) \<and> in_state {CONFIGURING} (s\<lparr>mState := CONFIGURING\<rparr>)"
  by (auto simp: setState_def validStateChange_def in_state_def)

lemma resetConnection_quiet:
  "\<lbrakk>quiet sr; in_state {CONFIGURING} s\<rbrakk> \<Longrightarrow>
    \<exists>s'. resetConnection sr s = (YANG_OK, s') \<and> in_state {CONFIGURING} s'"
  by (simp add: resetConnection_def in_state_def isState_def quiet_call calls_made_def)

lemma in_state_installed: "in_state sts (addInstalledModule sr name s) = in_state sts s"
  by (simp add: in_state_def)

lemma configuring_quiet:
  assumes "in_state {INITIALISED, CONFIGURING} s"
  shows "configuring body s = body (s\<lparr>mState := CONFIGURING\<rparr>)"
  using setState_configuring [OF assms] by (simp add: configuring_def in_state_def isState_def)

lemma installModule_quiet:
  assumes "quiet sr" "in_state {INITIALISED, CONFIGURING} s"
  shows "\<exists>s'. installModule sr name p f s = (Inr YANG_OK, s') \<and> in_state {CONFIGURING} s'"
proof -
  let ?c = "Install_module (p @ ''/'' @ f) (if p \<noteq> [] \<and> p \<noteq> ''.'' then Some p else None)"
  let ?s = "addInstalledModule sr name (calls_made [?c] (s\<lparr>mState := CONFIGURING\<rparr>))"
  have "in_state {CONFIGURING} ?s"
    using setState_configuring [OF assms(2)] by (simp add: in_state_installed)
  then obtain s' where s': "resetConnection sr ?s = (YANG_OK, s')" "in_state {CONFIGURING} s'"
    using resetConnection_quiet [OF assms(1)] by blast
  have "installModule sr name p f s = (Inr YANG_OK, s')"
    unfolding installModule_def configuring_quiet [OF assms(2)] Let_def
    using s'(1) by (simp only: quiet_call [OF assms(1)] prod.case option.case)
  then show ?thesis
    using s'(2) by blast
qed

lemma enable_features_quiet:
  assumes "quiet sr"
  shows "in_state {CONFIGURING} s \<Longrightarrow>
    \<exists>s'. enable_features sr name fs YANG_OK s = (Inr YANG_OK, s') \<and> in_state {CONFIGURING} s'"
proof (induction fs arbitrary: s)
  case (Cons f fs)
  obtain feature on where f: "f = (feature, on)"
    by (cases f)
  have "enableFeature sr name feature s = (Inr YANG_OK, calls_made [Enable_feature name feature] s)"
    using Cons.prems assms by (simp add: enableFeature_def change_feature_def quiet_call in_state_def isState_def)
  then show ?case
    using Cons f by (auto simp: in_state_def calls_made_def)
qed simp

lemma enableFeatures_quiet:
  assumes "quiet sr" "in_state {CONFIGURING} s"
  shows "\<exists>s'. enableFeatures sr config name s = (Inr YANG_OK, s') \<and> in_state {CONFIGURING} s'"
  using assms enable_features_quiet by (simp add: enableFeatures_def Let_def)

definition mgr_in :: "ds_state set \<Rightarrow> 'v module_mgr \<Rightarrow> bool" where
  "mgr_in sts m \<longleftrightarrow> (\<exists>ds. mRadioDs m = Some ds \<and> in_state sts ds)"

lemma install_step:
  assumes "quiet (m_sysrepo env)" "mgr_in {INITIALISED, CONFIGURING} m" "map_of (mModMapName m) name \<noteq> None"
  shows "\<exists>m' avail'. install_loop env config avail (name # names) r n m =
      install_loop env config avail' names YANG_OK (n + 1) m' \<and>
      mgr_in {CONFIGURING} m' \<and> mModMapName m' = mModMapName m"
proof -
  let ?avail = "if map_of avail name = None then map_put name [] avail else avail"
  obtain filename where f: "map_of ?avail name = Some filename"
    by (cases "map_of avail name") (auto simp: map_of_map_put)
  obtain i where i: "map_of (mModMapName m) name = Some i"
    using assms(3) by blast
  obtain ds where ds: "mRadioDs m = Some ds" "in_state {INITIALISED, CONFIGURING} ds"
    using assms(2) by (auto simp: mgr_in_def)
  obtain ds1 where ds1: "installModule (m_sysrepo env) name (mSearchPath m) filename ds = (Inr YANG_OK, ds1)"
      "in_state {CONFIGURING} ds1"
    using installModule_quiet [OF assms(1) ds(2)] by blast
  obtain ds2 where ds2: "enableFeatures (m_sysrepo env) config name ds1 = (Inr YANG_OK, ds2)" "in_state {CONFIGURING} ds2"
    using enableFeatures_quiet [OF assms(1) ds1(2)] by blast
  show ?thesis
    using f i ds(1) ds1(1) ds2 by (auto simp: with_ds_def mgr_in_def Let_def)
qed

lemma install_loop_quiet:
  assumes "quiet (m_sysrepo env)"
  shows "\<lbrakk>mgr_in {INITIALISED, CONFIGURING} m; \<forall>name \<in> set names. map_of (mModMapName m) name \<noteq> None\<rbrakk> \<Longrightarrow>
    \<exists>r' m'. install_loop env config avail names r n m = (Inr (r', n + length names), m') \<and>
      mgr_in (if names = [] \<and> \<not> mgr_in {CONFIGURING} m then {INITIALISED, CONFIGURING} else {CONFIGURING}) m' \<and>
      mModMapName m' = mModMapName m"
proof (induction names arbitrary: avail r n m)
  case (Cons name names)
  obtain m1 avail1 where m1: "install_loop env config avail (name # names) r n m =
      install_loop env config avail1 names YANG_OK (n + 1) m1" "mgr_in {CONFIGURING} m1" "mModMapName m1 = mModMapName m"
    using install_step [OF assms Cons.prems(1)] Cons.prems(2) by (metis list.set_intros(1))
  have h: "mgr_in {INITIALISED, CONFIGURING} m1" "\<forall>name \<in> set names. map_of (mModMapName m1) name \<noteq> None"
    using m1(2,3) Cons.prems(2) by (auto simp: mgr_in_def in_state_def)
  obtain r2 m2 where "install_loop env config avail1 names YANG_OK (n + 1) m1 = (Inr (r2, n + 1 + length names), m2)"
      "mgr_in {CONFIGURING} m2" "mModMapName m2 = mModMapName m1"
    using Cons.IH [OF h, of avail1 YANG_OK "n + 1"] m1(2) by (auto split: if_splits)
  then show ?case
    using m1 by simp
qed (auto simp: mgr_in_def)

lemma installModules_list_quiet:
  assumes "quiet (m_sysrepo env)" "mgr_in {INITIALISED, CONFIGURING} m"
    "\<forall>name \<in> set names. map_of (mModMapName m) name \<noteq> None" "names \<noteq> [] \<or> mgr_in {CONFIGURING} m"
  shows "\<exists>m'. installModules_list env config names m = (Inr YANG_OK, m') \<and>
    mgr_in {CONFIGURING} m' \<and> mModMapName m' = mModMapName m"
  using install_loop_quiet [OF assms(1-3), where config = config and avail = "getModuleNamesAvailable (m_stat env) m"
      and r = YANG_FAIL and n = 0] assms(4)
  by (auto simp: installModules_list_def)

definition configured_names :: "element \<Rightarrow> string list" where
  "configured_names config = words [CHR '','', CHR '' '', CHR 0x09, CHR 0x0A, CHR 0x0D] [] (listSupportedModules config)"

lemma getModuleNamesConfigured_words: "getModuleNamesConfigured config = Some (configured_names config)"
  using getTokens_words [of "new_tokeniser (listSupportedModules config) [CHR '','', CHR '' '', CHR 0x09, CHR 0x0A, CHR 0x0D]" "[]"]
  by (auto simp: getModuleNamesConfigured_def configured_names_def new_tokeniser_def)

lemma installModules_quiet:
  assumes "quiet (m_sysrepo env)" "mgr_in {INITIALISED, CONFIGURING} m"
    "\<forall>name \<in> set (requiredModules @ configured_names config). map_of (mModMapName m) name \<noteq> None"
  shows "\<exists>m'. installModules env config m = (Inr YANG_OK, m') \<and> mgr_in {CONFIGURING} m'"
proof -
  obtain m1 where m1: "installModules_list env config requiredModules m = (Inr YANG_OK, m1)" "mgr_in {CONFIGURING} m1"
      "mModMapName m1 = mModMapName m"
    using installModules_list_quiet [OF assms(1,2), of requiredModules config] assms(3) by (auto simp: requiredModules_def)
  then have "mgr_in {INITIALISED, CONFIGURING} m1"
    by (auto simp: mgr_in_def in_state_def)
  then obtain m2 where "installModules_list env config (configured_names config) m1 = (Inr YANG_OK, m2)" "mgr_in {CONFIGURING} m2"
    using installModules_list_quiet [OF assms(1), of m1 "configured_names config" config] assms(3) m1 by auto
  then show ?thesis
    using m1 by (simp add: installModules_def getModuleNamesConfigured_words)
qed

lemma createModules_known:
  "createModules m = (Inr YANG_OK, m') \<Longrightarrow> name \<in> set server_modules \<Longrightarrow> map_of (mModMapName m') name \<noteq> None"
proof -
  have keep: "map_of (mModMapName (fold (\<lambda>(i, name). addModule (new_module name (name @ ''.yang'') i)) es m)) name \<noteq> None"
    if "map_of (mModMapName m) name \<noteq> None \<or> name \<in> snd ` set es" for es and m :: "'v module_mgr"
    using that
  proof (induction es arbitrary: m)
    case (Cons e es)
    then show ?case
      by (cases e) (auto simp: addModule_def new_module_def Let_def map_of_map_put)
  qed simp
  assume "createModules m = (Inr YANG_OK, m')" "name \<in> set server_modules"
  then have "name \<in> snd ` set (List.enumerate 0 server_modules)"
    by (metis list.set_map map_snd_enumerate)
  then show ?thesis
    using keep [of m "List.enumerate 0 server_modules"] \<open>createModules m = (Inr YANG_OK, m')\<close>
    by (simp add: createModules_def)
qed

lemma createModules_state: "\<exists>m'. createModules m = (Inr YANG_OK, m')"
  by (simp add: createModules_def)

lemma required_known: "set requiredModules \<subseteq> set server_modules"
  by (simp add: requiredModules_def server_modules_def)

lemma server_start_quiet:
  assumes "\<And>cs c. sr_throws (m_sysrepo env) cs c = None" "m_config env = Some config" "m_netopeer env"
    "set (configured_names config) \<subseteq> set server_modules"
  shows "\<exists>m'. module_mgr_initialise env createModules m = (Inr YANG_OK, m') \<and> mStatus m' = MGR_INITIALISED \<and>
    (\<exists>ds. mRadioDs m' = Some ds \<and> ready ds)"
proof -
  have q: "quiet (m_sysrepo env)"
    using assms(1) by (simp add: quiet_def)
  obtain ma where ma: "createModules m = (Inr YANG_OK, ma)"
    using createModules_state by blast
  let ?mb = "ma\<lparr>mRadioDs := Some new_datastore\<rparr>"
  obtain mc where mc: "with_ds (ds_initialise (m_sysrepo env)) ?mb = (Inr YANG_OK, mc)"
      "mgr_in {INITIALISED, CONFIGURING} mc" "mModMapName mc = mModMapName ma"
    using q by (auto simp: with_ds_def ds_initialise_def quiet_call setState_def validStateChange_def new_datastore_def
        mgr_in_def in_state_def calls_made_def)
  have "\<forall>name \<in> set (requiredModules @ configured_names config). map_of (mModMapName mc) name \<noteq> None"
    using createModules_known [OF ma] assms(4) required_known unfolding mc(3) set_append by blast
  then obtain md where md: "installModules env config mc = (Inr YANG_OK, md)" "mgr_in {CONFIGURING} md"
    using installModules_quiet [OF q mc(2)] by blast
  obtain ds where ds: "mRadioDs md = Some ds" "in_state {CONFIGURING} ds"
    using md(2) by (auto simp: mgr_in_def)
  have "\<exists>ds'. ds_activate (m_sysrepo env) ds = (Inr YANG_OK, ds') \<and> ready ds'"
    using ds(2) q
    by (auto simp: ds_activate_def ds_activate_body_def resetConnection_def quiet_call in_state_def isState_def setState_def
        validStateChange_def calls_made_def ready_def)
  then show ?thesis
    using assms(2,3) ma mc(1) md(1) ds(1)
    by (auto simp: module_mgr_initialise_def start_steps_def createDatastore_def with_ds_def setStatus_def split: prod.splits)
qed

text \<open>
  C12: the server starts when the library does not throw, the configuration is there, names only
  modules of the server, and the server of the management protocol starts. Nothing is asked of the
  files of the modules: a file that does not exist is not noticed by the manager.
\<close>

theorem server_starts:
  assumes "\<And>cs c. sr_throws (m_sysrepo env) cs c = None" "m_config env = Some config" "m_netopeer env"
    "set (configured_names config) \<subseteq> set server_modules"
  shows "\<exists>m'. module_mgr_initialise env createModules m = (Inr YANG_OK, m') \<and> mStatus m' = MGR_INITIALISED \<and>
    (\<exists>ds. mRadioDs m' = Some ds \<and> ready ds)"
  using server_start_quiet assms by blast

definition empty_config :: element where
  "empty_config = Element ''config'' [] [] [] []"

definition fine_env :: mgr_env where
  "fine_env = \<lparr>m_sysrepo = \<lparr>sr_throws = (\<lambda>cs c. None), sr_value_of = (\<lambda>cs ds p. None), sr_values_of = (\<lambda>cs ds p. None),
      sr_has_module = (\<lambda>cs n. False)\<rparr>,
     m_stat = (\<lambda>p. None), m_config = Some empty_config, m_netopeer = True\<rparr>"

lemma empty_config_names: "configured_names empty_config = []"
  by (simp add: configured_names_def listSupportedModules_def listElements_type_def empty_config_def)

theorem server_starts_witness:
  "\<exists>m'. module_mgr_initialise fine_env createModules (new_mgr :: nat module_mgr) = (Inr YANG_OK, m') \<and>
    mStatus m' = MGR_INITIALISED \<and> (\<exists>ds. mRadioDs m' = Some ds \<and> ready ds)"
  by (rule server_starts [where config = empty_config]) (simp_all add: fine_env_def empty_config_names)

theorem started_is_ready_witness:
  "\<exists>m'. module_mgr_initialise fine_env createModules (new_mgr :: nat module_mgr) = (Inr YANG_OK, m') \<and>
    mStatus m' = MGR_INITIALISED \<and> (\<exists>ds. mRadioDs m' = Some ds \<and> ready ds)"
proof -
  obtain m' where "module_mgr_initialise fine_env createModules (new_mgr :: nat module_mgr) = (Inr YANG_OK, m')"
    using server_start_quiet [of fine_env empty_config new_mgr] by (auto simp: fine_env_def empty_config_names)
  moreover have "honest (m_sysrepo fine_env)"
    by (simp add: honest_def fine_env_def)
  ultimately show ?thesis
    using started_is_ready by blast
qed

end
