(* ===== verification/NacmRules.thy ===== *)
theory NacmRules
  imports Prelude
begin

text \<open>
  The access rules that \<open>IetfNetconfAcmHandler.cpp\<close> writes, in the order of the assignments. A
  rule is the four assignments \<open>dataCfg[...]\<close> to its leaves; the commented-out assignment of the
  name is the key of the list.
\<close>

datatype nacm_rule =
  Rule (r_name: string) (r_module: string) (r_operations: string) (r_action: string) (r_comment: string)

section \<open>The group \<open>sudo\<close>: \<open>addSudoRules\<close>\<close>

definition sudo_rules_1 :: "nacm_rule list" where
  "sudo_rules_1 =
     [Rule ''sudo-iana-hardware'' ''iana-hardware'' ''exec''
        ''deny'' ''sudo iana-hardware R--'',
      Rule ''sudo-ietf-hardware'' ''ietf-hardware'' ''create update delete''
        ''permit'' ''sudo ietf-hardware RWX'',
      Rule ''sudo-ietf-interfaces-permit-write'' ''ietf-interfaces'' ''create update delete''
        ''permit'' ''sudo ietf-interfaces RW- (1/2)'',
      Rule ''sudo-ietf-interfaces-deny-exec'' ''ietf-interfaces'' ''exec''
        ''deny'' ''sudo ietf-interfaces RW- (2/2)'',
      Rule ''sudo-ietf-ip-permit-write'' ''ietf-ip'' ''create update delete''
        ''permit'' ''sudo ietf-ip RW- (1/2)'',
      Rule ''sudo-ietf-ip-deny-exec'' ''ietf-ip'' ''exec''
        ''deny'' ''sudo ietf-ip RW- (2/2)'',
      Rule ''sudo-ietf-netconf-acm-permit-write'' ''ietf-netconf-acm'' ''create update delete''
        ''permit'' ''sudo ietf-netconf-acm RW- (1/2)'',
      Rule ''sudo-ietf-netconf-acm-deny-exec'' ''ietf-netconf-acm'' ''exec''
        ''deny'' ''sudo ietf-netconf-acm RW- (2/2)'',
      Rule ''sudo-ietf-netconf-notifications'' ''ietf-netconf-notifications'' ''read''
        ''deny'' ''sudo ietf-netconf-notifications --X'']"

definition sudo_rules_2 :: "nacm_rule list" where
  "sudo_rules_2 =
     [Rule ''sudo-ietf-subscribed-notifications-deny-read'' ''ietf-subscribed-notifications'' ''read''
        ''deny'' ''sudo ietf-subscribed-notifications --- (1/2)'',
      Rule ''sudo-ietf-subscribed-notifications-deny-exec'' ''ietf-subscribed-notifications'' ''exec''
        ''deny'' ''sudo ietf-subscribed-notifications --- (2/2)'',
      Rule ''sudo-o-ran-ald'' ''o-ran-ald'' ''read''
        ''deny'' ''sudo o-ran-ald --X'',
      Rule ''sudo-o-ran-ald-port'' ''o-ran-ald-port'' ''create update delete''
        ''permit'' ''sudo o-ran-ald-port RWX'',
      Rule ''sudo-o-ran-antenna-calibration'' ''o-ran-antenna-calibration'' ''create update delete''
        ''permit'' ''sudo o-ran-antenna-calibration RWX'',
      Rule ''sudo-o-ran-delay-management-permit-write'' ''o-ran-delay-management'' ''create update delete''
        ''permit'' ''sudo o-ran-delay-management RW- (1/2)'',
      Rule ''sudo-o-ran-delay-management-deny-exec'' ''o-ran-delay-management'' ''exec''
        ''deny'' ''sudo o-ran-delay-management RW- (2/2)'',
      Rule ''sudo-o-ran-dhcp'' ''o-ran-dhcp'' ''exec''
        ''deny'' ''sudo o-ran-dhcp R--'']"

definition sudo_rules_3 :: "nacm_rule list" where
  "sudo_rules_3 =
     [Rule ''sudo-o-ran-ecpri-delay-permit-write'' ''o-ran-ecpri-delay'' ''create update delete''
        ''permit'' ''sudo o-ran-ecpri-delay RW- (1/2)'',
      Rule ''sudo-o-ran-ecpri-delay-deny-exec'' ''o-ran-ecpri-delay'' ''exec''
        ''deny'' ''sudo o-ran-ecpri-delay RW- (2/2)'',
      Rule ''sudo-o-ran-ethernet-forwarding-permit-write'' ''o-ran-ethernet-forwarding'' ''create update delete''
        ''permit'' ''sudo o-ran-ethernet-forwarding RW- (1/2)'',
      Rule ''sudo-o-ran-ethernet-forwarding-deny-exec'' ''o-ran-ethernet-forwarding'' ''exec''
        ''deny'' ''sudo o-ran-ethernet-forwarding RW- (2/2)'',
      Rule ''sudo-o-ran-externalio'' ''o-ran-externalio'' ''create update delete''
        ''permit'' ''sudo o-ran-externalio RWX'',
      Rule ''sudo-o-ran-fan'' ''o-ran-fan'' ''exec''
        ''deny'' ''sudo o-ran-fan R--'',
      Rule ''sudo-o-ran-file-management'' ''o-ran-file-management'' ''read''
        ''deny'' ''sudo o-ran-file-management --X'',
      Rule ''sudo-o-ran-hardware'' ''o-ran-hardware'' ''create update delete''
        ''permit'' ''sudo o-ran-hardware RWX'',
      Rule ''sudo-o-ran-interfaces'' ''o-ran-interfaces'' ''create update delete''
        ''permit'' ''sudo o-ran-interfaces RWX'']"

definition sudo_rules_4 :: "nacm_rule list" where
  "sudo_rules_4 =
     [Rule ''sudo-o-ran-laa-permit-write'' ''o-ran-laa'' ''create update delete''
        ''permit'' ''sudo o-ran-laa RW- (1/2)'',
      Rule ''sudo-o-ran-laa-deny-exec'' ''o-ran-laa'' ''exec''
        ''deny'' ''sudo o-ran-laa RW- (2/2)'',
      Rule ''sudo-o-ran-laa-operations'' ''o-ran-laa-operations'' ''read''
        ''deny'' ''sudo o-ran-laa-operations --X'',
      Rule ''sudo-o-ran-lbm-permit-write'' ''o-ran-lbm'' ''create update delete''
        ''permit'' ''sudo o-ran-lbm RW- (1/2)'',
      Rule ''sudo-o-ran-lbm-deny-exec'' ''o-ran-lbm'' ''exec''
        ''deny'' ''sudo o-ran-lbm RW- (2/2)'',
      Rule ''sudo-o-ran-module-cap-permit-write'' ''o-ran-module-cap'' ''create update delete''
        ''permit'' ''sudo o-ran-module-cap RW- (1/2)'',
      Rule ''sudo-o-ran-module-cap-deny-exec'' ''o-ran-module-cap'' ''exec''
        ''deny'' ''sudo o-ran-module-cap RW- (2/2)'',
      Rule ''sudo-o-ran-mplane-int-permit-write'' ''o-ran-mplane-int'' ''create update delete''
        ''permit'' ''sudo o-ran-mplane-int RW- (1/2)'',
      Rule ''sudo-o-ran-mplane-int-deny-exec'' ''o-ran-mplane-int'' ''exec''
        ''deny'' ''sudo o-ran-mplane-int RW- (2/2)'']"

definition sudo_rules_5 :: "nacm_rule list" where
  "sudo_rules_5 =
     [Rule ''sudo-o-ran-operations'' ''o-ran-operations'' ''create update delete''
        ''permit'' ''sudo o-ran-operations RWX'',
      Rule ''sudo-o-ran-performance-management'' ''o-ran-performance-management'' ''create update delete''
        ''permit'' ''sudo o-ran-performance-management RWX'',
      Rule ''sudo-o-ran-processing-element-permit-write'' ''o-ran-processing-element'' ''create update delete''
        ''permit'' ''sudo o-ran-processing-element RW- (1/2)'',
      Rule ''sudo-o-ran-processing-element-deny-exec'' ''o-ran-processing-element'' ''exec''
        ''deny'' ''sudo o-ran-processing-element RW- (2/2)'',
      Rule ''sudo-o-ran-shared-cell-permit-write'' ''o-ran-shared-cell'' ''create update delete''
        ''permit'' ''sudo o-ran-shared-cell RW- (1/2)'',
      Rule ''sudo-o-ran-shared-cell-deny-exec'' ''o-ran-shared-cell'' ''exec''
        ''deny'' ''sudo o-ran-shared-cell RW- (2/2)'',
      Rule ''sudo-o-ran-supervision'' ''o-ran-supervision'' ''create update delete''
        ''permit'' ''sudo o-ran-supervision RWX'',
      Rule ''sudo-o-ran-sync'' ''o-ran-sync'' ''create update delete''
        ''permit'' ''sudo o-ran-sync RWX'',
      Rule ''sudo-o-ran-trace'' ''o-ran-trace'' ''read''
        ''deny'' ''sudo o-ran-trace --X'']"

definition sudo_rules_6 :: "nacm_rule list" where
  "sudo_rules_6 =
     [Rule ''sudo-o-ran-transceiver-permit-write'' ''o-ran-transceiver'' ''create update delete''
        ''permit'' ''sudo o-ran-transceiver RW- (1/2)'',
      Rule ''sudo-o-ran-transceiver-deny-exec'' ''o-ran-transceiver'' ''exec''
        ''deny'' ''sudo o-ran-transceiver RW- (2/2)'',
      Rule ''sudo-o-ran-troubleshooting'' ''o-ran-troubleshooting'' ''read''
        ''deny'' ''sudo o-ran-troubleshooting --X'',
      Rule ''sudo-o-ran-udp-echo-permit-write'' ''o-ran-udp-echo'' ''create update delete''
        ''permit'' ''sudo o-ran-udp-echo RW- (1/2)'',
      Rule ''sudo-o-ran-udp-echo-deny-exec'' ''o-ran-udp-echo'' ''exec''
        ''deny'' ''sudo o-ran-udp-echo RW- (2/2)'',
      Rule ''sudo-o-ran-uplane-conf'' ''o-ran-uplane-conf'' ''create update delete''
        ''permit'' ''sudo o-ran-uplane-conf RWX'',
      Rule ''sudo-o-ran-usermgmt'' ''o-ran-usermgmt'' ''create update delete''
        ''permit'' ''sudo o-ran-usermgmt RWX'',
      Rule ''sudo-o-ran-ves-subscribed-notifications-deny-read'' ''o-ran-ves-subscribed-notifications'' ''read''
        ''deny'' ''sudo o-ran-ves-subscribed-notifications --- (1/2)'']"

definition sudo_rules_7 :: "nacm_rule list" where
  "sudo_rules_7 =
     [Rule ''sudo-o-ran-ves-subscribed-notifications-deny-exec'' ''o-ran-ves-subscribed-notifications'' ''exec''
        ''deny'' ''sudo o-ran-ves-subscribed-notifications --- (2/2)'']"

definition sudo_rules :: "nacm_rule list" where
  "sudo_rules = sudo_rules_1 @ sudo_rules_2 @ sudo_rules_3 @ sudo_rules_4 @ sudo_rules_5 @ sudo_rules_6 @ sudo_rules_7"

section \<open>The group \<open>nms\<close>: \<open>addNmsRules\<close>\<close>

definition nms_rules_1 :: "nacm_rule list" where
  "nms_rules_1 =
     [Rule ''nms-iana-hardware'' ''iana-hardware'' ''exec''
        ''deny'' ''nms iana-hardware R--'',
      Rule ''nms-ietf-hardware'' ''ietf-hardware'' ''create update delete''
        ''permit'' ''nms ietf-hardware RWX'',
      Rule ''nms-ietf-interfaces-permit-write'' ''ietf-interfaces'' ''create update delete''
        ''permit'' ''nms ietf-interfaces RW- (1/2)'',
      Rule ''nms-ietf-interfaces-deny-exec'' ''ietf-interfaces'' ''exec''
        ''deny'' ''nms ietf-interfaces RW- (2/2)'',
      Rule ''nms-ietf-ip-permit-write'' ''ietf-ip'' ''create update delete''
        ''permit'' ''nms ietf-ip RW- (1/2)'',
      Rule ''nms-ietf-ip-deny-exec'' ''ietf-ip'' ''exec''
        ''deny'' ''nms ietf-ip RW- (2/2)'',
      Rule ''nms-ietf-netconf-acm'' ''ietf-netconf-acm'' ''exec''
        ''deny'' ''nms ietf-netconf-acm R--'',
      Rule ''nms-ietf-netconf-notifications'' ''ietf-netconf-notifications'' ''read''
        ''deny'' ''nms ietf-netconf-notifications --X'',
      Rule ''nms-ietf-subscribed-notifications-deny-read'' ''ietf-subscribed-notifications'' ''read''
        ''deny'' ''nms ietf-subscribed-notifications --- (1/2)'']"

definition nms_rules_2 :: "nacm_rule list" where
  "nms_rules_2 =
     [Rule ''nms-ietf-subscribed-notifications-deny-exec'' ''ietf-subscribed-notifications'' ''exec''
        ''deny'' ''nms ietf-subscribed-notifications --- (2/2)'',
      Rule ''nms-o-ran-ald-deny-read'' ''o-ran-ald'' ''read''
        ''deny'' ''nms o-ran-ald --- (1/2)'',
      Rule ''nms-o-ran-ald-deny-exec'' ''o-ran-ald'' ''exec''
        ''deny'' ''nms o-ran-ald --- (2/2)'',
      Rule ''nms-o-ran-ald-port'' ''o-ran-ald-port'' ''create update delete''
        ''permit'' ''nms o-ran-ald-port RWX'',
      Rule ''nms-o-ran-antenna-calibration'' ''o-ran-antenna-calibration'' ''exec''
        ''deny'' ''nms o-ran-antenna-calibration R--'',
      Rule ''nms-o-ran-delay-management'' ''o-ran-delay-management'' ''exec''
        ''deny'' ''nms o-ran-delay-management R--'',
      Rule ''nms-o-ran-dhcp'' ''o-ran-dhcp'' ''exec''
        ''deny'' ''nms o-ran-dhcp R--'',
      Rule ''nms-o-ran-ecpri-delay'' ''o-ran-ecpri-delay'' ''exec''
        ''deny'' ''nms o-ran-ecpri-delay R--'',
      Rule ''nms-o-ran-ethernet-forwarding-permit-write'' ''o-ran-ethernet-forwarding'' ''create update delete''
        ''permit'' ''nms o-ran-ethernet-forwarding RW- (1/2)'']"

definition nms_rules_3 :: "nacm_rule list" where
  "nms_rules_3 =
     [Rule ''nms-o-ran-ethernet-forwarding-deny-exec'' ''o-ran-ethernet-forwarding'' ''exec''
        ''deny'' ''nms o-ran-ethernet-forwarding RW- (2/2)'',
      Rule ''nms-o-ran-externalio'' ''o-ran-externalio'' ''create update delete''
        ''permit'' ''nms o-ran-externalio RWX'',
      Rule ''nms-o-ran-fan'' ''o-ran-fan'' ''exec''
        ''deny'' ''nms o-ran-fan R--'',
      Rule ''nms-o-ran-file-management'' ''o-ran-file-management'' ''read''
        ''deny'' ''nms o-ran-file-management --X'',
      Rule ''nms-o-ran-hardware-permit-write'' ''o-ran-hardware'' ''create update delete''
        ''permit'' ''nms o-ran-hardware RW- (1/2)'',
      Rule ''nms-o-ran-hardware-deny-exec'' ''o-ran-hardware'' ''exec''
        ''deny'' ''nms o-ran-hardware RW- (2/2)'',
      Rule ''nms-o-ran-interfaces'' ''o-ran-interfaces'' ''create update delete''
        ''permit'' ''nms o-ran-interfaces RWX'',
      Rule ''nms-o-ran-laa-permit-write'' ''o-ran-laa'' ''create update delete''
        ''permit'' ''nms o-ran-laa RW- (1/2)'',
      Rule ''nms-o-ran-laa-deny-exec'' ''o-ran-laa'' ''exec''
        ''deny'' ''nms o-ran-laa RW- (2/2)'']"

definition nms_rules_4 :: "nacm_rule list" where
  "nms_rules_4 =
     [Rule ''nms-o-ran-laa-operations-deny-read'' ''o-ran-laa-operations'' ''read''
        ''deny'' ''nms o-ran-laa-operations --- (1/2)'',
      Rule ''nms-o-ran-laa-operations-deny-exec'' ''o-ran-laa-operations'' ''exec''
        ''deny'' ''nms o-ran-laa-operations --- (2/2)'',
      Rule ''nms-o-ran-lbm-permit-write'' ''o-ran-lbm'' ''create update delete''
        ''permit'' ''nms o-ran-lbm RW- (1/2)'',
      Rule ''nms-o-ran-lbm-deny-exec'' ''o-ran-lbm'' ''exec''
        ''deny'' ''nms o-ran-lbm RW- (2/2)'',
      Rule ''nms-o-ran-module-cap'' ''o-ran-module-cap'' ''exec''
        ''deny'' ''nms o-ran-module-cap R--'',
      Rule ''nms-o-ran-mplane-int-permit-write'' ''o-ran-mplane-int'' ''create update delete''
        ''permit'' ''nms o-ran-mplane-int RW- (1/2)'',
      Rule ''nms-o-ran-mplane-int-deny-exec'' ''o-ran-mplane-int'' ''exec''
        ''deny'' ''nms o-ran-mplane-int RW- (2/2)'',
      Rule ''nms-o-ran-operations-permit-write'' ''o-ran-operations'' ''create update delete''
        ''permit'' ''nms o-ran-operations RW- (1/2)'']"

definition nms_rules_5 :: "nacm_rule list" where
  "nms_rules_5 =
     [Rule ''nms-o-ran-operations-deny-exec'' ''o-ran-operations'' ''exec''
        ''deny'' ''nms o-ran-operations RW- (2/2)'',
      Rule ''nms-o-ran-performance-management'' ''o-ran-performance-management'' ''create update delete''
        ''permit'' ''nms o-ran-performance-management RWX'',
      Rule ''nms-o-ran-processing-element-permit-write'' ''o-ran-processing-element'' ''create update delete''
        ''permit'' ''nms o-ran-processing-element RW- (1/2)'',
      Rule ''nms-o-ran-processing-element-deny-exec'' ''o-ran-processing-element'' ''exec''
        ''deny'' ''nms o-ran-processing-element RW- (2/2)'',
      Rule ''nms-o-ran-shared-cell-permit-write'' ''o-ran-shared-cell'' ''create update delete''
        ''permit'' ''nms o-ran-shared-cell RW- (1/2)'',
      Rule ''nms-o-ran-shared-cell-deny-exec'' ''o-ran-shared-cell'' ''exec''
        ''deny'' ''nms o-ran-shared-cell RW- (2/2)'',
      Rule ''nms-o-ran-supervision-deny-read'' ''o-ran-supervision'' ''read''
        ''deny'' ''nms o-ran-supervision --- (1/2)'',
      Rule ''nms-o-ran-supervision-deny-exec'' ''o-ran-supervision'' ''exec''
        ''deny'' ''nms o-ran-supervision --- (2/2)'']"

definition nms_rules_6 :: "nacm_rule list" where
  "nms_rules_6 =
     [Rule ''nms-o-ran-sync'' ''o-ran-sync'' ''create update delete''
        ''permit'' ''nms o-ran-sync RWX'',
      Rule ''nms-o-ran-trace'' ''o-ran-trace'' ''read''
        ''deny'' ''nms o-ran-trace --X'',
      Rule ''nms-o-ran-transceiver-permit-write'' ''o-ran-transceiver'' ''create update delete''
        ''permit'' ''nms o-ran-transceiver RW- (1/2)'',
      Rule ''nms-o-ran-transceiver-deny-exec'' ''o-ran-transceiver'' ''exec''
        ''deny'' ''nms o-ran-transceiver RW- (2/2)'',
      Rule ''nms-o-ran-troubleshooting'' ''o-ran-troubleshooting'' ''read''
        ''deny'' ''nms o-ran-troubleshooting --X'',
      Rule ''nms-o-ran-udp-echo'' ''o-ran-udp-echo'' ''exec''
        ''deny'' ''nms o-ran-udp-echo R--'',
      Rule ''nms-o-ran-uplane-conf'' ''o-ran-uplane-conf'' ''create update delete''
        ''permit'' ''nms o-ran-uplane-conf RWX'',
      Rule ''nms-o-ran-usermgmt-deny-read'' ''o-ran-usermgmt'' ''read''
        ''deny'' ''nms o-ran-usermgmt --- (1/2)'',
      Rule ''nms-o-ran-usermgmt-deny-exec'' ''o-ran-usermgmt'' ''exec''
        ''deny'' ''nms o-ran-usermgmt --- (2/2)'']"

definition nms_rules_7 :: "nacm_rule list" where
  "nms_rules_7 =
     [Rule ''nms-o-ran-ves-subscribed-notifications-deny-read'' ''o-ran-ves-subscribed-notifications'' ''read''
        ''deny'' ''nms o-ran-ves-subscribed-notifications --- (1/2)'',
      Rule ''nms-o-ran-ves-subscribed-notifications-deny-exec'' ''o-ran-ves-subscribed-notifications'' ''exec''
        ''deny'' ''nms o-ran-ves-subscribed-notifications --- (2/2)'']"

definition nms_rules :: "nacm_rule list" where
  "nms_rules = nms_rules_1 @ nms_rules_2 @ nms_rules_3 @ nms_rules_4 @ nms_rules_5 @ nms_rules_6 @ nms_rules_7"

section \<open>The group \<open>fm-pm\<close>: \<open>addFmpmRules\<close>\<close>

definition fmpm_rules_1 :: "nacm_rule list" where
  "fmpm_rules_1 =
     [Rule ''fm-pm-ietf-interfaces'' ''ietf-interfaces'' ''exec''
        ''deny'' ''fm-pm ietf-interfaces R--'',
      Rule ''fm-pm-ietf-ip'' ''ietf-ip'' ''exec''
        ''deny'' ''fm-pm ietf-ip R--'',
      Rule ''fm-pm-ietf-netconf-acm'' ''ietf-netconf-acm'' ''exec''
        ''deny'' ''fm-pm ietf-netconf-acm R--'',
      Rule ''fm-pm-ietf-netconf-notifications'' ''ietf-netconf-notifications'' ''read''
        ''deny'' ''fm-pm ietf-netconf-notifications --X'',
      Rule ''fm-pm-ietf-subscribed-notifications-deny-read'' ''ietf-subscribed-notifications'' ''read''
        ''deny'' ''fm-pm ietf-subscribed-notifications --- (1/2)'',
      Rule ''fm-pm-ietf-subscribed-notifications-deny-exec'' ''ietf-subscribed-notifications'' ''exec''
        ''deny'' ''fm-pm ietf-subscribed-notifications --- (2/2)'',
      Rule ''fm-pm-o-ran-ald-deny-read'' ''o-ran-ald'' ''read''
        ''deny'' ''fm-pm o-ran-ald --- (1/2)'',
      Rule ''fm-pm-o-ran-ald-deny-exec'' ''o-ran-ald'' ''exec''
        ''deny'' ''fm-pm o-ran-ald --- (2/2)'',
      Rule ''fm-pm-o-ran-ald-port-deny-read'' ''o-ran-ald-port'' ''read''
        ''deny'' ''fm-pm o-ran-ald-port --- (1/2)'']"

definition fmpm_rules_2 :: "nacm_rule list" where
  "fmpm_rules_2 =
     [Rule ''fm-pm-o-ran-ald-port-deny-exec'' ''o-ran-ald-port'' ''exec''
        ''deny'' ''fm-pm o-ran-ald-port --- (2/2)'',
      Rule ''fm-pm-o-ran-antenna-calibration-deny-read'' ''o-ran-antenna-calibration'' ''read''
        ''deny'' ''fm-pm o-ran-antenna-calibration --- (1/2)'',
      Rule ''fm-pm-o-ran-antenna-calibration-deny-exec'' ''o-ran-antenna-calibration'' ''exec''
        ''deny'' ''fm-pm o-ran-antenna-calibration --- (2/2)'',
      Rule ''fm-pm-o-ran-beamforming'' ''o-ran-beamforming'' ''exec''
        ''deny'' ''fm-pm o-ran-beamforming R--'',
      Rule ''fm-pm-o-ran-delay-management'' ''o-ran-delay-management'' ''exec''
        ''deny'' ''fm-pm o-ran-delay-management R--'',
      Rule ''fm-pm-o-ran-dhcp'' ''o-ran-dhcp'' ''exec''
        ''deny'' ''fm-pm o-ran-dhcp R--'',
      Rule ''fm-pm-o-ran-ecpri-delay'' ''o-ran-ecpri-delay'' ''exec''
        ''deny'' ''fm-pm o-ran-ecpri-delay R--'',
      Rule ''fm-pm-o-ran-ethernet-forwarding-deny-read'' ''o-ran-ethernet-forwarding'' ''read''
        ''deny'' ''fm-pm o-ran-ethernet-forwarding --- (1/2)'']"

definition fmpm_rules_3 :: "nacm_rule list" where
  "fmpm_rules_3 =
     [Rule ''fm-pm-o-ran-ethernet-forwarding-deny-exec'' ''o-ran-ethernet-forwarding'' ''exec''
        ''deny'' ''fm-pm o-ran-ethernet-forwarding --- (2/2)'',
      Rule ''fm-pm-o-ran-externalio-deny-read'' ''o-ran-externalio'' ''read''
        ''deny'' ''fm-pm o-ran-externalio --- (1/2)'',
      Rule ''fm-pm-o-ran-externalio-deny-exec'' ''o-ran-externalio'' ''exec''
        ''deny'' ''fm-pm o-ran-externalio --- (2/2)'',
      Rule ''fm-pm-o-ran-fan'' ''o-ran-fan'' ''exec''
        ''deny'' ''fm-pm o-ran-fan R--'',
      Rule ''fm-pm-o-ran-file-management'' ''o-ran-file-management'' ''read''
        ''deny'' ''fm-pm o-ran-file-management --X'',
      Rule ''fm-pm-o-ran-hardware-deny-read'' ''o-ran-hardware'' ''read''
        ''deny'' ''fm-pm o-ran-hardware --- (1/2)'',
      Rule ''fm-pm-o-ran-hardware-deny-exec'' ''o-ran-hardware'' ''exec''
        ''deny'' ''fm-pm o-ran-hardware --- (2/2)'',
      Rule ''fm-pm-o-ran-interfaces'' ''o-ran-interfaces'' ''exec''
        ''deny'' ''fm-pm o-ran-interfaces R--'',
      Rule ''fm-pm-o-ran-laa-deny-read'' ''o-ran-laa'' ''read''
        ''deny'' ''fm-pm o-ran-laa --- (1/2)'']"

definition fmpm_rules_4 :: "nacm_rule list" where
  "fmpm_rules_4 =
     [Rule ''fm-pm-o-ran-laa-deny-exec'' ''o-ran-laa'' ''exec''
        ''deny'' ''fm-pm o-ran-laa --- (2/2)'',
      Rule ''fm-pm-o-ran-laa-operations-deny-read'' ''o-ran-laa-operations'' ''read''
        ''deny'' ''fm-pm o-ran-laa-operations --- (1/2)'',
      Rule ''fm-pm-o-ran-laa-operations-deny-exec'' ''o-ran-laa-operations'' ''exec''
        ''deny'' ''fm-pm o-ran-laa-operations --- (2/2)'',
      Rule ''fm-pm-o-ran-lbm'' ''o-ran-lbm'' ''exec''
        ''deny'' ''fm-pm o-ran-lbm R--'',
      Rule ''fm-pm-o-ran-module-cap'' ''o-ran-module-cap'' ''exec''
        ''deny'' ''fm-pm o-ran-module-cap R--'',
      Rule ''fm-pm-o-ran-mplane-int'' ''o-ran-mplane-int'' ''exec''
        ''deny'' ''fm-pm o-ran-mplane-int R--'',
      Rule ''fm-pm-o-ran-operations'' ''o-ran-operations'' ''exec''
        ''deny'' ''fm-pm o-ran-operations R--'',
      Rule ''fm-pm-o-ran-performance-management'' ''o-ran-performance-management'' ''create update delete''
        ''permit'' ''fm-pm o-ran-performance-management RWX'',
      Rule ''fm-pm-o-ran-processing-element'' ''o-ran-processing-element'' ''exec''
        ''deny'' ''fm-pm o-ran-processing-element R--'']"

definition fmpm_rules_5 :: "nacm_rule list" where
  "fmpm_rules_5 =
     [Rule ''fm-pm-o-ran-shared-cell-deny-read'' ''o-ran-shared-cell'' ''read''
        ''deny'' ''fm-pm o-ran-shared-cell --- (1/2)'',
      Rule ''fm-pm-o-ran-shared-cell-deny-exec'' ''o-ran-shared-cell'' ''exec''
        ''deny'' ''fm-pm o-ran-shared-cell --- (2/2)'',
      Rule ''fm-pm-o-ran-software-management'' ''o-ran-software-management'' ''exec''
        ''deny'' ''fm-pm o-ran-software-management R--'',
      Rule ''fm-pm-o-ran-supervision-deny-read'' ''o-ran-supervision'' ''read''
        ''deny'' ''fm-pm o-ran-supervision --- (1/2)'',
      Rule ''fm-pm-o-ran-supervision-deny-exec'' ''o-ran-supervision'' ''exec''
        ''deny'' ''fm-pm o-ran-supervision --- (2/2)'',
      Rule ''fm-pm-o-ran-sync'' ''o-ran-sync'' ''exec''
        ''deny'' ''fm-pm o-ran-sync R--'',
      Rule ''fm-pm-o-ran-trace'' ''o-ran-trace'' ''read''
        ''deny'' ''fm-pm o-ran-trace --X'',
      Rule ''fm-pm-o-ran-transceiver'' ''o-ran-transceiver'' ''exec''
        ''deny'' ''fm-pm o-ran-transceiver R--'',
      Rule ''fm-pm-o-ran-troubleshooting'' ''o-ran-troubleshooting'' ''read''
        ''deny'' ''fm-pm o-ran-troubleshooting --X'']"

definition fmpm_rules_6 :: "nacm_rule list" where
  "fmpm_rules_6 =
     [Rule ''fm-pm-o-ran-udp-echo-deny-read'' ''o-ran-udp-echo'' ''read''
        ''deny'' ''fm-pm o-ran-udp-echo --- (1/2)'',
      Rule ''fm-pm-o-ran-udp-echo-deny-exec'' ''o-ran-udp-echo'' ''exec''
        ''deny'' ''fm-pm o-ran-udp-echo --- (2/2)'',
      Rule ''fm-pm-o-ran-uplane-conf'' ''o-ran-uplane-conf'' ''exec''
        ''deny'' ''fm-pm o-ran-uplane-conf R--'',
      Rule ''fm-pm-o-ran-usermgmt-deny-read'' ''o-ran-usermgmt'' ''read''
        ''deny'' ''fm-pm o-ran-usermgmt --- (1/2)'',
      Rule ''fm-pm-o-ran-usermgmt-deny-exec'' ''o-ran-usermgmt'' ''exec''
        ''deny'' ''fm-pm o-ran-usermgmt --- (2/2)'',
      Rule ''fm-pm-o-ran-ves-subscribed-notifications-deny-read'' ''o-ran-ves-subscribed-notifications'' ''read''
        ''deny'' ''fm-pm o-ran-ves-subscribed-notifications --- (1/2)'',
      Rule ''fm-pm-o-ran-ves-subscribed-notifications-deny-exec'' ''o-ran-ves-subscribed-notifications'' ''exec''
        ''deny'' ''fm-pm o-ran-ves-subscribed-notifications --- (2/2)'']"

definition fmpm_rules :: "nacm_rule list" where
  "fmpm_rules = fmpm_rules_1 @ fmpm_rules_2 @ fmpm_rules_3 @ fmpm_rules_4 @ fmpm_rules_5 @ fmpm_rules_6"

section \<open>The group \<open>swm\<close>: \<open>addSwmRules\<close>\<close>

definition swm_rules_1 :: "nacm_rule list" where
  "swm_rules_1 =
     [Rule ''swm-iana-hardware-deny-read'' ''iana-hardware'' ''read''
        ''deny'' ''swm iana-hardware --- (1/2)'',
      Rule ''swm-iana-hardware-deny-exec'' ''iana-hardware'' ''exec''
        ''deny'' ''swm iana-hardware --- (2/2)'',
      Rule ''swm-ietf-hardware-deny-read'' ''ietf-hardware'' ''read''
        ''deny'' ''swm ietf-hardware --- (1/2)'',
      Rule ''swm-ietf-hardware-deny-exec'' ''ietf-hardware'' ''exec''
        ''deny'' ''swm ietf-hardware --- (2/2)'',
      Rule ''swm-ietf-interfaces-deny-read'' ''ietf-interfaces'' ''read''
        ''deny'' ''swm ietf-interfaces --- (1/2)'',
      Rule ''swm-ietf-interfaces-deny-exec'' ''ietf-interfaces'' ''exec''
        ''deny'' ''swm ietf-interfaces --- (2/2)'',
      Rule ''swm-ietf-ip-deny-read'' ''ietf-ip'' ''read''
        ''deny'' ''swm ietf-ip --- (1/2)'',
      Rule ''swm-ietf-ip-deny-exec'' ''ietf-ip'' ''exec''
        ''deny'' ''swm ietf-ip --- (2/2)'',
      Rule ''swm-ietf-netconf-acm'' ''ietf-netconf-acm'' ''exec''
        ''deny'' ''swm ietf-netconf-acm R--'']"

definition swm_rules_2 :: "nacm_rule list" where
  "swm_rules_2 =
     [Rule ''swm-ietf-netconf-notifications'' ''ietf-netconf-notifications'' ''read''
        ''deny'' ''swm ietf-netconf-notifications --X'',
      Rule ''swm-ietf-subscribed-notifications-deny-read'' ''ietf-subscribed-notifications'' ''read''
        ''deny'' ''swm ietf-subscribed-notifications --- (1/2)'',
      Rule ''swm-ietf-subscribed-notifications-deny-exec'' ''ietf-subscribed-notifications'' ''exec''
        ''deny'' ''swm ietf-subscribed-notifications --- (2/2)'',
      Rule ''swm-o-ran-ald-deny-read'' ''o-ran-ald'' ''read''
        ''deny'' ''swm o-ran-ald --- (1/2)'',
      Rule ''swm-o-ran-ald-deny-exec'' ''o-ran-ald'' ''exec''
        ''deny'' ''swm o-ran-ald --- (2/2)'',
      Rule ''swm-o-ran-ald-port-deny-read'' ''o-ran-ald-port'' ''read''
        ''deny'' ''swm o-ran-ald-port --- (1/2)'',
      Rule ''swm-o-ran-ald-port-deny-exec'' ''o-ran-ald-port'' ''exec''
        ''deny'' ''swm o-ran-ald-port --- (2/2)'',
      Rule ''swm-o-ran-antenna-calibration-deny-read'' ''o-ran-antenna-calibration'' ''read''
        ''deny'' ''swm o-ran-antenna-calibration --- (1/2)'']"

definition swm_rules_3 :: "nacm_rule list" where
  "swm_rules_3 =
     [Rule ''swm-o-ran-antenna-calibration-deny-exec'' ''o-ran-antenna-calibration'' ''exec''
        ''deny'' ''swm o-ran-antenna-calibration --- (2/2)'',
      Rule ''swm-o-ran-beamforming-deny-read'' ''o-ran-beamforming'' ''read''
        ''deny'' ''swm o-ran-beamforming --- (1/2)'',
      Rule ''swm-o-ran-beamforming-deny-exec'' ''o-ran-beamforming'' ''exec''
        ''deny'' ''swm o-ran-beamforming --- (2/2)'',
      Rule ''swm-o-ran-delay-management-deny-read'' ''o-ran-delay-management'' ''read''
        ''deny'' ''swm o-ran-delay-management --- (1/2)'',
      Rule ''swm-o-ran-delay-management-deny-exec'' ''o-ran-delay-management'' ''exec''
        ''deny'' ''swm o-ran-delay-management --- (2/2)'',
      Rule ''swm-o-ran-dhcp-deny-read'' ''o-ran-dhcp'' ''read''
        ''deny'' ''swm o-ran-dhcp --- (1/2)'',
      Rule ''swm-o-ran-dhcp-deny-exec'' ''o-ran-dhcp'' ''exec''
        ''deny'' ''swm o-ran-dhcp --- (2/2)'',
      Rule ''swm-o-ran-ecpri-delay-deny-read'' ''o-ran-ecpri-delay'' ''read''
        ''deny'' ''swm o-ran-ecpri-delay --- (1/2)'']"

definition swm_rules_4 :: "nacm_rule list" where
  "swm_rules_4 =
     [Rule ''swm-o-ran-ecpri-delay-deny-exec'' ''o-ran-ecpri-delay'' ''exec''
        ''deny'' ''swm o-ran-ecpri-delay --- (2/2)'',
      Rule ''swm-o-ran-ethernet-forwarding-deny-read'' ''o-ran-ethernet-forwarding'' ''read''
        ''deny'' ''swm o-ran-ethernet-forwarding --- (1/2)'',
      Rule ''swm-o-ran-ethernet-forwarding-deny-exec'' ''o-ran-ethernet-forwarding'' ''exec''
        ''deny'' ''swm o-ran-ethernet-forwarding --- (2/2)'',
      Rule ''swm-o-ran-externalio-deny-read'' ''o-ran-externalio'' ''read''
        ''deny'' ''swm o-ran-externalio --- (1/2)'',
      Rule ''swm-o-ran-externalio-deny-exec'' ''o-ran-externalio'' ''exec''
        ''deny'' ''swm o-ran-externalio --- (2/2)'',
      Rule ''swm-o-ran-fan-deny-read'' ''o-ran-fan'' ''read''
        ''deny'' ''swm o-ran-fan --- (1/2)'',
      Rule ''swm-o-ran-fan-deny-exec'' ''o-ran-fan'' ''exec''
        ''deny'' ''swm o-ran-fan --- (2/2)'',
      Rule ''swm-o-ran-file-management-deny-read'' ''o-ran-file-management'' ''read''
        ''deny'' ''swm o-ran-file-management --- (1/2)'']"

definition swm_rules_5 :: "nacm_rule list" where
  "swm_rules_5 =
     [Rule ''swm-o-ran-file-management-deny-exec'' ''o-ran-file-management'' ''exec''
        ''deny'' ''swm o-ran-file-management --- (2/2)'',
      Rule ''swm-o-ran-fm-deny-read'' ''o-ran-fm'' ''read''
        ''deny'' ''swm o-ran-fm --- (1/2)'',
      Rule ''swm-o-ran-fm-deny-exec'' ''o-ran-fm'' ''exec''
        ''deny'' ''swm o-ran-fm --- (2/2)'',
      Rule ''swm-o-ran-hardware-deny-read'' ''o-ran-hardware'' ''read''
        ''deny'' ''swm o-ran-hardware --- (1/2)'',
      Rule ''swm-o-ran-hardware-deny-exec'' ''o-ran-hardware'' ''exec''
        ''deny'' ''swm o-ran-hardware --- (2/2)'',
      Rule ''swm-o-ran-interfaces-deny-read'' ''o-ran-interfaces'' ''read''
        ''deny'' ''swm o-ran-interfaces --- (1/2)'',
      Rule ''swm-o-ran-interfaces-deny-exec'' ''o-ran-interfaces'' ''exec''
        ''deny'' ''swm o-ran-interfaces --- (2/2)'',
      Rule ''swm-o-ran-laa-deny-read'' ''o-ran-laa'' ''read''
        ''deny'' ''swm o-ran-laa --- (1/2)'',
      Rule ''swm-o-ran-laa-deny-exec'' ''o-ran-laa'' ''exec''
        ''deny'' ''swm o-ran-laa --- (2/2)'']"

definition swm_rules_6 :: "nacm_rule list" where
  "swm_rules_6 =
     [Rule ''swm-o-ran-laa-operations-deny-read'' ''o-ran-laa-operations'' ''read''
        ''deny'' ''swm o-ran-laa-operations --- (1/2)'',
      Rule ''swm-o-ran-laa-operations-deny-exec'' ''o-ran-laa-operations'' ''exec''
        ''deny'' ''swm o-ran-laa-operations --- (2/2)'',
      Rule ''swm-o-ran-lbm-deny-read'' ''o-ran-lbm'' ''read''
        ''deny'' ''swm o-ran-lbm --- (1/2)'',
      Rule ''swm-o-ran-lbm-deny-exec'' ''o-ran-lbm'' ''exec''
        ''deny'' ''swm o-ran-lbm --- (2/2)'',
      Rule ''swm-o-ran-module-cap-deny-read'' ''o-ran-module-cap'' ''read''
        ''deny'' ''swm o-ran-module-cap --- (1/2)'',
      Rule ''swm-o-ran-module-cap-deny-exec'' ''o-ran-module-cap'' ''exec''
        ''deny'' ''swm o-ran-module-cap --- (2/2)'',
      Rule ''swm-o-ran-mplane-int-deny-read'' ''o-ran-mplane-int'' ''read''
        ''deny'' ''swm o-ran-mplane-int --- (1/2)'',
      Rule ''swm-o-ran-mplane-int-deny-exec'' ''o-ran-mplane-int'' ''exec''
        ''deny'' ''swm o-ran-mplane-int --- (2/2)'']"

definition swm_rules_7 :: "nacm_rule list" where
  "swm_rules_7 =
     [Rule ''swm-o-ran-operations-deny-read'' ''o-ran-operations'' ''read''
        ''deny'' ''swm o-ran-operations --- (1/2)'',
      Rule ''swm-o-ran-operations-deny-exec'' ''o-ran-operations'' ''exec''
        ''deny'' ''swm o-ran-operations --- (2/2)'',
      Rule ''swm-o-ran-performance-management-deny-read'' ''o-ran-performance-management'' ''read''
        ''deny'' ''swm o-ran-performance-management --- (1/2)'',
      Rule ''swm-o-ran-performance-management-deny-exec'' ''o-ran-performance-management'' ''exec''
        ''deny'' ''swm o-ran-performance-management --- (2/2)'',
      Rule ''swm-o-ran-processing-element-deny-read'' ''o-ran-processing-element'' ''read''
        ''deny'' ''swm o-ran-processing-element --- (1/2)'',
      Rule ''swm-o-ran-processing-element-deny-exec'' ''o-ran-processing-element'' ''exec''
        ''deny'' ''swm o-ran-processing-element --- (2/2)'',
      Rule ''swm-o-ran-shared-cell-deny-read'' ''o-ran-shared-cell'' ''read''
        ''deny'' ''swm o-ran-shared-cell --- (1/2)'',
      Rule ''swm-o-ran-shared-cell-deny-exec'' ''o-ran-shared-cell'' ''exec''
        ''deny'' ''swm o-ran-shared-cell --- (2/2)'']"

definition swm_rules_8 :: "nacm_rule list" where
  "swm_rules_8 =
     [Rule ''swm-o-ran-supervision-deny-read'' ''o-ran-supervision'' ''read''
        ''deny'' ''swm o-ran-supervision --- (1/2)'',
      Rule ''swm-o-ran-supervision-deny-exec'' ''o-ran-supervision'' ''exec''
        ''deny'' ''swm o-ran-supervision --- (2/2)'',
      Rule ''swm-o-ran-sync-deny-read'' ''o-ran-sync'' ''read''
        ''deny'' ''swm o-ran-sync --- (1/2)'',
      Rule ''swm-o-ran-sync-deny-exec'' ''o-ran-sync'' ''exec''
        ''deny'' ''swm o-ran-sync --- (2/2)'',
      Rule ''swm-o-ran-trace-deny-read'' ''o-ran-trace'' ''read''
        ''deny'' ''swm o-ran-trace --- (1/2)'',
      Rule ''swm-o-ran-trace-deny-exec'' ''o-ran-trace'' ''exec''
        ''deny'' ''swm o-ran-trace --- (2/2)'',
      Rule ''swm-o-ran-transceiver-deny-read'' ''o-ran-transceiver'' ''read''
        ''deny'' ''swm o-ran-transceiver --- (1/2)'',
      Rule ''swm-o-ran-transceiver-deny-exec'' ''o-ran-transceiver'' ''exec''
        ''deny'' ''swm o-ran-transceiver --- (2/2)'',
      Rule ''swm-o-ran-troubleshooting-deny-read'' ''o-ran-troubleshooting'' ''read''
        ''deny'' ''swm o-ran-troubleshooting --- (1/2)'']"

definition swm_rules_9 :: "nacm_rule list" where
  "swm_rules_9 =
     [Rule ''swm-o-ran-troubleshooting-deny-exec'' ''o-ran-troubleshooting'' ''exec''
        ''deny'' ''swm o-ran-troubleshooting --- (2/2)'',
      Rule ''swm-o-ran-udp-echo-deny-read'' ''o-ran-udp-echo'' ''read''
        ''deny'' ''swm o-ran-udp-echo --- (1/2)'',
      Rule ''swm-o-ran-udp-echo-deny-exec'' ''o-ran-udp-echo'' ''exec''
        ''deny'' ''swm o-ran-udp-echo --- (2/2)'',
      Rule ''swm-o-ran-uplane-conf-deny-read'' ''o-ran-uplane-conf'' ''read''
        ''deny'' ''swm o-ran-uplane-conf --- (1/2)'',
      Rule ''swm-o-ran-uplane-conf-deny-exec'' ''o-ran-uplane-conf'' ''exec''
        ''deny'' ''swm o-ran-uplane-conf --- (2/2)'',
      Rule ''swm-o-ran-usermgmt-deny-read'' ''o-ran-usermgmt'' ''read''
        ''deny'' ''swm o-ran-usermgmt --- (1/2)'',
      Rule ''swm-o-ran-usermgmt-deny-exec'' ''o-ran-usermgmt'' ''exec''
        ''deny'' ''swm o-ran-usermgmt --- (2/2)'',
      Rule ''swm-o-ran-ves-subscribed-notifications-deny-read'' ''o-ran-ves-subscribed-notifications'' ''read''
        ''deny'' ''swm o-ran-ves-subscribed-notifications --- (1/2)'']"

definition swm_rules_10 :: "nacm_rule list" where
  "swm_rules_10 =
     [Rule ''swm-o-ran-ves-subscribed-notifications-deny-exec'' ''o-ran-ves-subscribed-notifications'' ''exec''
        ''deny'' ''swm o-ran-ves-subscribed-notifications --- (2/2)'']"

definition swm_rules :: "nacm_rule list" where
  "swm_rules = swm_rules_1 @ swm_rules_2 @ swm_rules_3 @ swm_rules_4 @ swm_rules_5 @ swm_rules_6 @ swm_rules_7 @ swm_rules_8 @ swm_rules_9 @ swm_rules_10"

section \<open>The group \<open>smo\<close>: \<open>addSmoRules\<close>\<close>

definition smo_rules_1 :: "nacm_rule list" where
  "smo_rules_1 =
     [Rule ''smo-iana-hardware'' ''iana-hardware'' ''exec''
        ''deny'' ''smo iana-hardware R--'',
      Rule ''smo-ietf-hardware'' ''ietf-hardware'' ''create update delete''
        ''permit'' ''smo ietf-hardware RWX'',
      Rule ''smo-ietf-interfaces-permit-write'' ''ietf-interfaces'' ''create update delete''
        ''permit'' ''smo ietf-interfaces RW- (1/2)'',
      Rule ''smo-ietf-interfaces-deny-exec'' ''ietf-interfaces'' ''exec''
        ''deny'' ''smo ietf-interfaces RW- (2/2)'',
      Rule ''smo-ietf-ip-permit-write'' ''ietf-ip'' ''create update delete''
        ''permit'' ''smo ietf-ip RW- (1/2)'',
      Rule ''smo-ietf-ip-deny-exec'' ''ietf-ip'' ''exec''
        ''deny'' ''smo ietf-ip RW- (2/2)'',
      Rule ''smo-ietf-netconf-acm-permit-write'' ''ietf-netconf-acm'' ''create update delete''
        ''permit'' ''smo ietf-netconf-acm RW- (1/2)'',
      Rule ''smo-ietf-netconf-acm-deny-exec'' ''ietf-netconf-acm'' ''exec''
        ''deny'' ''smo ietf-netconf-acm RW- (2/2)'',
      Rule ''smo-ietf-netconf-notifications'' ''ietf-netconf-notifications'' ''read''
        ''deny'' ''smo ietf-netconf-notifications --X'']"

definition smo_rules_2 :: "nacm_rule list" where
  "smo_rules_2 =
     [Rule ''smo-ietf-subscribed-notifications'' ''ietf-subscribed-notifications'' ''create update delete''
        ''permit'' ''smo ietf-subscribed-notifications RWX'',
      Rule ''smo-o-ran-ald'' ''o-ran-ald'' ''read''
        ''deny'' ''smo o-ran-ald --X'',
      Rule ''smo-o-ran-ald-port'' ''o-ran-ald-port'' ''create update delete''
        ''permit'' ''smo o-ran-ald-port RWX'',
      Rule ''smo-o-ran-antenna-calibration'' ''o-ran-antenna-calibration'' ''exec''
        ''deny'' ''smo o-ran-antenna-calibration R--'',
      Rule ''smo-o-ran-beamforming'' ''o-ran-beamforming'' ''exec''
        ''deny'' ''smo o-ran-beamforming R--'',
      Rule ''smo-o-ran-delay-management'' ''o-ran-delay-management'' ''exec''
        ''deny'' ''smo o-ran-delay-management R--'',
      Rule ''smo-o-ran-dhcp'' ''o-ran-dhcp'' ''exec''
        ''deny'' ''smo o-ran-dhcp R--'',
      Rule ''smo-o-ran-ecpri-delay'' ''o-ran-ecpri-delay'' ''exec''
        ''deny'' ''smo o-ran-ecpri-delay R--'',
      Rule ''smo-o-ran-ethernet-forwarding-permit-write'' ''o-ran-ethernet-forwarding'' ''create update delete''
        ''permit'' ''smo o-ran-ethernet-forwarding RW- (1/2)'']"

definition smo_rules_3 :: "nacm_rule list" where
  "smo_rules_3 =
     [Rule ''smo-o-ran-ethernet-forwarding-deny-exec'' ''o-ran-ethernet-forwarding'' ''exec''
        ''deny'' ''smo o-ran-ethernet-forwarding RW- (2/2)'',
      Rule ''smo-o-ran-externalio'' ''o-ran-externalio'' ''create update delete''
        ''permit'' ''smo o-ran-externalio RWX'',
      Rule ''smo-o-ran-fan'' ''o-ran-fan'' ''exec''
        ''deny'' ''smo o-ran-fan R--'',
      Rule ''smo-o-ran-file-management'' ''o-ran-file-management'' ''read''
        ''deny'' ''smo o-ran-file-management --X'',
      Rule ''smo-o-ran-hardware-permit-write'' ''o-ran-hardware'' ''create update delete''
        ''permit'' ''smo o-ran-hardware RW- (1/2)'',
      Rule ''smo-o-ran-hardware-deny-exec'' ''o-ran-hardware'' ''exec''
        ''deny'' ''smo o-ran-hardware RW- (2/2)'',
      Rule ''smo-o-ran-interfaces'' ''o-ran-interfaces'' ''create update delete''
        ''permit'' ''smo o-ran-interfaces RWX'',
      Rule ''smo-o-ran-laa'' ''o-ran-laa'' ''exec''
        ''deny'' ''smo o-ran-laa R--'',
      Rule ''smo-o-ran-laa-operations-deny-read'' ''o-ran-laa-operations'' ''read''
        ''deny'' ''smo o-ran-laa-operations --- (1/2)'']"

definition smo_rules_4 :: "nacm_rule list" where
  "smo_rules_4 =
     [Rule ''smo-o-ran-laa-operations-deny-exec'' ''o-ran-laa-operations'' ''exec''
        ''deny'' ''smo o-ran-laa-operations --- (2/2)'',
      Rule ''smo-o-ran-lbm-permit-write'' ''o-ran-lbm'' ''create update delete''
        ''permit'' ''smo o-ran-lbm RW- (1/2)'',
      Rule ''smo-o-ran-lbm-deny-exec'' ''o-ran-lbm'' ''exec''
        ''deny'' ''smo o-ran-lbm RW- (2/2)'',
      Rule ''smo-o-ran-module-cap'' ''o-ran-module-cap'' ''exec''
        ''deny'' ''smo o-ran-module-cap R--'',
      Rule ''smo-o-ran-mplane-int-permit-write'' ''o-ran-mplane-int'' ''create update delete''
        ''permit'' ''smo o-ran-mplane-int RW- (1/2)'',
      Rule ''smo-o-ran-mplane-int-deny-exec'' ''o-ran-mplane-int'' ''exec''
        ''deny'' ''smo o-ran-mplane-int RW- (2/2)'',
      Rule ''smo-o-ran-operations'' ''o-ran-operations'' ''create update delete''
        ''permit'' ''smo o-ran-operations RWX'',
      Rule ''smo-o-ran-performance-management'' ''o-ran-performance-management'' ''create update delete''
        ''permit'' ''smo o-ran-performance-management RWX'',
      Rule ''smo-o-ran-processing-element-permit-write'' ''o-ran-processing-element'' ''create update delete''
        ''permit'' ''smo o-ran-processing-element RW- (1/2)'']"

definition smo_rules_5 :: "nacm_rule list" where
  "smo_rules_5 =
     [Rule ''smo-o-ran-processing-element-deny-exec'' ''o-ran-processing-element'' ''exec''
        ''deny'' ''smo o-ran-processing-element RW- (2/2)'',
      Rule ''smo-o-ran-shared-cell'' ''o-ran-shared-cell'' ''exec''
        ''deny'' ''smo o-ran-shared-cell R--'',
      Rule ''smo-o-ran-supervision-permit-write'' ''o-ran-supervision'' ''create update delete''
        ''permit'' ''smo o-ran-supervision RW- (1/2)'',
      Rule ''smo-o-ran-supervision-deny-exec'' ''o-ran-supervision'' ''exec''
        ''deny'' ''smo o-ran-supervision RW- (2/2)'',
      Rule ''smo-o-ran-sync'' ''o-ran-sync'' ''create update delete''
        ''permit'' ''smo o-ran-sync RWX'',
      Rule ''smo-o-ran-trace'' ''o-ran-trace'' ''read''
        ''deny'' ''smo o-ran-trace --X'',
      Rule ''smo-o-ran-transceiver-permit-write'' ''o-ran-transceiver'' ''create update delete''
        ''permit'' ''smo o-ran-transceiver RW- (1/2)'',
      Rule ''smo-o-ran-transceiver-deny-exec'' ''o-ran-transceiver'' ''exec''
        ''deny'' ''smo o-ran-transceiver RW- (2/2)'',
      Rule ''smo-o-ran-troubleshooting'' ''o-ran-troubleshooting'' ''read''
        ''deny'' ''smo o-ran-troubleshooting --X'']"

definition smo_rules_6 :: "nacm_rule list" where
  "smo_rules_6 =
     [Rule ''smo-o-ran-udp-echo-permit-write'' ''o-ran-udp-echo'' ''create update delete''
        ''permit'' ''smo o-ran-udp-echo RW- (1/2)'',
      Rule ''smo-o-ran-udp-echo-deny-exec'' ''o-ran-udp-echo'' ''exec''
        ''deny'' ''smo o-ran-udp-echo RW- (2/2)'',
      Rule ''smo-o-ran-uplane-conf'' ''o-ran-uplane-conf'' ''exec''
        ''deny'' ''smo o-ran-uplane-conf R--'',
      Rule ''smo-o-ran-usermgmt'' ''o-ran-usermgmt'' ''create update delete''
        ''permit'' ''smo o-ran-usermgmt RWX'',
      Rule ''smo-o-ran-ves-subscribed-notifications-permit-write'' ''o-ran-ves-subscribed-notifications'' ''create update delete''
        ''permit'' ''smo o-ran-ves-subscribed-notifications RW- (1/2)'',
      Rule ''smo-o-ran-ves-subscribed-notifications-deny-exec'' ''o-ran-ves-subscribed-notifications'' ''exec''
        ''deny'' ''smo o-ran-ves-subscribed-notifications RW- (2/2)'']"

definition smo_rules :: "nacm_rule list" where
  "smo_rules = smo_rules_1 @ smo_rules_2 @ smo_rules_3 @ smo_rules_4 @ smo_rules_5 @ smo_rules_6"

section \<open>The group \<open>hybrid-odu\<close>: \<open>addHybridoduRules\<close>\<close>

definition hybridodu_rules_1 :: "nacm_rule list" where
  "hybridodu_rules_1 =
     [Rule ''hybrid-odu-iana-hardware'' ''iana-hardware'' ''exec''
        ''deny'' ''hybrid-odu iana-hardware R--'',
      Rule ''hybrid-odu-ietf-interfaces'' ''ietf-interfaces'' ''exec''
        ''deny'' ''hybrid-odu ietf-interfaces R--'',
      Rule ''hybrid-odu-ietf-ip'' ''ietf-ip'' ''exec''
        ''deny'' ''hybrid-odu ietf-ip R--'',
      Rule ''hybrid-odu-ietf-netconf-acm-permit-write'' ''ietf-netconf-acm'' ''create update delete''
        ''permit'' ''hybrid-odu ietf-netconf-acm RW- (1/2)'',
      Rule ''hybrid-odu-ietf-netconf-acm-deny-exec'' ''ietf-netconf-acm'' ''exec''
        ''deny'' ''hybrid-odu ietf-netconf-acm RW- (2/2)'',
      Rule ''hybrid-odu-ietf-netconf-notifications'' ''ietf-netconf-notifications'' ''read''
        ''deny'' ''hybrid-odu ietf-netconf-notifications --X'',
      Rule ''hybrid-odu-ietf-subscribed-notifications-deny-read'' ''ietf-subscribed-notifications'' ''read''
        ''deny'' ''hybrid-odu ietf-subscribed-notifications --- (1/2)'',
      Rule ''hybrid-odu-ietf-subscribed-notifications-deny-exec'' ''ietf-subscribed-notifications'' ''exec''
        ''deny'' ''hybrid-odu ietf-subscribed-notifications --- (2/2)'']"

definition hybridodu_rules_2 :: "nacm_rule list" where
  "hybridodu_rules_2 =
     [Rule ''hybrid-odu-o-ran-ald'' ''o-ran-ald'' ''read''
        ''deny'' ''hybrid-odu o-ran-ald --X'',
      Rule ''hybrid-odu-o-ran-ald-port'' ''o-ran-ald-port'' ''create update delete''
        ''permit'' ''hybrid-odu o-ran-ald-port RWX'',
      Rule ''hybrid-odu-o-ran-antenna-calibration'' ''o-ran-antenna-calibration'' ''create update delete''
        ''permit'' ''hybrid-odu o-ran-antenna-calibration RWX'',
      Rule ''hybrid-odu-o-ran-delay-management-permit-write'' ''o-ran-delay-management'' ''create update delete''
        ''permit'' ''hybrid-odu o-ran-delay-management RW- (1/2)'',
      Rule ''hybrid-odu-o-ran-delay-management-deny-exec'' ''o-ran-delay-management'' ''exec''
        ''deny'' ''hybrid-odu o-ran-delay-management RW- (2/2)'',
      Rule ''hybrid-odu-o-ran-dhcp'' ''o-ran-dhcp'' ''exec''
        ''deny'' ''hybrid-odu o-ran-dhcp R--'',
      Rule ''hybrid-odu-o-ran-ecpri-delay-permit-write'' ''o-ran-ecpri-delay'' ''create update delete''
        ''permit'' ''hybrid-odu o-ran-ecpri-delay RW- (1/2)'',
      Rule ''hybrid-odu-o-ran-ecpri-delay-deny-exec'' ''o-ran-ecpri-delay'' ''exec''
        ''deny'' ''hybrid-odu o-ran-ecpri-delay RW- (2/2)'']"

definition hybridodu_rules_3 :: "nacm_rule list" where
  "hybridodu_rules_3 =
     [Rule ''hybrid-odu-o-ran-ethernet-forwarding'' ''o-ran-ethernet-forwarding'' ''exec''
        ''deny'' ''hybrid-odu o-ran-ethernet-forwarding R--'',
      Rule ''hybrid-odu-o-ran-externalio'' ''o-ran-externalio'' ''exec''
        ''deny'' ''hybrid-odu o-ran-externalio R--'',
      Rule ''hybrid-odu-o-ran-fan'' ''o-ran-fan'' ''exec''
        ''deny'' ''hybrid-odu o-ran-fan R--'',
      Rule ''hybrid-odu-o-ran-file-management-deny-read'' ''o-ran-file-management'' ''read''
        ''deny'' ''hybrid-odu o-ran-file-management --- (1/2)'',
      Rule ''hybrid-odu-o-ran-file-management-deny-exec'' ''o-ran-file-management'' ''exec''
        ''deny'' ''hybrid-odu o-ran-file-management --- (2/2)'',
      Rule ''hybrid-odu-o-ran-hardware'' ''o-ran-hardware'' ''exec''
        ''deny'' ''hybrid-odu o-ran-hardware R--'',
      Rule ''hybrid-odu-o-ran-interfaces'' ''o-ran-interfaces'' ''exec''
        ''deny'' ''hybrid-odu o-ran-interfaces R--'',
      Rule ''hybrid-odu-o-ran-laa-permit-write'' ''o-ran-laa'' ''create update delete''
        ''permit'' ''hybrid-odu o-ran-laa RW- (1/2)'']"

definition hybridodu_rules_4 :: "nacm_rule list" where
  "hybridodu_rules_4 =
     [Rule ''hybrid-odu-o-ran-laa-deny-exec'' ''o-ran-laa'' ''exec''
        ''deny'' ''hybrid-odu o-ran-laa RW- (2/2)'',
      Rule ''hybrid-odu-o-ran-laa-operations'' ''o-ran-laa-operations'' ''read''
        ''deny'' ''hybrid-odu o-ran-laa-operations --X'',
      Rule ''hybrid-odu-o-ran-lbm'' ''o-ran-lbm'' ''exec''
        ''deny'' ''hybrid-odu o-ran-lbm R--'',
      Rule ''hybrid-odu-o-ran-module-cap-permit-write'' ''o-ran-module-cap'' ''create update delete''
        ''permit'' ''hybrid-odu o-ran-module-cap RW- (1/2)'',
      Rule ''hybrid-odu-o-ran-module-cap-deny-exec'' ''o-ran-module-cap'' ''exec''
        ''deny'' ''hybrid-odu o-ran-module-cap RW- (2/2)'',
      Rule ''hybrid-odu-o-ran-mplane-int'' ''o-ran-mplane-int'' ''exec''
        ''deny'' ''hybrid-odu o-ran-mplane-int R--'',
      Rule ''hybrid-odu-o-ran-operations'' ''o-ran-operations'' ''create update delete''
        ''permit'' ''hybrid-odu o-ran-operations RWX'',
      Rule ''hybrid-odu-o-ran-processing-element-permit-write'' ''o-ran-processing-element'' ''create update delete''
        ''permit'' ''hybrid-odu o-ran-processing-element RW- (1/2)'']"

definition hybridodu_rules_5 :: "nacm_rule list" where
  "hybridodu_rules_5 =
     [Rule ''hybrid-odu-o-ran-processing-element-deny-exec'' ''o-ran-processing-element'' ''exec''
        ''deny'' ''hybrid-odu o-ran-processing-element RW- (2/2)'',
      Rule ''hybrid-odu-o-ran-shared-cell-permit-write'' ''o-ran-shared-cell'' ''create update delete''
        ''permit'' ''hybrid-odu o-ran-shared-cell RW- (1/2)'',
      Rule ''hybrid-odu-o-ran-shared-cell-deny-exec'' ''o-ran-shared-cell'' ''exec''
        ''deny'' ''hybrid-odu o-ran-shared-cell RW- (2/2)'',
      Rule ''hybrid-odu-o-ran-software-management'' ''o-ran-software-management'' ''exec''
        ''deny'' ''hybrid-odu o-ran-software-management R--'',
      Rule ''hybrid-odu-o-ran-supervision'' ''o-ran-supervision'' ''create update delete''
        ''permit'' ''hybrid-odu o-ran-supervision RWX'',
      Rule ''hybrid-odu-o-ran-trace-deny-read'' ''o-ran-trace'' ''read''
        ''deny'' ''hybrid-odu o-ran-trace --- (1/2)'',
      Rule ''hybrid-odu-o-ran-trace-deny-exec'' ''o-ran-trace'' ''exec''
        ''deny'' ''hybrid-odu o-ran-trace --- (2/2)'',
      Rule ''hybrid-odu-o-ran-transceiver'' ''o-ran-transceiver'' ''exec''
        ''deny'' ''hybrid-odu o-ran-transceiver R--'']"

definition hybridodu_rules_6 :: "nacm_rule list" where
  "hybridodu_rules_6 =
     [Rule ''hybrid-odu-o-ran-troubleshooting-deny-read'' ''o-ran-troubleshooting'' ''read''
        ''deny'' ''hybrid-odu o-ran-troubleshooting --- (1/2)'',
      Rule ''hybrid-odu-o-ran-troubleshooting-deny-exec'' ''o-ran-troubleshooting'' ''exec''
        ''deny'' ''hybrid-odu o-ran-troubleshooting --- (2/2)'',
      Rule ''hybrid-odu-o-ran-udp-echo'' ''o-ran-udp-echo'' ''exec''
        ''deny'' ''hybrid-odu o-ran-udp-echo R--'',
      Rule ''hybrid-odu-o-ran-uplane-conf'' ''o-ran-uplane-conf'' ''create update delete''
        ''permit'' ''hybrid-odu o-ran-uplane-conf RWX'',
      Rule ''hybrid-odu-o-ran-usermgmt'' ''o-ran-usermgmt'' ''create update delete''
        ''permit'' ''hybrid-odu o-ran-usermgmt RWX'',
      Rule ''hybrid-odu-o-ran-ves-subscribed-notifications-deny-read'' ''o-ran-ves-subscribed-notifications'' ''read''
        ''deny'' ''hybrid-odu o-ran-ves-subscribed-notifications --- (1/2)'',
      Rule ''hybrid-odu-o-ran-ves-subscribed-notifications-deny-exec'' ''o-ran-ves-subscribed-notifications'' ''exec''
        ''deny'' ''hybrid-odu o-ran-ves-subscribed-notifications --- (2/2)'']"

definition hybridodu_rules :: "nacm_rule list" where
  "hybridodu_rules = hybridodu_rules_1 @ hybridodu_rules_2 @ hybridodu_rules_3 @ hybridodu_rules_4 @ hybridodu_rules_5 @ hybridodu_rules_6"

section \<open>The group \<open>root\<close>: \<open>addRootRules\<close>\<close>

definition root_rules_1 :: "nacm_rule list" where
  "root_rules_1 =
     [Rule ''root-iana-hardware'' ''iana-hardware'' ''create update delete''
        ''permit'' ''root iana-hardware RWX'',
      Rule ''root-ietf-hardware'' ''ietf-hardware'' ''create update delete''
        ''permit'' ''root ietf-hardware RWX'',
      Rule ''root-ietf-interfaces'' ''ietf-interfaces'' ''create update delete''
        ''permit'' ''root ietf-interfaces RWX'',
      Rule ''root-ietf-ip'' ''ietf-ip'' ''create update delete''
        ''permit'' ''root ietf-ip RWX'',
      Rule ''root-ietf-netconf-acm'' ''ietf-netconf-acm'' ''create update delete''
        ''permit'' ''root ietf-netconf-acm RWX'',
      Rule ''root-ietf-netconf-monitoring'' ''ietf-netconf-monitoring'' ''create update delete''
        ''permit'' ''root ietf-netconf-monitoring RWX'',
      Rule ''root-ietf-netconf-notifications'' ''ietf-netconf-notifications'' ''create update delete''
        ''permit'' ''root ietf-netconf-notifications RWX'',
      Rule ''root-ietf-subscribed-notifications'' ''ietf-subscribed-notifications'' ''create update delete''
        ''permit'' ''root ietf-subscribed-notifications RWX'',
      Rule ''root-ietf-yang-library'' ''ietf-yang-library'' ''create update delete''
        ''permit'' ''root ietf-yang-library RWX'']"

definition root_rules_2 :: "nacm_rule list" where
  "root_rules_2 =
     [Rule ''root-o-ran-ald'' ''o-ran-ald'' ''create update delete''
        ''permit'' ''root o-ran-ald RWX'',
      Rule ''root-o-ran-ald-port'' ''o-ran-ald-port'' ''create update delete''
        ''permit'' ''root o-ran-ald-port RWX'',
      Rule ''root-o-ran-antenna-calibration'' ''o-ran-antenna-calibration'' ''create update delete''
        ''permit'' ''root o-ran-antenna-calibration RWX'',
      Rule ''root-o-ran-beamforming'' ''o-ran-beamforming'' ''create update delete''
        ''permit'' ''root o-ran-beamforming RWX'',
      Rule ''root-o-ran-delay-management'' ''o-ran-delay-management'' ''create update delete''
        ''permit'' ''root o-ran-delay-management RWX'',
      Rule ''root-o-ran-dhcp'' ''o-ran-dhcp'' ''create update delete''
        ''permit'' ''root o-ran-dhcp RWX'',
      Rule ''root-o-ran-ecpri-delay'' ''o-ran-ecpri-delay'' ''create update delete''
        ''permit'' ''root o-ran-ecpri-delay RWX'',
      Rule ''root-o-ran-ethernet-forwarding'' ''o-ran-ethernet-forwarding'' ''create update delete''
        ''permit'' ''root o-ran-ethernet-forwarding RWX'',
      Rule ''root-o-ran-externalio'' ''o-ran-externalio'' ''create update delete''
        ''permit'' ''root o-ran-externalio RWX'',
      Rule ''root-o-ran-fan'' ''o-ran-fan'' ''create update delete''
        ''permit'' ''root o-ran-fan RWX'']"

definition root_rules_3 :: "nacm_rule list" where
  "root_rules_3 =
     [Rule ''root-o-ran-file-management'' ''o-ran-file-management'' ''create update delete''
        ''permit'' ''root o-ran-file-management RWX'',
      Rule ''root-o-ran-fm'' ''o-ran-fm'' ''create update delete''
        ''permit'' ''root o-ran-fm RWX'',
      Rule ''root-o-ran-hardware'' ''o-ran-hardware'' ''create update delete''
        ''permit'' ''root o-ran-hardware RWX'',
      Rule ''root-o-ran-interfaces'' ''o-ran-interfaces'' ''create update delete''
        ''permit'' ''root o-ran-interfaces RWX'',
      Rule ''root-o-ran-laa'' ''o-ran-laa'' ''create update delete''
        ''permit'' ''root o-ran-laa RWX'',
      Rule ''root-o-ran-laa-operations'' ''o-ran-laa-operations'' ''create update delete''
        ''permit'' ''root o-ran-laa-operations RWX'',
      Rule ''root-o-ran-lbm'' ''o-ran-lbm'' ''create update delete''
        ''permit'' ''root o-ran-lbm RWX'',
      Rule ''root-o-ran-module-cap'' ''o-ran-module-cap'' ''create update delete''
        ''permit'' ''root o-ran-module-cap RWX'',
      Rule ''root-o-ran-mplane-int'' ''o-ran-mplane-int'' ''create update delete''
        ''permit'' ''root o-ran-mplane-int RWX'',
      Rule ''root-o-ran-operations'' ''o-ran-operations'' ''create update delete''
        ''permit'' ''root o-ran-operations RWX'']"

definition root_rules_4 :: "nacm_rule list" where
  "root_rules_4 =
     [Rule ''root-o-ran-performance-management'' ''o-ran-performance-management'' ''create update delete''
        ''permit'' ''root o-ran-performance-management RWX'',
      Rule ''root-o-ran-processing-element'' ''o-ran-processing-element'' ''create update delete''
        ''permit'' ''root o-ran-processing-element RWX'',
      Rule ''root-o-ran-shared-cell'' ''o-ran-shared-cell'' ''create update delete''
        ''permit'' ''root o-ran-shared-cell RWX'',
      Rule ''root-o-ran-software-management'' ''o-ran-software-management'' ''create update delete''
        ''permit'' ''root o-ran-software-management RWX'',
      Rule ''root-o-ran-supervision'' ''o-ran-supervision'' ''create update delete''
        ''permit'' ''root o-ran-supervision RWX'',
      Rule ''root-o-ran-sync'' ''o-ran-sync'' ''create update delete''
        ''permit'' ''root o-ran-sync RWX'',
      Rule ''root-o-ran-trace'' ''o-ran-trace'' ''create update delete''
        ''permit'' ''root o-ran-trace RWX'',
      Rule ''root-o-ran-transceiver'' ''o-ran-transceiver'' ''create update delete''
        ''permit'' ''root o-ran-transceiver RWX'',
      Rule ''root-o-ran-troubleshooting'' ''o-ran-troubleshooting'' ''create update delete''
        ''permit'' ''root o-ran-troubleshooting RWX'']"

definition root_rules_5 :: "nacm_rule list" where
  "root_rules_5 =
     [Rule ''root-o-ran-udp-echo'' ''o-ran-udp-echo'' ''create update delete''
        ''permit'' ''root o-ran-udp-echo RWX'',
      Rule ''root-o-ran-uplane-conf'' ''o-ran-uplane-conf'' ''create update delete''
        ''permit'' ''root o-ran-uplane-conf RWX'',
      Rule ''root-o-ran-usermgmt'' ''o-ran-usermgmt'' ''create update delete''
        ''permit'' ''root o-ran-usermgmt RWX'',
      Rule ''root-o-ran-ves-subscribed-notifications'' ''o-ran-ves-subscribed-notifications'' ''create update delete''
        ''permit'' ''root o-ran-ves-subscribed-notifications RWX'']"

definition root_rules :: "nacm_rule list" where
  "root_rules = root_rules_1 @ root_rules_2 @ root_rules_3 @ root_rules_4 @ root_rules_5"

end
