(* ===== verification/NacmAccess.thy ===== *)
theory NacmAccess
  imports NacmRules CppLib
begin

text \<open>
  What a configuration of access rules grants, as RFC 8341 (NACM) defines it, and the permissions
  that the rules are meant to give: the table of \<open>yang-model-handlers/tools/rules.txt\<close>, with the
  group \<open>root\<close> that \<open>genRules.pl\<close> adds. A configuration is the list of its leaves, in the order in
  which they were written, by their path below \<open>nacm\<close>.
\<close>

section \<open>Paths\<close>

abbreviation apostrophe :: char where
  "apostrophe \<equiv> CHR 0x27"

definition list_path :: "string \<Rightarrow> string" where
  "list_path l = ''rule-list[name='' @ apostrophe # l @ apostrophe # '']/''"

definition rule_path :: "string \<Rightarrow> string \<Rightarrow> string" where
  "rule_path l n = list_path l @ ''rule[name='' @ apostrophe # n @ apostrophe # '']/''"

fun strip_prefix :: "string \<Rightarrow> string \<Rightarrow> string option" where
  "strip_prefix [] s = Some s"
| "strip_prefix (c # p) [] = None"
| "strip_prefix (c # p) (d # s) = (if c = d then strip_prefix p s else None)"

definition key_name :: "string \<Rightarrow> string" where
  "key_name = takeWhile (\<lambda>c. c \<noteq> apostrophe)"

section \<open>Access\<close>

text \<open>
  A list entry is created by the first leaf written into it, and the entries of the two lists are
  ordered by their creation. A leaf has the last value written.
\<close>

definition leaf :: "(string \<times> string) list \<Rightarrow> string \<Rightarrow> string option" where
  "leaf data = map_of (rev data)"

definition rule_lists :: "(string \<times> string) list \<Rightarrow> string list" where
  "rule_lists data =
     List.map_filter (\<lambda>(k, _). map_option key_name (strip_prefix (''rule-list[name='' @ [apostrophe]) k)) data"

definition rule_names :: "string \<Rightarrow> (string \<times> string) list \<Rightarrow> string list" where
  "rule_names l data =
     List.map_filter (\<lambda>(k, _). map_option key_name (strip_prefix (list_path l @ ''rule[name='' @ [apostrophe]) k)) data"

text \<open>The rules for a group: module, operations and action; only the first of each name matters.\<close>

type_synonym acl = "(string option \<times> string option \<times> string option) list"

definition rules_of :: "(string \<times> string) list \<Rightarrow> string \<Rightarrow> acl" where
  "rules_of data g =
     concat (map (\<lambda>l.
       if leaf data (list_path l @ ''group'') = Some g then
         map (\<lambda>n. (leaf data (rule_path l n @ ''module-name''), leaf data (rule_path l n @ ''access-operations''),
                   leaf data (rule_path l n @ ''action''))) (rule_names l data)
       else []) (rule_lists data))"

fun splits :: "string \<Rightarrow> string \<Rightarrow> string list" where
  "splits w [] = [rev w]"
| "splits w (c # s) = (if c = CHR '' '' then rev w # splits [] s else splits (c # w) s)"

text \<open>
  A node of a model may carry an extension: \<open>nacm:default-deny-write\<close> (keys in \<open>ietf-crypto-types\<close>) or
  \<open>nacm:default-deny-all\<close> (the container \<open>nacm\<close>, the passwords and \<open>chg-password\<close> of \<open>o-ran-usermgmt\<close>,
  \<open>reset\<close> of \<open>o-ran-operations\<close>). It holds for the nodes below, too.
\<close>

datatype protection = Unprotected | Deny_write | Deny_all

text \<open>
  The first matching rule decides; without one the extension of the node and the defaults that
  \<open>scripts/o-ran-user-config.sh\<close> writes: read and exec are permitted, the rest is denied.
\<close>

definition granted_by_default :: "protection \<Rightarrow> string \<Rightarrow> bool" where
  "granted_by_default prot op \<longleftrightarrow>
     (case prot of Deny_all \<Rightarrow> False | _ \<Rightarrow> op = ''read'' \<or> op = ''exec'')"

definition rule_applies :: "string \<Rightarrow> string \<Rightarrow> string option \<times> string option \<times> string option \<Rightarrow> bool" where
  "rule_applies m op r =
     (case r of (m', ops, _) \<Rightarrow> m' = Some m \<and> (case ops of None \<Rightarrow> False | Some ops \<Rightarrow> op \<in> set (splits [] ops)))"

definition granted :: "protection \<Rightarrow> acl \<Rightarrow> string \<Rightarrow> string \<Rightarrow> bool" where
  "granted prot rules m op =
     (case List.find (rule_applies m op) rules of
        Some (_, _, action) \<Rightarrow> action = Some ''permit''
      | None \<Rightarrow> granted_by_default prot op)"

text \<open>What a group may do with the nodes of a module that have the protection \<open>prot\<close>.\<close>

definition permissions :: "protection \<Rightarrow> acl \<Rightarrow> string \<Rightarrow> string" where
  "permissions prot rules m =
     [if granted prot rules m ''read'' then CHR ''R'' else CHR ''-'',
      if granted prot rules m ''create'' \<and> granted prot rules m ''update'' \<and> granted prot rules m ''delete'' then CHR ''W''
      else CHR ''-'',
      if granted prot rules m ''exec'' then CHR ''X'' else CHR ''-'']"

section \<open>The permissions meant\<close>

definition nacm_groups :: "string list" where
  "nacm_groups = [''sudo'', ''nms'', ''fm-pm'', ''swm'', ''smo'', ''hybrid-odu'', ''root'']"

definition permission_matrix :: "(string \<times> string list) list" where
  "permission_matrix =
     [(''iana-hardware'', [''R--'', ''R--'', ''R-X'', ''---'', ''R--'', ''R--'', ''RWX'']),
      (''ietf-hardware'', [''RWX'', ''RWX'', ''R-X'', ''---'', ''RWX'', ''R-X'', ''RWX'']),
      (''ietf-interfaces'', [''RW-'', ''RW-'', ''R--'', ''---'', ''RW-'', ''R--'', ''RWX'']),
      (''ietf-ip'', [''RW-'', ''RW-'', ''R--'', ''---'', ''RW-'', ''R--'', ''RWX'']),
      (''ietf-netconf-acm'', [''RW-'', ''R--'', ''R--'', ''R--'', ''RW-'', ''RW-'', ''RWX'']),
      (''ietf-netconf-monitoring'', [''R-X'', ''R-X'', ''R-X'', ''R-X'', ''R-X'', ''R-X'', ''RWX'']),
      (''ietf-netconf-notifications'', [''--X'', ''--X'', ''--X'', ''--X'', ''--X'', ''--X'', ''RWX'']),
      (''ietf-subscribed-notifications'', [''---'', ''---'', ''---'', ''---'', ''RWX'', ''---'', ''RWX'']),
      (''ietf-yang-library'', [''R-X'', ''R-X'', ''R-X'', ''R-X'', ''R-X'', ''R-X'', ''RWX'']),
      (''o-ran-ald'', [''--X'', ''---'', ''---'', ''---'', ''--X'', ''--X'', ''RWX'']),
      (''o-ran-ald-port'', [''RWX'', ''RWX'', ''---'', ''---'', ''RWX'', ''RWX'', ''RWX'']),
      (''o-ran-antenna-calibration'', [''RWX'', ''R--'', ''---'', ''---'', ''R--'', ''RWX'', ''RWX'']),
      (''o-ran-beamforming'', [''R-X'', ''R-X'', ''R--'', ''---'', ''R--'', ''R-X'', ''RWX'']),
      (''o-ran-delay-management'', [''RW-'', ''R--'', ''R--'', ''---'', ''R--'', ''RW-'', ''RWX'']),
      (''o-ran-dhcp'', [''R--'', ''R--'', ''R--'', ''---'', ''R--'', ''R--'', ''RWX'']),
      (''o-ran-ecpri-delay'', [''RW-'', ''R--'', ''R--'', ''---'', ''R--'', ''RW-'', ''RWX'']),
      (''o-ran-ethernet-forwarding'', [''RW-'', ''RW-'', ''---'', ''---'', ''RW-'', ''R--'', ''RWX'']),
      (''o-ran-externalio'', [''RWX'', ''RWX'', ''---'', ''---'', ''RWX'', ''R--'', ''RWX'']),
      (''o-ran-fan'', [''R--'', ''R--'', ''R--'', ''---'', ''R--'', ''R--'', ''RWX'']),
      (''o-ran-file-management'', [''--X'', ''--X'', ''--X'', ''---'', ''--X'', ''---'', ''RWX'']),
      (''o-ran-fm'', [''R-X'', ''R-X'', ''R-X'', ''---'', ''R-X'', ''R-X'', ''RWX'']),
      (''o-ran-hardware'', [''RWX'', ''RW-'', ''---'', ''---'', ''RW-'', ''R--'', ''RWX'']),
      (''o-ran-interfaces'', [''RWX'', ''RWX'', ''R--'', ''---'', ''RWX'', ''R--'', ''RWX'']),
      (''o-ran-laa'', [''RW-'', ''RW-'', ''---'', ''---'', ''R--'', ''RW-'', ''RWX'']),
      (''o-ran-laa-operations'', [''--X'', ''---'', ''---'', ''---'', ''---'', ''--X'', ''RWX'']),
      (''o-ran-lbm'', [''RW-'', ''RW-'', ''R--'', ''---'', ''RW-'', ''R--'', ''RWX'']),
      (''o-ran-module-cap'', [''RW-'', ''R--'', ''R--'', ''---'', ''R--'', ''RW-'', ''RWX'']),
      (''o-ran-mplane-int'', [''RW-'', ''RW-'', ''R--'', ''---'', ''RW-'', ''R--'', ''RWX'']),
      (''o-ran-operations'', [''RWX'', ''RW-'', ''R--'', ''---'', ''RWX'', ''RWX'', ''RWX'']),
      (''o-ran-performance-management'', [''RWX'', ''RWX'', ''RWX'', ''---'', ''RWX'', ''R-X'', ''RWX'']),
      (''o-ran-processing-element'', [''RW-'', ''RW-'', ''R--'', ''---'', ''RW-'', ''RW-'', ''RWX'']),
      (''o-ran-shared-cell'', [''RW-'', ''RW-'', ''---'', ''---'', ''R--'', ''RW-'', ''RWX'']),
      (''o-ran-software-management'', [''R-X'', ''R-X'', ''R--'', ''R-X'', ''R-X'', ''R--'', ''RWX'']),
      (''o-ran-supervision'', [''RWX'', ''---'', ''---'', ''---'', ''RW-'', ''RWX'', ''RWX'']),
      (''o-ran-sync'', [''RWX'', ''RWX'', ''R--'', ''---'', ''RWX'', ''R-X'', ''RWX'']),
      (''o-ran-trace'', [''--X'', ''--X'', ''--X'', ''---'', ''--X'', ''---'', ''RWX'']),
      (''o-ran-transceiver'', [''RW-'', ''RW-'', ''R--'', ''---'', ''RW-'', ''R--'', ''RWX'']),
      (''o-ran-troubleshooting'', [''--X'', ''--X'', ''--X'', ''---'', ''--X'', ''---'', ''RWX'']),
      (''o-ran-udp-echo'', [''RW-'', ''R--'', ''---'', ''---'', ''RW-'', ''R--'', ''RWX'']),
      (''o-ran-uplane-conf'', [''RWX'', ''RWX'', ''R--'', ''---'', ''R--'', ''RWX'', ''RWX'']),
      (''o-ran-usermgmt'', [''RWX'', ''---'', ''---'', ''---'', ''RWX'', ''RWX'', ''RWX'']),
      (''o-ran-ves-subscribed-notifications'', [''---'', ''---'', ''---'', ''---'', ''RW-'', ''---'', ''RWX''])]"

text \<open>
  What is left of an entry of the table for a node with an extension: the rules permit writing only, so of a
  node that denies all by default nothing else is granted.
\<close>

definition under :: "protection \<Rightarrow> string \<Rightarrow> string" where
  "under prot p = (if prot = Deny_all then [CHR ''-'', p ! 1, CHR ''-''] else p)"

definition grants_exactly :: "(string \<times> string) list \<Rightarrow> bool" where
  "grants_exactly data \<longleftrightarrow>
     list_all (\<lambda>prot. map (\<lambda>(m, _). (m, map (\<lambda>g. permissions prot (rules_of data g) m) nacm_groups)) permission_matrix =
       map (\<lambda>(m, row). (m, map (under prot) row)) permission_matrix) [Unprotected, Deny_write, Deny_all]"

text \<open>
  \<open>genRules.pl\<close>: the rules for a module of the table; the one that grants the defaults has none.
\<close>

definition rules_for :: "string \<Rightarrow> string \<Rightarrow> string \<Rightarrow> nacm_rule list" where
  "rules_for g m p =
     (let name = g @ ''-'' @ m;
          comment = g @ '' '' @ m @ '' '' @ p;
          deny_exec = Rule (name @ ''-deny-exec'') m ''exec'' ''deny'' (comment @ '' (2/2)'')
      in if p = ''R--'' then [Rule name m ''exec'' ''deny'' comment]
      else if p = ''RWX'' then [Rule name m ''create update delete'' ''permit'' comment]
      else if p = ''--X'' then [Rule name m ''read'' ''deny'' comment]
      else if p = ''RW-'' then
        [Rule (name @ ''-permit-write'') m ''create update delete'' ''permit'' (comment @ '' (1/2)''), deny_exec]
      else if p = ''---'' then [Rule (name @ ''-deny-read'') m ''read'' ''deny'' (comment @ '' (1/2)''), deny_exec]
      else [])"

definition generated :: "string \<Rightarrow> nat \<Rightarrow> nacm_rule list" where
  "generated g i = concat (map (\<lambda>(m, row). rules_for g m (row ! i)) permission_matrix)"

section \<open>The rules of the source are those of the table\<close>

lemma sudo_generated: "sudo_rules = generated ''sudo'' 0"
  by (simp add: generated_def permission_matrix_def rules_for_def sudo_rules_def
      sudo_rules_1_def sudo_rules_2_def sudo_rules_3_def sudo_rules_4_def sudo_rules_5_def sudo_rules_6_def sudo_rules_7_def)

lemma nms_generated: "nms_rules = generated ''nms'' 1"
  by (simp add: generated_def permission_matrix_def rules_for_def nms_rules_def
      nms_rules_1_def nms_rules_2_def nms_rules_3_def nms_rules_4_def nms_rules_5_def nms_rules_6_def nms_rules_7_def)

lemma fmpm_generated: "fmpm_rules = generated ''fm-pm'' 2"
  by (simp add: generated_def permission_matrix_def rules_for_def fmpm_rules_def
      fmpm_rules_1_def fmpm_rules_2_def fmpm_rules_3_def fmpm_rules_4_def fmpm_rules_5_def fmpm_rules_6_def)

lemma swm_generated: "swm_rules = generated ''swm'' 3"
  by (simp add: generated_def permission_matrix_def rules_for_def swm_rules_def
      swm_rules_1_def swm_rules_2_def swm_rules_3_def swm_rules_4_def swm_rules_5_def swm_rules_6_def swm_rules_7_def swm_rules_8_def swm_rules_9_def swm_rules_10_def)

lemma smo_generated: "smo_rules = generated ''smo'' 4"
  by (simp add: generated_def permission_matrix_def rules_for_def smo_rules_def
      smo_rules_1_def smo_rules_2_def smo_rules_3_def smo_rules_4_def smo_rules_5_def smo_rules_6_def)

lemma hybridodu_generated: "hybridodu_rules = generated ''hybrid-odu'' 5"
  by (simp add: generated_def permission_matrix_def rules_for_def hybridodu_rules_def
      hybridodu_rules_1_def hybridodu_rules_2_def hybridodu_rules_3_def hybridodu_rules_4_def hybridodu_rules_5_def hybridodu_rules_6_def)

lemma root_generated: "root_rules = generated ''root'' 6"
  by (simp add: generated_def permission_matrix_def rules_for_def root_rules_def
      root_rules_1_def root_rules_2_def root_rules_3_def root_rules_4_def root_rules_5_def)

section \<open>Decisions\<close>

lemma granted_same:
  assumes "\<And>x. x \<in> set rs \<and> rule_applies m op x \<longleftrightarrow> x \<in> set rs' \<and> rule_applies m op x"
    and "\<And>x y. \<lbrakk>x \<in> set rs'; y \<in> set rs'; rule_applies m op x; rule_applies m op y\<rbrakk> \<Longrightarrow> snd (snd x) = snd (snd y)"
  shows "granted prot rs m op = granted prot rs' m op"
proof (cases "List.find (rule_applies m op) rs")
  case None
  then have "List.find (rule_applies m op) rs' = None"
    using assms(1) by (auto simp: find_None_iff)
  then show ?thesis
    using None by (simp add: granted_def)
next
  case (Some x)
  then have x: "x \<in> set rs" "rule_applies m op x"
    by (auto simp: find_Some_iff)
  then obtain y where y: "List.find (rule_applies m op) rs' = Some y"
    using assms(1) by (metis find_None_iff option.exhaust)
  then have "y \<in> set rs'" "rule_applies m op y"
    by (auto simp: find_Some_iff)
  then have "snd (snd x) = snd (snd y)"
    using x assms by metis
  then show ?thesis
    using Some y by (cases x; cases y) (simp add: granted_def)
qed

definition acl_of :: "string \<Rightarrow> string \<Rightarrow> string \<Rightarrow> acl" where
  "acl_of g m p =
     map (\<lambda>r. (Some (r_module r), Some (r_operations r), Some (r_action r))) (rules_for g m p)"

definition shapes :: "string list" where
  "shapes = [''R-X'', ''R--'', ''RWX'', ''--X'', ''RW-'', ''---'']"

text \<open>The rules of one entry grant it, and no two of them decide the same operation differently.\<close>

lemma acl_of_shape:
  "acl_of g m ''R-X'' = []"
  "acl_of g m ''R--'' = [(Some m, Some ''exec'', Some ''deny'')]"
  "acl_of g m ''RWX'' = [(Some m, Some ''create update delete'', Some ''permit'')]"
  "acl_of g m ''--X'' = [(Some m, Some ''read'', Some ''deny'')]"
  "acl_of g m ''RW-'' = [(Some m, Some ''create update delete'', Some ''permit''), (Some m, Some ''exec'', Some ''deny'')]"
  "acl_of g m ''---'' = [(Some m, Some ''read'', Some ''deny''), (Some m, Some ''exec'', Some ''deny'')]"
  by (simp_all add: acl_of_def rules_for_def)

lemma split_operations:
  "splits [] ''read'' = [''read'']" "splits [] ''exec'' = [''exec'']"
  "splits [] ''create update delete'' = [''create'', ''update'', ''delete'']"
  by simp_all

lemma granted_Nil: "granted prot [] m op = granted_by_default prot op"
  by (simp add: granted_def)

lemma granted_Cons:
  "granted prot ((Some m, Some ops, Some a) # rs) m op =
     (if op \<in> set (splits [] ops) then a = ''permit'' else granted prot rs m op)"
  by (simp add: granted_def rule_applies_def)

lemma shape_cases:
  "p \<in> set shapes \<Longrightarrow> p = ''R-X'' \<or> p = ''R--'' \<or> p = ''RWX'' \<or> p = ''--X'' \<or> p = ''RW-'' \<or> p = ''---''"
  by (simp add: shapes_def)

lemma acl_of_permissions:
  assumes "p \<in> set shapes"
  shows "permissions prot (acl_of g m p) m = under prot p"
  using shape_cases [OF assms]
  by (elim disjE) (cases prot; simp add: acl_of_shape permissions_def granted_Nil granted_Cons split_operations
      granted_by_default_def under_def del: splits.simps)+

lemma acl_of_agree:
  assumes "p \<in> set shapes" "x \<in> set (acl_of g m p)" "y \<in> set (acl_of g m p)" "rule_applies m op x" "rule_applies m op y"
  shows "snd (snd x) = snd (snd y)"
  using shape_cases [OF assms(1)] assms(2-)
  by (elim disjE) (auto simp: acl_of_shape rule_applies_def split_operations simp del: splits.simps)

lemma permissions_of:
  assumes p: "p \<in> set shapes"
    and same: "\<And>x. x \<in> set rs \<and> fst x = Some m \<longleftrightarrow> x \<in> set (acl_of g m p)"
  shows "permissions prot rs m = under prot p"
proof -
  have "granted prot rs m op = granted prot (acl_of g m p) m op" for op
  proof (rule granted_same)
    fix x
    have "rule_applies m op x \<Longrightarrow> fst x = Some m"
      by (simp add: rule_applies_def split: prod.splits)
    then show "x \<in> set rs \<and> rule_applies m op x \<longleftrightarrow> x \<in> set (acl_of g m p) \<and> rule_applies m op x"
      using same by blast
  qed (rule acl_of_agree [OF p])
  then show ?thesis
    using acl_of_permissions [OF p, of prot g m] by (simp add: permissions_def)
qed

section \<open>Paths and lists\<close>

lemma set_map_filter: "set (List.map_filter f xs) = {y. \<exists>x \<in> set xs. f x = Some y}"
  by (induction xs) (auto simp: List.map_filter_simps split: option.splits)

definition quote_free :: "string \<Rightarrow> bool" where
  "quote_free s \<longleftrightarrow> apostrophe \<notin> set s"

lemma key_name_quote [simp]: "quote_free n \<Longrightarrow> key_name (n @ apostrophe # s) = n"
  by (induction n) (auto simp: key_name_def quote_free_def)

lemma quoted_eq:
  "\<lbrakk>quote_free a; quote_free b\<rbrakk> \<Longrightarrow> a @ apostrophe # s = b @ apostrophe # t \<longleftrightarrow> a = b \<and> s = t"
  by (metis key_name_quote append_same_eq list.inject same_append_eq)

lemma strip_prefix_Some: "strip_prefix p s = Some t \<longleftrightarrow> s = p @ t"
  by (induction p s rule: strip_prefix.induct) auto

lemma strip_prefix_append [simp]: "strip_prefix p (p @ t) = Some t"
  by (simp add: strip_prefix_Some)

lemma strip_prefix_same: "strip_prefix (p @ a) (p @ b) = strip_prefix a b"
  by (induction p) auto

lemma list_path_eq:
  "\<lbrakk>quote_free l; quote_free l'\<rbrakk> \<Longrightarrow> list_path l @ x = list_path l' @ x' \<longleftrightarrow> l = l' \<and> x = x'"
  by (auto simp: list_path_def quoted_eq)

lemma list_path_inj: "\<lbrakk>quote_free l; quote_free l'\<rbrakk> \<Longrightarrow> list_path l = list_path l' \<longleftrightarrow> l = l'"
  using list_path_eq [of l l' "[]" "[]"] by simp

lemma rule_path_eq:
  "\<lbrakk>quote_free l; quote_free l'; quote_free n; quote_free n'\<rbrakk> \<Longrightarrow>
   rule_path l n @ x = rule_path l' n' @ x' \<longleftrightarrow> l = l' \<and> n = n' \<and> x = x'"
  by (auto simp: rule_path_def list_path_def quoted_eq)

lemma rule_path_inj:
  "\<lbrakk>quote_free l; quote_free l'; quote_free n; quote_free n'\<rbrakk> \<Longrightarrow> rule_path l n = rule_path l' n' \<longleftrightarrow> l = l' \<and> n = n'"
  using rule_path_eq [of l l' n n' "[]" "[]"] by simp

end
