(* ===== verification/SysrepoHandler.thy ===== *)
theory SysrepoHandler
  imports DatastoreOps YangPersist HandlerCallback
begin

text \<open>
  \<open>YangHandlerSysrepoUnlogged.cpp\<close>: the handler of a YANG module on top of the data store. It keeps
  the persistent values, the read-only paths and the registered RPCs; each of its operations
  asks the module manager for the data store and calls it. The messages of \<open>logInfo\<close> are left out.
\<close>

section \<open>State\<close>

record handler =
  mName :: string
  hd_ds :: datastore
  hd_persist :: yang_persist
  hd_readOnly :: "string set"
  hd_rpcs :: "string list"

definition new_handler :: "string \<Rightarrow> yang_persist \<Rightarrow> datastore \<Rightarrow> handler" where
  "new_handler name persist ds =
     \<lparr>mName = name, hd_ds = ds, hd_persist = persist, hd_readOnly = {}, hd_rpcs = []\<rparr>"

text \<open>An operation of the data store; where the code names none it is the one of index 0.\<close>

definition on_ds :: "(datastore \<Rightarrow> 'r \<times> datastore) \<Rightarrow> handler \<Rightarrow> 'r \<times> handler" where
  "on_ds f h = (let (r, ds) = f (hd_ds h) in (r, h\<lparr>hd_ds := ds\<rparr>))"

section \<open>Operations\<close>

definition handler_path :: "handler \<Rightarrow> string \<Rightarrow> string" where
  "handler_path h p = ''/'' @ mName h @ '':'' @ p"

text \<open>\<open>initialise\<close>: the persistent values are set, whatever comes of it.\<close>

definition handler_initialise :: "sysrepo \<Rightarrow> handler \<Rightarrow> bool \<times> handler" where
  "handler_initialise sr h =
     (if mValues (hd_persist h) = [] then (True, h)
      else (True, fold (\<lambda>(xpath, v) h. snd (on_ds (setItemStr sr xpath v 0) h)) (mValues (hd_persist h)) h))"

definition hd_changeSubscribe :: "sysrepo \<Rightarrow> string \<Rightarrow> handler \<Rightarrow> handler" where
  "hd_changeSubscribe sr xpath h = snd (on_ds (itemsChangeSubscribe sr (mName h) xpath 0) h)"

definition hd_makeReadOnly :: "string \<Rightarrow> handler \<Rightarrow> handler" where
  "hd_makeReadOnly xpath h = h\<lparr>hd_readOnly := insert xpath (hd_readOnly h)\<rparr>"

definition hd_makeReadOnlys :: "string set \<Rightarrow> handler \<Rightarrow> handler" where
  "hd_makeReadOnlys paths h = h\<lparr>hd_readOnly := hd_readOnly h \<union> paths\<rparr>"

definition hd_removeReadOnly :: "string \<Rightarrow> handler \<Rightarrow> handler" where
  "hd_removeReadOnly xpath h = h\<lparr>hd_readOnly := hd_readOnly h - {xpath}\<rparr>"

definition hd_makePersistent :: "string set \<Rightarrow> handler \<Rightarrow> handler" where
  "hd_makePersistent paths h = h\<lparr>hd_persist := setPersist paths (hd_persist h)\<rparr>"

definition hd_getItemsSubscribe :: "sysrepo \<Rightarrow> string \<Rightarrow> handler \<Rightarrow> handler" where
  "hd_getItemsSubscribe sr xpath h = snd (on_ds (getItemsSubscribe sr (mName h) xpath 0) h)"

definition hd_createItemStr :: "sysrepo \<Rightarrow> string \<Rightarrow> string \<Rightarrow> handler \<Rightarrow> (ds_exn + yang_result) \<times> handler" where
  "hd_createItemStr sr xpath v = on_ds (setItemStr sr xpath v 0)"

definition hd_createListEntry ::
    "sysrepo \<Rightarrow> string \<Rightarrow> (string \<times> string) list \<Rightarrow> handler \<Rightarrow> (ds_exn + yang_result) \<times> handler" where
  "hd_createListEntry sr xpath values = on_ds (createListEntry sr xpath values 0)"

definition hd_createListEntry_key ::
    "sysrepo \<Rightarrow> string \<Rightarrow> string \<Rightarrow> string \<Rightarrow> (string \<times> string) list \<Rightarrow> handler \<Rightarrow>
     (ds_exn + yang_result) \<times> handler" where
  "hd_createListEntry_key sr xpath key keyval values = on_ds (createListEntry_key sr xpath key keyval values 0)"

definition hd_sendNotification ::
    "sysrepo \<Rightarrow> string \<Rightarrow> yang_param list \<Rightarrow> handler \<Rightarrow> (ds_exn + yang_result) \<times> handler" where
  "hd_sendNotification sr xpath params = on_ds (sendNotification sr xpath params 0)"

definition hd_registerRpc :: "sysrepo \<Rightarrow> string \<Rightarrow> handler \<Rightarrow> handler" where
  "hd_registerRpc sr rpcPath h =
     (let xpath = handler_path h rpcPath;
          h = snd (on_ds (rpcSubscribe sr xpath 0) h)
      in h\<lparr>hd_rpcs := hd_rpcs h @ [xpath]\<rparr>)"

text \<open>
  \<open>setVal\<close>: the value, then the others that the data store returns for its path. A result of no
  parameters leaves the pointer null, and it is used.
\<close>

definition hd_setVal :: "sysrepo \<Rightarrow> (u64 \<Rightarrow> string) \<Rightarrow> (sr_value \<Rightarrow> string) \<Rightarrow> sr_value \<Rightarrow> handler \<Rightarrow> ds_exn option \<times> handler" where
  "hd_setVal sr dbl to_string val h =
     (let xpath = v_xpath val;
          h = h\<lparr>hd_persist := persist_set xpath (to_string val) (hd_persist h)\<rparr>;
          ((r, params), h) = on_ds (\<lambda>ds. case getItems sr xpath 0 ds of (r, ps, ds) \<Rightarrow> ((r, ps), ds)) h
      in case r of
        Inl e \<Rightarrow> (Some e, h)
      | Inr result \<Rightarrow>
          if result \<noteq> YANG_OK then (None, h)
          else case params of
            None \<Rightarrow> (Some Null_pointer, h)
          | Some ps \<Rightarrow>
              (None, h\<lparr>hd_persist :=
                 fold (\<lambda>q p. if y_name q = xpath then p else persist_set (y_name q) (toString dbl (y_val q)) p)
                   ps (hd_persist h)\<rparr>))"

section \<open>What the operations leave alone\<close>

lemma on_ds_frame [simp]:
  "mName (snd (on_ds f h)) = mName h" "hd_persist (snd (on_ds f h)) = hd_persist h"
  "hd_readOnly (snd (on_ds f h)) = hd_readOnly h" "hd_rpcs (snd (on_ds f h)) = hd_rpcs h"
  by (simp_all add: on_ds_def split: prod.split)

lemma on_ds_ds [simp]: "hd_ds (snd (on_ds f h)) = snd (f (hd_ds h))" "fst (on_ds f h) = fst (f (hd_ds h))"
  by (simp_all add: on_ds_def split: prod.split)

end
