(* ===== verification/Nacm.thy ===== *)
theory Nacm
  imports NacmAccess SysrepoHandler
begin

text \<open>
  \<open>IetfNetconfAcmHandler.cpp\<close>: the handler that writes the access rules when the server starts, and
  refuses every later change. The rules are in \<open>NacmRules\<close>, what they grant is defined in
  \<open>NacmAccess\<close>.
\<close>

section \<open>Writing the rules\<close>

text \<open>The four assignments of a rule, and the map \<open>dataCfg\<close> of a group.\<close>

definition assignments :: "string \<Rightarrow> nacm_rule \<Rightarrow> (string \<times> string) list" where
  "assignments l r =
     [(rule_path l (r_name r) @ ''module-name'', r_module r),
      (rule_path l (r_name r) @ ''access-operations'', r_operations r),
      (rule_path l (r_name r) @ ''action'', r_action r),
      (rule_path l (r_name r) @ ''comment'', r_comment r)]"

definition group_assignments :: "string \<Rightarrow> string \<Rightarrow> nacm_rule list \<Rightarrow> (string \<times> string) list" where
  "group_assignments l g rules =
     [(list_path l @ ''name'', l), (list_path l @ ''group'', g)] @ concat (map (assignments l) rules)"

definition dataCfg :: "string \<Rightarrow> string \<Rightarrow> nacm_rule list \<Rightarrow> (string \<times> string) list" where
  "dataCfg l g rules = fold (\<lambda>(k, v). map_put k v) (group_assignments l g rules) []"

text \<open>An exception of \<open>createListEntry\<close> is not caught.\<close>

definition add_rules :: "sysrepo \<Rightarrow> string \<Rightarrow> string \<Rightarrow> nacm_rule list \<Rightarrow> handler \<Rightarrow> (ds_exn + bool) \<times> handler" where
  "add_rules sr l g rules h =
     (case hd_createListEntry sr (handler_path h ''nacm'') (dataCfg l g rules) h of
        (Inl e, h) \<Rightarrow> (Inl e, h)
      | (Inr result, h) \<Rightarrow> if result \<noteq> YANG_OK then (Inr False, h) else (Inr True, h))"

definition addSudoRules :: "sysrepo \<Rightarrow> handler \<Rightarrow> (ds_exn + bool) \<times> handler" where
  "addSudoRules sr = add_rules sr ''sudo-rules'' ''sudo'' sudo_rules"

definition addNmsRules :: "sysrepo \<Rightarrow> handler \<Rightarrow> (ds_exn + bool) \<times> handler" where
  "addNmsRules sr = add_rules sr ''nms-rules'' ''nms'' nms_rules"

definition addFmpmRules :: "sysrepo \<Rightarrow> handler \<Rightarrow> (ds_exn + bool) \<times> handler" where
  "addFmpmRules sr = add_rules sr ''fm-pm-rules'' ''fm-pm'' fmpm_rules"

definition addSwmRules :: "sysrepo \<Rightarrow> handler \<Rightarrow> (ds_exn + bool) \<times> handler" where
  "addSwmRules sr = add_rules sr ''swm-rules'' ''swm'' swm_rules"

definition addSmoRules :: "sysrepo \<Rightarrow> handler \<Rightarrow> (ds_exn + bool) \<times> handler" where
  "addSmoRules sr = add_rules sr ''smo-rules'' ''smo'' smo_rules"

definition addHybridoduRules :: "sysrepo \<Rightarrow> handler \<Rightarrow> (ds_exn + bool) \<times> handler" where
  "addHybridoduRules sr = add_rules sr ''hybrid-odu-rules'' ''hybrid-odu'' hybridodu_rules"

definition addRootRules :: "sysrepo \<Rightarrow> handler \<Rightarrow> (ds_exn + bool) \<times> handler" where
  "addRootRules sr = add_rules sr ''root-rules'' ''root'' root_rules"

text \<open>\<open>ok |= ...\<close>\<close>

fun or_all :: "(handler \<Rightarrow> (ds_exn + bool) \<times> handler) list \<Rightarrow> bool \<Rightarrow> handler \<Rightarrow> (ds_exn + bool) \<times> handler" where
  "or_all [] ok h = (Inr ok, h)"
| "or_all (f # fs) ok h =
     (case f h of (Inl e, h) \<Rightarrow> (Inl e, h) | (Inr b, h) \<Rightarrow> or_all fs (ok \<or> b) h)"

definition new_nacm :: "yang_persist \<Rightarrow> datastore \<Rightarrow> handler" where
  "new_nacm = new_handler ''ietf-netconf-acm''"

definition nacm_initialise :: "sysrepo \<Rightarrow> handler \<Rightarrow> (ds_exn + bool) \<times> handler" where
  "nacm_initialise sr h =
     (let (ok, h) = handler_initialise sr h in
      if \<not> ok then (Inr False, h)
      else case or_all [addSudoRules sr, addNmsRules sr, addFmpmRules sr, addSwmRules sr, addSmoRules sr,
          addHybridoduRules sr, addRootRules sr] True h of
        (Inl e, h) \<Rightarrow> (Inl e, h)
      | (Inr ok, h) \<Rightarrow>
          let h = hd_makeReadOnly (handler_path h ''nacm'') h;
              h = hd_getItemsSubscribe sr (handler_path h ''nacm'') h
          in (Inr ok, hd_changeSubscribe sr [] h))"

section \<open>Changes\<close>

definition nacm_validate :: "yang_param list \<Rightarrow> yang_param list \<Rightarrow> handler \<Rightarrow> (exn + sr_error) \<times> handler" where
  "nacm_validate params deletedParams h = (Inr SR_ERR_VALIDATION_FAILED, h)"

text \<open>\<open>valueChange\<close> only logs.\<close>

definition nacm_valueChange :: "string \<Rightarrow> yang_param option \<Rightarrow> yang_param option \<Rightarrow> handler cpp" where
  "nacm_valueChange xpath oldValue newValue h = (None, h)"

text \<open>The hooks of the handler; \<open>store\<close> and \<open>done\<close> are \<open>setVal\<close> and the write of the persistent values.\<close>

definition nacm_hooks :: "(sr_value \<Rightarrow> handler cpp) \<Rightarrow> handler cpp \<Rightarrow> handler hooks" where
  "nacm_hooks store complete =
     \<lparr>h_validate = nacm_validate, h_valueChange = nacm_valueChange, h_paramDelete = (\<lambda>xpath p h. (None, h)),
      h_setVal = store, h_complete = complete, h_roPaths = hd_readOnly\<rparr>"

section \<open>The leaves of a group\<close>

lemma map_of_fold_map_put: "map_of (fold (\<lambda>(k, v). map_put k v) es m) = map_of m ++ map_of (rev es)"
  by (induction es arbitrary: m) (auto simp: map_of_map_put)

lemma map_of_rev_distinct: "distinct (map fst es) \<Longrightarrow> map_of (rev es) = map_of es"
  using map_of_inject_set [of "rev es" es] by (simp flip: rev_map)

lemma keys_fold_map_put:
  "set (map fst (fold (\<lambda>(k, v). map_put k v) es m)) = set (map fst m) \<union> set (map fst es)"
  by (induction es arbitrary: m) (auto simp: map_put_keys simp del: set_map)

lemma sorted_fold_map_put:
  "sorted_wrt (<) (map fst m) \<Longrightarrow> sorted_wrt (<) (map fst (fold (\<lambda>(k, v). map_put k v) es m))"
  by (induction es arbitrary: m) (auto simp: map_put_sorted)

lemma dataCfg_distinct: "distinct (map fst (dataCfg l g rules))"
  using sorted_fold_map_put [of "[]" "group_assignments l g rules"]
  by (simp add: dataCfg_def strict_sorted_iff)

lemma dataCfg_keys: "fst ` set (dataCfg l g rules) = fst ` set (group_assignments l g rules)"
  using keys_fold_map_put [of "group_assignments l g rules" "[]"] by (simp add: dataCfg_def)

lemma group_assignments_set:
  "e \<in> set (group_assignments l g rules) \<longleftrightarrow>
     e = (list_path l @ ''name'', l) \<or> e = (list_path l @ ''group'', g) \<or>
     (\<exists>r \<in> set rules. e \<in> set (assignments l r))"
  by (auto simp: group_assignments_def)

lemma assignments_set:
  "e \<in> set (assignments l r) \<longleftrightarrow>
     e = (rule_path l (r_name r) @ ''module-name'', r_module r) \<or>
     e = (rule_path l (r_name r) @ ''access-operations'', r_operations r) \<or>
     e = (rule_path l (r_name r) @ ''action'', r_action r) \<or>
     e = (rule_path l (r_name r) @ ''comment'', r_comment r)"
  by (auto simp: assignments_def)

lemma assignments_distinct:
  assumes "distinct (map r_name rules)" "\<forall>r \<in> set rules. quote_free (r_name r)" "quote_free l"
  shows "distinct (map fst (concat (map (assignments l) rules)))"
  using assms
proof (induction rules)
  case (Cons r rules)
  have "k \<notin> fst ` set (assignments l r')" if "k \<in> fst ` set (assignments l r)" "r' \<in> set rules" for k r'
  proof -
    have "r_name r \<noteq> r_name r'" "quote_free (r_name r)" "quote_free (r_name r')"
      using Cons.prems that(2) by (auto simp: image_iff)
    then show ?thesis
      using that(1) Cons.prems(3) by (auto simp: assignments_set rule_path_eq rule_path_inj)
  qed
  moreover have "distinct (map fst (assignments l r))"
    by (simp add: assignments_def)
  ultimately show ?case
    using Cons by (fastforce simp: image_iff)
qed simp

lemma group_assignments_distinct:
  assumes "distinct (map r_name rules)" "\<forall>r \<in> set rules. quote_free (r_name r)" "quote_free l"
  shows "distinct (map fst (group_assignments l g rules))"
proof -
  have "list_path l @ x \<noteq> fst e" if "e \<in> set (assignments l r)" "x = ''name'' \<or> x = ''group''" for e r x
    using that by (auto simp: assignments_set rule_path_def)
  then show ?thesis
    using assignments_distinct [OF assms] by (fastforce simp: group_assignments_def)
qed

lemma dataCfg_set:
  assumes "distinct (map r_name rules)" "\<forall>r \<in> set rules. quote_free (r_name r)" "quote_free l"
  shows "set (dataCfg l g rules) = set (group_assignments l g rules)"
proof -
  note d = group_assignments_distinct [OF assms, of g]
  have "map_of (dataCfg l g rules) = map_of (group_assignments l g rules)"
    using d map_of_rev_distinct [OF d] by (simp add: dataCfg_def map_of_fold_map_put)
  then show ?thesis
    using d dataCfg_distinct map_of_inject_set by blast
qed

end
