(* ===== verification/NacmGrants.thy ===== *)
theory NacmGrants
  imports Nacm
begin

text \<open>
  What the written rules grant. A locale states what the argument needs of a family of rule lists:
  names that can be told apart in a path. It is interpreted on the rules of the handler.
\<close>

section \<open>Families of rule lists\<close>

definition leaves_of :: "(string \<times> string \<times> nacm_rule list) list \<Rightarrow> (string \<times> string) list" where
  "leaves_of gs = concat (map (\<lambda>(l, g, rules). dataCfg l g rules) gs)"

locale rule_sets =
  fixes gs :: "(string \<times> string \<times> nacm_rule list) list"
  assumes lists_distinct: "distinct (map fst gs)"
    and lists_quotable: "(l, g, rules) \<in> set gs \<Longrightarrow> quote_free l"
    and names_distinct: "(l, g, rules) \<in> set gs \<Longrightarrow> distinct (map r_name rules)"
    and names_quotable: "\<lbrakk>(l, g, rules) \<in> set gs; r \<in> set rules\<rbrakk> \<Longrightarrow> quote_free (r_name r)"
begin

lemma cfg_set: "(l, g, rules) \<in> set gs \<Longrightarrow> set (dataCfg l g rules) = set (group_assignments l g rules)"
  using dataCfg_set names_distinct names_quotable lists_quotable by blast

lemma leaves_set: "e \<in> set (leaves_of gs) \<longleftrightarrow> (\<exists>(l, g, rules) \<in> set gs. e \<in> set (group_assignments l g rules))"
  using cfg_set by (fastforce simp: leaves_of_def)

lemma in_assignments:
  "e \<in> set (group_assignments l g rules) \<Longrightarrow> \<exists>x. fst e = list_path l @ x"
  by (auto simp: group_assignments_set assignments_set rule_path_def)

lemma one_list:
  "\<lbrakk>(l, g, rules) \<in> set gs; (l, g', rules') \<in> set gs\<rbrakk> \<Longrightarrow> g = g' \<and> rules = rules'"
  using eq_key_imp_eq_value [OF lists_distinct, of l "(g, rules)" "(g', rules')"] by simp

lemma leaves_distinct: "distinct (map fst (leaves_of gs))"
proof -
  have "distinct (map fst (leaves_of hs))" if "set hs \<subseteq> set gs" "distinct (map fst hs)" for hs
    using that
  proof (induction hs)
    case (Cons h hs)
    obtain l g rules where h: "h = (l, g, rules)"
      by (cases h)
    have "fst e \<noteq> fst e'" if e: "e \<in> set (dataCfg l g rules)" and e': "e' \<in> set (leaves_of hs)" for e e'
    proof -
      obtain l' g' rules' where h': "(l', g', rules') \<in> set hs" "e' \<in> set (dataCfg l' g' rules')"
        using e' by (auto simp: leaves_of_def)
      have in_gs: "(l, g, rules) \<in> set gs" "(l', g', rules') \<in> set gs"
        using Cons.prems(1) h h'(1) by auto
      have "l \<noteq> l'"
        using Cons.prems(2) h h'(1) by force
      moreover obtain x x' where "fst e = list_path l @ x" "fst e' = list_path l' @ x'"
        using in_assignments e h'(2) cfg_set in_gs by metis
      ultimately show ?thesis
        using list_path_eq lists_quotable in_gs by metis
    qed
    then show ?case
      using Cons h dataCfg_distinct by (fastforce simp: leaves_of_def)
  qed (simp add: leaves_of_def)
  then show ?thesis
    using lists_distinct by blast
qed

lemma leaf_iff: "leaf (leaves_of gs) k = Some v \<longleftrightarrow> (\<exists>(l, g, rules) \<in> set gs. (k, v) \<in> set (group_assignments l g rules))"
  using leaves_distinct leaves_set by (simp add: leaf_def map_of_rev_distinct map_of_eq_Some_iff)

lemma group_assignment:
  assumes "(list_path l @ ''group'', v) \<in> set (group_assignments l' g rules)" "quote_free l" "quote_free l'"
  shows "l' = l \<and> v = g"
proof -
  have "fst e \<noteq> list_path l @ ''group''" if e: "e \<in> set (assignments l' r)" for e r
  proof -
    obtain x where "fst e = list_path l' @ ''rule['' @ x"
      using e by (auto simp: assignments_set rule_path_def)
    then show ?thesis
      using list_path_eq [OF assms(3,2)] by simp
  qed
  then have "(list_path l @ ''group'', v) = (list_path l' @ ''group'', g) \<or> (list_path l @ ''group'', v) = (list_path l' @ ''name'', l')"
    using assms(1) unfolding group_assignments_set by (metis fst_conv)
  then show ?thesis
    using list_path_eq [OF assms(2,3)] by auto
qed

lemma leaf_group:
  assumes "(l, g, rules) \<in> set gs"
  shows "leaf (leaves_of gs) (list_path l @ ''group'') = Some g' \<longleftrightarrow> g' = g"
proof
  assume "leaf (leaves_of gs) (list_path l @ ''group'') = Some g'"
  then obtain l' g'' rules' where e: "(l', g'', rules') \<in> set gs"
    "(list_path l @ ''group'', g') \<in> set (group_assignments l' g'' rules')"
    unfolding leaf_iff by blast
  then have "l' = l" "g' = g''"
    using group_assignment [OF e(2)] lists_quotable assms by blast+
  then show "g' = g"
    using one_list [OF assms] e(1) by blast
next
  assume "g' = g"
  then show "leaf (leaves_of gs) (list_path l @ ''group'') = Some g'"
    using assms unfolding leaf_iff group_assignments_set by blast
qed

lemma leaf_rule:
  assumes "(l, g, rules) \<in> set gs" "r \<in> set rules"
  shows "leaf (leaves_of gs) (rule_path l (r_name r) @ ''module-name'') = Some (r_module r)"
    "leaf (leaves_of gs) (rule_path l (r_name r) @ ''access-operations'') = Some (r_operations r)"
    "leaf (leaves_of gs) (rule_path l (r_name r) @ ''action'') = Some (r_action r)"
  using assms unfolding leaf_iff group_assignments_set assignments_set by blast+

lemma rule_lists_iff:
  "x \<in> set (rule_lists data) \<longleftrightarrow>
     (\<exists>(k, v) \<in> set data. map_option key_name (strip_prefix (''rule-list[name='' @ [apostrophe]) k) = Some x)"
  unfolding rule_lists_def set_map_filter by (simp add: case_prod_unfold)

lemma rule_names_iff:
  "x \<in> set (rule_names l data) \<longleftrightarrow>
     (\<exists>(k, v) \<in> set data. map_option key_name (strip_prefix (list_path l @ ''rule[name='' @ [apostrophe]) k) = Some x)"
  unfolding rule_names_def set_map_filter by (simp add: case_prod_unfold)

lemma list_key:
  assumes "(l, g, rules) \<in> set gs"
  shows "map_option key_name (strip_prefix (''rule-list[name='' @ [apostrophe]) (list_path l @ x)) = Some l"
  using lists_quotable [OF assms] by (simp add: list_path_def)

lemma rule_lists_set: "set (rule_lists (leaves_of gs)) = {l. \<exists>g rules. (l, g, rules) \<in> set gs}"
proof (intro equalityI subsetI CollectI)
  fix x
  assume "x \<in> set (rule_lists (leaves_of gs))"
  then obtain k v where k: "(k, v) \<in> set (leaves_of gs)"
    "map_option key_name (strip_prefix (''rule-list[name='' @ [apostrophe]) k) = Some x"
    unfolding rule_lists_iff by blast
  then obtain l g rules where l: "(l, g, rules) \<in> set gs" "(k, v) \<in> set (group_assignments l g rules)"
    unfolding leaves_set by blast
  then obtain y where "k = list_path l @ y"
    using in_assignments by fastforce
  then have "x = l"
    using k(2) list_key [OF l(1), of y] by (metis option.inject)
  then show "\<exists>g rules. (x, g, rules) \<in> set gs"
    using l(1) by blast
next
  fix x
  assume "x \<in> {l. \<exists>g rules. (l, g, rules) \<in> set gs}"
  then obtain g rules where x: "(x, g, rules) \<in> set gs"
    by blast
  then have "(list_path x @ ''name'', x) \<in> set (leaves_of gs)"
    unfolding leaves_set group_assignments_set by blast
  then show "x \<in> set (rule_lists (leaves_of gs))"
    unfolding rule_lists_iff using list_key [OF x] by blast
qed

lemma rule_names_set:
  assumes "(l, g, rules) \<in> set gs"
  shows "set (rule_names l (leaves_of gs)) = r_name ` set rules"
proof -
  let ?p = "list_path l @ ''rule[name='' @ [apostrophe]"
  have own: "n \<in> r_name ` set rules"
    if kv: "(k, v) \<in> set (leaves_of gs)" and n: "map_option key_name (strip_prefix ?p k) = Some n" for k v n
  proof -
    obtain l' g' rules' where e: "(l', g', rules') \<in> set gs" "(k, v) \<in> set (group_assignments l' g' rules')"
      using kv leaves_set by auto
    obtain y where y: "k = list_path l @ ''rule[name='' @ apostrophe # y" "key_name y = n"
      using n by (auto simp: strip_prefix_Some)
    have "l' = l"
      using in_assignments [OF e(2)] y(1) list_path_eq lists_quotable assms e(1) by (metis fst_conv)
    then have "rules' = rules"
      using one_list assms e(1) by blast
    then show ?thesis
      using e \<open>l' = l\<close> y names_quotable [OF assms]
      by (auto simp: group_assignments_set assignments_set rule_path_def)
  qed
  have key: "map_option key_name (strip_prefix ?p (rule_path l (r_name r) @ x)) = Some (r_name r)"
    if "r \<in> set rules" for r x
  proof -
    have "rule_path l (r_name r) @ x = ?p @ r_name r @ apostrophe # '']/'' @ x"
      by (simp add: rule_path_def)
    then show ?thesis
      using names_quotable [OF assms that] strip_prefix_append by (metis key_name_quote option.simps(9))
  qed
  have "(rule_path l (r_name r) @ ''action'', r_action r) \<in> set (leaves_of gs)" if "r \<in> set rules" for r
    using that assms unfolding leaves_set group_assignments_set assignments_set by blast
  then have "r_name r \<in> set (rule_names l (leaves_of gs))" if "r \<in> set rules" for r
    using key [OF that] that unfolding rule_names_iff by blast
  moreover have "set (rule_names l (leaves_of gs)) \<subseteq> r_name ` set rules"
    using own unfolding rule_names_iff subset_iff by blast
  ultimately show ?thesis
    by blast
qed

lemma rules_of_set:
  "set (rules_of (leaves_of gs) g) =
     (\<Union>(l, g', rules) \<in> {e \<in> set gs. fst (snd e) = g}.
        (\<lambda>r. (Some (r_module r), Some (r_operations r), Some (r_action r))) ` set rules)"
proof -
  let ?t = "\<lambda>r. (Some (r_module r), Some (r_operations r), Some (r_action r))"
  let ?r = "\<lambda>l n. (leaf (leaves_of gs) (rule_path l n @ ''module-name''),
    leaf (leaves_of gs) (rule_path l n @ ''access-operations''), leaf (leaves_of gs) (rule_path l n @ ''action''))"
  have row: "?r l ` set (rule_names l (leaves_of gs)) = ?t ` set rules"
    if "(l, g', rules) \<in> set gs" for l g' rules
    using leaf_rule [OF that] by (auto simp: rule_names_set [OF that] image_image intro!: image_cong)
  have "x \<in> set (rules_of (leaves_of gs) g) \<longleftrightarrow>
      (\<exists>l g' rules. (l, g', rules) \<in> set gs \<and> g' = g \<and> x \<in> ?t ` set rules)" for x
  proof
    assume "x \<in> set (rules_of (leaves_of gs) g)"
    then obtain l where l: "l \<in> set (rule_lists (leaves_of gs))" "leaf (leaves_of gs) (list_path l @ ''group'') = Some g"
      "x \<in> ?r l ` set (rule_names l (leaves_of gs))"
      by (auto simp: rules_of_def split: if_splits)
    from l(1) obtain g' rules where e: "(l, g', rules) \<in> set gs"
      using rule_lists_set by auto
    have "g' = g" "x \<in> ?t ` set rules"
      using l leaf_group [OF e] row [OF e] by simp_all
    then show "\<exists>l g' rules. (l, g', rules) \<in> set gs \<and> g' = g \<and> x \<in> ?t ` set rules"
      using e by blast
  next
    assume "\<exists>l g' rules. (l, g', rules) \<in> set gs \<and> g' = g \<and> x \<in> ?t ` set rules"
    then obtain l rules where e: "(l, g, rules) \<in> set gs" "x \<in> ?t ` set rules"
      by blast
    then have "l \<in> set (rule_lists (leaves_of gs))" "x \<in> ?r l ` set (rule_names l (leaves_of gs))"
      "leaf (leaves_of gs) (list_path l @ ''group'') = Some g"
      using rule_lists_set row [OF e(1)] leaf_group [OF e(1)] by auto
    then show "x \<in> set (rules_of (leaves_of gs) g)"
      by (auto simp: rules_of_def)
  qed
  then show ?thesis
    by fastforce
qed

end

end
