(* ===== verification/NacmSafety.thy ===== *)
theory NacmSafety
  imports NacmGrants
begin

text \<open>
  The rules that the server writes grant what the table of permissions says, and the handler refuses
  every later change of them.
\<close>

section \<open>The names of the rules\<close>

lemma matrix_modules:
  "distinct (map fst permission_matrix)" "list_all (\<lambda>(m, row). quote_free m) permission_matrix"
  by (simp_all add: permission_matrix_def quote_free_def)

lemma matrix_suffixes:
  "list_all (\<lambda>(m, row). strip_prefix (rev ''-permit-write'') (rev m) = None) permission_matrix"
  "list_all (\<lambda>(m, row). strip_prefix (rev ''-deny-exec'') (rev m) = None) permission_matrix"
  "list_all (\<lambda>(m, row). strip_prefix (rev ''-deny-read'') (rev m) = None) permission_matrix"
  by (simp_all add: permission_matrix_def)

lemma matrix_shapes:
  "list_all (\<lambda>(m, row). length row = 7 \<and> list_all (\<lambda>p. p \<in> set shapes) row) permission_matrix"
  by (simp add: permission_matrix_def shapes_def)

lemma rules_for_name:
  assumes "r \<in> set (rules_for g m p)"
  shows "r_module r = m \<and>
    (\<exists>e \<in> {[], ''-permit-write'', ''-deny-exec'', ''-deny-read''}. r_name r = g @ ''-'' @ m @ e)"
  using assms by (auto simp: rules_for_def Let_def split: if_splits)

lemma rules_for_distinct: "distinct (map r_name (rules_for g m p))"
  by (simp add: rules_for_def Let_def)

lemma no_suffix: "strip_prefix (rev e) (rev m) = None \<Longrightarrow> m \<noteq> m' @ e"
  by auto

lemma names_of_modules:
  assumes m: "m \<in> fst ` set permission_matrix" and m': "m' \<in> fst ` set permission_matrix"
    and e: "e \<in> {[], ''-permit-write'', ''-deny-exec'', ''-deny-read''}"
    and e': "e' \<in> {[], ''-permit-write'', ''-deny-exec'', ''-deny-read''}"
    and eq: "m @ e = m' @ e'"
  shows "m = m'"
proof -
  have none: "x \<noteq> y @ ''-permit-write''" "x \<noteq> y @ ''-deny-exec''" "x \<noteq> y @ ''-deny-read''"
    if "x \<in> fst ` set permission_matrix" for x y
    using that matrix_suffixes no_suffix unfolding list_all_iff by fastforce+
  have "e = [] \<longleftrightarrow> e' = []"
    using e e' eq none [OF m, of m'] none [OF m', of m] by auto
  moreover have "e \<noteq> [] \<Longrightarrow> e' \<noteq> [] \<Longrightarrow> last e = last e'"
    using eq by (metis last_appendR)
  ultimately have "e = e'"
    using e e' by auto
  then show ?thesis
    using eq by simp
qed

lemma generated_mem:
  "r \<in> set (generated g i) \<longleftrightarrow> (\<exists>(m, row) \<in> set permission_matrix. r \<in> set (rules_for g m (row ! i)))"
  by (auto simp: generated_def)

lemma generated_distinct: "distinct (map r_name (generated g i))"
proof -
  have "distinct (map r_name (concat (map (\<lambda>(m, row). rules_for g m (row ! i)) ms)))"
    if "set ms \<subseteq> set permission_matrix" "distinct (map fst ms)" for ms
    using that
  proof (induction ms)
    case (Cons e ms)
    obtain m row where e: "e = (m, row)"
      by (cases e)
    have "r_name r \<noteq> r_name r'"
      if r: "r \<in> set (rules_for g m (row ! i))" and r': "(m', row') \<in> set ms" "r' \<in> set (rules_for g m' (row' ! i))"
      for r r' m' row'
    proof
      assume eq: "r_name r = r_name r'"
      let ?E = "{[], ''-permit-write'', ''-deny-exec'', ''-deny-read''}"
      obtain a where a: "a \<in> ?E" "r_name r = g @ ''-'' @ m @ a"
        using rules_for_name [OF r] by blast
      obtain b where b: "b \<in> ?E" "r_name r' = g @ ''-'' @ m' @ b"
        using rules_for_name [OF r'(2)] by blast
      have "m \<in> fst ` set permission_matrix" "m' \<in> fst ` set permission_matrix"
        using Cons.prems(1) e r'(1) by force+
      moreover have "m @ a = m' @ b"
        using a(2) b(2) eq by simp
      ultimately have "m = m'"
        using names_of_modules a(1) b(1) by blast
      then show False
        using Cons.prems(2) e r'(1) by force
    qed
    then show ?case
      using Cons e rules_for_distinct by fastforce
  qed simp
  then show ?thesis
    using matrix_modules(1) by (simp add: generated_def)
qed

lemma generated_quotable:
  assumes "r \<in> set (generated g i)" "quote_free g"
  shows "quote_free (r_name r)"
proof -
  obtain m row where "(m, row) \<in> set permission_matrix" "r \<in> set (rules_for g m (row ! i))"
    using assms(1) unfolding generated_mem by blast
  then show ?thesis
    using rules_for_name [of r g m "row ! i"] matrix_modules(2) assms(2)
    by (fastforce simp: list_all_iff quote_free_def)
qed

section \<open>The rules of the handler\<close>

definition nacm_rule_sets :: "(string \<times> string \<times> nacm_rule list) list" where
  "nacm_rule_sets =
     [(''sudo-rules'', ''sudo'', sudo_rules), (''nms-rules'', ''nms'', nms_rules),
      (''fm-pm-rules'', ''fm-pm'', fmpm_rules), (''swm-rules'', ''swm'', swm_rules),
      (''smo-rules'', ''smo'', smo_rules), (''hybrid-odu-rules'', ''hybrid-odu'', hybridodu_rules),
      (''root-rules'', ''root'', root_rules)]"

lemmas rules_generated =
  sudo_generated nms_generated fmpm_generated swm_generated smo_generated hybridodu_generated root_generated

lemma nacm_rule_sets_map:
  "nacm_rule_sets = map (\<lambda>i. (nacm_groups ! i @ ''-rules'', nacm_groups ! i, generated (nacm_groups ! i) i)) [0..<7]"
proof -
  have "[0..<7] = [0, 1, 2, 3, 4, 5, 6 :: nat]"
    by (simp add: upt_conv_Cons eval_nat_numeral)
  then show ?thesis
    unfolding nacm_rule_sets_def rules_generated by (simp add: nacm_groups_def)
qed

lemma nacm_rule_sets_mem:
  "(l, g, rules) \<in> set nacm_rule_sets \<longleftrightarrow>
     (\<exists>i < 7. l = nacm_groups ! i @ ''-rules'' \<and> g = nacm_groups ! i \<and> rules = generated g i)"
  by (auto simp: nacm_rule_sets_map)

lemma groups_quotable: "list_all quote_free nacm_groups" "distinct nacm_groups" "length nacm_groups = 7"
  by (simp_all add: nacm_groups_def quote_free_def)

lemma group_quotable: "i < 7 \<Longrightarrow> quote_free (nacm_groups ! i)"
  using groups_quotable by (simp add: list_all_length)

interpretation nacm: rule_sets nacm_rule_sets
proof
  show "distinct (map fst nacm_rule_sets)"
    by (simp add: nacm_rule_sets_def)
  fix l g rules
  assume "(l, g, rules) \<in> set nacm_rule_sets"
  then obtain i where i: "i < 7" "l = nacm_groups ! i @ ''-rules''" "rules = generated (nacm_groups ! i) i"
    unfolding nacm_rule_sets_mem by blast
  show "quote_free l"
    using group_quotable [OF i(1)] i(2) by (simp add: quote_free_def)
  show "distinct (map r_name rules)"
    using i(3) generated_distinct by simp
  show "quote_free (r_name r)" if "r \<in> set rules" for r
    using generated_quotable group_quotable i that by simp
qed

lemma image_of_module:
  "x \<in> (\<lambda>r. (Some (r_module r), Some (r_operations r), Some (r_action r))) ` A \<and> fst x = Some m \<longleftrightarrow>
   x \<in> (\<lambda>r. (Some (r_module r), Some (r_operations r), Some (r_action r))) ` {r \<in> A. r_module r = m}"
  by auto

text \<open>The table is what the leaves grant.\<close>

lemma leaves_grant:
  assumes i: "i < 7" and row: "(m, row) \<in> set permission_matrix"
  shows "permissions prot (rules_of (leaves_of nacm_rule_sets) (nacm_groups ! i)) m = under prot (row ! i)"
proof (rule permissions_of)
  let ?g = "nacm_groups ! i"
  show "row ! i \<in> set shapes"
    using matrix_shapes row i by (fastforce simp: list_all_iff)
  have of_module: "r \<in> set (generated ?g i) \<and> r_module r = m \<longleftrightarrow> r \<in> set (rules_for ?g m (row ! i))" for r
  proof
    assume r: "r \<in> set (generated ?g i) \<and> r_module r = m"
    then obtain m' row' where m': "(m', row') \<in> set permission_matrix" "r \<in> set (rules_for ?g m' (row' ! i))"
      unfolding generated_mem by blast
    then have "m' = m"
      using rules_for_name r by blast
    then have "row' = row"
      using eq_key_imp_eq_value [OF matrix_modules(1)] m'(1) row by blast
    then show "r \<in> set (rules_for ?g m (row ! i))"
      using m'(2) \<open>m' = m\<close> by simp
  next
    assume "r \<in> set (rules_for ?g m (row ! i))"
    then show "r \<in> set (generated ?g i) \<and> r_module r = m"
      using rules_for_name row unfolding generated_mem by blast
  qed
  have of_group: "(l, g, rules) \<in> {e \<in> set nacm_rule_sets. fst (snd e) = ?g} \<longleftrightarrow>
      l = ?g @ ''-rules'' \<and> g = ?g \<and> rules = generated ?g i" for l g rules
    using i groups_quotable(2,3) by (auto simp: nacm_rule_sets_mem nth_eq_iff_index_eq)
  have "{e \<in> set nacm_rule_sets. fst (snd e) = ?g} = {(?g @ ''-rules'', ?g, generated ?g i)}"
    using of_group by fast
  then have all: "set (rules_of (leaves_of nacm_rule_sets) ?g) =
      (\<lambda>r. (Some (r_module r), Some (r_operations r), Some (r_action r))) ` set (generated ?g i)"
    unfolding nacm.rules_of_set by simp
  have "set (rules_for ?g m (row ! i)) = {r \<in> set (generated ?g i). r_module r = m}"
    using of_module by blast
  then have acl: "set (acl_of ?g m (row ! i)) =
      (\<lambda>r. (Some (r_module r), Some (r_operations r), Some (r_action r))) ` {r \<in> set (generated ?g i). r_module r = m}"
    by (simp add: acl_of_def)
  show "x \<in> set (rules_of (leaves_of nacm_rule_sets) ?g) \<and> fst x = Some m \<longleftrightarrow> x \<in> set (acl_of ?g m (row ! i))" for x
    unfolding all acl by (rule image_of_module)
qed

section \<open>What the handler writes\<close>

text \<open>The leaves below \<open>nacm\<close> that a sequence of calls writes into the running configuration.\<close>

definition written_leaf :: "sr_call \<times> sr_error option \<Rightarrow> (string \<times> string) option" where
  "written_leaf c =
     (case c of
        (Set_item_str SR_DS_RUNNING p v, None) \<Rightarrow> map_option (\<lambda>k. (k, v)) (strip_prefix ''/ietf-netconf-acm:nacm/'' p)
      | _ \<Rightarrow> None)"

definition written_leaves :: "(sr_call \<times> sr_error option) list \<Rightarrow> (string \<times> string) list" where
  "written_leaves = List.map_filter written_leaf"

lemma written_leaves_simps [simp]:
  "written_leaves [] = []" "written_leaves (as @ bs) = written_leaves as @ written_leaves bs"
  "written_leaves (c # cs) = (case written_leaf c of None \<Rightarrow> written_leaves cs | Some l \<Rightarrow> l # written_leaves cs)"
  by (auto simp: written_leaves_def List.map_filter_def split: option.splits)

definition group_calls :: "string \<times> string \<times> nacm_rule list \<Rightarrow> sr_call list" where
  "group_calls = (\<lambda>(l, g, rules).
     Set_item SR_DS_RUNNING ''/ietf-netconf-acm:nacm'' #
     map (\<lambda>(k, v). Set_item_str SR_DS_RUNNING (''/ietf-netconf-acm:nacm'' @ ''/'' @ k) v) (dataCfg l g rules) @
     [Apply_changes SR_DS_RUNNING])"

lemma written_entries:
  "written_leaves (map (\<lambda>c. (c, None))
     (map (\<lambda>(k, v). Set_item_str SR_DS_RUNNING (''/ietf-netconf-acm:nacm'' @ ''/'' @ k) v) es)) = es"
  by (induction es) (auto simp: written_leaf_def)

lemma written_group_calls: "written_leaves (map (\<lambda>c. (c, None)) (group_calls (l, g, rules))) = dataCfg l g rules"
  using written_entries [of "dataCfg l g rules"] by (simp add: group_calls_def written_leaf_def comp_def)

lemma written_groups:
  "written_leaves (map (\<lambda>c. (c, None)) (concat (map group_calls gs))) = leaves_of gs"
  by (induction gs) (auto simp: leaves_of_def written_group_calls)

lemma add_rules_fine:
  assumes "\<And>cs c. sr_throws sr cs c = None" "ready (hd_ds h)" "mName h = ''ietf-netconf-acm''"
  shows "add_rules sr l g rules h = (Inr True, h\<lparr>hd_ds := calls_made (group_calls (l, g, rules)) (hd_ds h)\<rparr>)"
  using createListEntry_fine [OF assms(1,2)] assms(3)
  by (simp add: add_rules_def hd_createListEntry_def on_ds_def handler_path_def group_calls_def)

lemma or_all_fine:
  assumes "\<And>cs c. sr_throws sr cs c = None"
  shows "\<lbrakk>ready (hd_ds h); mName h = ''ietf-netconf-acm''\<rbrakk> \<Longrightarrow>
    or_all (map (\<lambda>(l, g, rules). add_rules sr l g rules) gs) True h =
      (Inr True, h\<lparr>hd_ds := calls_made (concat (map group_calls gs)) (hd_ds h)\<rparr>)"
  by (induction gs arbitrary: h) (auto simp: add_rules_fine [OF assms])

lemma nacm_initialise_fine:
  assumes "\<And>cs c. sr_throws sr cs c = None" "ready ds" "mValues persist = []"
  shows "nacm_initialise sr (new_nacm persist ds) =
    (Inr True, \<lparr>mName = ''ietf-netconf-acm'',
      hd_ds = (calls_made (concat (map group_calls nacm_rule_sets) @
        [Subscribe_items SR_DS_RUNNING ''ietf-netconf-acm'' ''/ietf-netconf-acm:nacm'',
         Subscribe_changes SR_DS_RUNNING ''ietf-netconf-acm'' None]) ds)\<lparr>mSubscriptions := mSubscriptions ds + 2\<rparr>,
      hd_persist = persist, hd_readOnly = {''/ietf-netconf-acm:nacm''}, hd_rpcs = []\<rparr>)"
proof -
  let ?h = "new_nacm persist ds"
  let ?ds = "calls_made (concat (map group_calls nacm_rule_sets)) ds"
  have h: "ready (hd_ds ?h)" "mName ?h = ''ietf-netconf-acm''" "handler_initialise sr ?h = (True, ?h)"
    using assms(2,3) by (simp_all add: new_nacm_def new_handler_def handler_initialise_def)
  have "[addSudoRules sr, addNmsRules sr, addFmpmRules sr, addSwmRules sr, addSmoRules sr,
      addHybridoduRules sr, addRootRules sr] = map (\<lambda>(l, g, rules). add_rules sr l g rules) nacm_rule_sets"
    by (simp add: nacm_rule_sets_def addSudoRules_def addNmsRules_def addFmpmRules_def addSwmRules_def
        addSmoRules_def addHybridoduRules_def addRootRules_def)
  then have "or_all [addSudoRules sr, addNmsRules sr, addFmpmRules sr, addSwmRules sr, addSmoRules sr,
      addHybridoduRules sr, addRootRules sr] True ?h = (Inr True, ?h\<lparr>hd_ds := ?ds\<rparr>)"
    using or_all_fine [OF assms(1) h(1,2)] by (simp add: new_nacm_def new_handler_def)
  moreover have "ready ?ds" "ready ((calls_made cs ?ds)\<lparr>mSubscriptions := n\<rparr>)" for cs n
    using assms(2) by (simp_all add: ready_def calls_made_def)
  ultimately show ?thesis
    using h(3) subscribe_fine [OF assms(1)]
    by (simp add: nacm_initialise_def hd_makeReadOnly_def handler_path_def hd_getItemsSubscribe_def
        getItemsSubscribe_def hd_changeSubscribe_def itemsChangeSubscribe_def on_ds_def new_nacm_def new_handler_def)
      (simp add: calls_made_def)
qed

lemma nacm_rules_granted:
  assumes "\<And>cs c. sr_throws sr cs c = None" "ready ds" "mValues persist = []"
  shows "let (r, h) = nacm_initialise sr (new_nacm persist ds);
             written = written_leaves (drop (length (sr_calls ds)) (sr_calls (hd_ds h)))
         in r = Inr True \<and>
            grants_exactly written"
proof -
  let ?h = "snd (nacm_initialise sr (new_nacm persist ds))"
  have written: "written_leaves (drop (length (sr_calls ds)) (sr_calls (hd_ds ?h))) = leaves_of nacm_rule_sets"
    by (simp add: nacm_initialise_fine [OF assms] calls_made_def written_groups)
      (simp add: written_leaf_def)
  have row: "map (\<lambda>g. permissions prot (rules_of (leaves_of nacm_rule_sets) g) m) nacm_groups = map (under prot) row"
    if "(m, row) \<in> set permission_matrix" for prot m row
  proof (rule nth_equalityI)
    have "length row = 7"
      using matrix_shapes that unfolding list_all_iff by fastforce
    then show "length (map (\<lambda>g. permissions prot (rules_of (leaves_of nacm_rule_sets) g) m) nacm_groups) =
        length (map (under prot) row)"
      using groups_quotable(3) by simp
    with \<open>length row = 7\<close> show "i < length (map (\<lambda>g. permissions prot (rules_of (leaves_of nacm_rule_sets) g) m) nacm_groups) \<Longrightarrow>
        map (\<lambda>g. permissions prot (rules_of (leaves_of nacm_rule_sets) g) m) nacm_groups ! i = map (under prot) row ! i" for i
      using leaves_grant [of i m row prot] that groups_quotable(3) by simp
  qed
  then have "map (\<lambda>(m, _). (m, map (\<lambda>g. permissions prot (rules_of (leaves_of nacm_rule_sets) g) m) nacm_groups))
      permission_matrix = map (\<lambda>(m, row). (m, map (under prot) row)) permission_matrix" for prot
    by (intro map_cong) auto
  then have "grants_exactly (leaves_of nacm_rule_sets)"
    by (simp add: grants_exactly_def)
  then show ?thesis
    using written nacm_initialise_fine [OF assms] by (simp add: Let_def split: prod.split)
qed

text \<open>
  The rules that the server writes when it starts grant every group, on every module, exactly
  what the table of permissions says, by the decisions of RFC 8341; of the nodes that deny all by default
  only writing, where the table has it.
\<close>

theorem nacm_rules_grant_table:
  assumes "\<And>cs c. sr_throws sr cs c = None" "ready ds" "mValues persist = []"
  shows "let (r, h) = nacm_initialise sr (new_nacm persist ds);
             written = written_leaves (drop (length (sr_calls ds)) (sr_calls (hd_ds h)))
         in r = Inr True \<and>
            grants_exactly written"
  by (rule nacm_rules_granted [OF assms])

definition quiet_sysrepo :: sysrepo where
  "quiet_sysrepo = \<lparr>sr_throws = (\<lambda>cs c. None), sr_value_of = (\<lambda>cs ds p. None), sr_values_of = (\<lambda>cs ds p. None),
      sr_has_module = (\<lambda>cs n. False)\<rparr>"

definition nacm_persist :: yang_persist where
  "nacm_persist = \<lparr>mYangModelName = ''ietf-netconf-acm'', mDirty = False, mValues = [], mPersistPaths = {}\<rparr>"

definition active_datastore :: datastore where
  "active_datastore = new_datastore\<lparr>mState := ACTIVE, mSrConnection := True, mSrSessions := [SR_DS_RUNNING, SR_DS_OPERATIONAL]\<rparr>"

theorem nacm_rules_grant_table_witness:
  "let (r, h) = nacm_initialise quiet_sysrepo (new_nacm nacm_persist active_datastore);
       written = written_leaves (drop (length (sr_calls active_datastore)) (sr_calls (hd_ds h)))
   in r = Inr True \<and>
      grants_exactly written"
  by (rule nacm_rules_grant_table)
    (simp_all add: quiet_sysrepo_def active_datastore_def nacm_persist_def ready_def)

section \<open>Later changes\<close>

lemma value_path_known: "value_path c p \<noteq> p \<Longrightarrow> value_path c q = value_path c p"
  by (auto simp: value_path_def split: sr_oper.splits option.splits)

lemma check_changes_refuses:
  "\<lbrakk>c \<in> set cs; startsWith (value_path c []) p; p \<noteq> []; p \<in> ro\<rbrakk> \<Longrightarrow> check_changes ro q cs = SR_ERR_VALIDATION_FAILED"
proof (induction cs arbitrary: q)
  case (Cons d cs)
  have "value_path c [] \<noteq> []"
    using Cons.prems(2,3) by (auto simp: startsWith_def)
  then have "value_path c q = value_path c []"
    using value_path_known by metis
  then show ?case
    using Cons \<open>value_path c [] \<noteq> []\<close> by (auto simp: Let_def)
qed simp

lemma add_rules_name: "mName (snd (add_rules sr l g rules h)) = mName h"
proof -
  obtain r h' where e: "hd_createListEntry sr (handler_path h ''nacm'') (dataCfg l g rules) h = (r, h')"
    by (cases "hd_createListEntry sr (handler_path h ''nacm'') (dataCfg l g rules) h")
  then have "mName h' = mName h"
    using on_ds_frame(1) unfolding hd_createListEntry_def by (metis snd_conv)
  then show ?thesis
    using e by (simp add: add_rules_def split: sum.split)
qed

lemma or_all_name:
  "\<lbrakk>\<And>f h. f \<in> set fs \<Longrightarrow> mName (snd (f h)) = mName h; or_all fs ok h = (r, h')\<rbrakk> \<Longrightarrow> mName h' = mName h"
proof (induction fs arbitrary: ok h)
  case (Cons f fs)
  obtain x h1 where f: "f h = (x, h1)"
    by (cases "f h")
  then have "mName h1 = mName h"
    using Cons.prems(1) [of f h] by simp
  then show ?case
    using Cons f by (auto split: sum.splits)
qed simp

lemma handler_initialise_name: "mName (snd (handler_initialise sr h)) = mName h"
proof -
  have "mName (fold (\<lambda>(xpath, v) h. snd (on_ds (setItemStr sr xpath v 0) h)) es h) = mName h" for es
    by (induction es arbitrary: h) (auto simp: split: prod.split)
  then show ?thesis
    by (simp add: handler_initialise_def)
qed

lemma nacm_initialise_readOnly:
  assumes "nacm_initialise sr h = (Inr ok, h')"
  obtains h0 where "mName h0 = mName h" "hd_readOnly h' = insert (handler_path h0 ''nacm'') (hd_readOnly h0)"
proof -
  obtain b h1 where h1: "handler_initialise sr h = (b, h1)" "mName h1 = mName h"
    using handler_initialise_name [of sr h] by (cases "handler_initialise sr h") simp
  let ?fs = "[addSudoRules sr, addNmsRules sr, addFmpmRules sr, addSwmRules sr, addSmoRules sr,
      addHybridoduRules sr, addRootRules sr]"
  obtain r h2 where h2: "or_all ?fs True h1 = (r, h2)"
    by (cases "or_all ?fs True h1")
  have "mName h2 = mName h1"
    by (rule or_all_name [OF _ h2])
      (auto simp: add_rules_name addSudoRules_def addNmsRules_def addFmpmRules_def addSwmRules_def addSmoRules_def
        addHybridoduRules_def addRootRules_def)
  moreover have b: "b"
    using h1(1) by (auto simp: handler_initialise_def split: if_splits)
  moreover have "hd_readOnly h' = insert (handler_path h2 ''nacm'') (hd_readOnly h2)"
    using assms h1(1) h2 b
    by (auto simp: nacm_initialise_def Let_def hd_changeSubscribe_def hd_getItemsSubscribe_def hd_makeReadOnly_def
        split: sum.splits simp del: or_all.simps)
  ultimately show ?thesis
    using that h1(2) by simp
qed

text \<open>
  C11: once the handler has started, a change of anything below \<open>nacm\<close> is refused and leaves the
  handler as it is, whatever else changes with it.
\<close>

theorem nacm_change_refused:
  assumes "nacm_initialise sr (new_nacm persist ds) = (Inr ok, h)"
    and "c \<in> set changes" "startsWith (value_path c []) ''/ietf-netconf-acm:nacm''"
  shows "module_change dbl (nacm_hooks store complete) (changeSubscribe []) SR_EV_CHANGE changes h = (SR_ERR_VALIDATION_FAILED, h)"
proof -
  let ?p = "''/ietf-netconf-acm:nacm''"
  obtain h0 where "mName h0 = ''ietf-netconf-acm''" "hd_readOnly h = insert (handler_path h0 ''nacm'') (hd_readOnly h0)"
    by (rule nacm_initialise_readOnly [OF assms(1)]) (simp add: new_nacm_def new_handler_def)
  then have "?p \<in> hd_readOnly h"
    by (simp add: handler_path_def)
  then have "checkPseudoReadOnly (hd_readOnly h) changes = SR_ERR_VALIDATION_FAILED"
    using check_changes_refuses [OF assms(2,3)] by (auto simp: checkPseudoReadOnly_def)
  then show ?thesis
    by (simp add: module_change_def nacm_hooks_def)
qed

theorem nacm_change_refused_witness:
  "let h = snd (nacm_initialise quiet_sysrepo (new_nacm nacm_persist active_datastore));
       c = \<lparr>c_oper = SR_OP_CREATED, c_old = None, c_new = Some \<lparr>v_xpath = ''/ietf-netconf-acm:nacm/enable-nacm'', v_data = SR_BOOL False\<rparr>\<rparr>
   in module_change (\<lambda>d. []) (nacm_hooks (\<lambda>v h. (None, h)) (\<lambda>h. (None, h))) (changeSubscribe []) SR_EV_CHANGE [c] h =
        (SR_ERR_VALIDATION_FAILED, h)"
proof -
  have "fst (nacm_initialise quiet_sysrepo (new_nacm nacm_persist active_datastore)) = Inr True"
    by (subst nacm_initialise_fine) (simp_all add: quiet_sysrepo_def active_datastore_def nacm_persist_def ready_def)
  then show ?thesis
    unfolding Let_def
    by (intro nacm_change_refused [where c = "\<lparr>c_oper = SR_OP_CREATED, c_old = None,
        c_new = Some \<lparr>v_xpath = ''/ietf-netconf-acm:nacm/enable-nacm'', v_data = SR_BOOL False\<rparr>\<rparr>"])
      (auto simp: value_path_def startsWith_def prod_eq_iff)
qed

section \<open>A failed start\<close>

lemma not_active:
  assumes "mState s \<noteq> ACTIVE"
  shows "createListEntry sr xpath values i s = (Inr YANG_FAIL, s)" "setItemStr sr xpath v i s = (Inr YANG_FAIL, s)"
    "subscribe sr call i s = (Inr YANG_FAIL, s)"
  using assms by (simp_all add: createListEntry_def setItemStr_def guarded_def subscribe_def session_def isState_def)

text \<open>
  When the data store is not active the handler reports that it has started, although it has
  written no rule and made no subscription.
\<close>

theorem nacm_start_hides_failure:
  assumes "mState ds \<noteq> ACTIVE"
  shows "fst (nacm_initialise sr (new_nacm persist ds)) = Inr True \<and>
    hd_ds (snd (nacm_initialise sr (new_nacm persist ds))) = ds"
proof -
  let ?h = "new_nacm persist ds"
  have "fold (\<lambda>(xpath, v) h. snd (on_ds (setItemStr sr xpath v 0) h)) es ?h = ?h" for es
    using assms by (induction es) (auto simp: not_active on_ds_def new_nacm_def new_handler_def)
  then have "handler_initialise sr ?h = (True, ?h)"
    by (simp add: handler_initialise_def)
  moreover have "add_rules sr l g rules ?h = (Inr False, ?h)" for l g rules
    using assms by (simp add: add_rules_def hd_createListEntry_def on_ds_def not_active new_nacm_def new_handler_def)
  ultimately show ?thesis
    using assms
    by (simp add: nacm_initialise_def addSudoRules_def addNmsRules_def addFmpmRules_def addSwmRules_def addSmoRules_def
        addHybridoduRules_def addRootRules_def Let_def hd_makeReadOnly_def hd_getItemsSubscribe_def
        hd_changeSubscribe_def getItemsSubscribe_def itemsChangeSubscribe_def not_active on_ds_def new_nacm_def new_handler_def)
qed

theorem nacm_start_hides_failure_witness:
  "fst (nacm_initialise quiet_sysrepo (new_nacm nacm_persist new_datastore)) = Inr True \<and>
   hd_ds (snd (nacm_initialise quiet_sysrepo (new_nacm nacm_persist new_datastore))) = new_datastore"
  by (rule nacm_start_hides_failure) (simp add: new_datastore_def)

end
