(* ===== verification/ServerStart.thy ===== *)
theory ServerStart
  imports ModuleStart NacmSafety
begin

text \<open>
  The start of the server as a whole: the manager of the modules, then the handlers
  (\<open>YangHandlerMgr.cpp\<close>), one of which writes the access rules.
\<close>

section \<open>The handlers\<close>

text \<open>\<open>initialise\<close>: every handler is started, also after one that failed, and then the carriers.\<close>

fun start_handlers :: "('s \<Rightarrow> ('e + bool) \<times> 's) list \<Rightarrow> bool \<Rightarrow> 's \<Rightarrow> ('e + bool) \<times> 's" where
  "start_handlers [] ok s = (Inr ok, s)"
| "start_handlers (f # fs) ok s =
     (case f s of (Inl e, s) \<Rightarrow> (Inl e, s) | (Inr b, s) \<Rightarrow> start_handlers fs (ok \<and> b) s)"

definition handlers_initialise ::
    "('s \<Rightarrow> ('e + bool) \<times> 's) list \<Rightarrow> ('s \<Rightarrow> ('e + bool) \<times> 's) \<Rightarrow> 's \<Rightarrow> ('e + bool) \<times> 's" where
  "handlers_initialise mHandlers carrierMgr s = start_handlers (mHandlers @ [carrierMgr]) True s"

definition registerHandler :: "'h \<Rightarrow> 'h list \<Rightarrow> bool \<times> 'h list" where
  "registerHandler handler mHandlers = (True, mHandlers @ [handler])"

text \<open>The state of a handler that uses the data store of the manager.\<close>

definition nacm_of :: "yang_persist \<Rightarrow> 'v module_mgr \<Rightarrow> handler" where
  "nacm_of persist m = new_nacm persist (the (mRadioDs m))"

text \<open>
  Once the manager reports that it has started, the start of the handler writes rules that grant
  every group exactly what the table of permissions says.
\<close>

theorem started_server_grants_table:
  assumes "\<And>cs c. sr_throws (m_sysrepo env) cs c = None"
    and "module_mgr_initialise env createModules m = (Inr YANG_OK, m')" "mValues persist = []"
  shows "let (r, h) = nacm_initialise (m_sysrepo env) (nacm_of persist m');
             written = written_leaves (drop (length (sr_calls (the (mRadioDs m')))) (sr_calls (hd_ds h)))
         in r = Inr True \<and>
            grants_exactly written"
proof -
  have "honest (m_sysrepo env)"
    using assms(1) by (simp add: honest_def)
  then obtain ds where "mRadioDs m' = Some ds" "ready ds"
    using mgr_started_ready assms(2) by blast
  then show ?thesis
    using nacm_rules_granted [OF assms(1) _ assms(3), of ds] by (simp add: nacm_of_def)
qed

theorem started_server_grants_table_witness:
  "\<exists>m'. module_mgr_initialise fine_env createModules (new_mgr :: nat module_mgr) = (Inr YANG_OK, m') \<and>
    (let (r, h) = nacm_initialise (m_sysrepo fine_env) (nacm_of nacm_persist m');
         written = written_leaves (drop (length (sr_calls (the (mRadioDs m')))) (sr_calls (hd_ds h)))
     in r = Inr True \<and>
        grants_exactly written)"
proof -
  obtain m' where m': "module_mgr_initialise fine_env createModules (new_mgr :: nat module_mgr) = (Inr YANG_OK, m')"
    using server_start_quiet [of fine_env empty_config new_mgr] by (auto simp: fine_env_def empty_config_names)
  have "\<And>cs c. sr_throws (m_sysrepo fine_env) cs c = None" "mValues nacm_persist = []"
    by (simp_all add: fine_env_def nacm_persist_def)
  then show ?thesis
    using started_server_grants_table [OF _ m'] m' by blast
qed

end
