(* ===== verification/LogHistory.thy ===== *)
theory LogHistory
  imports Prelude
begin

text \<open>
  \<open>LogHistoryBuffer.cpp\<close>: the last messages of the log. The mutex makes every operation one step;
  the time of a message, as \<open>strftime\<close> gives it, is an argument.
\<close>

section \<open>State and operations\<close>

datatype log_level = LOG_NONE | LOG_DEBUG | LOG_INFO | LOG_DATA | LOG_WARNING | LOG_ERROR | LOG_FATAL

fun level_number :: "log_level \<Rightarrow> nat" where
  "level_number LOG_NONE = 0"
| "level_number LOG_DEBUG = 1"
| "level_number LOG_INFO = 2"
| "level_number LOG_DATA = 3"
| "level_number LOG_WARNING = 4"
| "level_number LOG_ERROR = 5"
| "level_number LOG_FATAL = 6"

record log_history =
  mBuffer :: "string list"
  mLevel :: log_level
  mDepth :: nat

definition new_history :: log_history where
  "new_history = \<lparr>mBuffer = [], mLevel = LOG_WARNING, mDepth = 512\<rparr>"

definition setHistoryDepth :: "nat \<Rightarrow> log_history \<Rightarrow> log_history" where
  "setHistoryDepth depth h = (if depth = 0 then h else h\<lparr>mDepth := depth\<rparr>)"

definition clear :: "log_history \<Rightarrow> log_history" where
  "clear h = h\<lparr>mBuffer := []\<rparr>"

definition getHistory :: "log_history \<Rightarrow> string list" where
  "getHistory h = mBuffer h"

definition show_history :: "log_history \<Rightarrow> string list" where
  "show_history h = [''-- Log History --''] @ getHistory h @ [''-----------------'']"

definition setLogLevel :: "log_level \<Rightarrow> log_history \<Rightarrow> log_history" where
  "setLogLevel level h = h\<lparr>mLevel := level\<rparr>"

definition addLog :: "string \<Rightarrow> string \<Rightarrow> string \<Rightarrow> log_history \<Rightarrow> log_history" where
  "addLog time type log h =
     (let h = (if length (mBuffer h) = mDepth h then h\<lparr>mBuffer := tl (mBuffer h)\<rparr> else h) in
      h\<lparr>mBuffer := mBuffer h @ [time @ '' ['' @ type @ ''] '' @ log]\<rparr>)"

definition log_at :: "log_level \<Rightarrow> string \<Rightarrow> string \<Rightarrow> string \<Rightarrow> log_history \<Rightarrow> log_history" where
  "log_at level type time log h = (if level_number (mLevel h) > level_number level then h else addLog time type log h)"

definition logData :: "string \<Rightarrow> string \<Rightarrow> log_history \<Rightarrow> log_history" where
  "logData = log_at LOG_DATA ''DATA''"

definition logInfo :: "string \<Rightarrow> string \<Rightarrow> log_history \<Rightarrow> log_history" where
  "logInfo = log_at LOG_INFO ''INFO''"

definition logWarning :: "string \<Rightarrow> string \<Rightarrow> log_history \<Rightarrow> log_history" where
  "logWarning = log_at LOG_WARNING ''WARN''"

definition logError :: "string \<Rightarrow> string \<Rightarrow> log_history \<Rightarrow> log_history" where
  "logError = log_at LOG_ERROR ''ERROR''"

definition logFatal :: "string \<Rightarrow> string \<Rightarrow> log_history \<Rightarrow> log_history" where
  "logFatal = log_at LOG_FATAL ''FATAL''"

definition logDebug :: "string \<Rightarrow> string \<Rightarrow> log_history \<Rightarrow> log_history" where
  "logDebug = log_at LOG_DEBUG ''DEBUG''"

section \<open>What is kept\<close>

text \<open>A message: which operation, the time and the text.\<close>

datatype message = Data string string | Info string string | Warn string string
  | Error string string | Fatal string string | Debug string string

fun log_message :: "message \<Rightarrow> log_history \<Rightarrow> log_history" where
  "log_message (Data t s) = logData t s"
| "log_message (Info t s) = logInfo t s"
| "log_message (Warn t s) = logWarning t s"
| "log_message (Error t s) = logError t s"
| "log_message (Fatal t s) = logFatal t s"
| "log_message (Debug t s) = logDebug t s"

fun message_level :: "message \<Rightarrow> log_level" where
  "message_level (Data t s) = LOG_DATA"
| "message_level (Info t s) = LOG_INFO"
| "message_level (Warn t s) = LOG_WARNING"
| "message_level (Error t s) = LOG_ERROR"
| "message_level (Fatal t s) = LOG_FATAL"
| "message_level (Debug t s) = LOG_DEBUG"

fun message_text :: "message \<Rightarrow> string" where
  "message_text (Data t s) = t @ '' [DATA] '' @ s"
| "message_text (Info t s) = t @ '' [INFO] '' @ s"
| "message_text (Warn t s) = t @ '' [WARN] '' @ s"
| "message_text (Error t s) = t @ '' [ERROR] '' @ s"
| "message_text (Fatal t s) = t @ '' [FATAL] '' @ s"
| "message_text (Debug t s) = t @ '' [DEBUG] '' @ s"

text \<open>The texts of the messages that a level lets through, and the last \<open>n\<close> of a list.\<close>

definition accepted :: "log_level \<Rightarrow> message list \<Rightarrow> string list" where
  "accepted level ms = map message_text (filter (\<lambda>m. level_number level \<le> level_number (message_level m)) ms)"

definition last_of :: "nat \<Rightarrow> 'a list \<Rightarrow> 'a list" where
  "last_of n xs = drop (length xs - n) xs"

lemma log_message_addLog:
  "log_message m h =
    (if level_number (mLevel h) \<le> level_number (message_level m)
     then h\<lparr>mBuffer := (if length (mBuffer h) = mDepth h then tl (mBuffer h) else mBuffer h) @ [message_text m]\<rparr> else h)"
  by (cases m) (simp_all add: logData_def logInfo_def logWarning_def logError_def logFatal_def logDebug_def
      log_at_def addLog_def)

lemma last_of_step:
  assumes "0 < d" "length xs \<le> d"
  shows "last_of d ((if length xs = d then tl xs else xs) @ x # ys) = last_of d (xs @ x # ys)"
proof (cases "length xs = d")
  case True
  then obtain a list where "xs = a # list" "d = Suc (length list)"
    using assms(1) by (cases xs) auto
  then show ?thesis
    by (simp add: last_of_def Suc_diff_le)
qed simp

lemma log_messages:
  "\<lbrakk>0 < mDepth h; length (mBuffer h) \<le> mDepth h\<rbrakk> \<Longrightarrow>
    fold log_message ms h = h\<lparr>mBuffer := last_of (mDepth h) (mBuffer h @ accepted (mLevel h) ms)\<rparr>"
proof (induction ms arbitrary: h)
  case (Cons m ms)
  let ?b = "if length (mBuffer h) = mDepth h then tl (mBuffer h) else mBuffer h"
  show ?case
  proof (cases "level_number (mLevel h) \<le> level_number (message_level m)")
    case True
    have "length (?b @ [message_text m]) \<le> mDepth h"
      using Cons.prems by (auto simp: le_Suc_eq)
    then show ?thesis
      using Cons True last_of_step [OF Cons.prems]
      by (simp add: log_message_addLog accepted_def)
  next
    case False
    then show ?thesis
      using Cons by (simp add: log_message_addLog accepted_def)
  qed
qed (simp add: last_of_def accepted_def)

text \<open>
  The history holds the last messages that the level lets through, as many as its depth and in
  their order, when it has not been made shorter than what it holds.
\<close>

theorem history_is_last_messages:
  assumes "0 < mDepth h" "length (mBuffer h) \<le> mDepth h"
  shows "getHistory (fold log_message ms h) = last_of (mDepth h) (getHistory h @ accepted (mLevel h) ms)"
  using log_messages [OF assms] by (simp add: getHistory_def)

theorem history_is_last_messages_witness:
  "getHistory (fold log_message [Warn ''1'' ''a'', Info ''2'' ''b'', Error ''3'' ''c'', Fatal ''4'' ''d'']
      (setHistoryDepth 2 new_history)) = [''3 [ERROR] c'', ''4 [FATAL] d'']"
  using history_is_last_messages [of "setHistoryDepth 2 new_history"
      "[Warn ''1'' ''a'', Info ''2'' ''b'', Error ''3'' ''c'', Fatal ''4'' ''d'']"]
  by (simp add: setHistoryDepth_def new_history_def accepted_def last_of_def getHistory_def)

text \<open>
  A history that has been made shorter than what it holds never drops a message again: it grows
  with every one.
\<close>

theorem history_unbounded_after_shrink:
  assumes "mDepth h < length (getHistory h)"
  shows "getHistory (fold log_message ms h) = getHistory h @ accepted (mLevel h) ms"
  using assms
proof (induction ms arbitrary: h)
  case (Cons m ms)
  show ?case
    using Cons.prems Cons.IH [of "log_message m h"]
    by (simp add: log_message_addLog getHistory_def accepted_def)
qed (simp add: accepted_def)

theorem history_unbounded_after_shrink_witness:
  "length (getHistory (fold log_message (replicate 7 (Error ''3'' ''c''))
      (setHistoryDepth 1 (fold log_message [Warn ''1'' ''a'', Error ''2'' ''b''] new_history)))) = 9"
  by (subst history_unbounded_after_shrink)
    (simp_all add: setHistoryDepth_def new_history_def accepted_def getHistory_def log_message_addLog filter_replicate
      del: log_message.simps)

end
