(* ===== verification/Base64.thy ===== *)
theory Base64
  imports Prelude CppLib
begin

text \<open>
  \<open>Base64.cpp\<close>: data as text of 64 characters and back. The loops collect three bytes, or four
  characters, in an array that is emptied when it is full. \<open>encode\<close> counts with 32 bits;
  \<open>decode\<close> counts with an \<open>int\<close>, and \<open>None\<close> stands for a counter that starts negative.
\<close>

unbundle bit_operations_syntax

section \<open>The characters\<close>

definition base64_chars :: string where
  "base64_chars =
     ''ABCDEFGHIJKLMNOPQRSTUVWXYZ'' @ ''abcdefghijklmnopqrstuvwxyz'' @ ''0123456789+/''"

definition is_base64 :: "char \<Rightarrow> bool" where
  "is_base64 c \<longleftrightarrow>
     CHR ''A'' \<le> c \<and> c \<le> CHR ''Z'' \<or> CHR ''a'' \<le> c \<and> c \<le> CHR ''z'' \<or> CHR ''0'' \<le> c \<and> c \<le> CHR ''9'' \<or>
     c = CHR ''+'' \<or> c = CHR ''/''"

text \<open>\<open>base64_chars.find(c)\<close> kept in an \<open>unsigned char\<close>: a character that is not found gives 255.\<close>

definition base64_find :: "char \<Rightarrow> u8" where
  "base64_find c = (case find_char c base64_chars of Some i \<Rightarrow> of_nat i | None \<Rightarrow> 0xff)"

section \<open>Encoding\<close>

definition char_array_4 :: "u8 list \<Rightarrow> u8 list" where
  "char_array_4 a =
     [drop_bit 2 (a ! 0 AND 0xfc),
      push_bit 4 (a ! 0 AND 0x03) + drop_bit 4 (a ! 1 AND 0xf0),
      push_bit 2 (a ! 1 AND 0x0f) + drop_bit 6 (a ! 2 AND 0xc0),
      a ! 2 AND 0x3f]"

definition to_chars :: "u8 list \<Rightarrow> string" where
  "to_chars a = map (\<lambda>w. base64_chars ! unat w) a"

text \<open>What is left in the array is padded with zeros, and the text with \<open>=\<close>.\<close>

definition encode_rest :: "u8 list \<Rightarrow> string" where
  "encode_rest a =
     (let i = length a in
      if i = 0 then []
      else to_chars (take (i + 1) (char_array_4 (a @ replicate (3 - i) 0))) @ replicate (3 - i) (CHR ''=''))"

fun encode_loop :: "u8 list \<Rightarrow> u8 list \<Rightarrow> string" where
  "encode_loop a [] = encode_rest a"
| "encode_loop a (b # bs) =
     (let a = a @ [b] in
      if length a = 3 then to_chars (char_array_4 a) @ encode_loop [] bs else encode_loop a bs)"

definition encode :: "u8 list \<Rightarrow> string" where
  "encode bs = encode_loop [] (take (length bs mod 2 ^ 32) bs)"

section \<open>Decoding\<close>

definition char_array_3 :: "u8 list \<Rightarrow> u8 list" where
  "char_array_3 a =
     [push_bit 2 (a ! 0) + drop_bit 4 (a ! 1 AND 0x30),
      push_bit 4 (a ! 1 AND 0xf) + drop_bit 2 (a ! 2 AND 0x3c),
      push_bit 6 (a ! 2 AND 0x3) + a ! 3]"

definition decode_rest :: "string \<Rightarrow> u8 list" where
  "decode_rest a =
     (let i = length a in
      if i = 0 then []
      else take (i - 1) (char_array_3 (map base64_find (a @ replicate (4 - i) (CHR 0x00)))))"

fun decode_loop :: "string \<Rightarrow> string \<Rightarrow> u8 list" where
  "decode_loop a [] = decode_rest a"
| "decode_loop a (c # s) =
     (if c = CHR ''='' \<or> \<not> is_base64 c then decode_rest a
      else let a = a @ [c] in
        if length a = 4 then char_array_3 (map base64_find a) @ decode_loop [] s else decode_loop a s)"

definition decode :: "string \<Rightarrow> u8 list option" where
  "decode s =
     (let in_len = length s mod 2 ^ 32 in
      if in_len \<ge> 2 ^ 31 then None else Some (decode_loop [] (take in_len s)))"

section \<open>Bits\<close>

lemma all_less_8: "(\<forall>n < 8. P n) \<longleftrightarrow> P 0 \<and> P 1 \<and> P 2 \<and> P 3 \<and> P 4 \<and> P 5 \<and> P 6 \<and> P (7::nat)"
  by (simp add: numeral_nat All_less_Suc) blast

lemma u8_eqI: "(\<forall>n < 8. bit a n = bit b n) \<Longrightarrow> a = (b :: u8)"
  by (rule bit_word_eqI) simp

lemma u8_plus_or: "(\<forall>n < 8. \<not> bit a n \<or> \<not> bit b n) \<Longrightarrow> a + b = a OR (b :: u8)"
  by (rule disjunctive_add) (use bit_imp_le_length in fastforce)

lemma sextets:
  "push_bit 4 (a AND 0x03) + drop_bit 4 (b AND 0xf0) = push_bit 4 (a AND 0x03) OR drop_bit 4 (b AND (0xf0 :: u8))"
  "push_bit 2 (b AND 0x0f) + drop_bit 6 (c AND 0xc0) = push_bit 2 (b AND 0x0f) OR drop_bit 6 (c AND (0xc0 :: u8))"
  by (rule u8_plus_or, unfold all_less_8, simp add: bit_simps)+

lemma octet_0:
  "push_bit 2 (drop_bit 2 (a AND 0xfc)) +
     drop_bit 4 ((push_bit 4 (a AND 0x03) + drop_bit 4 (b AND 0xf0)) AND 0x30) = (a :: u8)"
proof -
  have "push_bit 2 (drop_bit 2 (a AND 0xfc)) + drop_bit 4 (x AND 0x30) =
      push_bit 2 (drop_bit 2 (a AND 0xfc)) OR drop_bit 4 (x AND (0x30 :: u8))" for x
    by (rule u8_plus_or, unfold all_less_8, simp add: bit_simps)
  then show ?thesis
    unfolding sextets by (simp, intro u8_eqI, unfold all_less_8, simp add: bit_simps)
qed

lemma octet_1:
  "push_bit 4 ((push_bit 4 (a AND 0x03) + drop_bit 4 (b AND 0xf0)) AND 0xf) +
     drop_bit 2 ((push_bit 2 (b AND 0x0f) + drop_bit 6 (c AND 0xc0)) AND 0x3c) = (b :: u8)"
proof -
  have "push_bit 4 (x AND 0xf) + drop_bit 2 (y AND 0x3c) = push_bit 4 (x AND 0xf) OR drop_bit 2 (y AND (0x3c :: u8))" for x y
    by (rule u8_plus_or, unfold all_less_8, simp add: bit_simps)
  then show ?thesis
    unfolding sextets by (simp, intro u8_eqI, unfold all_less_8, simp add: bit_simps)
qed

lemma octet_2:
  "push_bit 6 ((push_bit 2 (b AND 0x0f) + drop_bit 6 (c AND 0xc0)) AND 0x3) + (c AND 0x3f) = (c :: u8)"
proof -
  have "push_bit 6 (x AND 0x3) + (c AND 0x3f) = push_bit 6 (x AND 0x3) OR (c AND (0x3f :: u8))" for x
    by (rule u8_plus_or, unfold all_less_8, simp add: bit_simps)
  then show ?thesis
    unfolding sextets by (simp, intro u8_eqI, unfold all_less_8, simp add: bit_simps)
qed

lemma sextet_small: "w AND 0xc0 = 0 \<Longrightarrow> unat (w :: u8) < 64"
proof -
  assume "w AND 0xc0 = 0"
  then have "\<forall>n < 8. \<not> bit (w AND 0xc0) n"
    by simp
  then have "take_bit 6 w = w"
    by (intro u8_eqI) (simp add: all_less_8 bit_simps)
  then have "unat w = take_bit 6 (unat w)"
    by (metis unsigned_take_bit_eq)
  then show ?thesis
    using take_bit_nat_less_exp [of 6 "unat w"] by simp
qed

lemma char_array_4_Cons:
  "char_array_4 [a, b, c] =
     [drop_bit 2 (a AND 0xfc), push_bit 4 (a AND 0x03) + drop_bit 4 (b AND 0xf0),
      push_bit 2 (b AND 0x0f) + drop_bit 6 (c AND 0xc0), c AND 0x3f]"
  by (simp add: char_array_4_def)

lemma char_array_3_Cons:
  "char_array_3 [p, q, r, s] =
     [push_bit 2 p + drop_bit 4 (q AND 0x30), push_bit 4 (q AND 0xf) + drop_bit 2 (r AND 0x3c), push_bit 6 (r AND 0x3) + s]"
  by (simp add: char_array_3_def numeral_3_eq_3)

lemma char_array_4_small:
  assumes "w \<in> set (char_array_4 [a, b, c])"
  shows "unat w < 64"
proof (rule sextet_small, rule u8_eqI)
  show "\<forall>n < 8. bit (w AND 0xc0) n = bit (0 :: u8) n"
    using assms unfolding char_array_4_Cons sextets all_less_8 by (auto simp: bit_simps)
qed

lemma octets: "char_array_3 (char_array_4 [a, b, c]) = [a, b, c]"
  by (simp only: char_array_4_Cons char_array_3_Cons octet_0 octet_1 octet_2)

text \<open>The second byte of a pair, and the first of one, do not depend on the padding.\<close>

lemma char_array_4_take:
  "take 3 (char_array_4 [a, b, c]) =
     [drop_bit 2 (a AND 0xfc), push_bit 4 (a AND 0x03) + drop_bit 4 (b AND 0xf0),
      push_bit 2 (b AND 0x0f) + drop_bit 6 (c AND 0xc0)]"
  "take 2 (char_array_4 [a, b, c]) = [drop_bit 2 (a AND 0xfc), push_bit 4 (a AND 0x03) + drop_bit 4 (b AND 0xf0)]"
  by (simp_all add: char_array_4_def)

lemma take_one_two: "take 2 (x # y # zs) = [x, y]" "take 1 (x # zs) = [x]"
  by simp_all

lemma octets_padded:
  "take 2 (char_array_3 (take 3 (char_array_4 [a, b, 0]) @ [w])) = [a, b]"
  "take 1 (char_array_3 (take 2 (char_array_4 [a, 0, 0]) @ [v, w])) = [a]"
  by (simp_all only: char_array_4_take append_Cons append_Nil char_array_3_Cons octet_0 octet_1 take_one_two)

section \<open>The characters, found again\<close>

lemma base64_chars_distinct: "distinct base64_chars" "length base64_chars = 64"
  by (simp_all add: base64_chars_def)

lemma base64_chars_valid: "list_all (\<lambda>c. is_base64 c \<and> c \<noteq> CHR ''='') base64_chars"
  by (simp add: base64_chars_def is_base64_def less_eq_char_def)

lemma find_char_nth: "\<lbrakk>distinct s; i < length s\<rbrakk> \<Longrightarrow> find_char (s ! i) s = Some i"
proof (induction s arbitrary: i)
  case (Cons c s)
  then show ?case
    by (cases i) (auto simp: nth_mem)
qed simp

lemma base64_find_char: "unat w < 64 \<Longrightarrow> base64_find (base64_chars ! unat w) = w"
  using find_char_nth [OF base64_chars_distinct(1)] base64_chars_distinct(2) by (simp add: base64_find_def)

lemma find_to_chars: "(\<And>w. w \<in> set ws \<Longrightarrow> unat w < 64) \<Longrightarrow> map base64_find (to_chars ws) = ws"
  by (simp add: to_chars_def base64_find_char map_idI)

lemma to_chars_valid: "\<lbrakk>c \<in> set (to_chars ws); \<And>w. w \<in> set ws \<Longrightarrow> unat w < 64\<rbrakk> \<Longrightarrow> is_base64 c \<and> c \<noteq> CHR ''=''"
  using base64_chars_valid base64_chars_distinct(2) by (auto simp: to_chars_def list_all_length)

section \<open>Round trip\<close>

lemma decode_four:
  assumes "length t = 4" "\<And>c. c \<in> set t \<Longrightarrow> is_base64 c \<and> c \<noteq> CHR ''=''"
  shows "decode_loop [] (t @ s) = char_array_3 (map base64_find t) @ decode_loop [] s"
proof -
  obtain c0 c1 c2 c3 where t: "t = [c0, c1, c2, c3]"
    using assms(1) by (auto simp: length_Suc_conv numeral_eq_Suc)
  show ?thesis
    using assms(2) unfolding t by simp
qed

lemma encode_three: "encode_loop [] (a # b # c # bs) = to_chars (char_array_4 [a, b, c]) @ encode_loop [] bs"
  by simp

lemma length_char_array_4 [simp]: "length (char_array_4 a) = 4" "length (to_chars ws) = length ws"
  by (simp_all add: char_array_4_def to_chars_def)

lemma decode_three:
  "decode_loop [] (to_chars (char_array_4 [a, b, c]) @ s) = [a, b, c] @ decode_loop [] s"
proof -
  have "decode_loop [] (to_chars (char_array_4 [a, b, c]) @ s) =
      char_array_3 (map base64_find (to_chars (char_array_4 [a, b, c]))) @ decode_loop [] s"
    by (rule decode_four) (use to_chars_valid char_array_4_small in \<open>auto simp del: to_chars_valid\<close>)
  then show ?thesis
    using find_to_chars [of "char_array_4 [a, b, c]"] char_array_4_small by (simp add: octets)
qed

lemma decode_partial:
  assumes "length t < 4" "\<And>c. c \<in> set t \<Longrightarrow> is_base64 c \<and> c \<noteq> CHR ''=''"
  shows "decode_loop [] (t @ CHR ''='' # s) = decode_rest t"
proof -
  have "decode_loop a (t @ CHR ''='' # s) = decode_rest (a @ t)" if "length a + length t < 4" for a
    using that assms(2)
  proof (induction t arbitrary: a)
    case (Cons c t)
    then show ?case
      using Cons.IH [of "a @ [c]"] by auto
  qed simp
  then show ?thesis
    using assms(1) by simp
qed

fun threes :: "u8 list \<Rightarrow> nat" where
  "threes (a # b # c # bs) = Suc (threes bs)"
| "threes bs = 0"

lemma decode_encode_two: "decode_loop [] (encode_loop [] [a, b]) = [a, b]"
proof -
  let ?t = "to_chars (take 3 (char_array_4 [a, b, 0]))"
  have small: "unat w < 64" if "w \<in> set (take 3 (char_array_4 [a, b, 0]))" for w
    using that char_array_4_small set_take_subset by fast
  have "encode_loop [] [a, b] = ?t @ [CHR ''='']"
    by (simp add: encode_rest_def numeral_3_eq_3)
  moreover have "decode_loop [] (?t @ [CHR ''='']) = decode_rest ?t"
    by (rule decode_partial) (use to_chars_valid small in auto)
  moreover have "decode_rest ?t = [a, b]"
    using octets_padded(1) [of a b] find_to_chars [OF small] by (simp add: decode_rest_def)
  ultimately show ?thesis
    by simp
qed

lemma decode_encode_one: "decode_loop [] (encode_loop [] [a]) = [a]"
proof -
  let ?t = "to_chars (take 2 (char_array_4 [a, 0, 0]))"
  have small: "unat w < 64" if "w \<in> set (take 2 (char_array_4 [a, 0, 0]))" for w
    using that char_array_4_small set_take_subset by fast
  have "encode_loop [] [a] = ?t @ [CHR ''='', CHR ''='']"
    by (simp add: encode_rest_def numeral_2_eq_2)
  moreover have "decode_loop [] (?t @ [CHR ''='', CHR ''='']) = decode_rest ?t"
    by (rule decode_partial) (use to_chars_valid small in auto)
  moreover have "decode_rest ?t = [a]"
    using octets_padded(2) [of a] find_to_chars [OF small] by (simp add: decode_rest_def numeral_2_eq_2)
  ultimately show ?thesis
    by simp
qed

lemma decode_encode_loop: "decode_loop [] (encode_loop [] bs) = bs"
proof (induction bs rule: threes.induct)
  case (1 a b c bs)
  then show ?case
    by (simp only: encode_three decode_three) simp
qed (simp_all only: decode_encode_one decode_encode_two, simp add: encode_rest_def decode_rest_def)

lemma length_encode_loop: "length (encode_loop [] bs) = 4 * ((length bs + 2) div 3)"
proof (induction bs rule: threes.induct)
  case (1 a b c bs)
  have "(n + 3 + 2) div 3 = Suc ((n + 2) div 3)" for n :: nat
    by presburger
  then have "(length (a # b # c # bs) + 2) div 3 = Suc ((length bs + 2) div 3)"
    by (metis Suc3_eq_add_3 add.commute length_Cons)
  then show ?case
    using 1 by (simp only: encode_three length_append length_char_array_4) simp
qed (simp_all add: encode_rest_def)

lemma base64_roundtrip:
  assumes "4 * ((length bs + 2) div 3) < 2 ^ 31"
  shows "decode (encode bs) = Some bs" "length (encode bs) = 4 * ((length bs + 2) div 3)"
proof -
  have "length bs \<le> 3 * ((length bs + 2) div 3)"
    by presburger
  then have "length bs < 2 ^ 32"
    using assms by simp
  then have "encode bs = encode_loop [] bs"
    by (simp add: encode_def)
  then show "decode (encode bs) = Some bs" "length (encode bs) = 4 * ((length bs + 2) div 3)"
    using assms length_encode_loop [of bs] decode_encode_loop [of bs] by (simp_all add: decode_def Let_def)
qed

text \<open>
  C33: decoding what was encoded gives the data back, for all data whose text is shorter than two
  gigabytes, and the text is four characters for every three bytes begun.
\<close>

theorem decode_encode:
  assumes "4 * ((length bs + 2) div 3) < 2 ^ 31"
  shows "decode (encode bs) = Some bs \<and> length (encode bs) = 4 * ((length bs + 2) div 3)"
  using base64_roundtrip [OF assms] by simp

theorem decode_encode_witness:
  "decode (encode [0x4d, 0x61, 0x6e, 0x21]) = Some [0x4d, 0x61, 0x6e, 0x21]"
  using decode_encode [of "[0x4d, 0x61, 0x6e, 0x21]"] by simp

end
