(* ===== verification/YangPaths.thy ===== *)
theory YangPaths
  imports XpathUtils
begin

text \<open>
  \<open>YangPathEle\<close> and \<open>YangPath\<close> of \<open>YangModule.cpp\<close>: paths that are put together from modules,
  parameters and list entries. Only the constructors of \<open>YangPath\<close> make elements, so the kind
  of an element is given by the members that are not empty.
\<close>

section \<open>Elements\<close>

record path_ele =
  mModule :: string
  mParam :: string
  mKeyList :: "(string \<times> string) list"

definition ele_path :: "bool \<Rightarrow> path_ele \<Rightarrow> string" where
  "ele_path postSlash e =
     (if mModule e \<noteq> [] then mModule e @ '':'' else []) @
     (if mParam e \<noteq> [] then
        mParam e @ concat (map (\<lambda>(k, v). CHR ''['' # k @ CHR ''='' # CHR 0x27 # v @ [CHR 0x27, CHR '']'']) (mKeyList e)) @
        (if postSlash then ''/'' else [])
      else [])"

definition ele_parameter :: "path_ele \<Rightarrow> string" where
  "ele_parameter e = (if mModule e \<noteq> [] then mModule e @ '':'' else []) @ (if mParam e \<noteq> [] then mParam e else [])"

section \<open>Paths\<close>

type_synonym yang_path = "path_ele list"

definition add_path :: "yang_path \<Rightarrow> yang_path \<Rightarrow> yang_path" where
  "add_path parent p = p @ parent"

definition add_param :: "string \<Rightarrow> yang_path \<Rightarrow> yang_path" where
  "add_param parameter p = p @ [\<lparr>mModule = [], mParam = parameter, mKeyList = []\<rparr>]"

definition add_module_param :: "string \<Rightarrow> string \<Rightarrow> yang_path \<Rightarrow> yang_path" where
  "add_module_param module parameter p = p @ [\<lparr>mModule = module, mParam = parameter, mKeyList = []\<rparr>]"

definition add_list :: "string \<Rightarrow> (string \<times> string) list \<Rightarrow> yang_path \<Rightarrow> yang_path" where
  "add_list parameter keyList p = p @ [\<lparr>mModule = [], mParam = parameter, mKeyList = keyList\<rparr>]"

definition add_module_list :: "string \<Rightarrow> string \<Rightarrow> (string \<times> string) list \<Rightarrow> yang_path \<Rightarrow> yang_path" where
  "add_module_list module parameter keyList p = p @ [\<lparr>mModule = module, mParam = parameter, mKeyList = keyList\<rparr>]"

definition add_module :: "string \<Rightarrow> yang_path \<Rightarrow> yang_path" where
  "add_module module p = p @ [\<lparr>mModule = module, mParam = [], mKeyList = []\<rparr>]"

text \<open>The loop of \<open>path\<close>: a slash after an element when one follows or \<open>postSlash\<close> asks for it.\<close>

fun path_elements :: "bool \<Rightarrow> yang_path \<Rightarrow> string" where
  "path_elements postSlash [] = []"
| "path_elements postSlash (e # es) = ele_path (postSlash \<or> es \<noteq> []) e @ path_elements postSlash es"

definition yang_path_text :: "bool \<Rightarrow> bool \<Rightarrow> bool \<Rightarrow> yang_path \<Rightarrow> string" where
  "yang_path_text preSlash postSlash postDot p =
     (let pathStr = path_elements postSlash p in
      if pathStr = [] then []
      else (if preSlash then ''/'' else []) @ pathStr @ (if postDot then ''/.'' else []))"

definition pathRoot :: "yang_path \<Rightarrow> string" where
  "pathRoot p = yang_path_text True False False p"

definition pathParam :: "bool \<Rightarrow> yang_path \<Rightarrow> string" where
  "pathParam postDot p = yang_path_text False True postDot p"

definition pathRootParam :: "bool \<Rightarrow> yang_path \<Rightarrow> string" where
  "pathRootParam postDot p = yang_path_text True True postDot p"

text \<open>\<open>parameter\<close> without an index reads the last element; \<open>None\<close> when there is none.\<close>

definition path_parameter :: "yang_path \<Rightarrow> string option" where
  "path_parameter p = (if p = [] then None else Some (ele_parameter (last p)))"

definition path_parameter_at :: "nat \<Rightarrow> yang_path \<Rightarrow> string" where
  "path_parameter_at index p = (if index < length p then ele_parameter (p ! index) else [])"

definition numberOfParameters :: "yang_path \<Rightarrow> nat" where
  "numberOfParameters p = length p"

section \<open>The path of a list entry\<close>

lemma list_path:
  "module \<noteq> [] \<Longrightarrow> parent \<noteq> [] \<Longrightarrow> listName \<noteq> [] \<Longrightarrow>
    pathRoot (add_list listName [(key, value)] (add_module_param module parent [])) =
      ''/'' @ module @ '':'' @ parent @ ''/'' @ list_entry listName key value"
  by (simp add: pathRoot_def yang_path_text_def add_list_def add_module_param_def ele_path_def list_entry_def)

text \<open>
  The path that is put together for an entry of a list is taken apart again to the name of the list,
  its key and the value, also with a leaf below it.
\<close>

lemma listIndex_path:
  assumes "module \<noteq> []" "parent \<noteq> []" "listName \<noteq> []" "CHR ''['' \<notin> set module" "CHR ''['' \<notin> set parent"
    and "plain listName" "plain key" "CHR '']'' \<notin> set value" "length value < 2 ^ 63"
  shows "listIndex (pathRoot (add_list listName [(key, value)] (add_module_param module parent [])) @ rest) =
    (True, listName, key, value)"
proof -
  have "pathRoot (add_list listName [(key, value)] (add_module_param module parent [])) @ rest =
      (''/'' @ module @ '':'' @ parent) @ CHR ''/'' # list_entry listName key value @ rest"
    using assms(1-3) by (simp add: list_path)
  moreover have "CHR ''['' \<notin> set (''/'' @ module @ '':'' @ parent)"
    using assms(4,5) by simp
  ultimately show ?thesis
    using listIndex_entry [of "''/'' @ module @ '':'' @ parent" listName key "value" rest] assms(6-9) by simp
qed

end
