(* ===== verification/RuElements.thy ===== *)
theory RuElements
  imports SysrepoHandler CarrierConfig YangPaths
begin

text \<open>
  \<open>OranProcessingElementHandler.cpp\<close>: the transport flows of the radio unit. The handler copies the
  configured elements to the data store and hands every element that changes to the hardware
  abstraction (\<open>MplaneProcessingElements.cpp\<close>), whose results are not looked at.
\<close>

section \<open>State\<close>

text \<open>
  A \<open>const char *\<close> of an element: null, or into a string that was destroyed at the end of the
  statement that stored the pointer; the text the string had is kept.
\<close>

datatype c_text = No_text | Freed string

record ru_element =
  ru_name :: c_text
  ru_interface :: c_text
  ru_mac :: c_text
  ru_vlan :: u16
  ru_odu :: c_text

definition ru_zero :: ru_element where
  "ru_zero = \<lparr>ru_name = No_text, ru_interface = No_text, ru_mac = No_text, ru_vlan = 0, ru_odu = No_text\<rparr>"

record pe_handler =
  pe_base :: handler
  mRuElements :: "string \<rightharpoonup> ru_element"
  pe_leaves :: "node list"
  pe_calls :: "ru_element list"

definition pe_name :: string where
  "pe_name = ''o-ran-processing-element''"

definition new_pe :: "yang_persist \<Rightarrow> datastore \<Rightarrow> pe_handler" where
  "new_pe persist ds = \<lparr>pe_base = new_handler pe_name persist ds, mRuElements = Map.empty, pe_leaves = [], pe_calls = []\<rparr>"

text \<open>The parent path, and the function of the module; \<open>loaded\<close> says which symbols were found.\<close>

definition pe_parent :: yang_path where
  "pe_parent = add_module_param pe_name ''processing-elements'' []"

definition halmplane_update_ru_element :: "(string \<Rightarrow> bool) \<Rightarrow> ru_element \<Rightarrow> pe_handler \<Rightarrow> pe_handler" where
  "halmplane_update_ru_element loaded e s =
     (if loaded ''halmplane_error_t halmplane_update_ru_element(ru_elements_t*)''
      then s\<lparr>pe_calls := pe_calls s @ [e]\<rparr> else s)"

section \<open>Elements\<close>

text \<open>
  An element that is not known is stored when its VLAN is a number. One that is known is changed in
  place, so that what was changed before an exception stays.
\<close>

definition change_ru :: "string \<Rightarrow> string \<Rightarrow> string \<Rightarrow> string \<Rightarrow> ru_element cpp" where
  "change_ru interfaceName ruMac vlanId oduMac =
     in_order
       [\<lambda>e. (None, if interfaceName \<noteq> [] then e\<lparr>ru_interface := Freed interfaceName\<rparr> else e),
        \<lambda>e. (None, if ruMac \<noteq> [] then e\<lparr>ru_mac := Freed ruMac\<rparr> else e),
        assign_if vlanId (\<lambda>v e. e\<lparr>ru_vlan := word_of_int v\<rparr>),
        \<lambda>e. (None, if oduMac \<noteq> [] then e\<lparr>ru_odu := Freed oduMac\<rparr> else e)]"

definition updateRuElement ::
    "(string \<Rightarrow> bool) \<Rightarrow> string \<Rightarrow> string \<Rightarrow> string \<Rightarrow> string \<Rightarrow> string \<Rightarrow> pe_handler cpp" where
  "updateRuElement loaded name interfaceName ruMac vlanId oduMac s =
     (case mRuElements s name of
        None \<Rightarrow>
          (case stoi vlanId of
             Inl x \<Rightarrow> (Some x, s)
           | Inr v \<Rightarrow>
               let e = \<lparr>ru_name = Freed name, ru_interface = Freed interfaceName, ru_mac = Freed ruMac,
                     ru_vlan = word_of_int v, ru_odu = Freed oduMac\<rparr> in
               (None, halmplane_update_ru_element loaded e (s\<lparr>mRuElements := (mRuElements s)(name \<mapsto> e)\<rparr>)))
      | Some e \<Rightarrow>
          (case change_ru interfaceName ruMac vlanId oduMac e of (x, e) \<Rightarrow>
             let s = s\<lparr>mRuElements := (mRuElements s)(name \<mapsto> e)\<rparr> in
             case x of
               Some x \<Rightarrow> (Some x, s)
             | None \<Rightarrow> (None, halmplane_update_ru_element loaded e s)))"

section \<open>Start\<close>

datatype start_exn = Config_exn | Std_exn exn | Ds_exn ds_exn

definition pe_config :: "string \<Rightarrow> string" where
  "pe_config p = ''module-o-ran-processing-element/container-processing-elements/'' @ p"

text \<open>The leaves of an element, by their path below the parent.\<close>

definition ru_cfg :: "string \<Rightarrow> string \<Rightarrow> string \<Rightarrow> string \<Rightarrow> string \<Rightarrow> (string \<times> string) list" where
  "ru_cfg name interfaceName ruMac vlanId oduMac =
     (let pathTransportFlow = add_param ''transport-flow'' (add_list ''ru-elements'' [(''name'', name)] []);
          pathEthFlow = add_param ''eth-flow'' pathTransportFlow;
          cfg = (if interfaceName \<noteq> [] then map_put (pathParam False pathTransportFlow @ ''interface-name'') interfaceName []
                 else []) in
      map_put (pathParam False pathEthFlow @ ''o-du-mac-address'') oduMac
        (map_put (pathParam False pathEthFlow @ ''vlan-id'') vlanId
          (map_put (pathParam False pathEthFlow @ ''ru-mac-address'') ruMac cfg)))"

definition addRuProcessingElementConfig ::
    "sysrepo \<Rightarrow> (string \<Rightarrow> bool) \<Rightarrow> element \<Rightarrow> nat \<Rightarrow> pe_handler \<Rightarrow> start_exn option \<times> pe_handler" where
  "addRuProcessingElementConfig sr loaded config idx s =
     (let baseConfigPath = entry_text (pe_config ''list-ru-elements'') idx;
          transFlowPath = baseConfigPath @ ''/container-transport-flow'';
          ethFlowPath = transFlowPath @ ''/container-eth-flow'' in
      case (getValue config (baseConfigPath @ ''/leaf-name''), getValue config (transFlowPath @ ''/leaf-interface-name''),
            getValue config (ethFlowPath @ ''/leaf-ru-mac-address''), getValue config (ethFlowPath @ ''/leaf-vlan-id''),
            getValue config (ethFlowPath @ ''/leaf-o-du-mac-address'')) of
        (Some name, Some interfaceName, Some ruMac, Some vlanId, Some oduMac) \<Rightarrow>
          (case hd_createListEntry sr (pathRoot pe_parent) (ru_cfg name interfaceName ruMac vlanId oduMac) (pe_base s) of
             (Inl e, h) \<Rightarrow> (Some (Ds_exn e), s\<lparr>pe_base := h\<rparr>)
           | (Inr _, h) \<Rightarrow>
               (case updateRuElement loaded name interfaceName ruMac vlanId oduMac (s\<lparr>pe_base := h\<rparr>) of
                  (None, s) \<Rightarrow> (None, s)
                | (Some x, s) \<Rightarrow> (Some (Std_exn x), s)))
      | _ \<Rightarrow> (Some Config_exn, s))"

fun add_ru_elements ::
    "sysrepo \<Rightarrow> (string \<Rightarrow> bool) \<Rightarrow> element \<Rightarrow> nat list \<Rightarrow> pe_handler \<Rightarrow> start_exn option \<times> pe_handler" where
  "add_ru_elements sr loaded config [] s = (None, s)"
| "add_ru_elements sr loaded config (i # is) s =
     (case addRuProcessingElementConfig sr loaded config i s of
        (Some x, s) \<Rightarrow> (Some x, s)
      | (None, s) \<Rightarrow> add_ru_elements sr loaded config is s)"

definition pe_initialise :: "sysrepo \<Rightarrow> (string \<Rightarrow> bool) \<Rightarrow> element \<Rightarrow> pe_handler \<Rightarrow> (start_exn + bool) \<times> pe_handler" where
  "pe_initialise sr loaded config s =
     (let (ok, h) = handler_initialise sr (pe_base s); s = s\<lparr>pe_base := h\<rparr> in
      if \<not> ok then (Inr False, s)
      else case (addLeafFromConfig config (pe_config ''leaf-maximum-number-of-transport-flows'') ''maximum-number-of-transport-flows'',
                 getValue config (pe_config ''leaf-transport-session-type'')) of
        (Some ns, Some v) \<Rightarrow>
          let s = s\<lparr>pe_leaves := pe_leaves s @ ns\<rparr>;
              transportSessionType = (if v = [] then ''ETH-INTERFACE'' else v) in
          (case hd_createItemStr sr (pathRoot (add_param ''transport-session-type'' pe_parent)) transportSessionType (pe_base s) of
             (Inl e, h) \<Rightarrow> (Inl (Ds_exn e), s\<lparr>pe_base := h\<rparr>)
           | (Inr _, h) \<Rightarrow>
               (case getNumOfListEntries config (pe_config ''list-ru-elements'') of
                  None \<Rightarrow> (Inl Config_exn, s\<lparr>pe_base := h\<rparr>)
                | Some numRuElements \<Rightarrow>
                    (case add_ru_elements sr loaded config [0..<numRuElements] (s\<lparr>pe_base := h\<rparr>) of
                       (Some x, s) \<Rightarrow> (Inl x, s)
                     | (None, s) \<Rightarrow>
                         let h = hd_getItemsSubscribe sr (handler_path (pe_base s) ''processing-elements'') (pe_base s)
                         in (Inr True, s\<lparr>pe_base := hd_changeSubscribe sr [] h\<rparr>))))
      | (Some ns, None) \<Rightarrow> (Inl Config_exn, s\<lparr>pe_leaves := pe_leaves s @ ns\<rparr>)
      | (None, _) \<Rightarrow> (Inl Config_exn, s))"

section \<open>Changes\<close>

text \<open>The name and the text of a change: those of the old value when there is no new one.\<close>

definition changed :: "(u64 \<Rightarrow> string) \<Rightarrow> yang_param option \<Rightarrow> yang_param option \<Rightarrow> string \<times> string" where
  "changed dbl oldValue newValue =
     (case newValue of
        Some p \<Rightarrow> (y_name p, toString dbl (y_val p))
      | None \<Rightarrow> (case oldValue of Some p \<Rightarrow> (y_name p, []) | None \<Rightarrow> ([], [])))"

definition pe_valueChange ::
    "(u64 \<Rightarrow> string) \<Rightarrow> (string \<Rightarrow> bool) \<Rightarrow> string \<Rightarrow> yang_param option \<Rightarrow> yang_param option \<Rightarrow> pe_handler cpp" where
  "pe_valueChange dbl loaded xpath oldValue newValue s =
     (let (name, v) = changed dbl oldValue newValue;
          (_, listName, key, index) = listIndex name;
          leaf = leafName name in
      if listName = ''ru-elements'' then
        (if leaf = ''interface-name'' then updateRuElement loaded index v [] [] [] s
         else if leaf = ''ru-mac-address'' then updateRuElement loaded index [] v [] [] s
         else if leaf = ''vlan-id'' then updateRuElement loaded index [] [] v [] s
         else if leaf = ''o-du-mac-address'' then updateRuElement loaded index [] [] [] v s
         else (None, s))
      else (None, s))"

text \<open>The hooks; those of the base class accept every change and ignore deletions.\<close>

definition pe_hooks :: "(u64 \<Rightarrow> string) \<Rightarrow> (string \<Rightarrow> bool) \<Rightarrow> (sr_value \<Rightarrow> pe_handler cpp) \<Rightarrow> pe_handler cpp \<Rightarrow> pe_handler hooks" where
  "pe_hooks dbl loaded store complete =
     \<lparr>h_validate = (\<lambda>params deletedParams s. (Inr SR_ERR_OK, s)),
      h_valueChange = pe_valueChange dbl loaded,
      h_paramDelete = (\<lambda>xpath p s. (None, s)),
      h_setVal = store, h_complete = complete, h_roPaths = (\<lambda>s. hd_readOnly (pe_base s))\<rparr>"

section \<open>What a change does\<close>

text \<open>The path of a leaf of the transport flow of an element.\<close>

definition ru_path :: "string \<Rightarrow> string \<Rightarrow> string" where
  "ru_path name leaf = pathRoot (add_list ''ru-elements'' [(''name'', name)] pe_parent) @ ''/transport-flow/'' @ leaf"

definition flow_name :: "string \<Rightarrow> bool" where
  "flow_name n \<longleftrightarrow> CHR '']'' \<notin> set n \<and> length n < 2 ^ 63"

lemma ru_path_index: "flow_name n \<Longrightarrow> listIndex (ru_path n leaf) = (True, ''ru-elements'', ''name'', n)"
  unfolding ru_path_def pe_parent_def pe_name_def flow_name_def
  by (rule listIndex_path) (simp_all add: plain_def)

lemma ru_path_leaf: "CHR ''/'' \<notin> set leaf \<Longrightarrow> leafName (ru_path n leaf) = leaf"
    "CHR ''/'' \<notin> set leaf \<Longrightarrow> leafName (ru_path n (''eth-flow/'' @ leaf)) = leaf"
  using leafName_path [of leaf "pathRoot (add_list ''ru-elements'' [(''name'', n)] pe_parent) @ ''/transport-flow''"]
    leafName_path [of leaf "pathRoot (add_list ''ru-elements'' [(''name'', n)] pe_parent) @ ''/transport-flow/eth-flow''"]
  by (simp_all add: ru_path_def)

text \<open>The leaves, and what a text means for the member that belongs to each.\<close>

fun ru_leaf :: "string \<Rightarrow> string \<Rightarrow> ru_element \<Rightarrow> ru_element" where
  "ru_leaf leaf v e =
     (if leaf = ''interface-name'' then e\<lparr>ru_interface := Freed v\<rparr>
      else if leaf = ''eth-flow/ru-mac-address'' then e\<lparr>ru_mac := Freed v\<rparr>
      else e\<lparr>ru_odu := Freed v\<rparr>)"

definition text_leaves :: "string list" where
  "text_leaves = [''interface-name'', ''eth-flow/ru-mac-address'', ''eth-flow/o-du-mac-address'']"

lemma text_leaf_cases:
  assumes "leaf \<in> set text_leaves"
  obtains "leaf = ''interface-name''" | "leaf = ''eth-flow/ru-mac-address''" | "leaf = ''eth-flow/o-du-mac-address''"
  using assms by (auto simp: text_leaves_def)

lemmas pe_change_defs = pe_valueChange_def changed_def updateRuElement_def change_ru_def halmplane_update_ru_element_def
  assign_if_def assign_def toString_def

text \<open>
  A change of a leaf of an element that is known changes exactly the member it stands for, in the
  state and in what the hardware abstraction is given; a VLAN number arrives unchanged.
\<close>

theorem ru_leaf_updates:
  assumes "flow_name n" "mRuElements s n = Some e" "loaded ''halmplane_error_t halmplane_update_ru_element(ru_elements_t*)''"
    and "leaf \<in> set text_leaves" "v \<noteq> []"
  shows "pe_valueChange dbl loaded xpath old (Some \<lparr>y_name = ru_path n leaf, y_val = YString v\<rparr>) s =
      (None, s\<lparr>mRuElements := (mRuElements s)(n \<mapsto> ru_leaf leaf v e), pe_calls := pe_calls s @ [ru_leaf leaf v e]\<rparr>) \<and>
    pe_valueChange dbl loaded xpath old (Some \<lparr>y_name = ru_path n ''eth-flow/vlan-id'', y_val = YUInt16 w\<rparr>) s =
      (None, s\<lparr>mRuElements := (mRuElements s)(n \<mapsto> e\<lparr>ru_vlan := w\<rparr>), pe_calls := pe_calls s @ [e\<lparr>ru_vlan := w\<rparr>]\<rparr>)"
proof
  show "pe_valueChange dbl loaded xpath old (Some \<lparr>y_name = ru_path n leaf, y_val = YString v\<rparr>) s =
      (None, s\<lparr>mRuElements := (mRuElements s)(n \<mapsto> ru_leaf leaf v e), pe_calls := pe_calls s @ [ru_leaf leaf v e]\<rparr>)"
    using assms(4)
  proof (cases rule: text_leaf_cases)
    case 1
    then show ?thesis
      using assms ru_path_leaf(1) [of leaf n] by (simp add: pe_change_defs ru_path_index skip_def)
  next
    case 2
    then show ?thesis
      using assms ru_path_leaf(2) [of "''ru-mac-address''" n] by (simp add: pe_change_defs ru_path_index skip_def)
  next
    case 3
    then show ?thesis
      using assms ru_path_leaf(2) [of "''o-du-mac-address''" n] by (simp add: pe_change_defs ru_path_index skip_def)
  qed
next
  let ?t = "toString dbl (YUInt16 w)"
  have t: "stoi ?t = Inr (uint w)" "?t \<noteq> []"
    using stoi_toString_unsigned(1) [of dbl w] by auto
  show "pe_valueChange dbl loaded xpath old (Some \<lparr>y_name = ru_path n ''eth-flow/vlan-id'', y_val = YUInt16 w\<rparr>) s =
      (None, s\<lparr>mRuElements := (mRuElements s)(n \<mapsto> e\<lparr>ru_vlan := w\<rparr>), pe_calls := pe_calls s @ [e\<lparr>ru_vlan := w\<rparr>]\<rparr>)"
    using assms t ru_path_leaf(2) [of "''vlan-id''" n]
    by (simp add: pe_valueChange_def changed_def updateRuElement_def change_ru_def halmplane_update_ru_element_def
        assign_if_def assign_def ru_path_index)
qed

text \<open>
  C20: an element that the configuration does not have cannot be created by a client: the first change
  of one of its text leaves throws, and with it every change that follows in the same set is dropped,
  nothing is saved, and the answer is that all is well.
\<close>

theorem new_ru_element_dropped:
  assumes "flow_name n" "mRuElements s n = None" "leaf \<in> set text_leaves"
    and "c_oper c = SR_OP_CREATED" "c_new c = Some \<lparr>v_xpath = ru_path n leaf, v_data = SR_STRING v\<rparr>"
  shows "module_change dbl (pe_hooks dbl loaded store complete) xpath SR_EV_DONE (c # cs) s = (SR_ERR_OK, s)"
proof -
  have "pe_valueChange dbl loaded p None (Some (setSysrepo \<lparr>v_xpath = ru_path n leaf, v_data = SR_STRING v\<rparr>)) s =
      (Some Invalid_argument, s)" for p
    using assms(3)
  proof (cases rule: text_leaf_cases)
    case 1
    then show ?thesis
      using assms ru_path_leaf(1) [of leaf n] by (simp add: pe_change_defs ru_path_index setSysrepo_def)
  next
    case 2
    then show ?thesis
      using assms ru_path_leaf(2) [of "''ru-mac-address''" n] by (simp add: pe_change_defs ru_path_index setSysrepo_def)
  next
    case 3
    then show ?thesis
      using assms ru_path_leaf(2) [of "''o-du-mac-address''" n] by (simp add: pe_change_defs ru_path_index setSysrepo_def)
  qed
  then show ?thesis
    using assms(4,5) by (simp add: module_change_def handleDoneEvent_def done_steps_def pe_hooks_def)
qed

section \<open>Instances\<close>

definition pe_persist :: yang_persist where
  "pe_persist = \<lparr>mYangModelName = pe_name, mDirty = False, mValues = [], mPersistPaths = {}\<rparr>"

definition one_element :: pe_handler where
  "one_element = (new_pe pe_persist new_datastore)\<lparr>mRuElements := [''e'' \<mapsto> ru_zero]\<rparr>"

theorem ru_leaf_updates_witness:
  "pe_calls (snd (pe_valueChange (\<lambda>d. []) (\<lambda>_. True) [] None
      (Some \<lparr>y_name = ru_path ''e'' ''interface-name'', y_val = YString ''eth0''\<rparr>) one_element)) =
     [ru_zero\<lparr>ru_interface := Freed ''eth0''\<rparr>]"
  using ru_leaf_updates [of "''e''" one_element ru_zero "\<lambda>_. True" "''interface-name''" "''eth0''" "\<lambda>d. []" "[]" None 0]
  by (simp add: flow_name_def one_element_def new_pe_def text_leaves_def)

theorem new_ru_element_dropped_witness:
  "module_change (\<lambda>d. []) (pe_hooks (\<lambda>d. []) (\<lambda>_. True) (\<lambda>v s. (None, s)) (\<lambda>s. (None, s))) None SR_EV_DONE
     [\<lparr>c_oper = SR_OP_CREATED, c_old = None,
       c_new = Some \<lparr>v_xpath = ru_path ''f'' ''interface-name'', v_data = SR_STRING ''eth0''\<rparr>\<rparr>] one_element =
     (SR_ERR_OK, one_element)"
  by (rule new_ru_element_dropped [of "''f''" _ "''interface-name''"])
    (simp_all add: flow_name_def one_element_def new_pe_def text_leaves_def)

end
