(* ===== verification/Interfaces.thy ===== *)
theory Interfaces
  imports RuElements
begin

text \<open>
  \<open>IetfInterfacesHandler.cpp\<close>: the network interfaces. At the start the configured interfaces are
  written to the data store and handed to the hardware abstraction; later changes of single leaves
  are passed on to the functions of \<open>MplaneInterfaces.cpp\<close>, whose results are not looked at.
\<close>

section \<open>Data\<close>

record cos_marking =
  uPlaneMarking :: u8
  cPlaneMarking :: u8
  mPlaneMarking :: u8
  sPlaneMarking :: u8
  otherMarking :: u8

record interface =
  if_name :: c_text
  if_description :: c_text
  if_type :: c_text
  if_enabled :: bool
  if_linkUpDownTrapEnable :: int
  if_l2Mtu :: int
  if_vlanTagging :: bool
  if_baseInterface :: c_text
  if_vlanId :: int
  if_macAddress :: c_text
  if_classOfService :: cos_marking

text \<open>A new interface: all zero, and the defaults of \<open>addInterface\<close>.\<close>

definition interface_default :: interface where
  "interface_default =
     \<lparr>if_name = No_text, if_description = No_text, if_type = No_text, if_enabled = True, if_linkUpDownTrapEnable = 0,
      if_l2Mtu = 1500, if_vlanTagging = True, if_baseInterface = No_text, if_vlanId = 0, if_macAddress = No_text,
      if_classOfService = \<lparr>uPlaneMarking = 0, cPlaneMarking = 0, mPlaneMarking = 0, sPlaneMarking = 0, otherMarking = 0\<rparr>\<rparr>"

section \<open>Calls of the hardware abstraction\<close>

datatype if_call =
    If_update interface
  | If_description string string
  | If_type string string
  | If_enabled string bool
  | If_l2_mtu string int
  | If_vlan_tagging string bool
  | If_base_interface string string
  | If_vlan_id string int
  | If_mac_address string string

definition if_symbol :: "if_call \<Rightarrow> string" where
  "if_symbol c =
     ''halmplane_error_t halmplane_interface_update'' @
     (case c of
        If_update _ \<Rightarrow> ''(interface_t*)''
      | If_description _ _ \<Rightarrow> ''_description(const char*, const char*)''
      | If_type _ _ \<Rightarrow> ''_type(const char*, const char*)''
      | If_enabled _ _ \<Rightarrow> ''_enabled(const char*, bool)''
      | If_l2_mtu _ _ \<Rightarrow> ''_l2_mtu(const char*, int)''
      | If_vlan_tagging _ _ \<Rightarrow> ''_vlan_tagging(const char*, bool)''
      | If_base_interface _ _ \<Rightarrow> ''_base_interface(const char*, const char*)''
      | If_vlan_id _ _ \<Rightarrow> ''_vlan_id(const char*, int)''
      | If_mac_address _ _ \<Rightarrow> ''_mac_address(const char*, const char*)'')"

record if_handler =
  ifh_base :: handler
  mInterfaces :: "string \<rightharpoonup> interface"
  mNumInterfaces :: nat
  ifh_leaves :: "node list"
  ifh_calls :: "if_call list"

definition if_module :: string where
  "if_module = ''ietf-interfaces''"

definition if_parent :: yang_path where
  "if_parent = add_module_param if_module ''interfaces'' []"

definition new_interfaces :: "nat \<Rightarrow> yang_persist \<Rightarrow> datastore \<Rightarrow> if_handler" where
  "new_interfaces num persist ds =
     \<lparr>ifh_base = new_handler if_module persist ds, mInterfaces = Map.empty, mNumInterfaces = num, ifh_leaves = [], ifh_calls = []\<rparr>"

definition if_hal :: "(string \<Rightarrow> bool) \<Rightarrow> if_call \<Rightarrow> if_handler \<Rightarrow> if_handler" where
  "if_hal loaded c s = (if loaded (if_symbol c) then s\<lparr>ifh_calls := ifh_calls s @ [c]\<rparr> else s)"

section \<open>Configuration\<close>

definition if_config :: "nat \<Rightarrow> string" where
  "if_config idx = entry_text ''module-ietf-interfaces/container-interfaces/list-interface'' idx"

text \<open>
  The interface and its leaves while they are put together: a statement reads a value of the
  configuration, which may throw, and a number in it may throw too.
\<close>

type_synonym if_build = "interface \<times> (string \<times> string) list"

definition with_value ::
    "element \<Rightarrow> string \<Rightarrow> (string \<Rightarrow> if_build \<Rightarrow> start_exn option \<times> if_build) \<Rightarrow> if_build \<Rightarrow> start_exn option \<times> if_build" where
  "with_value config p f b = (case getValue config p of None \<Rightarrow> (Some Config_exn, b) | Some v \<Rightarrow> f v b)"

definition put_leaf :: "string \<Rightarrow> string \<Rightarrow> (interface \<Rightarrow> interface) \<Rightarrow> if_build \<Rightarrow> start_exn option \<times> if_build" where
  "put_leaf k v f b = (None, (f (fst b), map_put k v (snd b)))"

text \<open>A number: the leaf is put before the conversion, which may throw.\<close>

definition put_number :: "string \<Rightarrow> string \<Rightarrow> (int \<Rightarrow> interface \<Rightarrow> interface) \<Rightarrow> if_build \<Rightarrow> start_exn option \<times> if_build" where
  "put_number k v f b =
     (let cfg = map_put k v (snd b) in
      case stoi v of Inl x \<Rightarrow> (Some (Std_exn x), (fst b, cfg)) | Inr n \<Rightarrow> (None, (f n (fst b), cfg)))"

definition unless_empty ::
    "(string \<Rightarrow> if_build \<Rightarrow> start_exn option \<times> if_build) \<Rightarrow> string \<Rightarrow> if_build \<Rightarrow> start_exn option \<times> if_build" where
  "unless_empty f v b = (if v = [] then (None, b) else f v b)"

fun build :: "(if_build \<Rightarrow> start_exn option \<times> if_build) list \<Rightarrow> if_build \<Rightarrow> start_exn option \<times> if_build" where
  "build [] b = (None, b)"
| "build (f # fs) b = (case f b of (None, b) \<Rightarrow> build fs b | (Some x, b) \<Rightarrow> (Some x, b))"

text \<open>\<open>addClassOfService\<close>: the marking, or its default when there is none.\<close>

definition cos_leaf ::
    "element \<Rightarrow> string \<Rightarrow> string \<Rightarrow> string \<Rightarrow> (u8 \<Rightarrow> cos_marking \<Rightarrow> cos_marking) \<Rightarrow> u8 \<Rightarrow>
     if_build \<Rightarrow> start_exn option \<times> if_build" where
  "cos_leaf config p key k set_marking standard =
     (let put = (\<lambda>m i. i\<lparr>if_classOfService := set_marking m (if_classOfService i)\<rparr>) in
      with_value config p (\<lambda>v b.
        if v \<noteq> [] then put_number (key @ k) v (\<lambda>n. put (word_of_int n)) b
        else (None, (put standard (fst b), snd b))))"

definition addClassOfService :: "element \<Rightarrow> nat \<Rightarrow> if_build \<Rightarrow> start_exn option \<times> if_build" where
  "addClassOfService config idx =
     (let baseConfigPath = if_config idx @ ''/container-class-of-service'';
          key = pathParam False (add_module_param ''o-ran-interfaces'' ''class-of-service'' []) in
      build
       [cos_leaf config (baseConfigPath @ ''/leaf-u-plane-marking'') key ''c-plane-marking'' (\<lambda>m c. c\<lparr>uPlaneMarking := m\<rparr>) 7,
        cos_leaf config (baseConfigPath @ ''/leaf-c-plane-marking'') key ''c-plane-marking'' (\<lambda>m c. c\<lparr>cPlaneMarking := m\<rparr>) 7,
        cos_leaf config (baseConfigPath @ ''/leaf-m-plane-marking'') key ''m-plane-marking'' (\<lambda>m c. c\<lparr>mPlaneMarking := m\<rparr>) 2,
        cos_leaf config (baseConfigPath @ ''/leaf-s-plane-marking'') key ''s-plane-marking'' (\<lambda>m c. c\<lparr>sPlaneMarking := m\<rparr>) 7,
        cos_leaf config (baseConfigPath @ ''/leaf-other-marking'') key ''other-marking'' (\<lambda>m c. c\<lparr>otherMarking := m\<rparr>) 1])"

text \<open>The two ways an interface goes on after its type.\<close>

definition vlan_leaves :: "element \<Rightarrow> nat \<Rightarrow> if_build \<Rightarrow> start_exn option \<times> if_build" where
  "vlan_leaves config idx =
     (let oran = pathParam False (add_module ''o-ran-interfaces'' []) in
      build
       [with_value config (if_config idx @ ''/leaf-base-interface'')
          (unless_empty (\<lambda>v. put_leaf (oran @ ''base-interface'') v (\<lambda>i. i\<lparr>if_baseInterface := Freed v\<rparr>))),
        with_value config (if_config idx @ ''/leaf-vlan-id'')
          (\<lambda>v. put_number (oran @ ''vlan-id'') v (\<lambda>n i. i\<lparr>if_vlanId := n\<rparr>))])"

definition ethernet_leaves :: "element \<Rightarrow> nat \<Rightarrow> if_build \<Rightarrow> start_exn option \<times> if_build" where
  "ethernet_leaves config idx =
     (let oran = pathParam False (add_module ''o-ran-interfaces'' []) in
      build
       [with_value config (if_config idx @ ''/leaf-l2-mtu'')
          (unless_empty (\<lambda>v. put_number (oran @ ''l2-mtu'') v (\<lambda>n i. i\<lparr>if_l2Mtu := n\<rparr>))),
        with_value config (if_config idx @ ''/leaf-vlan-tagging'')
          (unless_empty (\<lambda>v. put_leaf (oran @ ''vlan-tagging'') v (\<lambda>i. i\<lparr>if_vlanTagging := (v = ''true'')\<rparr>))),
        addClassOfService config idx])"

definition if_type_text :: "string \<Rightarrow> string" where
  "if_type_text v = (if \<not> startsWith v ''iana-if-type:'' then ''iana-if-type:'' @ v else v)"

definition interface_leaves :: "element \<Rightarrow> nat \<Rightarrow> if_build \<Rightarrow> start_exn option \<times> if_build" where
  "interface_leaves config idx =
     (let oran = pathParam False (add_module ''o-ran-interfaces'' []) in
      build
       [with_value config (if_config idx @ ''/leaf-description'')
          (unless_empty (\<lambda>v. put_leaf ''description'' v (\<lambda>i. i\<lparr>if_description := Freed v\<rparr>))),
        with_value config (if_config idx @ ''/leaf-type'') (\<lambda>v.
          let t = if_type_text v in
          build
           [put_leaf ''type'' t (\<lambda>i. i\<lparr>if_type := Freed t\<rparr>),
            with_value config (if_config idx @ ''/leaf-enabled'')
              (unless_empty (\<lambda>v. put_leaf ''enabled'' v (\<lambda>i. i\<lparr>if_enabled := (v = ''true'')\<rparr>))),
            if t = ''iana-if-type:l2vlan'' then vlan_leaves config idx else ethernet_leaves config idx]),
        with_value config (if_config idx @ ''/leaf-mac-address'')
          (unless_empty (\<lambda>v. put_leaf (oran @ ''mac-address'') v (\<lambda>i. i\<lparr>if_macAddress := Freed v\<rparr>)))])"

text \<open>
  \<open>addInterface\<close>: the interface is in the map before its leaves are read, so that after an exception
  it stays there as far as it was built.
\<close>

definition addInterface :: "sysrepo \<Rightarrow> element \<Rightarrow> nat \<Rightarrow> if_handler \<Rightarrow> start_exn option \<times> if_handler" where
  "addInterface sr config idx s =
     (case getValue config (if_config idx @ ''/leaf-name'') of
        None \<Rightarrow> (Some Config_exn, s)
      | Some ifName \<Rightarrow>
          (case interface_leaves config idx (interface_default\<lparr>if_name := Freed ifName\<rparr>, []) of
             (x, interface, dataCfg) \<Rightarrow>
               let s = s\<lparr>mInterfaces := (mInterfaces s)(ifName \<mapsto> interface)\<rparr> in
               case x of
                 Some x \<Rightarrow> (Some x, s)
               | None \<Rightarrow>
                   let pathIf = add_list ''interface'' [(''name'', ifName)] if_parent in
                   case hd_createListEntry sr (pathRoot pathIf) dataCfg (ifh_base s) of
                     (Inl e, h) \<Rightarrow> (Some (Ds_exn e), s\<lparr>ifh_base := h\<rparr>)
                   | (Inr _, h) \<Rightarrow> (None, s\<lparr>ifh_base := h, mNumInterfaces := wrap32 (mNumInterfaces s + 1)\<rparr>)))"

section \<open>Start\<close>

definition createInterfaceListEntry :: "element \<Rightarrow> nat \<Rightarrow> node list option" where
  "createInterfaceListEntry config idx =
     container ''interface'' (addLeavesFromConfig config (if_config idx) [''name'', ''oper-status'', ''speed''])"

text \<open>The step of the loop; the map makes an interface that is not there, and its pointer is null.\<close>

definition add_one :: "sysrepo \<Rightarrow> (string \<Rightarrow> bool) \<Rightarrow> element \<Rightarrow> nat \<Rightarrow> if_handler \<Rightarrow> start_exn option \<times> if_handler" where
  "add_one sr loaded config i s =
     (case (getValue config (if_config i @ ''/leaf-name''), createInterfaceListEntry config i) of
        (Some name, Some ns) \<Rightarrow>
          (case addInterface sr config i (s\<lparr>ifh_leaves := ifh_leaves s @ ns\<rparr>) of
             (Some x, s) \<Rightarrow> (Some x, s)
           | (None, s) \<Rightarrow>
               (case mInterfaces s name of
                  None \<Rightarrow> (Some (Ds_exn Null_pointer), s)
                | Some interface \<Rightarrow> (None, if_hal loaded (If_update interface) s)))
      | _ \<Rightarrow> (Some Config_exn, s))"

fun add_interfaces :: "sysrepo \<Rightarrow> (string \<Rightarrow> bool) \<Rightarrow> element \<Rightarrow> nat list \<Rightarrow> if_handler \<Rightarrow> start_exn option \<times> if_handler" where
  "add_interfaces sr loaded config [] s = (None, s)"
| "add_interfaces sr loaded config (i # is) s =
     (case add_one sr loaded config i s of
        (Some x, s) \<Rightarrow> (Some x, s)
      | (None, s) \<Rightarrow> add_interfaces sr loaded config is s)"

definition if_initialise :: "sysrepo \<Rightarrow> (string \<Rightarrow> bool) \<Rightarrow> element \<Rightarrow> if_handler \<Rightarrow> (start_exn + bool) \<times> if_handler" where
  "if_initialise sr loaded config s =
     (let (ok, h) = handler_initialise sr (ifh_base s); s = s\<lparr>ifh_base := h\<rparr> in
      if \<not> ok then (Inr False, s)
      else case getNumOfListEntries config ''module-ietf-interfaces/container-interfaces/list-interface'' of
        None \<Rightarrow> (Inl Config_exn, s)
      | Some numInterfaces \<Rightarrow>
          (case add_interfaces sr loaded config [0..<numInterfaces] s of
             (Some x, s) \<Rightarrow> (Inl x, s)
           | (None, s) \<Rightarrow>
               let h = hd_getItemsSubscribe sr (handler_path (ifh_base s) ''interfaces'') (ifh_base s)
               in (Inr True, s\<lparr>ifh_base := hd_changeSubscribe sr [] h\<rparr>)))"

section \<open>Changes\<close>

text \<open>The call for a leaf; the leaves of another module are recognised inside their prefixed names.\<close>

definition if_leaf_call :: "string \<Rightarrow> string \<Rightarrow> string \<Rightarrow> exn + if_call option" where
  "if_leaf_call leaf index v =
     (let number = (\<lambda>f. case stoi v of Inl x \<Rightarrow> Inl x | Inr n \<Rightarrow> Inr (Some (f n))) in
      if leaf = ''description'' then Inr (Some (If_description index v))
      else if leaf = ''type'' then Inr (Some (If_type index v))
      else if leaf = ''enabled'' then Inr (Some (If_enabled index (v = ''true'')))
      else if contains leaf ''l2-mtu'' then number (If_l2_mtu index)
      else if contains leaf ''vlan-tagging'' then Inr (Some (If_vlan_tagging index (v = ''true'')))
      else if contains leaf ''base-interface'' then Inr (Some (If_base_interface index v))
      else if contains leaf ''vlan-id'' then number (If_vlan_id index)
      else if contains leaf ''mac-address'' then Inr (Some (If_mac_address index v))
      else Inr None)"

definition if_valueChange ::
    "(u64 \<Rightarrow> string) \<Rightarrow> (string \<Rightarrow> bool) \<Rightarrow> string \<Rightarrow> yang_param option \<Rightarrow> yang_param option \<Rightarrow> if_handler cpp" where
  "if_valueChange dbl loaded xpath oldValue newValue s =
     (let (name, v) = changed dbl oldValue newValue;
          (_, listName, key, index) = listIndex name in
      if listName = ''interface'' then
        (case if_leaf_call (leafName name) index v of
           Inl x \<Rightarrow> (Some x, s)
         | Inr None \<Rightarrow> (None, s)
         | Inr (Some c) \<Rightarrow> (None, if_hal loaded c s))
      else (None, s))"

definition if_hooks :: "(u64 \<Rightarrow> string) \<Rightarrow> (string \<Rightarrow> bool) \<Rightarrow> (sr_value \<Rightarrow> if_handler cpp) \<Rightarrow> if_handler cpp \<Rightarrow> if_handler hooks" where
  "if_hooks dbl loaded store complete =
     \<lparr>h_validate = (\<lambda>params deletedParams s. (Inr SR_ERR_OK, s)),
      h_valueChange = if_valueChange dbl loaded,
      h_paramDelete = (\<lambda>xpath p s. (None, s)),
      h_setVal = store, h_complete = complete, h_roPaths = (\<lambda>s. hd_readOnly (ifh_base s))\<rparr>"

section \<open>The leaves and the interface agree\<close>

text \<open>What holds of the interface and its leaves after a statement that does not throw.\<close>

definition if_triple :: "(if_build \<Rightarrow> bool) \<Rightarrow> (if_build \<Rightarrow> start_exn option \<times> if_build) \<Rightarrow> (if_build \<Rightarrow> bool) \<Rightarrow> bool" where
  "if_triple P f Q \<longleftrightarrow> (\<forall>b b'. P b \<longrightarrow> f b = (None, b') \<longrightarrow> Q b')"

abbreviation if_keeps :: "(if_build \<Rightarrow> bool) \<Rightarrow> (if_build \<Rightarrow> start_exn option \<times> if_build) \<Rightarrow> bool" where
  "if_keeps P f \<equiv> if_triple P f P"

lemma if_tripleI: "(\<And>b b'. P b \<Longrightarrow> f b = (None, b') \<Longrightarrow> Q b') \<Longrightarrow> if_triple P f Q"
  unfolding if_triple_def by blast

lemma if_tripleD: "\<lbrakk>if_triple P f Q; P b; f b = (None, b')\<rbrakk> \<Longrightarrow> Q b'"
  unfolding if_triple_def by blast

lemma if_triple_post: "if_triple P f Q \<Longrightarrow> (\<And>b. Q b \<Longrightarrow> Q' b) \<Longrightarrow> if_triple P f Q'"
  unfolding if_triple_def by blast

lemma if_keeps_ex: "(\<And>t. if_keeps (Q t) f) \<Longrightarrow> if_keeps (\<lambda>b. \<exists>t. Q t b) f"
  unfolding if_triple_def by blast

lemma if_keeps_Nil: "if_keeps P (build [])"
  by (rule if_tripleI) simp

lemma if_triple_Cons: "\<lbrakk>if_triple P f R; if_triple R (build fs) Q\<rbrakk> \<Longrightarrow> if_triple P (build (f # fs)) Q"
proof (rule if_tripleI)
  fix b b'
  assume "if_triple P f R" "if_triple R (build fs) Q" "P b" "build (f # fs) b = (None, b')"
  then show "Q b'"
    by (cases "f b") (auto elim: if_tripleD split: option.splits)
qed

lemma if_keeps_Cons: "\<lbrakk>if_keeps P f; if_keeps P (build fs)\<rbrakk> \<Longrightarrow> if_keeps P (build (f # fs))"
  by (rule if_triple_Cons)

lemma build_None: "build (f # fs) b = (None, b') \<longleftrightarrow> (\<exists>b1. f b = (None, b1) \<and> build fs b1 = (None, b'))"
  by (cases "f b") (auto split: option.splits)

lemma if_triple_with_value: "(\<And>v. if_triple P (f v) Q) \<Longrightarrow> if_triple P (with_value config p f) Q"
  by (auto simp: if_triple_def with_value_def split: option.splits)

lemma if_keeps_unless_empty: "if_keeps P (f v) \<Longrightarrow> if_keeps P (unless_empty f v)"
  by (auto simp: if_triple_def unless_empty_def)

lemma if_triple_put_leaf: "(\<And>i cfg. P (i, cfg) \<Longrightarrow> Q (f i, map_put k v cfg)) \<Longrightarrow> if_triple P (put_leaf k v f) Q"
  by (auto simp: if_triple_def put_leaf_def)

lemma if_triple_put_number:
  "(\<And>i cfg n. P (i, cfg) \<Longrightarrow> stoi v = Inr n \<Longrightarrow> Q (f n i, map_put k v cfg)) \<Longrightarrow> if_triple P (put_number k v f) Q"
  by (auto simp: if_triple_def put_number_def Let_def split: sum.splits)

lemma cos_leaf_cases:
  assumes "cos_leaf config p key k set_marking standard (i, cfg) = (None, b')"
  shows "b' = (i\<lparr>if_classOfService := set_marking standard (if_classOfService i)\<rparr>, cfg) \<or>
    (\<exists>v n. stoi v = Inr n \<and>
       b' = (i\<lparr>if_classOfService := set_marking (word_of_int n) (if_classOfService i)\<rparr>, map_put (key @ k) v cfg))"
  using assms by (auto simp: cos_leaf_def with_value_def put_number_def Let_def split: option.splits if_splits sum.splits)

lemma if_keeps_cos_leaf:
  assumes "\<And>i cfg c. P (i, cfg) \<Longrightarrow> P (i\<lparr>if_classOfService := c\<rparr>, cfg)"
    and "\<And>i cfg v. P (i, cfg) \<Longrightarrow> P (i, map_put (key @ k) v cfg)"
  shows "if_keeps P (cos_leaf config p key k set_marking standard)"
proof (rule if_tripleI)
  fix b b'
  assume "P b" "cos_leaf config p key k set_marking standard b = (None, b')"
  then show "P b'"
    using cos_leaf_cases [of config p key k set_marking standard "fst b" "snd b" b'] assms by (cases b) auto
qed

text \<open>
  Every leaf that is written has the value of its member, and a member without a leaf its default:
  \<open>matches\<close> says so of the leaf.
\<close>

fun matches :: "string option \<Rightarrow> bool \<Rightarrow> (string \<Rightarrow> bool) \<Rightarrow> bool" where
  "matches None absent present = absent"
| "matches (Some v) absent present = present v"

definition members_agree :: "string \<Rightarrow> if_build \<Rightarrow> bool" where
  "members_agree n b \<longleftrightarrow> (case b of (i, cfg) \<Rightarrow>
     if_name i = Freed n \<and> if_linkUpDownTrapEnable i = 0 \<and>
     matches (map_of cfg ''description'') (if_description i = No_text) (\<lambda>v. if_description i = Freed v) \<and>
     matches (map_of cfg ''enabled'') (if_enabled i) (\<lambda>v. if_enabled i = (v = ''true'')) \<and>
     matches (map_of cfg ''o-ran-interfaces:l2-mtu'') (if_l2Mtu i = 1500) (\<lambda>v. stoi v = Inr (if_l2Mtu i)) \<and>
     matches (map_of cfg ''o-ran-interfaces:vlan-tagging'') (if_vlanTagging i) (\<lambda>v. if_vlanTagging i = (v = ''true'')) \<and>
     matches (map_of cfg ''o-ran-interfaces:base-interface'') (if_baseInterface i = No_text) (\<lambda>v. if_baseInterface i = Freed v) \<and>
     matches (map_of cfg ''o-ran-interfaces:vlan-id'') (if_vlanId i = 0) (\<lambda>v. stoi v = Inr (if_vlanId i)) \<and>
     matches (map_of cfg ''o-ran-interfaces:mac-address'') (if_macAddress i = No_text) (\<lambda>v. if_macAddress i = Freed v))"

text \<open>
  The type and the markings, which an interface of the type \<open>l2vlan\<close> does not have. The leaf of the
  marking of the user plane is never written: its value is in the leaf of the control plane, unless that has one.
\<close>

definition marking_leaf :: "(string \<times> string) list \<Rightarrow> string \<Rightarrow> string option" where
  "marking_leaf cfg k = map_of cfg (''o-ran-interfaces:class-of-service/'' @ k @ ''-marking'')"

definition marks :: "string \<Rightarrow> u8 \<Rightarrow> bool" where
  "marks v m \<longleftrightarrow> (case stoi v of Inl _ \<Rightarrow> False | Inr n \<Rightarrow> m = word_of_int n)"

definition no_markings :: "if_build \<Rightarrow> bool" where
  "no_markings b \<longleftrightarrow> (case b of (i, cfg) \<Rightarrow>
     if_classOfService i = if_classOfService interface_default \<and>
     list_all (\<lambda>k. marking_leaf cfg k = None) [''u-plane'', ''c-plane'', ''m-plane'', ''s-plane'', ''other''])"

definition markings_agree :: "if_build \<Rightarrow> bool" where
  "markings_agree b \<longleftrightarrow> (case b of (i, cfg) \<Rightarrow>
     let c = if_classOfService i in
     marking_leaf cfg ''u-plane'' = None \<and>
     matches (marking_leaf cfg ''c-plane'') (cPlaneMarking c = 7 \<and> uPlaneMarking c = 7)
       (\<lambda>v. marks v (cPlaneMarking c) \<or> cPlaneMarking c = 7 \<and> marks v (uPlaneMarking c)) \<and>
     matches (marking_leaf cfg ''m-plane'') (mPlaneMarking c = 2) (\<lambda>v. marks v (mPlaneMarking c)) \<and>
     matches (marking_leaf cfg ''s-plane'') (sPlaneMarking c = 7) (\<lambda>v. marks v (sPlaneMarking c)) \<and>
     matches (marking_leaf cfg ''other'') (otherMarking c = 1) (\<lambda>v. marks v (otherMarking c)))"

definition typed :: "string \<Rightarrow> if_build \<Rightarrow> bool" where
  "typed t b \<longleftrightarrow> map_of (snd b) ''type'' = Some t \<and> if_type (fst b) = Freed t"

definition agrees :: "string \<Rightarrow> if_build \<Rightarrow> bool" where
  "agrees n b \<longleftrightarrow> members_agree n b \<and>
     (case map_of (snd b) ''type'' of
        None \<Rightarrow> False
      | Some t \<Rightarrow> if_type (fst b) = Freed t \<and>
          (if t = ''iana-if-type:l2vlan'' then no_markings b else markings_agree b))"

lemma oran_prefix: "pathParam False (add_module ''o-ran-interfaces'' []) = ''o-ran-interfaces:''"
    "pathParam False (add_module_param ''o-ran-interfaces'' ''class-of-service'' []) = ''o-ran-interfaces:class-of-service/''"
  by (simp_all add: pathParam_def yang_path_text_def add_module_def add_module_param_def ele_path_def)

lemmas members_simps = members_agree_def map_of_map_put oran_prefix

text \<open>Another leaf.\<close>

lemma marking_leaf_other:
  assumes "take 18 k \<noteq> ''o-ran-interfaces:c''"
  shows "marking_leaf (map_put k v cfg) x = marking_leaf cfg x"
proof -
  have "take 18 (''o-ran-interfaces:class-of-service/'' @ x @ ''-marking'') = ''o-ran-interfaces:c''"
    by simp
  then show ?thesis
    using assms by (auto simp: map_of_map_put marking_leaf_def simp del: append.simps take_append)
qed

lemmas typed_simps = typed_def no_markings_def markings_agree_def marking_leaf_other map_of_map_put oran_prefix

lemmas if_keeps_rules = if_keeps_Nil if_keeps_Cons if_triple_with_value if_keeps_unless_empty if_triple_put_leaf if_triple_put_number

lemma members_cos: "if_keeps (members_agree n) (addClassOfService config idx)"
  unfolding addClassOfService_def Let_def
  by (intro if_keeps_rules if_keeps_cos_leaf; simp add: members_simps)

lemma members_vlan: "if_keeps (members_agree n) (vlan_leaves config idx)"
  unfolding vlan_leaves_def Let_def by (intro if_keeps_rules; simp add: members_simps)

lemma members_ethernet: "if_keeps (members_agree n) (ethernet_leaves config idx)"
  unfolding ethernet_leaves_def Let_def by (intro if_keeps_rules members_cos; simp add: members_simps)

lemma members_leaves: "if_keeps (members_agree n) (interface_leaves config idx)"
proof -
  have "if_keeps (members_agree n) (if c then vlan_leaves config idx else ethernet_leaves config idx)" for c
    by (simp add: members_vlan members_ethernet)
  note type = this
  show ?thesis
    unfolding interface_leaves_def Let_def by (intro if_keeps_rules type; simp add: members_simps)
qed

lemma cos_agrees: "if_triple (\<lambda>b. no_markings b \<and> typed t b) (addClassOfService config idx) (\<lambda>b. markings_agree b \<and> typed t b)"
proof (rule if_tripleI)
  fix b b'
  assume b: "no_markings b \<and> typed t b" and run: "addClassOfService config idx b = (None, b')"
  obtain i cfg where i: "b = (i, cfg)"
    by (cases b)
  obtain i1 c1 i2 c2 i3 c3 i4 c4 where steps:
    "cos_leaf config (if_config idx @ ''/container-class-of-service/leaf-u-plane-marking'') ''o-ran-interfaces:class-of-service/''
       ''c-plane-marking'' (\<lambda>m c. c\<lparr>uPlaneMarking := m\<rparr>) 7 (i, cfg) = (None, i1, c1)"
    "cos_leaf config (if_config idx @ ''/container-class-of-service/leaf-c-plane-marking'') ''o-ran-interfaces:class-of-service/''
       ''c-plane-marking'' (\<lambda>m c. c\<lparr>cPlaneMarking := m\<rparr>) 7 (i1, c1) = (None, i2, c2)"
    "cos_leaf config (if_config idx @ ''/container-class-of-service/leaf-m-plane-marking'') ''o-ran-interfaces:class-of-service/''
       ''m-plane-marking'' (\<lambda>m c. c\<lparr>mPlaneMarking := m\<rparr>) 2 (i2, c2) = (None, i3, c3)"
    "cos_leaf config (if_config idx @ ''/container-class-of-service/leaf-s-plane-marking'') ''o-ran-interfaces:class-of-service/''
       ''s-plane-marking'' (\<lambda>m c. c\<lparr>sPlaneMarking := m\<rparr>) 7 (i3, c3) = (None, i4, c4)"
    "cos_leaf config (if_config idx @ ''/container-class-of-service/leaf-other-marking'') ''o-ran-interfaces:class-of-service/''
       ''other-marking'' (\<lambda>m c. c\<lparr>otherMarking := m\<rparr>) 1 (i4, c4) = (None, b')"
    using run i by (auto simp: addClassOfService_def oran_prefix build_None Let_def simp del: build.simps(2))
  have "no_markings (i, cfg)" "typed t (i, cfg)"
    using b i by simp_all
  with steps [THEN cos_leaf_cases] show "markings_agree b' \<and> typed t b'"
    by (elim disjE exE conjE) (simp_all add: typed_def no_markings_def markings_agree_def marking_leaf_def map_of_map_put marks_def interface_default_def)
qed

text \<open>The branch on the type.\<close>

lemma type_agrees:
  "if_triple (\<lambda>b. no_markings b \<and> typed t b)
     (if t = ''iana-if-type:l2vlan'' then vlan_leaves config idx else ethernet_leaves config idx)
     (\<lambda>b. typed t b \<and> (if t = ''iana-if-type:l2vlan'' then no_markings b else markings_agree b))"
proof -
  let ?P = "\<lambda>b. no_markings b \<and> typed t b"
  have vlan: "if_keeps ?P (vlan_leaves config idx)"
    unfolding vlan_leaves_def Let_def by (intro if_keeps_rules; simp add: typed_simps)
  have mtu: "if_keeps ?P (with_value config (if_config idx @ ''/leaf-l2-mtu'')
      (unless_empty (\<lambda>v. put_number ''o-ran-interfaces:l2-mtu'' v (\<lambda>n i. i\<lparr>if_l2Mtu := n\<rparr>))))"
    by (intro if_keeps_rules) (simp add: typed_simps)
  have tagging: "if_keeps ?P (with_value config (if_config idx @ ''/leaf-vlan-tagging'')
      (unless_empty (\<lambda>v. put_leaf ''o-ran-interfaces:vlan-tagging'' v (\<lambda>i. i\<lparr>if_vlanTagging := (v = ''true'')\<rparr>))))"
    by (intro if_keeps_rules) (simp add: typed_simps)
  have eth: "if_triple ?P (ethernet_leaves config idx) (\<lambda>b. markings_agree b \<and> typed t b)"
    unfolding ethernet_leaves_def Let_def oran_prefix append.simps
    by (rule if_triple_Cons [OF mtu if_triple_Cons [OF tagging if_triple_Cons [OF cos_agrees if_keeps_Nil]]])
  show ?thesis
  proof (cases "t = ''iana-if-type:l2vlan''")
    case True
    then show ?thesis
      using if_triple_post [OF vlan] by simp
  next
    case False
    then show ?thesis
      using if_triple_post [OF eth] by simp
  qed
qed

lemma leaves_agree:
  "if_triple no_markings (interface_leaves config idx)
     (\<lambda>b. \<exists>t. typed t b \<and> (if t = ''iana-if-type:l2vlan'' then no_markings b else markings_agree b))" (is "if_triple _ _ ?Q")
proof -
  have typed: "if_triple no_markings
      (build
         [put_leaf ''type'' t (\<lambda>i. i\<lparr>if_type := Freed t\<rparr>),
          with_value config (if_config idx @ ''/leaf-enabled'')
            (unless_empty (\<lambda>v. put_leaf ''enabled'' v (\<lambda>i. i\<lparr>if_enabled := (v = ''true'')\<rparr>))),
          if t = ''iana-if-type:l2vlan'' then vlan_leaves config idx else ethernet_leaves config idx]) ?Q" for t
  proof -
    let ?P = "\<lambda>b. no_markings b \<and> typed t b"
    have enabled: "if_keeps ?P (with_value config (if_config idx @ ''/leaf-enabled'')
        (unless_empty (\<lambda>v. put_leaf ''enabled'' v (\<lambda>i. i\<lparr>if_enabled := (v = ''true'')\<rparr>))))"
      by (intro if_keeps_rules) (simp add: typed_simps)
    have put: "if_triple no_markings (put_leaf ''type'' t (\<lambda>i. i\<lparr>if_type := Freed t\<rparr>)) ?P"
      by (rule if_triple_put_leaf) (simp add: typed_simps)
    have branch: "if_triple ?P (if t = ''iana-if-type:l2vlan'' then vlan_leaves config idx else ethernet_leaves config idx) ?Q"
      using type_agrees [of t config idx] unfolding if_triple_def by blast
    show ?thesis
      by (rule if_triple_Cons [OF put if_triple_Cons [OF enabled if_triple_Cons [OF branch if_keeps_Nil]]])
  qed
  have description: "if_keeps no_markings (with_value config (if_config idx @ ''/leaf-description'')
      (unless_empty (\<lambda>v. put_leaf ''description'' v (\<lambda>i. i\<lparr>if_description := Freed v\<rparr>))))"
    by (intro if_keeps_rules) (simp add: typed_simps)
  have mac: "if_keeps ?Q (with_value config (if_config idx @ ''/leaf-mac-address'')
      (unless_empty (\<lambda>v. put_leaf ''o-ran-interfaces:mac-address'' v (\<lambda>i. i\<lparr>if_macAddress := Freed v\<rparr>))))"
  proof (rule if_keeps_ex)
    show "if_keeps (\<lambda>b. typed t b \<and> (if t = ''iana-if-type:l2vlan'' then no_markings b else markings_agree b))
        (with_value config (if_config idx @ ''/leaf-mac-address'')
          (unless_empty (\<lambda>v. put_leaf ''o-ran-interfaces:mac-address'' v (\<lambda>i. i\<lparr>if_macAddress := Freed v\<rparr>))))" for t
      by (cases "t = ''iana-if-type:l2vlan''"; simp only: if_True if_False; intro if_keeps_rules; simp add: typed_simps)
  qed
  have type: "if_triple no_markings (with_value config (if_config idx @ ''/leaf-type'') (\<lambda>v.
      build
         [put_leaf ''type'' (if_type_text v) (\<lambda>i. i\<lparr>if_type := Freed (if_type_text v)\<rparr>),
          with_value config (if_config idx @ ''/leaf-enabled'')
            (unless_empty (\<lambda>v. put_leaf ''enabled'' v (\<lambda>i. i\<lparr>if_enabled := (v = ''true'')\<rparr>))),
          if if_type_text v = ''iana-if-type:l2vlan'' then vlan_leaves config idx else ethernet_leaves config idx])) ?Q"
    by (rule if_triple_with_value) (rule typed)
  show ?thesis
    unfolding interface_leaves_def Let_def oran_prefix append.simps
    by (rule if_triple_Cons [OF description if_triple_Cons [OF type if_triple_Cons [OF mac if_keeps_Nil]]])
qed

section \<open>What is written and what is handed over\<close>

text \<open>
  C19: when the start adds an interface without an exception, its entry is written to the data store and the interface is
  handed to the hardware abstraction, and the two agree: every written value, the type included, is the value of
  its member, and a member that is not written has its default. The one exception is the marking of the user
  plane: its leaf is never written, its value goes into the leaf of the control plane.
\<close>

theorem added_interface_agrees:
  assumes "\<And>cs c. sr_throws sr cs c = None" "ready (hd_ds (ifh_base s))"
    and "add_one sr loaded config idx s = (None, s')" "getValue config (if_config idx @ ''/leaf-name'') = Some n"
  shows "\<exists>i cfg. agrees n (i, cfg) \<and> mInterfaces s' n = Some i \<and>
    ifh_calls s' = ifh_calls s @ (if loaded (if_symbol (If_update i)) then [If_update i] else []) \<and>
    hd_ds (ifh_base s') = calls_made
      (let entry = pathRoot (add_list ''interface'' [(''name'', n)] if_parent) in
       Set_item SR_DS_RUNNING entry # map (\<lambda>(k, v). Set_item_str SR_DS_RUNNING (entry @ ''/'' @ k) v) cfg @
         [Apply_changes SR_DS_RUNNING]) (hd_ds (ifh_base s))"
proof -
  obtain ns s1 where add: "addInterface sr config idx (s\<lparr>ifh_leaves := ifh_leaves s @ ns\<rparr>) = (None, s1)"
      "\<exists>i. mInterfaces s1 n = Some i \<and> s' = if_hal loaded (If_update i) s1"
    using assms(3,4) by (auto simp: add_one_def split: option.splits prod.splits)
  obtain x i cfg where leaves: "interface_leaves config idx (interface_default\<lparr>if_name := Freed n\<rparr>, []) = (x, i, cfg)"
    by (metis prod_cases3)
  then have x: "x = None"
    using add(1) assms(4) by (cases x) (simp_all add: addInterface_def Let_def)
  have "members_agree n (interface_default\<lparr>if_name := Freed n\<rparr>, [])" "no_markings (interface_default\<lparr>if_name := Freed n\<rparr>, [])"
    by (simp_all add: members_agree_def no_markings_def marking_leaf_def interface_default_def)
  then have "agrees n (i, cfg)"
    using if_tripleD [OF members_leaves] if_tripleD [OF leaves_agree] leaves x by (fastforce simp: agrees_def typed_def)
  moreover have "mInterfaces s1 n = Some i \<and> ifh_calls s1 = ifh_calls s \<and> ifh_base s1 =
      snd (hd_createListEntry sr (pathRoot (add_list ''interface'' [(''name'', n)] if_parent)) cfg (ifh_base s))"
    using add(1) assms(4) leaves x by (auto simp: addInterface_def Let_def split: prod.splits sum.splits)
  ultimately show ?thesis
    using createListEntry_fine [OF assms(1,2)] add(2)
    by (intro exI [of _ i] exI [of _ cfg]) (auto simp: if_hal_def hd_createListEntry_def Let_def)
qed

text \<open>
  A configured marking of the user plane is written to the data store as the marking of the control
  plane, although the interface has it where it belongs, and the leaf of the user plane is not written.
\<close>

theorem u_plane_marking_misplaced:
  assumes "getValue config (if_config idx @ ''/container-class-of-service/leaf-u-plane-marking'') = Some u"
    and "stoi u = Inr n"
    and "list_all (\<lambda>l. getValue config (if_config idx @ ''/container-class-of-service/leaf-'' @ l @ ''-marking'') = Some [])
      [''c-plane'', ''m-plane'', ''s-plane'', ''other'']"
  shows "addClassOfService config idx (i, cfg) =
    (None, i\<lparr>if_classOfService :=
        \<lparr>uPlaneMarking = word_of_int n, cPlaneMarking = 7, mPlaneMarking = 2, sPlaneMarking = 7, otherMarking = 1\<rparr>\<rparr>,
     map_put ''o-ran-interfaces:class-of-service/c-plane-marking'' u cfg)"
proof -
  have "u \<noteq> []"
    using assms(2) by auto
  then show ?thesis
    using assms
    by (simp add: addClassOfService_def cos_leaf_def with_value_def put_number_def oran_prefix Let_def)
qed

section \<open>The configuration of an interface\<close>

definition if_steps :: "nat \<Rightarrow> path_step list" where
  "if_steps idx = [Child ''module'' ''ietf-interfaces'', Child ''container'' ''interfaces'', Entry ''interface'' idx]"

lemma if_steps_ok: "idx < 2 ^ 31 \<Longrightarrow> list_all step_ok (if_steps idx)"
  by (simp add: if_steps_def plain_name_def plain_type_def)

lemma if_leaf_path: "if_config idx @ ''/leaf-'' @ x = path_text (if_steps idx) (''leaf-'' @ x)"
  by (simp add: if_config_def entry_text_def path_text_def if_steps_def)

lemma cos_leaf_path:
  "if_config idx @ ''/container-class-of-service/leaf-'' @ x =
     path_text (if_steps idx @ [Child ''container'' ''class-of-service'']) (''leaf-'' @ x)"
  by (simp add: if_config_def entry_text_def path_text_def if_steps_def)

text \<open>The value of the leaf of an element, empty when the element or the leaf is missing.\<close>

definition leaf_of :: "element option \<Rightarrow> string \<Rightarrow> string" where
  "leaf_of e x = (case e of None \<Rightarrow> [] | Some e \<Rightarrow> (case getElement e ''leaf'' x of None \<Rightarrow> [] | Some l \<Rightarrow> elementValue l))"

lemma interface_values:
  assumes "idx < 2 ^ 31" "plain_name x"
  shows "getValue config (if_config idx @ ''/leaf-'' @ x) = Some (leaf_of (follow config (if_steps idx)) x)"
    and "getValue config (if_config idx @ ''/container-class-of-service/leaf-'' @ x) =
      Some (leaf_of (follow config (if_steps idx @ [Child ''container'' ''class-of-service''])) x)"
  unfolding if_leaf_path cos_leaf_path leaf_of_def
  by (rule getValue_steps; use assms in \<open>simp add: if_steps_ok plain_name_def plain_type_def\<close>)+

section \<open>Changes of a leaf\<close>

definition interface_path :: "string \<Rightarrow> string \<Rightarrow> string" where
  "interface_path name leaf = pathRoot (add_list ''interface'' [(''name'', name)] if_parent) @ ''/'' @ leaf"

lemma interface_path_index: "flow_name n \<Longrightarrow> listIndex (interface_path n leaf) = (True, ''interface'', ''name'', n)"
  unfolding interface_path_def if_parent_def if_module_def flow_name_def
  by (rule listIndex_path) (simp_all add: plain_def)

lemma interface_path_leaf: "CHR ''/'' \<notin> set leaf \<Longrightarrow> leafName (interface_path n leaf) = leaf"
  using leafName_path [of leaf "pathRoot (add_list ''interface'' [(''name'', n)] if_parent)"]
  by (simp add: interface_path_def)

text \<open>The leaves with their call, by the text of the value.\<close>

definition text_calls :: "(string \<times> (string \<Rightarrow> string \<Rightarrow> if_call)) list" where
  "text_calls =
     [(''description'', If_description), (''type'', If_type), (''enabled'', \<lambda>n v. If_enabled n (v = ''true'')),
      (''o-ran-interfaces:vlan-tagging'', \<lambda>n v. If_vlan_tagging n (v = ''true'')),
      (''o-ran-interfaces:base-interface'', If_base_interface), (''o-ran-interfaces:mac-address'', If_mac_address)]"

definition number_calls :: "(string \<times> (string \<Rightarrow> int \<Rightarrow> if_call)) list" where
  "number_calls = [(''o-ran-interfaces:l2-mtu'', If_l2_mtu), (''o-ran-interfaces:vlan-id'', If_vlan_id)]"

lemma if_leaf_call_text:
  "if_leaf_call ''description'' n v = Inr (Some (If_description n v))"
  "if_leaf_call ''type'' n v = Inr (Some (If_type n v))"
  "if_leaf_call ''enabled'' n v = Inr (Some (If_enabled n (v = ''true'')))"
  "if_leaf_call ''o-ran-interfaces:vlan-tagging'' n v = Inr (Some (If_vlan_tagging n (v = ''true'')))"
  "if_leaf_call ''o-ran-interfaces:base-interface'' n v = Inr (Some (If_base_interface n v))"
  "if_leaf_call ''o-ran-interfaces:mac-address'' n v = Inr (Some (If_mac_address n v))"
  by (simp_all add: if_leaf_call_def)

lemma if_leaf_call_number:
  "stoi v = Inr k \<Longrightarrow> if_leaf_call ''o-ran-interfaces:l2-mtu'' n v = Inr (Some (If_l2_mtu n k))"
  "stoi v = Inr k \<Longrightarrow> if_leaf_call ''o-ran-interfaces:vlan-id'' n v = Inr (Some (If_vlan_id n k))"
  by (simp_all add: if_leaf_call_def)

lemma text_leaf_call: "(leaf, f) \<in> set text_calls \<Longrightarrow> if_leaf_call leaf n v = Inr (Some (f n v)) \<and> CHR ''/'' \<notin> set leaf"
  unfolding text_calls_def list.set by (elim insertE emptyE Pair_inject; hypsubst; simp add: if_leaf_call_text)

lemma number_leaf_call:
  "(leaf, f) \<in> set number_calls \<Longrightarrow> stoi v = Inr k \<Longrightarrow> if_leaf_call leaf n v = Inr (Some (f n k)) \<and> CHR ''/'' \<notin> set leaf"
  unfolding number_calls_def list.set by (elim insertE emptyE Pair_inject; hypsubst; simp add: if_leaf_call_number)

text \<open>
  A change of a leaf of an interface makes exactly one call of the hardware abstraction, the one of
  that leaf, with the name of the interface and the value, and changes nothing else.
\<close>

theorem interface_leaf_calls:
  assumes "flow_name n" "\<And>c. loaded (if_symbol c)"
  shows "(\<forall>(leaf, f) \<in> set text_calls.
      if_valueChange dbl loaded xpath old (Some \<lparr>y_name = interface_path n leaf, y_val = YString v\<rparr>) s =
        (None, s\<lparr>ifh_calls := ifh_calls s @ [f n v]\<rparr>)) \<and>
    (\<forall>(leaf, f) \<in> set number_calls.
      if_valueChange dbl loaded xpath old (Some \<lparr>y_name = interface_path n leaf, y_val = YUInt16 w\<rparr>) s =
        (None, s\<lparr>ifh_calls := ifh_calls s @ [f n (uint w)]\<rparr>))"
proof (intro conjI ballI; clarify)
  fix leaf f
  assume "(leaf, f) \<in> set text_calls"
  then show "if_valueChange dbl loaded xpath old (Some \<lparr>y_name = interface_path n leaf, y_val = YString v\<rparr>) s =
      (None, s\<lparr>ifh_calls := ifh_calls s @ [f n v]\<rparr>)"
    using assms text_leaf_call [of leaf f n v] interface_path_leaf [of leaf n]
    by (simp add: if_valueChange_def changed_def interface_path_index if_hal_def toString_def)
next
  fix leaf f
  assume "(leaf, f) \<in> set number_calls"
  then show "if_valueChange dbl loaded xpath old (Some \<lparr>y_name = interface_path n leaf, y_val = YUInt16 w\<rparr>) s =
      (None, s\<lparr>ifh_calls := ifh_calls s @ [f n (uint w)]\<rparr>)"
    using assms number_leaf_call [of leaf f "toString dbl (YUInt16 w)" "uint w" n] interface_path_leaf [of leaf n]
      stoi_toString_unsigned(1) [of dbl w]
    by (simp add: if_valueChange_def changed_def interface_path_index if_hal_def)
qed

section \<open>Instances\<close>

definition leaf_element :: "string \<Rightarrow> string \<Rightarrow> element" where
  "leaf_element n v = Element ''leaf'' n v [] []"

definition one_interface :: element where
  "one_interface =
     Element ''config'' [] [] [] [Element ''module'' ''ietf-interfaces'' [] [] [Element ''container'' ''interfaces'' [] []
       [Element ''list'' ''interface'' [] [] [Element ''listEntry'' [] [] []
         [leaf_element ''name'' ''eth0'', leaf_element ''type'' ''ethernetCsmacd'', leaf_element ''l2-mtu'' ''9000'',
          Element ''container'' ''class-of-service'' [] [] [leaf_element ''u-plane-marking'' ''5'']]]]]]"

definition all_fine :: sysrepo where
  "all_fine = \<lparr>sr_throws = (\<lambda>cs c. None), sr_value_of = (\<lambda>cs ds p. None), sr_values_of = (\<lambda>cs ds p. None),
      sr_has_module = (\<lambda>cs n. False)\<rparr>"

definition if_persist :: yang_persist where
  "if_persist = \<lparr>mYangModelName = if_module, mDirty = False, mValues = [], mPersistPaths = {}\<rparr>"

definition fresh_interfaces :: if_handler where
  "fresh_interfaces = new_interfaces 0 if_persist
     (new_datastore\<lparr>mState := ACTIVE, mSrConnection := True, mSrSessions := [SR_DS_RUNNING, SR_DS_OPERATIONAL]\<rparr>)"

lemma fresh_ready: "ready (hd_ds (ifh_base fresh_interfaces))"
  by (simp add: fresh_interfaces_def new_interfaces_def new_handler_def ready_def new_datastore_def)

lemma one_follow:
  "follow one_interface (if_steps 0) = Some (Element ''listEntry'' [] [] []
     [leaf_element ''name'' ''eth0'', leaf_element ''type'' ''ethernetCsmacd'', leaf_element ''l2-mtu'' ''9000'',
      Element ''container'' ''class-of-service'' [] [] [leaf_element ''u-plane-marking'' ''5'']])"
  "follow one_interface (if_steps 0 @ [Child ''container'' ''class-of-service'']) =
     Some (Element ''container'' ''class-of-service'' [] [] [leaf_element ''u-plane-marking'' ''5''])"
  by (simp_all add: one_interface_def if_steps_def getElement_def getElement_at_def leaf_element_def)

lemmas one_values = interface_values [of 0 _ one_interface, simplified, unfolded one_follow]

lemma one_leaves:
  "getValue one_interface (if_config 0 @ ''/leaf-name'') = Some ''eth0''"
  "getValue one_interface (if_config 0 @ ''/leaf-type'') = Some ''ethernetCsmacd''"
  "getValue one_interface (if_config 0 @ ''/leaf-l2-mtu'') = Some ''9000''"
  "getValue one_interface (if_config 0 @ ''/leaf-description'') = Some []"
  "getValue one_interface (if_config 0 @ ''/leaf-enabled'') = Some []"
  "getValue one_interface (if_config 0 @ ''/leaf-vlan-tagging'') = Some []"
  "getValue one_interface (if_config 0 @ ''/leaf-mac-address'') = Some []"
  "getValue one_interface (if_config 0 @ ''/leaf-oper-status'') = Some []"
  "getValue one_interface (if_config 0 @ ''/leaf-speed'') = Some []"
  by (simp_all add: one_values plain_name_def leaf_of_def getElement_def leaf_element_def)

lemma one_markings:
  "getValue one_interface (if_config 0 @ ''/container-class-of-service/leaf-u-plane-marking'') = Some ''5''"
  "list_all (\<lambda>l. getValue one_interface (if_config 0 @ ''/container-class-of-service/leaf-'' @ l @ ''-marking'') = Some [])
    [''c-plane'', ''m-plane'', ''s-plane'', ''other'']"
  by (simp_all add: one_values plain_name_def leaf_of_def getElement_def leaf_element_def)

lemma one_numbers: "stoi ''5'' = Inr 5" "stoi ''9000'' = Inr 9000"
  by code_simp+

theorem u_plane_marking_misplaced_witness:
  "addClassOfService one_interface 0 (interface_default, []) =
    (None, interface_default\<lparr>if_classOfService :=
        \<lparr>uPlaneMarking = 5, cPlaneMarking = 7, mPlaneMarking = 2, sPlaneMarking = 7, otherMarking = 1\<rparr>\<rparr>,
     [(''o-ran-interfaces:class-of-service/c-plane-marking'', ''5'')])"
  using one_numbers(1) u_plane_marking_misplaced [OF one_markings(1) _ one_markings(2), of 5 interface_default "[]"] by simp

theorem interface_leaf_calls_witness:
  "ifh_calls (snd (if_valueChange (\<lambda>d. []) (\<lambda>_. True) [] None
      (Some \<lparr>y_name = interface_path ''eth0'' ''o-ran-interfaces:l2-mtu'', y_val = YUInt16 9000\<rparr>) fresh_interfaces)) =
     [If_l2_mtu ''eth0'' 9000]"
proof -
  have "if_valueChange (\<lambda>d. []) (\<lambda>_. True) [] None
      (Some \<lparr>y_name = interface_path ''eth0'' ''o-ran-interfaces:l2-mtu'', y_val = YUInt16 9000\<rparr>) fresh_interfaces =
      (None, fresh_interfaces\<lparr>ifh_calls := ifh_calls fresh_interfaces @ [If_l2_mtu ''eth0'' (uint (9000 :: 16 word))]\<rparr>)"
    using interface_leaf_calls [of "''eth0''" "\<lambda>_. True"]
    by (fastforce simp: flow_name_def number_calls_def)
  then show ?thesis
    by (simp add: fresh_interfaces_def new_interfaces_def)
qed

lemma one_added:
  "\<exists>s'. add_one all_fine (\<lambda>_. True) one_interface 0 fresh_interfaces = (None, s')"
proof -
  have "fst (interface_leaves one_interface 0 b) = None" for b
    using one_markings one_numbers
    by (cases b)
      (simp add: interface_leaves_def with_value_def one_leaves unless_empty_def put_leaf_def put_number_def if_type_text_def
        ethernet_leaves_def addClassOfService_def cos_leaf_def Let_def)
  then obtain i cfg where leaves: "interface_leaves one_interface 0 (interface_default\<lparr>if_name := Freed ''eth0''\<rparr>, []) = (None, i, cfg)"
    by (metis prod.collapse)
  have "fst (hd_createListEntry all_fine p v (ifh_base fresh_interfaces)) = Inr YANG_OK" for p v
    using createListEntry_fine [of all_fine, OF _ fresh_ready] by (simp add: all_fine_def hd_createListEntry_def on_ds_def)
  then have "hd_createListEntry all_fine p v (ifh_base fresh_interfaces) \<noteq> (Inl x, h)" for p v x h
    by (metis fst_conv sum.distinct(1))
  then have "\<exists>s1. addInterface all_fine one_interface 0 (fresh_interfaces\<lparr>ifh_leaves := ns\<rparr>) = (None, s1) \<and>
      mInterfaces s1 ''eth0'' = Some i" for ns
    by (auto simp: addInterface_def one_leaves leaves Let_def split: prod.split sum.split)
  moreover obtain ns where "createInterfaceListEntry one_interface 0 = Some ns"
    by (simp add: createInterfaceListEntry_def container_def addLeavesFromConfig_def addLeafFromConfig_def one_leaves)
  moreover from calculation(1) obtain s1 where
    "addInterface all_fine one_interface 0 (fresh_interfaces\<lparr>ifh_leaves := ifh_leaves fresh_interfaces @ ns\<rparr>) = (None, s1)"
    "mInterfaces s1 ''eth0'' = Some i"
    by blast
  ultimately show ?thesis
    by (simp add: add_one_def one_leaves(1))
qed

theorem added_interface_agrees_witness:
  "\<exists>i s'. add_one all_fine (\<lambda>_. True) one_interface 0 fresh_interfaces = (None, s') \<and> ifh_calls s' = [If_update i] \<and>
     if_name i = Freed ''eth0'' \<and> (\<exists>cfg. agrees ''eth0'' (i, cfg))"
proof -
  obtain s' where s': "add_one all_fine (\<lambda>_. True) one_interface 0 fresh_interfaces = (None, s')"
    using one_added by blast
  have fine: "\<And>cs c. sr_throws all_fine cs c = None" and calls: "ifh_calls fresh_interfaces = []"
    by (simp_all add: all_fine_def fresh_interfaces_def new_interfaces_def)
  obtain i cfg where i: "agrees ''eth0'' (i, cfg)" "ifh_calls s' = [If_update i]"
    using added_interface_agrees [OF fine fresh_ready s' one_leaves(1)] calls by auto
  then have "if_name i = Freed ''eth0''"
    by (simp add: agrees_def members_agree_def)
  then show ?thesis
    using s' i by blast
qed

end
