(* ===== verification/ConfigParser.thy ===== *)
theory ConfigParser
  imports YangConfig
begin

text \<open>
  \<open>YangConfigParser.cpp\<close>: the elements of the configuration are built from the document of the
  configuration file. The document itself is \<open>tinyxml2\<close>'s, here a tree whose nodes are its
  elements; a pointer to a node is the list of the node and its later siblings, \<open>nullptr\<close> the empty
  list. \<open>None\<close> is the dereference of a null pointer: a node, an attribute or an extraction method that
  is not there. The access permissions of the leaves are left out, as in the rest of the model.
\<close>

section \<open>Documents\<close>

datatype xml = Xml (xml_name: string) (xml_attributes: "(string \<times> string) list") (xml_children: "xml list")

definition xml_attribute :: "xml \<Rightarrow> string \<Rightarrow> string option" where
  "xml_attribute n a = map_of (xml_attributes n) a"

text \<open>The names of nodes: the type and the name, with \<open>-\<close> between them.\<close>

definition getElementType :: "string \<Rightarrow> bool \<times> string" where
  "getElementType nodeName =
     (let delimiterPos = find_pos (CHR ''-'') nodeName in
      if 0 \<noteq> delimiterPos then (True, substr nodeName 0 delimiterPos) else (False, []))"

definition getElementName :: "string \<Rightarrow> string" where
  "getElementName nodeName =
     (let delimiterPos = find_pos (CHR ''-'') nodeName in
      if 0 \<noteq> delimiterPos then
        substr nodeName (wrap_int (int delimiterPos + 1)) (wrap_int (int (length nodeName) - int delimiterPos))
      else [])"

definition findElementNoAttributes :: "xml \<Rightarrow> string \<Rightarrow> string option" where
  "findElementNoAttributes node elementTypeToFind =
     (let moduleName = xml_name node; delimiterPos = find_pos (CHR ''-'') moduleName in
      if length elementTypeToFind = delimiterPos then
        (let type = substr moduleName 0 delimiterPos;
             name = substr moduleName (delimiterPos + 1) (length moduleName - delimiterPos) in
         if type = elementTypeToFind then Some name else None)
      else None)"

text \<open>The name and the value; the value of an attribute that is not there is a null pointer.\<close>

definition findElementWithAttributes :: "xml \<Rightarrow> string \<Rightarrow> (string \<times> string) option option" where
  "findElementWithAttributes node elementTypeToFind =
     (let moduleName = xml_name node; delimiterPos = find_pos (CHR ''-'') moduleName in
      if length elementTypeToFind = delimiterPos then
        (let type = substr moduleName 0 delimiterPos;
             name = substr moduleName (delimiterPos + 1) (length moduleName - delimiterPos) in
         if type = elementTypeToFind then
           map_option (\<lambda>value. Some (name, value)) (xml_attribute node ''value'')
         else Some None)
      else Some None)"

section \<open>Features\<close>

type_synonym features = "string \<Rightarrow> (string \<Rightarrow> bool option) option"

definition set_feature :: "string \<Rightarrow> string \<Rightarrow> bool \<Rightarrow> features \<Rightarrow> features" where
  "set_feature m f b fs = fs(m \<mapsto> (case fs m of None \<Rightarrow> Map.empty | Some g \<Rightarrow> g)(f \<mapsto> b))"

definition elements_isFeatureEnabled :: "features \<Rightarrow> string \<Rightarrow> string \<Rightarrow> bool" where
  "elements_isFeatureEnabled fs moduleName featureName =
     (case fs moduleName of None \<Rightarrow> False
      | Some g \<Rightarrow> (case g featureName of None \<Rightarrow> False | Some b \<Rightarrow> b))"

fun moduleFeatures :: "string \<Rightarrow> xml list \<Rightarrow> features \<Rightarrow> features option" where
  "moduleFeatures moduleName [] fs = Some fs"
| "moduleFeatures moduleName (n # ns) fs =
     (if snd (getElementType (xml_name n)) = ''feature'' then
        (case findElementWithAttributes n ''feature'' of
           None \<Rightarrow> None
         | Some None \<Rightarrow> moduleFeatures moduleName ns fs
         | Some (Some (name, v)) \<Rightarrow> moduleFeatures moduleName ns (set_feature moduleName name (v = ''true'') fs))
      else moduleFeatures moduleName ns fs)"

text \<open>The loops look at the node before they ask whether there is one.\<close>

fun extractAllFeatures :: "xml list \<Rightarrow> features \<Rightarrow> features option" where
  "extractAllFeatures [] fs = None"
| "extractAllFeatures (n # ns) fs =
     do { fs' \<leftarrow> (case findElementNoAttributes n ''module'' of None \<Rightarrow> Some fs
                   | Some moduleName \<Rightarrow> moduleFeatures moduleName (xml_children n) fs);
          (if ns = [] then Some fs' else extractAllFeatures ns fs') }"

section \<open>The extraction methods\<close>

text \<open>
  A method gets the node and the parent, to which it adds elements. \<open>common\<close> is \<open>extractCommon\<close> on the
  children of the node.
\<close>

type_synonym extraction = "element \<Rightarrow> (bool \<times> element) option"

definition makeElement :: "string \<Rightarrow> string \<Rightarrow> string \<Rightarrow> element" where
  "makeElement type name v = Element type name v [] []"

definition extractSubContainer :: "string \<Rightarrow> extraction \<Rightarrow> extraction" where
  "extractSubContainer nodeName common parentElement =
     do { (r, subContainer) \<leftarrow> common (makeElement ''container'' (getElementName nodeName) []);
          Some (r, addChildElement parentElement subContainer) }"

definition extractList :: "string \<Rightarrow> extraction \<Rightarrow> extraction" where
  "extractList nodeName common parentElement =
     do { (r, l) \<leftarrow> common (makeElement ''list'' (getElementName nodeName) []);
          Some (r, addChildElement parentElement l) }"

definition extractChoice :: "string \<Rightarrow> extraction \<Rightarrow> extraction" where
  "extractChoice nodeName common parentElement =
     do { (r, choice) \<leftarrow> common (makeElement ''choice'' (getElementName nodeName) []);
          Some (r, addChildElement parentElement choice) }"

definition extractListEntry :: "string \<Rightarrow> extraction \<Rightarrow> extraction" where
  "extractListEntry nodeName common parentElement =
     do { (r, listEntry) \<leftarrow> common (makeElement ''listEntry'' [] []);
          Some (r, addChildElement parentElement listEntry) }"

definition extractLeaf :: "xml \<Rightarrow> extraction" where
  "extractLeaf node parentElement =
     (let elementName = getElementName (xml_name node) in
      case xml_attribute node ''value'' of
        Some elementAttrValue \<Rightarrow>
          Some (True, addChildElement parentElement (makeElement ''leaf'' elementName elementAttrValue))
      | None \<Rightarrow>
          (case xml_attribute node ''ref'' of
             Some elementAttrRef \<Rightarrow>
               Some (True, addChildElement parentElement (makeElement ''leaf'' elementName elementAttrRef))
           | None \<Rightarrow> Some (True, parentElement)))"

definition extractListLeaf :: "string \<Rightarrow> extraction \<Rightarrow> extraction" where
  "extractListLeaf nodeName common parentElement =
     do { (r, listLeaf) \<leftarrow> common (makeElement ''listLeaf'' (getElementName nodeName) []);
          Some (r, addChildElement parentElement listLeaf) }"

definition extractCase :: "string \<Rightarrow> xml list \<Rightarrow> extraction \<Rightarrow> extraction" where
  "extractCase nodeName children common parentElement =
     (let caseElement = makeElement ''case'' (getElementName nodeName) [] in
      if children \<noteq> [] then
        do { (r, caseElement) \<leftarrow> common caseElement; Some (r, addChildElement parentElement caseElement) }
      else Some (True, addChildElement parentElement caseElement))"

definition extractEntry :: "xml \<Rightarrow> extraction" where
  "extractEntry node parentElement =
     do { elementAttrValue \<leftarrow> xml_attribute node ''value'';
          Some (True, addChildElement parentElement (makeElement ''entry'' (getElementName (xml_name node)) elementAttrValue)) }"

definition extractFeature :: "xml \<Rightarrow> extraction" where
  "extractFeature node parentElement =
     do { elementAttrValue \<leftarrow> xml_attribute node ''value'';
          Some (True, addChildElement parentElement (makeElement ''feature'' (getElementName (xml_name node)) elementAttrValue)) }"

text \<open>
  \<open>if_feature-MODULE.FEATURE-NUMBER\<close>: the number goes, and the children count when the feature is on.
\<close>

definition last_pos :: "char \<Rightarrow> string \<Rightarrow> nat" where
  "last_pos c s = (case find_char c (rev s) of None \<Rightarrow> npos | Some i \<Rightarrow> length s - 1 - i)"

definition if_feature_enabled :: "features \<Rightarrow> string \<Rightarrow> bool" where
  "if_feature_enabled fs nodeName =
     (let elementName = getElementName nodeName;
          pos = last_pos (CHR ''-'') elementName;
          elementName = (if pos \<noteq> 0 \<and> pos \<noteq> npos then substr elementName 0 pos else elementName);
          pos = find_pos (CHR ''.'') elementName in
      if pos \<noteq> npos then
        elements_isFeatureEnabled fs (substr elementName 0 pos) (substr_from elementName (pos + 1))
      else False)"

definition extractIfFeature :: "features \<Rightarrow> string \<Rightarrow> extraction \<Rightarrow> extraction" where
  "extractIfFeature fs nodeName common parentElement =
     (if if_feature_enabled fs nodeName then common parentElement else Some (True, parentElement))"

text \<open>
  \<open>ExtractElements::call\<close> looks the method up in a map, which gives a null pointer for a type it does
  not have; \<open>extractCommon\<close> calls it for the node and its later siblings.
\<close>

definition call_method :: "features \<Rightarrow> string \<Rightarrow> xml \<Rightarrow> extraction \<Rightarrow> extraction" where
  "call_method fs elementStr node common parentElement =
     (let nodeName = xml_name node in
      if elementStr = ''container'' then extractSubContainer nodeName common parentElement
      else if elementStr = ''list'' then extractList nodeName common parentElement
      else if elementStr = ''choice'' then extractChoice nodeName common parentElement
      else if elementStr = ''listEntry'' then extractListEntry nodeName common parentElement
      else if elementStr = ''leaf'' then extractLeaf node parentElement
      else if elementStr = ''listLeaf'' then extractListLeaf nodeName common parentElement
      else if elementStr = ''entry'' then extractEntry node parentElement
      else if elementStr = ''case'' then extractCase nodeName (xml_children node) common parentElement
      else if elementStr = ''feature'' then extractFeature node parentElement
      else if elementStr = ''if_feature'' then extractIfFeature fs nodeName common parentElement
      else None)"

fun extractCommon :: "features \<Rightarrow> xml list \<Rightarrow> extraction" where
  "extractCommon fs [] parentElement = None"
| "extractCommon fs (Xml n attrs children # nodes) parentElement =
     do { (returnValue, parentElement) \<leftarrow>
            call_method fs (snd (getElementType n)) (Xml n attrs children) (\<lambda>e. extractCommon fs children e) parentElement;
          (if nodes = [] then Some (returnValue, parentElement) else extractCommon fs nodes parentElement) }"

declare extractCommon.simps [simp del]

section \<open>Modules\<close>

definition setVersion :: "string \<Rightarrow> element \<Rightarrow> element" where
  "setVersion v e = Element (elementType e) (elementName e) (elementValue e) v (childElements e)"

text \<open>The parent and the module are one element wherever this is called.\<close>

definition callExtractMethod :: "features \<Rightarrow> xml \<Rightarrow> extraction" where
  "callExtractMethod fs node module =
     (if xml_name node = ''file-version'' then
        do { fileVersion \<leftarrow> xml_attribute node ''value''; Some (True, setVersion fileVersion module) }
      else
        (let (returnValue, type) = getElementType (xml_name node) in
         do { (_, module) \<leftarrow> call_method fs type node (extractCommon fs (xml_children node)) module; Some (returnValue, module) }))"

fun findElementAndExtract :: "features \<Rightarrow> xml list \<Rightarrow> extraction" where
  "findElementAndExtract fs [] module = None"
| "findElementAndExtract fs (node # nodes) module =
     do { (returnValue, module) \<leftarrow> callExtractMethod fs node module;
          (if nodes = [] then Some (returnValue, module) else findElementAndExtract fs nodes module) }"

definition extract_one :: "features \<Rightarrow> xml \<Rightarrow> bool \<Rightarrow> extraction" where
  "extract_one fs node returnValue parentElement =
     (case findElementNoAttributes node ''module'' of
        None \<Rightarrow> Some (returnValue, parentElement)
      | Some moduleName \<Rightarrow>
          (let module = makeElement ''module'' moduleName [] in
           if xml_children node \<noteq> [] then
             do { (r, module) \<leftarrow> findElementAndExtract fs (xml_children node) module;
                  Some (r, addChildElement parentElement module) }
           else Some (returnValue, addChildElement parentElement module)))"

fun extractModule_from :: "features \<Rightarrow> xml list \<Rightarrow> bool \<Rightarrow> extraction" where
  "extractModule_from fs [] returnValue parentElement = None"
| "extractModule_from fs (node # nodes) returnValue parentElement =
     do { (returnValue, parentElement) \<leftarrow> extract_one fs node returnValue parentElement;
          (if nodes = [] then Some (returnValue, parentElement)
           else extractModule_from fs nodes returnValue parentElement) }"

definition extractModule :: "features \<Rightarrow> xml list \<Rightarrow> extraction" where
  "extractModule fs nodes parentElement = extractModule_from fs nodes True parentElement"

section \<open>The file\<close>

text \<open>The configuration, which all users share, and the parser.\<close>

record yang_config =
  config_file :: element
  cfg_yang_version :: string
  cfg_oran_version :: string
  cfg_product :: string
  cfg_variant :: string
  cfg_format_version :: string
  cfg_company :: string
  config_loaded :: bool

record config_parser =
  configFileLoaded :: bool
  moduleFeatureMap :: features
  the_config :: yang_config

definition new_config :: yang_config where
  "new_config = \<lparr>config_file = Element ''config'' [] [] [] [], cfg_yang_version = ''/0'', cfg_oran_version = ''/0'',
     cfg_product = ''/0'', cfg_variant = ''/0'', cfg_format_version = ''/0'', cfg_company = ''/0'', config_loaded = False\<rparr>"

definition new_parser :: config_parser where
  "new_parser = \<lparr>configFileLoaded = False, moduleFeatureMap = Map.empty, the_config = new_config\<rparr>"

definition attribute_text :: "xml \<Rightarrow> string \<Rightarrow> string" where
  "attribute_text n a = (case xml_attribute n a of None \<Rightarrow> [] | Some v \<Rightarrow> v)"

text \<open>The node \<open>General\<close>, its two children read in turn.\<close>

definition read_general :: "xml \<Rightarrow> yang_config \<Rightarrow> yang_config option" where
  "read_general node c =
     (if xml_name node = ''General'' then
        (case xml_children node of
           oran # product # _ \<Rightarrow>
             Some (c\<lparr>cfg_oran_version := attribute_text oran ''oranVersion'',
                    cfg_product := attribute_text oran ''product'',
                    cfg_variant := attribute_text oran ''variant'',
                    cfg_format_version := attribute_text product ''formatVersion'',
                    cfg_company := attribute_text product ''company''\<rparr>)
         | _ \<Rightarrow> None)
      else Some c)"

definition read_yang_version :: "xml \<Rightarrow> yang_config \<Rightarrow> yang_config option" where
  "read_yang_version node c =
     (if xml_name node = ''yang-version'' then
        map_option (\<lambda>v. c\<lparr>cfg_yang_version := v\<rparr>) (xml_attribute node ''value'')
      else Some c)"

definition parseConfig :: "xml \<Rightarrow> config_parser \<Rightarrow> (bool \<times> config_parser) option" where
  "parseConfig root p =
     (if xml_name root = ''root'' then
        (case xml_children root of
           general # version # nodes \<Rightarrow>
             do { c \<leftarrow> read_general general (the_config p);
                  c \<leftarrow> read_yang_version version c;
                  fs \<leftarrow> extractAllFeatures nodes (moduleFeatureMap p);
                  (r, file) \<leftarrow> extractModule fs nodes (config_file c);
                  Some (r, p\<lparr>moduleFeatureMap := fs, the_config := c\<lparr>config_file := file\<rparr>\<rparr>) }
         | _ \<Rightarrow> None)
      else Some (False, p))"

datatype load_state = RT_OK | RT_NOT_INITIALISED | RT_NOT_FOUND | RT_SYNTAX_ERROR

text \<open>
  \<open>LoadFile\<close> is the library's: no result for a file it does not parse, and the root element, which an
  empty document does not have.
\<close>

definition load_config :: "(string \<Rightarrow> xml option option) \<Rightarrow> string \<Rightarrow> config_parser \<Rightarrow> (load_state \<times> config_parser) option" where
  "load_config LoadFile filePath p =
     (let p = p\<lparr>configFileLoaded := False\<rparr> in
      if filePath = [] then Some (RT_NOT_INITIALISED, p)
      else
        (case LoadFile filePath of
           None \<Rightarrow> Some (RT_NOT_FOUND, p)
         | Some None \<Rightarrow> Some (RT_NOT_FOUND, p)
         | Some (Some root_element) \<Rightarrow>
             do { (ok, p) \<leftarrow> parseConfig root_element p;
                  Some (if \<not> ok then (RT_SYNTAX_ERROR, p)
                        else (RT_OK, p\<lparr>configFileLoaded := True, the_config := (the_config p)\<lparr>config_loaded := True\<rparr>\<rparr>)) }))"

section \<open>What the methods build\<close>

text \<open>
  The elements that a node stands for, the blocks of the features being replaced by their contents, and
  the nodes that the methods can take.
\<close>

definition nesting :: "string \<Rightarrow> bool" where
  "nesting t \<longleftrightarrow> t \<in> {''container'', ''list'', ''choice'', ''listEntry'', ''listLeaf'', ''case''}"

definition node_type :: "xml \<Rightarrow> string" where
  "node_type node = snd (getElementType (xml_name node))"

fun xml_elements :: "features \<Rightarrow> xml \<Rightarrow> element list" where
  "xml_elements fs (Xml n attrs children) =
     (let node = Xml n attrs children; t = node_type node; below = concat (map (xml_elements fs) children) in
      if nesting t then [Element t (if t = ''listEntry'' then [] else getElementName n) [] [] below]
      else if t = ''leaf'' then
        (case xml_attribute node ''value'' of Some v \<Rightarrow> [makeElement t (getElementName n) v]
         | None \<Rightarrow> (case xml_attribute node ''ref'' of Some v \<Rightarrow> [makeElement t (getElementName n) v] | None \<Rightarrow> []))
      else if t = ''entry'' \<or> t = ''feature'' then [makeElement t (getElementName n) (attribute_text node ''value'')]
      else if t = ''if_feature'' \<and> if_feature_enabled fs n then below
      else [])"

fun xml_ok :: "features \<Rightarrow> xml \<Rightarrow> bool" where
  "xml_ok fs (Xml n attrs children) =
     (let node = Xml n attrs children; t = node_type node; below = list_all (xml_ok fs) children in
      if t = ''case'' then below
      else if nesting t then children \<noteq> [] \<and> below
      else if t = ''leaf'' then True
      else if t = ''entry'' \<or> t = ''feature'' then xml_attribute node ''value'' \<noteq> None
      else if t = ''if_feature'' then (if if_feature_enabled fs n then children \<noteq> [] \<and> below else True)
      else False)"

declare xml_elements.simps [simp del] xml_ok.simps [simp del]

definition all_elements :: "features \<Rightarrow> xml list \<Rightarrow> element list" where
  "all_elements fs nodes = concat (map (xml_elements fs) nodes)"

definition add_all :: "element \<Rightarrow> element list \<Rightarrow> element" where
  "add_all e es = Element (elementType e) (elementName e) (elementValue e) (elementVersion e) (childElements e @ es)"

lemma add_all_simps [simp]:
  "add_all e [] = e" "add_all (add_all e es) fs = add_all e (es @ fs)"
  "addChildElement e c = add_all e [c]" "add_all (makeElement t n v) es = Element t n v [] es"
  "add_all (Element t n v w cs) es = Element t n v w (cs @ es)"
  by (auto simp: add_all_def addChildElement_def makeElement_def)

definition built :: "bool \<Rightarrow> element \<Rightarrow> element list \<Rightarrow> (bool \<times> element) option" where
  "built ok e es = (if ok then Some (True, add_all e es) else None)"

lemma extractCommon_built:
  assumes "\<And>k e. k \<in> set nodes \<Longrightarrow>
    call_method fs (node_type k) k (extractCommon fs (xml_children k)) e = built (xml_ok fs k) e (xml_elements fs k)"
  shows "extractCommon fs nodes e = built (nodes \<noteq> [] \<and> list_all (xml_ok fs) nodes) e (all_elements fs nodes)"
  using assms
proof (induction nodes arbitrary: e)
  case (Cons k ks)
  obtain n attrs children where k: "k = Xml n attrs children"
    by (cases k)
  have "call_method fs (snd (getElementType n)) k (extractCommon fs children) e = built (xml_ok fs k) e (xml_elements fs k)"
    using Cons.prems [of k e] by (simp add: node_type_def k)
  moreover have "extractCommon fs ks e = built (ks \<noteq> [] \<and> list_all (xml_ok fs) ks) e (all_elements fs ks)" for e
    using Cons.prems by (intro Cons.IH) simp
  ultimately show ?case
    using k by (simp add: extractCommon.simps built_def all_elements_def)
qed (simp add: extractCommon.simps built_def)

lemma all_elements_Nil [simp]: "all_elements fs [] = []"
  by (simp add: all_elements_def)

lemma nesting_cases:
  assumes "nesting t"
  obtains "t = ''container''" | "t = ''list''" | "t = ''choice''" | "t = ''listEntry''" | "t = ''listLeaf''" | "t = ''case''"
  using assms unfolding nesting_def by (elim insertE emptyE) blast+

lemma nesting_simps [simp]:
  "nesting ''container''" "nesting ''list''" "nesting ''choice''" "nesting ''listEntry''" "nesting ''listLeaf''"
  "nesting ''case''" "\<not> nesting ''leaf''" "\<not> nesting ''entry''" "\<not> nesting ''feature''" "\<not> nesting ''if_feature''"
  by (simp_all add: nesting_def)

lemmas extract_defs = extractSubContainer_def extractList_def extractChoice_def extractListEntry_def
  extractListLeaf_def extractCase_def extractLeaf_def extractEntry_def extractFeature_def extractIfFeature_def

lemma call_method_built:
  "call_method fs (node_type node) node (extractCommon fs (xml_children node)) e
    = built (xml_ok fs node) e (xml_elements fs node)"
proof (induction node arbitrary: e)
  case (Xml n attrs children)
  have common: "extractCommon fs children e = built (children \<noteq> [] \<and> list_all (xml_ok fs) children) e (all_elements fs children)" for e
    using Xml.IH by (rule extractCommon_built)
  let ?t = "node_type (Xml n attrs children)"
  note unfolded = call_method_def common xml_ok.simps xml_elements.simps Let_def built_def extract_defs
    all_elements_def [symmetric] attribute_text_def
  consider "nesting ?t" | "?t = ''leaf''" | "?t = ''entry''" | "?t = ''feature''" | "?t = ''if_feature''"
    | "\<not> nesting ?t" "?t \<notin> {''leaf'', ''entry'', ''feature'', ''if_feature''}"
    by blast
  then show ?case
  proof cases
    case 1
    then show ?thesis
      by (cases rule: nesting_cases) (simp_all add: unfolded makeElement_def)
  next
    case 6
    then show ?thesis
      by (simp add: unfolded nesting_def)
  qed (simp_all add: unfolded split: option.split)
qed

lemma extractCommon_spec:
  "extractCommon fs nodes e = built (nodes \<noteq> [] \<and> list_all (xml_ok fs) nodes) e (all_elements fs nodes)"
  by (rule extractCommon_built) (rule call_method_built)

section \<open>What a module, and a file, stand for\<close>

definition is_version :: "xml \<Rightarrow> bool" where
  "is_version node \<longleftrightarrow> xml_name node = ''file-version''"

definition child_ok :: "features \<Rightarrow> xml \<Rightarrow> bool" where
  "child_ok fs node = (if is_version node then xml_attribute node ''value'' \<noteq> None else xml_ok fs node)"

definition module_elements :: "features \<Rightarrow> xml list \<Rightarrow> element list" where
  "module_elements fs children = all_elements fs (filter (\<lambda>k. \<not> is_version k) children)"

definition module_version :: "string \<Rightarrow> xml list \<Rightarrow> string" where
  "module_version v children = foldl (\<lambda>v k. if is_version k then attribute_text k ''value'' else v) v children"

definition modules_of :: "features \<Rightarrow> xml list \<Rightarrow> element list" where
  "modules_of fs nodes = concat (map (\<lambda>node. case findElementNoAttributes node ''module'' of None \<Rightarrow> []
     | Some m \<Rightarrow> [Element ''module'' m [] (module_version [] (xml_children node)) (module_elements fs (xml_children node))]) nodes)"

definition module_ok :: "features \<Rightarrow> xml \<Rightarrow> bool" where
  "module_ok fs node =
     (findElementNoAttributes node ''module'' = None \<or> list_all (child_ok fs) (xml_children node))"

lemma xml_ok_typed: "xml_ok fs node \<Longrightarrow> fst (getElementType (xml_name node))"
  by (cases node) (auto simp: xml_ok.simps Let_def node_type_def getElementType_def nesting_def split: if_splits)

lemma callExtractMethod_spec:
  "callExtractMethod fs k m =
    (if child_ok fs k then Some (True, Element (elementType m) (elementName m) (elementValue m)
        (module_version (elementVersion m) [k]) (childElements m @ module_elements fs [k])) else None)"
proof (cases "is_version k")
  case True
  then show ?thesis
    by (auto simp: callExtractMethod_def is_version_def child_ok_def setVersion_def module_version_def
        module_elements_def attribute_text_def split: option.split)
next
  case False
  obtain r t where t: "getElementType (xml_name k) = (r, t)"
    by (cases "getElementType (xml_name k)")
  then have "call_method fs t k (extractCommon fs (xml_children k)) m = built (xml_ok fs k) m (xml_elements fs k)"
    using call_method_built [of fs k m] by (simp add: node_type_def)
  moreover have "xml_ok fs k \<Longrightarrow> r"
    using xml_ok_typed [of fs k] t by simp
  ultimately show ?thesis
    using False t by (auto simp: callExtractMethod_def is_version_def child_ok_def built_def module_version_def
        module_elements_def all_elements_def add_all_def)
qed

lemma findElementAndExtract_spec:
  "findElementAndExtract fs ks m =
    (if ks \<noteq> [] \<and> list_all (child_ok fs) ks then Some (True, Element (elementType m) (elementName m) (elementValue m)
        (module_version (elementVersion m) ks) (childElements m @ module_elements fs ks)) else None)"
  by (induction ks arbitrary: m)
    (auto simp: callExtractMethod_spec module_version_def module_elements_def all_elements_def)

lemma extract_one_spec:
  "extract_one fs node True e = built (module_ok fs node) e (modules_of fs [node])"
  by (auto simp: extract_one_def findElementAndExtract_spec module_ok_def built_def modules_of_def makeElement_def
      module_version_def module_elements_def Let_def split: option.split)

lemma modules_of_Cons: "modules_of fs (node # nodes) = modules_of fs [node] @ modules_of fs nodes"
  by (simp add: modules_of_def)

lemma extractModule_from_spec:
  "extractModule_from fs nodes True e = built (nodes \<noteq> [] \<and> list_all (module_ok fs) nodes) e (modules_of fs nodes)"
proof (induction nodes arbitrary: e)
  case (Cons node nodes)
  have "modules_of fs [] = []"
    by (simp add: modules_of_def)
  then show ?case
    using Cons.IH by (auto simp: extract_one_spec built_def modules_of_Cons [of fs node nodes])
qed (simp add: built_def)

lemma extractModule_spec:
  "extractModule fs nodes e = built (nodes \<noteq> [] \<and> list_all (module_ok fs) nodes) e (modules_of fs nodes)"
  unfolding extractModule_def by (rule extractModule_from_spec)

text \<open>The features of the file, in its order.\<close>

definition features_in :: "string \<Rightarrow> xml \<Rightarrow> (string \<times> string \<times> bool) list" where
  "features_in m node =
     (case findElementNoAttributes node ''feature'' of None \<Rightarrow> []
      | Some f \<Rightarrow> [(m, f, attribute_text node ''value'' = ''true'')])"

definition features_of :: "xml list \<Rightarrow> (string \<times> string \<times> bool) list" where
  "features_of nodes = concat (map (\<lambda>node. case findElementNoAttributes node ''module'' of None \<Rightarrow> []
     | Some m \<Rightarrow> concat (map (features_in m) (xml_children node))) nodes)"

definition feature_valued :: "xml \<Rightarrow> bool" where
  "feature_valued node \<longleftrightarrow> findElementNoAttributes node ''feature'' = None \<or> xml_attribute node ''value'' \<noteq> None"

definition features_ok :: "xml \<Rightarrow> bool" where
  "features_ok node \<longleftrightarrow> findElementNoAttributes node ''module'' = None \<or> list_all feature_valued (xml_children node)"

definition put_features :: "(string \<times> string \<times> bool) list \<Rightarrow> features \<Rightarrow> features" where
  "put_features l fs = foldl (\<lambda>fs (m, f, b). set_feature m f b fs) fs l"

lemma findElementWithAttributes_eq:
  "findElementWithAttributes node t =
    (case findElementNoAttributes node t of None \<Rightarrow> Some None
     | Some n \<Rightarrow> map_option (\<lambda>v. Some (n, v)) (xml_attribute node ''value''))"
  by (simp add: findElementWithAttributes_def findElementNoAttributes_def Let_def)

lemma feature_typed:
  "findElementNoAttributes node ''feature'' = Some f \<Longrightarrow> snd (getElementType (xml_name node)) = ''feature''"
  by (auto simp: findElementNoAttributes_def getElementType_def Let_def split: if_splits)

lemma moduleFeatures_spec:
  "moduleFeatures m ks fs =
    (if list_all feature_valued ks then Some (put_features (concat (map (features_in m) ks)) fs) else None)"
proof (induction ks arbitrary: fs)
  case (Cons k ks)
  show ?case
  proof (cases "findElementNoAttributes k ''feature''")
    case None
    then have "feature_valued k" "features_in m k = []"
      by (simp_all add: feature_valued_def features_in_def)
    with None show ?thesis
      using Cons.IH by (simp add: findElementWithAttributes_eq)
  next
    case (Some f)
    then have "feature_valued k \<longleftrightarrow> xml_attribute k ''value'' \<noteq> None"
      "features_in m k = [(m, f, attribute_text k ''value'' = ''true'')]"
      by (simp_all add: feature_valued_def features_in_def)
    with Some show ?thesis
      using Cons.IH feature_typed [OF Some]
      by (cases "xml_attribute k ''value''")
        (simp_all add: findElementWithAttributes_eq put_features_def attribute_text_def)
  qed
qed (simp add: put_features_def)

lemma extractAllFeatures_spec:
  "extractAllFeatures nodes fs =
    (if nodes \<noteq> [] \<and> list_all features_ok nodes then Some (put_features (features_of nodes) fs) else None)"
proof (induction nodes arbitrary: fs)
  case (Cons node nodes)
  then show ?case
    by (auto simp: moduleFeatures_spec features_ok_def features_of_def put_features_def split: option.split)
qed simp

section \<open>Loading the file\<close>

definition read_versions :: "xml \<Rightarrow> xml \<Rightarrow> yang_config \<Rightarrow> yang_config option" where
  "read_versions general version c = do { c \<leftarrow> read_general general c; read_yang_version version c }"

text \<open>The configuration that a document means, for one that has all that the parser goes to.\<close>

definition document_config :: "xml \<Rightarrow> features \<Rightarrow> yang_config \<Rightarrow> yang_config option" where
  "document_config root fs c =
     (case xml_children root of
        general # version # nodes \<Rightarrow>
          if nodes \<noteq> [] \<and> list_all features_ok nodes
             \<and> list_all (module_ok (put_features (features_of nodes) fs)) nodes then
            map_option (\<lambda>c. c\<lparr>config_file := add_all (config_file c) (modules_of (put_features (features_of nodes) fs) nodes)\<rparr>)
              (read_versions general version c)
          else None
      | _ \<Rightarrow> None)"

lemma read_versions_file: "read_versions general version c = Some c' \<Longrightarrow> config_file c' = config_file c"
  by (auto simp: read_versions_def read_general_def read_yang_version_def split: if_splits list.splits Option.bind_splits)

lemma parseConfig_spec:
  assumes "xml_name root = ''root''"
  shows "map_option (\<lambda>(r, p). (r, the_config p)) (parseConfig root p) =
    map_option (\<lambda>c. (True, c)) (document_config root (moduleFeatureMap p) (the_config p))"
  using assms
  by (auto simp: parseConfig_def document_config_def extractAllFeatures_spec extractModule_spec built_def read_versions_def
      bind_assoc split: list.split Option.bind_split)

lemma config_load:
  assumes "LoadFile path = Some (Some root)" "path \<noteq> []" "xml_name root = ''root''"
  shows "map_option (\<lambda>(r, p). (r, configFileLoaded p, the_config p)) (load_config LoadFile path p) =
    map_option (\<lambda>c. (RT_OK, True, c\<lparr>config_loaded := True\<rparr>))
      (document_config root (moduleFeatureMap p) (the_config p))"
proof -
  let ?p = "p\<lparr>configFileLoaded := False\<rparr>"
  have spec: "map_option (\<lambda>(r, p). (r, the_config p)) (parseConfig root ?p) =
      map_option (\<lambda>c. (True, c)) (document_config root (moduleFeatureMap p) (the_config p))"
    using parseConfig_spec [OF assms(3), of ?p] by simp
  show ?thesis
  proof (cases "parseConfig root ?p")
    case None
    then show ?thesis
      using spec assms by (simp add: load_config_def)
  next
    case (Some rp)
    obtain r q where rp: "rp = (r, q)"
      by (cases rp)
    then obtain c where "document_config root (moduleFeatureMap p) (the_config p) = Some c" "r" "the_config q = c"
      using spec Some by (cases "document_config root (moduleFeatureMap p) (the_config p)") auto
    then show ?thesis
      using Some rp assms by (simp add: load_config_def)
  qed
qed

text \<open>
  C25: loading a document is its meaning: the versions of its head, and its modules, built with the
  features that the whole file switches on, after the elements that were there. On every other document
  whose root has the name \<open>root\<close> the parser does not return: it follows a null pointer.
\<close>

theorem config_load_exact:
  assumes "LoadFile path = Some (Some root)" "path \<noteq> []" "xml_name root = ''root''"
  shows "map_option (\<lambda>(r, p). (r, configFileLoaded p, the_config p)) (load_config LoadFile path p) =
    map_option (\<lambda>c. (RT_OK, True, c\<lparr>config_loaded := True\<rparr>))
      (document_config root (moduleFeatureMap p) (the_config p))"
  using assms by (rule config_load)

text \<open>A document, and one whose container is empty.\<close>

definition demo_document :: "xml list \<Rightarrow> xml" where
  "demo_document below = Xml ''root'' []
    [Xml ''General'' [] [Xml ''OranInfo'' [(''oranVersion'', ''7.01''), (''product'', ''P'')] [],
       Xml ''ProductInfo'' [(''formatVersion'', ''1.0''), (''company'', ''C'')] []],
     Xml ''yang-version'' [(''value'', ''1.1'')] [],
     Xml ''module-a'' [] [Xml ''file-version'' [(''value'', ''2.0'')] [], Xml ''feature-f'' [(''value'', ''true'')] [],
       Xml ''container-c'' [] below],
     Xml ''module-b'' [] []]"

definition demo_below :: "xml list" where
  "demo_below = [Xml ''if_feature-a.f-1'' [] [Xml ''leaf-x'' [(''value'', ''5'')] []],
     Xml ''if_feature-a.g-2'' [] [Xml ''leaf-y'' [(''value'', ''6'')] []]]"

definition demo_loaded :: yang_config where
  "demo_loaded = \<lparr>config_file = Element ''config'' [] [] []
     [Element ''module'' ''a'' [] ''2.0''
        [Element ''feature'' ''f'' ''true'' [] [], Element ''container'' ''c'' [] [] [Element ''leaf'' ''x'' ''5'' [] []]],
      Element ''module'' ''b'' [] [] []], cfg_yang_version = ''1.1'',
     cfg_oran_version = ''7.01'', cfg_product = ''P'', cfg_variant = [], cfg_format_version = ''1.0'', cfg_company = ''C'',
     config_loaded = False\<rparr>"

lemmas name_simps = findElementNoAttributes_def getElementType_def getElementName_def find_pos_def substr_def wrap_int_def
  substr_from_def last_pos_def npos_def Let_def xml_attribute_def attribute_text_def node_type_def is_version_def

lemma demo_features: "put_features (features_of (drop 2 (xml_children (demo_document below)))) Map.empty =
    set_feature ''a'' ''f'' True Map.empty"
  by (simp add: demo_document_def features_of_def features_in_def name_simps put_features_def)

lemma demo_enabled: "if_feature_enabled (set_feature ''a'' ''f'' True Map.empty) ''if_feature-a.f-1''"
  "\<not> if_feature_enabled (set_feature ''a'' ''f'' True Map.empty) ''if_feature-a.g-2''"
  by (simp_all add: if_feature_enabled_def elements_isFeatureEnabled_def set_feature_def name_simps)

lemma demo_types:
  "node_type (Xml ''if_feature-a.f-1'' as ks) = ''if_feature''" "node_type (Xml ''if_feature-a.g-2'' as ks) = ''if_feature''"
  "node_type (Xml ''leaf-x'' as ks) = ''leaf''" "node_type (Xml ''leaf-y'' as ks) = ''leaf''"
  "node_type (Xml ''container-c'' as ks) = ''container''" "node_type (Xml ''feature-f'' as ks) = ''feature''"
  "getElementName ''leaf-x'' = ''x''" "getElementName ''container-c'' = ''c''" "getElementName ''feature-f'' = ''f''"
  by (simp_all add: name_simps)

lemma demo_modules:
  "findElementNoAttributes (Xml ''module-a'' as ks) ''module'' = Some ''a''"
  "findElementNoAttributes (Xml ''module-b'' as ks) ''module'' = Some ''b''"
  by (simp_all add: name_simps)

lemma demo_root: "xml_name (demo_document below) = ''root''"
  by (simp add: demo_document_def)

lemma demo_means: "document_config (demo_document demo_below) Map.empty new_config = Some demo_loaded"
proof -
  let ?nodes = "drop 2 (xml_children (demo_document demo_below))"
  have fs: "put_features (features_of ?nodes) Map.empty = set_feature ''a'' ''f'' True Map.empty"
    by (rule demo_features)
  have "list_all features_ok ?nodes"
    by (simp add: demo_document_def demo_below_def features_ok_def feature_valued_def name_simps)
  moreover have "list_all (module_ok (set_feature ''a'' ''f'' True Map.empty)) ?nodes"
    by (simp add: demo_document_def demo_below_def module_ok_def demo_modules child_ok_def is_version_def xml_ok.simps
        demo_types demo_enabled Let_def xml_attribute_def)
  moreover have "modules_of (set_feature ''a'' ''f'' True Map.empty) ?nodes = childElements (config_file demo_loaded)"
    by (simp add: demo_document_def demo_below_def modules_of_def demo_modules is_version_def xml_elements.simps
        demo_types demo_enabled Let_def xml_attribute_def demo_loaded_def module_elements_def module_version_def
        all_elements_def attribute_text_def makeElement_def)
  ultimately show ?thesis
    using fs by (simp add: demo_document_def document_config_def read_versions_def read_general_def read_yang_version_def
        new_config_def demo_loaded_def xml_attribute_def attribute_text_def)
qed

theorem config_load_exact_witness:
  "map_option (\<lambda>(r, p). (r, configFileLoaded p, the_config p))
      (load_config (\<lambda>path. Some (Some (demo_document demo_below))) ''YangConfig.xml'' new_parser) =
    Some (RT_OK, True, demo_loaded\<lparr>config_loaded := True\<rparr>)"
  using config_load_exact [of "\<lambda>path. Some (Some (demo_document demo_below))" "''YangConfig.xml''" "demo_document demo_below"
      new_parser] by (simp add: demo_root demo_means new_parser_def)

section \<open>The elements of a loaded configuration\<close>

definition known_type :: "string \<Rightarrow> bool" where
  "known_type t \<longleftrightarrow> nesting t \<or> t \<in> {''module'', ''leaf'', ''entry'', ''feature''}"

fun known_element :: "element \<Rightarrow> bool" where
  "known_element (Element t n v w children) = (known_type t \<and> list_all known_element children)"

declare known_element.simps [simp del]

definition known_below :: "element \<Rightarrow> bool" where
  "known_below e \<longleftrightarrow> list_all known_element (childElements e)"

lemma known_elementD: "known_element e \<Longrightarrow> known_type (elementType e) \<and> known_below e"
  by (cases e) (simp add: known_element.simps known_below_def)

lemma list_all_concat_map: "(\<And>x. x \<in> set xs \<Longrightarrow> list_all P (f x)) \<Longrightarrow> list_all P (concat (map f xs))"
  by (auto simp: list_all_iff)

lemma xml_elements_known: "list_all known_element (xml_elements fs node)"
proof (induction node)
  case (Xml n attrs children)
  then have "list_all known_element (concat (map (xml_elements fs) children))"
    by (intro list_all_concat_map)
  then show ?case
    by (auto simp: xml_elements.simps Let_def known_element.simps known_type_def makeElement_def split: option.split)
qed

lemma modules_of_known: "list_all known_element (modules_of fs nodes)"
  unfolding modules_of_def
  by (intro list_all_concat_map)
    (auto simp: known_element.simps known_type_def module_elements_def all_elements_def list_all_concat_map
      xml_elements_known split: option.split)

lemma getElement_in: "getElement e t n = Some c \<Longrightarrow> c \<in> set (childElements e)"
  by (auto simp: getElement_def find_Some_iff)

lemma getElement_at_in: "getElement_at e t i = Some c \<Longrightarrow> c \<in> set (childElements e)"
  by (auto simp: getElement_at_def split: if_splits)

lemma known_child: "known_below e \<Longrightarrow> c \<in> set (childElements e) \<Longrightarrow> known_below c"
  using known_elementD [of c] by (auto simp: known_below_def list_all_iff)

lemma known_found: "known_below e \<Longrightarrow> getElement e t n = Some c \<Longrightarrow> known_below c"
  "known_below e \<Longrightarrow> getElement_at e t i = Some c \<Longrightarrow> known_below c"
  by (auto dest: getElement_in getElement_at_in known_child)

lemma known_follow: "known_below e \<Longrightarrow> follow e ps = Some c \<Longrightarrow> known_below c"
proof (induction e ps rule: follow.induct)
  case (3 e n i ps)
  then obtain l d where "getElement e ''list'' n = Some l" "getElement_at l ''listEntry'' i = Some d" "follow d ps = Some c"
    by (auto split: option.splits)
  moreover from this have "known_below d"
    using known_found [of l] known_found [of e] "3.prems"(1) by metis
  ultimately show ?case
    using "3.IH" by simp
qed (auto split: option.splits dest: known_found)

lemma known_no_type: "known_below e \<Longrightarrow> \<not> known_type t \<Longrightarrow> getElement_type e t = None"
  using known_elementD by (auto simp: getElement_type_def find_None_iff known_below_def list_all_iff)

text \<open>A load adds modules, or nothing.\<close>

lemma document_adds:
  assumes "document_config root fs c = Some c'"
  shows "\<exists>es. config_file c' = add_all (config_file c) es \<and> list_all known_element es"
proof -
  obtain general version nodes d where "read_versions general version c = Some d"
    "c' = d\<lparr>config_file := add_all (config_file d) (modules_of (put_features (features_of nodes) fs) nodes)\<rparr>"
    using assms by (auto simp: document_config_def split: list.splits if_splits)
  then show ?thesis
    using modules_of_known read_versions_file by auto
qed

lemma load_adds:
  assumes "load_config LoadFile path p = Some (r, q)"
  obtains es where "config_file (the_config q) = add_all (config_file (the_config p)) es" "list_all known_element es"
proof -
  have parsed: "\<exists>es. config_file (the_config q) = add_all (config_file (the_config p)) es \<and> list_all known_element es"
    if "parseConfig root p = Some (ok, q)" for root ok p q
  proof (cases "xml_name root = ''root''")
    case True
    have "map_option (\<lambda>c. (True, c)) (document_config root (moduleFeatureMap p) (the_config p)) = Some (ok, the_config q)"
      using parseConfig_spec [OF True, of p] that by simp
    then show ?thesis
      using document_adds by auto
  next
    case False
    then have "config_file (the_config q) = add_all (config_file (the_config p)) []"
      using that by (simp add: parseConfig_def)
    then show ?thesis
      by (intro exI [of _ "[]"]) simp
  qed
  have "\<exists>es. config_file (the_config q) = add_all (config_file (the_config p)) es \<and> list_all known_element es"
  proof -
    consider "config_file (the_config q) = add_all (config_file (the_config p)) []"
      | root ok q' where "parseConfig root (p\<lparr>configFileLoaded := False\<rparr>) = Some (ok, q')"
        "config_file (the_config q) = config_file (the_config q')"
      using assms by (auto simp: load_config_def Let_def split: if_splits option.splits Option.bind_splits)
    then show ?thesis
    proof cases
      case 1
      then show ?thesis
        by (intro exI [of _ "[]"]) simp
    next
      case 2
      then show ?thesis
        using parsed [OF 2(1)] by simp
    qed
  qed
  then show ?thesis
    using that by blast
qed

lemma load_known:
  assumes "load_config LoadFile path p = Some (r, q)" "known_below (config_file (the_config p))"
  shows "known_below (config_file (the_config q))"
proof -
  obtain es where "config_file (the_config q) = add_all (config_file (the_config p)) es" "list_all known_element es"
    using load_adds [OF assms(1)] .
  then show ?thesis
    using assms(2) by (simp add: known_below_def add_all_def)
qed

lemma new_parser_known: "known_below (config_file (the_config new_parser))"
  by (simp add: known_below_def new_parser_def new_config_def)

lemma find_first: "find P xs = Some c \<Longrightarrow> find P (xs @ ys) = Some c"
  by (induction xs) (auto split: if_splits)

lemma getElement_add_all: "getElement e t n = Some c \<Longrightarrow> getElement (add_all e es) t n = Some c"
  by (simp add: getElement_def add_all_def find_first)

text \<open>
  C26: loading a file again does not change what the configuration says of a module that it has: the new
  module comes after the old one, and the first is found.
\<close>

theorem reload_keeps_module:
  assumes "load_config LoadFile path p = Some (r, q)"
    and "isModuleSupported (config_file (the_config p)) m"
    and "list_all step_ok (Child ''module'' m # ps)" "plain_name x"
  shows "getValue (config_file (the_config q)) (path_text (Child ''module'' m # ps) (''leaf-'' @ x)) =
    getValue (config_file (the_config p)) (path_text (Child ''module'' m # ps) (''leaf-'' @ x))"
proof -
  obtain c where "getElement (config_file (the_config p)) ''module'' m = Some c"
    using assms(2) by (auto simp: isModuleSupported_def)
  moreover obtain es where "config_file (the_config q) = add_all (config_file (the_config p)) es"
    using load_adds [OF assms(1)] by metis
  ultimately show ?thesis
    unfolding getValue_steps [OF assms(3,4)] by (simp add: getElement_add_all)
qed

text \<open>The same module again, with another value.\<close>

definition demo_changed :: xml where
  "demo_changed = demo_document [Xml ''leaf-x'' [(''value'', ''9'')] []]"

definition demo_parser :: config_parser where
  "demo_parser = \<lparr>configFileLoaded = True, moduleFeatureMap = Map.empty, the_config = demo_loaded\<rparr>"

lemma demo_changed_loads: "document_config demo_changed fs c \<noteq> None"
proof -
  let ?nodes = "drop 2 (xml_children demo_changed)"
  have "list_all features_ok ?nodes"
    by (simp add: demo_changed_def demo_document_def features_ok_def feature_valued_def name_simps)
  moreover have "list_all (module_ok gs) ?nodes" for gs
    by (simp add: demo_changed_def demo_document_def module_ok_def demo_modules child_ok_def is_version_def xml_ok.simps
        demo_types Let_def xml_attribute_def)
  ultimately show ?thesis
    by (simp add: demo_changed_def demo_document_def document_config_def read_versions_def read_general_def
        read_yang_version_def xml_attribute_def)
qed

theorem reload_keeps_module_witness:
  "\<exists>q. load_config (\<lambda>path. Some (Some demo_changed)) ''YangConfig.xml'' demo_parser = Some (RT_OK, q) \<and>
    getValue (config_file (the_config q)) (path_text [Child ''module'' ''a'', Child ''container'' ''c''] (''leaf-'' @ ''x''))
      = Some ''5''"
proof -
  let ?load = "load_config (\<lambda>path. Some (Some demo_changed)) ''YangConfig.xml'' demo_parser"
  have "map_option (\<lambda>(r, p). (r, configFileLoaded p, the_config p)) ?load \<noteq> None"
    "\<And>r q. ?load = Some (r, q) \<Longrightarrow> r = RT_OK"
    using config_load [of "\<lambda>path. Some (Some demo_changed)" "''YangConfig.xml''" demo_changed demo_parser]
      demo_changed_loads [of "moduleFeatureMap demo_parser" "the_config demo_parser"]
    by (auto simp: demo_changed_def demo_root)
  then obtain q where q: "?load = Some (RT_OK, q)"
    by auto
  have ok: "list_all step_ok [Child ''module'' ''a'', Child ''container'' ''c'']" "plain_name ''x''"
    by (simp_all add: plain_name_def plain_type_def)
  have "isModuleSupported (config_file (the_config demo_parser)) ''a''"
    by (simp add: demo_parser_def demo_loaded_def isModuleSupported_def getElement_def)
  then have "getValue (config_file (the_config q)) (path_text [Child ''module'' ''a'', Child ''container'' ''c''] (''leaf-'' @ ''x''))
      = getValue (config_file (the_config demo_parser))
          (path_text [Child ''module'' ''a'', Child ''container'' ''c''] (''leaf-'' @ ''x''))"
    using reload_keeps_module [OF q, of "''a''" "[Child ''container'' ''c'']" "''x''"] ok by simp
  also have "\<dots> = Some ''5''"
    unfolding getValue_steps [OF ok] by (simp add: demo_parser_def demo_loaded_def getElement_def)
  finally show ?thesis
    using q by blast
qed

end
