(* ===== verification/ModuleCap.thy ===== *)
theory ModuleCap
  imports RuElements ConfigParser
begin

text \<open>
  \<open>OranModuleCapHandler.cpp\<close>: the capabilities of the radio unit, which the handler copies from the
  configuration into the tree of its operational data when it starts.
\<close>

section \<open>State\<close>

record cap_handler =
  cap_base :: handler
  cap_leaves :: "node list"

definition new_cap :: "yang_persist \<Rightarrow> datastore \<Rightarrow> cap_handler" where
  "new_cap persist ds = \<lparr>cap_base = new_handler ''o-ran-module-cap'' persist ds, cap_leaves = []\<rparr>"

section \<open>The tree\<close>

definition cap_path :: "string \<Rightarrow> string" where
  "cap_path p = ''module-o-ran-module-cap/container-module-capability/'' @ p"

definition ruCapLeaves :: "string list" where
  "ruCapLeaves =
    [''ru-supported-category'', ''number-of-ru-ports-ul'', ''number-of-ru-ports-dl'', ''number-of-spatial-streams'',
     ''max-power-per-pa-antenna'', ''min-power-per-pa-antenna'', ''fronthaul-split-option'',
     ''energy-saving-by-transmission-blanks'', ''dynamic-transport-delay-management-supported'',
     ''support-only-unique-ecpri-seqid-per-eaxc'', ''ud-comp-len-supported'']"

definition iqSampLeaves :: "string list" where
  "iqSampLeaves =
    [''dynamic-compression-supported'', ''realtime-variable-bit-width-supported'',
     ''variable-bit-width-per-channel-supported'', ''syminc-supported'', ''regularization-factor-se-supported'',
     ''little-endian-supported'']"

text \<open>
  The contents of \<open>format-of-iq-sample\<close>, and those of the container of the guard resource blocks of
  the uplink, which gets the leaves of the downlink too.
\<close>

definition iq_sample_format :: "element \<Rightarrow> string \<Rightarrow> node list option" where
  "iq_sample_format config iqContPath = parts
    [addLeavesFromConfig config iqContPath iqSampLeaves,
     each_entry config (iqContPath @ ''/list-compression-method-supported'') ''compression-method-supported'' (\<lambda>p. parts
      [addLeafFromConfig config p ''iq-bitwidth'', addLeafFromConfig config p ''exponent''])]"

definition guard_rbs :: "element \<Rightarrow> string \<Rightarrow> node list option" where
  "guard_rbs config ruCapPath = parts
    [addLeavesFromConfig config (ruCapPath @ ''/ul-mixed-num-required-guard-rbs'')
       [''scs-a'', ''scs-b'', ''number-of-guard-rbs-ul''],
     addLeavesFromConfig config (ruCapPath @ ''/dl-mixed-num-required-guard-rbs'')
       [''scs-a'', ''scs-b'', ''number-of-guard-rbs-dl'']]"

definition createRuCapabilities :: "element \<Rightarrow> node list option" where
  "createRuCapabilities config =
     (let ruCapPath = cap_path ''container-ru-capabilities'' in
      container ''ru-capabilities'' (parts
       [addLeavesFromConfig config ruCapPath ruCapLeaves,
        container ''format-of-iq-sample'' (iq_sample_format config (ruCapPath @ ''/container-format-of-iq-sample'')),
        container ''ul-mixed-num-required-guard-rbs'' (guard_rbs config ruCapPath),
        container ''dl-mixed-num-required-guard-rbs'' (Some []),
        container ''coupling-methods'' (Some [])]))"

definition createBandCapabilities :: "element \<Rightarrow> node list option" where
  "createBandCapabilities config =
     container ''band-capabilities'' (addLeavesFromConfig config (cap_path ''container-band-capabilities'')
      [''band-number'', ''max-supported-frequency-dl'', ''min-supported-frequency-dl'', ''max-supported-bandwidth-dl'',
       ''max-num-carriers-dl'', ''max-carrier-bandwidth-dl'', ''min-carrier-bandwidth-dl'',
       ''max-supported-frequency-ul'', ''min-supported-frequency-ul'', ''max-supported-bandwidth-ul'',
       ''max-num-carriers-ul'', ''max-carrier-bandwidth-ul'', ''min-carrier-bandwidth-ul'',
       ''max-num-component-carriers'', ''max-num-bands'', ''max-num-sectors'', ''max-power-per-antenna'',
       ''min-power-per-antenna'', ''codebook-configuration_ng'', ''codebook-configuration_n1'',
       ''codebook-configuration_n2''])"

section \<open>The handler\<close>

definition cap_initialise :: "sysrepo \<Rightarrow> element \<Rightarrow> cap_handler \<Rightarrow> (start_exn + bool) \<times> cap_handler" where
  "cap_initialise sr config s =
     (let (ok, h) = handler_initialise sr (cap_base s); s = s\<lparr>cap_base := h\<rparr> in
      if \<not> ok then (Inr False, s)
      else case createRuCapabilities config of
        None \<Rightarrow> (Inl Config_exn, s)
      | Some ns \<Rightarrow>
          (let s = s\<lparr>cap_leaves := cap_leaves s @ ns\<rparr> in
           case createBandCapabilities config of
             None \<Rightarrow> (Inl Config_exn, s)
           | Some ns \<Rightarrow>
               (let s = s\<lparr>cap_leaves := cap_leaves s @ ns\<rparr> in
                (Inr True, s\<lparr>cap_base :=
                   hd_getItemsSubscribe sr (handler_path (cap_base s) ''module-capability'') (cap_base s)\<rparr>))))"

definition cap_validate :: "yang_param list \<Rightarrow> yang_param list \<Rightarrow> cap_handler \<Rightarrow> (exn + sr_error) \<times> cap_handler" where
  "cap_validate params deletedParams s = (Inr SR_ERR_OK, s)"

text \<open>\<open>valueChange\<close> only logs.\<close>

definition cap_valueChange :: "string \<Rightarrow> yang_param option \<Rightarrow> yang_param option \<Rightarrow> cap_handler cpp" where
  "cap_valueChange xpath oldValue newValue s = (None, s)"

section \<open>What is served of the configuration\<close>

definition ru_cap_steps :: "path_step list" where
  "ru_cap_steps =
    [Child ''module'' ''o-ran-module-cap'', Child ''container'' ''module-capability'', Child ''container'' ''ru-capabilities'']"

text \<open>The path of a guard leaf, as the walk takes it: through an element of the type \<open>ul\<close> or \<open>dl\<close>.\<close>

lemma guard_leaf_path:
  "cap_path ''container-ru-capabilities'' @ ''/ul-mixed-num-required-guard-rbs/leaf-'' @ x =
     path_text (ru_cap_steps @ [Child ''ul'' ''mixed-num-required-guard-rbs'']) (''leaf-'' @ x)"
  "cap_path ''container-ru-capabilities'' @ ''/dl-mixed-num-required-guard-rbs/leaf-'' @ x =
     path_text (ru_cap_steps @ [Child ''dl'' ''mixed-num-required-guard-rbs'']) (''leaf-'' @ x)"
  by (simp_all add: cap_path_def path_text_def ru_cap_steps_def)

lemma follow_snoc:
  "follow e (ps @ [Child t n]) = (case follow e ps of None \<Rightarrow> None | Some e \<Rightarrow> getElement e t n)"
  by (induction e ps rule: follow.induct) (auto split: option.splits)

lemma guard_leaf_empty:
  assumes "\<forall>e. follow config ru_cap_steps = Some e \<longrightarrow> getElement_type e t = None" "t = ''ul'' \<or> t = ''dl''" "plain_name x"
  shows "getValue config (cap_path ''container-ru-capabilities'' @ ''/'' @ t @ ''-mixed-num-required-guard-rbs/leaf-'' @ x) = Some []"
proof -
  let ?ps = "ru_cap_steps @ [Child t ''mixed-num-required-guard-rbs'']"
  have "list_all step_ok ?ps"
    using assms(2) by (auto simp: ru_cap_steps_def plain_name_def plain_type_def)
  moreover have "follow config ?ps = None"
    using assms(1) by (auto simp: follow_snoc getElement_type_def getElement_def find_None_iff split: option.split)
  moreover have "cap_path ''container-ru-capabilities'' @ ''/'' @ t @ ''-mixed-num-required-guard-rbs/leaf-'' @ x =
      path_text ?ps (''leaf-'' @ x)"
    using assms(2) by (auto simp: guard_leaf_path [simplified])
  ultimately show ?thesis
    using getValue_steps [of ?ps x config] assms(3) by simp
qed

lemma no_leaves:
  "(\<And>x. x \<in> set xs \<Longrightarrow> getValue config (p @ ''/leaf-'' @ x) = Some []) \<Longrightarrow> addLeavesFromConfig config p xs = Some []"
  unfolding addLeavesFromConfig_def by (induction xs) (simp_all add: addLeafFromConfig_def addLeaf_def)

lemma guard_rbs_empty:
  assumes "\<forall>e. follow config ru_cap_steps = Some e \<longrightarrow> getElement_type e ''ul'' = None \<and> getElement_type e ''dl'' = None"
  shows "guard_rbs config (cap_path ''container-ru-capabilities'') = Some []"
proof -
  have "addLeavesFromConfig config (cap_path ''container-ru-capabilities'' @ ''/'' @ t @ ''-mixed-num-required-guard-rbs'')
      [''scs-a'', ''scs-b'', ''number-of-guard-rbs-'' @ t] = Some []" if "t = ''ul'' \<or> t = ''dl''" for t
  proof (rule no_leaves)
    fix x
    assume "x \<in> set [''scs-a'', ''scs-b'', ''number-of-guard-rbs-'' @ t]"
    then have "plain_name x"
      using that by (auto simp: plain_name_def)
    then show "getValue config ((cap_path ''container-ru-capabilities'' @ ''/'' @ t @ ''-mixed-num-required-guard-rbs'') @
        ''/leaf-'' @ x) = Some []"
      using guard_leaf_empty [OF _ that] assms that by auto
  qed
  from this [of "''ul''"] this [of "''dl''"] show ?thesis
    by (simp add: guard_rbs_def parts_def)
qed

lemma ru_capabilities_empty:
  assumes "known_below config"
  shows "createRuCapabilities config =
    container ''ru-capabilities'' (parts
      [addLeavesFromConfig config (cap_path ''container-ru-capabilities'') ruCapLeaves,
       container ''format-of-iq-sample''
         (iq_sample_format config (cap_path ''container-ru-capabilities/container-format-of-iq-sample'')),
       Some [Container ''ul-mixed-num-required-guard-rbs'' [], Container ''dl-mixed-num-required-guard-rbs'' [],
             Container ''coupling-methods'' []]])"
proof -
  have "\<not> known_type ''ul''" "\<not> known_type ''dl''"
    by (simp_all add: known_type_def nesting_def)
  then have "\<forall>e. follow config ru_cap_steps = Some e \<longrightarrow> getElement_type e ''ul'' = None \<and> getElement_type e ''dl'' = None"
    using known_follow [OF assms] known_no_type by blast
  from guard_rbs_empty [OF this] show ?thesis
    by (simp add: createRuCapabilities_def container_def parts_def cap_path_def split: Option.bind_splits)
qed

text \<open>
  C24: whatever file is loaded, the guard resource blocks of mixed numerologies and the coupling methods
  are served as empty containers: the paths of the first name no element that the parser makes, and the
  leaves of the others are listed but never added.
\<close>

theorem capabilities_served_empty:
  assumes "load_config LoadFile filePath new_parser = Some (r, p)"
  shows "createRuCapabilities (config_file (the_config p)) =
    container ''ru-capabilities'' (parts
      [addLeavesFromConfig (config_file (the_config p)) (cap_path ''container-ru-capabilities'') ruCapLeaves,
       container ''format-of-iq-sample'' (iq_sample_format (config_file (the_config p))
         (cap_path ''container-ru-capabilities/container-format-of-iq-sample'')),
       Some [Container ''ul-mixed-num-required-guard-rbs'' [], Container ''dl-mixed-num-required-guard-rbs'' [],
             Container ''coupling-methods'' []]])"
  by (rule ru_capabilities_empty) (rule load_known [OF assms new_parser_known])

text \<open>A file with a guard leaf in a list of the right name.\<close>

definition guard_below :: "xml list" where
  "guard_below = [Xml ''list-ul-mixed-num-required-guard-rbs'' [] [Xml ''listEntry'' []
     [Xml ''leaf-scs-a'' [(''value'', ''KHZ_15'')] []]]]"

definition guard_document :: xml where
  "guard_document = Xml ''root'' []
    [Xml ''General'' [] [Xml ''OranInfo'' [] [], Xml ''ProductInfo'' [] []], Xml ''yang-version'' [(''value'', ''1.1'')] [],
     Xml ''module-o-ran-module-cap'' [] [Xml ''container-module-capability'' []
       [Xml ''container-ru-capabilities'' [] guard_below]]]"

lemma guard_document_loads:
  "\<exists>p. load_config (\<lambda>path. Some (Some guard_document)) ''YangConfig.xml'' new_parser = Some (RT_OK, p)"
proof -
  let ?load = "load_config (\<lambda>path. Some (Some guard_document)) ''YangConfig.xml'' new_parser"
  let ?nodes = "drop 2 (xml_children guard_document)"
  have "list_all features_ok ?nodes"
    by (simp add: guard_document_def features_ok_def feature_valued_def name_simps)
  moreover have "list_all (module_ok gs) ?nodes" for gs
    by (simp add: guard_document_def guard_below_def module_ok_def child_ok_def xml_ok.simps name_simps)
  ultimately have "document_config guard_document Map.empty new_config \<noteq> None"
    by (simp add: guard_document_def document_config_def read_versions_def read_general_def
        read_yang_version_def xml_attribute_def)
  moreover have "xml_name guard_document = ''root''"
    by (simp add: guard_document_def)
  ultimately have "map_option (\<lambda>(r, p). (r, configFileLoaded p, the_config p)) ?load \<noteq> None"
    "\<And>r q. ?load = Some (r, q) \<Longrightarrow> r = RT_OK"
    using config_load [of "\<lambda>path. Some (Some guard_document)" "''YangConfig.xml''" guard_document new_parser]
    by (auto simp: new_parser_def)
  then show ?thesis
    by auto
qed

theorem capabilities_served_empty_witness:
  "\<exists>p. load_config (\<lambda>path. Some (Some guard_document)) ''YangConfig.xml'' new_parser = Some (RT_OK, p) \<and>
   createRuCapabilities (config_file (the_config p)) =
    container ''ru-capabilities'' (parts
      [addLeavesFromConfig (config_file (the_config p)) (cap_path ''container-ru-capabilities'') ruCapLeaves,
       container ''format-of-iq-sample'' (iq_sample_format (config_file (the_config p))
         (cap_path ''container-ru-capabilities/container-format-of-iq-sample'')),
       Some [Container ''ul-mixed-num-required-guard-rbs'' [], Container ''dl-mixed-num-required-guard-rbs'' [],
             Container ''coupling-methods'' []]])"
proof -
  obtain p where "load_config (\<lambda>path. Some (Some guard_document)) ''YangConfig.xml'' new_parser = Some (RT_OK, p)"
    using guard_document_loads by blast
  then show ?thesis
    using capabilities_served_empty by blast
qed

end
