(* ===== verification/NetconfServer.thy ===== *)
theory NetconfServer
  imports SysrepoHandler
begin

text \<open>
  \<open>IetfNetconfServerHandler.cpp\<close>: the call-home clients of the NETCONF server. They are entries of
  a list in the data store; the list of clients that is kept across restarts is an argument, as
  pairs of the address and the port in decimal.
\<close>

section \<open>Clients\<close>

definition call_home :: string where
  "call_home = ''/ietf-netconf-server:netconf-server/call-home/netconf-client''"

definition client_name :: "string \<Rightarrow> string \<Rightarrow> string" where
  "client_name url port = ''client-'' @ url @ ''-'' @ port"

definition client_key :: "string \<Rightarrow> string \<Rightarrow> string" where
  "client_key url port = ''name='' @ CHR 0x27 # ''client-'' @ url @ ''-'' @ port @ [CHR 0x27]"

text \<open>\<open>prefix[name='value']rest\<close>\<close>

definition named :: "string \<Rightarrow> string \<Rightarrow> string \<Rightarrow> string" where
  "named p v rest = p @ ''[name='' @ CHR 0x27 # v @ CHR 0x27 # '']'' @ rest"

text \<open>The leaves of a client, in the order of the map; a null pointer is a node without a value.\<close>

definition client_leaves :: "string \<Rightarrow> string \<Rightarrow> (string \<times> string option) list" where
  "client_leaves url port =
     (let endPointPath = named ''endpoints/endpoint'' ''ssh-endpoint'' [];
          server = endPointPath @ ''/ssh/ssh-server-parameters/'';
          client = endPointPath @ ''/ssh/tcp-client-parameters/'' in
      fold (\<lambda>(k, v). map_put k v)
       [(endPointPath, None),
        (client @ ''remote-address'', Some url),
        (client @ ''remote-port'', Some port),
        (client @ ''keepalives/idle-time'', Some ''60''),
        (client @ ''keepalives/max-probes'', Some ''10''),
        (client @ ''keepalives/probe-interval'', Some ''30''),
        (named (server @ ''server-identity/host-key'') ''default-key'' [], None),
        (named (server @ ''server-identity/host-key'') ''default-key'' ''/public-key/keystore-reference'', Some ''genkey''),
        (named (server @ ''client-authentication/users/user'') ''default-user'' [], None),
        (''connection-type/persistent'', None)] [])"

definition addCallHomeClient :: "sysrepo \<Rightarrow> string \<Rightarrow> string \<Rightarrow> handler \<Rightarrow> (ds_exn + bool) \<times> handler" where
  "addCallHomeClient sr url port h =
     (case on_ds (createListEntry_opt_key sr call_home ''name'' (client_name url port) (client_leaves url port) 0) h of
        (Inl e, h) \<Rightarrow> (Inl e, h)
      | (Inr result, h) \<Rightarrow> (Inr (result = YANG_OK), h))"

text \<open>
  \<open>deleteCallHomeClient\<close>: the entry when there are others, the whole container when it is the only
  one. The outcome of reading the list is not looked at.
\<close>

definition deleteCallHomeClient :: "sysrepo \<Rightarrow> string \<Rightarrow> string \<Rightarrow> handler \<Rightarrow> (ds_exn + bool) option \<times> handler" where
  "deleteCallHomeClient sr url port h =
     (let clientNameToSearch = client_key url port in
      case on_ds (getListItems sr call_home [] 0) h of
        (None, h) \<Rightarrow> (None, h)
      | (Some (Inl e, _), h) \<Rightarrow> (Some (Inl e), h)
      | (Some (Inr _, keyValues), h) \<Rightarrow>
          if clientNameToSearch \<in> set keyValues then
            (case on_ds (if length keyValues > 1 then deleteItem sr (call_home @ ''['' @ clientNameToSearch @ '']'') 0
                         else deleteItem sr ''netconf-server/call-home'' 0) h of
               (Inl e, h) \<Rightarrow> (Some (Inl e), h)
             | (Inr result, h) \<Rightarrow> (Some (Inr (result = YANG_OK)), h))
          else (Some (Inr (YANG_NOT_FOUND = YANG_OK)), h))"

section \<open>The handler\<close>

text \<open>The constructor adds the clients that are kept; what comes of it is not looked at.\<close>

fun add_clients :: "sysrepo \<Rightarrow> (string \<times> nat) list \<Rightarrow> handler \<Rightarrow> ds_exn option \<times> handler" where
  "add_clients sr [] h = (None, h)"
| "add_clients sr ((url, port) # cs) h =
     (case addCallHomeClient sr url (dec_digits port) h of
        (Inl e, h) \<Rightarrow> (Some e, h)
      | (Inr _, h) \<Rightarrow> add_clients sr cs h)"

definition new_netconf_server :: "sysrepo \<Rightarrow> (string \<times> nat) list \<Rightarrow> yang_persist \<Rightarrow> datastore \<Rightarrow> ds_exn option \<times> handler" where
  "new_netconf_server sr clients persist ds = add_clients sr clients (new_handler ''ietf-netconf-server'' persist ds)"

definition netconf_server_initialise :: "sysrepo \<Rightarrow> handler \<Rightarrow> bool \<times> handler" where
  "netconf_server_initialise sr h = (let (ok, h) = handler_initialise sr h in if \<not> ok then (False, h) else (True, h))"

definition netconf_server_valueChange :: "string \<Rightarrow> yang_param option \<Rightarrow> yang_param option \<Rightarrow> handler cpp" where
  "netconf_server_valueChange xpath oldValue newValue h = (None, h)"

definition netconf_server_validate :: "yang_param list \<Rightarrow> yang_param list \<Rightarrow> handler \<Rightarrow> (exn + sr_error) \<times> handler" where
  "netconf_server_validate params deletedParams h = (Inr SR_ERR_OK, h)"

section \<open>What is deleted is what was added\<close>

lemma client_path: "call_home @ ''['' @ client_key url port @ '']'' = entry_path call_home ''name'' (client_name url port)"
  by (simp add: entry_path_def client_key_def client_name_def)

text \<open>The instances of the list, as the data store returns them.\<close>

definition client_values :: "string list \<Rightarrow> sr_value list" where
  "client_values names = map (\<lambda>n. \<lparr>v_xpath = entry_path call_home ''name'' n, v_data = SR_LIST\<rparr>) names"

definition plain_client :: "string \<Rightarrow> bool" where
  "plain_client n \<longleftrightarrow> CHR ''['' \<notin> set n \<and> CHR '']'' \<notin> set n \<and> length n < 2 ^ 31"

lemma keys_of_entry:
  assumes "plain_client n"
  shows "key_values (entry_path call_home ''name'' n) 0 acc = Some (acc @ [''name='' @ CHR 0x27 # n @ [CHR 0x27]])"
proof -
  let ?k = "''name='' @ CHR 0x27 # n @ [CHR 0x27]"
  have path: "entry_path call_home ''name'' n = call_home @ CHR ''['' # ?k @ CHR '']'' # []"
    by (simp add: entry_path_def)
  have "length (entry_path call_home ''name'' n) < 2 ^ 32"
    using assms by (simp add: entry_path_def plain_client_def call_home_def)
  moreover have "keys_in (entry_path call_home ''name'' n) = [?k]"
    unfolding path using assms
    by (subst keys_in_skip, simp add: call_home_def, subst keys_in_key)
      (auto simp: plain_client_def)
  ultimately show ?thesis
    by (simp add: key_values_ends)
qed

lemma keys_of_clients:
  "list_all plain_client names \<Longrightarrow>
    list_keys (client_values names) acc = Some (acc @ map (\<lambda>n. ''name='' @ CHR 0x27 # n @ [CHR 0x27]) names)"
  by (induction names arbitrary: acc) (simp_all add: client_values_def keys_of_entry)

lemma client_key_name: "client_key url port = ''name='' @ CHR 0x27 # client_name url port @ [CHR 0x27]"
  by (simp add: client_key_def client_name_def)

text \<open>
  With other clients in the list, deleting one removes exactly its entry; one that is not in the list is refused, and
  nothing is removed.
\<close>

lemma delete_client:
  assumes "\<And>cs c. sr_throws sr cs c = None" "ready (hd_ds h)"
    and "sr_values_of sr (sr_calls (hd_ds h)) SR_DS_RUNNING call_home = Some (client_values names)"
    and "list_all plain_client names" "1 < length names"
  shows "deleteCallHomeClient sr url port h = (Some (Inr (client_name url port \<in> set names)),
    h\<lparr>hd_ds := calls_made (Get_items SR_DS_RUNNING call_home #
      (if client_name url port \<in> set names
       then [Delete_item SR_DS_RUNNING (entry_path call_home ''name'' (client_name url port)), Apply_changes SR_DS_RUNNING]
       else [])) (hd_ds h)\<rparr>)"
proof -
  let ?key = "\<lambda>n. ''name='' @ CHR 0x27 # n @ [CHR 0x27]"
  let ?ds = "calls_made [Get_items SR_DS_RUNNING call_home] (hd_ds h)"
  have list: "getListItems sr call_home [] 0 (hd_ds h) = (Some (Inr YANG_OK, map ?key names), ?ds)"
    using assms(2,3) sr_call_fine [OF assms(1)] keys_of_clients [OF assms(4), of "[]"] by (simp add: getListItems_def)
  have found: "client_key url port \<in> set (map ?key names) \<longleftrightarrow> client_name url port \<in> set names"
    by (auto simp: client_key_name)
  have delete: "deleteItem sr p 0 ?ds = (Inr YANG_OK, calls_made [Delete_item SR_DS_RUNNING p, Apply_changes SR_DS_RUNNING] ?ds)" for p
    using assms(2) sr_try_fine [OF assms(1)] by (simp add: deleteItem_def guarded_def del: sr_try.simps)
  show ?thesis
    using assms(5) found
    by (simp add: deleteCallHomeClient_def on_ds_def list delete client_path [simplified] del: set_map)
qed

text \<open>
  What the data store relies on: the instances of the list of clients are those that were created and not deleted,
  in the order in which they were created. \<open>clients_in\<close> reads them off the calls that succeeded.
\<close>

definition entry_name :: "string \<Rightarrow> string option" where
  "entry_name p =
     (let q = call_home @ ''[name='' @ [CHR 0x27]; r = drop (length q) p; n = takeWhile (\<lambda>c. c \<noteq> CHR 0x27) r in
      if prefix q p \<and> drop (length n) r = [CHR 0x27, CHR '']''] then Some n else None)"

fun entry_after :: "sr_call \<times> sr_error option \<Rightarrow> string list \<Rightarrow> string list" where
  "entry_after (Set_item SR_DS_RUNNING p, None) names =
     (case entry_name p of Some n \<Rightarrow> if n \<in> set names then names else names @ [n] | None \<Rightarrow> names)"
| "entry_after (Delete_item SR_DS_RUNNING p, None) names =
     (case entry_name p of Some n \<Rightarrow> filter (\<lambda>x. x \<noteq> n) names | None \<Rightarrow> names)"
| "entry_after _ names = names"

definition clients_in :: "(sr_call \<times> sr_error option) list \<Rightarrow> string list" where
  "clients_in cs = fold entry_after cs []"

definition keeps_clients :: "sysrepo \<Rightarrow> bool" where
  "keeps_clients sr \<longleftrightarrow> (\<forall>cs. sr_values_of sr cs SR_DS_RUNNING call_home = Some (client_values (clients_in cs)))"

lemma entry_name_entry: "CHR 0x27 \<notin> set n \<Longrightarrow> entry_name (entry_path call_home ''name'' n) = Some n"
proof -
  assume n: "CHR 0x27 \<notin> set n"
  let ?q = "call_home @ ''[name='' @ [CHR 0x27]"
  have p: "entry_path call_home ''name'' n = ?q @ n @ [CHR 0x27, CHR '']'']"
    by (simp add: entry_path_def)
  have "takeWhile (\<lambda>c. c \<noteq> CHR 0x27) (n @ [CHR 0x27, CHR '']'']) = n"
    using n by (auto simp: takeWhile_append)
  then show ?thesis
    unfolding p entry_name_def Let_def by (simp del: append_Cons append_assoc)
qed

lemma entry_name_leaf:
  assumes "CHR 0x27 \<notin> set n"
  shows "entry_name (entry_path call_home ''name'' n @ CHR ''/'' # k) = None"
proof -
  let ?q = "call_home @ ''[name='' @ [CHR 0x27]"
  have p: "entry_path call_home ''name'' n @ CHR ''/'' # k = ?q @ n @ CHR 0x27 # CHR '']'' # CHR ''/'' # k"
    by (simp add: entry_path_def)
  have "takeWhile (\<lambda>c. c \<noteq> CHR 0x27) (n @ CHR 0x27 # CHR '']'' # CHR ''/'' # k) = n"
    using assms by (auto simp: takeWhile_append)
  then show ?thesis
    unfolding p entry_name_def Let_def by (simp del: append_Cons append_assoc)
qed

lemma leaves_no_entries:
  assumes "CHR 0x27 \<notin> set n"
  shows "fold entry_after (map (\<lambda>c. (c, None)) (map (\<lambda>(k, v). case v of
      Some v \<Rightarrow> Set_item_str SR_DS_RUNNING (entry_path call_home ''name'' n @ ''/'' @ k) v
    | None \<Rightarrow> Set_item SR_DS_RUNNING (entry_path call_home ''name'' n @ ''/'' @ k)) xs)) names = names"
  using entry_name_leaf [OF assms] by (induction xs) (auto split: option.split)

lemma add_client:
  assumes "\<And>cs c. sr_throws sr cs c = None" "ready (hd_ds h)" "CHR 0x27 \<notin> set (client_name url port)"
    and "client_name url port \<notin> set (clients_in (sr_calls (hd_ds h)))"
  obtains ds where "addCallHomeClient sr url port h = (Inr True, h\<lparr>hd_ds := ds\<rparr>)" "ready ds"
    "clients_in (sr_calls ds) = clients_in (sr_calls (hd_ds h)) @ [client_name url port]"
proof -
  let ?e = "entry_path call_home ''name'' (client_name url port)"
  let ?leaves = "map (\<lambda>(k, v). case v of Some v \<Rightarrow> Set_item_str SR_DS_RUNNING (?e @ ''/'' @ k) v
    | None \<Rightarrow> Set_item SR_DS_RUNNING (?e @ ''/'' @ k)) (client_leaves url port)"
  let ?ds = "calls_made (Set_item SR_DS_RUNNING ?e # ?leaves @ [Apply_changes SR_DS_RUNNING]) (hd_ds h)"
  have "addCallHomeClient sr url port h = (Inr True, h\<lparr>hd_ds := ?ds\<rparr>)"
    using assms(2) sr_try_fine [OF assms(1)]
    by (simp add: addCallHomeClient_def on_ds_def createListEntry_opt_key_def createListEntry_opt_def guarded_def del: sr_try.simps)
  moreover have "clients_in (sr_calls ?ds) = clients_in (sr_calls (hd_ds h)) @ [client_name url port]"
    using assms(4) leaves_no_entries [OF assms(3)] entry_name_entry [OF assms(3)] by (simp add: clients_in_def)
  ultimately show thesis
    using that assms(2) by simp
qed

text \<open>
  C21: a call-home client that is added to a list of others is found when it is deleted, and after that the
  list in the data store is the one from before.
\<close>

theorem delete_removes_added:
  assumes "\<And>cs c. sr_throws sr cs c = None" "keeps_clients sr" "ready (hd_ds h)"
    and "clients_in (sr_calls (hd_ds h)) = names" "names \<noteq> []" "list_all plain_client names"
    and "plain_client (client_name url port)" "CHR 0x27 \<notin> set (client_name url port)" "client_name url port \<notin> set names"
  shows "\<exists>h1 h2. addCallHomeClient sr url port h = (Inr True, h1) \<and>
    clients_in (sr_calls (hd_ds h1)) = names @ [client_name url port] \<and>
    deleteCallHomeClient sr url port h1 = (Some (Inr True), h2) \<and> clients_in (sr_calls (hd_ds h2)) = names"
proof -
  let ?n = "client_name url port"
  obtain ds where add: "addCallHomeClient sr url port h = (Inr True, h\<lparr>hd_ds := ds\<rparr>)" "ready ds"
    "clients_in (sr_calls ds) = names @ [?n]"
    using add_client [OF assms(1,3,8)] assms(4,9) by metis
  have "sr_values_of sr (sr_calls ds) SR_DS_RUNNING call_home = Some (client_values (names @ [?n]))"
    using assms(2) add(3) by (simp add: keeps_clients_def)
  moreover have "list_all plain_client (names @ [?n])" "1 < length (names @ [?n])"
    using assms(5-7) by (simp_all add: Suc_lessI)
  ultimately have "deleteCallHomeClient sr url port (h\<lparr>hd_ds := ds\<rparr>) = (Some (Inr True), h\<lparr>hd_ds := calls_made
      [Get_items SR_DS_RUNNING call_home, Delete_item SR_DS_RUNNING (entry_path call_home ''name'' ?n), Apply_changes SR_DS_RUNNING] ds\<rparr>)"
    using delete_client [OF assms(1), of "h\<lparr>hd_ds := ds\<rparr>" "names @ [?n]"] add(2) by simp
  moreover have "filter (\<lambda>x. x \<noteq> ?n) (names @ [?n]) = names"
    using assms(9) by (auto simp: filter_id_conv)
  then have "fold entry_after (map (\<lambda>c. (c, None)) [Get_items SR_DS_RUNNING call_home,
      Delete_item SR_DS_RUNNING (entry_path call_home ''name'' ?n), Apply_changes SR_DS_RUNNING]) (names @ [?n]) = names"
    by (simp add: entry_name_entry [OF assms(8)])
  ultimately show ?thesis
    using add by (intro exI conjI) (assumption | simp add: clients_in_def)+
qed

definition call_home_sysrepo :: sysrepo where
  "call_home_sysrepo =
     \<lparr>sr_throws = (\<lambda>cs c. None), sr_value_of = (\<lambda>cs ds p. None),
      sr_values_of = (\<lambda>cs ds p. Some (client_values (clients_in cs))),
      sr_has_module = (\<lambda>cs n. False)\<rparr>"

definition netconf_started :: handler where
  "netconf_started =
     new_handler ''ietf-netconf-server'' \<lparr>mYangModelName = ''ietf-netconf-server'', mDirty = False, mValues = [], mPersistPaths = {}\<rparr>
       (new_datastore\<lparr>mState := ACTIVE, mSrConnection := True, mSrSessions := [SR_DS_RUNNING, SR_DS_OPERATIONAL],
          sr_calls := [(Set_item SR_DS_RUNNING (entry_path call_home ''name'' (client_name ''a'' ''1'')), None)]\<rparr>)"

theorem delete_removes_added_witness:
  "\<exists>h1 h2. addCallHomeClient call_home_sysrepo ''b'' ''2'' netconf_started = (Inr True, h1) \<and>
     clients_in (sr_calls (hd_ds h1)) = [''client-a-1'', ''client-b-2''] \<and>
     deleteCallHomeClient call_home_sysrepo ''b'' ''2'' h1 = (Some (Inr True), h2) \<and> clients_in (sr_calls (hd_ds h2)) = [''client-a-1'']"
proof -
  have "entry_name (entry_path call_home ''name'' (client_name ''a'' ''1'')) = Some (client_name ''a'' ''1'')"
    by (rule entry_name_entry) (simp add: client_name_def)
  then have names: "clients_in (sr_calls (hd_ds netconf_started)) = [client_name ''a'' ''1'']"
    by (simp add: clients_in_def netconf_started_def new_handler_def)
  have "keeps_clients call_home_sysrepo" "ready (hd_ds netconf_started)" "\<And>cs c. sr_throws call_home_sysrepo cs c = None"
    by (simp_all add: keeps_clients_def call_home_sysrepo_def netconf_started_def new_handler_def new_datastore_def ready_def)
  then show ?thesis
    using delete_removes_added [OF _ _ _ names, of call_home_sysrepo "''b''" "''2''"] by (simp add: plain_client_def client_name_def)
qed

end
