(* ===== verification/YangParams.thy ===== *)
theory YangParams
  imports YangParam Base64 SysrepoError
begin

text \<open>
  The rest of \<open>YangParam.cpp\<close> and \<open>YangParamUtils.cpp\<close>: lists of parameters, binary values and
  their base-64 text, and the conversions to signed numbers.
\<close>

section \<open>Binary values\<close>

text \<open>\<open>setBinary\<close>: the member holds the base-64 text; \<open>None\<close> of the reader is that of \<open>decode\<close>.\<close>

definition setBinary :: "u8 list \<Rightarrow> bool \<Rightarrow> yang_val" where
  "setBinary param encoded =
     YBinary (if encoded then param else map (\<lambda>c. of_nat (of_char c)) (encode param))"

definition getBinaryEncoded :: "yang_val \<Rightarrow> u8 list" where
  "getBinaryEncoded v = (case v of YBinary bs \<Rightarrow> bs | _ \<Rightarrow> [])"

definition getBinaryDecoded :: "yang_val \<Rightarrow> u8 list option" where
  "getBinaryDecoded v = decode (map (\<lambda>b. char_of (unat b)) (getBinaryEncoded v))"

section \<open>Text\<close>

text \<open>\<open>getText\<close>: the text of a debug message; \<open>dbl\<close> is \<open>std::to_string\<close> of a \<open>double\<close>.\<close>

definition getText :: "(u64 \<Rightarrow> string) \<Rightarrow> yang_val \<Rightarrow> string" where
  "getText dbl v =
     (case v of
        YBool b \<Rightarrow> if b then ''true'' else ''false''
      | YString s \<Rightarrow> s
      | YInt8 w \<Rightarrow> dec_int (sint w) | YInt16 w \<Rightarrow> dec_int (sint w)
      | YInt32 w \<Rightarrow> dec_int (sint w) | YInt64 w \<Rightarrow> dec_int (sint w)
      | YUInt8 w \<Rightarrow> dec_digits (unat w) | YUInt16 w \<Rightarrow> dec_digits (unat w)
      | YUInt32 w \<Rightarrow> dec_digits (unat w) | YUInt64 w \<Rightarrow> dec_digits (unat w)
      | YDecimal64 d \<Rightarrow> dbl d
      | YBinary bs \<Rightarrow> map (\<lambda>b. char_of (unat b)) bs
      | YUnknown \<Rightarrow> [])"

section \<open>Conversions to signed numbers\<close>

definition toInt64 :: "yang_val \<Rightarrow> nat \<times> string" where
  "toInt64 = typeConvert (2 ^ 63 - 1)"

definition toInt32 :: "yang_val \<Rightarrow> nat \<times> string" where
  "toInt32 = typeConvert (2 ^ 31 - 1)"

definition toInt16 :: "yang_val \<Rightarrow> nat \<times> string" where
  "toInt16 = typeConvert (2 ^ 15 - 1)"

definition toInt8 :: "yang_val \<Rightarrow> nat \<times> string" where
  "toInt8 = typeConvert (2 ^ 7 - 1)"

definition toUnsigned :: "yang_val \<Rightarrow> nat \<times> string" where
  "toUnsigned = toUint32"

definition toInt :: "yang_val \<Rightarrow> nat \<times> string" where
  "toInt = toInt32"

section \<open>Lists of parameters\<close>

text \<open>The overloads of \<open>addParam\<close> differ in the kind of the value.\<close>

definition addParam :: "yang_val \<Rightarrow> string \<Rightarrow> yang_param list \<Rightarrow> yang_result \<times> yang_param list" where
  "addParam param name params = (YANG_OK, params @ [\<lparr>y_name = name, y_val = param\<rparr>])"

definition addParam_ptr :: "yang_param \<Rightarrow> yang_param list \<Rightarrow> yang_result \<times> yang_param list" where
  "addParam_ptr param params = (YANG_OK, params @ [param])"

fun addParams :: "yang_param list \<Rightarrow> yang_param list \<Rightarrow> yang_result \<times> yang_param list" where
  "addParams [] params = (YANG_OK, params)"
| "addParams (q # qs) params = (case addParam_ptr q params of (_, params) \<Rightarrow> addParams qs params)"

definition getNumParams :: "yang_param list \<Rightarrow> nat" where
  "getNumParams params = wrap32 (length params)"

definition getParam :: "yang_param list \<Rightarrow> nat \<Rightarrow> yang_param option" where
  "getParam params index = (if index < length params then Some (params ! index) else None)"

text \<open>\<open>find\<close>, and the remaining lookups of \<open>SysrepoUtils.cpp\<close>.\<close>

fun find_param :: "yang_param list \<Rightarrow> string \<Rightarrow> yang_param option" where
  "find_param [] xpath = None"
| "find_param (p # ps) xpath = (if y_name p \<noteq> xpath then find_param ps xpath else Some p)"

definition paramVal :: "(u64 \<Rightarrow> string) \<Rightarrow> (string \<times> yang_param) list \<Rightarrow> string \<Rightarrow> string" where
  "paramVal dbl values key =
     (case map_of values key of None \<Rightarrow> [] | Some p \<Rightarrow> toString dbl (y_val p))"

definition paramValUInt8 :: "(string \<times> yang_param) list \<Rightarrow> string \<Rightarrow> nat" where
  "paramValUInt8 values key = (case map_of values key of None \<Rightarrow> 0 | Some p \<Rightarrow> fst (toUint8 (y_val p)))"

definition paramValUInt16 :: "(string \<times> yang_param) list \<Rightarrow> string \<Rightarrow> nat" where
  "paramValUInt16 values key = (case map_of values key of None \<Rightarrow> 0 | Some p \<Rightarrow> fst (toUint16 (y_val p)))"

definition paramValUInt32 :: "(string \<times> yang_param) list \<Rightarrow> string \<Rightarrow> nat" where
  "paramValUInt32 values key = (case map_of values key of None \<Rightarrow> 0 | Some p \<Rightarrow> fst (toUint32 (y_val p)))"

section \<open>Binary values are kept\<close>

lemma char_of_byte: "char_of (unat (of_nat (of_char c) :: u8)) = c"
proof -
  have "(of_char c :: nat) < 256"
    by simp
  then show ?thesis
    by (simp add: unat_of_nat)
qed

text \<open>
  Binary data given unencoded is kept as its base-64 text and read back as it was.
\<close>

lemma binary_roundtrip:
  assumes "4 * ((length bs + 2) div 3) < 2 ^ 31"
  shows "getBinaryDecoded (setBinary bs False) = Some bs"
proof -
  have "map (\<lambda>b. char_of (unat b)) (map (\<lambda>c. of_nat (of_char c) :: u8) (encode bs)) = encode bs"
    by (simp add: char_of_byte comp_def)
  then show ?thesis
    using base64_roundtrip [OF assms] by (simp add: getBinaryDecoded_def getBinaryEncoded_def setBinary_def)
qed

section \<open>Signed numbers\<close>

lemma unat_via_u32: "unat (ucast (scast (w :: 'a::len word) :: u32) :: u64) = nat (sint w mod 2 ^ 32)"
proof -
  have "uint (ucast (scast w :: u32) :: u64) = uint (scast w :: u32)"
    by (simp add: uint_up_ucast is_up)
  also have "\<dots> = sint w mod 2 ^ 32"
    unfolding scast_eq uint_word_of_int by simp
  finally show ?thesis
    by (metis unat_eq_nat_uint)
qed

lemma sint_u8_range: "- 128 \<le> sint (w :: u8)" "sint (w :: u8) \<le> 127"
  using sint_range_size [of w] by (simp_all add: word_size)

text \<open>
  Reading a signed 8-bit value back as a signed number works for the values from 0 on only: a negative
  one is out of range for eight bits, and for 64 bits becomes the unsigned 32-bit number of its bits.
\<close>

lemma signed_conversions:
  "toInt8 (YInt8 w) = (if sint w < 0 then (0, ''Value out of range'') else (nat (sint w), [])) \<and>
   toInt64 (YInt8 w) = (nat (sint w mod 2 ^ 32), [])"
proof (cases "sint w < 0")
  case True
  then have "sint w mod 2 ^ 32 = sint w + 2 ^ 32"
    using sint_u8_range(1) [of w] by (subst mod_add_self2 [symmetric], subst mod_pos_pos_trivial) simp_all
  then show ?thesis
    using True sint_u8_range [of w]
    by (auto simp: toInt8_def toInt64_def typeConvert_def toUint64_def unat_via_u32 nat_less_iff zless_nat_eq_int_zless)
next
  case False
  then have "sint w mod 2 ^ 32 = sint w"
    using sint_u8_range [of w] by simp
  then show ?thesis
    using False sint_u8_range [of w] by (simp add: toInt8_def toInt64_def typeConvert_def toUint64_def unat_via_u32)
qed

end
