(* ===== verification/SysrepoVals.thy ===== *)
theory SysrepoVals
  imports YangParams SysrepoHandler
begin

text \<open>
  The conversions of \<open>SysrepoUtils.cpp\<close> and \<open>YangParamSysrepo.cpp\<close> between parameters and values
  of \<open>sysrepo\<close>, and \<open>RpcCallback.cpp\<close>, which uses them around the function of an RPC. The texts
  and data of a parameter are passed on as C strings, up to their first NUL.
\<close>

section \<open>Single values\<close>

definition c_str :: "string \<Rightarrow> string" where
  "c_str s = takeWhile (\<lambda>c. c \<noteq> CHR 0x00) s"

text \<open>The value of a kind; a parameter without one has none.\<close>

definition value_of_param :: "yang_val \<Rightarrow> sr_data option" where
  "value_of_param v =
     (case v of
        YBool b \<Rightarrow> Some (SR_BOOL b)
      | YString s \<Rightarrow> Some (SR_STRING (c_str s))
      | YBinary data \<Rightarrow> Some (SR_BINARY (takeWhile (\<lambda>b. b \<noteq> 0) data))
      | YInt8 w \<Rightarrow> Some (SR_INT8 w) | YInt16 w \<Rightarrow> Some (SR_INT16 w)
      | YInt32 w \<Rightarrow> Some (SR_INT32 w) | YInt64 w \<Rightarrow> Some (SR_INT64 w)
      | YUInt8 w \<Rightarrow> Some (SR_UINT8 w) | YUInt16 w \<Rightarrow> Some (SR_UINT16 w)
      | YUInt32 w \<Rightarrow> Some (SR_UINT32 w) | YUInt64 w \<Rightarrow> Some (SR_UINT64 w)
      | YDecimal64 d \<Rightarrow> Some (SR_DECIMAL64 d)
      | YUnknown \<Rightarrow> None)"

text \<open>The copy of a parameter is made without its name.\<close>

definition YangParamSysrepo_copy :: "yang_param \<Rightarrow> yang_param" where
  "YangParamSysrepo_copy param = \<lparr>y_name = [], y_val = y_val param\<rparr>"

definition getSysrepo :: "yang_param \<Rightarrow> sr_value option" where
  "getSysrepo param =
     (case value_of_param (y_val param) of
        None \<Rightarrow> None
      | Some d \<Rightarrow> Some \<lparr>v_xpath = (if y_name param \<noteq> [] then c_str (y_name param) else []), v_data = d\<rparr>)"

section \<open>Lists of values\<close>

text \<open>A value that is not set keeps the unknown type it was allocated with.\<close>

definition unset_value :: sr_value where
  "unset_value = \<lparr>v_xpath = [], v_data = SR_UNKNOWN\<rparr>"

definition set_value :: "yang_param \<Rightarrow> sr_value" where
  "set_value param =
     (case value_of_param (y_val param) of
        None \<Rightarrow> unset_value
      | Some d \<Rightarrow> \<lparr>v_xpath = c_str (y_name param), v_data = d\<rparr>)"

definition paramsToVals :: "yang_param list \<Rightarrow> sr_value list" where
  "paramsToVals params = map set_value params"

definition param_of_value :: "sr_value \<Rightarrow> yang_val option" where
  "param_of_value v =
     (case v_data v of
        SR_BOOL b \<Rightarrow> Some (YBool b)
      | SR_DECIMAL64 d \<Rightarrow> Some (YDecimal64 d)
      | SR_INT8 w \<Rightarrow> Some (YInt8 w) | SR_INT16 w \<Rightarrow> Some (YInt16 w)
      | SR_INT32 w \<Rightarrow> Some (YInt32 w) | SR_INT64 w \<Rightarrow> Some (YInt64 w)
      | SR_STRING s \<Rightarrow> Some (YString s)
      | SR_UINT8 w \<Rightarrow> Some (YUInt8 w) | SR_UINT16 w \<Rightarrow> Some (YUInt16 w)
      | SR_UINT32 w \<Rightarrow> Some (YUInt32 w) | SR_UINT64 w \<Rightarrow> Some (YUInt64 w)
      | SR_BINARY bs \<Rightarrow> Some (setBinary bs True)
      | SR_BITS s \<Rightarrow> Some (YString s) | SR_ENUM s \<Rightarrow> Some (YString s)
      | SR_IDENTITYREF s \<Rightarrow> Some (YString s) | SR_INSTANCEID s \<Rightarrow> Some (YString s)
      | _ \<Rightarrow> None)"

fun valsToParams_from :: "sr_value list \<Rightarrow> yang_param list \<Rightarrow> yang_param list" where
  "valsToParams_from [] params = params"
| "valsToParams_from (v # vs) params =
     (case param_of_value v of
        None \<Rightarrow> valsToParams_from vs params
      | Some y \<Rightarrow> valsToParams_from vs (snd (addParam y (v_xpath v) params)))"

definition valsToParams :: "sr_value list \<Rightarrow> yang_param list" where
  "valsToParams vals = valsToParams_from vals []"

text \<open>\<open>paramsToValsHolder\<close> gives up at the first parameter without a kind.\<close>

fun paramsToValsHolder :: "yang_param list \<Rightarrow> bool \<times> sr_value list" where
  "paramsToValsHolder [] = (True, [])"
| "paramsToValsHolder (p # ps) =
     (if y_val p = YUnknown then (False, replicate (Suc (length ps)) unset_value)
      else let (ok, vs) = paramsToValsHolder ps in (ok, set_value p # vs))"

section \<open>The callback of an RPC\<close>

text \<open>The function of an RPC gets the parameters of the call and fills those of the reply.\<close>

type_synonym 's rpc_func = "yang_param list \<Rightarrow> 's \<Rightarrow> (ds_exn + bool \<times> yang_param list) \<times> 's"

definition rpc :: "'s rpc_func \<Rightarrow> sr_value list \<Rightarrow> 's \<Rightarrow> (ds_exn + int \<times> sr_value list) \<times> 's" where
  "rpc func input s =
     (case func (valsToParams input) s of
        (Inl e, s) \<Rightarrow> (Inl e, s)
      | (Inr (ok, retList), s) \<Rightarrow>
          if \<not> ok then (Inr (- 1, []), s) else (Inr (0, snd (paramsToValsHolder retList)), s))"

section \<open>Nothing is lost\<close>

text \<open>Parameters with a kind, whose texts and data hold no NUL.\<close>

definition plain_param :: "yang_param \<Rightarrow> bool" where
  "plain_param p \<longleftrightarrow> y_val p \<noteq> YUnknown \<and> CHR 0x00 \<notin> set (y_name p) \<and>
     (case y_val p of YString s \<Rightarrow> CHR 0x00 \<notin> set s | YBinary bs \<Rightarrow> 0 \<notin> set bs | _ \<Rightarrow> True)"

lemma c_str_id [simp]: "CHR 0x00 \<notin> set s \<Longrightarrow> c_str s = s"
  by (auto simp: c_str_def takeWhile_eq_all_conv)

lemma valsToParams_from_append: "valsToParams_from vs params = params @ valsToParams_from vs []"
proof (induction vs arbitrary: params)
  case (Cons v vs)
  show ?case
  proof (cases "param_of_value v")
    case None
    then show ?thesis
      using Cons.IH [of params] by simp
  next
    case (Some y)
    then show ?thesis
      using Cons.IH [of "params @ [\<lparr>y_name = v_xpath v, y_val = y\<rparr>]"] Cons.IH [of "[\<lparr>y_name = v_xpath v, y_val = y\<rparr>]"]
      by (simp add: addParam_def)
  qed
qed simp

lemma valsToParams_Cons:
  "valsToParams (v # vs) =
    (case param_of_value v of None \<Rightarrow> [] | Some y \<Rightarrow> [\<lparr>y_name = v_xpath v, y_val = y\<rparr>]) @ valsToParams vs"
  using valsToParams_from_append [of vs "[\<lparr>y_name = v_xpath v, y_val = y\<rparr>]" for y]
  by (simp add: valsToParams_def addParam_def split: option.split)

lemma valsToParams_Nil [simp]: "valsToParams [] = []"
  by (simp add: valsToParams_def)

lemma param_value_param:
  assumes "plain_param p"
  shows "v_xpath (set_value p) = y_name p" "param_of_value (set_value p) = Some (y_val p)"
proof -
  have bytes: "0 \<notin> set bs \<Longrightarrow> takeWhile (\<lambda>b. b \<noteq> 0) bs = bs" for bs :: "u8 list"
    by (auto simp: takeWhile_eq_all_conv)
  show "v_xpath (set_value p) = y_name p" "param_of_value (set_value p) = Some (y_val p)"
    using assms
    by (cases "y_val p"; simp add: plain_param_def set_value_def value_of_param_def param_of_value_def setBinary_def bytes)+
qed

lemma params_of_vals: "list_all plain_param ps \<Longrightarrow> valsToParams (map set_value ps) = ps"
  by (induction ps) (simp_all add: valsToParams_Cons param_value_param)

lemma holder_is_vals: "list_all plain_param ps \<Longrightarrow> paramsToValsHolder ps = (True, map set_value ps)"
  by (induction ps) (simp_all add: plain_param_def)

text \<open>
  C22: parameters that are passed to \<open>sysrepo\<close> as values, by either conversion, come back as they were.
\<close>

theorem params_roundtrip:
  assumes "list_all plain_param ps"
  shows "valsToParams (paramsToVals ps) = ps \<and> paramsToValsHolder ps = (True, paramsToVals ps)"
  using params_of_vals [OF assms] holder_is_vals [OF assms] by (simp add: paramsToVals_def)

theorem params_roundtrip_witness:
  "valsToParams (paramsToVals [\<lparr>y_name = ''/m:a'', y_val = YInt8 (- 1)\<rparr>, \<lparr>y_name = ''/m:b'', y_val = YString ''x''\<rparr>]) =
     [\<lparr>y_name = ''/m:a'', y_val = YInt8 (- 1)\<rparr>, \<lparr>y_name = ''/m:b'', y_val = YString ''x''\<rparr>]"
  using params_roundtrip [of "[\<lparr>y_name = ''/m:a'', y_val = YInt8 (- 1)\<rparr>, \<lparr>y_name = ''/m:b'', y_val = YString ''x''\<rparr>]"]
  by (simp add: plain_param_def)

end
