(* ===== verification/UserMgmt.thy ===== *)
theory UserMgmt
  imports SysrepoVals
begin

text \<open>
  \<open>OranUserMgmtHandler.cpp\<close>: the handler of \<open>o-ran-usermgmt\<close> and its RPC that changes the
  password of the user of the session. An argument that is missing is a null pointer that is used.
\<close>

section \<open>The handler\<close>

definition new_usermgmt :: "yang_persist \<Rightarrow> datastore \<Rightarrow> handler" where
  "new_usermgmt = new_handler ''o-ran-usermgmt''"

definition usermgmt_initialise :: "sysrepo \<Rightarrow> handler \<Rightarrow> bool \<times> handler" where
  "usermgmt_initialise sr h =
     (let (ok, h) = handler_initialise sr h in
      if \<not> ok then (False, h) else (True, hd_registerRpc sr ''chg-password'' h))"

section \<open>The change of a password\<close>

definition rpc_arg :: "(u64 \<Rightarrow> string) \<Rightarrow> (string \<times> yang_param) list \<Rightarrow> string \<Rightarrow> ds_exn + string" where
  "rpc_arg dbl args k = (case map_of args k of None \<Rightarrow> Inl Null_pointer | Some p \<Rightarrow> Inr (toString dbl (y_val p)))"

definition getString :: "yang_val \<Rightarrow> string" where
  "getString v = (case v of YString s \<Rightarrow> s | _ \<Rightarrow> [])"

definition password_path :: "string \<Rightarrow> string" where
  "password_path userName = ''/o-ran-usermgmt:users[name='' @ CHR 0x27 # userName @ CHR 0x27 # '']/password''"

text \<open>The two leaves of the reply.\<close>

definition chg_reply :: "handler \<Rightarrow> string \<Rightarrow> string \<Rightarrow> bool \<times> yang_param list" where
  "chg_reply h status message =
     (True,
      [\<lparr>y_name = handler_path h ''chg-password/status'', y_val = YString status\<rparr>,
       \<lparr>y_name = handler_path h ''chg-password/status-message'', y_val = YString message\<rparr>])"

definition rpcChgPassword :: "sysrepo \<Rightarrow> (u64 \<Rightarrow> string) \<Rightarrow> string \<Rightarrow> handler rpc_func" where
  "rpcChgPassword sr dbl user callList h =
     (let args = paramsToMap callList in
      case rpc_arg dbl args ''newPassword'' of Inl e \<Rightarrow> (Inl e, h)
      | Inr newPassword \<Rightarrow>
     (case rpc_arg dbl args ''newPasswordConfirm'' of Inl e \<Rightarrow> (Inl e, h)
      | Inr newPasswordConfirm \<Rightarrow>
          if newPasswordConfirm \<noteq> newPassword
          then (Inr (chg_reply h ''Failed'' (''New Passwords don'' @ CHR 0x27 # ''t match'')), h)
          else
            let userMgmtPath = password_path user in
            case rpc_arg dbl args ''currentPassword'' of Inl e \<Rightarrow> (Inl e, h)
            | Inr currentPassword \<Rightarrow>
           (case on_ds (\<lambda>ds. case getItem sr userMgmtPath 0 ds of (r, p, ds) \<Rightarrow> ((r, p), ds)) h of
              ((Inr YANG_OK, None), h) \<Rightarrow> (Inl Null_pointer, h)
            | ((Inr YANG_OK, Some passwordParam), h) \<Rightarrow>
                if currentPassword \<noteq> getString (y_val passwordParam)
                then (Inr (chg_reply h ''Failed'' ''Current Password Match Failed''), h)
                else
                 (case on_ds (setItemStr sr userMgmtPath newPassword 0) h of
                    (Inr YANG_OK, h) \<Rightarrow> (Inr (chg_reply h ''Success'' ''Password has been successfully updated''), h)
                  | (Inr _, h) \<Rightarrow> (Inr (chg_reply h ''Failed'' ''Password has not successfully updated''), h)
                  | (Inl e, h) \<Rightarrow> (Inl e, h))
            | ((Inr _, _), h) \<Rightarrow> (Inr (chg_reply h ''Failed'' ''Failed to get current password''), h)
            | ((Inl e, _), h) \<Rightarrow> (Inl e, h))))"

section \<open>Calls that write\<close>

fun is_ds_write :: "sr_call \<Rightarrow> bool" where
  "is_ds_write (Set_item _ _) = True"
| "is_ds_write (Set_item_str _ _ _) = True"
| "is_ds_write (Set_item_val _ _ _) = True"
| "is_ds_write (Delete_item _ _) = True"
| "is_ds_write (Apply_changes _) = True"
| "is_ds_write _ = False"

text \<open>The calls of one state that are not among those of another.\<close>

definition new_calls :: "datastore \<Rightarrow> datastore \<Rightarrow> sr_call list" where
  "new_calls s s' = map fst (drop (length (sr_calls s)) (sr_calls s'))"

lemma getItem_calls:
  assumes "getItem sr p i s = (r, v, s')"
  shows "\<exists>cs. sr_calls s' = sr_calls s @ cs \<and> (\<forall>(c, e) \<in> set cs. \<not> is_ds_write c)"
    and "session j s' = session j s"
    and "v = Some x \<Longrightarrow> \<exists>w ds. x = setSysrepo w \<and> session i s = Some ds \<and> sr_value_of sr (sr_calls s) ds p = Some w"
  using assms
  by (auto simp: getItem_def sr_call_def Let_def session_def isState_def split: option.splits if_splits prod.splits)

lemma setItemStr_calls:
  "\<exists>cs. sr_calls (snd (setItemStr sr p v i s)) = sr_calls s @ cs \<and>
    (\<forall>(c, e) \<in> set cs. \<exists>ds. session i s = Some ds \<and> (c = Set_item_str ds p v \<or> c = Apply_changes ds))"
  by (auto simp: setItemStr_def guarded_def sr_call_def Let_def split: option.splits)

lemma getItem_on_ds:
  "on_ds (\<lambda>ds. case getItem sr p i ds of (r, v, ds) \<Rightarrow> ((r, v), ds)) h = ((r, v), h') \<Longrightarrow>
    \<exists>ds'. getItem sr p i (hd_ds h) = (r, v, ds') \<and> h' = h\<lparr>hd_ds := ds'\<rparr>"
  by (auto simp: on_ds_def split: prod.splits)

text \<open>
  C18: the RPC writes to the data store only the password of the user of the session, only to the new
  password that was given twice, and only when the password that is stored is the one given as the
  current one.
\<close>

theorem password_change_authorised:
  assumes "rpcChgPassword sr dbl user callList h = (r, h')"
    and "c \<in> set (new_calls (hd_ds h) (hd_ds h'))" "is_ds_write c"
  shows "\<exists>ds stored new. session 0 (hd_ds h) = Some ds \<and>
    sr_value_of sr (sr_calls (hd_ds h)) ds (password_path user) = Some stored \<and>
    rpc_arg dbl (paramsToMap callList) ''currentPassword'' = Inr (getString (y_val (setSysrepo stored))) \<and>
    rpc_arg dbl (paramsToMap callList) ''newPassword'' = Inr new \<and>
    rpc_arg dbl (paramsToMap callList) ''newPasswordConfirm'' = Inr new \<and>
    (c = Set_item_str ds (password_path user) new \<or> c = Apply_changes ds)"
proof -
  have same: "hd_ds h' = hd_ds h \<Longrightarrow> False"
    using assms(2) by (simp add: new_calls_def)
  then obtain new where new: "rpc_arg dbl (paramsToMap callList) ''newPassword'' = Inr new"
    using assms(1) by (auto simp: rpcChgPassword_def Let_def split: sum.splits)
  then have confirm: "rpc_arg dbl (paramsToMap callList) ''newPasswordConfirm'' = Inr new"
    using assms(1) same by (auto simp: rpcChgPassword_def Let_def split: sum.splits if_splits)
  obtain cur where cur: "rpc_arg dbl (paramsToMap callList) ''currentPassword'' = Inr cur"
    using assms(1) same new confirm by (auto simp: rpcChgPassword_def Let_def split: sum.splits if_splits)
  obtain g v ds' where g: "getItem sr (password_path user) 0 (hd_ds h) = (g, v, ds')"
    by (metis prod_cases3)
  note reads = getItem_calls [OF g]
  have read: "hd_ds h' = ds' \<Longrightarrow> False"
    using reads(1) assms(2,3) by (auto simp: new_calls_def)
  show ?thesis
  proof (cases "g = Inr YANG_OK \<and> (\<exists>x. v = Some x \<and> cur = getString (y_val x))")
    case False
    then have "hd_ds h' = ds'"
      using assms(1) new confirm cur g
      by (auto simp: rpcChgPassword_def Let_def on_ds_def split: sum.splits if_splits yang_result.splits option.splits)
    then show ?thesis
      using read by simp
  next
    case True
    then obtain x where x: "v = Some x" "cur = getString (y_val x)"
      by blast
    then obtain w ds where w: "x = setSysrepo w" "session 0 (hd_ds h) = Some ds"
      "sr_value_of sr (sr_calls (hd_ds h)) ds (password_path user) = Some w"
      using reads(3) by blast
    have "hd_ds h' = snd (setItemStr sr (password_path user) new 0 ds')"
      using assms(1) new confirm cur g True x
      by (auto simp: rpcChgPassword_def Let_def on_ds_def split: sum.splits prod.splits yang_result.splits)
    then obtain cs where "sr_calls (hd_ds h') = sr_calls ds' @ cs"
      "\<forall>(c, e) \<in> set cs. \<exists>ds. session 0 ds' = Some ds \<and> (c = Set_item_str ds (password_path user) new \<or> c = Apply_changes ds)"
      using setItemStr_calls [of sr "password_path user" new 0 ds'] by auto
    then have "c = Set_item_str ds (password_path user) new \<or> c = Apply_changes ds"
      using reads(1) reads(2) [of 0] w(2) assms(2,3) by (fastforce simp: new_calls_def)
    then show ?thesis
      using new confirm cur x w by blast
  qed
qed

text \<open>A call that is carried out.\<close>

definition password_sysrepo :: sysrepo where
  "password_sysrepo =
     \<lparr>sr_throws = (\<lambda>cs c. None),
      sr_value_of = (\<lambda>cs ds p. Some \<lparr>v_xpath = p, v_data = SR_STRING ''old''\<rparr>),
      sr_values_of = (\<lambda>cs ds p. None),
      sr_has_module = (\<lambda>cs n. False)\<rparr>"

definition password_call :: "yang_param list" where
  "password_call =
     [\<lparr>y_name = ''currentPassword'', y_val = YString ''old''\<rparr>, \<lparr>y_name = ''newPassword'', y_val = YString ''new''\<rparr>,
      \<lparr>y_name = ''newPasswordConfirm'', y_val = YString ''new''\<rparr>]"

definition usermgmt_started :: handler where
  "usermgmt_started =
     new_usermgmt \<lparr>mYangModelName = ''o-ran-usermgmt'', mDirty = False, mValues = [], mPersistPaths = {}\<rparr>
       (new_datastore\<lparr>mState := ACTIVE, mSrConnection := True, mSrSessions := [SR_DS_RUNNING, SR_DS_OPERATIONAL]\<rparr>)"

lemma password_args:
  "map_of (paramsToMap password_call) =
    [''newPasswordConfirm'' \<mapsto> \<lparr>y_name = ''newPasswordConfirm'', y_val = YString ''new''\<rparr>,
     ''newPassword'' \<mapsto> \<lparr>y_name = ''newPassword'', y_val = YString ''new''\<rparr>,
     ''currentPassword'' \<mapsto> \<lparr>y_name = ''currentPassword'', y_val = YString ''old''\<rparr>]"
  by (simp add: paramsToMap_def password_call_def map_of_map_put leafName_plain)

lemma password_changed:
  "let (r, h) = rpcChgPassword password_sysrepo (\<lambda>d. []) ''oran'' password_call usermgmt_started in
     r = Inr (chg_reply usermgmt_started ''Success'' ''Password has been successfully updated'') \<and>
     new_calls (hd_ds usermgmt_started) (hd_ds h) =
       [Get_item SR_DS_RUNNING (password_path ''oran''), Set_item_str SR_DS_RUNNING (password_path ''oran'') ''new'',
        Apply_changes SR_DS_RUNNING]"
  by (simp add: rpcChgPassword_def rpc_arg_def password_args Let_def on_ds_def getItem_def session_def isState_def
      usermgmt_started_def new_usermgmt_def new_handler_def new_datastore_def password_sysrepo_def sr_call_def no_leaf_def
      setSysrepo_def getString_def setItemStr_def guarded_def chg_reply_def handler_path_def new_calls_def toString_def)

theorem password_change_authorised_witness:
  "\<exists>h'. Set_item_str SR_DS_RUNNING (password_path ''oran'') ''new'' \<in> set (new_calls (hd_ds usermgmt_started) (hd_ds h')) \<and>
     h' = snd (rpcChgPassword password_sysrepo (\<lambda>d. []) ''oran'' password_call usermgmt_started) \<and>
     rpc_arg (\<lambda>d. []) (paramsToMap password_call) ''newPassword'' = Inr ''new''"
proof -
  obtain r h' where run: "rpcChgPassword password_sysrepo (\<lambda>d. []) ''oran'' password_call usermgmt_started = (r, h')"
    by fastforce
  then have "Set_item_str SR_DS_RUNNING (password_path ''oran'') ''new'' \<in> set (new_calls (hd_ds usermgmt_started) (hd_ds h'))"
    using password_changed by simp
  then show ?thesis
    using password_change_authorised [OF run, of "Set_item_str SR_DS_RUNNING (password_path ''oran'') ''new''"] run
    by fastforce
qed

end
