(* ===== verification/OranHandlers.thy ===== *)
theory OranHandlers
  imports ServerStart Interfaces ModuleCap NetconfServer UserMgmt UplaneHandler
begin

text \<open>
  \<open>OranYangHandlerMgr.cpp\<close>: the handlers of the server together. They share the data store of the
  module manager: a handler that starts finds it as the handler before it left it. What the user-plane
  handler reads from the data store when it starts is an answer of its environment.
\<close>

section \<open>The handlers\<close>

record oran =
  o_ds :: datastore
  o_interfaces :: if_handler
  o_nacm :: handler
  o_netconf :: handler
  o_cap :: cap_handler
  o_elements :: pe_handler
  o_plane :: handler
  o_uplane :: uplane
  o_users :: handler

text \<open>The constructors, in their order; only the one of the call-home clients uses the data store.\<close>

definition new_oran ::
    "sysrepo \<Rightarrow> (string \<times> nat) list \<Rightarrow> nat \<Rightarrow> (string \<Rightarrow> yang_persist) \<Rightarrow> uplane \<Rightarrow> datastore \<Rightarrow>
     (start_exn + oran) \<times> datastore" where
  "new_oran sr clients num persist uplane ds =
     (case new_netconf_server sr clients (persist ''ietf-netconf-server'') ds of
        (Some e, h) \<Rightarrow> (Inl (Ds_exn e), hd_ds h)
      | (None, h) \<Rightarrow>
          (Inr \<lparr>o_ds = hd_ds h,
                o_interfaces = new_interfaces num (persist ''ietf-interfaces'') ds,
                o_nacm = new_nacm (persist ''ietf-netconf-acm'') ds,
                o_netconf = h,
                o_cap = new_cap (persist ''o-ran-module-cap'') (hd_ds h),
                o_elements = new_pe (persist ''o-ran-processing-element'') (hd_ds h),
                o_plane = new_handler ''o-ran-uplane-conf'' (persist ''o-ran-uplane-conf'') (hd_ds h),
                o_uplane = uplane,
                o_users = new_usermgmt (persist ''o-ran-usermgmt'') (hd_ds h)\<rparr>, hd_ds h))"

section \<open>The start of each\<close>

definition sees :: "datastore \<Rightarrow> handler \<Rightarrow> handler" where
  "sees ds h = h\<lparr>hd_ds := ds\<rparr>"

definition start_interfaces :: "sysrepo \<Rightarrow> (string \<Rightarrow> bool) \<Rightarrow> element \<Rightarrow> oran \<Rightarrow> (start_exn + bool) \<times> oran" where
  "start_interfaces sr loaded config s =
     (let i = o_interfaces s;
          (r, i) = if_initialise sr loaded config (i\<lparr>ifh_base := sees (o_ds s) (ifh_base i)\<rparr>)
      in (r, s\<lparr>o_interfaces := i, o_ds := hd_ds (ifh_base i)\<rparr>))"

definition start_nacm :: "sysrepo \<Rightarrow> oran \<Rightarrow> (start_exn + bool) \<times> oran" where
  "start_nacm sr s =
     (let (r, h) = nacm_initialise sr (sees (o_ds s) (o_nacm s))
      in (case r of Inl e \<Rightarrow> Inl (Ds_exn e) | Inr ok \<Rightarrow> Inr ok, s\<lparr>o_nacm := h, o_ds := hd_ds h\<rparr>))"

definition start_netconf :: "sysrepo \<Rightarrow> oran \<Rightarrow> (start_exn + bool) \<times> oran" where
  "start_netconf sr s =
     (let (ok, h) = netconf_server_initialise sr (sees (o_ds s) (o_netconf s))
      in (Inr ok, s\<lparr>o_netconf := h, o_ds := hd_ds h\<rparr>))"

definition start_cap :: "sysrepo \<Rightarrow> element \<Rightarrow> oran \<Rightarrow> (start_exn + bool) \<times> oran" where
  "start_cap sr config s =
     (let c = o_cap s;
          (r, c) = cap_initialise sr config (c\<lparr>cap_base := sees (o_ds s) (cap_base c)\<rparr>)
      in (r, s\<lparr>o_cap := c, o_ds := hd_ds (cap_base c)\<rparr>))"

definition start_elements :: "sysrepo \<Rightarrow> (string \<Rightarrow> bool) \<Rightarrow> element \<Rightarrow> oran \<Rightarrow> (start_exn + bool) \<times> oran" where
  "start_elements sr loaded config s =
     (let e = o_elements s;
          (r, e) = pe_initialise sr loaded config (e\<lparr>pe_base := sees (o_ds s) (pe_base e)\<rparr>)
      in (r, s\<lparr>o_elements := e, o_ds := hd_ds (pe_base e)\<rparr>))"

definition start_plane :: "sysrepo \<Rightarrow> env \<Rightarrow> oran \<Rightarrow> (start_exn + bool) \<times> oran" where
  "start_plane sr env s =
     (let (ok, h) = handler_initialise sr (sees (o_ds s) (o_plane s)) in
      if \<not> ok then (Inr False, s\<lparr>o_plane := h, o_ds := hd_ds h\<rparr>)
      else
        let h = hd_changeSubscribe sr [] (hd_getItemsSubscribe sr (handler_path h ''user-plane-configuration'') h)
        in (Inr True, s\<lparr>o_plane := h, o_ds := hd_ds h, o_uplane := initialise env (o_uplane s)\<rparr>))"

definition start_users :: "sysrepo \<Rightarrow> oran \<Rightarrow> (start_exn + bool) \<times> oran" where
  "start_users sr s =
     (let (ok, h) = usermgmt_initialise sr (sees (o_ds s) (o_users s))
      in (Inr ok, s\<lparr>o_users := h, o_ds := hd_ds h\<rparr>))"

text \<open>The carrier manager, which is started last.\<close>

definition start_carriers :: "element \<Rightarrow> oran \<Rightarrow> (start_exn + bool) \<times> oran" where
  "start_carriers config s =
     (case mgr_initialise config (o_uplane s) of
        None \<Rightarrow> (Inl Config_exn, s)
      | Some u \<Rightarrow> (Inr True, s\<lparr>o_uplane := u\<rparr>))"

section \<open>The start of all\<close>

text \<open>\<open>OranYangHandlerMgr\<close> registers the handlers; \<open>initialise\<close> starts them in this order.\<close>

definition oran_handlers ::
    "sysrepo \<Rightarrow> (string \<Rightarrow> bool) \<Rightarrow> env \<Rightarrow> element \<Rightarrow> (oran \<Rightarrow> (start_exn + bool) \<times> oran) list" where
  "oran_handlers sr loaded env config =
     fold (\<lambda>handler hs. snd (registerHandler handler hs))
       [start_interfaces sr loaded config, start_nacm sr, start_netconf sr, start_cap sr config,
        start_elements sr loaded config, start_plane sr env, start_users sr] []"

definition oran_initialise ::
    "sysrepo \<Rightarrow> (string \<Rightarrow> bool) \<Rightarrow> env \<Rightarrow> element \<Rightarrow> oran \<Rightarrow> (start_exn + bool) \<times> oran" where
  "oran_initialise sr loaded env config s =
     handlers_initialise (oran_handlers sr loaded env config) (start_carriers config) s"

end
