(* ===== verification/OranStart.thy ===== *)
theory OranStart
  imports OranHandlers
begin

text \<open>
  The start of the handlers as a whole: which access rules the data store holds after it, and what a
  configuration that a handler cannot read does to the handlers that follow.
\<close>

section \<open>Calls that write no access rule\<close>

definition rule_free :: "datastore \<Rightarrow> datastore \<Rightarrow> bool" where
  "rule_free s s' \<longleftrightarrow> (\<exists>cs. sr_calls s' = sr_calls s @ cs \<and> written_leaves cs = []) \<and>
     mState s' = mState s \<and> mSrSessions s' = mSrSessions s"

lemma rule_free_refl [simp]: "rule_free s s"
  by (auto simp: rule_free_def intro: exI [of _ "[]"])

lemma rule_free_trans [trans]: "\<lbrakk>rule_free s t; rule_free t u\<rbrakk> \<Longrightarrow> rule_free s u"
  by (auto simp: rule_free_def)

lemma rule_free_ready: "rule_free s t \<Longrightarrow> ready t = ready s"
  by (simp add: rule_free_def ready_def)

text \<open>A call that sets no leaf below \<open>nacm\<close>.\<close>

fun off_nacm :: "sr_call \<Rightarrow> bool" where
  "off_nacm (Set_item_str ds p v) = (strip_prefix ''/ietf-netconf-acm:nacm/'' p = None)"
| "off_nacm _ = True"

lemma off_nacm_leaf: "off_nacm c \<Longrightarrow> written_leaf (c, e) = None"
  by (cases c) (auto simp: written_leaf_def split: sr_ds.splits option.splits)

lemma rule_free_call: "off_nacm c \<Longrightarrow> rule_free s (snd (sr_call sr c s))"
  by (auto simp: sr_call_def rule_free_def Let_def off_nacm_leaf)

lemma rule_free_try: "list_all off_nacm cs \<Longrightarrow> rule_free s (snd (sr_try sr cs s))"
proof (induction cs arbitrary: s)
  case (Cons c cs)
  obtain r t where c: "sr_call sr c s = (r, t)"
    by fastforce
  then have "rule_free s t"
    using rule_free_call [of c s sr] Cons.prems by simp
  then show ?case
    using Cons c by (auto intro: rule_free_trans split: option.split)
qed simp

lemma rule_free_guarded: "(\<And>ds. list_all off_nacm (calls ds)) \<Longrightarrow> rule_free s (snd (guarded sr halt calls i s))"
proof -
  assume "\<And>ds. list_all off_nacm (calls ds)"
  then have "rule_free s (snd (sr_try sr (calls ds) s))" for ds
    by (rule rule_free_try)
  then show ?thesis
    by (auto simp: guarded_def split: option.split prod.split) (metis snd_conv)+
qed

lemma rule_free_subscribe: "(\<And>ds. off_nacm (call ds)) \<Longrightarrow> rule_free s (snd (subscribe sr call i s))"
proof -
  assume "\<And>ds. off_nacm (call ds)"
  then have call: "rule_free s (snd (sr_call sr (call ds) s))" for ds
    by (rule rule_free_call)
  have same: "rule_free s t \<Longrightarrow> rule_free s (t\<lparr>mSubscriptions := n\<rparr>)" for t n
    by (simp add: rule_free_def)
  show ?thesis
    using call same by (auto simp: subscribe_def split: option.split prod.split) (metis snd_conv)+
qed

section \<open>The operations of a handler\<close>

definition hd_free :: "handler \<Rightarrow> handler \<Rightarrow> bool" where
  "hd_free h h' \<longleftrightarrow> rule_free (hd_ds h) (hd_ds h') \<and> mName h' = mName h \<and> hd_persist h' = hd_persist h"

lemma hd_free_refl [simp]: "hd_free h h"
  by (simp add: hd_free_def)

lemma hd_free_trans [trans]: "\<lbrakk>hd_free h i; hd_free i j\<rbrakk> \<Longrightarrow> hd_free h j"
  by (auto simp: hd_free_def intro: rule_free_trans)

lemma hd_free_on_ds: "rule_free (hd_ds h) (snd (f (hd_ds h))) \<Longrightarrow> hd_free h (snd (on_ds f h))"
  by (simp add: hd_free_def)

definition off_nacm_values :: "yang_persist \<Rightarrow> bool" where
  "off_nacm_values p \<longleftrightarrow> (\<forall>(x, v) \<in> set (mValues p). strip_prefix ''/ietf-netconf-acm:nacm/'' x = None)"

lemma hd_free_setItemStr:
  "strip_prefix ''/ietf-netconf-acm:nacm/'' x = None \<Longrightarrow> hd_free h (snd (on_ds (setItemStr sr x v i) h))"
  by (rule hd_free_on_ds) (simp add: setItemStr_def rule_free_guarded)

lemma hd_free_initialise:
  assumes "off_nacm_values (hd_persist h)"
  shows "hd_free h (snd (handler_initialise sr h))" "fst (handler_initialise sr h) = True"
proof -
  have "hd_free h (fold (\<lambda>(x, v) h. snd (on_ds (setItemStr sr x v 0) h)) xs h)"
    if "\<forall>(x, v) \<in> set xs. strip_prefix ''/ietf-netconf-acm:nacm/'' x = None" for xs h
    using that
  proof (induction xs arbitrary: h)
    case (Cons x xs)
    then show ?case
      using hd_free_setItemStr [of "fst x" h sr "snd x" 0] by (auto intro: hd_free_trans)
  qed simp
  then show "hd_free h (snd (handler_initialise sr h))"
    using assms by (simp add: handler_initialise_def off_nacm_values_def)
  show "fst (handler_initialise sr h) = True"
    by (simp add: handler_initialise_def)
qed

lemma hd_free_subscribe:
  "hd_free h (hd_getItemsSubscribe sr x h)" "hd_free h (hd_changeSubscribe sr x h)" "hd_free h (hd_registerRpc sr x h)"
proof -
  show "hd_free h (hd_getItemsSubscribe sr x h)" "hd_free h (hd_changeSubscribe sr x h)"
    unfolding hd_getItemsSubscribe_def hd_changeSubscribe_def
    by (rule hd_free_on_ds; simp add: getItemsSubscribe_def itemsChangeSubscribe_def rule_free_subscribe)+
  have "hd_free h (snd (on_ds (rpcSubscribe sr (handler_path h x) 0) h))"
    by (rule hd_free_on_ds) (simp add: rpcSubscribe_def rule_free_subscribe)
  then show "hd_free h (hd_registerRpc sr x h)"
    by (simp add: hd_registerRpc_def hd_free_def Let_def)
qed

lemma hd_free_subscriptions:
  "hd_free h i \<Longrightarrow> hd_free h (hd_getItemsSubscribe sr x i)"
  "hd_free h i \<Longrightarrow> hd_free h (hd_changeSubscribe sr x i)"
  "hd_free h i \<Longrightarrow> hd_free h (hd_registerRpc sr x i)"
  using hd_free_subscribe by (blast intro: hd_free_trans)+

lemma hd_free_createListEntry:
  "(\<And>k. strip_prefix ''/ietf-netconf-acm:nacm/'' (x @ ''/'' @ k) = None) \<Longrightarrow>
    hd_free h (snd (hd_createListEntry sr x values h))"
  unfolding hd_createListEntry_def
  by (rule hd_free_on_ds, unfold createListEntry_def, rule rule_free_guarded) (auto simp: list_all_iff)

section \<open>The handlers other than that of the access rules\<close>

lemma interface_off_nacm:
  "strip_prefix ''/ietf-netconf-acm:nacm/'' (pathRoot (add_list ''interface'' ks if_parent) @ ''/'' @ k) = None"
  by (simp add: pathRoot_def yang_path_text_def add_list_def if_parent_def add_module_param_def ele_path_def if_module_def)

lemma addInterface_free: "hd_free (ifh_base s) (ifh_base (snd (addInterface sr config i s)))"
proof -
  have "hd_free h (snd (hd_createListEntry sr (pathRoot (add_list ''interface'' ks if_parent)) v h))" for ks v h
    by (rule hd_free_createListEntry) (rule interface_off_nacm)
  then show ?thesis
    by (auto simp: addInterface_def Let_def split: option.split prod.split sum.split) (metis snd_conv)+
qed

lemma if_hal_base [simp]: "ifh_base (if_hal loaded c s) = ifh_base s"
  by (simp add: if_hal_def)

lemma add_one_free: "hd_free (ifh_base s) (ifh_base (snd (add_one sr loaded config i s)))"
  using addInterface_free [of "s\<lparr>ifh_leaves := ls\<rparr>" sr config i for ls]
  by (auto simp: add_one_def split: option.split prod.split) (metis snd_conv)+

lemma add_interfaces_free: "hd_free (ifh_base s) (ifh_base (snd (add_interfaces sr loaded config is s)))"
proof (induction "is" arbitrary: s)
  case (Cons i "is")
  obtain x t where x: "add_one sr loaded config i s = (x, t)"
    by fastforce
  then have "hd_free (ifh_base s) (ifh_base t)"
    using add_one_free [of s sr loaded config i] by simp
  then show ?case
    using Cons [of t] x by (auto intro: hd_free_trans split: option.split)
qed simp

lemma if_initialise_free:
  assumes "off_nacm_values (hd_persist (ifh_base s))"
  shows "hd_free (ifh_base s) (ifh_base (snd (if_initialise sr loaded config s)))"
proof -
  obtain h where h: "handler_initialise sr (ifh_base s) = (True, h)" "hd_free (ifh_base s) h"
    using hd_free_initialise [OF assms] by (metis prod.collapse)
  obtain n where "getNumOfListEntries config ''module-ietf-interfaces/container-interfaces/list-interface'' = n"
    by simp
  show ?thesis
  proof (cases n)
    case (Some k)
    obtain x t where x: "add_interfaces sr loaded config [0..<k] (s\<lparr>ifh_base := h\<rparr>) = (x, t)"
      by fastforce
    then have "hd_free (ifh_base s) (ifh_base t)"
      using h(2) add_interfaces_free [of "s\<lparr>ifh_base := h\<rparr>" sr loaded config "[0..<k]"] by (auto intro: hd_free_trans)
    then show ?thesis
      using h x Some \<open>_ = n\<close>
      by (auto simp: if_initialise_def Let_def hd_free_subscriptions split: option.split)
  qed (use h \<open>_ = n\<close> in \<open>simp add: if_initialise_def Let_def\<close>)
qed

lemma cap_initialise_free:
  assumes "off_nacm_values (hd_persist (cap_base s))"
  shows "hd_free (cap_base s) (cap_base (snd (cap_initialise sr config s)))"
proof -
  obtain h where h: "handler_initialise sr (cap_base s) = (True, h)" "hd_free (cap_base s) h"
    using hd_free_initialise [OF assms] by (metis prod.collapse)
  then show ?thesis
    by (auto simp: cap_initialise_def Let_def hd_free_subscriptions split: option.split)
qed

lemma elements_off_nacm:
  "strip_prefix ''/ietf-netconf-acm:nacm/'' (pathRoot pe_parent @ ''/'' @ k) = None"
  "strip_prefix ''/ietf-netconf-acm:nacm/'' (pathRoot (add_param p pe_parent)) = None"
  by (simp_all add: pathRoot_def yang_path_text_def add_param_def pe_parent_def add_module_param_def ele_path_def pe_name_def)

lemma updateRuElement_base [simp]: "pe_base (snd (updateRuElement loaded n i m v d s)) = pe_base s"
  by (auto simp: updateRuElement_def halmplane_update_ru_element_def Let_def split: option.split sum.split prod.split)

lemma addRu_free: "hd_free (pe_base s) (pe_base (snd (addRuProcessingElementConfig sr loaded config i s)))"
proof -
  have "hd_free h (snd (hd_createListEntry sr (pathRoot pe_parent) v h))" for v h
    by (rule hd_free_createListEntry) (rule elements_off_nacm)
  moreover have "pe_base t = pe_base s" if "updateRuElement loaded n i m v d s = (x, t)" for n i m v d s x t
    using that updateRuElement_base by (metis snd_conv)
  ultimately show ?thesis
    by (auto simp: addRuProcessingElementConfig_def Let_def split: option.split prod.split sum.split) (metis snd_conv)+
qed

lemma add_ru_elements_free: "hd_free (pe_base s) (pe_base (snd (add_ru_elements sr loaded config is s)))"
proof (induction "is" arbitrary: s)
  case (Cons i "is")
  obtain x t where x: "addRuProcessingElementConfig sr loaded config i s = (x, t)"
    by fastforce
  then have "hd_free (pe_base s) (pe_base t)"
    using addRu_free [of s sr loaded config i] by simp
  then show ?case
    using Cons [of t] x by (auto intro: hd_free_trans split: option.split)
qed simp

lemma pe_initialise_free:
  assumes "off_nacm_values (hd_persist (pe_base s))"
  shows "hd_free (pe_base s) (pe_base (snd (pe_initialise sr loaded config s)))"
proof -
  obtain h where h: "handler_initialise sr (pe_base s) = (True, h)" "hd_free (pe_base s) h"
    using hd_free_initialise [OF assms] by (metis prod.collapse)
  let ?p = "pathRoot (add_param ''transport-session-type'' pe_parent)"
  have item: "hd_free (pe_base s) i" if "hd_createItemStr sr ?p v h = (r, i)" for v r i
    using that h(2) hd_free_setItemStr [OF elements_off_nacm(2), of h sr "''transport-session-type''" v 0]
    by (auto simp: hd_createItemStr_def intro: hd_free_trans)
  have added: "hd_free (pe_base s) (pe_base t)"
    if "add_ru_elements sr loaded config is (s\<lparr>pe_leaves := ls, pe_base := i\<rparr>) = (x, t)"
      "hd_createItemStr sr ?p v h = (r, i)" for "is" ls i x t v r
    using item [OF that(2)] add_ru_elements_free [of "s\<lparr>pe_leaves := ls, pe_base := i\<rparr>" sr loaded config "is"] that(1)
    by (auto intro: hd_free_trans)
  show ?thesis
    unfolding pe_initialise_def h(1) Let_def prod.case
    by (auto simp: h(2) split: option.split prod.split sum.split intro!: hd_free_subscriptions)
      (blast intro: item added)+
qed

section \<open>The steps of the start\<close>

definition all_off_nacm :: "oran \<Rightarrow> bool" where
  "all_off_nacm s \<longleftrightarrow> list_all off_nacm_values
     [hd_persist (ifh_base (o_interfaces s)), hd_persist (o_netconf s), hd_persist (cap_base (o_cap s)),
      hd_persist (pe_base (o_elements s)), hd_persist (o_plane s), hd_persist (o_users s)]"

text \<open>A step writes no rule, keeps the persistent values and leaves the handler of the rules alone.\<close>

definition step_free :: "oran \<Rightarrow> oran \<Rightarrow> bool" where
  "step_free s s' \<longleftrightarrow> rule_free (o_ds s) (o_ds s') \<and> o_nacm s' = o_nacm s \<and> (all_off_nacm s \<longrightarrow> all_off_nacm s')"

lemma step_free_refl [simp]: "step_free s s"
  by (simp add: step_free_def)

lemma step_free_trans [trans]: "\<lbrakk>step_free s t; step_free t u\<rbrakk> \<Longrightarrow> step_free s u"
  by (auto simp: step_free_def intro: rule_free_trans)

lemma sees_simps [simp]: "hd_ds (sees ds h) = ds" "hd_persist (sees ds h) = hd_persist h" "mName (sees ds h) = mName h"
  by (simp_all add: sees_def)

lemma other_steps_free:
  assumes "all_off_nacm s"
  shows "step_free s (snd (start_interfaces sr loaded config s))" "step_free s (snd (start_netconf sr s))"
    "step_free s (snd (start_cap sr config s))" "step_free s (snd (start_elements sr loaded config s))"
    "step_free s (snd (start_plane sr env s))" "step_free s (snd (start_users sr s))"
    "step_free s (snd (start_carriers config s))"
proof -
  note free = assms [unfolded all_off_nacm_def, simplified]
  show "step_free s (snd (start_interfaces sr loaded config s))"
    using if_initialise_free [of "(o_interfaces s)\<lparr>ifh_base := sees (o_ds s) (ifh_base (o_interfaces s))\<rparr>" sr loaded config] free
    by (auto simp: start_interfaces_def step_free_def all_off_nacm_def hd_free_def Let_def split: prod.split)
  show "step_free s (snd (start_cap sr config s))"
    using cap_initialise_free [of "(o_cap s)\<lparr>cap_base := sees (o_ds s) (cap_base (o_cap s))\<rparr>" sr config] free
    by (auto simp: start_cap_def step_free_def all_off_nacm_def hd_free_def Let_def split: prod.split)
  show "step_free s (snd (start_elements sr loaded config s))"
    using pe_initialise_free [of "(o_elements s)\<lparr>pe_base := sees (o_ds s) (pe_base (o_elements s))\<rparr>" sr loaded config] free
    by (auto simp: start_elements_def step_free_def all_off_nacm_def hd_free_def Let_def split: prod.split)
  show "step_free s (snd (start_netconf sr s))"
    using hd_free_initialise [of "sees (o_ds s) (o_netconf s)" sr] free
    by (auto simp: start_netconf_def netconf_server_initialise_def step_free_def all_off_nacm_def hd_free_def split: prod.split)
  obtain h where h: "handler_initialise sr (sees (o_ds s) (o_plane s)) = (True, h)" "hd_free (sees (o_ds s) (o_plane s)) h"
    using hd_free_initialise [of "sees (o_ds s) (o_plane s)" sr] free by (metis prod.collapse sees_simps(2))
  let ?h = "hd_changeSubscribe sr [] (hd_getItemsSubscribe sr (handler_path h ''user-plane-configuration'') h)"
  have "hd_free (sees (o_ds s) (o_plane s)) ?h"
    by (intro hd_free_subscriptions h)
  then show "step_free s (snd (start_plane sr env s))"
    using h(1) free by (simp add: start_plane_def step_free_def all_off_nacm_def hd_free_def Let_def)
  obtain u where u: "handler_initialise sr (sees (o_ds s) (o_users s)) = (True, u)" "hd_free (sees (o_ds s) (o_users s)) u"
    using hd_free_initialise [of "sees (o_ds s) (o_users s)" sr] free by (metis prod.collapse sees_simps(2))
  have "hd_free (sees (o_ds s) (o_users s)) (hd_registerRpc sr ''chg-password'' u)"
    by (intro hd_free_subscriptions u)
  then show "step_free s (snd (start_users sr s))"
    using u(1) free by (simp add: start_users_def usermgmt_initialise_def step_free_def all_off_nacm_def hd_free_def Let_def)
  show "step_free s (snd (start_carriers config s))"
    by (simp add: start_carriers_def step_free_def all_off_nacm_def split: option.split)
qed

lemma steps_free:
  assumes "start_handlers fs ok s = (r, s')" "all_off_nacm s"
    and "\<And>f s. f \<in> set fs \<Longrightarrow> all_off_nacm s \<Longrightarrow> step_free s (snd (f s))"
  shows "step_free s s'"
  using assms
proof (induction fs arbitrary: ok s)
  case (Cons f fs)
  obtain x t where f: "f s = (x, t)"
    by fastforce
  have free: "step_free s t"
    using Cons.prems(2,3) f by (metis list.set_intros(1) snd_conv)
  show ?case
  proof (cases x)
    case (Inr b)
    have "all_off_nacm t"
      using free Cons.prems(2) by (simp add: step_free_def)
    then have "step_free t s'"
      using Cons.IH [of "ok \<and> b" t] Cons.prems(1,3) f Inr by simp
    then show ?thesis
      using free by (rule step_free_trans [rotated])
  qed (use Cons.prems(1) f free in simp)
qed simp

section \<open>The access rules after the start\<close>

text \<open>The rules written by some calls grant every group, on every module, what the table says.\<close>

definition grants_table :: "(sr_call \<times> sr_error option) list \<Rightarrow> bool" where
  "grants_table cs \<longleftrightarrow> grants_exactly (written_leaves cs)"

lemma nacm_step:
  assumes "\<And>cs c. sr_throws sr cs c = None" "ready (o_ds s)" "o_nacm s = new_nacm p ds" "mValues p = []"
  shows "\<exists>cs t. start_nacm sr s = (Inr True, t) \<and> sr_calls (o_ds t) = sr_calls (o_ds s) @ cs \<and>
    (all_off_nacm s \<longrightarrow> all_off_nacm t) \<and>
    grants_table cs"
proof -
  have same: "sees (o_ds s) (o_nacm s) = new_nacm p (o_ds s)"
    using assms(3) by (simp add: sees_def new_nacm_def new_handler_def)
  note fine = nacm_initialise_fine [OF assms(1,2,4)]
  let ?h = "snd (nacm_initialise sr (new_nacm p (o_ds s)))"
  let ?t = "s\<lparr>o_nacm := ?h, o_ds := hd_ds ?h\<rparr>"
  have "start_nacm sr s = (Inr True, ?t)"
    using fine by (simp add: start_nacm_def same)
  moreover have "sr_calls (o_ds ?t) = sr_calls (o_ds s) @ drop (length (sr_calls (o_ds s))) (sr_calls (hd_ds ?h))"
    by (simp add: fine calls_made_def)
  moreover have "grants_table (drop (length (sr_calls (o_ds s))) (sr_calls (hd_ds ?h)))"
    using nacm_rules_granted [OF assms(1,2,4)] by (simp add: grants_table_def Let_def split: prod.splits)
  moreover have "all_off_nacm s \<longrightarrow> all_off_nacm ?t"
    by (simp add: all_off_nacm_def)
  ultimately show ?thesis
    by blast
qed

lemma start_grants:
  assumes "\<And>cs c. sr_throws sr cs c = None" "ready (o_ds s)" "all_off_nacm s"
    and "o_nacm s = new_nacm p ds" "mValues p = []" "oran_initialise sr loaded env config s = (Inr ok, s')"
  shows "\<exists>cs. sr_calls (o_ds s') = sr_calls (o_ds s) @ cs \<and>
    grants_table cs"
proof -
  let ?rest = "[start_netconf sr, start_cap sr config, start_elements sr loaded config, start_plane sr env, start_users sr,
    start_carriers config]"
  obtain x t where i: "start_interfaces sr loaded config s = (x, t)"
    by fastforce
  then have t: "step_free s t"
    using other_steps_free(1) [OF assms(3), of sr loaded config] by simp
  then have "ready (o_ds t)" "o_nacm t = new_nacm p ds" "all_off_nacm t"
    using assms(2-4) rule_free_ready by (auto simp: step_free_def)
  then obtain cs u where u: "start_nacm sr t = (Inr True, u)" "sr_calls (o_ds u) = sr_calls (o_ds t) @ cs" "all_off_nacm u"
    "grants_table cs"
    using nacm_step [OF assms(1) _ _ assms(5), of t ds] by blast
  have all: "oran_initialise sr loaded env config s =
      start_handlers (start_interfaces sr loaded config # start_nacm sr # ?rest) True s"
    by (simp add: oran_initialise_def handlers_initialise_def oran_handlers_def registerHandler_def del: start_handlers.simps)
  obtain b where rest: "start_handlers ?rest b u = (Inr ok, s')"
  proof (cases x)
    case (Inr y)
    then show ?thesis
      using that [of "y"] assms(6) all i u(1) by (simp del: start_handlers.simps(2) add: start_handlers.simps(2) [of "start_interfaces sr loaded config"] start_handlers.simps(2) [of "start_nacm sr"])
  qed (use assms(6) all i in simp)
  have "step_free u s'"
  proof (rule steps_free [OF rest u(3)])
    fix f v
    assume "f \<in> set ?rest" "all_off_nacm v"
    then show "step_free v (snd (f v))"
      using other_steps_free [of v] by auto
  qed
  then have "rule_free (o_ds s) (o_ds t)" "rule_free (o_ds u) (o_ds s')"
    using t by (simp_all add: step_free_def)
  then obtain cs1 cs3 where "sr_calls (o_ds s') = sr_calls (o_ds s) @ cs1 @ cs @ cs3" "written_leaves cs1 = []"
    "written_leaves cs3 = []"
    using u(2) by (auto simp: rule_free_def)
  then show ?thesis
    using u(4) by (intro exI [of _ "cs1 @ cs @ cs3"]) (simp add: grants_table_def)
qed

lemma client_off_nacm: "strip_prefix ''/ietf-netconf-acm:nacm/'' (entry_path call_home k n @ x) = None"
  by (simp add: entry_path_def call_home_def)

lemma addCallHomeClient_free: "hd_free h (snd (addCallHomeClient sr url port h))"
proof -
  have "hd_free h (snd (on_ds (createListEntry_opt_key sr call_home ''name'' n leaves 0) h))" for n leaves
    by (rule hd_free_on_ds, unfold createListEntry_opt_key_def createListEntry_opt_def, rule rule_free_guarded)
      (auto simp: list_all_iff client_off_nacm split: option.split)
  then show ?thesis
    by (auto simp: addCallHomeClient_def split: prod.split sum.split) (metis snd_conv)+
qed

lemma add_clients_free: "hd_free h (snd (add_clients sr cs h))"
proof (induction cs arbitrary: h)
  case (Cons c cs)
  obtain url port where c: "c = (url, port)"
    by fastforce
  obtain r t where a: "addCallHomeClient sr url (dec_digits port) h = (r, t)"
    by fastforce
  then have "hd_free h t"
    using addCallHomeClient_free [of h sr url "dec_digits port"] by simp
  then show ?case
    using Cons [of t] c a by (auto intro: hd_free_trans split: sum.split)
qed simp

lemma new_oran_state:
  assumes "new_oran sr clients num persist uplane ds = (Inr s, ds')" "\<And>n. off_nacm_values (persist n)"
  shows "rule_free ds (o_ds s)" "all_off_nacm s" "o_nacm s = new_nacm (persist ''ietf-netconf-acm'') ds"
proof -
  obtain h where h: "new_netconf_server sr clients (persist ''ietf-netconf-server'') ds = (None, h)"
    using assms(1) by (auto simp: new_oran_def split: prod.splits option.splits)
  then have "hd_free (new_handler ''ietf-netconf-server'' (persist ''ietf-netconf-server'') ds) h"
    using add_clients_free [of _ sr clients] unfolding new_netconf_server_def by (metis snd_conv)
  then show "rule_free ds (o_ds s)" "all_off_nacm s" "o_nacm s = new_nacm (persist ''ietf-netconf-acm'') ds"
    using assms h
    by (auto simp: new_oran_def hd_free_def new_handler_def all_off_nacm_def new_interfaces_def new_cap_def new_pe_def
        new_usermgmt_def)
qed

text \<open>
  C9: once the manager has started and every handler has been made and started, what was written since
  grants every group, on every module, exactly what the table of permissions says, on the nodes without the
  extension \<open>nacm:default-deny-all\<close>; on those with it only writing, where the table has it, so that no group may
  read them or execute them. This holds whatever the configuration, the call-home clients and the other
  handlers have written.
\<close>

theorem server_grants_table:
  assumes "\<And>cs c. sr_throws (m_sysrepo env) cs c = None"
    and "module_mgr_initialise env createModules m = (Inr YANG_OK, m')"
    and "\<And>n. off_nacm_values (persist n)" "mValues (persist ''ietf-netconf-acm'') = []"
    and "new_oran (m_sysrepo env) clients num persist uplane (the (mRadioDs m')) = (Inr s, ds)"
    and "oran_initialise (m_sysrepo env) loaded penv config s = (Inr ok, s')"
  shows "\<exists>cs. sr_calls (o_ds s') = sr_calls (the (mRadioDs m')) @ cs \<and> grants_table cs"
proof -
  have "honest (m_sysrepo env)"
    using assms(1) by (simp add: honest_def)
  then have "ready (the (mRadioDs m'))"
    using mgr_started_ready assms(2) by fastforce
  note made = new_oran_state [OF assms(5,3)]
  then have "ready (o_ds s)"
    using rule_free_ready \<open>ready _\<close> by blast
  then obtain cs where "sr_calls (o_ds s') = sr_calls (o_ds s) @ cs" "grants_table cs"
    using start_grants [OF assms(1) _ made(2,3) assms(4,6)] by blast
  then show ?thesis
    using made(1) by (auto simp: rule_free_def grants_table_def)
qed

section \<open>A configuration that cannot be read\<close>

lemma vlan_throws:
  assumes "follow config (if_steps 0) = Some e" "if_type_text (leaf_of (Some e) ''type'') = ''iana-if-type:l2vlan''"
    and "stoi (leaf_of (Some e) ''vlan-id'') = Inl x"
  shows "fst (interface_leaves config 0 b) = Some (Std_exn x)"
proof -
  have v: "getValue config (if_config 0 @ ''/leaf-'' @ k) = Some (leaf_of (Some e) k)" if "plain_name k" for k
    using interface_values(1) [OF _ that, of 0 config] assms(1) by simp
  have "getValue config (if_config 0 @ ''/leaf-vlan-id'') = Some (leaf_of (Some e) ''vlan-id'')"
    "getValue config (if_config 0 @ ''/leaf-type'') = Some (leaf_of (Some e) ''type'')"
    "getValue config (if_config 0 @ ''/leaf-description'') = Some (leaf_of (Some e) ''description'')"
    "getValue config (if_config 0 @ ''/leaf-enabled'') = Some (leaf_of (Some e) ''enabled'')"
    "getValue config (if_config 0 @ ''/leaf-base-interface'') = Some (leaf_of (Some e) ''base-interface'')"
    using v [of "''vlan-id''"] v [of "''type''"] v [of "''description''"] v [of "''enabled''"] v [of "''base-interface''"]
    by (simp_all add: plain_name_def)
  then show ?thesis
    using assms(2,3)
    by (cases b) (simp add: interface_leaves_def vlan_leaves_def with_value_def unless_empty_def put_leaf_def
        put_number_def Let_def)
qed

lemma list_entry_made:
  assumes "follow config (if_steps 0) = Some e"
  shows "\<exists>ns. createInterfaceListEntry config 0 = Some ns"
    and "getValue config (if_config 0 @ ''/leaf-name'') = Some (leaf_of (Some e) ''name'')"
  using interface_values(1) [of 0 "''name''" config] interface_values(1) [of 0 "''oper-status''" config]
    interface_values(1) [of 0 "''speed''" config] assms
  by (simp_all add: createInterfaceListEntry_def addLeavesFromConfig_def addLeafFromConfig_def container_def plain_name_def)

text \<open>
  C10: when the first interface is a VLAN whose number is missing or no number, the start of the handlers
  ends with an exception: nothing at all is written, and no other handler is started, that of the access
  rules included.
\<close>

theorem unreadable_vlan_stops_start:
  assumes "mValues (hd_persist (ifh_base (o_interfaces s))) = []"
    and "getNumOfListEntries config ''module-ietf-interfaces/container-interfaces/list-interface'' = Some (Suc n)"
    and "follow config (if_steps 0) = Some e" "if_type_text (leaf_of (Some e) ''type'') = ''iana-if-type:l2vlan''"
    and "stoi (leaf_of (Some e) ''vlan-id'') = Inl x"
  shows "\<exists>i. oran_initialise sr loaded env config s = (Inl (Std_exn x), s\<lparr>o_interfaces := i\<rparr>)"
proof -
  let ?i = "(o_interfaces s)\<lparr>ifh_base := sees (o_ds s) (ifh_base (o_interfaces s))\<rparr>"
  obtain ns where ns: "createInterfaceListEntry config 0 = Some ns"
    using list_entry_made(1) [OF assms(3)] by blast
  obtain b where b: "interface_leaves config 0 (interface_default\<lparr>if_name := Freed (leaf_of (Some e) ''name'')\<rparr>, []) =
      (Some (Std_exn x), b)"
    using vlan_throws [OF assms(3-5)] by (metis prod.collapse)
  have "\<exists>j. add_one sr loaded config 0 ?i = (Some (Std_exn x), j) \<and> ifh_base j = ifh_base ?i"
    using ns b list_entry_made(2) [OF assms(3)]
    by (cases b) (simp add: add_one_def addInterface_def Let_def)
  then obtain j where "add_one sr loaded config 0 ?i = (Some (Std_exn x), j)" "ifh_base j = ifh_base ?i"
    by blast
  moreover have "handler_initialise sr (ifh_base ?i) = (True, ifh_base ?i)"
    using assms(1) by (simp add: handler_initialise_def)
  ultimately have "start_interfaces sr loaded config s = (Inl (Std_exn x), s\<lparr>o_interfaces := j\<rparr>)"
    using assms(2) by (simp add: start_interfaces_def if_initialise_def upt_conv_Cons del: upt_Suc)
  then show ?thesis
    by (intro exI [of _ j]) (simp add: oran_initialise_def handlers_initialise_def oran_handlers_def registerHandler_def)
qed

section \<open>Instances\<close>

text \<open>A start with an empty configuration.\<close>

lemma empty_config_values [simp]:
  "getValue empty_config p = Some []" "getNumOfListEntries empty_config p = Some 0" "getNumOfListLeafEntries empty_config p = Some 0"
proof -
  have none: "elementFound (commonSearch empty_config p) = None"
    by (simp add: commonSearch_def empty_config_def getElement_def Let_def split: prod.split)
  show "getValue empty_config p = Some []"
    unfolding getValue_def by (subst commonGet.simps) (simp add: none)
  show "getNumOfListEntries empty_config p = Some 0" "getNumOfListLeafEntries empty_config p = Some 0"
    unfolding getNumOfListEntries_def getNumOfListLeafEntries_def
    by (subst commonGetNumEntries.simps, simp add: none)+
qed

lemma empty_config_leaves [simp]:
  "addLeafFromConfig empty_config p x = Some []" "addLeavesFromConfig empty_config p xs = Some []"
  "addListLeafFromConfig empty_config p x = Some []" "addListLeavesFromConfig empty_config p xs = Some []"
  "each_entry empty_config p x f = Some []"
proof -
  show leaf: "addLeafFromConfig empty_config p x = Some []" for p x
    by (simp add: addLeafFromConfig_def addLeaf_def)
  show list: "addListLeafFromConfig empty_config p x = Some []" for p x
    by (simp add: addListLeafFromConfig_def)
  show "addLeavesFromConfig empty_config p xs = Some []"
    unfolding addLeavesFromConfig_def by (induction xs) (simp_all add: leaf)
  show "addListLeavesFromConfig empty_config p xs = Some []"
    unfolding addListLeavesFromConfig_def by (induction xs) (simp_all add: list)
  show "each_entry empty_config p x f = Some []"
    by (simp add: each_entry_def)
qed

lemma handler_initialise_True: "\<exists>i. handler_initialise sr h = (True, i)"
  by (simp add: handler_initialise_def)

lemma nacm_no_exception:
  assumes "\<And>cs c. sr_throws sr cs c = None"
  shows "\<exists>b h'. nacm_initialise sr h = (Inr b, h')"
proof -
  have rules: "\<exists>b h'. add_rules sr l g rules h = (Inr b, h')" for l g rules h
    using assms
    by (auto simp: add_rules_def hd_createListEntry_def on_ds_def createListEntry_def guarded_def sr_try_fine
        split: option.split simp del: sr_try.simps)
  have all: "\<exists>b h'. or_all fs ok h = (Inr b, h')" if "\<And>f h. f \<in> set fs \<Longrightarrow> \<exists>b h'. f h = (Inr b, h')" for fs ok h
    using that
  proof (induction fs arbitrary: ok h)
    case (Cons f fs)
    obtain b t where "f h = (Inr b, t)"
      using Cons.prems [of f h] by auto
    then show ?case
      using Cons.IH [of "b \<or> ok" t] Cons.IH [of "ok \<or> b" t] Cons.prems by auto
  qed simp
  obtain i where i: "handler_initialise sr h = (True, i)"
    using handler_initialise_True by blast
  have "\<exists>b h'. or_all [addSudoRules sr, addNmsRules sr, addFmpmRules sr, addSwmRules sr, addSmoRules sr,
      addHybridoduRules sr, addRootRules sr] True i = (Inr b, h')"
    by (rule all) (use rules in \<open>auto simp: addSudoRules_def addNmsRules_def addFmpmRules_def addSwmRules_def
        addSmoRules_def addHybridoduRules_def addRootRules_def\<close>)
  then obtain b j where "or_all [addSudoRules sr, addNmsRules sr, addFmpmRules sr, addSwmRules sr, addSmoRules sr,
      addHybridoduRules sr, addRootRules sr] True i = (Inr b, j)"
    by blast
  then show ?thesis
    unfolding nacm_initialise_def i Let_def prod.case by simp
qed

lemma setItemStr_no_exception: "\<exists>r t. setItemStr sr x v i s = (Inr r, t)"
  by (auto simp: setItemStr_def guarded_def exceptionHandler_def split: option.split prod.split)

lemma createRuCapabilities_empty: "\<exists>ns. createRuCapabilities empty_config = Some ns"
    "\<exists>ns. createBandCapabilities empty_config = Some ns"
  by (simp_all add: createRuCapabilities_def createBandCapabilities_def container_def iq_sample_format_def guard_rbs_def
      parts_def)

lemma carriers_empty: "\<exists>u'. mgr_initialise empty_config u = Some u'"
  by (simp add: mgr_initialise_def parts_def createEndpointTypes_def createEndpointCapacitySharingGroups_def
      createTxArrays_def createRxArrays_def createStaticLowLevelTxEndpoints_def createStaticLowLevelRxEndpoints_def
      createRelations_def createEndpointPrachGroups_def createSupportedCompressionMethodSets_def)

lemma empty_starts:
  assumes "\<And>cs c. sr_throws sr cs c = None"
  shows "\<exists>b t. start_interfaces sr loaded empty_config s = (Inr b, t)" "\<exists>b t. start_nacm sr s = (Inr b, t)"
    "\<exists>b t. start_netconf sr s = (Inr b, t)" "\<exists>b t. start_cap sr empty_config s = (Inr b, t)"
    "\<exists>b t. start_elements sr loaded empty_config s = (Inr b, t)" "\<exists>b t. start_plane sr env s = (Inr b, t)"
    "\<exists>b t. start_users sr s = (Inr b, t)" "\<exists>b t. start_carriers empty_config s = (Inr b, t)"
proof -
  show "\<exists>b t. start_nacm sr s = (Inr b, t)"
    using nacm_no_exception [OF assms, of "sees (o_ds s) (o_nacm s)"] by (auto simp: start_nacm_def)
  show "\<exists>b t. start_carriers empty_config s = (Inr b, t)"
    using carriers_empty [of "o_uplane s"] by (auto simp: start_carriers_def)
  show "\<exists>b t. start_netconf sr s = (Inr b, t)" "\<exists>b t. start_users sr s = (Inr b, t)"
    by (simp_all add: start_netconf_def start_users_def split: prod.split)
  show "\<exists>b t. start_plane sr env s = (Inr b, t)"
    using handler_initialise_True [of sr "sees (o_ds s) (o_plane s)"] by (auto simp: start_plane_def Let_def)
  show "\<exists>b t. start_interfaces sr loaded empty_config s = (Inr b, t)"
    using handler_initialise_True [of sr "sees (o_ds s) (ifh_base (o_interfaces s))"]
    by (auto simp: start_interfaces_def if_initialise_def Let_def)
  show "\<exists>b t. start_cap sr empty_config s = (Inr b, t)"
    using handler_initialise_True [of sr "sees (o_ds s) (cap_base (o_cap s))"] createRuCapabilities_empty
    by (auto simp: start_cap_def cap_initialise_def Let_def)
  obtain i where i: "handler_initialise sr (sees (o_ds s) (pe_base (o_elements s))) = (True, i)"
    using handler_initialise_True by blast
  obtain r j where "hd_createItemStr sr (pathRoot (add_param ''transport-session-type'' pe_parent)) ''ETH-INTERFACE'' i = (Inr r, j)"
    using setItemStr_no_exception [of sr "pathRoot (add_param ''transport-session-type'' pe_parent)" "''ETH-INTERFACE''" 0 "hd_ds i"]
    by (auto simp: hd_createItemStr_def on_ds_def)
  then show "\<exists>b t. start_elements sr loaded empty_config s = (Inr b, t)"
    using i by (auto simp: start_elements_def pe_initialise_def Let_def)
qed

lemma starts_all: "(\<And>f s. f \<in> set fs \<Longrightarrow> \<exists>b t. f s = (Inr b, t)) \<Longrightarrow> \<exists>b t. start_handlers fs ok s = (Inr b, t)"
proof (induction fs arbitrary: ok s)
  case (Cons f fs)
  obtain b t where "f s = (Inr b, t)"
    using Cons.prems [of f s] by auto
  then show ?case
    using Cons.IH [of "ok \<and> b" t] Cons.prems by auto
qed simp

lemma empty_start:
  assumes "\<And>cs c. sr_throws sr cs c = None"
  shows "\<exists>b t. oran_initialise sr loaded env empty_config s = (Inr b, t)"
  unfolding oran_initialise_def handlers_initialise_def
  by (rule starts_all) (use empty_starts [OF assms] in \<open>auto simp: oran_handlers_def registerHandler_def\<close>)

text \<open>The persistent values of a server that starts for the first time.\<close>

definition first_persist :: "string \<Rightarrow> yang_persist" where
  "first_persist name = \<lparr>mYangModelName = name, mDirty = False, mValues = [], mPersistPaths = {}\<rparr>"

theorem server_grants_table_witness:
  "\<forall>uplane penv. \<exists>m' s ds. module_mgr_initialise fine_env createModules (new_mgr :: nat module_mgr) = (Inr YANG_OK, m') \<and>
    new_oran (m_sysrepo fine_env) [] 0 first_persist uplane (the (mRadioDs m')) = (Inr s, ds) \<and>
    (\<exists>ok s' cs. oran_initialise (m_sysrepo fine_env) (\<lambda>_. False) penv empty_config s = (Inr ok, s') \<and>
       sr_calls (o_ds s') = sr_calls (the (mRadioDs m')) @ cs \<and> grants_table cs)"
proof (intro allI)
  fix uplane penv
  obtain m' where m': "module_mgr_initialise fine_env createModules (new_mgr :: nat module_mgr) = (Inr YANG_OK, m')"
    using server_start_quiet [of fine_env empty_config new_mgr] by (auto simp: fine_env_def empty_config_names)
  have fine: "\<And>cs c. sr_throws (m_sysrepo fine_env) cs c = None"
    by (simp add: fine_env_def)
  have persist: "\<And>n. off_nacm_values (first_persist n)" "mValues (first_persist ''ietf-netconf-acm'') = []"
    by (simp_all add: off_nacm_values_def first_persist_def)
  obtain s ds where s: "new_oran (m_sysrepo fine_env) [] 0 first_persist uplane (the (mRadioDs m')) = (Inr s, ds)"
    by (auto simp: new_oran_def new_netconf_server_def)
  obtain ok s' where "oran_initialise (m_sysrepo fine_env) (\<lambda>_. False) penv empty_config s = (Inr ok, s')"
    using empty_start [OF fine] by blast
  then show "\<exists>m' s ds. module_mgr_initialise fine_env createModules (new_mgr :: nat module_mgr) = (Inr YANG_OK, m') \<and>
    new_oran (m_sysrepo fine_env) [] 0 first_persist uplane (the (mRadioDs m')) = (Inr s, ds) \<and>
    (\<exists>ok s' cs. oran_initialise (m_sysrepo fine_env) (\<lambda>_. False) penv empty_config s = (Inr ok, s') \<and>
       sr_calls (o_ds s') = sr_calls (the (mRadioDs m')) @ cs \<and> grants_table cs)"
    using server_grants_table [OF fine m' persist s] m' s by blast
qed

definition vlan_config :: element where
  "vlan_config =
     Element ''config'' [] [] [] [Element ''module'' ''ietf-interfaces'' [] [] [Element ''container'' ''interfaces'' [] []
       [Element ''list'' ''interface'' [] [] [Element ''listEntry'' [] [] []
         [leaf_element ''name'' ''eth0.5'', leaf_element ''type'' ''l2vlan'']]]]]"

lemma vlan_entry: "follow vlan_config (if_steps 0) = Some (Element ''listEntry'' [] [] []
    [leaf_element ''name'' ''eth0.5'', leaf_element ''type'' ''l2vlan''])"
  by (simp add: vlan_config_def if_steps_def getElement_def getElement_at_def leaf_element_def)

lemma vlan_entries:
  "getNumOfListEntries vlan_config ''module-ietf-interfaces/container-interfaces/list-interface'' = Some 1"
  unfolding getNumOfListEntries_def vlan_config_def
  by (simp add: commonGetNumEntries.simps commonSearch_def find_pos_def npos_def substr_def wrap_int_def split_index_def
      getElement_def rest_of_path_def getNumberOfChildElements_def Let_def)

theorem unreadable_vlan_stops_start_witness:
  "\<forall>uplane penv. \<exists>s ds i. new_oran (m_sysrepo fine_env) [] 0 first_persist uplane active_datastore = (Inr s, ds) \<and>
    oran_initialise (m_sysrepo fine_env) (\<lambda>_. False) penv vlan_config s = (Inl (Std_exn Invalid_argument), s\<lparr>o_interfaces := i\<rparr>)"
proof (intro allI)
  fix uplane penv
  obtain s ds where s: "new_oran (m_sysrepo fine_env) [] 0 first_persist uplane active_datastore = (Inr s, ds)"
    by (auto simp: new_oran_def new_netconf_server_def)
  then have "mValues (hd_persist (ifh_base (o_interfaces s))) = []"
    by (auto simp: new_oran_def new_netconf_server_def new_interfaces_def new_handler_def first_persist_def)
  then have "\<exists>i. oran_initialise (m_sysrepo fine_env) (\<lambda>_. False) penv vlan_config s =
      (Inl (Std_exn Invalid_argument), s\<lparr>o_interfaces := i\<rparr>)"
    by (rule unreadable_vlan_stops_start [OF _ _ vlan_entry])
      (simp_all add: vlan_entries leaf_of_def getElement_def leaf_element_def if_type_text_def startsWith_def)
  then show "\<exists>s ds i. new_oran (m_sysrepo fine_env) [] 0 first_persist uplane active_datastore = (Inr s, ds) \<and>
    oran_initialise (m_sysrepo fine_env) (\<lambda>_. False) penv vlan_config s = (Inl (Std_exn Invalid_argument), s\<lparr>o_interfaces := i\<rparr>)"
    using s by blast
qed

end
