(* ===== verification/LeafTree.thy ===== *)
theory LeafTree
  imports CarrierState Datastore
begin

text \<open>
  The tree of operational leaves: the remaining operations of \<open>LeafContainer.cpp\<close>, and
  \<open>SysrepoGetitemsCallback.cpp\<close>, which answers a read of operational data from the tree. The nodes of
  the answer are made by the library, which may refuse one; \<open>makes\<close> says whether it makes the node of
  a module, a name and a value below the nodes of some names.
\<close>

section \<open>Nodes\<close>

definition node_name :: "node \<Rightarrow> string" where
  "node_name n = (case n of Container name _ \<Rightarrow> name | Leaf name _ \<Rightarrow> name | State_leaf name _ _ \<Rightarrow> name)"

definition isContainer :: "node \<Rightarrow> bool" where
  "isContainer n = (case n of Container _ _ \<Rightarrow> True | _ \<Rightarrow> False)"

definition node_contents :: "node \<Rightarrow> node list" where
  "node_contents n = (case n of Container _ ns \<Rightarrow> ns | _ \<Rightarrow> [])"

text \<open>The value; a leaf with a function calls it.\<close>

definition node_value :: "(dir \<Rightarrow> string \<Rightarrow> string) \<Rightarrow> node \<Rightarrow> string" where
  "node_value states n = (case n of Container _ _ \<Rightarrow> [] | Leaf _ v \<Rightarrow> v | State_leaf _ d c \<Rightarrow> states d c)"

section \<open>Search\<close>

text \<open>\<open>getNamed\<close>: a node with the name, or the first one below a container of the list.\<close>

fun first_some :: "('a \<Rightarrow> 'b option) \<Rightarrow> 'a list \<Rightarrow> 'b option" where
  "first_some f [] = None"
| "first_some f (x # xs) = (case f x of Some y \<Rightarrow> Some y | None \<Rightarrow> first_some f xs)"

lemma first_some_cong [fundef_cong]:
  "\<lbrakk>xs = ys; \<And>x. x \<in> set ys \<Longrightarrow> f x = g x\<rbrakk> \<Longrightarrow> first_some f xs = first_some g ys"
  by (induction xs arbitrary: ys) (auto split: option.split)

fun getNamed_in :: "string \<Rightarrow> bool \<Rightarrow> node \<Rightarrow> node option" where
  "getNamed_in name recursive (Container _ ns) =
     (case find (\<lambda>n. node_name n = name) ns of
        Some n \<Rightarrow> Some n
      | None \<Rightarrow> if recursive then first_some (getNamed_in name True) ns else None)"
| "getNamed_in name recursive (Leaf _ _) = None"
| "getNamed_in name recursive (State_leaf _ _ _) = None"

definition getNamed :: "string \<Rightarrow> bool \<Rightarrow> node list \<Rightarrow> node option" where
  "getNamed name recursive contents = getNamed_in name recursive (Container [] contents)"

section \<open>Changes\<close>

fun deleteNamed_in :: "string \<Rightarrow> bool \<Rightarrow> node \<Rightarrow> node" where
  "deleteNamed_in name recursive (Container m ns) =
     Container m (let ns = filter (\<lambda>n. node_name n \<noteq> name) ns in
       if recursive then map (deleteNamed_in name True) ns else ns)"
| "deleteNamed_in name recursive (Leaf m v) = Leaf m v"
| "deleteNamed_in name recursive (State_leaf m d c) = State_leaf m d c"

definition deleteNamed :: "string \<Rightarrow> bool \<Rightarrow> node list \<Rightarrow> node list" where
  "deleteNamed name recursive contents = node_contents (deleteNamed_in name recursive (Container [] contents))"

text \<open>\<open>clear\<close>, and \<open>removeContainer\<close> of the entry at an index; \<open>None\<close> is a pointer that is not among them.\<close>

definition clear_contents :: "node list \<Rightarrow> node list" where
  "clear_contents contents = []"

definition removeContainer :: "nat option \<Rightarrow> node list \<Rightarrow> node list" where
  "removeContainer component contents =
     (case component of None \<Rightarrow> contents | Some i \<Rightarrow> take i contents @ drop (Suc i) contents)"

text \<open>New nodes; adding one to a leaf throws.\<close>

definition add_content :: "node \<Rightarrow> node \<Rightarrow> string + node" where
  "add_content new n =
     (case n of
        Container name ns \<Rightarrow> Inr (Container name (ns @ [new]))
      | _ \<Rightarrow> Inl (if isContainer new then ''Attempting to add container to leaf element''
                  else ''Attempting to add leaf to leaf element''))"

definition addContainer :: "string \<Rightarrow> node \<Rightarrow> string + node" where
  "addContainer name = add_content (Container name [])"

definition addContainerList :: "string \<Rightarrow> node \<Rightarrow> string + node" where
  "addContainerList name = addContainer name"

definition addContainerChoice :: "string \<Rightarrow> node \<Rightarrow> string + node" where
  "addContainerChoice name = addContainer name"

definition addLeaf_func :: "string \<Rightarrow> dir \<Rightarrow> string \<Rightarrow> node \<Rightarrow> string + node" where
  "addLeaf_func name d c = add_content (State_leaf name d c)"

definition addLeaf_to :: "string \<Rightarrow> string \<Rightarrow> node \<Rightarrow> string + node" where
  "addLeaf_to name v n = (if isContainer n \<and> v = [] then Inr n else add_content (Leaf name v) n)"

definition addLeafHex :: "string \<Rightarrow> u32 \<Rightarrow> node \<Rightarrow> string + node" where
  "addLeafHex name v = addLeaf_to name (''0x'' @ hex_digits (unat v))"

text \<open>\<open>addLeafInt\<close> and the variants for the widths print the number.\<close>

definition addLeafInt :: "string \<Rightarrow> int \<Rightarrow> node \<Rightarrow> string + node" where
  "addLeafInt name v = addLeaf_to name (dec_int v)"

definition addLeafBool :: "string \<Rightarrow> bool \<Rightarrow> node \<Rightarrow> string + node" where
  "addLeafBool name v = addLeaf_to name (if v then ''true'' else ''false'')"

section \<open>Reads\<close>

definition nodeModule :: "string \<Rightarrow> string" where
  "nodeModule name = (case find_char (CHR '':'') name of None \<Rightarrow> [] | Some pos \<Rightarrow> take pos name)"

definition nodeName :: "string \<Rightarrow> string" where
  "nodeName name = (case find_char (CHR '':'') name of None \<Rightarrow> name | Some pos \<Rightarrow> drop (Suc pos) name)"

text \<open>The nodes of an answer: module, name, value and what is below.\<close>

datatype data_node = Data_node string string "string option" "data_node list"

type_synonym makes = "string list \<Rightarrow> string \<Rightarrow> string \<Rightarrow> string option \<Rightarrow> bool"

text \<open>The module of an element is that of its name, if it has one, and of the element above otherwise.\<close>

definition resolve :: "string \<Rightarrow> string \<Rightarrow> string \<times> string" where
  "resolve module name = (if nodeModule name \<noteq> [] then (nodeModule name, nodeName name) else (module, name))"

text \<open>\<open>processElements\<close>: an element that is refused is left out with all that is below, and the loop goes on.\<close>

fun processElement :: "makes \<Rightarrow> (dir \<Rightarrow> string \<Rightarrow> string) \<Rightarrow> string list \<Rightarrow> string \<Rightarrow> node \<Rightarrow> data_node list" where
  "processElement makes states parents module (Container name ns) =
     (case resolve module name of (m, n) \<Rightarrow>
        if makes parents m n None
        then [Data_node m n None (concat (map (processElement makes states (parents @ [n]) m) ns))] else [])"
| "processElement makes states parents module (Leaf name v) =
     (case resolve module name of (m, n) \<Rightarrow> if makes parents m n (Some v) then [Data_node m n (Some v) []] else [])"
| "processElement makes states parents module (State_leaf name d c) =
     (case resolve module name of (m, n) \<Rightarrow>
        if makes parents m n (Some (states d c)) then [Data_node m n (Some (states d c)) []] else [])"

definition processElements :: "makes \<Rightarrow> (dir \<Rightarrow> string \<Rightarrow> string) \<Rightarrow> string list \<Rightarrow> string \<Rightarrow> node list \<Rightarrow> data_node list" where
  "processElements makes states parents module ns = concat (map (processElement makes states parents module) ns)"

definition oper_get_items ::
    "makes \<Rightarrow> (dir \<Rightarrow> string \<Rightarrow> string) \<Rightarrow> string \<Rightarrow> string \<Rightarrow> node list \<Rightarrow> sr_error \<times> data_node list" where
  "oper_get_items makes states parentPath module contents =
     (if makes [] module parentPath None then (SR_ERR_OK, processElements makes states [parentPath] module contents)
      else (SR_ERR_INTERNAL, []))"

section \<open>A search after a deletion\<close>

lemma first_some_None: "first_some f xs = None \<longleftrightarrow> (\<forall>x \<in> set xs. f x = None)"
  by (induction xs) (auto split: option.split)

lemma node_name_deleted [simp]: "node_name (deleteNamed_in name recursive n) = node_name n"
  by (cases n) (simp_all add: node_name_def Let_def)

lemma getNamed_deleted: "getNamed_in name True (deleteNamed_in name True n) = None"
  by (induction n) (auto simp: first_some_None find_None_iff split: option.split)

lemma getNamed_deleteNamed: "getNamed name True (deleteNamed name True contents) = None"
proof -
  have "Container [] (deleteNamed name True contents) = deleteNamed_in name True (Container [] contents)"
    by (simp add: deleteNamed_def node_contents_def Let_def)
  then show ?thesis
    by (simp only: getNamed_def getNamed_deleted)
qed

section \<open>What a read answers\<close>

text \<open>The leaves of the tree and of an answer: their nodes from the top, as module and name, and their values.\<close>

fun tree_leaves :: "(dir \<Rightarrow> string \<Rightarrow> string) \<Rightarrow> string \<Rightarrow> node \<Rightarrow> ((string \<times> string) list \<times> string) list" where
  "tree_leaves states module (Container name ns) =
     map (\<lambda>(p, v). (resolve module name # p, v)) (concat (map (tree_leaves states (fst (resolve module name))) ns))"
| "tree_leaves states module (Leaf name v) = [([resolve module name], v)]"
| "tree_leaves states module (State_leaf name d c) = [([resolve module name], states d c)]"

fun answer_leaves :: "data_node \<Rightarrow> ((string \<times> string) list \<times> string) list" where
  "answer_leaves (Data_node m n (Some v) ns) = [([(m, n)], v)]"
| "answer_leaves (Data_node m n None ns) = map (\<lambda>(p, v). ((m, n) # p, v)) (concat (map answer_leaves ns))"

text \<open>The library makes all nodes on the way to a leaf.\<close>

fun made :: "makes \<Rightarrow> string list \<Rightarrow> (string \<times> string) list \<times> string \<Rightarrow> bool" where
  "made makes parents ([], v) = True"
| "made makes parents ((m, n) # p, v) =
     (if p = [] then makes parents m n (Some v) else makes parents m n None \<and> made makes (parents @ [n]) (p, v))"

lemma tree_leaves_path: "(p, v) \<in> set (tree_leaves states module n) \<Longrightarrow> p \<noteq> []"
  by (cases n) auto

lemma answers_concat: "concat (map g (concat xss)) = concat (map (\<lambda>xs. concat (map g xs)) xss)"
  by (induction xss) simp_all

lemma answer_of_element:
  "concat (map answer_leaves (processElement makes states parents module n)) =
    filter (made makes parents) (tree_leaves states module n)"
proof (induction makes states parents module n rule: processElement.induct)
  case (1 makes states parents module name ns)
  obtain m k where r: "resolve module name = (m, k)"
    by fastforce
  have sub: "filter (made makes parents) (map (\<lambda>(p, v). ((m, k) # p, v)) xs) =
      (if makes parents m k None then map (\<lambda>(p, v). ((m, k) # p, v)) (filter (made makes (parents @ [k])) xs) else [])"
    if "\<forall>(p, v) \<in> set xs. p \<noteq> []" for xs
    using that by (induction xs) auto
  let ?xs = "concat (map (tree_leaves states m) ns)"
  have "\<forall>(p, v) \<in> set ?xs. p \<noteq> []"
    using tree_leaves_path by fastforce
  moreover have "concat (map (\<lambda>n. concat (map answer_leaves (processElement makes states (parents @ [k]) m n))) ns) =
      filter (made makes (parents @ [k])) ?xs" if "makes parents m k None"
    using 1 r that by (simp add: filter_concat comp_def cong: map_cong)
  ultimately show ?case
    using r sub [of ?xs] by (simp add: answers_concat comp_def)
next
  case (2 makes states parents module name v)
  then show ?case
    by (auto split: prod.split)
next
  case (3 makes states parents module name d c)
  then show ?case
    by (auto split: prod.split)
qed

text \<open>
  C23: a read of operational data answers with exactly the leaves of the tree whose nodes the library
  makes, in the order of the tree, each below its containers, with the prefix of a name as its module
  and the present value of a leaf that is a function; it fails only when the top node is refused.
\<close>

theorem read_answers_tree:
  "oper_get_items makes states parentPath module contents = (r, ans) \<Longrightarrow>
    r = (if makes [] module parentPath None then SR_ERR_OK else SR_ERR_INTERNAL) \<and>
    concat (map answer_leaves ans) =
      (if makes [] module parentPath None
       then filter (made makes [parentPath]) (concat (map (tree_leaves states module) contents)) else [])"
  using answer_of_element [of makes states "[parentPath]" module]
  by (auto simp: oper_get_items_def processElements_def filter_concat answers_concat comp_def)

theorem read_answers_tree_witness:
  "concat (map answer_leaves (snd (oper_get_items (\<lambda>p m n v. n \<noteq> ''b'') (\<lambda>d c. ''READY'') ''/m:top'' ''m''
      [Container ''x:list'' [Leaf ''name'' ''c'', State_leaf ''state'' Rx ''c''], Container ''b'' [Leaf ''name'' ''d'']]))) =
    [([(''x'', ''list''), (''x'', ''name'')], ''c''), ([(''x'', ''list''), (''x'', ''state'')], ''READY'')]"
proof -
  obtain r ans where a: "oper_get_items (\<lambda>p m n v. n \<noteq> ''b'') (\<lambda>d c. ''READY'') ''/m:top'' ''m''
      [Container ''x:list'' [Leaf ''name'' ''c'', State_leaf ''state'' Rx ''c''], Container ''b'' [Leaf ''name'' ''d'']] = (r, ans)"
    by fastforce
  show ?thesis
    using read_answers_tree [OF a] unfolding a
    by (simp add: resolve_def nodeModule_def nodeName_def)
qed

end
