(* ===== verification/HalLoader.thy ===== *)
theory HalLoader
  imports ConfigParser
begin

text \<open>
  The board \<open>modular\<close> of \<open>libhalmplane\<close>: \<open>ModuleLoader.cpp\<close>, \<open>HalMplane.cpp\<close> and the functions of the
  interface, which look the function of the module up by the text of its prototype and pass the call
  on. A module is a shared library: what its \<open>function_map\<close> returns and what its functions do are
  parameters.
\<close>

section \<open>The loader\<close>

record 'p loader =
  libname :: "string option"
  registered_functions :: "string \<Rightarrow> 'p option option"

definition new_loader :: "'p loader" where
  "new_loader = \<lparr>libname = Some ''uninitialized'', registered_functions = Map.empty\<rparr>"

text \<open>
  What the symbol \<open>function_map\<close> of the library with this name gives: there is none, it returns a null
  pointer, or a map from keys to pointers, which may be null.
\<close>

type_synonym 'p libraries = "string option \<Rightarrow> (string \<Rightarrow> 'p option option) option option"

definition loader_open :: "'p libraries \<Rightarrow> string option \<Rightarrow> 'p loader \<Rightarrow> 'p loader" where
  "loader_open libraries libfilename l =
     (let l = l\<lparr>libname := libfilename\<rparr> in
      case libraries libfilename of
        None \<Rightarrow> l
      | Some None \<Rightarrow> l\<lparr>registered_functions := Map.empty\<rparr>
      | Some (Some m) \<Rightarrow> l\<lparr>registered_functions := m\<rparr>)"

text \<open>\<open>operator[]\<close> adds a null pointer for a key that is not there.\<close>

definition loader_get :: "string \<Rightarrow> 'p loader \<Rightarrow> 'p option \<times> 'p loader" where
  "loader_get key l =
     (case registered_functions l key of
        None \<Rightarrow> (None, l\<lparr>registered_functions := (registered_functions l)(key \<mapsto> None)\<rparr>)
      | Some fptr \<Rightarrow> (fptr, l))"

section \<open>The functions of the interface\<close>

datatype halmplane_error = NONE | UNIMPLEMENTED | UNAVAILABLE | FILE_OPEN_ERROR | FILE_READ_ERROR | FILE_WRITE_ERROR
  | INVALID_ARG | DEVICE_ERROR

datatype hal_result = Hal_error halmplane_error | Hal_int int | Hal_bool bool | Hal_word u32
  | Hal_names "string list option"

text \<open>
  A function: its name, the key it looks up, and its result when there is no such function. \<open>'a\<close> are
  the arguments, \<open>'m\<close> is the state of the module.
\<close>

type_synonym hal_function = "string \<times> string \<times> hal_result"

type_synonym ('p, 'a, 'm) module_code = "'p \<Rightarrow> 'a \<Rightarrow> 'm \<Rightarrow> hal_result \<times> 'm"

definition hal_forward :: "('p, 'a, 'm) module_code \<Rightarrow> hal_function \<Rightarrow> 'a \<Rightarrow> 'p loader \<Rightarrow> 'm \<Rightarrow> hal_result \<times> 'p loader \<times> 'm" where
  "hal_forward code f args l m =
     (case f of (name, key, unavailable) \<Rightarrow>
        (case loader_get key l of
           (None, l) \<Rightarrow> (unavailable, l, m)
         | (Some fptr, l) \<Rightarrow> (let (status, m) = code fptr args m in (status, l, m))))"

definition api_Alarms :: "hal_function list" where
  "api_Alarms =
    [(''halmplane_registerOranAlarmCallback'',
      ''int halmplane_registerOranAlarmCallback(halmplane_oran_alarm_cb_t)'', Hal_int 1)]"

definition api_Ald :: "hal_function list" where
  "api_Ald =
    [(''halmplane_ald_get_counters'',
      ''halmplane_error_t halmplane_ald_get_counters(halmplane_ald_communication_output_t*)'', Hal_error UNIMPLEMENTED),
     (''halmplane_ald_get_status'',
      ''halmplane_error_t halmplane_ald_get_status(halmplane_ald_communication_output_t*)'', Hal_error UNIMPLEMENTED),
     (''halmplane_ald_response'',
      ''halmplane_error_t halmplane_ald_response(halmplane_ald_communication_input_s*, uint16_t)'', Hal_error UNIMPLEMENTED),
     (''halmplane_ald_request'',
      ''halmplane_error_t halmplane_ald_request(halmplane_ald_communication_input_t*, uint16_t)'', Hal_error UNIMPLEMENTED),
     (''halmplane_ald_set_receive_mode'',
      ''halmplane_error_t halmplane_ald_set_receive_mode(halmplane_ald_communication_input_s*, uint16_t)'', Hal_error UNIMPLEMENTED)]"

definition api_AntennaCalibration :: "hal_function list" where
  "api_AntennaCalibration =
    [(''halmplane_start_antenna_calibration'',
      ''halmplane_error_t halmplane_start_antenna_calibration(const antenna_calibration_data_t*)'', Hal_error UNIMPLEMENTED)]"

definition api_Beamforming :: "hal_function list" where
  "api_Beamforming =
    [(''halmplane_apply_beamforming_file'',
      ''halmplane_error_t halmplane_apply_beamforming_file(char*)'', Hal_error UNIMPLEMENTED)]"

definition api_DelayMgmt :: "hal_function list" where
  "api_DelayMgmt =
    [(''halmplane_setDUToRUDelayMgmnt'',
      ''int halmplane_setDUToRUDelayMgmnt(o_ru_delay_management_s*)'', Hal_int 1)]"

definition api_Ecpri :: "hal_function list" where
  "api_Ecpri =
    [(''halmplane_message5Enabled'',
      ''bool halmplane_message5Enabled()'', Hal_bool False)]"

definition api_Externalio :: "hal_function list" where
  "api_Externalio =
    [(''halmplane_get_io_value'',
      ''halmplane_error_t halmplane_get_io_value(external_io_t*)'', Hal_error UNIMPLEMENTED),
     (''halmplane_set_io_value'',
      ''halmplane_error_t halmplane_set_io_value(output_setting_t*)'', Hal_error UNIMPLEMENTED)]"

definition api_Fan :: "hal_function list" where
  "api_Fan =
    [(''halmplane_get_fan_name'',
      ''halmplane_error_t halmplane_get_fan_name(fan_state_t*)'', Hal_error UNIMPLEMENTED),
     (''halmplane_get_fan_location'',
      ''halmplane_error_t halmplane_get_fan_location(fan_state_t*)'', Hal_error UNIMPLEMENTED),
     (''halmplane_get_fan_present_and_operating'',
      ''halmplane_error_t halmplane_get_fan_present_and_operating(fan_state_t*)'', Hal_error UNIMPLEMENTED),
     (''halmplane_get_fan_vendor_code'',
      ''halmplane_error_t halmplane_get_fan_vendor_code(fan_state_t*)'', Hal_error UNIMPLEMENTED),
     (''halmplane_get_fan_speed'',
      ''halmplane_error_t halmplane_get_fan_speed(fan_state_t*)'', Hal_error UNIMPLEMENTED),
     (''halmplane_get_fan_target_speed'',
      ''halmplane_error_t halmplane_get_fan_target_speed(fan_state_t*)'', Hal_error UNIMPLEMENTED)]"

definition api_Hardware :: "hal_function list" where
  "api_Hardware =
    [(''halmplane_get_ietf_hardware'',
      ''bool halmplane_get_ietf_hardware(ietf_hardware_t* hw)'', Hal_bool True),
     (''halmplane_registerHwStateChange'',
      ''int halmplane_registerHwStateChange(halmplane_notificationHwStateChange_cb_t)'', Hal_int 1),
     (''halmplane_registerHwStateOper'',
      ''int halmplane_registerHwStateOper(halmplane_notificationHwStateOper_cb_t)'', Hal_int 1),
     (''halmplane_get_energysaving_state'',
      ''halmplane_error_t halmplane_get_energysaving_state(hw_component_t*)'', Hal_error UNIMPLEMENTED),
     (''halmplane_get_availability_type'',
      ''halmplane_error_t halmplane_get_availability_type(hw_component_t*)'', Hal_error UNIMPLEMENTED),
     (''halmplane_get_label_content'',
      ''halmplane_error_t halmplane_get_label_content(hw_component_t*)'', Hal_error UNIMPLEMENTED),
     (''halmplane_get_product_code'',
      ''halmplane_error_t halmplane_get_product_code(hw_component_t*)'', Hal_error UNIMPLEMENTED),
     (''halmplane_is_energy_saving_enabled'',
      ''halmplane_error_t halmplane_is_energy_saving_enabled(hw_component_t*)'', Hal_error UNIMPLEMENTED),
     (''halmplane_get_dying_gasp_support'',
      ''halmplane_error_t halmplane_get_dying_gasp_support(hw_component_t*)'', Hal_error UNIMPLEMENTED),
     (''halmplane_get_last_service_date'',
      ''halmplane_error_t halmplane_get_last_service_date(hw_component_t*)'', Hal_error UNIMPLEMENTED),
     (''halmplane_get_o_ran_name'',
      ''halmplane_error_t halmplane_get_o_ran_name(hw_component_t*)'', Hal_error UNIMPLEMENTED)]"

definition api_Interfaces :: "hal_function list" where
  "api_Interfaces =
    [(''halmplane_interface_update'',
      ''halmplane_error_t halmplane_interface_update(interface_t*)'', Hal_error UNIMPLEMENTED),
     (''halmplane_interface_update_description'',
      ''halmplane_error_t halmplane_interface_update_description(const char*, const char*)'', Hal_error UNIMPLEMENTED),
     (''halmplane_interface_update_type'',
      ''halmplane_error_t halmplane_interface_update_type(const char*, const char*)'', Hal_error UNIMPLEMENTED),
     (''halmplane_interface_update_enabled'',
      ''halmplane_error_t halmplane_interface_update_enabled(const char*, bool)'', Hal_error UNIMPLEMENTED),
     (''halmplane_interface_update_l2_mtu'',
      ''halmplane_error_t halmplane_interface_update_l2_mtu(const char*, int)'', Hal_error UNIMPLEMENTED),
     (''halmplane_interface_update_vlan_tagging'',
      ''halmplane_error_t halmplane_interface_update_vlan_tagging(const char*, bool)'', Hal_error UNIMPLEMENTED),
     (''halmplane_interface_update_base_interface'',
      ''halmplane_error_t halmplane_interface_update_base_interface(const char*, const char*)'', Hal_error UNIMPLEMENTED),
     (''halmplane_interface_update_vlan_id'',
      ''halmplane_error_t halmplane_interface_update_vlan_id(const char*, int)'', Hal_error UNIMPLEMENTED),
     (''halmplane_interface_update_mac_address'',
      ''halmplane_error_t halmplane_interface_update_mac_address(const char*, const char*)'', Hal_error UNIMPLEMENTED)]"

definition api_ModuleCapability :: "hal_function list" where
  "api_ModuleCapability =
    [(''halmplane_setDUToRUModuleCapability'',
      ''int halmplane_setDUToRUModuleCapability(module_capability_t*)'', Hal_int 1)]"

definition api_ProcessingElements :: "hal_function list" where
  "api_ProcessingElements =
    [(''halmplane_update_ru_element'',
      ''halmplane_error_t halmplane_update_ru_element(ru_elements_t*)'', Hal_error UNIMPLEMENTED)]"

definition api_Supervision :: "hal_function list" where
  "api_Supervision =
    [(''halmplane_get_cu_supervison_interval'',
      ''uint32_t halmplane_get_cu_supervison_interval()'', Hal_word 1),
     (''halmplane_set_cu_supervison_interval'',
      ''uint32_t halmplane_set_cu_supervison_interval(uint32_t)'', Hal_word 1)]"

definition api_Sync :: "hal_function list" where
  "api_Sync =
    [(''halmplane_set_ptp_config'',
      ''halmplane_error_t halmplane_set_ptp_config(const ptp_config_t)'', Hal_error UNIMPLEMENTED),
     (''halmplane_get_ptp_status'',
      ''halmplane_error_t halmplane_get_ptp_status(ptp_status_t*)'', Hal_error UNIMPLEMENTED),
     (''halmplane_set_synce_config'',
      ''halmplane_error_t halmplane_set_synce_config(const synce_config_t)'', Hal_error UNIMPLEMENTED),
     (''halmplane_get_synce_status'',
      ''halmplane_error_t halmplane_get_synce_status(synce_status_t*)'', Hal_error UNIMPLEMENTED),
     (''halmplane_set_gnss_config'',
      ''halmplane_error_t halmplane_set_gnss_config(const gnss_config_t)'', Hal_error UNIMPLEMENTED),
     (''halmplane_get_gnss_status'',
      ''halmplane_error_t halmplane_get_gnss_status(gnss_status_t*)'', Hal_error UNIMPLEMENTED)]"

definition api_Transceiver :: "hal_function list" where
  "api_Transceiver =
    [(''halmplane_get_port_transceivers'',
      ''int halmplane_get_port_transceivers(port_transceivers_t*)'', Hal_int 1)]"

definition api_UplaneConf :: "hal_function list" where
  "api_UplaneConf =
    [(''halmplane_get_tx_array'',
      ''int halmplane_get_tx_array(const char*, tx_array_t*)'', Hal_int 1),
     (''halmplane_get_tx_array_names'',
      ''const char** halmplane_get_tx_array_names()'', Hal_names None),
     (''halmplane_get_low_level_tx_endpoint'',
      ''int halmplane_get_low_level_tx_endpoint(const char*, low_level_tx_endpoint_t*)'', Hal_int 1),
     (''halmplane_get_low_level_tx_endpoints'',
      ''int halmplane_get_low_level_tx_endpoints(low_level_tx_endpoint_t**, int*)'', Hal_int 1),
     (''halmplane_get_rx_array'',
      ''int halmplane_get_rx_array(const char*, rx_array_t*)'', Hal_int 1),
     (''halmplane_get_rx_array_names'',
      ''const char** halmplane_get_rx_array_names()'', Hal_names None),
     (''halmplane_get_low_level_rx_endpoint'',
      ''int halmplane_get_low_level_rx_endpoint(const char*, low_level_rx_endpoint_t*)'', Hal_int 1),
     (''halmplane_get_low_level_rx_endpoints'',
      ''int halmplane_get_low_level_rx_endpoints(low_level_rx_endpoint_t**, int*)'', Hal_int 1),
     (''halmplane_tx_carrier_state_change'',
      ''int halmplane_tx_carrier_state_change(const char*, uint64_t, uint64_t, double, const char*, int)'', Hal_int 1),
     (''halmplane_rx_carrier_state_change'',
      ''int halmplane_rx_carrier_state_change(const char*, uint64_t, uint64_t, double, const char*, int)'', Hal_int 1),
     (''halmplane_setUPlaneConfiguration'',
      ''int halmplane_setUPlaneConfiguration(user_plane_configuration_t*)'', Hal_int 1),
     (''halmplane_update_rx_eaxc'',
      ''int halmplane_update_rx_eaxc(const char*, e_axcid_t*)'', Hal_int 1),
     (''halmplane_update_tx_eaxc'',
      ''int halmplane_update_tx_eaxc(const char*, e_axcid_t*)'', Hal_int 1),
     (''halmplane_update_rx_endpoint_compression'',
      ''int halmplane_update_rx_endpoint_compression(const char*, compression_t*)'', Hal_int 1),
     (''halmplane_update_tx_endpoint_compression'',
      ''int halmplane_update_tx_endpoint_compression(const char*, compression_t*)'', Hal_int 1),
     (''halmplane_update_rx_endpoint_compression_dyn_config'',
      ''int halmplane_update_rx_endpoint_compression_dyn_config(const char*, dynamic_compression_configuration_t*)'', Hal_int 1),
     (''halmplane_update_tx_endpoint_compression_dyn_config'',
      ''int halmplane_update_tx_endpoint_compression_dyn_config(const char*, dynamic_compression_configuration_t*)'', Hal_int 1),
     (''halmplane_register_rx_carrier_state_cb'',
      ''int halmplane_register_rx_carrier_state_cb(halmplane_carrier_state_cb_t)'', Hal_int 1),
     (''halmplane_register_tx_carrier_state_cb'',
      ''int halmplane_register_tx_carrier_state_cb(halmplane_carrier_state_cb_t)'', Hal_int 1)]"

definition hal_api :: "hal_function list" where
  "hal_api = api_Alarms @ api_Ald @ api_AntennaCalibration @ api_Beamforming @ api_DelayMgmt @ api_Ecpri @ api_Externalio @ api_Fan @ api_Hardware @ api_Interfaces @ api_ModuleCapability @ api_ProcessingElements @ api_Supervision @ api_Sync @ api_Transceiver @ api_UplaneConf"

section \<open>Start and exit\<close>

text \<open>
  \<open>halmplane_init\<close> and \<open>halmplane_exit\<close> of the module take no argument and give a status. A document is the
  list of its top-level elements; \<open>None\<close> is the dereference of a null pointer.
\<close>

type_synonym ('p, 'm) module_status = "'p \<Rightarrow> 'm \<Rightarrow> int \<times> 'm"

definition firstChild :: "string \<Rightarrow> xml list \<Rightarrow> xml option" where
  "firstChild name nodes = find (\<lambda>n. xml_name n = name) nodes"

text \<open>The name of the library, or that the document does not give one.\<close>

definition module_file :: "xml list option \<Rightarrow> string option option option" where
  "module_file doc =
     (case doc of None \<Rightarrow> Some (Some None)
      | Some nodes \<Rightarrow>
          do { root \<leftarrow> firstChild ''root'' nodes;
               (case firstChild ''halmplane-board-modular'' (xml_children root) of
                  None \<Rightarrow> Some None
                | Some module \<Rightarrow>
                    do { file \<leftarrow> firstChild ''file'' (xml_children module);
                         Some (map_option Some (xml_attribute file ''value'')) }) })"

definition module_call :: "('p, 'm) module_status \<Rightarrow> string \<Rightarrow> 'p loader \<Rightarrow> 'm \<Rightarrow> int \<times> 'p loader \<times> 'm" where
  "module_call code key l m =
     (case loader_get key l of
        (None, l) \<Rightarrow> (0, l, m)
      | (Some fptr, l) \<Rightarrow> (let (module_status, m) = code fptr m in (module_status, l, m)))"

definition halmplane_init ::
  "'p libraries \<Rightarrow> ('p, 'm) module_status \<Rightarrow> xml list option \<Rightarrow> 'p loader \<Rightarrow> 'm \<Rightarrow> (int \<times> 'p loader \<times> 'm) option" where
  "halmplane_init libraries code doc l m =
     map_option (\<lambda>file. case file of
         None \<Rightarrow> (-1, l, m)
       | Some name \<Rightarrow> module_call code ''int halmplane_init(XMLDocument* doc)'' (loader_open libraries name l) m)
       (module_file doc)"

definition halmplane_exit :: "('p, 'm) module_status \<Rightarrow> 'p loader \<Rightarrow> 'm \<Rightarrow> int \<times> 'p loader \<times> 'm" where
  "halmplane_exit code l m = module_call code ''int halmplane_exit()'' l m"

section \<open>The tables of the modules\<close>

text \<open>The keys that the interface documents, and those of the example module.\<close>

definition documented_keys :: "string list" where
  "documented_keys =
    [''int halmplane_init(XMLDocument*)'',
     ''int halmplane_exit()'',
     ''int halmplane_registerOranAlarmCallback(halmplane_oran_alarm_cb_t)'',
     ''halmplane_error_t halmplane_ald_get_counters(halmplane_ald_communication_output_t*)'',
     ''halmplane_error_t halmplane_ald_get_status(halmplane_ald_communication_output_t*)'',
     ''halmplane_error_t halmplane_ald_response(halmplane_ald_communication_input_s*, uint16_t)'',
     ''halmplane_error_t halmplane_ald_request(halmplane_ald_communication_input_t*, uint16_t)'',
     ''halmplane_error_t halmplane_ald_set_receive_mode(halmplane_ald_communication_input_s*, uint16_t)'',
     ''halmplane_error_t halmplane_start_antenna_calibration(const antenna_calibration_data_t*)'',
     ''halmplane_error_t halmplane_apply_beamforming_file(char*)'',
     ''int halmplane_setDUToRUDelayMgmnt(o_ru_delay_management_s*)'',
     ''bool halmplane_message5Enabled()'',
     ''halmplane_error_t halmplane_get_io_value(external_io_t*)'',
     ''halmplane_error_t halmplane_set_io_value(output_setting_t*)'',
     ''halmplane_error_t halmplane_get_fan_name(fan_state_t*)'',
     ''halmplane_error_t halmplane_get_fan_location(fan_state_t*)'',
     ''halmplane_error_t halmplane_get_fan_present_and_operating(fan_state_t*)'',
     ''halmplane_error_t halmplane_get_fan_vendor_code(fan_state_t*)'',
     ''halmplane_error_t halmplane_get_fan_speed(fan_state_t*)'',
     ''halmplane_error_t halmplane_get_fan_target_speed(fan_state_t*)'',
     ''bool halmplane_get_ietf_hardware(ietf_hardware_t* hw)'',
     ''int halmplane_registerHwStateChange(halmplane_notificationHwStateChange_cb_t)'',
     ''int halmplane_registerHwStateOper(halmplane_notificationHwStateOper_cb_t)'',
     ''halmplane_error_t halmplane_get_energysaving_state(hw_component_t*)'',
     ''halmplane_error_t halmplane_get_availability_type(hw_component_t*)'',
     ''halmplane_error_t halmplane_get_label_content(hw_component_t*)'',
     ''halmplane_error_t halmplane_get_product_code(hw_component_t*)'',
     ''halmplane_error_t halmplane_is_energy_saving_enabled(hw_component_t*)'',
     ''halmplane_error_t halmplane_get_dying_gasp_support(hw_component_t*)'',
     ''halmplane_error_t halmplane_get_last_service_date(hw_component_t*)'',
     ''halmplane_error_t halmplane_get_o_ran_name(hw_component_t*)'',
     ''halmplane_error_t halmplane_interface_update(interface_t*)'',
     ''halmplane_error_t halmplane_interface_update_description(const char*, const char*)'',
     ''halmplane_error_t halmplane_interface_update_type(const char*, const char*)'',
     ''halmplane_error_t halmplane_interface_update_enabled(const char*, bool)'',
     ''halmplane_error_t halmplane_interface_update_l2_mtu(const char*, int)'',
     ''halmplane_error_t halmplane_interface_update_vlan_tagging(const char*, bool)'',
     ''halmplane_error_t halmplane_interface_update_base_interface(const char*, const char*)'',
     ''halmplane_error_t halmplane_interface_update_vlan_id(const char*, int)'',
     ''halmplane_error_t halmplane_interface_update_mac_address(const char*, const char*)'',
     ''int halmplane_setDUToRUModuleCapability(module_capability_t*)'',
     ''halmplane_error_t halmplane_update_ru_element(ru_elements_t*)'',
     ''uint32_t halmplane_get_cu_supervison_interval()'',
     ''uint32_t halmplane_set_cu_supervison_interval(uint32_t)'',
     ''halmplane_error_t halmplane_set_ptp_config(const ptp_config_t)'',
     ''halmplane_error_t halmplane_get_ptp_status(ptp_status_t*)'',
     ''halmplane_error_t halmplane_set_synce_config(const synce_config_t)'',
     ''halmplane_error_t halmplane_get_synce_status(synce_status_t*)'',
     ''halmplane_error_t halmplane_set_gnss_config(const gnss_config_t)'',
     ''halmplane_error_t halmplane_get_gnss_status(gnss_status_t*)'',
     ''int halmplane_get_port_transceivers(port_transceivers_t*)'',
     ''int halmplane_get_tx_array(const char* name, tx_array_t*)'',
     ''const char** halmplane_get_tx_array_names()'',
     ''int halmplane_get_low_level_tx_endpoint(const char*, low_level_tx_endpoint_t*)'',
     ''int halmplane_get_low_level_tx_endpoints(low_level_tx_endpoint_t**, int*)'',
     ''int halmplane_get_rx_array(const char*, rx_array_t*)'',
     ''const char** halmplane_get_rx_array_names()'',
     ''int halmplane_get_low_level_rx_endpoint(const char*, low_level_rx_endpoint_t*)'',
     ''int halmplane_get_low_level_rx_endpoints(low_level_rx_endpoint_t**, int*)'',
     ''int halmplane_tx_carrier_state_change(const char*, uint64_t, uint64_t, double, const char*, int)'',
     ''int halmplane_rx_carrier_state_change(const char*, uint64_t, uint64_t, double, const char*, int)'',
     ''int halmplane_setUPlaneConfiguration(user_plane_configuration_t*)'',
     ''int halmplane_update_rx_eaxc(const char*, e_axcid_t*)'',
     ''int halmplane_update_tx_eaxc(const char*, e_axcid_t*)'',
     ''int halmplane_update_rx_endpoint_compression(const char*, compression_t*)'',
     ''int halmplane_update_tx_endpoint_compression(const char*, compression_t*)'',
     ''int halmplane_update_rx_endpoint_compression_dyn_config(const char*, dynamic_compression_configuration_t*)'',
     ''int halmplane_update_tx_endpoint_compression_dyn_config(const char*, dynamic_compression_configuration_t*)'',
     ''int halmplane_register_rx_carrier_state_cb(halmplane_carrier_state_cb_t)'',
     ''int halmplane_register_tx_carrier_state_cb(halmplane_carrier_state_cb_t)'']"

definition example_keys :: "string list" where
  "example_keys =
    [''int halmplane_init(XMLDocument*)'',
     ''int halmplane_exit()'',
     ''halmplane_error_t halmplane_interface_update(interface_t*)'',
     ''halmplane_error_t halmplane_interface_update_description(const char*, const char*)'',
     ''halmplane_error_t halmplane_interface_update_type(const char*, const char*)'',
     ''halmplane_error_t halmplane_interface_update_enabled(const char*, bool)'',
     ''halmplane_error_t halmplane_interface_update_l2_mtu(const char*, int)'',
     ''halmplane_error_t halmplane_interface_update_vlan_tagging(const char*, bool)'',
     ''halmplane_error_t halmplane_interface_update_base_interface(const char*, const char*)'',
     ''halmplane_error_t halmplane_interface_update_vlan_id(const char*, int)'',
     ''halmplane_error_t halmplane_interface_update_mac_address(const char*, const char*)'',
     ''halmplane_error_t halmplane_update_ru_element(ru_elements_t*)'',
     ''int halmplane_setUPlaneConfiguration(user_plane_configuration_t*)'',
     ''int halmplane_update_rx_eaxc(const char*, e_axcid_t*)'',
     ''int halmplane_update_tx_eaxc(const char*, e_axcid_t*)'',
     ''int halmplane_update_rx_endpoint_compression(const char*, compression_t*)'',
     ''int halmplane_update_tx_endpoint_compression(const char*, compression_t*)'',
     ''int halmplane_update_rx_endpoint_compression_dyn_config(const char*, dynamic_compression_configuration_t*)'',
     ''int halmplane_update_tx_endpoint_compression_dyn_config(const char*, dynamic_compression_configuration_t*)'',
     ''int halmplane_register_rx_carrier_state_cb(halmplane_carrier_state_cb_t)'',
     ''int halmplane_register_tx_carrier_state_cb(halmplane_carrier_state_cb_t)'']"

text \<open>\<open>function_map\<close> of the example: the table put into a map, the end of the table left out.\<close>

definition function_map :: "string list \<Rightarrow> (string \<Rightarrow> 'p) \<Rightarrow> string \<Rightarrow> 'p option option" where
  "function_map keys ptr = foldl (\<lambda>m k. m(k \<mapsto> Some (ptr k))) Map.empty keys"

lemma function_map_eq: "function_map keys ptr k = (if k \<in> set keys then Some (Some (ptr k)) else None)"
proof -
  have "foldl (\<lambda>m k. m(k \<mapsto> Some (ptr k))) m keys k = (if k \<in> set keys then Some (Some (ptr k)) else m k)" for m
    by (induction keys arbitrary: m) auto
  then show ?thesis
    by (simp add: function_map_def)
qed

section \<open>What a module is asked\<close>

lemmas api_defs = api_Alarms_def api_Ald_def api_AntennaCalibration_def api_Beamforming_def api_DelayMgmt_def api_Ecpri_def api_Externalio_def api_Fan_def api_Hardware_def api_Interfaces_def api_ModuleCapability_def api_ProcessingElements_def api_Supervision_def api_Sync_def api_Transceiver_def api_UplaneConf_def

lemma documented_keys_eq:
  "documented_keys = [''int halmplane_init(XMLDocument*)'', ''int halmplane_exit()''] @
     map (\<lambda>(f, k, u). if f = ''halmplane_get_tx_array'' then ''int halmplane_get_tx_array(const char* name, tx_array_t*)'' else k) hal_api"
  by (simp add: documented_keys_def hal_api_def api_defs)

lemma api_keys: "list_all (\<lambda>(f, k, u). k \<noteq> ''int halmplane_init(XMLDocument* doc)'') hal_api"
  by (simp add: hal_api_def api_defs)

lemma init_not_documented: "''int halmplane_init(XMLDocument* doc)'' \<notin> set documented_keys"
  using api_keys by (auto simp: documented_keys_eq list_all_iff split: if_splits)

text \<open>A module with the documented table.\<close>

definition documented_module :: "(string \<Rightarrow> 'p option option) \<Rightarrow> bool" where
  "documented_module m \<longleftrightarrow> (\<forall>k. (\<exists>p. m k = Some (Some p)) = (k \<in> set documented_keys)) \<and> (\<forall>k. m k \<noteq> Some None)"

lemma documented_found: "documented_module m \<Longrightarrow> k \<in> set documented_keys \<Longrightarrow> \<exists>p. m k = Some (Some p)"
  by (auto simp: documented_module_def)

lemma not_documented: "documented_module m \<Longrightarrow> k \<notin> set documented_keys \<Longrightarrow> m k = None"
  unfolding documented_module_def by (metis option.exhaust)

lemma opened: "libraries file = Some (Some m) \<Longrightarrow> registered_functions (loader_open libraries file l) = m"
  by (simp add: loader_open_def)

lemma loader_get_found: "registered_functions l k = Some (Some p) \<Longrightarrow> loader_get k l = (Some p, l)"
  by (simp add: loader_get_def)

lemma forward_found:
  assumes "registered_functions l k = Some (Some p)"
  shows "hal_forward code (f, k, u) args l w = (let (r, w') = code p args w in (r, l, w'))"
  using assms by (simp add: hal_forward_def loader_get_found)

lemma forward_missing:
  assumes "registered_functions l k = None"
  shows "\<exists>l'. hal_forward code (f, k, u) args l w = (u, l', w)"
  using assms by (simp add: hal_forward_def loader_get_def)

lemma tx_array_function:
  assumes "(''halmplane_get_tx_array'', k, u) \<in> set hal_api"
  shows "k = ''int halmplane_get_tx_array(const char*, tx_array_t*)'' \<and> u = Hal_int 1"
  using assms by (simp add: hal_api_def api_defs)

lemma tx_array_not_documented: "''int halmplane_get_tx_array(const char*, tx_array_t*)'' \<notin> set documented_keys"
  by (simp add: documented_keys_def)

text \<open>
  What a caller of a function gets: of the one that reads a transmit array the error, of every other the
  result of the module's function of the key.
\<close>

definition answers :: "(string \<Rightarrow> 'p option option) \<Rightarrow> 'p loader \<Rightarrow> hal_function \<Rightarrow> ('p, 'a, 'm) module_code \<Rightarrow> 'a \<Rightarrow> 'm \<Rightarrow> bool" where
  "answers m l fun run args w =
     (case fun of (f, k, u) \<Rightarrow>
        if f = ''halmplane_get_tx_array'' then \<exists>l''. hal_forward run fun args l w = (Hal_int 1, l'', w)
        else \<exists>p. m k = Some (Some p) \<and> hal_forward run fun args l w = (let (r, w') = run p args w in (r, l, w')))"

lemma api_answers:
  assumes "documented_module m" "(f, k, u) \<in> set hal_api"
    and "registered_functions l = m(''int halmplane_init(XMLDocument* doc)'' \<mapsto> None)"
  shows "answers m l (f, k, u) run args w"
proof -
  have "k \<noteq> ''int halmplane_init(XMLDocument* doc)''"
    using assms(2) api_keys by (auto simp: list_all_iff)
  then have k: "registered_functions l k = m k"
    using assms(3) by simp
  show ?thesis
  proof (cases "f = ''halmplane_get_tx_array''")
    case True
    then have "m k = None" "u = Hal_int 1"
      using tx_array_function assms(2) not_documented [OF assms(1) tx_array_not_documented] by auto
    then show ?thesis
      using True k forward_missing [of l k run f u args w] by (simp add: answers_def)
  next
    case False
    then have "k \<in> set documented_keys"
      using assms(2) by (force simp: documented_keys_eq)
    then obtain p where "m k = Some (Some p)"
      using documented_found assms(1) by blast
    then show ?thesis
      using False k forward_found [of l k p run f u args w] by (simp add: answers_def)
  qed
qed

text \<open>
  C27: a module that offers exactly the documented functions is asked for each of them but two: the
  function that starts the module is looked up under another key and never called, and neither is the
  one that reads a transmit array, whose caller always gets the error.
\<close>

theorem documented_module_asked:
  assumes "documented_module m" "libraries (Some lib) = Some (Some m)" "module_file doc = Some (Some (Some lib))"
  shows "\<exists>l'. halmplane_init libraries code doc l w = Some (0, l', w) \<and>
    (\<forall>f \<in> set hal_api. \<forall>run args v. answers m l' f run args v)"
proof -
  let ?init = "''int halmplane_init(XMLDocument* doc)''"
  let ?open = "loader_open libraries (Some lib) l"
  let ?l = "?open\<lparr>registered_functions := m(?init \<mapsto> None)\<rparr>"
  have "registered_functions ?open = m" "m ?init = None"
    using assms(2) not_documented [OF assms(1) init_not_documented] by (auto intro: opened)
  then have "halmplane_init libraries code doc l w = Some (0, ?l, w)"
    using assms(3) by (simp add: halmplane_init_def module_call_def loader_get_def)
  moreover have "registered_functions ?l = m(?init \<mapsto> None)"
    by simp
  ultimately show ?thesis
    using api_answers [OF assms(1)] by fast
qed

text \<open>A module that keeps the keys of the functions that were called, and a file that names it.\<close>

definition demo_hal :: "string option \<Rightarrow> (string \<Rightarrow> string option option) option option" where
  "demo_hal file = Some (Some (function_map documented_keys (\<lambda>k. k)))"

definition demo_board :: "xml list" where
  "demo_board = [Xml ''root'' [] [Xml ''halmplane-board-modular'' [] [Xml ''file'' [(''value'', ''mod.so'')] []]]]"

lemma demo_documented: "documented_module (function_map documented_keys ptr)"
  by (simp add: documented_module_def function_map_eq)

theorem documented_module_asked_witness:
  "\<exists>l'. halmplane_init demo_hal (\<lambda>p w. (1, p # w)) (Some demo_board) new_loader [] = Some (0, l', []) \<and>
    fst (hal_forward (\<lambda>p x w. (Hal_bool x, p # w)) (''halmplane_message5Enabled'', ''bool halmplane_message5Enabled()'', Hal_bool False)
      True l' []) = Hal_bool True"
proof -
  have board: "module_file (Some demo_board) = Some (Some (Some ''mod.so''))"
    by (simp add: module_file_def firstChild_def demo_board_def xml_attribute_def)
  have lib: "demo_hal (Some ''mod.so'') = Some (Some (function_map documented_keys (\<lambda>k. k)))"
    by (simp add: demo_hal_def)
  let ?f = "(''halmplane_message5Enabled'', ''bool halmplane_message5Enabled()'', Hal_bool False)"
  let ?run = "(\<lambda>p x w. (Hal_bool x, p # w)) :: (string, bool, string list) module_code"
  have "?f \<in> set hal_api"
    by (simp add: hal_api_def api_Ecpri_def)
  have "\<exists>l'. halmplane_init demo_hal (\<lambda>p w. (1, p # w)) (Some demo_board) new_loader [] = Some (0, l', []) \<and>
    (\<forall>f \<in> set hal_api. \<forall>(run :: (string, bool, string list) module_code) args v.
      answers (function_map documented_keys (\<lambda>k. k)) l' f run args v)"
    by (rule documented_module_asked) (rule demo_documented, rule lib, rule board)
  then obtain l' where l': "halmplane_init demo_hal (\<lambda>p w. (1, p # w)) (Some demo_board) new_loader [] = Some (0, l', [])"
    and "\<forall>f \<in> set hal_api. \<forall>(run :: (string, bool, string list) module_code) args v.
      answers (function_map documented_keys (\<lambda>k. k)) l' f run args v"
    by (elim exE conjE)
  from bspec [OF this(2) \<open>?f \<in> set hal_api\<close>]
  have "answers (function_map documented_keys (\<lambda>k. k)) l' ?f ?run True []"
    by (elim allE)
  then have "fst (hal_forward ?run ?f True l' []) = Hal_bool True"
    by (auto simp: answers_def)
  with l' show ?thesis
    by (intro exI [of _ l'] conjI)
qed

end
