(* ===== verification/ExampleModule.thy ===== *)
theory ExampleModule
  imports HalLoader UplaneEndpoints
begin

text \<open>
  The example module of \<open>libhalmplane\<close>, which the shipped configuration selects, below the handler of
  the user plane: its table lists neither of the functions that change the state of a carrier, although
  the module has them.
\<close>

section \<open>The start of the module\<close>

text \<open>The start and the exit of the example succeed and do nothing.\<close>

definition example_status :: "'p \<Rightarrow> 'm \<Rightarrow> int \<times> 'm" where
  "example_status fptr m = (0, m)"

text \<open>The functions that a caller of the interface reaches, once the module is started.\<close>

definition reaches :: "'p loader \<Rightarrow> string \<Rightarrow> bool" where
  "reaches l key \<longleftrightarrow> fst (loader_get key l) \<noteq> None"

lemma example_started:
  assumes "libraries (Some lib) = Some (Some (function_map example_keys ptr))" "module_file doc = Some (Some (Some lib))"
  shows "\<exists>l'. halmplane_init libraries example_status doc l m = Some (0, l', m) \<and> (\<forall>k. reaches l' k = (k \<in> set example_keys))"
proof -
  have no: "''int halmplane_init(XMLDocument* doc)'' \<notin> set example_keys"
    by (simp add: example_keys_def)
  have "registered_functions (loader_open libraries (Some lib) l) = function_map example_keys ptr"
    using assms(1) by (rule opened)
  with no assms(2) show ?thesis
    by (auto simp: halmplane_init_def module_call_def loader_get_def function_map_eq reaches_def)
qed

lemma carrier_state_missing: "hal_symbol (Carrier_state_change d n b c g v a) \<notin> set example_keys"
  by (cases d) (simp_all add: example_keys_def hal_symbol_def txrx_def)

text \<open>
  C28: with the example module the activation of a receive carrier is always refused, and the module is
  not asked: the start of the module succeeds, but the function is not in its table.
\<close>

theorem example_refuses_activation:
  assumes "libraries (Some lib) = Some (Some (function_map example_keys ptr))" "module_file doc = Some (Some (Some lib))"
    and "halmplane_init libraries example_status doc l m = Some (r, l', m')" "e_loaded env = reaches l'"
    and "CHR '']'' \<notin> set c" "length c < 2 ^ 63" "mReadOnlyPaths s = {}"
    and "changes = [\<lparr>c_oper = SR_OP_MODIFIED, c_old = Some old,
      c_new = Some \<lparr>v_xpath = rx_active_path c, v_data = SR_ENUM ''ACTIVE''\<rparr>\<rparr>]"
  shows "r = 0 \<and> uplane_change env SR_EV_CHANGE changes s = (SR_ERR_INVAL_ARG, s)"
proof -
  have r: "r = 0" "\<And>k. reaches l' k = (k \<in> set example_keys)"
    using example_started [of libraries lib ptr doc l m] assms(1,2,3) by auto
  then have "\<not> e_loaded env (hal_symbol (Carrier_state_change Rx n b f g v a))" for n b f g v a
    using carrier_state_missing assms(4) by metis
  then have "change_carrier env Rx ''gain-correction'' c ''ACTIVE'' VALUE_VALIDATE s = (SR_ERR_INVAL_ARG, s)"
    by (simp add: change_carrier_def hal_def Let_def)
  then show ?thesis
    using r(1) change_active [OF assms(5-8), of env] rx_active_path_parts [OF assms(5,6)]
    by (simp add: handleActivate_def)
qed

definition example_libraries :: "string option \<Rightarrow> (string \<Rightarrow> string option option) option option" where
  "example_libraries file = Some (Some (function_map example_keys (\<lambda>k. k)))"

theorem example_refuses_activation_witness:
  "\<exists>l'. halmplane_init example_libraries example_status (Some demo_board) new_loader () = Some (0, l', ()) \<and>
    uplane_change (demo_env\<lparr>e_loaded := reaches l'\<rparr>) SR_EV_CHANGE
      [\<lparr>c_oper = SR_OP_MODIFIED, c_old = Some \<lparr>v_xpath = rx_active_path ''c'', v_data = SR_ENUM ''INACTIVE''\<rparr>,
        c_new = Some \<lparr>v_xpath = rx_active_path ''c'', v_data = SR_ENUM ''ACTIVE''\<rparr>\<rparr>] fresh_state = (SR_ERR_INVAL_ARG, fresh_state)"
proof -
  have lib: "example_libraries (Some ''mod.so'') = Some (Some (function_map example_keys (\<lambda>k. k)))"
    by (simp add: example_libraries_def)
  have board: "module_file (Some demo_board) = Some (Some (Some ''mod.so''))"
    by (simp add: module_file_def firstChild_def demo_board_def xml_attribute_def)
  obtain l' where l': "halmplane_init example_libraries example_status (Some demo_board) new_loader () = Some (0, l', ())"
    using example_started [of example_libraries "''mod.so''" "\<lambda>k. k" "Some demo_board" new_loader "()"] lib board by blast
  from example_refuses_activation [of example_libraries "''mod.so''" "\<lambda>k. k" "Some demo_board" new_loader "()" 0 l' "()"
      "demo_env\<lparr>e_loaded := reaches l'\<rparr>" "''c''" fresh_state, OF lib board l']
  show ?thesis
    using l' by (simp add: fresh_state_def)
qed

end
