(* ===== verification/Spec2Isabelle.thy ===== *)
theory Spec2Isabelle
  imports LzoClient I2cEnv BootBanks I2cGet I2cSet I2cDump I2cDetect GpioDemo DeviceTools UplaneCalls UplaneEndpoints
    ServerStart LogHistory Crc Base64 OranStart LeafTree ExampleModule
begin

text \<open>
  A model of Open M-Plane: the management-plane server of an O-RAN radio unit
  (\<^verbatim>\<open>mplane_server\<close>, \<^verbatim>\<open>libhalmplane\<close>) and the command-line tools of its board image
  (\<^verbatim>\<open>meta-mplane\<close>). Every definition is a translation of the C or C++ function it is named
  after; the theorems are about these definitions.

  \<^bold>\<open>Parts and how they interact.\<close> The server keeps its YANG models in the data store of the
  library \<open>sysrepo\<close>. A manager of modules (\<^verbatim>\<open>yang-manager/src/YangModuleMgr.cpp\<close>,
  \<^verbatim>\<open>yang-models/src/YangMgrServer.cpp\<close>) reads the configuration (\<^verbatim>\<open>ConfigParser/src\<close>), opens the
  data store (\<^verbatim>\<open>RadioDatastore\<close>, \<^verbatim>\<open>yang-sysrepo/src/RadioDatastoreSysrepo.cpp\<close>), installs the
  modules and activates the store; then the handlers of the models start
  (\<^verbatim>\<open>yang-handlers/src/YangHandlerMgr.cpp\<close>). A handler (\<^verbatim>\<open>YangHandlerSysrepoUnlogged.cpp\<close>)
  subscribes to changes, which arrive in the callback of \<^verbatim>\<open>HandlerCallback.cpp\<close>: it refuses
  changes below read-only paths, has the handler validate the rest and, when the data store has
  accepted them, apply them; persistent values are saved (\<^verbatim>\<open>YangPersist.cpp\<close>). The handlers of the
  server (\<^verbatim>\<open>OranYangHandlerMgr.cpp\<close>) are the access control of NETCONF (\<^verbatim>\<open>IetfNetconfAcmHandler.cpp\<close>),
  the users and their passwords (\<^verbatim>\<open>OranUserMgmtHandler.cpp\<close>), the call-home clients
  (\<^verbatim>\<open>IetfNetconfServerHandler.cpp\<close>), the interfaces (\<^verbatim>\<open>IetfInterfacesHandler.cpp\<close>), the processing
  elements (\<^verbatim>\<open>OranProcessingElementHandler.cpp\<close>), the module capabilities (\<^verbatim>\<open>OranModuleCapHandler.cpp\<close>)
  and the user plane (\<^verbatim>\<open>OranUplaneConfHandler.cpp\<close> with \<^verbatim>\<open>OranYangCarrierMgr.cpp\<close>), which passes
  carriers and endpoints on to the hardware through the module loader of \<^verbatim>\<open>libhalmplane\<close>. The server
  uses libraries of its own: LZO compression, checksums, Base64, a tokeniser, the history of the
  log. The tools are programs on the I2C bus, the GPIO chip, the memory and the flash of the board.

  \<^bold>\<open>Theories.\<close>
  \<^item> \<^verbatim>\<open>Prelude\<close>, \<^verbatim>\<open>CLib\<close>, \<^verbatim>\<open>CppLib\<close>, \<^verbatim>\<open>IoWorld\<close>: integer types, the parts of the C and C++
    libraries in use, and the world of a command-line tool (the kernel answers a call from the
    history of calls; \<open>user_ack\<close> of \<^verbatim>\<open>util.c\<close>).
  \<^item> \<^verbatim>\<open>Memory\<close>, \<^verbatim>\<open>LzoDecompress\<close>, \<^verbatim>\<open>LzoCompress\<close>, \<^verbatim>\<open>LzoSupport\<close>: \<^verbatim>\<open>xcommon/lzo/src/minilzo.c\<close>. A
    buffer is the list of its bytes, a pointer an offset, an access outside a buffer the value
    \<open>None\<close>. \<^verbatim>\<open>LzoSafe\<close>, \<^verbatim>\<open>LzoFormat\<close>, \<^verbatim>\<open>LzoStream\<close>, \<^verbatim>\<open>LzoBuilds\<close>, \<^verbatim>\<open>LzoEncode\<close>, \<^verbatim>\<open>LzoMatch\<close>,
    \<^verbatim>\<open>LzoRoundtrip\<close> show memory safety, the meaning of streams, that the two builds agree, and that
    decompression inverts compression. A stream is data there: a list of \<open>instr\<close>, literal runs and
    matches of the kinds M1, far M1, M2, M3 and M4, with its meaning and its bytes. \<^verbatim>\<open>LzoClient\<close> is the class \<open>Lzo\<close> on top of them.
  \<^item> \<^verbatim>\<open>Smbus\<close>, \<^verbatim>\<open>I2cBusses\<close>, \<^verbatim>\<open>I2cGet\<close>, \<^verbatim>\<open>I2cSet\<close>, \<^verbatim>\<open>I2cDump\<close>, \<^verbatim>\<open>I2cDetect\<close>, \<^verbatim>\<open>GpioDemo\<close>,
    \<^verbatim>\<open>DeviceTools\<close>: the tools, one theory for each file of
    \<^verbatim>\<open>recipes-apps\<close>. \<^verbatim>\<open>RegDevice\<close> is the chip that the tools are shown to read and write
    correctly: it answers at one slave address and only through the descriptor that opening the file
    of its bus gave, both arbitrary; its registers are plain ones, or lie in banks that a register selects.
  \<^item> \<^verbatim>\<open>BootEnv\<close>, \<^verbatim>\<open>BootBanks\<close>, \<^verbatim>\<open>I2cEnv\<close>: the environment of the boot loader
    (\<^verbatim>\<open>BootEnvDevice.cpp\<close>, \<^verbatim>\<open>BootEnv.cpp\<close>, \<^verbatim>\<open>I2cEnv.cpp\<close>): one copy in the flash, the two banks and the
    program. The flash is a parameter, the record \<open>mtd\<close> of what the system calls do with its state; what
    a change leaves is stated of the flash, as a program that starts anew reads it.
  \<^item> \<^verbatim>\<open>YangParam\<close>, \<^verbatim>\<open>XpathUtils\<close>, \<^verbatim>\<open>YangConfig\<close>, \<^verbatim>\<open>YangPersist\<close>, \<^verbatim>\<open>Tokeniser\<close>: the values, paths and
    the tree of the configuration, the saved values; \<^verbatim>\<open>ConfigParser\<close>: the elements of the configuration
    from its XML document; \<^verbatim>\<open>YangParams\<close>, \<^verbatim>\<open>SysrepoVals\<close>, \<^verbatim>\<open>YangPaths\<close>, \<^verbatim>\<open>LeafTree\<close>: lists of parameters
    and their conversion to values of \<open>sysrepo\<close>, paths made of elements, the tree of operational leaves.
  \<^item> \<^verbatim>\<open>SysrepoError\<close>, \<^verbatim>\<open>Datastore\<close>, \<^verbatim>\<open>DatastoreOps\<close>: the state machine of the data store and its
    operations. The record \<open>datastore\<close> holds the members of both classes and the list of the calls
    made to \<open>sysrepo\<close>, each with what it threw.
  \<^item> \<^verbatim>\<open>ModuleMgr\<close>, \<^verbatim>\<open>ModuleStart\<close>, \<^verbatim>\<open>ServerStart\<close>: the modules, the start of the manager and of the
    handlers. The shared pointers of the two maps of the manager are positions in a list.
  \<^item> \<^verbatim>\<open>SysrepoHandler\<close>, \<^verbatim>\<open>HandlerCallback\<close>: the base of the handlers and the change callback, for
    every handler by a record of hooks. A session that throws while the changes are read is a
    case of its own there (\<open>module_change_it\<close>).
  \<^item> \<^verbatim>\<open>CarrierState\<close>, \<^verbatim>\<open>CarrierConfig\<close>, \<^verbatim>\<open>CarrierMgr\<close>, \<^verbatim>\<open>UplaneHandler\<close>: the user plane, with
    \<^verbatim>\<open>MplaneUplaneConf.cpp\<close> of \<^verbatim>\<open>libhalmplane/modular\<close>; \<^verbatim>\<open>UplaneInvariant\<close>, \<^verbatim>\<open>UplaneCalls\<close>,
    \<^verbatim>\<open>UplaneCarriers\<close>, \<^verbatim>\<open>UplaneEndpoints\<close>: what holds in every reachable state and which calls reach
    the hardware. \<^verbatim>\<open>HalLoader\<close> is the loader of the modules of \<^verbatim>\<open>libhalmplane\<close>, \<^verbatim>\<open>ExampleModule\<close>
    the shipped module below it.
  \<^item> \<^verbatim>\<open>UserMgmt\<close>, \<^verbatim>\<open>NetconfServer\<close>, \<^verbatim>\<open>RuElements\<close>, \<^verbatim>\<open>Interfaces\<close>, \<^verbatim>\<open>ModuleCap\<close>: one handler each;
    \<^verbatim>\<open>OranHandlers\<close>, \<^verbatim>\<open>OranStart\<close>: the handlers together, and what their start leaves.
  \<^item> \<^verbatim>\<open>NacmRules\<close>, \<^verbatim>\<open>Nacm\<close>: the 374 rules of the seven groups and the handler that writes them;
    \<^verbatim>\<open>NacmAccess\<close>: what a configuration of rules grants by RFC 8341, and the table of permissions
    the rules are meant to give, with the protection a node carries in its model
    (\<^verbatim>\<open>nacm:default-deny-write\<close>, \<^verbatim>\<open>nacm:default-deny-all\<close>); \<^verbatim>\<open>NacmGrants\<close>, \<^verbatim>\<open>NacmSafety\<close>: they give it.
  \<^item> \<^verbatim>\<open>Crc\<close>, \<^verbatim>\<open>Base64\<close>, \<^verbatim>\<open>LogHistory\<close>: the small libraries.

  \<^bold>\<open>Interfaces.\<close> \<open>forward_copy\<close> (a copy of overlapping blocks; provided by the chunked copy and by
  the byte loop), \<open>block_codec\<close> (what the class \<open>Lzo\<close> needs of a codec; provided by minilzo with
  either decompressor), \<open>call_class\<close> (a class of system calls that a program does not make),
  \<open>register_chip\<close> (reading and writing a register; provided by \<^verbatim>\<open>smbus.c\<close> on a chip of
  any kind), \<open>uplane_inv\<close> and
  \<open>change_handler\<close> (an invariant of the primitive steps of the user plane, carried over to the
  hooks and then to the change callback; interpreted for the invariant of the carriers and for
  every class of calls), \<open>rule_sets\<close> (families of rules with distinct names).

  \<^bold>\<open>Bounds and fuel.\<close> The loops that end for a reason of their own are recursions with measures or
  structural recursions; \<open>key_values\<close> and \<open>getTokens\<close> are partial functions that are shown to end.
  The decompressor's loop takes fuel, and enough of it is shown to exist for every input. The
  block reads of \<open>i2cdump\<close> have fuel 256, one for every byte that can be left, and its buffer has
  288 bytes. \<open>getKeyValues\<close> is bounded by a path of $2^{32}$ characters, where its counter wraps;
  \<open>Base64::decode\<close> is \<open>None\<close> from a text of $2^{31}$ characters, where its \<open>int\<close> is negative.

  \<^bold>\<open>Assumptions.\<close> The target is LP64 and little-endian. What \<open>sysrepo\<close> answers or throws, the files,
  the documents of the XML library, the libraries of the hardware modules, the flash and the texts of
  floating-point numbers are parameters. A subscription
  to a whole module has an empty path. An exception in the creation of the operational leaves is
  \<open>None\<close>. The defaults of the access control are those of \<^verbatim>\<open>scripts/o-ran-user-config.sh\<close>. Locks make
  the operations they guard single steps; callbacks of the hardware and of the data store may come
  in any order (the step relation \<open>reachable\<close>).

  \<^bold>\<open>Not modelled.\<close> The generated classes of the YANG modules (\<^verbatim>\<open>yang-models/src/YangModule*.cpp\<close>) and
  the generated start-up code of the board (\<^verbatim>\<open>psu_init*.c\<close>), which are tables of constants; the SSH and SFTP sessions, the
  client and the monitoring of \<open>netopeer\<close>, which only drive their libraries; signal processing and
  wave files; timers, threads and services; test programs. The
  list of components in the manifest names them with the reasons.
\<close>

end
